(* ===== verification/Prelude.thy ===== *)
theory Prelude
  imports Main "HOL-Library.List_Lexorder" "HOL-Library.Char_ord" "HOL-Library.Multiset"
    "HOL-Library.Sublist" "HOL-Library.Word"
begin

text \<open>
  Shared vocabulary of the development.

  \<^item> Errors are values: \<open>err\<close> carries the \<open>errorx\<close> type of the Go error and the fixed part
    of its message; a fallible function returns \<open>'a result\<close>, that is \<open>err + 'a\<close>.
    \<open>Wrap\<close> replaces the type of an error and \<open>Decorate\<close> keeps it, as in \<open>errorx\<close>.
  \<^item> Stateful code is a state transformer \<open>('s, 'a) action\<close> that returns a result and the new
    state; the state is returned on errors too, since a Go function that fails keeps the effects
    of the calls it made before.
  \<^item> \<open>sort_by\<close> models \<open>sort.Slice\<close>/\<open>sort.SliceStable\<close> with a \<open>less\<close> callback; the locales
    \<open>weak_less\<close> and \<open>total_less\<close> are the contract of such a callback and the facts a client of
    the sort may rely on.
\<close>

named_theorems result_defs \<open>definitions of the result and action combinators\<close>
named_theorems go_std \<open>unfolding rules of the Go standard library model\<close>

section \<open>Errors and results\<close>

datatype error_type =
    IllegalArgument | IllegalState | IllegalFormat | ExternalError | InternalError
  | AssertionFailed

datatype err = Err (err_type: error_type) (err_msg: string)

type_synonym 'a result = "err + 'a"

type_synonym ('s, 'a) action = "'s \<Rightarrow> 'a result \<times> 's"

definition wrap :: "error_type \<Rightarrow> string \<Rightarrow> err \<Rightarrow> err" where
  "wrap t m e = Err t m"

definition decorate :: "string \<Rightarrow> err \<Rightarrow> err" where
  "decorate m e = Err (err_type e) m"

definition is_ok :: "'a result \<Rightarrow> bool" where
  "is_ok r \<longleftrightarrow> (case r of Inl _ \<Rightarrow> False | Inr _ \<Rightarrow> True)"

definition rbind :: "'a result \<Rightarrow> ('a \<Rightarrow> 'b result) \<Rightarrow> 'b result" where
  [result_defs]: "rbind r f = (case r of Inl e \<Rightarrow> Inl e | Inr x \<Rightarrow> f x)"

definition map_err :: "(err \<Rightarrow> err) \<Rightarrow> 'a result \<Rightarrow> 'a result" where
  [result_defs]: "map_err f r = (case r of Inl e \<Rightarrow> Inl (f e) | Inr x \<Rightarrow> Inr x)"

text \<open>A Go loop \<open>for _, x := range xs { if err := f(x); err != nil { return err } }\<close>.\<close>

fun check_all :: "('a \<Rightarrow> unit result) \<Rightarrow> 'a list \<Rightarrow> unit result" where
  "check_all f [] = Inr ()"
| "check_all f (x # xs) = rbind (f x) (\<lambda>_. check_all f xs)"

fun rmap :: "('a \<Rightarrow> 'b result) \<Rightarrow> 'a list \<Rightarrow> 'b list result" where
  "rmap f [] = Inr []"
| "rmap f (x # xs) = rbind (f x) (\<lambda>y. rbind (rmap f xs) (\<lambda>ys. Inr (y # ys)))"

definition sret :: "'a \<Rightarrow> ('s, 'a) action" where
  [result_defs]: "sret x s = (Inr x, s)"

definition sfail :: "err \<Rightarrow> ('s, 'a) action" where
  [result_defs]: "sfail e s = (Inl e, s)"

definition sbind :: "('s, 'a) action \<Rightarrow> ('a \<Rightarrow> ('s, 'b) action) \<Rightarrow> ('s, 'b) action" where
  [result_defs]: "sbind m f s = (case m s of (Inl e, s') \<Rightarrow> (Inl e, s') | (Inr x, s') \<Rightarrow> f x s')"

definition slift :: "'a result \<Rightarrow> ('s, 'a) action" where
  [result_defs]: "slift r s = (r, s)"

definition sread :: "('s \<Rightarrow> 'a result) \<Rightarrow> ('s, 'a) action" where
  [result_defs]: "sread f s = (f s, s)"

definition smap_err :: "(err \<Rightarrow> err) \<Rightarrow> ('s, 'a) action \<Rightarrow> ('s, 'a) action" where
  [result_defs]: "smap_err f m s = (case m s of (r, s') \<Rightarrow> (map_err f r, s'))"

fun seach :: "('a \<Rightarrow> ('s, unit) action) \<Rightarrow> 'a list \<Rightarrow> ('s, unit) action" where
  "seach f [] = sret ()"
| "seach f (x # xs) = sbind (f x) (\<lambda>_. seach f xs)"

lemma is_ok_simps [simp]: "is_ok (Inr x)" "\<not> is_ok (Inl e)"
  by (simp_all add: is_ok_def)

lemma is_ok_unit: "is_ok (r :: unit result) \<longleftrightarrow> r = Inr ()"
  by (cases r) auto

lemma rbind_simps [simp]:
  "rbind (Inl e) f = Inl e" "rbind (Inr x) f = f x"
  by (simp_all add: rbind_def)

lemma rbind_Inr_iff: "rbind r f = Inr y \<longleftrightarrow> (\<exists>x. r = Inr x \<and> f x = Inr y)"
  by (cases r) auto

lemma rbind_Inr_unit: "rbind r f = Inr () \<longleftrightarrow> (\<exists>x. r = Inr x \<and> f x = Inr ())"
  by (rule rbind_Inr_iff)

lemma map_err_simps [simp]:
  "map_err f (Inl e) = Inl (f e)" "map_err f (Inr x) = Inr x"
  by (simp_all add: map_err_def)

lemma map_err_Inr_iff [simp]: "map_err f r = Inr x \<longleftrightarrow> r = Inr x"
  by (cases r) auto

lemma err_type_wrap [simp]: "err_type (wrap t m e) = t"
  by (simp add: wrap_def)

lemma err_type_decorate [simp]: "err_type (decorate m e) = err_type e"
  by (simp add: decorate_def)

lemma check_all_Inr: "check_all f xs = Inr () \<longleftrightarrow> (\<forall>x \<in> set xs. f x = Inr ())"
  by (induction xs) (auto simp: rbind_Inr_iff)

lemma rmap_Inr: "rmap f xs = Inr ys \<longleftrightarrow> list_all2 (\<lambda>x y. f x = Inr y) xs ys"
  by (induction xs arbitrary: ys) (auto simp: rbind_Inr_iff list_all2_Cons1)

lemma rmap_member: "rmap f xs = Inr ys \<Longrightarrow> y \<in> set ys \<Longrightarrow> \<exists>x \<in> set xs. f x = Inr y"
  by (induction xs arbitrary: ys) (auto simp: rbind_Inr_iff)

lemma rmap_set: "rmap f xs = Inr ys \<Longrightarrow> set ys = {y. \<exists>x \<in> set xs. f x = Inr y} \<and> (\<forall>x \<in> set xs. \<exists>y. f x = Inr y)"
  by (induction xs arbitrary: ys) (auto simp: rbind_Inr_iff)

lemma rmap_total: "\<forall>x \<in> set xs. \<exists>y. f x = Inr y \<Longrightarrow> \<exists>ys. rmap f xs = Inr ys"
  by (induction xs) fastforce+

lemma sret_apply [simp]: "sret x s = (Inr x, s)"
  by (simp add: sret_def)

lemma sfail_apply [simp]: "sfail e s = (Inl e, s)"
  by (simp add: sfail_def)

lemma slift_apply [simp]: "slift r s = (r, s)"
  by (simp add: slift_def)

lemma sread_apply [simp]: "sread f s = (f s, s)"
  by (simp add: sread_def)

lemma smap_err_apply:
  "smap_err f m s = (map_err f (fst (m s)), snd (m s))"
  by (simp add: smap_err_def split: prod.split)

lemma sbind_Inr_iff:
  "sbind m f s = (Inr y, s'') \<longleftrightarrow> (\<exists>x s'. m s = (Inr x, s') \<and> f x s' = (Inr y, s''))"
  by (auto simp: sbind_def split: prod.splits sum.splits)

lemma sbind_cases:
  assumes "sbind m f s = (r, s'')"
  obtains e where "m s = (Inl e, s'')" "r = Inl e"
  | x s' where "m s = (Inr x, s')" "f x s' = (r, s'')"
  using assms by (auto simp: sbind_def split: prod.splits sum.splits)

lemma sbind_eqI:
  "m s = (Inr x, s') \<Longrightarrow> sbind m f s = f x s'"
  "m s = (Inl e, s') \<Longrightarrow> sbind m f s = (Inl e, s')"
  by (simp_all add: sbind_def)

lemma sbind_slift [simp]:
  "sbind (slift (Inr x)) f s = f x s" "sbind (slift (Inl e)) f s = (Inl e, s)"
  by (simp_all add: sbind_def)

lemma sbind_sread:
  "sbind (sread g) f s = (case g s of Inl e \<Rightarrow> (Inl e, s) | Inr x \<Rightarrow> f x s)"
  by (simp add: sbind_def split: sum.split)

text \<open>An action that leaves a part of the state as it is, whatever its result.\<close>

named_theorems keeps_intros \<open>compositional rules for actions that keep a part of the state\<close>

definition keeps :: "('s \<Rightarrow> 'b) \<Rightarrow> ('s, 'a) action \<Rightarrow> bool" where
  "keeps f m \<longleftrightarrow> (\<forall>s. f (snd (m s)) = f s)"

lemma keepsD: "keeps f m \<Longrightarrow> m s = (r, s') \<Longrightarrow> f s' = f s"
  by (metis keeps_def snd_conv)

lemma keeps_basic [keeps_intros]:
  "keeps f (sret x)" "keeps f (sfail e)" "keeps f (slift r)" "keeps f (sread g)"
  by (simp_all add: keeps_def)

lemma keeps_sbind [keeps_intros]: "keeps f m \<Longrightarrow> (\<And>x. keeps f (g x)) \<Longrightarrow> keeps f (sbind m g)"
  unfolding keeps_def
proof
  fix s
  assume m: "\<forall>s. f (snd (m s)) = f s" and g: "\<And>x. \<forall>s. f (snd (g x s)) = f s"
  show "f (snd (sbind m g s)) = f s"
    using m[rule_format, of s] g by (cases "m s"; cases "fst (m s)") (auto simp: sbind_def)
qed

lemma keeps_smap_err [keeps_intros]: "keeps f m \<Longrightarrow> keeps f (smap_err h m)"
  by (simp add: keeps_def smap_err_apply)

lemma keeps_seach [keeps_intros]: "(\<And>x. keeps f (g x)) \<Longrightarrow> keeps f (seach g xs)"
  by (induction xs) (auto intro: keeps_intros)

lemma keeps_if [keeps_intros]: "(c \<Longrightarrow> keeps f m) \<Longrightarrow> (\<not> c \<Longrightarrow> keeps f n) \<Longrightarrow> keeps f (if c then m else n)"
  by simp

lemma keeps_case_prod [keeps_intros]: "(\<And>a b. keeps f (g a b)) \<Longrightarrow> keeps f (case x of (a, b) \<Rightarrow> g a b)"
  by (cases x) simp

lemma keeps_case_option [keeps_intros]:
  "keeps f m \<Longrightarrow> (\<And>a. keeps f (g a)) \<Longrightarrow> keeps f (case x of None \<Rightarrow> m | Some a \<Rightarrow> g a)"
  by (cases x) simp_all

lemma keeps_case_sum [keeps_intros]:
  "(\<And>a. keeps f (g a)) \<Longrightarrow> (\<And>b. keeps f (h b)) \<Longrightarrow> keeps f (case x of Inl a \<Rightarrow> g a | Inr b \<Rightarrow> h b)"
  by (cases x) simp_all

text \<open>An action that changes a part of the state in one way only, if at all.\<close>

definition may :: "('s \<Rightarrow> 'b) \<Rightarrow> ('b \<Rightarrow> 'b) \<Rightarrow> ('s, 'a) action \<Rightarrow> bool" where
  "may f h m \<longleftrightarrow> (\<forall>s. f (snd (m s)) = f s \<or> f (snd (m s)) = h (f s))"

lemma may_keeps: "keeps f m \<Longrightarrow> may f h m"
  by (simp add: may_def keeps_def)

lemma may_sbind: "keeps f m \<Longrightarrow> (\<And>x. may f h (g x)) \<Longrightarrow> may f h (sbind m g)"
  unfolding may_def
proof
  fix s
  assume k: "keeps f m" and g: "\<And>x. \<forall>s. f (snd (g x s)) = f s \<or> f (snd (g x s)) = h (f s)"
  obtain r s1 where m: "m s = (r, s1)" by fastforce
  have "f s1 = f s" using keepsD[OF k m] .
  with m g show "f (snd (sbind m g s)) = f s \<or> f (snd (sbind m g s)) = h (f s)"
    by (cases r) (simp_all add: sbind_def, metis)
qed

lemma may_if: "may f h m \<Longrightarrow> may f h n \<Longrightarrow> may f h (if c then m else n)"
  by simp

text \<open>An action that keeps an invariant. The rule for sequences hands the outcome of the first part, in a
  state where the invariant holds, to the second.\<close>

named_theorems preserves_intros \<open>compositional rules for actions that keep an invariant\<close>

definition preserves :: "('s \<Rightarrow> bool) \<Rightarrow> ('s, 'a) action \<Rightarrow> bool" where
  "preserves I m \<longleftrightarrow> (\<forall>s. I s \<longrightarrow> I (snd (m s)))"

lemma preservesD: "preserves I m \<Longrightarrow> I s \<Longrightarrow> m s = (r, s') \<Longrightarrow> I s'"
  by (metis preserves_def snd_conv)

lemma preserves_basic [preserves_intros]:
  "preserves I (sret x)" "preserves I (sfail e)" "preserves I (slift r)" "preserves I (sread g)"
  by (simp_all add: preserves_def)

lemma preserves_sbind [preserves_intros]:
  "preserves I m \<Longrightarrow> (\<And>x s s'. I s \<Longrightarrow> m s = (Inr x, s') \<Longrightarrow> preserves I (g x)) \<Longrightarrow> preserves I (sbind m g)"
  unfolding preserves_def
proof (intro allI impI)
  fix s
  assume m: "\<forall>s. I s \<longrightarrow> I (snd (m s))" and g: "\<And>x s s'. I s \<Longrightarrow> m s = (Inr x, s') \<Longrightarrow> \<forall>s. I s \<longrightarrow> I (snd (g x s))" and s: "I s"
  obtain r s1 where r: "m s = (r, s1)" by fastforce
  have "I s1" using m s r by (metis snd_conv)
  with g[OF s] r show "I (snd (sbind m g s))" by (cases r) (auto simp: sbind_def)
qed

lemma preserves_smap_err [preserves_intros]: "preserves I m \<Longrightarrow> preserves I (smap_err h m)"
  by (simp add: preserves_def smap_err_apply)

lemma preserves_seach [preserves_intros]: "(\<And>x. x \<in> set xs \<Longrightarrow> preserves I (g x)) \<Longrightarrow> preserves I (seach g xs)"
proof (induction xs)
  case (Cons x xs)
  then have "preserves I (g x)" "preserves I (seach g xs)" by simp_all
  then show ?case by (simp add: preserves_sbind)
qed (simp add: preserves_basic)

lemma preserves_if [preserves_intros]: "(c \<Longrightarrow> preserves I m) \<Longrightarrow> (\<not> c \<Longrightarrow> preserves I n) \<Longrightarrow> preserves I (if c then m else n)"
  by simp

lemma preserves_case_prod [preserves_intros]:
  "(\<And>a b. x = (a, b) \<Longrightarrow> preserves I (g a b)) \<Longrightarrow> preserves I (case x of (a, b) \<Rightarrow> g a b)"
  by (cases x) simp

lemma preserves_case_option [preserves_intros]:
  "(x = None \<Longrightarrow> preserves I m) \<Longrightarrow> (\<And>a. x = Some a \<Longrightarrow> preserves I (g a)) \<Longrightarrow> preserves I (case x of None \<Rightarrow> m | Some a \<Rightarrow> g a)"
  by (cases x) simp_all

lemma preserves_keeps: "keeps f m \<Longrightarrow> (\<And>s s'. f s' = f s \<Longrightarrow> I s \<Longrightarrow> I s') \<Longrightarrow> preserves I m"
  unfolding preserves_def keeps_def by blast

section \<open>Files\<close>

text \<open>The outcomes of replacing a file: the new content is in place, or it is not, or it is but an error is
  reported because the directory could not be synchronised.\<close>

datatype file_write = Written | NotWritten | WrittenUnsynced

section \<open>Sorting with a less callback\<close>

fun insort_by :: "('a \<Rightarrow> 'a \<Rightarrow> bool) \<Rightarrow> 'a \<Rightarrow> 'a list \<Rightarrow> 'a list" where
  "insort_by lt x [] = [x]"
| "insort_by lt x (y # ys) = (if lt y x then y # insort_by lt x ys else x # y # ys)"

definition sort_by :: "('a \<Rightarrow> 'a \<Rightarrow> bool) \<Rightarrow> 'a list \<Rightarrow> 'a list" where
  "sort_by lt xs = foldr (insort_by lt) xs []"

definition sorted_by :: "('a \<Rightarrow> 'a \<Rightarrow> bool) \<Rightarrow> 'a list \<Rightarrow> bool" where
  "sorted_by lt xs \<longleftrightarrow> sorted_wrt (\<lambda>x y. \<not> lt y x) xs"

lemma mset_insort_by [simp]: "mset (insort_by lt x xs) = add_mset x (mset xs)"
  by (induction xs) auto

lemma set_insort_by [simp]: "set (insort_by lt x xs) = insert x (set xs)"
  by (induction xs) auto

lemma length_insort_by [simp]: "length (insort_by lt x xs) = Suc (length xs)"
  by (induction xs) auto

lemma sort_by_simps [simp]:
  "sort_by lt [] = []" "sort_by lt (x # xs) = insort_by lt x (sort_by lt xs)"
  by (simp_all add: sort_by_def)

lemma mset_sort_by [simp]: "mset (sort_by lt xs) = mset xs"
  by (induction xs) auto

lemma set_sort_by [simp]: "set (sort_by lt xs) = set xs"
  by (induction xs) auto

lemma length_sort_by [simp]: "length (sort_by lt xs) = length xs"
  by (induction xs) auto

lemma distinct_sort_by [simp]: "distinct (sort_by lt xs) = distinct xs"
  by (metis mset_sort_by mset_eq_imp_distinct_iff)

lemma sort_by_Nil_iff [simp]: "sort_by lt xs = [] \<longleftrightarrow> xs = []"
  by (metis length_sort_by length_0_conv)

lemma sorted_by_simps [simp]:
  "sorted_by lt []" "sorted_by lt (x # xs) \<longleftrightarrow> (\<forall>y \<in> set xs. \<not> lt y x) \<and> sorted_by lt xs"
  by (simp_all add: sorted_by_def)

lemma sort_by_sorted: "sorted_by lt xs \<Longrightarrow> sort_by lt xs = xs"
proof (induction xs)
  case (Cons x xs)
  then show ?case by (cases xs) auto
qed simp

text \<open>The contract of a \<open>less\<close> callback: a strict weak order.\<close>

locale weak_less =
  fixes lt :: "'a \<Rightarrow> 'a \<Rightarrow> bool"
  assumes lt_irrefl: "\<not> lt x x"
    and lt_trans: "lt x y \<Longrightarrow> lt y z \<Longrightarrow> lt x z"
    and lt_split: "lt x z \<Longrightarrow> lt x y \<or> lt y z"
begin

lemma lt_asym: "lt x y \<Longrightarrow> \<not> lt y x"
  using lt_irrefl lt_trans by blast

lemma sorted_insort_by: "sorted_by lt xs \<Longrightarrow> sorted_by lt (insort_by lt x xs)"
proof (induction xs)
  case Nil
  then show ?case by simp
next
  case (Cons y ys)
  show ?case
  proof (cases "lt y x")
    case True
    with Cons show ?thesis by (auto dest: lt_asym)
  next
    case False
    with Cons.prems show ?thesis by (auto dest: lt_split)
  qed
qed

lemma sorted_sort_by: "sorted_by lt (sort_by lt xs)"
  by (induction xs) (auto intro: sorted_insort_by)

text \<open>Stability: elements that compare equal to \<open>x\<close> keep their input order.\<close>

lemma stable_insort_by:
  "\<not> lt x z \<Longrightarrow> \<not> lt z x \<Longrightarrow> sorted_by lt xs \<Longrightarrow>
   filter (\<lambda>y. \<not> lt y z \<and> \<not> lt z y) (insort_by lt x xs) =
   x # filter (\<lambda>y. \<not> lt y z \<and> \<not> lt z y) xs"
proof (induction xs)
  case (Cons y ys)
  then show ?case using lt_split by auto
qed simp

lemma stable_insort_by_other:
  "lt x z \<or> lt z x \<Longrightarrow>
   filter (\<lambda>y. \<not> lt y z \<and> \<not> lt z y) (insort_by lt x xs) = filter (\<lambda>y. \<not> lt y z \<and> \<not> lt z y) xs"
  by (induction xs) auto

lemma sort_by_stable:
  "filter (\<lambda>y. \<not> lt y z \<and> \<not> lt z y) (sort_by lt xs) = filter (\<lambda>y. \<not> lt y z \<and> \<not> lt z y) xs"
  by (induction xs) (auto simp: stable_insort_by stable_insort_by_other sorted_sort_by)

end

text \<open>
  A callback that in addition separates any two elements of \<open>S\<close> that it does not order. Then the
  sorted permutation is unique, so the result of the unstable \<open>sort.Slice\<close> is the one computed
  by \<open>sort_by\<close>.
\<close>

locale total_less = weak_less lt for lt :: "'a \<Rightarrow> 'a \<Rightarrow> bool" +
  fixes S :: "'a set"
  assumes lt_total: "x \<in> S \<Longrightarrow> y \<in> S \<Longrightarrow> x \<noteq> y \<Longrightarrow> lt x y \<or> lt y x"
begin

lemma sorted_perm_unique:
  "set xs \<subseteq> S \<Longrightarrow> mset xs = mset ys \<Longrightarrow> sorted_by lt xs \<Longrightarrow> sorted_by lt ys \<Longrightarrow> xs = ys"
proof (induction xs arbitrary: ys)
  case Nil
  then show ?case by simp
next
  case (Cons x xs)
  from Cons.prems(2) obtain y zs where ys: "ys = y # zs"
    by (cases ys) auto
  have sub: "set ys \<subseteq> S"
    using Cons.prems(1,2) by (metis set_mset_mset)
  have "x \<in> set ys" and "y \<in> set (x # xs)"
    using Cons.prems(2) ys by (metis set_mset_mset list.set_intros(1))+
  then have "x = y"
    using Cons.prems sub ys lt_total[of x y] by auto
  with Cons ys show ?case by simp
qed

lemma sort_by_unique:
  assumes "set xs \<subseteq> S" "mset ys = mset xs" "sorted_by lt ys"
  shows "sort_by lt xs = ys"
  using sorted_perm_unique[of "sort_by lt xs" ys] assms sorted_sort_by by simp

lemma sort_by_cong_mset:
  "set xs \<subseteq> S \<Longrightarrow> mset xs = mset ys \<Longrightarrow> sort_by lt xs = sort_by lt ys"
  using sort_by_unique[of xs "sort_by lt ys"] sorted_sort_by by simp

end

text \<open>Any comparison by a key in a linear order is such a callback.\<close>

lemma weak_less_key: "weak_less (\<lambda>x y. f x < (f y :: 'k::linorder))"
  by unfold_locales auto

lemma total_less_key: "inj_on f S \<Longrightarrow> total_less (\<lambda>x y. f x < (f y :: 'k::linorder)) S"
  using weak_less_key[of f] unfolding total_less_def total_less_axioms_def inj_on_def
  by (metis neqE)

interpretation string_less: total_less "(<) :: string \<Rightarrow> string \<Rightarrow> bool" UNIV
  by unfold_locales auto

section \<open>Lists\<close>

text \<open>First-occurrence de-duplication with a \<open>seen\<close> set keyed by \<open>f\<close>, the Go idiom
  \<open>if _, dup := seen[k]; dup { continue }\<close>.\<close>

fun dedupe_key :: "('a \<Rightarrow> 'k) \<Rightarrow> 'k list \<Rightarrow> 'a list \<Rightarrow> 'a list" where
  "dedupe_key f seen [] = []"
| "dedupe_key f seen (x # xs) =
     (if f x \<in> set seen then dedupe_key f seen xs else x # dedupe_key f (f x # seen) xs)"

lemma set_dedupe_key_subset: "set (dedupe_key f seen xs) \<subseteq> set xs"
  by (induction f seen xs rule: dedupe_key.induct) auto

lemma dedupe_key_image:
  "f ` set (dedupe_key f seen xs) = f ` set xs - set seen"
  by (induction f seen xs rule: dedupe_key.induct) auto

lemma dedupe_key_distinct:
  "distinct (map f (dedupe_key f seen xs)) \<and> f ` set (dedupe_key f seen xs) \<inter> set seen = {}"
  by (induction f seen xs rule: dedupe_key.induct) auto

lemma dedupe_key_snoc:
  "dedupe_key f seen (xs @ [x]) = dedupe_key f seen xs @ (if f x \<in> f ` set xs \<union> set seen then [] else [x])"
  by (induction f seen xs rule: dedupe_key.induct) auto

lemma dedupe_key_id:
  "distinct (map f xs) \<Longrightarrow> f ` set xs \<inter> set seen = {} \<Longrightarrow> dedupe_key f seen xs = xs"
proof (induction xs arbitrary: seen)
  case (Cons x xs)
  then have "f ` set xs \<inter> set (f x # seen) = {}" by auto
  with Cons show ?case by auto
qed simp

lemma subseq_dedupe_key: "subseq (dedupe_key f seen xs) xs"
  by (induction f seen xs rule: dedupe_key.induct) auto

lemma set_map_filter_Some: "set (List.map_filter f xs) = {y. \<exists>x \<in> set xs. f x = Some y}"
  by (induction xs) (auto simp: List.map_filter_simps split: option.splits)

text \<open>Association lists, the model of a directory of keyed files and of small Go maps.\<close>

fun al_put :: "'k \<Rightarrow> 'v \<Rightarrow> ('k \<times> 'v) list \<Rightarrow> ('k \<times> 'v) list" where
  "al_put k v [] = [(k, v)]"
| "al_put k v ((k', v') # kvs) = (if k' = k then (k, v) # kvs else (k', v') # al_put k v kvs)"

definition al_del :: "'k \<Rightarrow> ('k \<times> 'v) list \<Rightarrow> ('k \<times> 'v) list" where
  "al_del k kvs = filter (\<lambda>kv. fst kv \<noteq> k) kvs"

lemma map_of_al_put [simp]: "map_of (al_put k v kvs) = (map_of kvs)(k \<mapsto> v)"
  by (induction kvs) (auto simp: fun_eq_iff)

lemma map_of_al_del [simp]: "map_of (al_del k kvs) = (map_of kvs)(k := None)"
  by (induction kvs) (auto simp: al_del_def fun_eq_iff)

lemma keys_al_put [simp]: "fst ` set (al_put k v kvs) = insert k (fst ` set kvs)"
proof (induction kvs)
  case (Cons kv kvs)
  then show ?case by (cases kv) auto
qed simp

lemma keys_al_del [simp]: "fst ` set (al_del k kvs) = fst ` set kvs - {k}"
  by (auto simp: al_del_def)

lemma distinct_al_put: "distinct (map fst kvs) \<Longrightarrow> distinct (map fst (al_put k v kvs))"
proof (induction kvs)
  case (Cons kv kvs)
  obtain k' v' where "kv = (k', v')" by (cases kv)
  with Cons show ?case by auto
qed simp

lemma distinct_al_del: "distinct (map fst kvs) \<Longrightarrow> distinct (map fst (al_del k kvs))"
  unfolding al_del_def by (metis distinct_map_filter)

end
