(* ===== verification/GoStd.thy ===== *)
theory GoStd
  imports Prelude
begin

text \<open>
  The parts of the Go standard library that the modelled code calls, on byte strings: \<open>strings\<close>,
  \<open>strconv\<close>, \<open>net.SplitHostPort\<close>/\<open>net.JoinHostPort\<close>. A Go string is a sequence of bytes and is
  modelled as \<open>string\<close>, a list of 8-bit characters; the order on strings is Go's bytewise order.
  Case conversion is modelled on the ASCII letters. Each function keeps the name of its Go
  counterpart with the package as a prefix.
\<close>

section \<open>Bytes\<close>

abbreviation byte :: "char \<Rightarrow> int" where
  "byte c \<equiv> of_char c"

definition is_digit :: "char \<Rightarrow> bool" where
  "is_digit c \<longleftrightarrow> 48 \<le> byte c \<and> byte c \<le> 57"

definition is_lower :: "char \<Rightarrow> bool" where
  "is_lower c \<longleftrightarrow> 97 \<le> byte c \<and> byte c \<le> 122"

definition is_upper :: "char \<Rightarrow> bool" where
  "is_upper c \<longleftrightarrow> 65 \<le> byte c \<and> byte c \<le> 90"

definition is_alnum :: "char \<Rightarrow> bool" where
  "is_alnum c \<longleftrightarrow> is_lower c \<or> is_upper c \<or> is_digit c"

definition is_hex :: "char \<Rightarrow> bool" where
  "is_hex c \<longleftrightarrow> is_digit c \<or> (97 \<le> byte c \<and> byte c \<le> 102) \<or> (65 \<le> byte c \<and> byte c \<le> 70)"

definition digit_val :: "char \<Rightarrow> int" where
  "digit_val c = byte c - 48"

definition hex_val :: "char \<Rightarrow> int" where
  "hex_val c = (if is_digit c then byte c - 48 else if 97 \<le> byte c then byte c - 87 else byte c - 55)"

definition digit_char :: "int \<Rightarrow> char" where
  "digit_char d = char_of (48 + d)"

definition hex_char :: "int \<Rightarrow> char" where
  "hex_char d = (if d < 10 then char_of (48 + d) else char_of (87 + d))"

definition nl :: char where "nl = CHR 0x0A"

definition tab :: char where "tab = CHR 0x09"

lemma byte_bounds: "0 \<le> byte c" "byte c < 256"
  using of_char_mod_256 [of c, where ?'a = int]
  by (metis pos_mod_sign zero_less_numeral, metis pos_mod_bound zero_less_numeral)

lemma byte_digit_char [simp]: "0 \<le> d \<Longrightarrow> d < 208 \<Longrightarrow> byte (digit_char d) = 48 + d"
  by (simp add: digit_char_def)

lemma is_digit_digit_char [simp]: "0 \<le> d \<Longrightarrow> d < 10 \<Longrightarrow> is_digit (digit_char d)"
  by (simp add: is_digit_def)

lemma digit_val_digit_char [simp]: "0 \<le> d \<Longrightarrow> d < 10 \<Longrightarrow> digit_val (digit_char d) = d"
  by (simp add: digit_val_def)

lemma byte_hex_char: "0 \<le> d \<Longrightarrow> d < 16 \<Longrightarrow> byte (hex_char d) = (if d < 10 then 48 + d else 87 + d)"
  by (simp add: hex_char_def)

lemma is_hex_hex_char [simp]: "0 \<le> d \<Longrightarrow> d < 16 \<Longrightarrow> is_hex (hex_char d)"
  by (auto simp: is_hex_def is_digit_def byte_hex_char)

lemma hex_val_hex_char [simp]: "0 \<le> d \<Longrightarrow> d < 16 \<Longrightarrow> hex_val (hex_char d) = d"
  by (auto simp: hex_val_def is_digit_def byte_hex_char)

lemma digit_val_bounds: "is_digit c \<Longrightarrow> 0 \<le> digit_val c" "is_digit c \<Longrightarrow> digit_val c < 10"
  by (auto simp: is_digit_def digit_val_def)

lemma hex_val_bounds: "is_hex c \<Longrightarrow> 0 \<le> hex_val c" "is_hex c \<Longrightarrow> hex_val c < 16"
  by (auto simp: is_hex_def hex_val_def is_digit_def)

section \<open>strings\<close>

fun strings_Index :: "string \<Rightarrow> string \<Rightarrow> nat option" where
  "strings_Index [] sub = (if sub = [] then Some 0 else None)"
| "strings_Index (c # s) sub =
     (if prefix sub (c # s) then Some 0 else map_option Suc (strings_Index s sub))"

definition strings_Contains :: "string \<Rightarrow> string \<Rightarrow> bool" where
  "strings_Contains s sub \<longleftrightarrow> strings_Index s sub \<noteq> None"

definition strings_HasPrefix :: "string \<Rightarrow> string \<Rightarrow> bool" where
  "strings_HasPrefix s p \<longleftrightarrow> prefix p s"

definition strings_HasSuffix :: "string \<Rightarrow> string \<Rightarrow> bool" where
  "strings_HasSuffix s p \<longleftrightarrow> suffix p s"

definition strings_TrimPrefix :: "string \<Rightarrow> string \<Rightarrow> string" where
  "strings_TrimPrefix s p = (if strings_HasPrefix s p then drop (length p) s else s)"

definition strings_TrimSuffix :: "string \<Rightarrow> string \<Rightarrow> string" where
  "strings_TrimSuffix s p = (if strings_HasSuffix s p then take (length s - length p) s else s)"

text \<open>\<open>strings.Cut\<close>, \<open>IndexByte\<close> and \<open>LastIndexByte\<close> at a one-byte separator.\<close>

definition cut_byte :: "char \<Rightarrow> string \<Rightarrow> (string \<times> string) option" where
  "cut_byte c s = (case dropWhile (\<lambda>x. x \<noteq> c) s of [] \<Rightarrow> None
     | _ # r \<Rightarrow> Some (takeWhile (\<lambda>x. x \<noteq> c) s, r))"

definition cut_last_byte :: "char \<Rightarrow> string \<Rightarrow> (string \<times> string) option" where
  "cut_last_byte c s = map_option (\<lambda>(a, b). (rev b, rev a)) (cut_byte c (rev s))"

fun strings_Split :: "char \<Rightarrow> string \<Rightarrow> string list" where
  "strings_Split sep [] = [[]]"
| "strings_Split sep (c # s) =
     (if c = sep then [] # strings_Split sep s
      else (case strings_Split sep s of [] \<Rightarrow> [[c]] | p # ps \<Rightarrow> (c # p) # ps))"

fun strings_Join :: "string \<Rightarrow> string list \<Rightarrow> string" where
  "strings_Join sep [] = []"
| "strings_Join sep [x] = x"
| "strings_Join sep (x # y # ys) = x @ sep @ strings_Join sep (y # ys)"

definition to_lower :: "char \<Rightarrow> char" where
  "to_lower c = (if is_upper c then char_of (byte c + 32) else c)"

definition strings_ToLower :: "string \<Rightarrow> string" where
  "strings_ToLower s = map to_lower s"

text \<open>
  \<open>strings.TrimSpace\<close> removes leading and trailing Unicode white space. \<open>space_runes\<close> lists the
  UTF-8 encodings of the code points for which \<open>unicode.IsSpace\<close> holds.
\<close>

definition space_runes :: "string list" where
  "space_runes =
     [[CHR 0x09], [CHR 0x0A], [CHR 0x0B], [CHR 0x0C], [CHR 0x0D], [CHR 0x20],
      [CHR 0xC2, CHR 0x85], [CHR 0xC2, CHR 0xA0], [CHR 0xE1, CHR 0x9A, CHR 0x80]] @
     map (\<lambda>b. [CHR 0xE2, CHR 0x80, b])
       [CHR 0x80, CHR 0x81, CHR 0x82, CHR 0x83, CHR 0x84, CHR 0x85, CHR 0x86, CHR 0x87,
        CHR 0x88, CHR 0x89, CHR 0x8A, CHR 0xA8, CHR 0xA9, CHR 0xAF] @
     [[CHR 0xE2, CHR 0x81, CHR 0x9F], [CHR 0xE3, CHR 0x80, CHR 0x80]]"

definition space_len :: "string list \<Rightarrow> string \<Rightarrow> nat" where
  "space_len rs s = (case find (\<lambda>r. prefix r s) rs of None \<Rightarrow> 0 | Some r \<Rightarrow> length r)"

function trim_runes :: "string list \<Rightarrow> string \<Rightarrow> string" where
  "trim_runes rs s = (if s = [] \<or> space_len rs s = 0 then s else trim_runes rs (drop (space_len rs s) s))"
  by pat_completeness auto
termination
  by (relation "measure (\<lambda>(rs, s). length s)") auto

declare trim_runes.simps [simp del]

definition strings_TrimSpace :: "string \<Rightarrow> string" where
  "strings_TrimSpace s = rev (trim_runes (map rev space_runes) (rev (trim_runes space_runes s)))"

text \<open>A byte that neither starts nor ends the encoding of a white space code point.\<close>

definition graphic :: "char \<Rightarrow> bool" where
  "graphic c \<longleftrightarrow> 33 \<le> byte c \<and> byte c \<le> 126"

lemma trim_runes_graphic:
  assumes "\<forall>r \<in> set rs. r \<noteq> [] \<and> \<not> graphic (hd r)" "s = [] \<or> graphic (hd s)"
  shows "trim_runes rs s = s"
proof (cases "s = []")
  case False
  then obtain c t where s: "s = c # t" by (cases s) auto
  have "\<not> prefix r s" if "r \<in> set rs" for r
  proof (cases r)
    case (Cons d u)
    then show ?thesis using assms that s by auto
  qed (use assms that in auto)
  then have "find (\<lambda>r. prefix r s) rs = None"
    by (simp add: find_None_iff)
  then have "space_len rs s = 0"
    by (simp add: space_len_def)
  then show ?thesis by (simp add: trim_runes.simps)
qed (simp add: trim_runes.simps)

lemma space_runes_graphic:
  "\<forall>r \<in> set space_runes. r \<noteq> [] \<and> \<not> graphic (hd r)"
  "\<forall>r \<in> set (map rev space_runes). r \<noteq> [] \<and> \<not> graphic (hd r)"
  by (simp_all add: space_runes_def graphic_def)

lemma TrimSpace_graphic:
  "s = [] \<or> graphic (hd s) \<and> graphic (last s) \<Longrightarrow> strings_TrimSpace s = s"
  using trim_runes_graphic[OF space_runes_graphic(1), of s]
    trim_runes_graphic[OF space_runes_graphic(2), of "rev s"]
  by (auto simp: strings_TrimSpace_def hd_rev)

lemma TrimSpace_all_graphic: "list_all graphic s \<Longrightarrow> strings_TrimSpace s = s"
  by (rule TrimSpace_graphic) (cases s, auto simp: list_all_iff)

text \<open>Trimming twice is trimming once.\<close>

lemma trim_runes_end: "trim_runes rs s = [] \<or> space_len rs (trim_runes rs s) = 0"
proof (induction rs s rule: trim_runes.induct)
  case (1 rs s)
  then show ?case by (subst (1 2) trim_runes.simps) auto
qed

lemma trim_runes_suffix: "suffix (trim_runes rs s) s"
proof (induction rs s rule: trim_runes.induct)
  case (1 rs s)
  then show ?case
    by (subst trim_runes.simps) (auto intro: suffix_order.trans suffix_drop)
qed

lemma trim_runes_fix: "s = [] \<or> space_len rs s = 0 \<Longrightarrow> trim_runes rs s = s"
  by (subst trim_runes.simps) auto

lemma space_len_0: "[] \<notin> set rs \<Longrightarrow> space_len rs s = 0 \<longleftrightarrow> (\<forall>r \<in> set rs. \<not> prefix r s)"
  unfolding space_len_def by (induction rs) auto

lemma TrimSpace_idem [simp]: "strings_TrimSpace (strings_TrimSpace s) = strings_TrimSpace s"
proof -
  define l where "l = trim_runes space_runes s"
  define t where "t = strings_TrimSpace s"
  have ne: "[] \<notin> set space_runes" "[] \<notin> set (map rev space_runes)" by (auto simp: space_runes_def)
  have t: "t = rev (trim_runes (map rev space_runes) (rev l))" by (simp add: t_def strings_TrimSpace_def l_def)
  have "suffix (rev t) (rev l)" using trim_runes_suffix[of "map rev space_runes" "rev l"] by (simp add: t)
  then have pre: "prefix t l" by (simp add: suffix_to_prefix)
  have "t = [] \<or> space_len space_runes t = 0"
  proof (cases "t = []")
    case False
    then have "l \<noteq> []" using pre by auto
    then have "space_len space_runes l = 0" using trim_runes_end[of space_runes s] by (simp add: l_def)
    then show ?thesis using pre ne(1) by (auto simp: space_len_0 dest: prefix_order.trans)
  qed simp
  then have "trim_runes space_runes t = t" by (rule trim_runes_fix)
  moreover have "trim_runes (map rev space_runes) (rev t) = rev t"
    using trim_runes_end[of "map rev space_runes" "rev l"] by (intro trim_runes_fix) (simp add: t)
  ultimately show ?thesis unfolding t_def[symmetric] by (simp add: strings_TrimSpace_def)
qed

lemma TrimSpace_subset: "set (strings_TrimSpace s) \<subseteq> set s"
  using set_mono_suffix[OF trim_runes_suffix, of space_runes s]
    set_mono_suffix[OF trim_runes_suffix, of "map rev space_runes" "rev (trim_runes space_runes s)"]
  by (auto simp: strings_TrimSpace_def)

lemma Index_Some:
  "strings_Index s sub = Some i \<Longrightarrow> s = take i s @ sub @ drop (i + length sub) s \<and> i + length sub \<le> length s"
proof (induction s arbitrary: i)
  case (Cons c s)
  show ?case
  proof (cases "prefix sub (c # s)")
    case True
    with Cons.prems have "i = 0" and "length sub \<le> length (c # s)"
      using prefix_length_le[OF True] by auto
    with True show ?thesis by (auto simp: prefix_def)
  next
    case False
    with Cons.prems obtain j where "strings_Index s sub = Some j" "i = Suc j" by auto
    with Cons.IH show ?thesis by auto
  qed
qed (auto split: if_splits)

lemma Contains_iff: "strings_Contains s sub \<longleftrightarrow> (\<exists>a b. s = a @ sub @ b)"
proof
  assume "strings_Contains s sub"
  then show "\<exists>a b. s = a @ sub @ b"
    by (metis Index_Some strings_Contains_def not_None_eq)
next
  assume "\<exists>a b. s = a @ sub @ b"
  then obtain a b where "s = a @ sub @ b" by blast
  then show "strings_Contains s sub"
  proof (induction a arbitrary: s)
    case Nil
    then have "prefix sub s" by simp
    then show ?case by (cases s) (auto simp: strings_Contains_def)
  next
    case (Cons c a)
    then show ?case by (auto simp: strings_Contains_def)
  qed
qed

lemma Contains_byte: "strings_Contains s [c] \<longleftrightarrow> c \<in> set s"
  by (auto simp: Contains_iff in_set_conv_decomp)

lemma cut_byte_Some: "cut_byte c s = Some (a, b) \<longleftrightarrow> s = a @ c # b \<and> c \<notin> set a"
proof
  assume cut: "cut_byte c s = Some (a, b)"
  then obtain x where x: "dropWhile (\<lambda>x. x \<noteq> c) s = x # b" and a: "a = takeWhile (\<lambda>x. x \<noteq> c) s"
    by (auto simp: cut_byte_def split: list.splits)
  have "x = c" using hd_dropWhile[of "\<lambda>x. x \<noteq> c" s] x by simp
  then have "s = a @ c # b"
    using x a by (metis takeWhile_dropWhile_id)
  moreover have "c \<notin> set a"
    using a by (metis set_takeWhileD)
  ultimately show "s = a @ c # b \<and> c \<notin> set a" by simp
qed (auto simp: cut_byte_def takeWhile_append2 dropWhile_append2 dropWhile_append split: list.split)

lemma cut_byte_None: "cut_byte c s = None \<longleftrightarrow> c \<notin> set s"
proof -
  have "dropWhile (\<lambda>x. x \<noteq> c) s = [] \<longleftrightarrow> c \<notin> set s"
    by auto
  then show ?thesis by (cases "dropWhile (\<lambda>x. x \<noteq> c) s") (simp_all add: cut_byte_def del: dropWhile_eq_Nil_conv)
qed

lemma cut_last_byte_Some: "cut_last_byte c s = Some (a, b) \<longleftrightarrow> s = a @ c # b \<and> c \<notin> set b"
  by (auto simp: cut_last_byte_def cut_byte_Some rev_swap intro: exI[of _ "rev b"])

lemma cut_last_byte_None: "cut_last_byte c s = None \<longleftrightarrow> c \<notin> set s"
  by (simp add: cut_last_byte_def cut_byte_None)

lemma Split_nonempty [simp]: "strings_Split c s \<noteq> []"
  by (induction s) (auto split: list.splits)

lemma Split_no_sep: "c \<notin> set s \<Longrightarrow> strings_Split c s = [s]"
  by (induction s) auto

lemma Split_append:
  "c \<notin> set a \<Longrightarrow> strings_Split c (a @ c # s) = a # strings_Split c s"
  by (induction a) auto

lemma Join_Cons: "xs \<noteq> [] \<Longrightarrow> strings_Join sep (x # xs) = x @ sep @ strings_Join sep xs"
  by (cases xs) auto

lemma Split_Join:
  "xs \<noteq> [] \<Longrightarrow> \<forall>x \<in> set xs. c \<notin> set x \<Longrightarrow> strings_Split c (strings_Join [c] xs) = xs"
proof (induction xs)
  case (Cons x xs)
  show ?case
  proof (cases xs)
    case Nil
    with Cons.prems show ?thesis by (simp add: Split_no_sep)
  next
    case (Cons y ys)
    with Cons.prems Cons.IH show ?thesis
      by (simp add: Split_append)
  qed
qed simp

section \<open>strconv\<close>

text \<open>\<open>strconv.Itoa\<close> and \<open>fmt\<close> \<^verbatim>\<open>%x\<close> on a non-negative number; \<open>itoa_int\<close> adds the sign.\<close>

function itoa :: "int \<Rightarrow> string" where
  "itoa n = (if n < 10 then [digit_char n] else itoa (n div 10) @ [digit_char (n mod 10)])"
  by pat_completeness auto
termination
  by (relation "measure nat") auto

function hexs :: "int \<Rightarrow> string" where
  "hexs n = (if n < 16 then [hex_char n] else hexs (n div 16) @ [hex_char (n mod 16)])"
  by pat_completeness auto
termination
  by (relation "measure nat") auto

declare itoa.simps [simp del] hexs.simps [simp del]

definition itoa_int :: "int \<Rightarrow> string" where
  "itoa_int i = (if i < 0 then CHR ''-'' # itoa (- i) else itoa i)"

definition dec_val :: "string \<Rightarrow> int" where
  "dec_val s = foldl (\<lambda>v c. v * 10 + digit_val c) 0 s"

definition hexs_val :: "string \<Rightarrow> int" where
  "hexs_val s = foldl (\<lambda>v c. v * 16 + hex_val c) 0 s"

text \<open>\<open>strconv.ParseUint(s, 10, 64)\<close>: digits only, in range.\<close>

definition strconv_ParseUint :: "string \<Rightarrow> int option" where
  "strconv_ParseUint s =
     (if s \<noteq> [] \<and> list_all is_digit s \<and> dec_val s < 2 ^ 64 then Some (dec_val s) else None)"

text \<open>\<open>strconv.ParseInt(s, 10, 64)\<close> and \<open>strconv.Atoi(s)\<close>: an optional sign, digits, in range.\<close>

definition strconv_ParseInt :: "string \<Rightarrow> int option" where
  "strconv_ParseInt s =
     (let neg = (s \<noteq> [] \<and> hd s = CHR ''-'');
          ds = (if s \<noteq> [] \<and> (hd s = CHR ''-'' \<or> hd s = CHR ''+'') then tl s else s)
      in if ds \<noteq> [] \<and> list_all is_digit ds then
           (if neg then (if dec_val ds \<le> 2 ^ 63 then Some (- dec_val ds) else None)
            else (if dec_val ds < 2 ^ 63 then Some (dec_val ds) else None))
         else None)"

definition strconv_Atoi :: "string \<Rightarrow> int option" where
  "strconv_Atoi s = strconv_ParseInt s"

lemma dec_val_snoc [simp]: "dec_val (s @ [c]) = dec_val s * 10 + digit_val c"
  by (simp add: dec_val_def)

lemma dec_val_nonneg: "list_all is_digit s \<Longrightarrow> 0 \<le> dec_val s"
proof (induction s rule: rev_induct)
  case (snoc c s)
  then show ?case using digit_val_bounds(1)[of c] by simp
qed (simp add: dec_val_def)

lemma dec_val_itoa [simp]: "0 \<le> n \<Longrightarrow> dec_val (itoa n) = n"
proof (induction n rule: itoa.induct)
  case (1 n)
  then show ?case
    by (cases "n < 10") (simp_all add: itoa.simps[of n] dec_val_def[of "[_]"])
qed

lemma itoa_nonempty [simp]: "itoa n \<noteq> []"
  by (subst itoa.simps) simp

lemma itoa_digits: "0 \<le> n \<Longrightarrow> list_all is_digit (itoa n)"
proof (induction n rule: itoa.induct)
  case (1 n)
  then show ?case by (cases "n < 10") (simp_all add: itoa.simps[of n])
qed

lemma itoa_digit_set: "0 \<le> n \<Longrightarrow> c \<in> set (itoa n) \<Longrightarrow> is_digit c"
  using itoa_digits by (auto simp: list_all_iff)

lemma itoa_inj: "0 \<le> m \<Longrightarrow> 0 \<le> n \<Longrightarrow> itoa m = itoa n \<Longrightarrow> m = n"
  by (metis dec_val_itoa)

text \<open>No leading zero, except in the one-digit string \<open>0\<close>.\<close>

lemma hd_itoa: "10 \<le> n \<Longrightarrow> 49 \<le> byte (hd (itoa n)) \<and> byte (hd (itoa n)) \<le> 57"
proof (induction n rule: itoa.induct)
  case (1 n)
  have hd: "hd (itoa n) = hd (itoa (n div 10))"
    using 1(2) by (subst itoa.simps) (simp add: hd_append)
  show ?case
  proof (cases "10 \<le> n div 10")
    case True
    with 1 hd show ?thesis by simp
  next
    case False
    then have "hd (itoa n) = digit_char (n div 10)" and "0 < n div 10"
      using hd 1(2) by (simp_all add: itoa.simps[of "n div 10"])
    with False show ?thesis by simp
  qed
qed

lemma ParseInt_itoa: "0 \<le> n \<Longrightarrow> n < 2 ^ 63 \<Longrightarrow> strconv_ParseInt (itoa n) = Some n"
proof -
  assume n: "0 \<le> n" "n < 2 ^ 63"
  have "is_digit (hd (itoa n))"
    using itoa_digits[OF n(1)] by (cases "itoa n") (auto simp: list_all_iff)
  then have "hd (itoa n) \<noteq> CHR ''-''" "hd (itoa n) \<noteq> CHR ''+''"
    by (auto simp: is_digit_def)
  with n show ?thesis by (simp add: strconv_ParseInt_def itoa_digits)
qed

lemma Atoi_itoa: "0 \<le> n \<Longrightarrow> n < 2 ^ 63 \<Longrightarrow> strconv_Atoi (itoa n) = Some n"
  by (simp add: strconv_Atoi_def ParseInt_itoa)

lemma Atoi_Nil [simp]: "strconv_Atoi [] = None"
  by (simp add: strconv_Atoi_def strconv_ParseInt_def)

lemma ParseUint_itoa: "0 \<le> n \<Longrightarrow> n < 2 ^ 64 \<Longrightarrow> strconv_ParseUint (itoa n) = Some n"
  by (simp add: strconv_ParseUint_def itoa_digits)

lemma ParseInt_digits:
  "s \<noteq> [] \<Longrightarrow> list_all is_digit s \<Longrightarrow> dec_val s < 2 ^ 63 \<Longrightarrow> strconv_ParseInt s = Some (dec_val s)"
  by (cases s) (auto simp: strconv_ParseInt_def Let_def is_digit_def)

lemma ParseInt_bounds:
  "strconv_ParseInt s = Some i \<Longrightarrow> - (2 ^ 63) \<le> i \<and> i < 2 ^ 63"
proof -
  assume "strconv_ParseInt s = Some i"
  then obtain ds where "list_all is_digit ds" "i = - dec_val ds \<and> dec_val ds \<le> 2 ^ 63 \<or> i = dec_val ds \<and> dec_val ds < 2 ^ 63"
    unfolding strconv_ParseInt_def Let_def by (metis (no_types, lifting) option.distinct(1) option.inject)
  then show ?thesis using dec_val_nonneg[of ds] by auto
qed

lemma ParseUint_bounds: "strconv_ParseUint s = Some n \<Longrightarrow> 0 \<le> n \<and> n < 2 ^ 64"
  by (auto simp: strconv_ParseUint_def dec_val_nonneg split: if_splits)

lemma hexs_nonempty [simp]: "hexs n \<noteq> []"
  by (subst hexs.simps) simp

lemma hexs_hex: "0 \<le> n \<Longrightarrow> list_all is_hex (hexs n)"
proof (induction n rule: hexs.induct)
  case (1 n)
  then show ?case by (cases "n < 16") (simp_all add: hexs.simps[of n])
qed

lemma hexs_val_hexs [simp]: "0 \<le> n \<Longrightarrow> hexs_val (hexs n) = n"
proof (induction n rule: hexs.induct)
  case (1 n)
  then show ?case by (cases "n < 16") (simp_all add: hexs.simps[of n] hexs_val_def)
qed

lemma length_hexs: "n < 16 ^ Suc k \<Longrightarrow> length (hexs n) \<le> Suc k"
proof (induction k arbitrary: n)
  case (Suc k)
  show ?case
  proof (cases "n < 16")
    case False
    have "n < 16 * 16 ^ Suc k" using Suc.prems by simp
    then have "n div 16 < 16 ^ Suc k" by linarith
    with Suc.IH[of "n div 16"] False show ?thesis by (simp add: hexs.simps[of n])
  qed (simp add: hexs.simps[of n])
next
  case 0
  then show ?case by (simp add: hexs.simps[of n])
qed

section \<open>net\<close>

text \<open>\<open>net.SplitHostPort\<close>; \<open>None\<close> stands for any of its address errors.\<close>

definition net_SplitHostPort :: "string \<Rightarrow> (string \<times> string) option" where
  "net_SplitHostPort hp =
     (case cut_last_byte (CHR '':'') hp of
        None \<Rightarrow> None
      | Some (before, port) \<Rightarrow>
          if hd hp = CHR ''['' then
            (case cut_byte (CHR '']'') hp of
               None \<Rightarrow> None
             | Some (h, rest) \<Rightarrow>
                 if rest = [] \<or> length h + 1 \<noteq> length before then None
                 else if CHR ''['' \<in> set (tl hp) \<or> CHR '']'' \<in> set rest then None
                 else Some (tl h, port))
          else if CHR '':'' \<in> set before then None
          else if CHR ''['' \<in> set hp \<or> CHR '']'' \<in> set hp then None
          else Some (before, port))"

definition net_JoinHostPort :: "string \<Rightarrow> string \<Rightarrow> string" where
  "net_JoinHostPort host port =
     (if CHR '':'' \<in> set host then ''['' @ host @ '']:'' @ port else host @ '':'' @ port)"

lemma SplitHostPort_subset: "net_SplitHostPort s = Some (h, p) \<Longrightarrow> set h \<subseteq> set s"
proof -
  assume sp: "net_SplitHostPort s = Some (h, p)"
  have tl: "set (tl x) \<subseteq> set x" for x :: string by (cases x) auto
  from sp obtain b port where cut: "cut_last_byte (CHR '':'') s = Some (b, port)"
    by (auto simp: net_SplitHostPort_def split: option.splits)
  then have b: "set b \<subseteq> set s" by (auto simp: cut_last_byte_Some)
  show ?thesis
  proof (cases "cut_byte (CHR '']'') s")
    case None
    then show ?thesis using sp cut b by (auto simp: net_SplitHostPort_def split: if_splits)
  next
    case (Some hr)
    then have "set (fst hr) \<subseteq> set s" by (cases hr) (auto simp: cut_byte_Some)
    then show ?thesis
      using sp cut b Some tl[of "fst hr"] by (cases hr) (auto simp: net_SplitHostPort_def split: if_splits)
  qed
qed

end
