(* ===== verification/Netip.thy ===== *)
theory Netip
  imports GoStd "HOL-Library.Product_Lexorder"
begin

text \<open>
  Addresses and prefixes of Go's \<open>net/netip\<close> (and the two functions of \<open>net\<close> built on them),
  as the network packages use them. An address is a 32-bit or a 128-bit word with an IPv6 zone;
  a prefix is an address with a length, \<open>-1\<close> for an invalid one. The parsers follow the loops of
  \<open>netip.ParseAddr\<close> and \<open>netip.ParsePrefix\<close>; every parse error is \<open>None\<close>, since the callers
  only test \<open>err != nil\<close>.

  The lemmas give the arithmetic of prefixes: a prefix is the set of addresses with the same
  leading bits, any two prefixes are nested or disjoint, and in the order by address and length a
  prefix that lies between a prefix and one it covers is equal to it or covered by it as well.
\<close>

section \<open>Addresses\<close>

datatype addr = Addr4 "32 word" | Addr6 "128 word" string

primrec addr_bitlen :: "addr \<Rightarrow> nat" where
  "addr_bitlen (Addr4 w) = 32"
| "addr_bitlen (Addr6 w z) = 128"

primrec addr_val :: "addr \<Rightarrow> int" where
  "addr_val (Addr4 w) = uint w"
| "addr_val (Addr6 w z) = uint w"

primrec addr_zone :: "addr \<Rightarrow> string" where
  "addr_zone (Addr4 w) = []"
| "addr_zone (Addr6 w z) = z"

primrec without_zone :: "addr \<Rightarrow> addr" where
  "without_zone (Addr4 w) = Addr4 w"
| "without_zone (Addr6 w z) = Addr6 w []"

definition addr_Is4 :: "addr \<Rightarrow> bool" where
  "addr_Is4 a \<longleftrightarrow> addr_bitlen a = 32"

definition addr_Is6 :: "addr \<Rightarrow> bool" where
  "addr_Is6 a \<longleftrightarrow> addr_bitlen a = 128"

text \<open>An IPv4-mapped IPv6 address, \<open>::ffff:a.b.c.d\<close>.\<close>

definition addr_Is4In6 :: "addr \<Rightarrow> bool" where
  "addr_Is4In6 a \<longleftrightarrow> addr_Is6 a \<and> addr_val a div 2 ^ 32 = 65535"

text \<open>\<open>Addr.Compare\<close>: by family, then numerically, then by zone.\<close>

definition addr_key :: "addr \<Rightarrow> nat \<times> int \<times> string" where
  "addr_key a = (addr_bitlen a, addr_val a, addr_zone a)"

lemma addr_key_inj: "addr_key a = addr_key b \<longleftrightarrow> a = b"
  by (cases a; cases b) (auto simp: addr_key_def word_uint_eq_iff)

instantiation addr :: linorder
begin

definition less_eq_addr_def: "a \<le> b \<longleftrightarrow> addr_key a \<le> addr_key b"

definition less_addr_def: "a < b \<longleftrightarrow> addr_key a < addr_key (b :: addr)"

instance
proof
  fix a b c :: addr
  show "a < b \<longleftrightarrow> a \<le> b \<and> \<not> b \<le> a"
    unfolding less_eq_addr_def less_addr_def by (rule less_le_not_le)
  show "a \<le> a" by (simp add: less_eq_addr_def)
  show "a \<le> b \<Longrightarrow> b \<le> c \<Longrightarrow> a \<le> c"
    unfolding less_eq_addr_def by (rule order_trans)
  show "a \<le> b \<Longrightarrow> b \<le> a \<Longrightarrow> a = b"
    unfolding less_eq_addr_def using antisym addr_key_inj by blast
  show "a \<le> b \<or> b \<le> a"
    unfolding less_eq_addr_def by (rule linear)
qed

end

lemma addr_val_bounds: "0 \<le> addr_val a" "addr_val a < 2 ^ addr_bitlen a"
proof -
  have "uint w < 2 ^ LENGTH(32)" for w :: "32 word" by (rule unsigned_less)
  moreover have "uint w < 2 ^ LENGTH(128)" for w :: "128 word" by (rule unsigned_less)
  ultimately show "0 \<le> addr_val a" "addr_val a < 2 ^ addr_bitlen a"
    by (cases a; simp)+
qed

lemma without_zone_simps [simp]:
  "addr_bitlen (without_zone a) = addr_bitlen a" "addr_val (without_zone a) = addr_val a"
  "addr_zone (without_zone a) = []"
  by (cases a; simp)+

section \<open>Printing\<close>

definition octets :: "int \<Rightarrow> int list" where
  "octets v = [v div 16777216 mod 256, v div 65536 mod 256, v div 256 mod 256, v mod 256]"

definition hextets :: "int \<Rightarrow> int list" where
  "hextets v = map (\<lambda>k. v div 2 ^ k mod 65536) [112, 96, 80, 64, 48, 32, 16, 0]"

definition string4 :: "int \<Rightarrow> string" where
  "string4 v = strings_Join ''.'' (map itoa (octets v))"

text \<open>The first longest run of at least two zero groups, as \<open>(start, end)\<close>.\<close>

definition zero_run_from :: "int list \<Rightarrow> nat \<Rightarrow> nat" where
  "zero_run_from gs i = length (takeWhile (\<lambda>g. g = 0) (drop i gs))"

definition zero_run :: "int list \<Rightarrow> (nat \<times> nat) option" where
  "zero_run gs = foldl (\<lambda>best i.
     let l = zero_run_from gs i in
     if 2 \<le> l \<and> (case best of None \<Rightarrow> True | Some (s, e) \<Rightarrow> e - s < l) then Some (i, i + l) else best)
     None [0 ..< length gs]"

definition string6 :: "int \<Rightarrow> string" where
  "string6 v = (let gs = hextets v in
     case zero_run gs of
       None \<Rightarrow> strings_Join '':'' (map hexs gs)
     | Some (s, e) \<Rightarrow>
         strings_Join '':'' (map hexs (take s gs)) @ ''::'' @
         strings_Join '':'' (map hexs (drop e gs)))"

definition addr_String :: "addr \<Rightarrow> string" where
  "addr_String a = (case a of
     Addr4 w \<Rightarrow> string4 (uint w)
   | Addr6 w z \<Rightarrow>
       (if addr_Is4In6 a then ''::ffff:'' @ string4 (uint w mod 2 ^ 32) else string6 (uint w)) @
       (if z = [] then [] else CHR ''%'' # z))"

section \<open>Parsing\<close>

text \<open>\<open>parseIPv4Fields\<close>: the current value, its digit count, the fields so far, and whether the
  previous byte was a dot (or there is none).\<close>

fun ipv4_loop :: "string \<Rightarrow> int \<Rightarrow> nat \<Rightarrow> int list \<Rightarrow> bool \<Rightarrow> int list option" where
  "ipv4_loop [] val dig fs start = (if length fs < 3 then None else Some (fs @ [val]))"
| "ipv4_loop (c # cs) val dig fs start =
     (if is_digit c then
        (if dig = 1 \<and> val = 0 then None
         else if 255 < val * 10 + digit_val c then None
         else ipv4_loop cs (val * 10 + digit_val c) (Suc dig) fs False)
      else if c = CHR ''.'' then
        (if start \<or> cs = [] then None
         else if length fs = 3 then None
         else ipv4_loop cs 0 0 (fs @ [val]) True)
      else None)"

definition parse_ipv4_fields :: "string \<Rightarrow> int list option" where
  "parse_ipv4_fields s = ipv4_loop s 0 0 [] True"

definition octets_val :: "int list \<Rightarrow> int" where
  "octets_val os = foldl (\<lambda>v o'. v * 256 + o') 0 os"

definition parse_ipv4 :: "string \<Rightarrow> addr option" where
  "parse_ipv4 s = map_option (\<lambda>os. Addr4 (of_int (octets_val os))) (parse_ipv4_fields s)"

text \<open>The main loop of \<open>parseIPv6\<close>, on 16-bit groups: the unread input, the groups so far and the
  position of the ellipsis.\<close>

function ipv6_loop :: "string \<Rightarrow> int list \<Rightarrow> nat option \<Rightarrow> (string \<times> int list \<times> nat option) option" where
  "ipv6_loop s gs ell =
     (if 8 \<le> length gs then Some (s, gs, ell)
      else let ds = takeWhile is_hex s; rest = dropWhile is_hex s; gs' = gs @ [hexs_val ds] in
        if ds = [] \<or> 4 < length ds then None
        else if rest = [] then Some ([], gs', ell)
        else if hd rest = CHR ''.'' then
          (if ell = None \<and> length gs \<noteq> 6 then None
           else if 8 < length gs + 2 then None
           else (case parse_ipv4_fields s of
                   None \<Rightarrow> None
                 | Some os \<Rightarrow> Some ([], gs @ [os ! 0 * 256 + os ! 1, os ! 2 * 256 + os ! 3], ell)))
        else if hd rest \<noteq> CHR '':'' \<or> tl rest = [] then None
        else if hd (tl rest) = CHR '':'' then
          (if ell \<noteq> None then None
           else if tl (tl rest) = [] then Some ([], gs', Some (length gs'))
           else ipv6_loop (tl (tl rest)) gs' (Some (length gs')))
        else ipv6_loop (tl rest) gs' ell)"
  by pat_completeness auto
termination
proof (relation "measure (\<lambda>(s, gs, ell). length s)")
  show "wf (measure (\<lambda>(s :: string, gs :: int list, ell :: nat option). length s))" by simp
next
  fix s :: string and gs gs' ds rest and ell :: "nat option"
  assume "rest = dropWhile is_hex s" "rest \<noteq> []"
  then have "0 < length rest" "length rest \<le> length s"
    using length_dropWhile_le by auto
  then show "((tl (tl rest), gs', Some (length gs')), s, gs, ell) \<in> measure (\<lambda>(s, gs, ell). length s)"
    and "((tl rest, gs', ell), s, gs, ell) \<in> measure (\<lambda>(s, gs, ell). length s)"
    by (simp_all add: length_tl del: length_greater_0_conv)
qed

declare ipv6_loop.simps [simp del]

definition hextets_val :: "int list \<Rightarrow> int" where
  "hextets_val gs = foldl (\<lambda>v g. v * 65536 + g) 0 gs"

definition parse_ipv6_groups :: "string \<Rightarrow> int list option" where
  "parse_ipv6_groups s =
     (let lead = prefix ''::'' s; s' = (if lead then drop 2 s else s) in
      if lead \<and> s' = [] then Some (replicate 8 0)
      else case ipv6_loop s' [] (if lead then Some 0 else None) of
        None \<Rightarrow> None
      | Some (rest, gs, ell) \<Rightarrow>
          if rest \<noteq> [] then None
          else if length gs < 8 then
            (case ell of None \<Rightarrow> None
             | Some e \<Rightarrow> Some (take e gs @ replicate (8 - length gs) 0 @ drop e gs))
          else if ell \<noteq> None then None
          else Some gs)"

definition parse_ipv6 :: "string \<Rightarrow> addr option" where
  "parse_ipv6 s = (case cut_byte (CHR ''%'') s of
     None \<Rightarrow> map_option (\<lambda>gs. Addr6 (of_int (hextets_val gs)) []) (parse_ipv6_groups s)
   | Some (a, z) \<Rightarrow>
       if z = [] then None
       else map_option (\<lambda>gs. Addr6 (of_int (hextets_val gs)) z) (parse_ipv6_groups a))"

definition netip_ParseAddr :: "string \<Rightarrow> addr option" where
  "netip_ParseAddr s =
     (case find (\<lambda>c. c = CHR ''.'' \<or> c = CHR '':'' \<or> c = CHR ''%'') s of
        None \<Rightarrow> None
      | Some c \<Rightarrow> if c = CHR ''.'' then parse_ipv4 s
                 else if c = CHR '':'' then parse_ipv6 s else None)"

section \<open>Prefixes\<close>

datatype netip_prefix = Prefix (pfx_Addr: addr) (pfx_Bits: int)

definition netip_PrefixFrom :: "addr \<Rightarrow> int \<Rightarrow> netip_prefix" where
  "netip_PrefixFrom a b =
     Prefix (without_zone a) (if 0 \<le> b \<and> b \<le> int (addr_bitlen a) then b else - 1)"

definition netip_ParsePrefix :: "string \<Rightarrow> netip_prefix option" where
  "netip_ParsePrefix s = (case cut_last_byte (CHR ''/'') s of
     None \<Rightarrow> None
   | Some (as, bs) \<Rightarrow> (case netip_ParseAddr as of
       None \<Rightarrow> None
     | Some a \<Rightarrow>
         if addr_zone a \<noteq> [] then None
         else if 1 < length bs \<and> \<not> (CHR ''1'' \<le> hd bs \<and> hd bs \<le> CHR ''9'') then None
         else (case strconv_Atoi bs of
           None \<Rightarrow> None
         | Some b \<Rightarrow> if b < 0 \<or> int (addr_bitlen a) < b then None
                    else Some (netip_PrefixFrom a b))))"

definition mask_top :: "nat \<Rightarrow> 'a::len word \<Rightarrow> 'a word" where
  "mask_top n w = push_bit n (drop_bit n w)"

primrec addr_mask :: "nat \<Rightarrow> addr \<Rightarrow> addr" where
  "addr_mask b (Addr4 w) = Addr4 (mask_top (32 - b) w)"
| "addr_mask b (Addr6 w z) = Addr6 (mask_top (128 - b) w) z"

definition pfx_Masked :: "netip_prefix \<Rightarrow> netip_prefix" where
  "pfx_Masked p = netip_PrefixFrom (addr_mask (nat (pfx_Bits p)) (pfx_Addr p)) (pfx_Bits p)"

definition pfx_String :: "netip_prefix \<Rightarrow> string" where
  "pfx_String p = addr_String (pfx_Addr p) @ ''/'' @ itoa_int (pfx_Bits p)"

definition same_top :: "nat \<Rightarrow> addr \<Rightarrow> addr \<Rightarrow> bool" where
  "same_top n a b \<longleftrightarrow> addr_val a div 2 ^ n = addr_val b div 2 ^ n"

definition pfx_Contains :: "netip_prefix \<Rightarrow> addr \<Rightarrow> bool" where
  "pfx_Contains p ip \<longleftrightarrow>
     0 \<le> pfx_Bits p \<and> addr_zone ip = [] \<and> addr_bitlen (pfx_Addr p) = addr_bitlen ip \<and>
     same_top (addr_bitlen ip - nat (pfx_Bits p)) (pfx_Addr p) ip"

text \<open>\<open>net.ParseCIDR\<close>: the parsed address and the mask length; \<open>dtoi\<close> takes leading zeros and
  fails from \<open>0xFFFFFF\<close> on. \<open>net.ParseIP\<close> accepts an address without a zone.\<close>

definition net_ParseCIDR :: "string \<Rightarrow> (addr \<times> int) option" where
  "net_ParseCIDR s = (case cut_byte (CHR ''/'') s of
     None \<Rightarrow> None
   | Some (as, ms) \<Rightarrow> (case netip_ParseAddr as of
       None \<Rightarrow> None
     | Some a \<Rightarrow>
         if addr_zone a \<noteq> [] \<or> ms = [] \<or> \<not> list_all is_digit ms \<or>
            int (addr_bitlen a) < dec_val ms
         then None else Some (a, dec_val ms)))"

definition net_ParseIP :: "string \<Rightarrow> addr option" where
  "net_ParseIP s = (case netip_ParseAddr s of
     None \<Rightarrow> None | Some a \<Rightarrow> if addr_zone a \<noteq> [] then None else Some a)"

text \<open>\<open>IP.To4() == nil\<close> for an address that \<open>net.ParseCIDR\<close> returned in 16-byte form.\<close>

definition ip_not_To4 :: "addr \<Rightarrow> bool" where
  "ip_not_To4 a \<longleftrightarrow> addr_Is6 a \<and> \<not> addr_Is4In6 a"

section \<open>Prefix arithmetic\<close>

text \<open>The addresses of a prefix, as an interval of numbers.\<close>

definition pfx_span :: "netip_prefix \<Rightarrow> int" where
  "pfx_span p = 2 ^ (addr_bitlen (pfx_Addr p) - nat (pfx_Bits p))"

text \<open>A masked prefix: a length in range, no zone and no bit set after the prefix length.\<close>

definition pfx_ok :: "netip_prefix \<Rightarrow> bool" where
  "pfx_ok p \<longleftrightarrow> 0 \<le> pfx_Bits p \<and> pfx_Bits p \<le> int (addr_bitlen (pfx_Addr p)) \<and>
     addr_zone (pfx_Addr p) = [] \<and> addr_val (pfx_Addr p) mod pfx_span p = 0"

lemma pfx_span_pos [simp]: "0 < pfx_span p"
  by (simp add: pfx_span_def)

lemma aligned_block:
  fixes x z B :: int
  assumes "0 < B" "x mod B = 0"
  shows "x div B = z div B \<longleftrightarrow> x \<le> z \<and> z < x + B"
proof -
  obtain k where x: "x = B * k" using assms(2) by (auto simp: mod_eq_0_iff_dvd)
  then have k: "x div B = k" using assms(1) by simp
  show ?thesis
  proof
    assume "x div B = z div B"
    then have "B * k + z mod B = z" using k by simp
    moreover have "0 \<le> z mod B" "z mod B < B" using assms(1) by simp_all
    ultimately show "x \<le> z \<and> z < x + B" using x by linarith
  next
    assume "x \<le> z \<and> z < x + B"
    then show "x div B = z div B"
      using k x assms(1) by (subst int_div_pos_eq[of z B k "z - B * k"]) auto
  qed
qed

text \<open>Two aligned numbers less than a block apart are equal.\<close>

lemma aligned_eq:
  fixes x y B :: int
  assumes "x mod B = 0" "y mod B = 0" "x \<le> y" "y < x + B"
  shows "x = y"
proof -
  have "x div B = y div B"
    using aligned_block[of B x y] assms by linarith
  moreover have "x = B * (x div B)" "y = B * (y div B)"
    using assms(1,2) by auto
  ultimately show ?thesis by simp
qed

lemma Contains_interval:
  assumes "pfx_ok p"
  shows "pfx_Contains p a \<longleftrightarrow> addr_zone a = [] \<and> addr_bitlen a = addr_bitlen (pfx_Addr p) \<and>
    addr_val (pfx_Addr p) \<le> addr_val a \<and> addr_val a < addr_val (pfx_Addr p) + pfx_span p"
  using assms aligned_block[of "pfx_span p" "addr_val (pfx_Addr p)" "addr_val a"]
  by (auto simp: pfx_Contains_def pfx_ok_def same_top_def pfx_span_def)

lemma pfx_span_dvd:
  assumes "pfx_ok p" "pfx_ok q" "addr_bitlen (pfx_Addr p) = addr_bitlen (pfx_Addr q)" "pfx_Bits p \<le> pfx_Bits q"
  shows "pfx_span q dvd pfx_span p"
  using assms by (auto simp: pfx_span_def pfx_ok_def intro!: le_imp_power_dvd)

text \<open>A prefix that contains the address of a longer one contains all of it.\<close>

lemma Contains_nested:
  assumes ok: "pfx_ok p" "pfx_ok q" and le: "pfx_Bits p \<le> pfx_Bits q"
    and c: "pfx_Contains p (pfx_Addr q)" "pfx_Contains q a"
  shows "pfx_Contains p a"
proof -
  let ?x = "addr_val (pfx_Addr p)" and ?y = "addr_val (pfx_Addr q)"
  have fam: "addr_bitlen (pfx_Addr p) = addr_bitlen (pfx_Addr q)"
    using c(1) by (simp add: pfx_Contains_def)
  from pfx_span_dvd[OF ok fam le] obtain m where m: "pfx_span p = pfx_span q * m" by (rule dvdE)
  have "addr_val a div pfx_span q = ?y div pfx_span q"
    using c(2) by (auto simp: pfx_Contains_def same_top_def pfx_span_def)
  moreover have "?x div pfx_span p = ?y div pfx_span p"
    using c(1) fam by (auto simp: pfx_Contains_def same_top_def pfx_span_def)
  ultimately have "?x div pfx_span p = addr_val a div pfx_span p"
    using pfx_span_pos[of p] pfx_span_pos[of q] by (simp add: m div_mult2_eq zdiv_zmult2_eq zero_less_mult_iff)
  then show ?thesis
    using c fam by (auto simp: pfx_Contains_def same_top_def pfx_span_def)
qed

lemma addr_less_eq_family:
  assumes "a \<le> b" "b \<le> c" "addr_bitlen a = addr_bitlen c" "addr_zone a = []" "addr_zone b = []" "addr_zone c = []"
  shows "addr_bitlen b = addr_bitlen a \<and> addr_val a \<le> addr_val b \<and> addr_val b \<le> addr_val c"
  using assms by (auto simp: less_eq_addr_def addr_key_def less_eq_prod_def)

lemma addr_eqI: "addr_bitlen a = addr_bitlen b \<Longrightarrow> addr_val a = addr_val b \<Longrightarrow> addr_zone a = addr_zone b \<Longrightarrow> a = b"
  using addr_key_inj[of a b] by (simp add: addr_key_def)

text \<open>
  In the order by address and length, every prefix between \<open>x\<close> and a prefix inside \<open>x\<close> lies
  inside \<open>x\<close> and is not shorter than \<open>x\<close>.
\<close>

lemma prefix_sandwich:
  assumes ok: "pfx_ok x" "pfx_ok y" "pfx_ok z"
    and le: "(pfx_Addr x, pfx_Bits x) \<le> (pfx_Addr y, pfx_Bits y)" "(pfx_Addr y, pfx_Bits y) \<le> (pfx_Addr z, pfx_Bits z)"
    and c: "pfx_Contains x (pfx_Addr z)"
  shows "pfx_Contains x (pfx_Addr y) \<and> pfx_Bits x \<le> pfx_Bits y"
proof -
  have zones: "addr_zone (pfx_Addr x) = []" "addr_zone (pfx_Addr y) = []" "addr_zone (pfx_Addr z) = []"
    using ok by (simp_all add: pfx_ok_def)
  have ord: "pfx_Addr x \<le> pfx_Addr y" "pfx_Addr y \<le> pfx_Addr z"
    using le by (auto simp: less_eq_prod_def)
  have cz: "addr_bitlen (pfx_Addr z) = addr_bitlen (pfx_Addr x)"
    "addr_val (pfx_Addr z) < addr_val (pfx_Addr x) + pfx_span x"
    using c Contains_interval[OF ok(1), of "pfx_Addr z"] by auto
  then have y: "addr_bitlen (pfx_Addr y) = addr_bitlen (pfx_Addr x)"
    "addr_val (pfx_Addr x) \<le> addr_val (pfx_Addr y)"
    "addr_val (pfx_Addr y) < addr_val (pfx_Addr x) + pfx_span x"
    using addr_less_eq_family[OF ord] zones by auto
  then have cy: "pfx_Contains x (pfx_Addr y)"
    using zones Contains_interval[OF ok(1), of "pfx_Addr y"] by simp
  have "pfx_Bits x \<le> pfx_Bits y"
  proof (rule ccontr)
    assume shorter: "\<not> pfx_Bits x \<le> pfx_Bits y"
    then have "pfx_span x dvd pfx_span y"
      using pfx_span_dvd[OF ok(2,1)] y by simp
    then have "addr_val (pfx_Addr y) mod pfx_span x = 0"
      using ok(2) by (auto simp: pfx_ok_def mod_eq_0_iff_dvd intro: dvd_trans)
    then have "addr_val (pfx_Addr x) = addr_val (pfx_Addr y)"
      using aligned_eq[of "addr_val (pfx_Addr x)" "pfx_span x" "addr_val (pfx_Addr y)"] y ok(1)
      by (simp add: pfx_ok_def)
    then have "pfx_Addr x = pfx_Addr y"
      using y zones by (intro addr_eqI) auto
    with le(1) shorter show False by simp
  qed
  with cy show ?thesis by simp
qed

section \<open>The prefixes that parsing yields\<close>

lemma uint_mask_top: "uint (mask_top n w) = uint (w :: 'a::len word) div 2 ^ n * 2 ^ n"
proof -
  have "0 \<le> uint w mod 2 ^ n" by (rule pos_mod_sign) simp
  then have "uint w div 2 ^ n * 2 ^ n \<le> uint w"
    using div_mult_mod_eq[of "uint w" "2 ^ n"] by linarith
  then have "uint w div 2 ^ n * 2 ^ n < 2 ^ LENGTH('a)"
    using unsigned_less[of w, where ?'a = int] by linarith
  moreover have "0 \<le> uint w div 2 ^ n * 2 ^ n"
    by (simp add: pos_imp_zdiv_nonneg_iff)
  ultimately have "take_bit LENGTH('a) (uint w div 2 ^ n * 2 ^ n) = uint w div 2 ^ n * 2 ^ n"
    by (simp only: take_bit_int_eq_self_iff)
  moreover have "take_bit LENGTH('a) (uint w) = uint w"
    using unsigned_less[of w, where ?'a = int] by (simp only: take_bit_int_eq_self_iff unsigned_greater_eq)
  ultimately show ?thesis
    unfolding mask_top_def unsigned_push_bit_eq unsigned_drop_bit_eq
    by (simp only: push_bit_eq_mult drop_bit_eq_div)
qed

lemma pfx_Masked_simps [simp]:
  assumes "0 \<le> pfx_Bits p" "pfx_Bits p \<le> int (addr_bitlen (pfx_Addr p))"
  shows "pfx_Bits (pfx_Masked p) = pfx_Bits p"
    "addr_bitlen (pfx_Addr (pfx_Masked p)) = addr_bitlen (pfx_Addr p)"
    "addr_zone (pfx_Addr (pfx_Masked p)) = []"
    "addr_val (pfx_Addr (pfx_Masked p)) = addr_val (pfx_Addr p) div pfx_span p * pfx_span p"
  using assms
  by (cases "pfx_Addr p"; simp add: pfx_Masked_def netip_PrefixFrom_def pfx_span_def uint_mask_top)+

lemma pfx_ok_Masked:
  "0 \<le> pfx_Bits p \<Longrightarrow> pfx_Bits p \<le> int (addr_bitlen (pfx_Addr p)) \<Longrightarrow> pfx_ok (pfx_Masked p)"
  by (simp add: pfx_ok_def) (simp add: pfx_span_def)

lemma ParsePrefix_range:
  "netip_ParsePrefix s = Some p \<Longrightarrow>
   0 \<le> pfx_Bits p \<and> pfx_Bits p \<le> int (addr_bitlen (pfx_Addr p)) \<and> addr_zone (pfx_Addr p) = []"
  by (auto simp: netip_ParsePrefix_def netip_PrefixFrom_def split: option.splits prod.splits if_splits)

lemma pfx_ok_host: "pfx_ok (netip_PrefixFrom a (int (addr_bitlen a)))"
  by (simp add: pfx_ok_def netip_PrefixFrom_def pfx_span_def)

lemma PrefixFrom_ok:
  "pfx_ok p \<Longrightarrow> netip_PrefixFrom (pfx_Addr p) (pfx_Bits p) = p"
  by (cases p; cases "pfx_Addr p") (simp_all add: pfx_ok_def netip_PrefixFrom_def)

end
