(* ===== verification/Sanity.thy ===== *)
theory Sanity
  imports Netip
begin

text \<open>
  \<open>pkg/sanity\<close>: the boundary checks that every operator-supplied string passes before it is
  rendered into a ruleset, a path or a command line. Each validator returns \<open>unit result\<close>; the
  message of an error is the fixed part of the message in the source. The regular expressions of
  the source that are character classes are predicates on bytes. \<open>ValidateURL\<close> and
  \<open>ValidateChartReference\<close> rest on \<open>net/url\<close> and are not modelled beyond their own helpers.
\<close>

section \<open>Character classes\<close>

definition invalidArgf :: "string \<Rightarrow> 'a result" where
  "invalidArgf m = Inl (Err IllegalArgument m)"

definition shellMetachars :: "string \<Rightarrow> bool" where
  "shellMetachars s \<longleftrightarrow> list_ex (\<lambda>c. c \<in> set '';&|$`<>(){}[]*?~'') s"

definition validPathChars :: "string \<Rightarrow> bool" where
  "validPathChars s \<longleftrightarrow> s \<noteq> [] \<and> list_all (\<lambda>c. is_alnum c \<or> c \<in> set ''/_.-'') s"

definition hostPattern :: "string \<Rightarrow> bool" where
  "hostPattern s \<longleftrightarrow> s \<noteq> [] \<and> is_alnum (hd s) \<and> list_all (\<lambda>c. is_alnum c \<or> c \<in> set ''.-'') (tl s)"

definition Alphanumeric :: "string \<Rightarrow> string" where
  "Alphanumeric s = filter is_alnum s"

definition isValidIdentifierChar :: "char \<Rightarrow> bool" where
  "isValidIdentifierChar b \<longleftrightarrow> is_alnum b \<or> b = CHR ''_'' \<or> b = CHR ''-''"

definition filterValidIdentifierChars :: "string \<Rightarrow> string \<times> nat" where
  "filterValidIdentifierChars s =
     (let t = filter isValidIdentifierChar s in (t, length t))"

definition isValidUsernameChar :: "char \<Rightarrow> bool" where
  "isValidUsernameChar b \<longleftrightarrow> isValidIdentifierChar b \<or> b = CHR ''.''"

definition isValidOperationIDChar :: "char \<Rightarrow> bool" where
  "isValidOperationIDChar b \<longleftrightarrow> isValidIdentifierChar b \<or> b = CHR ''.''"

section \<open>Names and tokens\<close>

definition SanitizeIdentifier :: "string \<Rightarrow> string result" where
  "SanitizeIdentifier s = (case filterValidIdentifierChars s of (t, n) \<Rightarrow>
     if n = 0 then Inl (Err IllegalArgument ''invalid name'') else Inr t)"

definition SanitizeFilename :: "string \<Rightarrow> string result" where
  "SanitizeFilename s = (case filterValidIdentifierChars s of (t, n) \<Rightarrow>
     if n = 0 then Inl (Err IllegalArgument ''invalid name'') else Inr t)"

definition SanitizeModuleName :: "string \<Rightarrow> string result" where
  "SanitizeModuleName s = (case filterValidIdentifierChars s of (t, n) \<Rightarrow>
     if n = 0 then Inl (Err IllegalArgument ''invalid name'') else Inr t)"

definition ValidateIdentifier :: "string \<Rightarrow> unit result" where
  "ValidateIdentifier s =
     (if s = [] then invalidArgf ''identifier cannot be empty''
      else if list_ex (\<lambda>c. \<not> isValidIdentifierChar c) s
        then invalidArgf ''identifier contains invalid characters''
      else Inr ())"

definition ValidateDNSName :: "string \<Rightarrow> unit result" where
  "ValidateDNSName s =
     (if s = [] then invalidArgf ''DNS name cannot be empty''
      else if \<not> hostPattern s then invalidArgf ''DNS name contains invalid characters''
      else Inr ())"

definition ValidateHexToken :: "string \<Rightarrow> unit result" where
  "ValidateHexToken s =
     (if s = [] then invalidArgf ''token cannot be empty''
      else if 4096 < length s then invalidArgf ''token exceeds maximum length of 4096 characters''
      else if list_ex (\<lambda>c. \<not> is_hex c) s
        then invalidArgf ''token contains non-hexadecimal characters''
      else Inr ())"

definition ValidateHostPort :: "string \<Rightarrow> unit result" where
  "ValidateHostPort s =
     (if s = [] then invalidArgf ''host:port cannot be empty''
      else if strings_Contains s ''..'' \<or> strings_Contains s ''/''
        then invalidArgf ''host:port cannot contain path components''
      else if shellMetachars s then invalidArgf ''host:port contains invalid characters''
      else let hostPort = strings_Split (CHR '':'') s in
        if 2 < length hostPort \<or> length hostPort < 1 then invalidArgf ''invalid host:port format''
        else if \<not> hostPattern (hostPort ! 0) then invalidArgf ''invalid host format''
        else if length hostPort = 2 then
          (case strconv_Atoi (hostPort ! 1) of
             None \<Rightarrow> invalidArgf ''invalid port number''
           | Some port \<Rightarrow>
               if port < 1 \<or> 65535 < port then invalidArgf ''port must be between 1 and 65535''
               else Inr ())
        else Inr ())"

definition ValidateUsername :: "string \<Rightarrow> unit result" where
  "ValidateUsername s =
     (if s = [] then invalidArgf ''username cannot be empty''
      else if strings_Contains s ''..''
        then invalidArgf ''username contains path traversal sequences''
      else if shellMetachars s then invalidArgf ''username contains shell metacharacters''
      else if list_ex (\<lambda>c. \<not> isValidUsernameChar c) s
        then invalidArgf ''username contains invalid characters''
      else Inr ())"

definition ValidateOperationID :: "string \<Rightarrow> unit result" where
  "ValidateOperationID s =
     (if s = [] then invalidArgf ''operationId cannot be empty''
      else if strings_Contains s ''..''
        then invalidArgf ''operationId contains path traversal sequences''
      else if shellMetachars s then invalidArgf ''operationId contains shell metacharacters''
      else if list_ex (\<lambda>c. \<not> isValidOperationIDChar c) s
        then invalidArgf ''operationId contains invalid characters''
      else Inr ())"

section \<open>Paths\<close>

text \<open>\<open>filepath.Clean\<close> on Unix: the path elements are read from left to right; an empty one and
  \<open>.\<close> are dropped and \<open>..\<close> removes the element before it, or stays at the front of a relative path.
  The accumulator holds the elements kept, last one first.\<close>

definition clean_step :: "bool \<Rightarrow> string list \<Rightarrow> string \<Rightarrow> string list" where
  "clean_step rooted acc e =
     (if e = [] \<or> e = ''.'' then acc
      else if e \<noteq> ''..'' then e # acc
      else case acc of
        [] \<Rightarrow> if rooted then [] else [e]
      | a # as \<Rightarrow> if a = ''..'' then e # acc else as)"

definition clean_elems :: "bool \<Rightarrow> string list \<Rightarrow> string list \<Rightarrow> string list" where
  "clean_elems rooted acc es = rev (foldl (clean_step rooted) acc es)"

definition filepath_IsAbs :: "string \<Rightarrow> bool" where
  "filepath_IsAbs p \<longleftrightarrow> prefix ''/'' p"

definition filepath_Clean :: "string \<Rightarrow> string" where
  "filepath_Clean p =
     (let rooted = filepath_IsAbs p;
          body = strings_Join ''/'' (clean_elems rooted [] (strings_Split (CHR ''/'') p))
      in if rooted then CHR ''/'' # body else if body = [] then ''.'' else body)"

text \<open>\<open>filepath.Abs\<close> of a relative path; \<open>cwd\<close> is the working directory, \<open>None\<close> when
  \<open>os.Getwd\<close> fails.\<close>

definition filepath_Abs :: "string option \<Rightarrow> string \<Rightarrow> string option" where
  "filepath_Abs cwd p =
     (if filepath_IsAbs p then Some (filepath_Clean p)
      else map_option (\<lambda>wd. filepath_Clean (wd @ ''/'' @ p)) cwd)"

definition SanitizePath :: "string option \<Rightarrow> string \<Rightarrow> string result" where
  "SanitizePath cwd path =
     (if path = [] then invalidArgf ''path cannot be empty''
      else if list_ex (\<lambda>seg. seg = ''..'') (strings_Split (CHR ''/'') path)
        then invalidArgf ''path cannot contain '..' segments''
      else case (if filepath_IsAbs path then Some path else filepath_Abs cwd path) of
        None \<Rightarrow> invalidArgf ''failed to resolve file path''
      | Some absPath \<Rightarrow>
          if shellMetachars absPath then invalidArgf ''path contains shell metacharacters''
          else if \<not> validPathChars absPath then invalidArgf ''path contains invalid characters''
          else Inr (filepath_Clean absPath))"

definition ValidatePathWithinBase :: "string option \<Rightarrow> string \<Rightarrow> string \<Rightarrow> string result" where
  "ValidatePathWithinBase cwd basePath targetPath =
     (if basePath = [] then invalidArgf ''base path cannot be empty''
      else if targetPath = [] then invalidArgf ''target path cannot be empty''
      else rbind (SanitizePath cwd targetPath) (\<lambda>cleanTarget.
        let cleanBase0 = filepath_Clean basePath;
            cleanBase = (if strings_HasSuffix cleanBase0 ''/'' then cleanBase0 else cleanBase0 @ ''/'')
        in if \<not> strings_HasPrefix (cleanTarget @ ''/'') cleanBase
             then invalidArgf ''path is outside the allowed base directory''
           else Inr cleanTarget))"

text \<open>What \<open>os.Stat\<close> reports of a path.\<close>

datatype stat_result = StatRegular | StatOther | StatNotExist | StatPermission | StatFailed

definition ValidateInputFile :: "string option \<Rightarrow> (string \<Rightarrow> stat_result) \<Rightarrow> string \<Rightarrow> string result" where
  "ValidateInputFile cwd os_Stat filePath =
     (if filePath = [] then invalidArgf ''file path cannot be empty''
      else rbind (map_err (wrap IllegalArgument ''invalid file path'') (SanitizePath cwd filePath))
        (\<lambda>sanitizedPath. case os_Stat sanitizedPath of
           StatNotExist \<Rightarrow> Inl (Err IllegalArgument ''file does not exist'')
         | StatPermission \<Rightarrow> Inl (Err ExternalError ''cannot access file'')
         | StatFailed \<Rightarrow> Inl (Err InternalError ''failed to stat file'')
         | StatOther \<Rightarrow> invalidArgf ''path is not a regular file''
         | StatRegular \<Rightarrow> Inr sanitizedPath))"

section \<open>Domains\<close>

definition isASCII :: "string \<Rightarrow> bool" where
  "isASCII s \<longleftrightarrow> list_all (\<lambda>c. byte c \<le> 127) s"

definition isAllowedDomain :: "string \<Rightarrow> string list \<Rightarrow> bool" where
  "isAllowedDomain hostname allowed \<longleftrightarrow>
     isASCII hostname \<and>
     (let h = strings_ToLower hostname in
      list_ex (\<lambda>a. let al = strings_ToLower a in h = al \<or> strings_HasSuffix h (''.'' @ al)) allowed)"

definition allowedDomains :: "string list" where
  "allowedDomains =
     [''storage.googleapis.com'', ''dl.google.com'', ''github.com'', ''githubusercontent.com'',
      ''dl.k8s.io'', ''packages.cloud.google.com'', ''gcr.io'', ''registry.k8s.io'', ''quay.io'',
      ''charts.helm.sh'', ''get.helm.sh'', ''releases.hashicorp.com'', ''cdn.teleport.dev'']"

text \<open>The registry part of an OCI reference: \<open>[a-zA-Z0-9.-]+(:[0-9]+)?\<close>.\<close>

definition validRegistryPattern :: "string \<Rightarrow> bool" where
  "validRegistryPattern r \<longleftrightarrow>
     (case cut_byte (CHR '':'') r of
        None \<Rightarrow> r \<noteq> [] \<and> list_all (\<lambda>c. is_alnum c \<or> c \<in> set ''.-'') r
      | Some (h, p) \<Rightarrow> h \<noteq> [] \<and> list_all (\<lambda>c. is_alnum c \<or> c \<in> set ''.-'') h \<and>
                       p \<noteq> [] \<and> list_all is_digit p)"

definition validateOCIReference :: "string \<Rightarrow> unit result" where
  "validateOCIReference ociRef =
     (let ref = strings_TrimPrefix ociRef ''oci://'';
          parts = strings_Split (CHR ''/'') ref;
          registry = parts ! 0
      in if ref = [] then invalidArgf ''OCI reference missing registry path''
         else if length parts < 2 then invalidArgf ''OCI reference must include registry and path''
         else if registry = [] then invalidArgf ''OCI reference missing registry''
         else if \<not> validRegistryPattern registry then invalidArgf ''invalid OCI registry format''
         else Inr ())"

section \<open>Sizes, CIDRs and ports\<close>

text \<open>\<open>ValidateStorageSize\<close>: the pattern \<open>([0-9]+)(Gi|Mi|Ti)\<close> splits the value at its last two
  bytes.\<close>

definition ValidateStorageSize :: "string \<Rightarrow> unit result" where
  "ValidateStorageSize sz =
     (let num = take (length sz - 2) sz; unit = drop (length sz - 2) sz in
      if sz = [] then invalidArgf ''storage size cannot be empty''
      else if \<not> (num \<noteq> [] \<and> list_all is_digit num \<and> unit \<in> {''Gi'', ''Mi'', ''Ti''})
        then invalidArgf ''storage size must be in format <number>(Gi|Mi|Ti)''
      else if list_all (\<lambda>c. c = CHR ''0'') num
        then invalidArgf ''storage size must be greater than zero''
      else Inr ())"

definition Contains :: "'a \<Rightarrow> 'a list \<Rightarrow> bool" where
  "Contains item xs \<longleftrightarrow> list_ex (\<lambda>v. v = item) xs"

definition ValidateCIDR :: "string \<Rightarrow> unit result" where
  "ValidateCIDR s =
     (if s = [] then invalidArgf ''CIDR cannot be empty''
      else if shellMetachars s then invalidArgf ''CIDR contains invalid characters''
      else if net_ParseCIDR s = None then invalidArgf ''invalid CIDR''
      else Inr ())"

definition ValidateIPv4CIDR :: "string \<Rightarrow> unit result" where
  "ValidateIPv4CIDR s = rbind (ValidateCIDR s) (\<lambda>_.
     case net_ParseCIDR s of
       None \<Rightarrow> invalidArgf ''invalid CIDR: IPv6 CIDRs are not yet supported''
     | Some (ip, _) \<Rightarrow>
         if ip_not_To4 ip then invalidArgf ''invalid CIDR: IPv6 CIDRs are not yet supported''
         else Inr ())"

definition CIDRIsIPv6 :: "string \<Rightarrow> bool result" where
  "CIDRIsIPv6 s = (case net_ParseCIDR s of
     None \<Rightarrow> Inl (Err IllegalArgument ''invalid CIDR'')
   | Some (ip, _) \<Rightarrow> Inr (ip_not_To4 ip))"

definition ValidatePort :: "string \<Rightarrow> unit result" where
  "ValidatePort s =
     (if s = [] then invalidArgf ''port cannot be empty''
      else case strconv_Atoi s of
        None \<Rightarrow> invalidArgf ''invalid port number''
      | Some port \<Rightarrow>
          if port < 1 \<or> 65535 < port then invalidArgf ''port must be between 1 and 65535''
          else Inr ())"

section \<open>Facts about the checks\<close>

lemma invalidArgf_neq [simp]: "invalidArgf m \<noteq> Inr x" "Inr x \<noteq> invalidArgf m"
  by (simp_all add: invalidArgf_def)

lemma is_ok_invalidArgf [simp]: "\<not> is_ok (invalidArgf m)"
  by (simp add: invalidArgf_def)

lemma not_shellMetachars_username:
  assumes "list_all isValidUsernameChar s"
  shows "\<not> shellMetachars s"
proof -
  have "\<not> (\<exists>c \<in> set '';&|$`<>(){}[]*?~''. isValidUsernameChar c)"
    by (simp add: isValidUsernameChar_def isValidIdentifierChar_def is_alnum_def is_lower_def
        is_upper_def is_digit_def)
  with assms show ?thesis
    by (force simp: shellMetachars_def list_all_iff list_ex_iff)
qed

lemma ValidateIdentifier_iff:
  "ValidateIdentifier s = Inr () \<longleftrightarrow> s \<noteq> [] \<and> list_all isValidIdentifierChar s"
  by (auto simp: ValidateIdentifier_def list_all_iff list_ex_iff)

lemma ValidatePort_iff:
  "ValidatePort s = Inr () \<longleftrightarrow> (\<exists>p. strconv_Atoi s = Some p \<and> 1 \<le> p \<and> p \<le> 65535)"
  by (cases "s = []") (auto simp: ValidatePort_def split: option.splits)

lemma ValidateCIDR_iff:
  "ValidateCIDR s = Inr () \<longleftrightarrow> \<not> shellMetachars s \<and> net_ParseCIDR s \<noteq> None"
  by (auto simp: ValidateCIDR_def net_ParseCIDR_def cut_byte_def)

subsection \<open>Bytes of accepted values\<close>

lemma ipv4_loop_chars: "ipv4_loop s v d fs st = Some os \<Longrightarrow> c \<in> set s \<Longrightarrow> is_digit c \<or> c = CHR ''.''"
  by (induction s v d fs st rule: ipv4_loop.induct) (auto split: if_splits)

lemma hex_digit: "is_digit c \<Longrightarrow> is_hex c"
  by (simp add: is_hex_def)

lemma ipv6_loop_chars:
  "ipv6_loop s gs ell = Some ([], gs', ell') \<Longrightarrow> c \<in> set s \<Longrightarrow> is_hex c \<or> c = CHR '':'' \<or> c = CHR ''.''"
proof (induction s gs ell rule: ipv6_loop.induct)
  case (1 s gs ell)
  let ?ds = "takeWhile is_hex s" and ?rest = "dropWhile is_hex s"
  have len: "length gs < 8" using "1.prems" by (cases "8 \<le> length gs") (auto simp: ipv6_loop.simps[of s gs ell])
  have ds: "\<not> (?ds = [] \<or> 4 < length ?ds)" using "1.prems" len by (auto simp: ipv6_loop.simps[of s gs ell] Let_def split: if_splits)
  show ?case
  proof (cases "c \<in> set ?rest")
    case False
    then have "c \<in> set ?ds" using "1.prems"(2) by (metis UnE set_append takeWhile_dropWhile_id)
    then show ?thesis by (auto dest: set_takeWhileD)
  next
    case True
    then have ne: "?rest \<noteq> []" by (metis empty_iff empty_set)
    show ?thesis
    proof (cases "hd ?rest = CHR ''.''")
      case dot: True
      then have "\<exists>os. parse_ipv4_fields s = Some os" using "1.prems"(1) len ds ne
        by (auto simp: ipv6_loop.simps[of s gs ell] Let_def split: if_splits option.splits)
      then show ?thesis using ipv4_loop_chars "1.prems"(2) hex_digit unfolding parse_ipv4_fields_def by blast
    next
      case colon: False
      then have hd: "hd ?rest = CHR '':''" "tl ?rest \<noteq> []" using "1.prems"(1) len ds ne
        by (auto simp: ipv6_loop.simps[of s gs ell] Let_def split: if_splits)
      then have rest: "?rest = CHR '':'' # tl ?rest" using ne by (metis list.collapse)
      show ?thesis
      proof (cases "hd (tl ?rest) = CHR '':''")
        case second: True
        then have two: "tl ?rest = CHR '':'' # tl (tl ?rest)" using hd(2) by (metis list.collapse)
        show ?thesis
        proof (cases "c \<in> set (tl (tl ?rest))")
          case c: True
          then have "tl (tl ?rest) \<noteq> []" by (metis empty_iff empty_set)
          then have "ipv6_loop (tl (tl ?rest)) (gs @ [hexs_val ?ds]) (Some (length (gs @ [hexs_val ?ds]))) = Some ([], gs', ell')"
            using "1.prems"(1) len ds ne colon hd second
            by (subst (asm) ipv6_loop.simps) (auto simp: Let_def split: if_splits)
          then show ?thesis using "1.IH"(1)[OF _ refl refl refl ds ne colon _ second _ _ _ c] len hd "1.prems"(1) ds ne colon second
            \<open>tl (tl ?rest) \<noteq> []\<close> by (subst (asm) (2) ipv6_loop.simps) (auto simp: Let_def split: if_splits)
        next
          case False
          then show ?thesis using True rest two by (metis set_ConsD)
        qed
      next
        case second: False
        show ?thesis
        proof (cases "c \<in> set (tl ?rest)")
          case c: True
          have "ipv6_loop (tl ?rest) (gs @ [hexs_val ?ds]) ell = Some ([], gs', ell')"
            using "1.prems"(1) len ds ne colon hd second
            by (subst (asm) ipv6_loop.simps) (auto simp: Let_def split: if_splits)
          then show ?thesis using "1.IH"(2)[OF _ refl refl refl ds ne colon _ second _ c] len hd by simp
        next
          case False
          then show ?thesis using True rest by (metis set_ConsD)
        qed
      qed
    qed
  qed
qed

lemma ParseAddr_chars:
  assumes "netip_ParseAddr s = Some a" "addr_zone a = []" "c \<in> set s"
  shows "is_hex c \<or> c = CHR '':'' \<or> c = CHR ''.''"
proof -
  have v4: ?thesis if "parse_ipv4 s = Some a"
    using that assms(3) ipv4_loop_chars hex_digit by (fastforce simp: parse_ipv4_def parse_ipv4_fields_def)
  have groups: ?thesis if "parse_ipv6_groups s = Some gs" for gs
  proof -
    have lead: "c \<in> set (drop 2 s) \<or> c = CHR '':''" if "prefix ''::'' s" using that assms(3) by (auto simp: prefix_def)
    show ?thesis using that assms(3) lead
      by (auto simp: parse_ipv6_groups_def Let_def split: if_splits option.splits prod.splits dest: ipv6_loop_chars)
  qed
  show ?thesis using assms v4 groups
    by (auto simp: netip_ParseAddr_def parse_ipv6_def split: option.splits if_splits)
qed

lemma ValidateCIDR_chars:
  assumes "ValidateCIDR s = Inr ()" "c \<in> set s"
  shows "is_hex c \<or> c = CHR '':'' \<or> c = CHR ''.'' \<or> c = CHR ''/''"
proof -
  from assms(1) obtain as ms a where p: "cut_byte (CHR ''/'') s = Some (as, ms)" "netip_ParseAddr as = Some a" "addr_zone a = []"
    "list_all is_digit ms"
    by (auto simp: ValidateCIDR_iff net_ParseCIDR_def split: option.splits if_splits)
  then have "s = as @ CHR ''/'' # ms" by (simp add: cut_byte_Some)
  then show ?thesis using assms(2) ParseAddr_chars[OF p(2,3)] p(4) hex_digit by (auto simp: list_all_iff)
qed

lemma ValidatePort_chars:
  assumes "ValidatePort s = Inr ()"
  shows "s \<noteq> []" "c \<in> set s \<Longrightarrow> is_digit c \<or> c = CHR ''+''"
proof -
  from assms obtain p where p: "strconv_ParseInt s = Some p" "1 \<le> p"
    by (auto simp: ValidatePort_iff strconv_Atoi_def)
  then show "s \<noteq> []" by (auto simp: strconv_ParseInt_def)
  have "hd s \<noteq> CHR ''-''"
    using p dec_val_nonneg[of "tl s"] by (auto simp: strconv_ParseInt_def Let_def split: if_splits)
  then show "c \<in> set s \<Longrightarrow> is_digit c \<or> c = CHR ''+''"
    using p by (cases s) (auto simp: strconv_ParseInt_def Let_def list_all_iff split: if_splits)
qed

subsection \<open>Labels\<close>

lemma Join_Split [simp]: "strings_Join [c] (strings_Split c s) = s"
proof (induction s)
  case (Cons d s)
  show ?case
  proof (cases "strings_Split c s")
    case (Cons p ps)
    with Cons.IH show ?thesis by (cases ps) auto
  qed simp
qed simp

lemma Split_append_sep: "strings_Split c (p @ c # s) = strings_Split c p @ strings_Split c s"
proof (induction p)
  case (Cons d p)
  show ?case
  proof (cases "strings_Split c p")
    case (Cons q qs)
    with Cons.IH show ?thesis by auto
  qed simp
qed simp

lemma Join_append:
  "xs \<noteq> [] \<Longrightarrow> ys \<noteq> [] \<Longrightarrow> strings_Join sep (xs @ ys) = strings_Join sep xs @ sep @ strings_Join sep ys"
proof (induction xs)
  case (Cons x xs)
  then show ?case by (cases "xs = []") (simp_all add: Join_Cons)
qed simp

lemma suffix_byte: "suffix ([c] @ a) h \<longleftrightarrow> (\<exists>p. h = p @ c # a)"
  by (auto simp: suffix_def)

lemma suffix_Split:
  "suffix (strings_Split c a) (strings_Split c h) \<longleftrightarrow> h = a \<or> (\<exists>p. h = p @ c # a)"
proof
  assume "suffix (strings_Split c a) (strings_Split c h)"
  then obtain xs where xs: "strings_Split c h = xs @ strings_Split c a" by (auto simp: suffix_def)
  then have "h = strings_Join [c] (xs @ strings_Split c a)" by (metis Join_Split)
  then show "h = a \<or> (\<exists>p. h = p @ c # a)"
    by (cases "xs = []") (auto simp: Join_append)
qed (auto simp: Split_append_sep suffix_def)

subsection \<open>Cleaned paths\<close>

lemma Split_no_sep_elem: "e \<in> set (strings_Split c s) \<Longrightarrow> c \<notin> set e"
  by (induction s arbitrary: e) (auto split: list.splits if_splits)

lemma set_Join: "set (strings_Join sep xs) \<subseteq> set sep \<union> \<Union> (set ` set xs)"
  by (induction sep xs rule: strings_Join.induct) auto

text \<open>A rooted path is cleaned to elements that are neither empty nor \<open>.\<close> nor \<open>..\<close>.\<close>

definition plain_elem :: "string \<Rightarrow> bool" where
  "plain_elem e \<longleftrightarrow> e \<noteq> [] \<and> e \<noteq> ''.'' \<and> e \<noteq> ''..'' \<and> CHR ''/'' \<notin> set e"

lemma clean_step_plain:
  "\<forall>a \<in> set acc. plain_elem a \<Longrightarrow> CHR ''/'' \<notin> set e \<Longrightarrow> \<forall>a \<in> set (clean_step True acc e). plain_elem a"
  by (cases acc) (simp_all add: clean_step_def plain_elem_def)

lemma clean_elems_plain:
  assumes "\<forall>e \<in> set es. CHR ''/'' \<notin> set e" "\<forall>e \<in> set acc. plain_elem e"
  shows "\<forall>e \<in> set (clean_elems True acc es). plain_elem e"
  using assms unfolding clean_elems_def set_rev
proof (induction es arbitrary: acc)
  case (Cons e es)
  then show ?case using clean_step_plain[of acc e] by simp
qed simp

lemma clean_elems_id:
  "\<forall>e \<in> set es. plain_elem e \<Longrightarrow> clean_elems r acc es = rev acc @ es"
  by (induction es arbitrary: acc) (simp_all add: clean_elems_def clean_step_def plain_elem_def)

lemma clean_elems_skip [simp]: "clean_elems r acc ([] # es) = clean_elems r acc es"
  by (simp add: clean_elems_def clean_step_def)

lemma clean_step_subset: "set (clean_step r acc e) \<subseteq> set acc \<union> ({e} - {[]})"
  by (cases acc) (auto simp: clean_step_def)

lemma clean_elems_subset:
  "set (clean_elems r acc es) \<subseteq> set acc \<union> (set es - {[]})"
  unfolding clean_elems_def set_rev
proof (induction es arbitrary: acc)
  case (Cons e es)
  from Cons[of "clean_step r acc e"] clean_step_subset[of r acc e] show ?case by auto
qed simp

definition abs_elems :: "string \<Rightarrow> string list" where
  "abs_elems p = clean_elems True [] (strings_Split (CHR ''/'') p)"

lemma abs_elems_plain: "\<forall>e \<in> set (abs_elems p). plain_elem e"
  unfolding abs_elems_def by (rule clean_elems_plain) (auto dest: Split_no_sep_elem)

lemma Clean_abs: "filepath_IsAbs p \<Longrightarrow> filepath_Clean p = CHR ''/'' # strings_Join ''/'' (abs_elems p)"
  by (simp add: filepath_Clean_def abs_elems_def Let_def)

lemma IsAbs_Clean: "filepath_IsAbs p \<Longrightarrow> filepath_IsAbs (filepath_Clean p)"
  by (simp add: Clean_abs) (simp add: filepath_IsAbs_def)

lemma Clean_relative:
  assumes "\<not> filepath_IsAbs p"
  shows "\<not> prefix ''/'' (filepath_Clean p) \<and> filepath_Clean p \<noteq> []"
proof -
  define es where "es = clean_elems False [] (strings_Split (CHR ''/'') p)"
  have es: "e \<noteq> [] \<and> CHR ''/'' \<notin> set e" if "e \<in> set es" for e
    using that clean_elems_subset[of False "[]" "strings_Split (CHR ''/'') p"] Split_no_sep_elem[of e]
    by (auto simp: es_def)
  have "\<not> prefix ''/'' (strings_Join ''/'' es)"
  proof (cases es)
    case (Cons e es')
    with es[of e] show ?thesis
      by (cases e; cases es') (auto simp: Join_Cons)
  qed simp
  with assms show ?thesis by (simp add: filepath_Clean_def es_def Let_def)
qed

lemma Clean_nonempty: "filepath_Clean p \<noteq> []"
  using Clean_relative[of p] Clean_abs[of p] by (cases "filepath_IsAbs p") auto

lemma abs_elems_Clean:
  assumes "filepath_IsAbs p"
  shows "abs_elems (filepath_Clean p) = abs_elems p"
proof (cases "abs_elems p = []")
  case True
  with assms show ?thesis by (simp add: Clean_abs abs_elems_def[of "''/''"] clean_elems_def clean_step_def)
next
  case False
  have "strings_Split (CHR ''/'') (strings_Join ''/'' (abs_elems p)) = abs_elems p"
    using False abs_elems_plain by (intro Split_Join) (auto simp: plain_elem_def)
  with assms show ?thesis
    by (simp add: Clean_abs abs_elems_def[of "CHR ''/'' # _"] clean_elems_id[OF abs_elems_plain])
qed

lemma Clean_idem: "filepath_IsAbs p \<Longrightarrow> filepath_Clean (filepath_Clean p) = filepath_Clean p"
  by (simp add: Clean_abs[OF IsAbs_Clean] abs_elems_Clean) (simp add: Clean_abs)

lemma Split_set_subset: "e \<in> set (strings_Split c s) \<Longrightarrow> set e \<subseteq> set s"
proof (induction s arbitrary: e)
  case (Cons d s)
  then show ?case by (fastforce split: list.splits if_splits)
qed simp

lemma set_Clean_abs:
  assumes "filepath_IsAbs p"
  shows "set (filepath_Clean p) \<subseteq> set p"
proof -
  have "CHR ''/'' \<in> set p"
    using assms by (auto simp: filepath_IsAbs_def prefix_def)
  moreover have "set e \<subseteq> set p" if "e \<in> set (abs_elems p)" for e
    using that clean_elems_subset[of True "[]" "strings_Split (CHR ''/'') p"] Split_set_subset[of e]
    by (auto simp: abs_elems_def)
  ultimately show ?thesis
    using assms set_Join[of "''/''" "abs_elems p"] by (auto simp: Clean_abs)
qed

lemma SanitizePath_Inr:
  assumes "SanitizePath cwd p = Inr q" "\<forall>wd. cwd = Some wd \<longrightarrow> filepath_IsAbs wd"
  obtains a where "filepath_IsAbs a" "q = filepath_Clean a" "validPathChars a" "\<not> shellMetachars a"
proof -
  from assms(1) obtain a where a: "(if filepath_IsAbs p then Some p else filepath_Abs cwd p) = Some a"
    "q = filepath_Clean a" "validPathChars a" "\<not> shellMetachars a"
    by (auto simp: SanitizePath_def split: if_splits option.splits)
  have "filepath_IsAbs a"
  proof (cases "filepath_IsAbs p")
    case False
    with a(1) obtain wd where wd: "cwd = Some wd" "a = filepath_Clean (wd @ ''/'' @ p)"
      by (auto simp: filepath_Abs_def)
    with assms(2) have "filepath_IsAbs (wd @ ''/'' @ p)"
      by (auto simp: filepath_IsAbs_def)
    with wd show ?thesis by (simp only: IsAbs_Clean)
  qed (use a(1) in simp)
  with a that show ?thesis by blast
qed

text \<open>Whole-element prefixes: a textual prefix that ends at a separator is one of elements.\<close>

definition slash_terms :: "string list \<Rightarrow> string" where
  "slash_terms es = concat (map (\<lambda>e. e @ ''/'') es)"

lemma slash_terms_Cons: "slash_terms (e # es) = e @ CHR ''/'' # slash_terms es"
  by (simp add: slash_terms_def)

lemma Join_slash: "es \<noteq> [] \<Longrightarrow> strings_Join ''/'' es @ ''/'' = slash_terms es"
proof (induction es)
  case (Cons e es)
  then show ?case by (cases "es = []") (simp_all add: slash_terms_def Join_Cons)
qed simp

lemma prefix_append_sep:
  assumes "c \<notin> set a" "c \<notin> set b"
  shows "prefix (a @ c # s) (b @ c # t) \<longleftrightarrow> a = b \<and> prefix s t"
  using assms
proof (induction a arbitrary: b)
  case Nil
  then show ?case by (cases b) auto
next
  case (Cons x a)
  then show ?case by (cases b) auto
qed

lemma prefix_slash_terms:
  "\<forall>e \<in> set bs. CHR ''/'' \<notin> set e \<Longrightarrow> \<forall>e \<in> set ts. CHR ''/'' \<notin> set e \<Longrightarrow>
   prefix (slash_terms bs) (slash_terms ts) \<longleftrightarrow> prefix bs ts"
proof (induction bs arbitrary: ts)
  case Nil
  then show ?case by (simp add: slash_terms_def)
next
  case (Cons b bs)
  show ?case
  proof (cases ts)
    case Nil
    then show ?thesis by (simp add: slash_terms_def)
  next
    case (Cons t ts')
    with Cons.prems Cons.IH[of ts'] show ?thesis
      by (simp add: slash_terms_Cons prefix_append_sep)
  qed
qed

lemma slash_terms_prefix_abs:
  assumes "\<forall>e \<in> set bs. plain_elem e" "\<forall>e \<in> set ts. plain_elem e"
    "prefix (slash_terms bs) (strings_Join ''/'' ts @ ''/'')"
  shows "prefix bs ts"
proof (cases "ts = []")
  case True
  with assms(1,3) show ?thesis
    by (cases bs) (auto simp: slash_terms_Cons plain_elem_def prefix_Cons append_eq_Cons_conv)
next
  case False
  with assms show ?thesis
    using prefix_slash_terms[of bs ts] by (auto simp: Join_slash plain_elem_def)
qed

text \<open>A cleaned rooted path ends in a separator only when it is the root itself.\<close>

lemma Clean_suffix_slash:
  assumes "filepath_IsAbs p"
  shows "(if strings_HasSuffix (filepath_Clean p) ''/'' then filepath_Clean p else filepath_Clean p @ ''/'') =
    CHR ''/'' # slash_terms (abs_elems p)"
proof (cases "abs_elems p = []")
  case True
  with assms show ?thesis by (simp add: Clean_abs strings_HasSuffix_def slash_terms_def)
next
  case False
  then obtain es e where es: "abs_elems p = es @ [e]" by (metis rev_exhaust)
  then have "plain_elem e" using abs_elems_plain[of p] by simp
  then obtain c t where c: "e = t @ [c]" "c \<noteq> CHR ''/''"
    by (cases e rule: rev_cases) (auto simp: plain_elem_def)
  have "strings_Join ''/'' (abs_elems p) @ ''/'' = slash_terms (abs_elems p)"
    by (rule Join_slash[OF False])
  also have "\<dots> = slash_terms es @ t @ [c] @ ''/''"
    by (simp add: es c slash_terms_def)
  finally have "strings_Join ''/'' (abs_elems p) = slash_terms es @ t @ [c]" by simp
  with assms c(2) have "\<not> strings_HasSuffix (filepath_Clean p) ''/''"
    by (simp add: Clean_abs strings_HasSuffix_def suffix_def)
  with assms False show ?thesis by (simp add: Clean_abs Join_slash)
qed

section \<open>Properties\<close>

lemma path_chars_mono:
  assumes "set q \<subseteq> set a"
  shows "q \<noteq> [] \<Longrightarrow> validPathChars a \<Longrightarrow> validPathChars q"
    and "\<not> shellMetachars a \<Longrightarrow> \<not> shellMetachars q"
  using assms unfolding validPathChars_def shellMetachars_def list_all_iff list_ex_iff by blast+

lemma SanitizePath_safe_aux:
  assumes "SanitizePath cwd p = Inr q" "\<forall>wd. cwd = Some wd \<longrightarrow> filepath_IsAbs wd"
  shows "filepath_IsAbs q \<and> filepath_Clean q = q \<and> validPathChars q \<and> \<not> shellMetachars q"
proof -
  from SanitizePath_Inr[OF assms] obtain a where a: "filepath_IsAbs a" "q = filepath_Clean a"
    "validPathChars a" "\<not> shellMetachars a" by blast
  have "q \<noteq> []" using a by (simp add: Clean_abs)
  moreover have "set q \<subseteq> set a" using a set_Clean_abs by simp
  ultimately have "validPathChars q" "\<not> shellMetachars q"
    using a(3,4) path_chars_mono by blast+
  with a show ?thesis by (simp add: IsAbs_Clean Clean_idem)
qed

text \<open>
  \<open>SanitizePath\<close> returns, for any input it accepts, an absolute path in cleaned form: cleaning
  it again changes nothing, no element of it is \<open>.\<close>, \<open>..\<close> or empty, and all its bytes are in the
  safe set. The hypothesis is that \<open>os.Getwd\<close> returns an absolute path.
\<close>

lemma SanitizePath_safe:
  assumes "SanitizePath cwd p = Inr q" "\<forall>wd. cwd = Some wd \<longrightarrow> filepath_IsAbs wd"
  shows "filepath_IsAbs q \<and> filepath_Clean q = q \<and> list_all plain_elem (abs_elems q) \<and>
    validPathChars q \<and> \<not> shellMetachars q"
  using SanitizePath_safe_aux[OF assms] abs_elems_plain by (simp add: list_all_iff)

text \<open>
  A path that \<open>ValidatePathWithinBase\<close> accepts lies in the base directory as a path and not
  only as a string: the base is absolute and its cleaned elements are the first elements of the
  result. The sibling \<open>/opt/solo-evil\<close> of \<open>/opt/solo\<close> is therefore refused.
\<close>

lemma ValidatePathWithinBase_contains:
  assumes "ValidatePathWithinBase cwd base target = Inr q"
    and "\<forall>wd. cwd = Some wd \<longrightarrow> filepath_IsAbs wd"
  shows "filepath_IsAbs base \<and> filepath_IsAbs q \<and> prefix (abs_elems base) (abs_elems q) \<and>
    list_all plain_elem (abs_elems q)"
proof -
  define cb where "cb = (if strings_HasSuffix (filepath_Clean base) ''/'' then filepath_Clean base
    else filepath_Clean base @ ''/'')"
  have san: "SanitizePath cwd target = Inr q" and pre: "prefix cb (q @ ''/'')" and ne: "base \<noteq> []"
    using assms(1)
    by (auto simp: ValidatePathWithinBase_def rbind_Inr_iff cb_def Let_def strings_HasPrefix_def split: if_splits)
  note q = SanitizePath_safe_aux[OF san assms(2)]
  have q_eq: "q = CHR ''/'' # strings_Join ''/'' (abs_elems q)"
    using q Clean_abs[of q] by simp
  have "filepath_Clean base \<noteq> []" by (rule Clean_nonempty)
  then obtain c t where cb: "filepath_Clean base = c # t" by (cases "filepath_Clean base") auto
  obtain q' where "q = CHR ''/'' # q'" using q_eq by blast
  with pre cb have "c = CHR ''/''"
    by (simp add: cb_def split: if_splits)
  then have abs: "filepath_IsAbs base"
    using Clean_relative[of base] cb by auto
  have "cb = CHR ''/'' # slash_terms (abs_elems base)"
    using abs Clean_suffix_slash[OF abs] by (simp add: cb_def)
  with pre q_eq have "prefix (slash_terms (abs_elems base)) (strings_Join ''/'' (abs_elems q) @ ''/'')"
    by (metis append_Cons Cons_prefix_Cons)
  then have "prefix (abs_elems base) (abs_elems q)"
    using slash_terms_prefix_abs abs_elems_plain by blast
  with abs q show ?thesis using abs_elems_plain by (simp add: list_all_iff)
qed

text \<open>
  The domain allowlist matches whole labels. A host name is allowed exactly when it is ASCII
  and, compared without regard to case, the labels of an allowed domain are its last labels; a
  name that only ends in the same letters (\<open>evilgithub.com\<close>) is refused.
\<close>

lemma isAllowedDomain_labels:
  "isAllowedDomain hostname allowed \<longleftrightarrow>
     isASCII hostname \<and>
     (\<exists>a \<in> set allowed. suffix (strings_Split (CHR ''.'') (strings_ToLower a))
                             (strings_Split (CHR ''.'') (strings_ToLower hostname)))"
  unfolding isAllowedDomain_def Let_def list_ex_iff suffix_Split strings_HasSuffix_def suffix_byte ..

text \<open>
  A name that \<open>ValidateUsername\<close> accepts is not empty and made of letters, digits, \<open>_\<close>, \<open>-\<close> and
  \<open>.\<close> only, without the traversal sequence; every such name is accepted, so the shell
  metacharacter check never decides the outcome. \<open>ValidateOperationID\<close> accepts the same names.
\<close>

lemma ValidateUsername_exact:
  "(ValidateUsername s = Inr () \<longleftrightarrow>
      s \<noteq> [] \<and> list_all isValidUsernameChar s \<and> \<not> (\<exists>a b. s = a @ ''..'' @ b)) \<and>
   (ValidateOperationID s = Inr () \<longleftrightarrow> ValidateUsername s = Inr ())"
  using not_shellMetachars_username[of s] Contains_iff[of s "''..''"]
  unfolding ValidateUsername_def ValidateOperationID_def isValidOperationIDChar_def
    isValidUsernameChar_def[symmetric] list_ex_iff list_all_iff
  by simp

end
