(* ===== verification/NetipText.thy ===== *)
theory NetipText
  imports Netip
begin

text \<open>
  The round trip of \<open>netip\<close>'s text form: parsing what \<open>Addr.String\<close> and \<open>Prefix.String\<close> print
  gives the value back. The canonical form of a set element rests on it.
\<close>

section \<open>IPv4\<close>

lemma is_hex_digit: "is_digit c \<Longrightarrow> is_hex c"
  by (simp add: is_hex_def)

lemma not_hex_sep [simp]: "\<not> is_hex (CHR '':'')" "\<not> is_hex (CHR ''.'')" "\<not> is_hex (CHR ''%'')" "\<not> is_hex (CHR ''/'')"
  by (simp_all add: is_hex_def is_digit_def)

lemma not_digit_sep [simp]: "\<not> is_digit (CHR ''.'')"
  by (simp add: is_digit_def)

lemma ipv4_loop_itoa:
  "0 \<le> n \<Longrightarrow> n \<le> 255 \<Longrightarrow> ipv4_loop (itoa n @ rest) 0 0 fs st = ipv4_loop rest n (length (itoa n)) fs False"
proof (induction n arbitrary: rest rule: itoa.induct)
  case (1 n)
  show ?case
  proof (cases "n < 10")
    case True
    with 1(2,3) show ?thesis by (simp add: itoa.simps[of n])
  next
    case False
    with 1 have "ipv4_loop (itoa (n div 10) @ digit_char (n mod 10) # rest) 0 0 fs st =
      ipv4_loop (digit_char (n mod 10) # rest) (n div 10) (length (itoa (n div 10))) fs False"
      by simp
    moreover have "n div 10 \<noteq> 0" "n div 10 * 10 + n mod 10 = n" using False by simp_all
    ultimately show ?thesis using False 1(2,3) by (simp add: itoa.simps[of n])
  qed
qed

lemma octets_range: "o' \<in> set (octets v) \<Longrightarrow> 0 \<le> o' \<and> o' \<le> 255"
  using pos_mod_bound[of 256] by (auto simp: octets_def intro: zle_diff1_eq[THEN iffD1])

lemma octet_nth: "i < 4 \<Longrightarrow> 0 \<le> octets v ! i \<and> octets v ! i \<le> 255"
  using octets_range[OF nth_mem, of i v] by (simp add: octets_def[of v])

lemma string4_eq: "string4 v = (let os = octets v in
    itoa (os ! 0) @ CHR ''.'' # itoa (os ! 1) @ CHR ''.'' # itoa (os ! 2) @ CHR ''.'' # itoa (os ! 3))"
  by (simp add: string4_def octets_def)

lemma parse_ipv4_fields_string4: "parse_ipv4_fields (string4 v) = Some (octets v)"
proof -
  have r: "0 \<le> octets v ! i \<and> octets v ! i \<le> 255" if "i < 4" for i
    using that by (rule octet_nth)
  have os: "octets v = [octets v ! 0, octets v ! 1, octets v ! 2, octets v ! 3]"
    by (simp add: octets_def)
  show ?thesis
    using r ipv4_loop_itoa[of "octets v ! 3" "[]"]
    by (subst os) (simp add: parse_ipv4_fields_def string4_eq Let_def ipv4_loop_itoa)
qed

lemma digits_step: "v div (b * c) * b + v div c mod b = v div (c :: int)" if "0 < b" "0 < c"
  using that by (metis div_mult_mod_eq mult.commute zdiv_zmult2_eq less_le_not_le)

lemma octets_val_octets:
  assumes "0 \<le> v" "v < 2 ^ 32"
  shows "octets_val (octets v) = v"
proof -
  have "v div 16777216 \<le> (2 ^ 32 - 1) div 16777216" using assms by (intro zdiv_mono1) auto
  then have "v div 16777216 mod 256 = v div 16777216"
    using assms by (simp add: pos_imp_zdiv_nonneg_iff)
  moreover have "v div 16777216 * 256 + v div 65536 mod 256 = v div 65536"
    using digits_step[of 256 65536 v] by simp
  moreover have "v div 65536 * 256 + v div 256 mod 256 = v div 256"
    using digits_step[of 256 256 v] by simp
  moreover have "v div 256 * 256 + v mod 256 = v" by simp
  ultimately show ?thesis
    by (simp only: octets_val_def octets_def foldl_Cons foldl_Nil mult_zero_left add_0)
qed

lemma find_first_sep:
  assumes "c \<in> {CHR ''.'', CHR '':'', CHR ''%''}" "\<forall>x \<in> set s. is_hex x"
  shows "find (\<lambda>c. c = CHR ''.'' \<or> c = CHR '':'' \<or> c = CHR ''%'') (s @ c # r) = Some c"
  using assms by (induction s) (auto simp: is_hex_def is_digit_def)

lemma itoa_hex: "0 \<le> n \<Longrightarrow> \<forall>x \<in> set (itoa n). is_hex x"
  using itoa_digit_set is_hex_digit by blast

lemma ParseAddr_String4: "netip_ParseAddr (string4 (uint (w :: 32 word))) = Some (Addr4 w)"
proof -
  have "find (\<lambda>c. c = CHR ''.'' \<or> c = CHR '':'' \<or> c = CHR ''%'') (string4 (uint w)) = Some (CHR ''.'')"
    unfolding string4_eq Let_def using octets_range[of "octets (uint w) ! 0" "uint w"]
    by (intro find_first_sep itoa_hex) (simp_all add: octets_def)
  moreover have "uint w < 2 ^ 32"
    using unsigned_less[of w, where ?'a = int] by simp
  ultimately show ?thesis
    by (simp add: netip_ParseAddr_def parse_ipv4_def parse_ipv4_fields_string4 octets_val_octets)
qed

section \<open>IPv6\<close>

lemma hextets_range: "g \<in> set (hextets v) \<Longrightarrow> 0 \<le> g \<and> g < 65536"
  by (auto simp: hextets_def)

lemma hextets_val_hextets:
  assumes "0 \<le> v" "v < 2 ^ 128"
  shows "hextets_val (hextets v) = v"
proof -
  define d where "d k = v div 2 ^ k" for k :: nat
  have step: "d m * 65536 + d k mod 65536 = d k" if "m = k + 16" for m k
    using digits_step[of 65536 "2 ^ k" v] that by (simp add: d_def power_add mult.commute)
  have lt: "x div b < a" if "x < a * b" "0 < b" for x a b :: int
  proof -
    have "x div b * b \<le> x" using that(2) div_mult_mod_eq[of x b] pos_mod_sign[of b x] by linarith
    then have "x div b * b < a * b" using that(1) by linarith
    then show ?thesis using that(2) by simp
  qed
  have "2 ^ 128 = 65536 * (2 ^ 112 :: int)" by simp
  then have "v < 65536 * 2 ^ 112" using assms(2) by linarith
  then have "d 112 < 65536" unfolding d_def by (rule lt) simp
  moreover have "0 \<le> d 112" using assms(1) unfolding d_def by (simp only: pos_imp_zdiv_nonneg_iff zero_less_power zero_less_numeral)
  ultimately have top: "d 112 mod 65536 = d 112" by (intro mod_pos_pos_trivial)
  have last: "d 0 = v" unfolding d_def by simp
  have "d 16 * 65536 + d 0 mod 65536 = d 0" by (rule step) simp
  note s0 = this[unfolded last]
  have "hextets v = [d 112 mod 65536, d 96 mod 65536, d 80 mod 65536, d 64 mod 65536,
      d 48 mod 65536, d 32 mod 65536, d 16 mod 65536, d 0 mod 65536]"
    unfolding hextets_def d_def list.map ..
  then show ?thesis
    unfolding hextets_val_def
    by (simp only: foldl_Cons foldl_Nil mult_zero_left add_0 top
        step[of 112 96, simplified] step[of 96 80, simplified] step[of 80 64, simplified]
        step[of 64 48, simplified] step[of 48 32, simplified] step[of 32 16, simplified]
        s0 last)
qed

lemma takeWhile_hexs:
  assumes "0 \<le> g" "r = [] \<or> \<not> is_hex (hd r)"
  shows "takeWhile is_hex (hexs g @ r) = hexs g" "dropWhile is_hex (hexs g @ r) = r"
proof -
  have "\<forall>x \<in> set (hexs g). is_hex x" using hexs_hex[OF assms(1)] by (simp add: list_all_iff)
  then show "takeWhile is_hex (hexs g @ r) = hexs g" "dropWhile is_hex (hexs g @ r) = r"
    using assms(2) by (cases r; simp add: takeWhile_append2 dropWhile_append2)+
qed

lemma ipv6_loop_hexs:
  assumes "0 \<le> g" "g < 65536" "length gs < 8"
  shows "ipv6_loop (hexs g) gs ell = Some ([], gs @ [g], ell)"
    and "s \<noteq> [] \<Longrightarrow> hd s \<noteq> CHR '':'' \<Longrightarrow> ipv6_loop (hexs g @ CHR '':'' # s) gs ell = ipv6_loop s (gs @ [g]) ell"
    and "ipv6_loop (hexs g @ ''::'' @ s) gs None =
      (if s = [] then Some ([], gs @ [g], Some (Suc (length gs))) else ipv6_loop s (gs @ [g]) (Some (Suc (length gs))))"
proof -
  have len: "length (hexs g) \<le> 4" using length_hexs[of g 3] assms by simp
  have "takeWhile is_hex (hexs g) = hexs g" "dropWhile is_hex (hexs g) = []"
    using takeWhile_hexs[of g "[]"] assms by simp_all
  then show "ipv6_loop (hexs g) gs ell = Some ([], gs @ [g], ell)"
    using assms len by (subst ipv6_loop.simps) (simp add: Let_def del: takeWhile_eq_all_conv)
  have "takeWhile is_hex (hexs g @ CHR '':'' # s) = hexs g" "dropWhile is_hex (hexs g @ CHR '':'' # s) = CHR '':'' # s" for s
    using takeWhile_hexs[of g "CHR '':'' # s"] assms by simp_all
  note sep = this
  show "s \<noteq> [] \<Longrightarrow> hd s \<noteq> CHR '':'' \<Longrightarrow> ipv6_loop (hexs g @ CHR '':'' # s) gs ell = ipv6_loop s (gs @ [g]) ell"
    using assms len by (subst ipv6_loop.simps) (simp add: Let_def sep)
  show "ipv6_loop (hexs g @ ''::'' @ s) gs None =
      (if s = [] then Some ([], gs @ [g], Some (Suc (length gs))) else ipv6_loop s (gs @ [g]) (Some (Suc (length gs))))"
    using assms len by (subst ipv6_loop.simps) (simp add: Let_def sep)
qed

text \<open>A non-empty sequence of groups, up to the end or up to the ellipsis.\<close>

abbreviation print_groups :: "int list \<Rightarrow> string" where
  "print_groups hs \<equiv> strings_Join '':'' (map hexs hs)"

lemma hexs_not_colon: "0 \<le> g \<Longrightarrow> hd (hexs g @ r) \<noteq> CHR '':''"
  using hexs_hex[of g] by (cases "hexs g") (auto simp: list_all_iff)

lemma print_groups_hd:
  "hs \<noteq> [] \<Longrightarrow> \<forall>h \<in> set hs. 0 \<le> h \<Longrightarrow> print_groups hs @ r \<noteq> [] \<and> hd (print_groups hs @ r) \<noteq> CHR '':''"
  using hexs_not_colon[of "hd hs"] by (cases hs; cases "tl hs") auto

lemma ipv6_loop_groups:
  "hs \<noteq> [] \<Longrightarrow> \<forall>h \<in> set hs. 0 \<le> h \<and> h < 65536 \<Longrightarrow> length gs + length hs \<le> 8 \<Longrightarrow>
   ipv6_loop (print_groups hs) gs ell = Some ([], gs @ hs, ell)"
proof (induction hs arbitrary: gs)
  case (Cons h hs)
  show ?case
  proof (cases "hs = []")
    case True
    with Cons.prems show ?thesis by (simp add: ipv6_loop_hexs(1))
  next
    case False
    have "ipv6_loop (hexs h @ CHR '':'' # print_groups hs) gs ell = ipv6_loop (print_groups hs) (gs @ [h]) ell"
      using Cons.prems False print_groups_hd[of hs "[]"] by (intro ipv6_loop_hexs(2)) auto
    with Cons False show ?thesis by (simp add: Join_Cons)
  qed
qed simp

lemma ipv6_loop_ellipsis:
  "hs \<noteq> [] \<Longrightarrow> \<forall>h \<in> set hs. 0 \<le> h \<and> h < 65536 \<Longrightarrow> length gs + length hs \<le> 8 \<Longrightarrow>
   ipv6_loop (print_groups hs @ ''::'' @ s) gs None =
   (if s = [] then Some ([], gs @ hs, Some (length gs + length hs))
    else ipv6_loop s (gs @ hs) (Some (length gs + length hs)))"
proof (induction hs arbitrary: gs)
  case (Cons h hs)
  show ?case
  proof (cases "hs = []")
    case True
    with Cons.prems show ?thesis using ipv6_loop_hexs(3)[of h gs s] by simp
  next
    case False
    have "ipv6_loop (hexs h @ CHR '':'' # print_groups hs @ ''::'' @ s) gs None =
      ipv6_loop (print_groups hs @ ''::'' @ s) (gs @ [h]) None"
      using Cons.prems False print_groups_hd[of hs "''::'' @ s"] by (intro ipv6_loop_hexs(2)) auto
    with Cons.prems False Cons.IH[of "gs @ [h]"] show ?thesis by (simp add: Join_Cons)
  qed
qed simp

text \<open>The run that is printed as \<open>::\<close> consists of zeros and lies in the list.\<close>

lemma zero_run_Some:
  assumes "zero_run gs = Some (s, e)"
  shows "s + 2 \<le> e \<and> e \<le> length gs \<and> take (e - s) (drop s gs) = replicate (e - s) 0"
proof -
  let ?P = "\<lambda>best. \<forall>s e. best = Some (s, e) \<longrightarrow>
    s + 2 \<le> e \<and> e \<le> length gs \<and> take (e - s) (drop s gs) = replicate (e - s) 0"
  let ?f = "\<lambda>best i. let l = zero_run_from gs i in
     if 2 \<le> l \<and> (case best of None \<Rightarrow> True | Some (s, e) \<Rightarrow> e - s < l) then Some (i, i + l) else best"
  have run: "i + zero_run_from gs i \<le> length gs \<and>
    take (zero_run_from gs i) (drop i gs) = replicate (zero_run_from gs i) 0" if "i < length gs" for i
  proof -
    have "zero_run_from gs i \<le> length (drop i gs)"
      unfolding zero_run_from_def by (rule length_takeWhile_le)
    moreover have "take (zero_run_from gs i) (drop i gs) = takeWhile (\<lambda>g. g = 0) (drop i gs)"
      unfolding zero_run_from_def by (metis takeWhile_eq_take)
    moreover have "\<dots> = replicate (zero_run_from gs i) 0"
      unfolding zero_run_from_def by (metis (mono_tags, lifting) replicate_eqI set_takeWhileD)
    ultimately show ?thesis using that by simp
  qed
  have "?P (foldl ?f None [0 ..< n])" if "n \<le> length gs" for n
    using that
  proof (induction n)
    case (Suc n)
    then have IH: "?P (foldl ?f None [0 ..< n])" by simp
    show ?case using IH run[of n] Suc.prems by (auto simp: Let_def split: if_splits)
  qed simp
  from this[of "length gs"] assms show ?thesis by (simp add: zero_run_def)
qed

lemma print_groups_Nil_iff: "print_groups hs = [] \<longleftrightarrow> hs = []"
  by (cases hs; cases "tl hs") auto

lemma print_groups_no_colons:
  assumes "hs \<noteq> []" "\<forall>h \<in> set hs. 0 \<le> h"
  shows "\<not> prefix ''::'' (print_groups hs @ r)"
  using print_groups_hd[OF assms, of r] by (cases "print_groups hs @ r") auto

lemma parse_groups_string6:
  assumes len: "length gs = 8" and r: "\<forall>g \<in> set gs. 0 \<le> g \<and> g < 65536"
  shows "parse_ipv6_groups (case zero_run gs of
       None \<Rightarrow> print_groups gs
     | Some (s, e) \<Rightarrow> print_groups (take s gs) @ ''::'' @ print_groups (drop e gs)) = Some gs"
proof (cases "zero_run gs")
  case None
  have "gs \<noteq> []" using len by auto
  then have "\<not> prefix ''::'' (print_groups gs)" using print_groups_no_colons[of gs "[]"] r by auto
  moreover have "ipv6_loop (print_groups gs) [] None = Some ([], gs, None)"
    using ipv6_loop_groups[of gs "[]"] len r \<open>gs \<noteq> []\<close> by simp
  ultimately show ?thesis using None len by (simp add: parse_ipv6_groups_def Let_def)
next
  case (Some se)
  obtain s e where se: "se = (s, e)" by (cases se)
  note z = zero_run_Some[OF Some[unfolded se]]
  let ?a = "take s gs" and ?b = "drop e gs"
  have split: "gs = ?a @ replicate (e - s) 0 @ ?b"
    using z by (metis append_take_drop_id drop_drop le_add_diff_inverse2 add_leD1)
  have ra: "\<forall>h \<in> set ?a. 0 \<le> h \<and> h < 65536" and rb: "\<forall>h \<in> set ?b. 0 \<le> h \<and> h < 65536"
    using r by (auto dest: in_set_takeD in_set_dropD)
  have lens: "length ?a = s" "length ?b = 8 - e" "s + 2 \<le> e" "e \<le> 8" using z len by auto
  have pre: "prefix ''::'' (print_groups ?a @ ''::'' @ print_groups ?b) \<longleftrightarrow> s = 0"
  proof (cases "s = 0")
    case False
    then have "?a \<noteq> []" using len by (metis length_0_conv lens(1))
    with False ra print_groups_no_colons[of ?a "''::'' @ print_groups ?b"] show ?thesis by auto
  qed simp
  define s' where "s' = (if s = 0 then print_groups ?b else print_groups ?a @ ''::'' @ print_groups ?b)"
  have loop: "ipv6_loop s' [] (if s = 0 then Some 0 else None) = Some ([], ?a @ ?b, Some s)"
    if "s \<noteq> 0 \<or> ?b \<noteq> []"
  proof (cases "s = 0")
    case True
    with that rb lens show ?thesis by (simp add: s'_def ipv6_loop_groups)
  next
    case False
    then have "?a \<noteq> []" using len by auto
    then have "ipv6_loop s' [] None =
      (if print_groups ?b = [] then Some ([], ?a, Some s) else ipv6_loop (print_groups ?b) ?a (Some s))"
      using False ra lens ipv6_loop_ellipsis[of ?a "[]" "print_groups ?b"] by (simp add: s'_def)
    also have "\<dots> = Some ([], ?a @ ?b, Some s)"
      using rb lens ipv6_loop_groups[of ?b ?a "Some s"] by (cases "?b = []") (simp_all add: print_groups_Nil_iff)
    finally show ?thesis using False by simp
  qed
  have s'_eq: "s' = (if s = 0 then drop 2 (print_groups ?a @ ''::'' @ print_groups ?b) else print_groups ?a @ ''::'' @ print_groups ?b)"
    by (simp add: s'_def)
  show ?thesis
  proof (cases "s = 0 \<and> ?b = []")
    case True
    then have "gs = replicate 8 0" using split len by (metis append_Nil append_Nil2 length_replicate take_0)
    with True Some se show ?thesis by (simp add: parse_ipv6_groups_def)
  next
    case False
    then have "\<not> (s = 0 \<and> s' = [])" by (auto simp: s'_def print_groups_Nil_iff)
    moreover have "take s (?a @ ?b) = ?a" "drop s (?a @ ?b) = ?b" "8 - length (?a @ ?b) = e - s" "length (?a @ ?b) < 8"
      using lens by auto
    ultimately show ?thesis
      using False loop split unfolding parse_ipv6_groups_def Some se option.case prod.case pre
      by (simp only: s'_eq[symmetric] Let_def if_False if_True option.case prod.case simp_thms) auto
  qed
qed

section \<open>Addresses and prefixes\<close>

definition text6 :: "128 word \<Rightarrow> string" where
  "text6 w = (if addr_Is4In6 (Addr6 w []) then ''::ffff:'' @ string4 (uint w mod 2 ^ 32) else string6 (uint w))"

lemma addr_String_eq:
  "addr_String (Addr4 v) = string4 (uint v)"
  "addr_String (Addr6 w z) = text6 w @ (if z = [] then [] else CHR ''%'' # z)"
  by (simp_all add: addr_String_def text6_def addr_Is4In6_def addr_Is6_def)

lemma parse_groups_mapped:
  assumes "0 \<le> v" "v < 2 ^ 128" "v div 2 ^ 32 = 65535"
  shows "map_option hextets_val (parse_ipv6_groups (''::ffff:'' @ string4 (v mod 2 ^ 32))) = Some v"
proof -
  define u where "u = v mod 2 ^ 32"
  let ?os = "octets u"
  have r: "0 \<le> ?os ! i \<and> ?os ! i \<le> 255" if "i < 4" for i
    using that by (rule octet_nth)
  have hex_ffff: "hexs 65535 = ''ffff''" by code_simp
  have s4: "string4 u = itoa (?os ! 0) @ CHR ''.'' # itoa (?os ! 1) @ CHR ''.'' # itoa (?os ! 2) @ CHR ''.'' # itoa (?os ! 3)"
    by (simp add: string4_eq Let_def)
  have digits: "\<forall>x \<in> set (itoa (?os ! 0)). is_hex x" using r[of 0] by (intro itoa_hex) simp
  have tw: "takeWhile is_hex (string4 u) = itoa (?os ! 0)"
    "dropWhile is_hex (string4 u) = CHR ''.'' # itoa (?os ! 1) @ CHR ''.'' # itoa (?os ! 2) @ CHR ''.'' # itoa (?os ! 3)"
    unfolding s4 using digits by (simp_all add: takeWhile_append2 dropWhile_append2)
  have len: "length (itoa n) \<le> 3" if "0 \<le> n" "n \<le> 255" for n
    using that by (simp add: itoa.simps[of n] itoa.simps[of "n div 10"] itoa.simps[of "n div 10 div 10"])
  have ne: "string4 u \<noteq> []" "hd (string4 u) \<noteq> CHR '':''"
    unfolding s4 using digits itoa_nonempty[of "?os ! 0"] by (cases "itoa (?os ! 0)"; auto)+
  have "ipv6_loop (hexs 65535 @ CHR '':'' # string4 u) [] (Some 0) = ipv6_loop (string4 u) [65535] (Some 0)"
    using ipv6_loop_hexs(2)[of 65535 "[]" "string4 u" "Some 0"] ne by simp
  also have "\<dots> = Some ([], [65535, ?os ! 0 * 256 + ?os ! 1, ?os ! 2 * 256 + ?os ! 3], Some 0)"
    using len[of "?os ! 0"] r[of 0] ne
    by (subst ipv6_loop.simps) (simp add: Let_def tw parse_ipv4_fields_string4)
  finally have "parse_ipv6_groups (''::ffff:'' @ string4 u) =
    Some [0, 0, 0, 0, 0, 65535, ?os ! 0 * 256 + ?os ! 1, ?os ! 2 * 256 + ?os ! 3]"
    by (simp add: parse_ipv6_groups_def Let_def hex_ffff numeral_eq_Suc)
  moreover have "(65535 * 65536 + (?os ! 0 * 256 + ?os ! 1)) * 65536 + (?os ! 2 * 256 + ?os ! 3) =
    65535 * 2 ^ 32 + octets_val ?os"
    by (simp add: octets_val_def octets_def algebra_simps)
  moreover have "octets_val ?os = u" by (rule octets_val_octets) (simp_all add: u_def)
  moreover have "65535 * 2 ^ 32 + u = v" using assms(3) div_mult_mod_eq[of v "2 ^ 32"] unfolding u_def by simp
  ultimately show ?thesis unfolding u_def[symmetric] by (simp add: hextets_val_def)
qed

lemma parse_groups_text6: "map_option hextets_val (parse_ipv6_groups (text6 w)) = Some (uint w)"
proof -
  have w: "0 \<le> uint w" "uint w < 2 ^ 128"
    using unsigned_less[of w, where ?'a = int] by simp_all
  show ?thesis
  proof (cases "addr_Is4In6 (Addr6 w [])")
    case True
    then show ?thesis using parse_groups_mapped[OF w] by (simp add: text6_def addr_Is4In6_def)
  next
    case False
    have "length (hextets (uint w)) = 8" by (simp add: hextets_def)
    then have "parse_ipv6_groups (string6 (uint w)) = Some (hextets (uint w))"
      using parse_groups_string6[of "hextets (uint w)"] hextets_range unfolding string6_def Let_def by blast
    with False w show ?thesis by (simp add: text6_def hextets_val_hextets)
  qed
qed

lemma set_print_groups: "\<forall>h \<in> set hs. 0 \<le> h \<Longrightarrow> c \<in> set (print_groups hs) \<Longrightarrow> is_hex c \<or> c = CHR '':''"
proof (induction hs)
  case (Cons h hs)
  then show ?case using hexs_hex[of h] by (cases "hs = []") (auto simp: Join_Cons list_all_iff)
qed simp

lemma string4_set: "c \<in> set (string4 v) \<Longrightarrow> is_digit c \<or> c = CHR ''.''"
  unfolding string4_eq Let_def
  using itoa_digit_set octet_nth[of 0 v] octet_nth[of 1 v] octet_nth[of 2 v] octet_nth[of 3 v] by auto

lemma string6_set:
  assumes "c \<in> set (string6 v)"
  shows "is_hex c \<or> c = CHR '':''"
proof -
  have "\<forall>h \<in> set hs. 0 \<le> h" if "set hs \<subseteq> set (hextets v)" for hs
    using that hextets_range by blast
  then have "is_hex c \<or> c = CHR '':''" if "c \<in> set (print_groups hs)" "set hs \<subseteq> set (hextets v)" for hs
    using that set_print_groups by blast
  with assms show ?thesis
    by (auto simp: string6_def Let_def set_take_subset set_drop_subset simp del: set_map split: option.splits)
qed

lemma text6_set: "c \<in> set (text6 w) \<Longrightarrow> is_hex c \<or> c = CHR '':'' \<or> c = CHR ''.''"
  using string6_set[of c "uint w"] string4_set[of c "uint w mod 2 ^ 32"] is_hex_digit[of c]
  by (auto simp: text6_def split: if_splits) (simp_all add: is_hex_def)

text \<open>The first separator in the text of an IPv6 address is a colon.\<close>

lemma text6_colon: "\<exists>s r. text6 w = s @ CHR '':'' # r \<and> (\<forall>x \<in> set s. is_hex x)"
proof (cases "addr_Is4In6 (Addr6 w [])")
  case True
  then have "text6 w = [] @ CHR '':'' # tl (text6 w)" by (simp add: text6_def)
  then show ?thesis by (metis empty_iff empty_set)
next
  case False
  have groups: "\<exists>s r'. print_groups hs @ r = s @ CHR '':'' # r' \<and> (\<forall>x \<in> set s. is_hex x)"
    if "\<forall>h \<in> set hs. 0 \<le> h" "1 < length hs \<or> prefix '':'' r" for hs r
  proof (cases hs)
    case (Cons h hs')
    then show ?thesis
      using that hexs_hex[of h] by (cases "hs' = []") (auto simp: Join_Cons list_all_iff prefix_def)
  next
    case Nil
    then have "print_groups hs @ r = [] @ CHR '':'' # tl r" using that by (auto simp: prefix_def)
    then show ?thesis by (metis empty_iff empty_set)
  qed
  let ?gs = "hextets (uint w)"
  have pos: "\<forall>h \<in> set ?gs. 0 \<le> h" using hextets_range by blast
  have "\<exists>s r. string6 (uint w) = s @ CHR '':'' # r \<and> (\<forall>x \<in> set s. is_hex x)"
  proof (cases "zero_run ?gs")
    case None
    have "length ?gs = 8" by (simp add: hextets_def)
    with groups[of ?gs "[]"] None pos show ?thesis by (simp add: string6_def)
  next
    case (Some se)
    obtain a b where se: "se = (a, b)" by (cases se)
    have "\<forall>h \<in> set (take a ?gs). 0 \<le> h" using pos by (meson in_set_takeD)
    from groups[OF this, of "''::'' @ print_groups (drop b ?gs)"] show ?thesis
      by (simp add: string6_def Let_def Some se)
  qed
  with False show ?thesis by (simp add: text6_def)
qed

lemma ParseAddr_String: "netip_ParseAddr (addr_String a) = Some a"
proof (cases a)
  case (Addr4 w)
  then show ?thesis by (simp add: addr_String_eq ParseAddr_String4)
next
  case (Addr6 w z)
  obtain s r where sr: "text6 w = s @ CHR '':'' # r" "\<forall>x \<in> set s. is_hex x" using text6_colon by blast
  have "find (\<lambda>c. c = CHR ''.'' \<or> c = CHR '':'' \<or> c = CHR ''%'') (text6 w @ t) = Some (CHR '':'')" for t
    using find_first_sep[OF _ sr(2), of "CHR '':''" "r @ t"] by (simp add: sr(1))
  moreover have "CHR ''%'' \<notin> set (text6 w)" using text6_set[of "CHR ''%''" w] by auto
  then have "cut_byte (CHR ''%'') (text6 w) = None"
    "cut_byte (CHR ''%'') (text6 w @ CHR ''%'' # z) = Some (text6 w, z)"
    by (simp_all add: cut_byte_None cut_byte_Some)
  moreover obtain gs where "parse_ipv6_groups (text6 w) = Some gs" "hextets_val gs = uint w"
    using parse_groups_text6[of w] by auto
  ultimately show ?thesis
    by (auto simp: Addr6 addr_String_eq netip_ParseAddr_def parse_ipv6_def)
qed

lemma addr_String_set: "addr_zone a = [] \<Longrightarrow> c \<in> set (addr_String a) \<Longrightarrow> is_hex c \<or> c = CHR '':'' \<or> c = CHR ''.''"
  using string4_set[of c] text6_set[of c] is_hex_digit[of c] by (cases a) (auto simp: addr_String_eq)

lemma addr_String_nonempty [simp]: "addr_String a \<noteq> []"
  using ParseAddr_String[of a] by (auto simp: netip_ParseAddr_def)

lemma addr_String_inj: "addr_String a = addr_String b \<longleftrightarrow> a = b"
  by (metis ParseAddr_String option.inject)

lemma byte_le: "c \<le> d \<longleftrightarrow> byte c \<le> byte d"
  unfolding less_eq_char_def of_nat_of_char[of c, where ?'a = int, symmetric]
    of_nat_of_char[of d, where ?'a = int, symmetric] of_nat_le_iff ..

lemma between_1_9: "CHR ''1'' \<le> c \<and> c \<le> CHR ''9'' \<longleftrightarrow> 49 \<le> byte c \<and> byte c \<le> 57"
  unfolding byte_le by simp

lemma ParsePrefix_String:
  assumes "pfx_ok p"
  shows "netip_ParsePrefix (pfx_String p) = Some p"
proof -
  let ?b = "pfx_Bits p" and ?a = "pfx_Addr p"
  have b: "0 \<le> ?b" "?b \<le> int (addr_bitlen ?a)" "addr_zone ?a = []" using assms by (simp_all add: pfx_ok_def)
  have "CHR ''/'' \<notin> set (itoa ?b)" using itoa_digit_set[OF b(1), of "CHR ''/''"] by (auto simp: is_digit_def)
  then have cut: "cut_last_byte (CHR ''/'') (pfx_String p) = Some (addr_String ?a, itoa ?b)"
    using b by (simp add: cut_last_byte_Some pfx_String_def itoa_int_def)
  have "?b \<le> 128" using b(2) by (cases ?a) auto
  then have at: "strconv_Atoi (itoa ?b) = Some ?b" using Atoi_itoa[OF b(1)] by simp
  have lead: "\<not> (1 < length (itoa ?b) \<and> \<not> (CHR ''1'' \<le> hd (itoa ?b) \<and> hd (itoa ?b) \<le> CHR ''9''))"
  proof (cases "?b < 10")
    case True
    then show ?thesis by (simp add: itoa.simps[of ?b])
  next
    case False
    then show ?thesis using hd_itoa[of ?b] unfolding between_1_9 by simp
  qed
  have "netip_PrefixFrom ?a ?b = p" using PrefixFrom_ok[OF assms] .
  then show ?thesis
    unfolding netip_ParsePrefix_def cut option.case prod.case ParseAddr_String at if_not_P[OF lead]
    using b by simp
qed

end
