(* ===== verification/CidrSet.thy ===== *)
theory CidrSet
  imports Sanity NetipText "HOL-Library.Option_ord"
begin

text \<open>
  \<open>internal/network/policy/diff.go\<close> and \<open>cidrset.go\<close>: the tokens of an nft address set, their
  canonical form and order, the difference of two memberships, and strict containment between the
  prefixes of a membership, which nft refuses in an interval set.

  A token is a bare address, a prefix or a compound \<open><ip> . <port>\<close> key. \<open>elem_key\<close> is the record of
  its parsed form; \<open>ek_addr\<close> is \<open>None\<close> for Go's zero \<open>netip.Addr\<close>. The locale \<open>containment\<close> states
  what the two walks over the sorted elements rely on; it is interpreted on \<open>covers\<close>.
\<close>

section \<open>Set element tokens\<close>

definition compoundSep :: string where
  "compoundSep = '' . ''"

definition maxPort :: int where
  "maxPort = 65535"

definition CompoundElement :: "string \<Rightarrow> string result" where
  "CompoundElement ipPort = (case net_SplitHostPort ipPort of
     None \<Rightarrow> Inl (Err IllegalArgument ''compound-set entries require an ip:port pair'')
   | Some (host, port) \<Rightarrow> (case netip_ParseAddr host of
       None \<Rightarrow> Inl (Err IllegalArgument ''invalid ip:port: not an IP address'')
     | Some a \<Rightarrow> rbind (map_err (wrap IllegalArgument ''invalid ip:port'') (ValidatePort port)) (\<lambda>_.
         Inr (addr_String a @ compoundSep @
              itoa_int (case strconv_Atoi port of Some p \<Rightarrow> p | None \<Rightarrow> 0)))))"

record elem_key =
  ek_canon :: string
  ek_addr :: "addr option"
  ek_bits :: int
  ek_port :: int
  ek_parsed :: bool

definition unparsed :: "string \<Rightarrow> elem_key" where
  "unparsed tok = \<lparr>ek_canon = tok, ek_addr = None, ek_bits = - 1, ek_port = - 1, ek_parsed = False\<rparr>"

definition splitCompound :: "string \<Rightarrow> (string \<times> string) option" where
  "splitCompound tok = (case strings_Index tok compoundSep of
     None \<Rightarrow> None
   | Some i \<Rightarrow> Some (strings_TrimSpace (take i tok),
                     strings_TrimSpace (drop (i + length compoundSep) tok)))"

definition parseElement :: "string \<Rightarrow> elem_key" where
  "parseElement tok0 = (let tok = strings_TrimSpace tok0 in
     case splitCompound tok of
       Some (host, port) \<Rightarrow>
         (case netip_ParseAddr host of
            None \<Rightarrow> unparsed tok
          | Some a \<Rightarrow> (case strconv_Atoi port of
              None \<Rightarrow> unparsed tok
            | Some p \<Rightarrow>
                if 1 \<le> p \<and> p \<le> maxPort then
                  \<lparr>ek_canon = addr_String a @ compoundSep @ itoa_int p, ek_addr = Some a,
                   ek_bits = - 1, ek_port = p, ek_parsed = True\<rparr>
                else unparsed tok))
     | None \<Rightarrow>
         if strings_Contains tok ''/'' then
           (case netip_ParsePrefix tok of
              None \<Rightarrow> unparsed tok
            | Some pfx0 \<Rightarrow>
                let pfx = pfx_Masked pfx0 in
                if pfx_Bits pfx = int (addr_bitlen (pfx_Addr pfx)) then
                  \<lparr>ek_canon = addr_String (pfx_Addr pfx), ek_addr = Some (pfx_Addr pfx),
                   ek_bits = pfx_Bits pfx, ek_port = - 1, ek_parsed = True\<rparr>
                else
                  \<lparr>ek_canon = pfx_String pfx, ek_addr = Some (pfx_Addr pfx),
                   ek_bits = pfx_Bits pfx, ek_port = - 1, ek_parsed = True\<rparr>)
         else
           (case netip_ParseAddr tok of
              None \<Rightarrow> unparsed tok
            | Some a \<Rightarrow>
                \<lparr>ek_canon = addr_String a, ek_addr = Some a,
                 ek_bits = int (addr_bitlen a), ek_port = - 1, ek_parsed = True\<rparr>))"

definition elem_less :: "elem_key \<Rightarrow> elem_key \<Rightarrow> bool" where
  "elem_less k o' \<longleftrightarrow>
     (if ek_parsed k \<noteq> ek_parsed o' then ek_parsed k
      else if \<not> ek_parsed k then ek_canon k < ek_canon o'
      else if ek_addr k \<noteq> ek_addr o' then ek_addr k < ek_addr o'
      else if ek_bits k \<noteq> ek_bits o' then ek_bits k < ek_bits o'
      else ek_port k < ek_port o')"

definition CanonicalizeElements :: "string list \<Rightarrow> string list" where
  "CanonicalizeElements elements =
     map ek_canon (sort_by elem_less (dedupe_key ek_canon [] (map parseElement elements)))"

record set_delta =
  sd_Adds :: "string list"
  sd_Deletes :: "string list"

definition SetDelta_Empty :: "set_delta \<Rightarrow> bool" where
  "SetDelta_Empty d \<longleftrightarrow> length (sd_Adds d) = 0 \<and> length (sd_Deletes d) = 0"

definition DiffElements :: "string list \<Rightarrow> string list \<Rightarrow> set_delta" where
  "DiffElements desired live =
     (let desiredCanon = CanonicalizeElements desired; liveCanon = CanonicalizeElements live in
      \<lparr>sd_Adds = filter (\<lambda>e. e \<notin> set liveCanon) desiredCanon,
       sd_Deletes = filter (\<lambda>e. e \<notin> set desiredCanon) liveCanon\<rparr>)"

section \<open>Containment between prefixes\<close>

record cidr_elem =
  ce_raw :: string
  ce_pfx :: netip_prefix
  ce_idx :: nat

definition parseCIDRElem :: "nat \<times> string \<Rightarrow> cidr_elem option" where
  "parseCIDRElem ie = (let k = parseElement (snd ie) in
     if \<not> ek_parsed k \<or> 0 \<le> ek_port k then None
     else map_option (\<lambda>a. \<lparr>ce_raw = snd ie, ce_pfx = netip_PrefixFrom a (ek_bits k), ce_idx = fst ie\<rparr>)
            (ek_addr k))"

definition parseCIDRElems :: "string list \<Rightarrow> cidr_elem list" where
  "parseCIDRElems elements = List.map_filter parseCIDRElem (enumerate 0 elements)"

definition cidr_less :: "cidr_elem \<Rightarrow> cidr_elem \<Rightarrow> bool" where
  "cidr_less x y \<longleftrightarrow>
     (if pfx_Addr (ce_pfx x) \<noteq> pfx_Addr (ce_pfx y) then pfx_Addr (ce_pfx x) < pfx_Addr (ce_pfx y)
      else pfx_Bits (ce_pfx x) < pfx_Bits (ce_pfx y))"

definition sortCIDRElems :: "cidr_elem list \<Rightarrow> cidr_elem list" where
  "sortCIDRElems elems = sort_by cidr_less elems"

definition covers :: "netip_prefix \<Rightarrow> netip_prefix \<Rightarrow> bool" where
  "covers outer inner \<longleftrightarrow> pfx_Bits outer < pfx_Bits inner \<and> pfx_Contains outer (pfx_Addr inner)"

text \<open>The loop of \<open>containmentPair\<close>: compare each element with the one before it.\<close>

fun first_covered :: "('a \<Rightarrow> 'a \<Rightarrow> bool) \<Rightarrow> 'a \<Rightarrow> 'a list \<Rightarrow> ('a \<times> 'a) option" where
  "first_covered cov prev [] = None"
| "first_covered cov prev (cur # cs) =
     (if cov prev cur then Some (prev, cur) else first_covered cov cur cs)"

text \<open>The loop of \<open>PruneContainedCIDRs\<close>: compare each element with the last retained one and
  collect the dropped ones.\<close>

fun dropped :: "('a \<Rightarrow> 'a \<Rightarrow> bool) \<Rightarrow> 'a \<Rightarrow> 'a list \<Rightarrow> 'a list" where
  "dropped cov prev [] = []"
| "dropped cov prev (cur # cs) =
     (if cov prev cur then cur # dropped cov prev cs else dropped cov cur cs)"

definition elem_covers :: "cidr_elem \<Rightarrow> cidr_elem \<Rightarrow> bool" where
  "elem_covers x y \<longleftrightarrow> covers (ce_pfx x) (ce_pfx y)"

definition containmentPair :: "string list \<Rightarrow> (string \<times> string) option" where
  "containmentPair elements = (case sortCIDRElems (parseCIDRElems elements) of
     [] \<Rightarrow> None
   | e # es \<Rightarrow> map_option (\<lambda>(o', i). (ce_raw o', ce_raw i)) (first_covered elem_covers e es))"

definition isLiveElement :: "string \<Rightarrow> string list \<Rightarrow> bool" where
  "isLiveElement tok live \<longleftrightarrow>
     list_ex (\<lambda>l. ek_canon (parseElement l) = ek_canon (parseElement tok)) live"

definition rejectContainment :: "string list \<Rightarrow> string list \<Rightarrow> unit result" where
  "rejectContainment candidates live = (case containmentPair candidates of
     Some (o', i) \<Rightarrow> Inl (Err IllegalArgument ''policy cannot hold both'')
   | None \<Rightarrow>
       if live = [] then Inr ()
       else (case containmentPair (live @ candidates) of
         None \<Rightarrow> Inr ()
       | Some (o', i) \<Rightarrow>
           if isLiveElement o' live then Inl (Err IllegalArgument ''policy already permits'')
           else Inl (Err IllegalArgument ''policy cannot take: it covers an existing member'')))"

definition coveringMember :: "string \<Rightarrow> string list \<Rightarrow> string option" where
  "coveringMember tok live = (case parseCIDRElems [tok] of
     [] \<Rightarrow> None
   | cand # _ \<Rightarrow> map_option ce_raw (find (\<lambda>m. covers (ce_pfx m) (ce_pfx cand)) (parseCIDRElems live)))"

definition rejectMissingMember :: "string list \<Rightarrow> string \<Rightarrow> unit result" where
  "rejectMissingMember live tok =
     (if ek_canon (parseElement tok) \<in> set (map (\<lambda>l. ek_canon (parseElement l)) live) then Inr ()
      else case coveringMember tok live of
        Some o' \<Rightarrow> Inl (Err IllegalArgument ''not a member of policy: it is covered by a member'')
      | None \<Rightarrow> Inl (Err IllegalArgument ''not a member of policy, so nothing was removed''))"

definition rejectMissingMembers :: "string list \<Rightarrow> string list \<Rightarrow> unit result" where
  "rejectMissingMembers tokens live = check_all (rejectMissingMember live) tokens"

definition PruneContainedCIDRs :: "string list \<Rightarrow> string list" where
  "PruneContainedCIDRs elements = (let elems = parseCIDRElems elements in
     if length elems < 2 then elements
     else let sorted = sortCIDRElems elems;
              pruned = map ce_idx (dropped elem_covers (hd sorted) (tl sorted))
          in if length pruned = 0 then elements
             else map snd (filter (\<lambda>(i, e). i \<notin> set pruned) (enumerate 0 elements)))"

section \<open>The walks over sorted elements\<close>

text \<open>
  What the walks rely on: an element covers only elements that come after it, covering is
  transitive, and of three elements in order, if the first covers the third then the first covers
  the second or the second covers the third.
\<close>

locale containment =
  fixes lt :: "'a \<Rightarrow> 'a \<Rightarrow> bool" and cov :: "'a \<Rightarrow> 'a \<Rightarrow> bool" and ok :: "'a \<Rightarrow> bool"
  assumes cov_lt: "ok x \<Longrightarrow> ok y \<Longrightarrow> cov x y \<Longrightarrow> lt x y"
    and cov_trans: "ok x \<Longrightarrow> ok y \<Longrightarrow> ok z \<Longrightarrow> cov x y \<Longrightarrow> cov y z \<Longrightarrow> cov x z"
    and sandwich: "ok x \<Longrightarrow> ok y \<Longrightarrow> ok z \<Longrightarrow> \<not> lt y x \<Longrightarrow> \<not> lt z y \<Longrightarrow> cov x z \<Longrightarrow> cov x y \<or> cov y z"
    and lt_antisym: "lt x y \<Longrightarrow> \<not> lt y x"
begin

lemma cov_irrefl: "ok x \<Longrightarrow> \<not> cov x x"
  using cov_lt lt_antisym by blast

lemma dropped_eq_filter:
  "sorted_by lt (e # es) \<Longrightarrow> \<forall>x \<in> set (e # es). ok x \<Longrightarrow>
   dropped cov e es = filter (\<lambda>c. \<exists>x \<in> set (e # es). cov x c) es"
proof (induction es arbitrary: e)
  case (Cons d es)
  have IH: "dropped cov x es = filter (\<lambda>c. \<exists>y \<in> set (x # es). cov y c) es"
    if "x = e \<or> x = d" for x
    using Cons that by auto
  have later: "\<not> cov x d" if "x \<in> set es" for x
    using Cons.prems that cov_lt by auto
  have self: "\<not> cov d d" using Cons.prems cov_irrefl by simp
  show ?case
  proof (cases "cov e d")
    case True
    have "(\<exists>y \<in> set (e # es). cov y c) \<longleftrightarrow> (\<exists>x \<in> set (e # d # es). cov x c)" if "c \<in> set es" for c
      using Cons.prems(2) that True cov_trans[of e d c] by auto
    with True IH show ?thesis by (simp cong: filter_cong)
  next
    case False
    have "(\<exists>y \<in> set (d # es). cov y c) \<longleftrightarrow> (\<exists>x \<in> set (e # d # es). cov x c)" if "c \<in> set es" for c
      using Cons.prems that False sandwich[of e d c] by auto
    with False self later IH show ?thesis by (auto cong: filter_cong)
  qed
qed simp

lemma first_covered_Some:
  "first_covered cov e es = Some (x, y) \<Longrightarrow> x \<in> set (e # es) \<and> y \<in> set es \<and> cov x y"
  by (induction cov e es rule: first_covered.induct) (auto split: if_splits)

lemma first_covered_None:
  "sorted_by lt (e # es) \<Longrightarrow> \<forall>x \<in> set (e # es). ok x \<Longrightarrow> first_covered cov e es = None \<Longrightarrow>
   x \<in> set (e # es) \<Longrightarrow> y \<in> set (e # es) \<Longrightarrow> \<not> cov x y"
proof (induction es arbitrary: e x y)
  case Nil
  then show ?case using cov_irrefl by auto
next
  case (Cons d es)
  have not: "\<not> cov e d" and step: "first_covered cov d es = None"
    using Cons.prems(3) by (simp_all split: if_splits)
  have IH: "\<not> cov a b" if "a \<in> set (d # es)" "b \<in> set (d # es)" for a b
    using Cons.IH[of d a b] Cons.prems(1,2) step that by simp
  have "\<not> cov e c" if "c \<in> set (d # es)" for c
    using Cons.prems(1,2) that not sandwich[of e d c] IH[of d c] by auto
  moreover have "\<not> cov c e" if "c \<in> set (d # es)" for c
    using Cons.prems(1,2) that cov_lt by auto
  moreover have "\<not> cov e e" using Cons.prems(2) cov_irrefl by simp
  ultimately show ?case using Cons.prems(4,5) IH by auto
qed

lemma first_covered_iff:
  assumes "sorted_by lt (e # es)" "\<forall>x \<in> set (e # es). ok x"
  shows "first_covered cov e es = None \<longleftrightarrow> \<not> (\<exists>x \<in> set (e # es). \<exists>y \<in> set (e # es). cov x y)"
  using first_covered_None[OF assms] first_covered_Some[of e es] by (cases "first_covered cov e es") force+

end

text \<open>The instance of the source: masked prefixes in the order of \<open>sortCIDRElems\<close>.\<close>

definition ce_key :: "cidr_elem \<Rightarrow> addr \<times> int" where
  "ce_key x = (pfx_Addr (ce_pfx x), pfx_Bits (ce_pfx x))"

lemma cidr_less_key: "cidr_less x y \<longleftrightarrow> ce_key x < ce_key y"
  by (auto simp: cidr_less_def ce_key_def less_prod_def')

interpretation ce: weak_less cidr_less
  unfolding cidr_less_key[abs_def] by (rule weak_less_key)

lemma covers_trans:
  assumes "pfx_ok x" "pfx_ok y" "covers x y" "covers y z"
  shows "covers x z"
  using assms Contains_nested[of x y "pfx_Addr z"] by (auto simp: covers_def)

lemma covers_key:
  assumes "pfx_ok x" "pfx_ok y" "covers x y"
  shows "(pfx_Addr x, pfx_Bits x) < (pfx_Addr y, pfx_Bits y)"
proof -
  have "pfx_Addr x \<le> pfx_Addr y"
    using assms Contains_interval[of x "pfx_Addr y"]
    by (auto simp: covers_def less_eq_addr_def addr_key_def pfx_ok_def less_eq_prod_def)
  with assms(3) show ?thesis by (auto simp: covers_def less_prod_def')
qed

lemma covers_sandwich:
  assumes ok: "pfx_ok x" "pfx_ok y" "pfx_ok z"
    and le: "(pfx_Addr x, pfx_Bits x) \<le> (pfx_Addr y, pfx_Bits y)" "(pfx_Addr y, pfx_Bits y) \<le> (pfx_Addr z, pfx_Bits z)"
    and "covers x z"
  shows "covers x y \<or> covers y z"
proof -
  have c: "pfx_Contains x (pfx_Addr y)" "pfx_Bits x \<le> pfx_Bits y"
    using prefix_sandwich[OF ok le] assms(6) by (auto simp: covers_def)
  show ?thesis
  proof (cases "pfx_Bits x = pfx_Bits y")
    case True
    then have "pfx_span x = pfx_span y" and "addr_val (pfx_Addr x) = addr_val (pfx_Addr y)"
      using c ok aligned_eq[of "addr_val (pfx_Addr x)" "pfx_span x" "addr_val (pfx_Addr y)"]
        Contains_interval[OF ok(1), of "pfx_Addr y"]
      by (auto simp: pfx_span_def pfx_ok_def)
    then have "pfx_Addr x = pfx_Addr y"
      using c ok by (intro addr_eqI) (auto simp: pfx_Contains_def pfx_ok_def)
    with True assms(6) have "covers y z" by (cases x; cases y) simp
    then show ?thesis ..
  next
    case False
    with c show ?thesis by (simp add: covers_def)
  qed
qed

interpretation cidr: containment cidr_less elem_covers "\<lambda>x. pfx_ok (ce_pfx x)"
proof unfold_locales
  fix x y z :: cidr_elem
  assume ok: "pfx_ok (ce_pfx x)" "pfx_ok (ce_pfx y)"
  show "elem_covers x y \<Longrightarrow> cidr_less x y"
    using covers_key[OF ok] by (simp add: elem_covers_def cidr_less_key ce_key_def)
  assume z: "pfx_ok (ce_pfx z)"
  show "elem_covers x y \<Longrightarrow> elem_covers y z \<Longrightarrow> elem_covers x z"
    using covers_trans[OF ok] by (simp add: elem_covers_def)
  show "\<not> cidr_less y x \<Longrightarrow> \<not> cidr_less z y \<Longrightarrow> elem_covers x z \<Longrightarrow> elem_covers x y \<or> elem_covers y z"
    using covers_sandwich[OF ok z] by (simp only: elem_covers_def cidr_less_key ce_key_def not_less)
qed (rule ce.lt_asym)

section \<open>From tokens to elements\<close>

text \<open>The prefix that a token stands for, when it has interval semantics.\<close>

definition cidr_of :: "string \<Rightarrow> netip_prefix option" where
  "cidr_of tok = map_option ce_pfx (parseCIDRElem (0, tok))"

text \<open>The strict containment of two tokens and the addresses a token matches.\<close>

definition tok_covers :: "string \<Rightarrow> string \<Rightarrow> bool" where
  "tok_covers x y \<longleftrightarrow> (case (cidr_of x, cidr_of y) of (Some p, Some q) \<Rightarrow> covers p q | _ \<Rightarrow> False)"

definition tok_matches :: "string \<Rightarrow> addr \<Rightarrow> bool" where
  "tok_matches x a \<longleftrightarrow> (case cidr_of x of Some p \<Rightarrow> pfx_Contains p a | None \<Rightarrow> False)"

lemma parseElement_wf:
  assumes "ek_parsed (parseElement t)" "\<not> 0 \<le> ek_port (parseElement t)" "ek_addr (parseElement t) = Some a"
  shows "pfx_ok (netip_PrefixFrom a (ek_bits (parseElement t)))"
proof -
  have host: "pfx_ok (netip_PrefixFrom b (int (addr_bitlen b)))" for b by (rule pfx_ok_host)
  have masked: "pfx_ok (netip_PrefixFrom (pfx_Addr (pfx_Masked p)) (pfx_Bits (pfx_Masked p)))"
    if "netip_ParsePrefix s = Some p" for s p
    using ParsePrefix_range[OF that] pfx_ok_Masked[of p] by (simp only: PrefixFrom_ok)
  show ?thesis
    using assms
    by (simp add: parseElement_def Let_def unparsed_def masked host split: option.splits prod.splits if_splits)
      (use masked host in auto)
qed

lemma parseElement_addr: "ek_parsed (parseElement t) \<Longrightarrow> \<exists>a. ek_addr (parseElement t) = Some a"
  by (auto simp: parseElement_def Let_def unparsed_def split: option.splits prod.splits if_splits)

lemma parseCIDRElem_Some:
  "parseCIDRElem (i, t) = Some x \<longleftrightarrow> (\<exists>p. cidr_of t = Some p \<and> x = \<lparr>ce_raw = t, ce_pfx = p, ce_idx = i\<rparr>)"
  by (auto simp: cidr_of_def parseCIDRElem_def Let_def)

lemma parseCIDRElem_None: "parseCIDRElem (i, t) = None \<longleftrightarrow> cidr_of t = None"
  by (auto simp: cidr_of_def parseCIDRElem_def Let_def)

lemma cidr_of_ok: "cidr_of t = Some p \<Longrightarrow> pfx_ok p"
  using parseElement_wf[of t] by (auto simp: cidr_of_def parseCIDRElem_def Let_def split: if_splits)

lemma set_parseCIDRElems:
  "x \<in> set (parseCIDRElems es) \<longleftrightarrow>
   (\<exists>i p. i < length es \<and> cidr_of (es ! i) = Some p \<and> x = \<lparr>ce_raw = es ! i, ce_pfx = p, ce_idx = i\<rparr>)"
proof -
  have "x \<in> set (parseCIDRElems es) \<longleftrightarrow> (\<exists>i t. (i, t) \<in> set (enumerate 0 es) \<and> parseCIDRElem (i, t) = Some x)"
    by (auto simp: parseCIDRElems_def set_map_filter_Some)
  then show ?thesis by (auto simp: in_set_enumerate_eq parseCIDRElem_Some)
qed

lemma bex_parseCIDRElems:
  "(\<exists>x \<in> set (parseCIDRElems es). P x) \<longleftrightarrow>
   (\<exists>i p. i < length es \<and> cidr_of (es ! i) = Some p \<and> P \<lparr>ce_raw = es ! i, ce_pfx = p, ce_idx = i\<rparr>)"
  by (auto simp: Bex_def set_parseCIDRElems)

lemma parseCIDRElems_ok: "x \<in> set (parseCIDRElems es) \<Longrightarrow> pfx_ok (ce_pfx x)"
  by (auto simp: set_parseCIDRElems cidr_of_ok)

lemma sorted_elems: "sorted_by cidr_less (sortCIDRElems es)"
  unfolding sortCIDRElems_def by (rule ce.sorted_sort_by)

lemma set_sortCIDRElems [simp]: "set (sortCIDRElems es) = set es"
  by (simp add: sortCIDRElems_def)

text \<open>The elements that the pruning walk drops are those some element covers, wherever it stands.\<close>

definition drops :: "cidr_elem list \<Rightarrow> cidr_elem list" where
  "drops elems = (case sortCIDRElems elems of [] \<Rightarrow> [] | s # ss \<Rightarrow> dropped elem_covers s ss)"

lemma set_drops:
  assumes "\<forall>x \<in> set elems. pfx_ok (ce_pfx x)"
  shows "set (drops elems) = {c \<in> set elems. \<exists>x \<in> set elems. elem_covers x c}"
proof (cases "sortCIDRElems elems")
  case Nil
  then have "elems = []" by (simp add: sortCIDRElems_def)
  then show ?thesis using Nil by (simp add: drops_def)
next
  case (Cons s ss)
  have set: "set elems = set (s # ss)" using Cons by (metis set_sortCIDRElems)
  have sorted: "sorted_by cidr_less (s # ss)" using sorted_elems[of elems] Cons by simp
  have ok: "\<forall>x \<in> set (s # ss). pfx_ok (ce_pfx x)" using assms set by auto
  have "\<not> elem_covers x s" if "x \<in> set (s # ss)" for x
    using that sorted ok cidr.cov_lt[of x s] cidr.cov_irrefl[of s] by auto
  then show ?thesis
    using cidr.dropped_eq_filter[OF sorted ok] Cons set by (auto simp: drops_def)
qed

lemma filter_enumerate:
  "(\<And>i. i < length es \<Longrightarrow> P (n + i) \<longleftrightarrow> Q (es ! i)) \<Longrightarrow>
   map snd (filter (\<lambda>(i, e). P i) (enumerate n es)) = filter Q es"
proof (induction es arbitrary: n)
  case (Cons e es)
  have "P n \<longleftrightarrow> Q e" using Cons.prems[of 0] by simp
  moreover have "map snd (filter (\<lambda>(i, e). P i) (enumerate (Suc n) es)) = filter Q es"
    using Cons.prems[of "Suc _"] by (intro Cons.IH) simp
  ultimately show ?case by simp
qed simp

lemma Prune_unfold:
  "PruneContainedCIDRs es =
   map snd (filter (\<lambda>(i, e). i \<notin> ce_idx ` set (drops (parseCIDRElems es))) (enumerate 0 es))"
proof -
  let ?elems = "parseCIDRElems es"
  have all: "map snd (filter (\<lambda>(i, e). True) (enumerate 0 es)) = es"
    using filter_enumerate[of es "\<lambda>_. True" 0 "\<lambda>_. True"] by simp
  have drops: "drops ?elems = (if length ?elems < 2 then []
      else dropped elem_covers (hd (sortCIDRElems ?elems)) (tl (sortCIDRElems ?elems)))"
    by (cases "sortCIDRElems ?elems"; cases "tl (sortCIDRElems ?elems)")
      (auto simp: drops_def sortCIDRElems_def dest!: arg_cong[where f = length])
  show ?thesis
    by (cases "length ?elems < 2") (auto simp: PruneContainedCIDRs_def Let_def drops all)
qed

lemma tok_covers_iff:
  "tok_covers x y \<longleftrightarrow> (\<exists>p q. cidr_of x = Some p \<and> cidr_of y = Some q \<and> covers p q)"
  by (auto simp: tok_covers_def split: option.splits)

lemma elem_covers_toks:
  "(\<exists>x \<in> set (parseCIDRElems es). elem_covers x c) \<longleftrightarrow>
   (\<exists>t \<in> set es. \<exists>p. cidr_of t = Some p \<and> covers p (ce_pfx c))"
proof
  assume "\<exists>x \<in> set (parseCIDRElems es). elem_covers x c"
  then obtain i p where "i < length es" "cidr_of (es ! i) = Some p" "covers p (ce_pfx c)"
    by (auto simp: set_parseCIDRElems elem_covers_def)
  then show "\<exists>t \<in> set es. \<exists>p. cidr_of t = Some p \<and> covers p (ce_pfx c)" by auto
next
  assume "\<exists>t \<in> set es. \<exists>p. cidr_of t = Some p \<and> covers p (ce_pfx c)"
  then obtain i p where "i < length es" "cidr_of (es ! i) = Some p" "covers p (ce_pfx c)"
    by (auto simp: in_set_conv_nth)
  then show "\<exists>x \<in> set (parseCIDRElems es). elem_covers x c"
    by (intro bexI[of _ "\<lparr>ce_raw = es ! i, ce_pfx = p, ce_idx = i\<rparr>"])
      (auto simp: set_parseCIDRElems elem_covers_def)
qed

lemma idx_drops:
  assumes "i < length es"
  shows "i \<in> ce_idx ` set (drops (parseCIDRElems es)) \<longleftrightarrow> (\<exists>x \<in> set es. tok_covers x (es ! i))"
proof -
  have "set (drops (parseCIDRElems es)) =
    {c \<in> set (parseCIDRElems es). \<exists>x \<in> set (parseCIDRElems es). elem_covers x c}"
    by (rule set_drops) (simp add: parseCIDRElems_ok)
  also have "\<dots> = {c \<in> set (parseCIDRElems es). \<exists>t \<in> set es. \<exists>p. cidr_of t = Some p \<and> covers p (ce_pfx c)}"
    by (simp only: elem_covers_toks)
  finally have "i \<in> ce_idx ` set (drops (parseCIDRElems es)) \<longleftrightarrow>
    (\<exists>c \<in> set (parseCIDRElems es). ce_idx c = i \<and> (\<exists>t \<in> set es. \<exists>p. cidr_of t = Some p \<and> covers p (ce_pfx c)))"
    by (simp add: image_iff) blast
  also have "\<dots> \<longleftrightarrow> (\<exists>q. cidr_of (es ! i) = Some q \<and> (\<exists>t \<in> set es. \<exists>p. cidr_of t = Some p \<and> covers p q))"
    using assms by (auto simp: bex_parseCIDRElems)
  finally show ?thesis by (auto simp: tok_covers_iff)
qed

lemma Prune_eq_filter:
  "PruneContainedCIDRs es = filter (\<lambda>e. \<not> (\<exists>x \<in> set es. tok_covers x e)) es"
  unfolding Prune_unfold by (rule filter_enumerate) (simp add: idx_drops)

section \<open>Containment of tokens\<close>

lemma tok_covers_matches: "tok_covers x y \<Longrightarrow> tok_matches y a \<Longrightarrow> tok_matches x a"
  using Contains_nested cidr_of_ok
  by (fastforce simp: tok_covers_iff tok_matches_def covers_def split: option.splits)

lemma tok_covers_trans: "tok_covers x y \<Longrightarrow> tok_covers y z \<Longrightarrow> tok_covers x z"
  using covers_trans cidr_of_ok by (fastforce simp: tok_covers_iff)

lemma tok_covers_irrefl: "\<not> tok_covers x x"
  by (auto simp: tok_covers_iff covers_def)

text \<open>Among the tokens that satisfy \<open>P\<close>, one covers \<open>y\<close> or is \<open>y\<close> and is itself not covered.\<close>

lemma outermost:
  assumes "finite S" "y \<in> S"
  shows "\<exists>x \<in> S. (x = y \<or> tok_covers x y) \<and> \<not> (\<exists>z \<in> S. tok_covers z x)"
  using assms
proof (induction "card {z \<in> S. tok_covers z y}" arbitrary: y rule: less_induct)
  case less
  show ?case
  proof (cases "\<exists>z \<in> S. tok_covers z y")
    case True
    then obtain z where z: "z \<in> S" "tok_covers z y" by blast
    have "{w \<in> S. tok_covers w z} \<subset> {w \<in> S. tok_covers w y}"
      using z tok_covers_trans tok_covers_irrefl by blast
    then have "card {w \<in> S. tok_covers w z} < card {w \<in> S. tok_covers w y}"
      using less.prems(1) by (intro psubset_card_mono) auto
    from less.hyps[OF this less.prems(1) z(1)] z(2) show ?thesis
      using tok_covers_trans by blast
  qed (use less.prems in blast)
qed

lemma Prune_keeps_match:
  assumes "e \<in> set es" "tok_matches e a"
  shows "\<exists>x \<in> set (PruneContainedCIDRs es). tok_matches x a"
proof -
  from outermost[OF _ assms(1)] obtain x where x: "x \<in> set es" "x = e \<or> tok_covers x e"
    "\<not> (\<exists>z \<in> set es. tok_covers z x)" by auto
  with assms(2) have "tok_matches x a" using tok_covers_matches by blast
  with x show ?thesis by (auto simp: Prune_eq_filter)
qed

lemma containmentPair_elems:
  shows "containmentPair es = Some (a, b) \<Longrightarrow>
      \<exists>c \<in> set (parseCIDRElems es). \<exists>d \<in> set (parseCIDRElems es). elem_covers c d \<and> ce_raw c = a \<and> ce_raw d = b"
    and "containmentPair es = None \<longleftrightarrow>
      \<not> (\<exists>c \<in> set (parseCIDRElems es). \<exists>d \<in> set (parseCIDRElems es). elem_covers c d)"
proof (atomize (full), cases "sortCIDRElems (parseCIDRElems es)")
  case Nil
  then have "parseCIDRElems es = []" by (simp add: sortCIDRElems_def)
  with Nil show "(containmentPair es = Some (a, b) \<longrightarrow>
      (\<exists>c \<in> set (parseCIDRElems es). \<exists>d \<in> set (parseCIDRElems es). elem_covers c d \<and> ce_raw c = a \<and> ce_raw d = b)) \<and>
    (containmentPair es = None \<longleftrightarrow>
      \<not> (\<exists>c \<in> set (parseCIDRElems es). \<exists>d \<in> set (parseCIDRElems es). elem_covers c d))"
    by (simp add: containmentPair_def)
next
  case (Cons s ss)
  have set: "set (parseCIDRElems es) = set (s # ss)" using Cons by (metis set_sortCIDRElems)
  have "sorted_by cidr_less (s # ss)" using sorted_elems[of "parseCIDRElems es"] Cons by simp
  moreover have "\<forall>x \<in> set (s # ss). pfx_ok (ce_pfx x)" using parseCIDRElems_ok set by blast
  ultimately have "first_covered elem_covers s ss = None \<longleftrightarrow>
    \<not> (\<exists>c \<in> set (s # ss). \<exists>d \<in> set (s # ss). elem_covers c d)"
    by (rule cidr.first_covered_iff)
  moreover have "\<exists>c \<in> set (s # ss). \<exists>d \<in> set (s # ss). elem_covers c d \<and> ce_raw c = a \<and> ce_raw d = b"
    if "map_option (\<lambda>(o', i). (ce_raw o', ce_raw i)) (first_covered elem_covers s ss) = Some (a, b)"
  proof -
    from that obtain c d where cd: "first_covered elem_covers s ss = Some (c, d)" "ce_raw c = a" "ce_raw d = b"
      by auto
    then show ?thesis using cidr.first_covered_Some[OF cd(1)] by (intro bexI[of _ c] bexI[of _ d]) auto
  qed
  ultimately show "(containmentPair es = Some (a, b) \<longrightarrow>
      (\<exists>c \<in> set (parseCIDRElems es). \<exists>d \<in> set (parseCIDRElems es). elem_covers c d \<and> ce_raw c = a \<and> ce_raw d = b)) \<and>
    (containmentPair es = None \<longleftrightarrow>
      \<not> (\<exists>c \<in> set (parseCIDRElems es). \<exists>d \<in> set (parseCIDRElems es). elem_covers c d))"
    using Cons by (simp only: set containmentPair_def list.case option.map_disc_iff) blast
qed

lemma containmentPair_Some:
  "containmentPair es = Some (x, y) \<Longrightarrow> x \<in> set es \<and> y \<in> set es \<and> tok_covers x y"
  using containmentPair_elems(1)[of es x y]
  by (auto simp: bex_parseCIDRElems elem_covers_def tok_covers_iff in_set_conv_nth)

lemma containmentPair_None:
  "containmentPair es = None \<longleftrightarrow> \<not> (\<exists>x \<in> set es. \<exists>y \<in> set es. tok_covers x y)"
  unfolding containmentPair_elems(2) bex_parseCIDRElems
  by (auto simp: elem_covers_def tok_covers_iff Bex_def in_set_conv_nth)

lemma rejectContainment_Inr:
  "rejectContainment candidates live = Inr () \<longleftrightarrow> containmentPair (live @ candidates) = None"
proof -
  have "containmentPair (live @ candidates) = None \<Longrightarrow> containmentPair candidates = None"
    by (auto simp: containmentPair_None)
  then show ?thesis
    by (auto simp: rejectContainment_def split: option.splits if_splits)
qed

section \<open>Canonical form\<close>

lemma ParseAddr_no_zone: "netip_ParseAddr s = Some a \<Longrightarrow> CHR ''%'' \<notin> set s \<Longrightarrow> addr_zone a = []"
  by (auto simp: netip_ParseAddr_def parse_ipv4_def parse_ipv6_def cut_byte_None cut_byte_Some
      split: option.splits if_splits)

lemma graphic_hex: "is_hex c \<or> c = CHR '':'' \<or> c = CHR ''.'' \<or> c = CHR ''/'' \<Longrightarrow> graphic c"
  by (auto simp: is_hex_def is_digit_def graphic_def)

lemma addr_String_graphic: "addr_zone a = [] \<Longrightarrow> list_all graphic (addr_String a)"
  using addr_String_set graphic_hex by (auto simp: list_all_iff)

lemma itoa_int_graphic: "0 \<le> n \<Longrightarrow> list_all graphic (itoa_int n)"
  using itoa_digits is_hex_digit graphic_hex by (fastforce simp: list_all_iff itoa_int_def)

lemma Index_append: "hd sub \<notin> set a \<Longrightarrow> sub \<noteq> [] \<Longrightarrow> strings_Index (a @ sub @ b) sub = Some (length a)"
proof (induction a)
  case Nil
  then show ?case by (cases sub) auto
next
  case (Cons c a)
  then show ?case by (cases sub) auto
qed

lemma graphic_no_compound: "list_all graphic s \<Longrightarrow> splitCompound s = None"
proof -
  assume "list_all graphic s"
  then have "CHR '' '' \<notin> set s" by (auto simp: list_all_iff graphic_def)
  then have "\<not> strings_Contains s compoundSep" by (auto simp: Contains_iff compoundSep_def)
  then show ?thesis by (simp add: splitCompound_def strings_Contains_def)
qed

lemma splitCompound_canon:
  assumes "list_all graphic h" "list_all graphic p"
  shows "splitCompound (h @ compoundSep @ p) = Some (h, p)"
proof -
  have "CHR '' '' \<notin> set h" using assms(1) by (auto simp: list_all_iff graphic_def)
  then have "strings_Index (h @ compoundSep @ p) compoundSep = Some (length h)"
    by (intro Index_append) (simp_all add: compoundSep_def)
  then show ?thesis using assms by (simp add: splitCompound_def TrimSpace_all_graphic)
qed

text \<open>The canonical token of a parsed key.\<close>

definition elem_canon :: "addr \<Rightarrow> int \<Rightarrow> int \<Rightarrow> string" where
  "elem_canon a b p =
     (if 0 \<le> p then addr_String a @ compoundSep @ itoa_int p
      else if b = int (addr_bitlen a) then addr_String a else pfx_String (Prefix a b))"

text \<open>The parsed keys: a compound key has a port and no prefix length, a plain one is a masked
  prefix, or a host with a zone.\<close>

definition key_wf :: "elem_key \<Rightarrow> bool" where
  "key_wf k \<longleftrightarrow> (case ek_addr k of
     None \<Rightarrow> \<not> ek_parsed k \<and> k = unparsed (ek_canon k)
   | Some a \<Rightarrow> ek_parsed k \<and> ek_canon k = elem_canon a (ek_bits k) (ek_port k) \<and>
       (if 0 \<le> ek_port k then 1 \<le> ek_port k \<and> ek_port k \<le> maxPort \<and> ek_bits k = - 1
        else ek_port k = - 1 \<and> (ek_bits k = int (addr_bitlen a) \<or> pfx_ok (Prefix a (ek_bits k)))))"

lemma parseElement_key_wf: "key_wf (parseElement t)"
proof -
  have masked: "pfx_ok (pfx_Masked p)" if "netip_ParsePrefix s = Some p" for s p
    using ParsePrefix_range[OF that] pfx_ok_Masked[of p] by simp
  show ?thesis
    unfolding parseElement_def Let_def
    by (auto simp: key_wf_def unparsed_def elem_canon_def masked split: option.split simp del: pfx_Masked_simps)
qed

lemma parseElement_zone:
  assumes "CHR ''%'' \<notin> set t" "ek_addr (parseElement t) = Some a"
  shows "addr_zone a = []"
proof -
  have t: "CHR ''%'' \<notin> set (strings_TrimSpace t)" using assms(1) TrimSpace_subset by blast
  have host: "CHR ''%'' \<notin> set h" if "splitCompound (strings_TrimSpace t) = Some (h, p)" for h p
    using that t TrimSpace_subset[of "take _ (strings_TrimSpace t)"]
    by (auto simp: splitCompound_def split: option.splits dest: in_set_takeD)
  show ?thesis
    using assms(2) ParsePrefix_range
    by (auto simp: parseElement_def Let_def unparsed_def
        dest: ParseAddr_no_zone[OF _ t] ParseAddr_no_zone[OF _ host]
        split: option.splits prod.splits if_splits)
qed

lemma Masked_ok: "pfx_ok p \<Longrightarrow> pfx_Masked p = p"
proof -
  assume ok: "pfx_ok p"
  then have r: "0 \<le> pfx_Bits p" "pfx_Bits p \<le> int (addr_bitlen (pfx_Addr p))" by (simp_all add: pfx_ok_def)
  have "addr_val (pfx_Addr p) div pfx_span p * pfx_span p = addr_val (pfx_Addr p)"
    using ok div_mult_mod_eq[of "addr_val (pfx_Addr p)" "pfx_span p"] by (simp add: pfx_ok_def)
  then have "pfx_Addr (pfx_Masked p) = pfx_Addr p"
    using ok r by (intro addr_eqI) (simp_all add: pfx_ok_def)
  with r show ?thesis by (metis netip_prefix.collapse pfx_Masked_simps(1))
qed

lemma parse_compound:
  assumes "addr_zone a = []" "1 \<le> p" "p \<le> maxPort"
  shows "parseElement (addr_String a @ compoundSep @ itoa_int p) =
    \<lparr>ek_canon = addr_String a @ compoundSep @ itoa_int p, ek_addr = Some a, ek_bits = - 1, ek_port = p, ek_parsed = True\<rparr>"
proof -
  let ?s = "addr_String a @ compoundSep @ itoa_int p"
  have g: "list_all graphic (addr_String a)" "list_all graphic (itoa_int p)"
    using assms by (simp_all add: addr_String_graphic itoa_int_graphic)
  then have "graphic (hd ?s)" "graphic (last ?s)"
    using assms by (cases "addr_String a"; auto simp: list_all_iff itoa_int_def)+
  then have "strings_TrimSpace ?s = ?s" by (intro TrimSpace_graphic) simp
  moreover have "strconv_Atoi (itoa_int p) = Some p"
    using assms Atoi_itoa[of p] by (simp add: itoa_int_def maxPort_def)
  ultimately show ?thesis
    using assms unfolding parseElement_def Let_def
    by (simp add: splitCompound_canon[OF g] ParseAddr_String)
qed

lemma parse_host:
  assumes "addr_zone a = []"
  shows "parseElement (addr_String a) =
    \<lparr>ek_canon = addr_String a, ek_addr = Some a, ek_bits = int (addr_bitlen a), ek_port = - 1, ek_parsed = True\<rparr>"
proof -
  have g: "list_all graphic (addr_String a)" using assms by (rule addr_String_graphic)
  have "CHR ''/'' \<notin> set (addr_String a)" using addr_String_set[OF assms, of "CHR ''/''"] by auto
  then show ?thesis
    using g by (simp add: parseElement_def TrimSpace_all_graphic graphic_no_compound Contains_byte ParseAddr_String)
qed

lemma parse_prefix:
  assumes ok: "pfx_ok (Prefix a b)" and ne: "b \<noteq> int (addr_bitlen a)"
  shows "parseElement (pfx_String (Prefix a b)) =
    \<lparr>ek_canon = pfx_String (Prefix a b), ek_addr = Some a, ek_bits = b, ek_port = - 1, ek_parsed = True\<rparr>"
proof -
  have z: "addr_zone a = []" "0 \<le> b" using ok by (simp_all add: pfx_ok_def)
  have "list_all graphic (pfx_String (Prefix a b))"
    using addr_String_graphic[OF z(1)] itoa_int_graphic[OF z(2)] by (simp add: pfx_String_def graphic_def)
  moreover have "CHR ''/'' \<in> set (pfx_String (Prefix a b))" by (simp add: pfx_String_def)
  ultimately show ?thesis
    using ne by (simp add: parseElement_def TrimSpace_all_graphic graphic_no_compound Contains_byte
        ParsePrefix_String[OF ok] Masked_ok[OF ok])
qed

text \<open>Reading a canonical token gives the key it was printed from.\<close>

lemma parseElement_canon:
  assumes "CHR ''%'' \<notin> set t"
  shows "parseElement (ek_canon (parseElement t)) = parseElement t"
proof (cases "ek_addr (parseElement t)")
  case None
  have "ek_canon (parseElement t) = strings_TrimSpace t"
    using None by (auto simp: parseElement_def Let_def unparsed_def split: option.splits prod.splits if_splits)
  then show ?thesis by (simp add: parseElement_def[of "strings_TrimSpace t"] parseElement_def[of t])
next
  case (Some a)
  have z: "addr_zone a = []" using parseElement_zone[OF assms Some] .
  define k where "k = parseElement t"
  have k: "key_wf k" "ek_addr k = Some a" using parseElement_key_wf Some by (auto simp: k_def)
  show ?thesis
    using k z parse_compound[of a "ek_port k"] parse_host[of a] parse_prefix[of a "ek_bits k"]
    unfolding k_def[symmetric]
    by (cases k) (auto simp: key_wf_def elem_canon_def split: if_splits)
qed

subsection \<open>The order of keys\<close>

definition ek_key :: "elem_key \<Rightarrow> bool \<times> string \<times> addr option \<times> int \<times> int" where
  "ek_key k = (if ek_parsed k then (False, [], ek_addr k, ek_bits k, ek_port k)
               else (True, ek_canon k, None, 0, 0))"

lemma elem_less_key: "elem_less k o' \<longleftrightarrow> ek_key k < ek_key o'"
  by (auto simp: elem_less_def ek_key_def less_prod_def')

lemma ek_key_inj: "inj_on ek_key (Collect key_wf)"
proof (rule inj_onI, simp)
  fix k o' :: elem_key
  assume "key_wf k" "key_wf o'" "ek_key k = ek_key o'"
  then show "k = o'"
    by (cases k; cases o') (auto simp: key_wf_def ek_key_def unparsed_def split: if_splits option.splits)
qed

interpretation elem: total_less elem_less "Collect key_wf"
  unfolding elem_less_key[abs_def] by (rule total_less_key[OF ek_key_inj])

definition elem_keys :: "string list \<Rightarrow> elem_key list" where
  "elem_keys es = dedupe_key ek_canon [] (map parseElement es)"

lemma Canonicalize_keys: "CanonicalizeElements es = map ek_canon (sort_by elem_less (elem_keys es))"
  by (simp add: CanonicalizeElements_def elem_keys_def)

lemma elem_keys_wf: "set (elem_keys es) \<subseteq> Collect key_wf"
  using set_dedupe_key_subset[of ek_canon "[]" "map parseElement es"] parseElement_key_wf
  by (auto simp: elem_keys_def)

lemma canon_elem_keys:
  "ek_canon ` set (elem_keys es) = (\<lambda>t. ek_canon (parseElement t)) ` set es"
  "distinct (map ek_canon (elem_keys es))"
  unfolding elem_keys_def
  using dedupe_key_image[of ek_canon "[]" "map parseElement es"]
    dedupe_key_distinct[of ek_canon "[]" "map parseElement es"]
  by (simp_all add: image_image)

lemma set_Canonicalize: "set (CanonicalizeElements es) = (\<lambda>t. ek_canon (parseElement t)) ` set es"
  by (simp add: Canonicalize_keys canon_elem_keys)

lemma distinct_Canonicalize: "distinct (CanonicalizeElements es)"
proof -
  have "inj_on ek_canon (set (elem_keys es))" "distinct (elem_keys es)"
    using canon_elem_keys(2)[of es] by (simp_all add: distinct_map)
  then show ?thesis by (simp add: Canonicalize_keys distinct_map)
qed

text \<open>Tokens without an IPv6 zone, which nft has not; for these a canonical token names its key.\<close>

abbreviation zone_free :: "string list \<Rightarrow> bool" where
  "zone_free es \<equiv> list_all (\<lambda>t. CHR ''%'' \<notin> set t) es"

lemma parse_elem_keys:
  assumes "zone_free es"
  shows "k \<in> set (elem_keys es) \<Longrightarrow> parseElement (ek_canon k) = k"
  using set_dedupe_key_subset[of ek_canon "[]" "map parseElement es"] assms parseElement_canon
  by (auto simp: elem_keys_def list_all_iff)

lemma set_elem_keys:
  assumes "zone_free es"
  shows "set (elem_keys es) = parseElement ` (\<lambda>t. ek_canon (parseElement t)) ` set es"
  using parse_elem_keys[OF assms] unfolding canon_elem_keys(1)[symmetric] by force

lemma Canonicalize_cong:
  assumes "zone_free es" "zone_free fs"
    and "(\<lambda>t. ek_canon (parseElement t)) ` set es = (\<lambda>t. ek_canon (parseElement t)) ` set fs"
  shows "CanonicalizeElements es = CanonicalizeElements fs"
proof -
  have "set (elem_keys es) = set (elem_keys fs)"
    using assms by (simp only: set_elem_keys)
  moreover have "distinct (elem_keys es)" "distinct (elem_keys fs)"
    using canon_elem_keys(2) distinct_map by blast+
  ultimately have "mset (elem_keys es) = mset (elem_keys fs)"
    by (simp add: set_eq_iff_mset_eq_distinct)
  then show ?thesis
    unfolding Canonicalize_keys using elem.sort_by_cong_mset[OF elem_keys_wf] by metis
qed

lemma sorted_Canonicalize:
  assumes "zone_free es"
  shows "sorted_by (\<lambda>x y. elem_less (parseElement x) (parseElement y)) (CanonicalizeElements es)"
proof -
  let ?ks = "sort_by elem_less (elem_keys es)"
  have "sorted_wrt (\<lambda>k l. \<not> elem_less l k) ?ks"
    using elem.sorted_sort_by[of "elem_keys es"] by (simp add: sorted_by_def)
  then have "sorted_wrt (\<lambda>k l. \<not> elem_less (parseElement (ek_canon l)) (parseElement (ek_canon k))) ?ks"
    by (rule sorted_wrt_mono_rel[rotated]) (simp add: parse_elem_keys[OF assms])
  then show ?thesis by (simp add: Canonicalize_keys sorted_by_def sorted_wrt_map)
qed

section \<open>Properties of the canonical form\<close>

text \<open>
  The canonical form of a membership is a function of the set of elements, not of how they are
  written: two lists that name the same elements, in any order, spelling or multiplicity, have
  equal canonical forms, free of duplicates and in numeric order. Since the comparison is
  total on parsed keys, the unstable \<open>sort.Slice\<close> has no freedom.
\<close>

lemma CanonicalizeElements_canonical:
  assumes "zone_free es" "zone_free fs"
    and "(\<lambda>t. ek_canon (parseElement t)) ` set es = (\<lambda>t. ek_canon (parseElement t)) ` set fs"
  shows "CanonicalizeElements es = CanonicalizeElements fs \<and> distinct (CanonicalizeElements es) \<and>
    sorted_by (\<lambda>x y. elem_less (parseElement x) (parseElement y)) (CanonicalizeElements es)"
  using Canonicalize_cong[OF assms] distinct_Canonicalize sorted_Canonicalize[OF assms(1)] by blast

text \<open>
  The difference of two memberships is exact: it adds the desired elements that are not live
  and deletes the live ones that are not desired, each once, in canonical form; applying it to the
  live membership yields the desired one, and it is empty exactly when both name the same elements.
\<close>

lemma DiffElements_exact:
  fixes desired live :: "string list"
  defines "c \<equiv> \<lambda>es. (\<lambda>t. ek_canon (parseElement t)) ` set es"
    and "d \<equiv> DiffElements desired live"
  shows "set (sd_Adds d) = c desired - c live \<and> set (sd_Deletes d) = c live - c desired \<and>
    (c live - set (sd_Deletes d)) \<union> set (sd_Adds d) = c desired \<and>
    distinct (sd_Adds d) \<and> distinct (sd_Deletes d) \<and>
    (SetDelta_Empty d \<longleftrightarrow> c desired = c live)"
proof -
  have adds: "set (sd_Adds d) = c desired - c live" and dels: "set (sd_Deletes d) = c live - c desired"
    by (auto simp: d_def c_def DiffElements_def Let_def set_Canonicalize)
  have "distinct (sd_Adds d)" "distinct (sd_Deletes d)"
    by (simp_all add: d_def DiffElements_def Let_def distinct_Canonicalize)
  moreover have "SetDelta_Empty d \<longleftrightarrow> set (sd_Adds d) = {} \<and> set (sd_Deletes d) = {}"
    by (simp add: SetDelta_Empty_def)
  ultimately show ?thesis using adds dels by auto
qed

text \<open>
  \<open>CompoundElement\<close> builds the token the kernel stores: what it returns for an \<open>ip:port\<close> pair
  without a zone is already canonical, and it reads back as a compound key with a port in range.
\<close>

lemma CompoundElement_canonical:
  assumes "CompoundElement s = Inr tok" "CHR ''%'' \<notin> set s"
  shows "\<exists>a p. parseElement tok = \<lparr>ek_canon = tok, ek_addr = Some a, ek_bits = - 1, ek_port = p, ek_parsed = True\<rparr> \<and>
    1 \<le> p \<and> p \<le> 65535 \<and> tok = addr_String a @ '' . '' @ itoa_int p"
proof -
  from assms(1) obtain host port a p where sp: "net_SplitHostPort s = Some (host, port)"
    and a: "netip_ParseAddr host = Some a" and p: "strconv_Atoi port = Some p" "1 \<le> p" "p \<le> 65535"
    and tok: "tok = addr_String a @ compoundSep @ itoa_int p"
    by (auto simp: CompoundElement_def rbind_Inr_iff ValidatePort_iff split: option.splits)
  have "CHR ''%'' \<notin> set host" using SplitHostPort_subset[OF sp] assms(2) by blast
  then have "addr_zone a = []" using ParseAddr_no_zone[OF a] by simp
  with p have "parseElement tok = \<lparr>ek_canon = tok, ek_addr = Some a, ek_bits = - 1, ek_port = p, ek_parsed = True\<rparr>"
    unfolding tok by (intro parse_compound) (simp_all add: maxPort_def)
  with p tok show ?thesis by (auto simp: compoundSep_def)
qed

section \<open>Properties of the containment checks\<close>

text \<open>
  C32: the single pass of \<open>PruneContainedCIDRs\<close> over the sorted elements, which compares each
  element with the last retained one only, computes the quadratic reference: it removes exactly the
  tokens that some token of the input strictly covers and keeps the others in input order, with
  their spelling. Compound and unparseable tokens are never removed.
\<close>

theorem PruneContainedCIDRs_reference:
  "PruneContainedCIDRs es = filter (\<lambda>e. \<not> (\<exists>x \<in> set es. tok_covers x e)) es"
  by (rule Prune_eq_filter)

text \<open>
  Pruning changes no verdict. Every address matched by the input is matched by the result and
  conversely, no member of the result contains another, so nft accepts it in an interval set, and
  pruning the result again changes nothing.
\<close>

lemma PruneContainedCIDRs_coverage:
  "(\<exists>e \<in> set (PruneContainedCIDRs es). tok_matches e a) = (\<exists>e \<in> set es. tok_matches e a) \<and>
   containmentPair (PruneContainedCIDRs es) = None \<and>
   PruneContainedCIDRs (PruneContainedCIDRs es) = PruneContainedCIDRs es"
proof (intro conjI)
  show "(\<exists>e \<in> set (PruneContainedCIDRs es). tok_matches e a) = (\<exists>e \<in> set es. tok_matches e a)"
  proof
    assume "\<exists>e \<in> set es. tok_matches e a"
    then show "\<exists>e \<in> set (PruneContainedCIDRs es). tok_matches e a"
      using Prune_keeps_match by blast
  qed (auto simp: Prune_eq_filter)
  show "containmentPair (PruneContainedCIDRs es) = None"
    by (auto simp: containmentPair_None Prune_eq_filter)
  show "PruneContainedCIDRs (PruneContainedCIDRs es) = PruneContainedCIDRs es"
    unfolding Prune_eq_filter filter_filter by (rule filter_cong) auto
qed

text \<open>
  \<open>containmentPair\<close>, which compares neighbours of the sorted list only, is sound and complete:
  it reports a pair exactly when some two tokens are in strict containment, the reported tokens
  are members of the list in the caller's spelling, and the first covers the second.
\<close>

lemma containmentPair_exact:
  "case containmentPair es of
     None \<Rightarrow> \<not> (\<exists>x \<in> set es. \<exists>y \<in> set es. tok_covers x y)
   | Some (x, y) \<Rightarrow> x \<in> set es \<and> y \<in> set es \<and> tok_covers x y"
  using containmentPair_Some[of es] containmentPair_None[of es]
  by (auto split: option.split)

text \<open>
  An operator-authored change is refused exactly when the membership it leads to, the stored
  members with the candidates, has one member inside another; every refusal is an
  \<open>IllegalArgument\<close>.
\<close>

lemma rejectContainment_exact:
  "(rejectContainment candidates live = Inr () \<longleftrightarrow>
      \<not> (\<exists>x \<in> set (live @ candidates). \<exists>y \<in> set (live @ candidates). tok_covers x y)) \<and>
   (case rejectContainment candidates live of Inl e \<Rightarrow> err_type e = IllegalArgument | Inr _ \<Rightarrow> True)"
  using rejectContainment_Inr[of candidates live] containmentPair_None[of "live @ candidates"]
  by (auto simp: rejectContainment_def split: option.split sum.split)

end
