(* ===== verification/PolicyModel.thy ===== *)
theory PolicyModel
  imports CidrSet
begin

text \<open>
  \<open>internal/network/policy/class.go\<close> and \<open>policy.go\<close>: the class map, the policy definition, its
  validation, the conversion of its membership entries to set elements, and the overlap check
  between stamp policies.

  \<open>Validate\<close> derives the direction of a stamp policy from its class by assigning to the receiver;
  it is modelled as an action on the policy, \<open>(policy, unit) action\<close>. An \<open>Action\<close> or \<open>Direction\<close>
  value outside the declared constants can reach the code from a hand-edited registry file and is
  kept as a constructor of its own.
\<close>

section \<open>Classes\<close>

datatype direction = NoDirection | DirectionIngress | DirectionEgress | OtherDirection string

definition direction_string :: "direction \<Rightarrow> string" where
  "direction_string d = (case d of NoDirection \<Rightarrow> [] | DirectionIngress \<Rightarrow> ''ingress''
     | DirectionEgress \<Rightarrow> ''egress'' | OtherDirection s \<Rightarrow> s)"

record qos_class =
  cl_Mark :: "32 word"
  cl_Priority :: "32 word"
  cl_Direction :: direction

definition classMap :: "(string \<times> qos_class) list" where
  "classMap =
     [(''publisher'',         \<lparr>cl_Mark = 0x10, cl_Priority = 0x10010, cl_Direction = DirectionIngress\<rparr>),
      (''backfill-response'', \<lparr>cl_Mark = 0x20, cl_Priority = 0x10020, cl_Direction = DirectionIngress\<rparr>),
      (''reserve-ingress'',   \<lparr>cl_Mark = 0x30, cl_Priority = 0x10030, cl_Direction = DirectionIngress\<rparr>),
      (''partner'',           \<lparr>cl_Mark = 0x40, cl_Priority = 0x10040, cl_Direction = DirectionEgress\<rparr>),
      (''public'',            \<lparr>cl_Mark = 0x50, cl_Priority = 0x10050, cl_Direction = DirectionEgress\<rparr>),
      (''reserve-egress'',    \<lparr>cl_Mark = 0x60, cl_Priority = 0x10060, cl_Direction = DirectionEgress\<rparr>)]"

definition lookupClass :: "string \<Rightarrow> qos_class result" where
  "lookupClass name = (case map_of classMap name of
     None \<Rightarrow> Inl (Err IllegalArgument ''unknown class'')
   | Some c \<Rightarrow> Inr c)"

definition knownClasses :: "string list" where
  "knownClasses = sort_by (<) (map fst classMap)"

section \<open>Policies\<close>

datatype action_kind = ActionStamp | ActionDeny | OtherAction string

record policy =
  p_Name :: string
  p_Action :: action_kind
  p_Stamp :: string
  p_ReplyStamp :: string
  p_Direction :: direction
  p_Ports :: "string list"
  p_ManagedPorts :: bool
  p_FromEntityWorld :: bool
  p_CreatedAt :: int

definition isCompoundSet :: "policy \<Rightarrow> bool" where
  "isCompoundSet p \<longleftrightarrow> p_ReplyStamp p \<noteq> []"

definition hasCIDRSet :: "policy \<Rightarrow> bool" where
  "hasCIDRSet p \<longleftrightarrow> \<not> p_FromEntityWorld p"

definition hasPortsSet :: "policy \<Rightarrow> bool" where
  "hasPortsSet p \<longleftrightarrow> 0 < length (p_Ports p) \<or> p_ManagedPorts p"

definition V6SetName :: "string \<Rightarrow> string" where
  "V6SetName name = name @ ''6''"

definition PortsSetName :: "string \<Rightarrow> string" where
  "PortsSetName policyName = policyName @ ''_ports''"

definition validateIPPort :: "string \<Rightarrow> unit result" where
  "validateIPPort s = (case net_SplitHostPort s of
     None \<Rightarrow> Inl (Err IllegalArgument ''--reply-stamp policies require ip:port pairs'')
   | Some (host, port) \<Rightarrow>
       if net_ParseIP host = None then Inl (Err IllegalArgument ''not an IP address'')
       else map_err (wrap IllegalArgument ''invalid --cidrs entry'') (ValidatePort port))"

definition validateCIDRs :: "policy \<Rightarrow> string list \<Rightarrow> unit result" where
  "validateCIDRs p cidrs = check_all (\<lambda>c.
     if isCompoundSet p then validateIPPort c
     else map_err (wrap IllegalArgument ''invalid --cidrs entry'') (ValidateCIDR c)) cidrs"

definition validateStamp :: "(policy, unit) action" where
  "validateStamp p =
     (if p_Stamp p = [] then (Inl (Err IllegalArgument ''--stamp requires a class name''), p)
      else case lookupClass (p_Stamp p) of
        Inl e \<Rightarrow> (Inl e, p)
      | Inr c \<Rightarrow>
          let p' = p\<lparr>p_Direction := cl_Direction c\<rparr> in
          if p_ReplyStamp p = [] then (Inr (), p')
          else (case lookupClass (p_ReplyStamp p) of
            Inl e \<Rightarrow> (Inl e, p')
          | Inr rc \<Rightarrow>
              if cl_Direction c \<noteq> DirectionEgress then
                (Inl (Err IllegalArgument ''--reply-stamp is only valid when --stamp resolves to an egress class''), p')
              else if cl_Direction rc \<noteq> DirectionIngress then
                (Inl (Err IllegalArgument ''--reply-stamp class must resolve to an ingress class''), p')
              else (Inr (), p')))"

definition validateDeny :: "policy \<Rightarrow> unit result" where
  "validateDeny p =
     (if p_Stamp p \<noteq> [] \<or> p_ReplyStamp p \<noteq> [] then
        Inl (Err IllegalArgument ''--deny is mutually exclusive with --stamp and --reply-stamp'')
      else if p_Direction p \<noteq> NoDirection then
        Inl (Err IllegalArgument ''--direction does not apply to --deny'')
      else if p_ManagedPorts p then
        Inl (Err IllegalArgument ''managed ports do not apply to --deny'')
      else if p_FromEntityWorld p \<and> length (p_Ports p) = 0 then
        Inl (Err IllegalArgument ''--deny with --from-entity world requires --ports'')
      else Inr ())"

text \<open>The checks of \<open>Validate\<close> after the switch on the action.\<close>

definition validateRest :: "policy \<Rightarrow> string list \<Rightarrow> unit result" where
  "validateRest p cidrs =
     (if p_FromEntityWorld p \<and> 0 < length cidrs then
        Inl (Err IllegalArgument ''--from-entity world is mutually exclusive with --cidrs'')
      else rbind (check_all (\<lambda>port. map_err (wrap IllegalArgument ''invalid --ports entry'') (ValidatePort port)) (p_Ports p)) (\<lambda>_.
        if p_ManagedPorts p \<and> p_Action p \<noteq> ActionStamp then
          Inl (Err IllegalArgument ''managed ports are only valid with --stamp'')
        else if p_ManagedPorts p \<and> 0 < length (p_Ports p) then
          Inl (Err IllegalArgument ''managed ports are mutually exclusive with static --ports'')
        else validateCIDRs p cidrs))"

definition Validate :: "string list \<Rightarrow> (policy, unit) action" where
  "Validate cidrs =
     sbind (sread (\<lambda>p. map_err (wrap IllegalArgument ''invalid --name'') (ValidateIdentifier (p_Name p)))) (\<lambda>_.
     sbind (\<lambda>p. case p_Action p of
              ActionStamp \<Rightarrow> validateStamp p
            | ActionDeny \<Rightarrow> (validateDeny p, p)
            | OtherAction _ \<Rightarrow> (Inl (Err IllegalArgument ''policy must specify exactly one of --stamp or --deny''), p)) (\<lambda>_.
     sread (\<lambda>p. validateRest p cidrs)))"

section \<open>Membership entries\<close>

definition elementToken :: "policy \<Rightarrow> string \<Rightarrow> (string \<times> bool) result" where
  "elementToken p cidr =
     (if isCompoundSet p then
        rbind (CompoundElement cidr) (\<lambda>tok.
          case net_SplitHostPort cidr of
            None \<Rightarrow> Inl (Err IllegalArgument ''invalid ip:port'')
          | Some (host, _) \<Rightarrow> (case netip_ParseAddr host of
              None \<Rightarrow> Inl (Err IllegalArgument ''not an IP address'')
            | Some a \<Rightarrow> Inr (tok, addr_Is6 a \<and> \<not> addr_Is4In6 a)))
      else rbind (CIDRIsIPv6 cidr) (\<lambda>isV6. Inr (cidr, isV6)))"

definition setElementsByFamily :: "policy \<Rightarrow> string list \<Rightarrow> string list \<times> string list" where
  "setElementsByFamily p cidrs =
     (let toks = List.map_filter (\<lambda>c. case elementToken p c of Inl _ \<Rightarrow> None | Inr t \<Rightarrow> Some t) cidrs in
      (map fst (filter (\<lambda>t. \<not> snd t) toks), map fst (filter snd toks)))"

definition portElements :: "string list \<Rightarrow> string" where
  "portElements ports = strings_Join '', '' ports"

section \<open>Groups and overlap\<close>

definition isSpecific :: "policy \<Rightarrow> bool" where
  "isSpecific p \<longleftrightarrow> p_Action p = ActionStamp \<and> \<not> p_FromEntityWorld p"

definition portsKey :: "string list \<Rightarrow> string" where
  "portsKey ports = strings_Join '','' (sort_by (<) ports)"

definition groupKey :: "policy \<Rightarrow> string" where
  "groupKey p =
     (if p_ManagedPorts p then direction_string (p_Direction p) @ ''|managed:'' @ p_Name p
      else direction_string (p_Direction p) @ ''|'' @ portsKey (p_Ports p))"

definition checkNoOverlap :: "policy list \<Rightarrow> policy \<Rightarrow> unit result" where
  "checkNoOverlap existing candidate =
     (if \<not> isSpecific candidate then Inr ()
      else check_all (\<lambda>p.
        if p_Name p = p_Name candidate then Inr ()
        else if isSpecific p \<and> groupKey p = groupKey candidate
          then Inl (Err IllegalArgument ''policy overlaps with existing policy'')
        else Inr ()) existing)"

section \<open>Validated policies\<close>

text \<open>What the renderer may assume of a policy that passed \<open>Validate\<close>.\<close>

definition stamp_ok :: "policy \<Rightarrow> bool" where
  "stamp_ok p \<longleftrightarrow> (case lookupClass (p_Stamp p) of
     Inl _ \<Rightarrow> False
   | Inr c \<Rightarrow> p_Direction p = cl_Direction c \<and>
       (p_ReplyStamp p \<noteq> [] \<longrightarrow> p_Direction p = DirectionEgress \<and>
          (case lookupClass (p_ReplyStamp p) of Inl _ \<Rightarrow> False | Inr rc \<Rightarrow> cl_Direction rc = DirectionIngress)))"

definition deny_ok :: "policy \<Rightarrow> bool" where
  "deny_ok p \<longleftrightarrow> p_Stamp p = [] \<and> p_ReplyStamp p = [] \<and> p_Direction p = NoDirection \<and>
     \<not> p_ManagedPorts p \<and> (p_FromEntityWorld p \<longrightarrow> p_Ports p \<noteq> [])"

definition policy_ok :: "policy \<Rightarrow> bool" where
  "policy_ok p \<longleftrightarrow>
     p_Name p \<noteq> [] \<and> list_all isValidIdentifierChar (p_Name p) \<and>
     (case p_Action p of ActionStamp \<Rightarrow> stamp_ok p | ActionDeny \<Rightarrow> deny_ok p | OtherAction _ \<Rightarrow> False) \<and>
     list_all (\<lambda>port. ValidatePort port = Inr ()) (p_Ports p) \<and>
     (p_ManagedPorts p \<longrightarrow> p_Ports p = [])"

definition derive_direction :: "policy \<Rightarrow> policy" where
  "derive_direction p = (case p_Action p of
     ActionStamp \<Rightarrow> (case lookupClass (p_Stamp p) of Inl _ \<Rightarrow> p | Inr c \<Rightarrow> p\<lparr>p_Direction := cl_Direction c\<rparr>)
   | _ \<Rightarrow> p)"

lemma lookupClass_Nil [simp]: "lookupClass [] = Inl (Err IllegalArgument ''unknown class'')"
  by code_simp

lemma derive_stamp: "p_Action p = ActionStamp \<Longrightarrow> validateStamp p = (Inr (), p') \<longleftrightarrow> p' = derive_direction p \<and> stamp_ok p'"
  by (cases p)
    (auto simp: validateStamp_def stamp_ok_def derive_direction_def Let_def split: sum.splits if_splits)

lemma derive_direction_simps [simp]:
  "p_Name (derive_direction p) = p_Name p" "p_Action (derive_direction p) = p_Action p"
  "p_Stamp (derive_direction p) = p_Stamp p" "p_ReplyStamp (derive_direction p) = p_ReplyStamp p"
  "p_Ports (derive_direction p) = p_Ports p" "p_ManagedPorts (derive_direction p) = p_ManagedPorts p"
  "p_FromEntityWorld (derive_direction p) = p_FromEntityWorld p" "p_CreatedAt (derive_direction p) = p_CreatedAt p"
  by (auto simp: derive_direction_def split: action_kind.split sum.split)

lemma derive_direction_idem [simp]: "derive_direction (derive_direction p) = derive_direction p"
  by (auto simp: derive_direction_def split: action_kind.split sum.split)

lemma validateDeny_Inr: "validateDeny p = Inr () \<longleftrightarrow> deny_ok p"
  by (auto simp: validateDeny_def deny_ok_def)

lemma validateRest_Inr:
  "validateRest p cidrs = Inr () \<longleftrightarrow>
     (p_FromEntityWorld p \<longrightarrow> cidrs = []) \<and> list_all (\<lambda>port. ValidatePort port = Inr ()) (p_Ports p) \<and>
     (p_ManagedPorts p \<longrightarrow> p_Action p = ActionStamp \<and> p_Ports p = []) \<and> validateCIDRs p cidrs = Inr ()"
  by (auto simp: validateRest_def rbind_Inr_iff check_all_Inr list_all_iff)

lemma validateCIDRs_derive [simp]: "validateCIDRs (derive_direction p) cidrs = validateCIDRs p cidrs"
  by (simp add: validateCIDRs_def isCompoundSet_def)

lemma validateCIDRs_Nil [simp]: "validateCIDRs p [] = Inr ()"
  by (simp add: validateCIDRs_def)

text \<open>\<open>Validate\<close> succeeds exactly on the policies that are fit to render, once the direction is derived.\<close>

lemma Validate_Inr:
  "Validate cidrs p = (Inr (), p') \<longleftrightarrow>
     p' = derive_direction p \<and> policy_ok p' \<and> (p_FromEntityWorld p \<longrightarrow> cidrs = []) \<and> validateCIDRs p cidrs = Inr ()"
proof (cases "p_Action p")
  case ActionStamp
  then show ?thesis
    by (auto simp: Validate_def sbind_Inr_iff ValidateIdentifier_iff derive_stamp validateRest_Inr policy_ok_def)
next
  case ActionDeny
  then have "derive_direction p = p" by (simp add: derive_direction_def)
  with ActionDeny show ?thesis
    by (auto simp: Validate_def sbind_Inr_iff ValidateIdentifier_iff validateDeny_Inr validateRest_Inr policy_ok_def deny_ok_def)
next
  case (OtherAction s)
  then show ?thesis by (auto simp: Validate_def sbind_Inr_iff policy_ok_def)
qed

lemma Validate_ok: "policy_ok p \<Longrightarrow> Validate [] p = (Inr (), p)"
proof -
  assume ok: "policy_ok p"
  then have "derive_direction p = p"
    by (cases p) (auto simp: policy_ok_def derive_direction_def stamp_ok_def split: action_kind.splits sum.splits)
  with ok show ?thesis by (simp add: Validate_Inr)
qed

lemma lookupClass_dir: "lookupClass n = Inr c \<Longrightarrow> cl_Direction c = DirectionIngress \<or> cl_Direction c = DirectionEgress"
  by (auto simp: lookupClass_def classMap_def split: option.splits if_splits)

lemma stamp_ok_dir: "stamp_ok p \<Longrightarrow> p_Direction p = DirectionIngress \<or> p_Direction p = DirectionEgress"
  using lookupClass_dir by (auto simp: stamp_ok_def split: sum.splits)

section \<open>Group keys\<close>

definition ports_ok :: "string list \<Rightarrow> bool" where
  "ports_ok ports \<longleftrightarrow> list_all (\<lambda>port. ValidatePort port = Inr ()) ports"

lemma ports_ok_plain: "ports_ok ports \<Longrightarrow> x \<in> set ports \<Longrightarrow> x \<noteq> [] \<and> CHR '','' \<notin> set x"
  using ValidatePort_chars[of x] by (fastforce simp: ports_ok_def list_all_iff is_digit_def)

lemma Join_Nil_iff: "\<forall>x \<in> set xs. x \<noteq> [] \<Longrightarrow> strings_Join sep xs = [] \<longleftrightarrow> xs = []"
  by (cases xs; cases "tl xs") auto

lemma Join_inj:
  assumes "\<forall>x \<in> set xs. x \<noteq> [] \<and> c \<notin> set x" "\<forall>y \<in> set ys. y \<noteq> [] \<and> c \<notin> set y"
    and "strings_Join [c] xs = strings_Join [c] ys"
  shows "xs = ys"
proof (cases "xs = []")
  case True
  with assms Join_Nil_iff[of ys "[c]"] show ?thesis by auto
next
  case False
  with assms Join_Nil_iff[of xs "[c]"] have "ys \<noteq> []" by auto
  with False assms show ?thesis using Split_Join[of xs c] Split_Join[of ys c] by metis
qed

lemma portsKey_eq:
  assumes "ports_ok a" "ports_ok b"
  shows "portsKey a = portsKey b \<longleftrightarrow> mset a = mset b"
proof
  assume "portsKey a = portsKey b"
  then have "sort_by (<) a = sort_by (<) b"
    unfolding portsKey_def using assms ports_ok_plain by (intro Join_inj) auto
  then show "mset a = mset b" by (metis mset_sort_by)
next
  assume "mset a = mset b"
  then have "sort_by (<) a = sort_by (<) b" by (intro string_less.sort_by_cong_mset) auto
  then show "portsKey a = portsKey b" by (simp add: portsKey_def)
qed

lemma portsKey_not_managed:
  assumes "ports_ok ports"
  shows "portsKey ports \<noteq> ''managed:'' @ n"
proof (cases "sort_by (<) ports")
  case Nil
  then show ?thesis by (simp add: portsKey_def)
next
  case (Cons x xs)
  then have "x \<in> set ports" by (metis list.set_intros(1) set_sort_by)
  then have x: "x \<noteq> []" "is_digit (hd x) \<or> hd x = CHR ''+''"
    using assms ValidatePort_chars[of x] by (auto simp: ports_ok_def list_all_iff)
  then have "hd (portsKey ports) = hd x"
    using Cons by (cases xs) (auto simp: portsKey_def)
  then have "hd (portsKey ports) \<noteq> CHR ''m''" using x(2) by (auto simp: is_digit_def)
  then show ?thesis by auto
qed

lemma groupKey_eq:
  assumes "policy_ok p" "policy_ok q" "p_Action p = ActionStamp" "p_Action q = ActionStamp"
  shows "groupKey p = groupKey q \<longleftrightarrow> p_Direction p = p_Direction q \<and>
    (if p_ManagedPorts p \<or> p_ManagedPorts q then p_ManagedPorts p \<and> p_ManagedPorts q \<and> p_Name p = p_Name q
     else mset (p_Ports p) = mset (p_Ports q))"
proof -
  have dirs: "p_Direction r = DirectionIngress \<or> p_Direction r = DirectionEgress" if "r = p \<or> r = q" for r
    using that assms stamp_ok_dir by (auto simp: policy_ok_def)
  have ports: "ports_ok (p_Ports p)" "ports_ok (p_Ports q)"
    using assms by (auto simp: policy_ok_def ports_ok_def)
  have sep: "direction_string (p_Direction p) @ ''|'' @ s = direction_string (p_Direction q) @ ''|'' @ t \<longleftrightarrow>
    p_Direction p = p_Direction q \<and> s = t" for s t
    using dirs[of p] dirs[of q] by (auto simp: direction_string_def)
  have key: "groupKey r = direction_string (p_Direction r) @ ''|'' @
    (if p_ManagedPorts r then ''managed:'' @ p_Name r else portsKey (p_Ports r))" for r
    by (simp add: groupKey_def)
  show ?thesis
    unfolding key sep
    using portsKey_eq[OF ports] portsKey_not_managed[OF ports(1)] portsKey_not_managed[OF ports(2)]
    by (auto dest: sym)
qed

lemma checkNoOverlap_Inr:
  "checkNoOverlap existing c = Inr () \<longleftrightarrow>
     (isSpecific c \<longrightarrow> (\<forall>p \<in> set existing. p_Name p \<noteq> p_Name c \<longrightarrow> isSpecific p \<longrightarrow> groupKey p \<noteq> groupKey c))"
  by (auto simp: checkNoOverlap_def check_all_Inr)

section \<open>Membership entries by family\<close>

definition toks :: "policy \<Rightarrow> string list \<Rightarrow> (string \<times> bool) list" where
  "toks p cidrs = List.map_filter (\<lambda>c. case elementToken p c of Inl _ \<Rightarrow> None | Inr t \<Rightarrow> Some t) cidrs"

lemma setElementsByFamily_eq:
  "setElementsByFamily p cidrs = (map fst (filter (\<lambda>t. \<not> snd t) (toks p cidrs)), map fst (filter snd (toks p cidrs)))"
  by (simp add: setElementsByFamily_def toks_def Let_def)

lemma valid_elementToken:
  assumes "(if isCompoundSet p then validateIPPort c
     else map_err (wrap IllegalArgument ''invalid --cidrs entry'') (ValidateCIDR c)) = Inr ()"
  shows "\<exists>t. elementToken p c = Inr t"
  using assms
  by (auto simp: elementToken_def validateIPPort_def net_ParseIP_def ValidateCIDR_iff CIDRIsIPv6_def
      CompoundElement_def split: if_splits option.splits prod.splits)

lemma toks_valid:
  assumes "validateCIDRs p cidrs = Inr ()"
  shows "map Inr (toks p cidrs) = map (elementToken p) cidrs"
  using assms
proof (induction cidrs)
  case (Cons c cidrs)
  have "\<exists>t. elementToken p c = Inr t" and rest: "validateCIDRs p cidrs = Inr ()"
    using Cons.prems valid_elementToken by (auto simp: validateCIDRs_def rbind_Inr_iff)
  then show ?case using Cons.IH by (auto simp: toks_def List.map_filter_simps)
qed (simp add: toks_def List.map_filter_simps)

section \<open>Properties\<close>

text \<open>
  The class map keeps the encoding that the shaper relies on: names and marks are unique, the
  priority of a class is its mark with major number 1, and every class has one of the two
  directions.
\<close>

lemma classMap_encoding:
  "distinct (map fst classMap) \<and> distinct (map (cl_Mark \<circ> snd) classMap) \<and>
   list_all (\<lambda>(n, c). cl_Priority c = push_bit 16 1 + cl_Mark c \<and> cl_Mark c < push_bit 16 1 \<and>
      cl_Direction c \<in> {DirectionIngress, DirectionEgress}) classMap"
  by (simp add: classMap_def)

text \<open>
  \<open>Validate\<close> is the gate before the renderer. It succeeds exactly on the policies that are fit
  to render: a safe name, ports in range, a known class whose direction it derives, a reply class
  of the mirror direction, and for a deny at least one narrowing clause. Nothing but the direction
  is changed, and validating the result again succeeds and changes nothing.
\<close>

lemma Validate_exact:
  "(Validate cidrs p = (Inr (), p') \<longleftrightarrow>
      p' = derive_direction p \<and> policy_ok p' \<and> (cidrs \<noteq> [] \<longrightarrow> hasCIDRSet p) \<and> validateCIDRs p cidrs = Inr ()) \<and>
   (policy_ok p' \<longrightarrow> Validate [] p' = (Inr (), p'))"
  using Validate_Inr[of cidrs p p'] Validate_ok[of p'] by (auto simp: hasCIDRSet_def)

text \<open>
  Two validated stamp policies are in the same group exactly when they have the same direction
  and the same ports, in whatever order these were given; policies whose ports the daemon manages
  are in a group of their own.
\<close>

lemma groupKey_exact:
  assumes "policy_ok p" "policy_ok q" "p_Action p = ActionStamp" "p_Action q = ActionStamp"
  shows "groupKey p = groupKey q \<longleftrightarrow> p_Direction p = p_Direction q \<and>
    (if p_ManagedPorts p \<or> p_ManagedPorts q then p_ManagedPorts p \<and> p_ManagedPorts q \<and> p_Name p = p_Name q
     else mset (p_Ports p) = mset (p_Ports q))"
  by (rule groupKey_eq[OF assms])

definition example_stamp :: "string \<Rightarrow> string list \<Rightarrow> policy" where
  "example_stamp n ports =
     \<lparr>p_Name = n, p_Action = ActionStamp, p_Stamp = ''publisher'', p_ReplyStamp = [],
      p_Direction = DirectionIngress, p_Ports = ports, p_ManagedPorts = False,
      p_FromEntityWorld = False, p_CreatedAt = 0\<rparr>"

text \<open>
  No membership entry is lost on the way to the kernel: every entry that passes
  \<open>validateCIDRs\<close> has an element token, and the two family lists hold exactly these tokens, each
  in the list of its family.
\<close>

lemma setElementsByFamily_complete:
  assumes "validateCIDRs p cidrs = Inr ()" "setElementsByFamily p cidrs = (v4, v6)"
  shows "\<exists>ts. map Inr ts = map (elementToken p) cidrs \<and>
    v4 = map fst (filter (\<lambda>t. \<not> snd t) ts) \<and> v6 = map fst (filter snd ts) \<and>
    length v4 + length v6 = length cidrs"
proof -
  have ts: "map Inr (toks p cidrs) = map (elementToken p) cidrs" by (rule toks_valid[OF assms(1)])
  then have "length (toks p cidrs) = length cidrs" by (metis length_map)
  moreover have "length (filter snd (toks p cidrs)) + length (filter (\<lambda>t. \<not> snd t) (toks p cidrs)) = length (toks p cidrs)"
    by (rule sum_length_filter_compl)
  ultimately show ?thesis
    using ts assms(2) by (intro exI[of _ "toks p cidrs"]) (auto simp: setElementsByFamily_eq)
qed

end
