(* ===== verification/PolicyRender.thy ===== *)
theory PolicyRender
  imports PolicyModel
begin

text \<open>
  \<open>internal/network/policy/render.go\<close>, \<open>parse.go\<close> and the element reader of \<open>nft.go\<close>: the nft
  document of the \<open>inet weaver-workload-policy\<close> table, byte for byte, and the two readers that
  recover information from such a document. The membership argument is the Go map from set names to
  elements, a function whose default is the empty list; the two address families are the record
  \<open>family\<close> of the source.

  The lemmas show the order of the tiers in a chain, that every set a rule refers to is declared,
  that the document depends only on the contents of the policies and sets, and that the element
  reader reads back what a set declaration holds.
\<close>

section \<open>Lines\<close>

definition TableName :: string where
  "TableName = ''inet weaver-workload-policy''"

definition emdash :: string where
  "emdash = [CHR 0xE2, CHR 0x80, CHR 0x94]"

definition line1 :: "string \<Rightarrow> string" where
  "line1 s = tab # s"

definition line2 :: "string \<Rightarrow> string" where
  "line2 s = tab # tab # s"

definition hex :: "32 word \<Rightarrow> string" where
  "hex v = ''0x'' @ hexs (uint v)"

definition chainBase :: string where "chainBase = ''forward''"

definition chainV4 :: string where "chainV4 = ''forward_ipv4''"

definition chainV6 :: string where "chainV6 = ''forward_ipv6''"

record family =
  fam_proto :: string
  fam_podCIDR :: string
  fam_setName :: "string \<Rightarrow> string"

definition familyV4 :: "string \<Rightarrow> family" where
  "familyV4 podCIDR = \<lparr>fam_proto = ''ip'', fam_podCIDR = podCIDR, fam_setName = (\<lambda>name. name)\<rparr>"

definition familyV6 :: "string \<Rightarrow> family" where
  "familyV6 podCIDR = \<lparr>fam_proto = ''ip6'', fam_podCIDR = podCIDR, fam_setName = V6SetName\<rparr>"

section \<open>Pod CIDRs\<close>

definition needsPodCIDR :: "policy list \<Rightarrow> bool" where
  "needsPodCIDR policies \<longleftrightarrow> list_ex (\<lambda>p. case p_Action p of
     ActionStamp \<Rightarrow> True | ActionDeny \<Rightarrow> hasPortsSet p | OtherAction _ \<Rightarrow> False) policies"

definition nonEmptyStrings :: "string list \<Rightarrow> string list" where
  "nonEmptyStrings ss = filter (\<lambda>s. s \<noteq> []) ss"

fun partitionPodCIDRs :: "string list \<Rightarrow> string \<times> string \<Rightarrow> string \<times> string" where
  "partitionPodCIDRs [] acc = acc"
| "partitionPodCIDRs (c # cs) (v4, v6) =
     (if c = [] then partitionPodCIDRs cs (v4, v6)
      else case CIDRIsIPv6 c of
        Inr True \<Rightarrow> partitionPodCIDRs cs (v4, c)
      | _ \<Rightarrow> partitionPodCIDRs cs (c, v6))"

section \<open>Set declarations\<close>

definition name_less :: "policy \<Rightarrow> policy \<Rightarrow> bool" where
  "name_less p q \<longleftrightarrow> p_Name p < p_Name q"

definition sortedByName :: "policy list \<Rightarrow> policy list" where
  "sortedByName policies = sort_by name_less policies"

definition setDecl :: "string \<Rightarrow> string \<Rightarrow> string list \<Rightarrow> string" where
  "setDecl name typeSpec elements = (let canon = CanonicalizeElements elements in
     if length canon = 0 then line1 (''set '' @ name @ '' { type '' @ typeSpec @ ''; }'')
     else line1 (''set '' @ name @ '' { type '' @ typeSpec @ ''; elements = { '' @
                 strings_Join '', '' canon @ '' }; }''))"

definition renderSetDecl :: "(string \<Rightarrow> string list) \<Rightarrow> policy \<Rightarrow> string list" where
  "renderSetDecl membership p =
     (let v4 = p_Name p; v6 = V6SetName (p_Name p); ps = PortsSetName (p_Name p) in
      (if hasCIDRSet p then
         (if isCompoundSet p then
            [setDecl v4 ''ipv4_addr . inet_service'' (membership v4),
             setDecl v6 ''ipv6_addr . inet_service'' (membership v6)]
          else
            [setDecl v4 ''ipv4_addr; flags interval'' (membership v4),
             setDecl v6 ''ipv6_addr; flags interval'' (membership v6)])
       else []) @
      (if 0 < length (p_Ports p) then
         [line1 (''set '' @ ps @ '' { type inet_service; elements = { '' @ portElements (p_Ports p) @ '' }; }'')]
       else if p_ManagedPorts p then [setDecl ps ''inet_service'' (membership ps)]
       else []))"

definition renderSetDecls :: "policy list \<Rightarrow> (string \<Rightarrow> string list) \<Rightarrow> string list" where
  "renderSetDecls policies membership = concat (map (renderSetDecl membership) policies)"

section \<open>Rules\<close>

definition renderDenyRules :: "policy \<Rightarrow> family \<Rightarrow> string list" where
  "renderDenyRules p f =
     (if \<not> hasPortsSet p then
        [line2 (fam_proto f @ '' saddr @'' @ fam_setName f (p_Name p) @ '' drop''),
         line2 (fam_proto f @ '' daddr @'' @ fam_setName f (p_Name p) @ '' drop'')]
      else if fam_podCIDR f = [] then []
      else [line2 (fam_proto f @ '' daddr '' @ fam_podCIDR f @
                   (if hasCIDRSet p then '' '' @ fam_proto f @ '' saddr @'' @ fam_setName f (p_Name p) else []) @
                   '' tcp dport @'' @ PortsSetName (p_Name p) @ '' ct direction original drop'')])"

definition renderReplyRestoreRule :: "policy \<Rightarrow> string result" where
  "renderReplyRestoreRule p = rbind (lookupClass (p_ReplyStamp p)) (\<lambda>reply.
     Inr (line2 (''ct direction reply ct mark '' @ hex (cl_Mark reply) @
                 '' meta priority set '' @ hex (cl_Priority reply) @ '' accept'')))"

definition renderPlainStampRule :: "policy \<Rightarrow> family \<Rightarrow> qos_class \<Rightarrow> string result" where
  "renderPlainStampRule p f fwd = (case p_Direction p of
     DirectionIngress \<Rightarrow>
       Inr (line2 (fam_proto f @ '' daddr '' @ fam_podCIDR f @
         (if hasCIDRSet p then '' '' @ fam_proto f @ '' saddr @'' @ fam_setName f (p_Name p) else []) @
         (if hasPortsSet p then '' tcp dport @'' @ PortsSetName (p_Name p) else []) @
         '' meta priority set '' @ hex (cl_Priority fwd) @ '' accept''))
   | DirectionEgress \<Rightarrow>
       Inr (line2 (fam_proto f @ '' saddr '' @ fam_podCIDR f @
         (if hasCIDRSet p then '' '' @ fam_proto f @ '' daddr @'' @ fam_setName f (p_Name p) else []) @
         (if hasPortsSet p then '' tcp sport @'' @ PortsSetName (p_Name p) else []) @
         '' meta priority set '' @ hex (cl_Priority fwd) @ '' accept''))
   | _ \<Rightarrow> Inl (Err AssertionFailed ''stamp policy has no direction''))"

text \<open>The empty string is the result for a family without a pod CIDR.\<close>

definition renderStampRule :: "policy \<Rightarrow> family \<Rightarrow> string result" where
  "renderStampRule p f =
     (if fam_podCIDR f = [] then Inr []
      else rbind (lookupClass (p_Stamp p)) (\<lambda>fwd.
        if isCompoundSet p then
          rbind (lookupClass (p_ReplyStamp p)) (\<lambda>reply.
            Inr (line2 (fam_proto f @ '' saddr '' @ fam_podCIDR f @ '' '' @ fam_proto f @
                 '' daddr . tcp dport @'' @ fam_setName f (p_Name p) @ '' ct mark set '' @ hex (cl_Mark reply) @
                 '' meta priority set '' @ hex (cl_Priority fwd) @ '' accept'')))
        else renderPlainStampRule p f fwd))"

section \<open>Order within a tier\<close>

definition created_less :: "policy \<Rightarrow> policy \<Rightarrow> bool" where
  "created_less p q \<longleftrightarrow> p_CreatedAt p < p_CreatedAt q"

text \<open>The \<open>byKey\<close> map with the \<open>groups\<close> slice: the groups in the order of their first member.\<close>

definition add_to_group :: "(string \<times> policy list) list \<Rightarrow> policy \<Rightarrow> (string \<times> policy list) list" where
  "add_to_group groups p = (case map_of groups (groupKey p) of
     None \<Rightarrow> groups @ [(groupKey p, [p])]
   | Some ms \<Rightarrow> al_put (groupKey p) (ms @ [p]) groups)"

definition orderByGroupThenCreatedAt :: "policy list \<Rightarrow> policy list" where
  "orderByGroupThenCreatedAt policies =
     concat (map (\<lambda>g. sort_by created_less (snd g)) (foldl add_to_group [] policies))"

section \<open>Chains\<close>

definition appendSection :: "string list \<Rightarrow> string list \<Rightarrow> string list" where
  "appendSection lines comment = (if 0 < length lines then lines @ [[]] else lines) @ comment"

definition deny_comment :: "string list" where
  "deny_comment =
     [line2 ''# Deny. Runs ahead of the classification accepts below so a denied'',
      line2 ''# packet is dropped rather than stamped. There is no conntrack accept'',
      line2 ''# fast-path in this chain, so packets on already-open connections are'',
      line2 ''# evaluated against these drops too. A membership deny drops both'',
      line2 ''# directions; a port-scoped deny drops the request leg only.'']"

definition restore_comment :: "string list" where
  "restore_comment =
     [line2 ''# Asymmetric reply restore. Matches conntrack only, so it is spelled'',
      line2 ''# identically in both family chains that have a pod CIDR. Must precede'',
      line2 ''# the classification tiers: on the reply the addresses are reversed, so a'',
      line2 ''# broad fallthrough rule below would otherwise claim the packet and stamp'',
      line2 ''# it with the forward class instead of the reply class.'']"

definition specific_comment :: "string list" where
  "specific_comment = [line2 (''# Classification '' @ emdash @ '' specific matches.'')]"

definition fallthrough_comment :: "string list" where
  "fallthrough_comment = [line2 (''# Classification '' @ emdash @ '' fallthrough (any source/dest).'')]"

definition add_section :: "string list \<Rightarrow> string list \<Rightarrow> string list \<Rightarrow> string list" where
  "add_section comment rules lines =
     (if 0 < length rules then appendSection lines comment @ rules else lines)"

definition restore_rules :: "policy list \<Rightarrow> family \<Rightarrow> string list result" where
  "restore_rules policies f =
     (if fam_podCIDR f = [] then Inr []
      else rmap renderReplyRestoreRule
             (filter (\<lambda>p. p_Action p = ActionStamp \<and> p_ReplyStamp p \<noteq> []) policies))"

definition stamp_rules :: "policy list \<Rightarrow> family \<Rightarrow> string list result" where
  "stamp_rules policies f =
     rbind (rmap (\<lambda>p. renderStampRule p f) (orderByGroupThenCreatedAt policies)) (\<lambda>rules.
       Inr (filter (\<lambda>r. r \<noteq> []) rules))"

definition renderFamilyChain :: "policy list \<Rightarrow> family \<Rightarrow> string list result" where
  "renderFamilyChain policies f =
     (let deny = concat (map (\<lambda>p. renderDenyRules p f) (filter (\<lambda>p. p_Action p = ActionDeny) policies));
          stamps = filter (\<lambda>p. p_Action p = ActionStamp) policies in
      rbind (restore_rules policies f) (\<lambda>restore.
      rbind (stamp_rules (filter (\<lambda>p. \<not> p_FromEntityWorld p) stamps) f) (\<lambda>specific.
      rbind (stamp_rules (filter p_FromEntityWorld stamps) f) (\<lambda>fallthr.
        Inr (add_section fallthrough_comment fallthr
            (add_section specific_comment specific
            (add_section restore_comment restore
            (add_section deny_comment deny [])))))))) "

definition baseChainLines :: "string list" where
  "baseChainLines =
     [line1 (''# The hooked chain carries no rules of its own '' @ emdash @ '' it only dispatches into''),
      line1 ''# the per-family chains below, so an IPv4 packet never evaluates an IPv6'',
      line1 ''# rule and vice versa.'',
      line1 ''#'',
      line1 ''# Policy is `accept` because this table classifies traffic for the HTB'',
      line1 ''# hierarchy: a packet no rule matches falls through carrying no'',
      line1 ''# `meta priority` and lands in the HTB default class. The deny tier in the'',
      line1 (''# chains below is the exception '' @ emdash @ '' those rules drop.''),
      line1 (''chain '' @ chainBase @ '' {''),
      line2 ''type filter hook forward priority 0; policy accept;'',
      line2 (''meta nfproto vmap { ipv4 : jump '' @ chainV4 @ '', ipv6 : jump '' @ chainV6 @ '' }''),
      line1 ''}'']"

definition writeChain :: "string \<Rightarrow> string list \<Rightarrow> string" where
  "writeChain name lines =
     (if length lines = 0 then line1 (''chain '' @ name @ '' { }'') @ [nl]
      else line1 (''chain '' @ name @ '' {'') @ [nl] @ strings_Join [nl] lines @ [nl] @ line1 ''}'' @ [nl])"

definition Render :: "policy list \<Rightarrow> (string \<Rightarrow> string list) \<Rightarrow> string list \<Rightarrow> string result" where
  "Render policies0 membership podCIDRs =
     (case partitionPodCIDRs podCIDRs ([], []) of (podV4, podV6) \<Rightarrow>
      if podV4 = [] \<and> podV6 = [] \<and> needsPodCIDR policies0
        then Inl (Err IllegalArgument ''pod CIDR is required to render a --stamp policy'')
      else let policies = sortedByName policies0; setLines = renderSetDecls policies membership in
        rbind (renderFamilyChain policies (familyV4 podV4)) (\<lambda>v4Lines.
        rbind (renderFamilyChain policies (familyV6 podV6)) (\<lambda>v6Lines.
          Inr (''add table '' @ TableName @ [nl] @
               ''delete table '' @ TableName @ [nl] @
               ''add table '' @ TableName @ [nl] @
               ''table '' @ TableName @ '' {'' @ [nl] @
               (if 0 < length setLines then strings_Join [nl] setLines @ [nl, nl] else []) @
               strings_Join [nl] baseChainLines @ [nl, nl] @
               writeChain chainV4 v4Lines @ [nl] @
               writeChain chainV6 v6Lines @ ''}'' @ [nl]))))"

section \<open>Reading a document back\<close>

definition is_word :: "char \<Rightarrow> bool" where
  "is_word c \<longleftrightarrow> is_alnum c \<or> c = CHR ''_''"

text \<open>A run of \<open>1\<close> to \<open>n\<close> digits that the next byte ends, and what follows it.\<close>

definition match_digits :: "nat \<Rightarrow> string \<Rightarrow> (string \<times> string) option" where
  "match_digits n s = (let ds = takeWhile is_digit s in
     if 1 \<le> length ds \<and> length ds \<le> n then Some (ds, dropWhile is_digit s) else None)"

definition match_byte :: "char \<Rightarrow> string \<Rightarrow> string option" where
  "match_byte c s = (if s \<noteq> [] \<and> hd s = c then Some (tl s) else None)"

definition at_boundary :: "string \<Rightarrow> bool" where
  "at_boundary s \<longleftrightarrow> s = [] \<or> \<not> is_word (hd s)"

text \<open>The capture of \<open>rePodCIDR\<close>: four groups of one to three digits and a length of one or two.\<close>

fun match_v4 :: "nat \<Rightarrow> string \<Rightarrow> string option" where
  "match_v4 0 s = (case match_digits 2 s of
     None \<Rightarrow> None | Some (ds, r) \<Rightarrow> if at_boundary r then Some ds else None)"
| "match_v4 (Suc k) s = (case match_digits 3 s of
     None \<Rightarrow> None
   | Some (ds, r) \<Rightarrow> (let sep = (if k = 0 then CHR ''/'' else CHR ''.'') in
       case match_byte sep r of
         None \<Rightarrow> None
       | Some r' \<Rightarrow> map_option (\<lambda>t. ds @ sep # t) (match_v4 k r')))"

definition match_v6 :: "string \<Rightarrow> string option" where
  "match_v6 s = (let as = takeWhile (\<lambda>c. is_hex c \<or> c = CHR '':'') s in
     if as = [] then None
     else case match_byte (CHR ''/'') (drop (length as) s) of
       None \<Rightarrow> None
     | Some r \<Rightarrow> (case match_digits 3 r of
         None \<Rightarrow> None
       | Some (ds, r') \<Rightarrow> if at_boundary r' then Some (as @ ''/'' @ ds) else None))"

definition match_addr_clause :: "string \<Rightarrow> (string \<Rightarrow> string option) \<Rightarrow> string \<Rightarrow> string option" where
  "match_addr_clause proto m s =
     (let d = proto @ '' daddr ''; a = proto @ '' saddr '' in
      if prefix d s then m (drop (length d) s)
      else if prefix a s then m (drop (length a) s) else None)"

text \<open>The leftmost match.\<close>

fun find_match :: "(string \<Rightarrow> string option) \<Rightarrow> string \<Rightarrow> string option" where
  "find_match m [] = m []"
| "find_match m (c # s) = (case m (c # s) of Some t \<Rightarrow> Some t | None \<Rightarrow> find_match m s)"

definition ExtractPodCIDRs :: "string \<Rightarrow> string list" where
  "ExtractPodCIDRs content =
     (case find_match (match_addr_clause ''ip'' (match_v4 4)) content of None \<Rightarrow> [] | Some t \<Rightarrow> [t]) @
     (case find_match (match_addr_clause ''ip6'' match_v6) content of None \<Rightarrow> [] | Some t \<Rightarrow> [t])"

definition parseElementsLine :: "string \<Rightarrow> string list" where
  "parseElementsLine output = (let marker = ''elements = {'' in
     case strings_Index output marker of
       None \<Rightarrow> []
     | Some start \<Rightarrow> (let rest = drop (start + length marker) output in
         case strings_Index rest ''}'' of
           None \<Rightarrow> []
         | Some e \<Rightarrow> (let inner = strings_TrimSpace (take e rest) in
             if inner = [] then []
             else filter (\<lambda>v. v \<noteq> []) (map strings_TrimSpace (strings_Split (CHR '','') inner)))))"

definition isSetNotExistError :: "string \<Rightarrow> bool" where
  "isSetNotExistError stderr \<longleftrightarrow> strings_Contains stderr ''No such file or directory''"

section \<open>Grouping\<close>

definition first_keys :: "policy list \<Rightarrow> string list" where
  "first_keys ps = dedupe_key (\<lambda>k. k) [] (map groupKey ps)"

definition group_of :: "policy list \<Rightarrow> string \<Rightarrow> policy list" where
  "group_of ps k = filter (\<lambda>p. groupKey p = k) ps"

lemma first_keys_distinct: "distinct (first_keys ps)"
  using dedupe_key_distinct[of "\<lambda>k. k" "[]" "map groupKey ps"] by (simp add: first_keys_def)

lemma set_first_keys: "set (first_keys ps) = groupKey ` set ps"
  using dedupe_key_image[of "\<lambda>k. k" "[]" "map groupKey ps"] by (simp add: first_keys_def)

lemma first_keys_snoc:
  "first_keys (ps @ [p]) = first_keys ps @ (if groupKey p \<in> groupKey ` set ps then [] else [groupKey p])"
  by (simp add: first_keys_def dedupe_key_snoc image_image)

lemma map_of_map_keys: "map_of (map (\<lambda>k. (k, f k)) ks) k = (if k \<in> set ks then Some (f k) else None)"
  by (induction ks) auto

lemma al_put_map_keys:
  "distinct ks \<Longrightarrow> k \<in> set ks \<Longrightarrow> al_put k v (map (\<lambda>k. (k, f k)) ks) = map (\<lambda>k'. (k', if k' = k then v else f k')) ks"
  by (induction ks) auto

lemma groups_eq: "foldl add_to_group [] ps = map (\<lambda>k. (k, group_of ps k)) (first_keys ps)"
proof (induction ps rule: rev_induct)
  case Nil
  then show ?case by (simp add: first_keys_def)
next
  case (snoc p ps)
  let ?k = "groupKey p"
  have other: "group_of (ps @ [p]) k = group_of ps k" if "k \<noteq> ?k" for k
    using that by (simp add: group_of_def)
  show ?case
  proof (cases "?k \<in> groupKey ` set ps")
    case True
    then have "?k \<in> set (first_keys ps)" by (simp add: set_first_keys)
    with True snoc show ?thesis
      by (auto simp: add_to_group_def map_of_map_keys first_keys_snoc al_put_map_keys first_keys_distinct
          group_of_def)
  next
    case False
    then have "group_of ps ?k = []" "?k \<notin> set (first_keys ps)"
      by (auto simp: group_of_def set_first_keys image_iff filter_empty_conv)
    with False snoc show ?thesis
      by (auto simp: add_to_group_def map_of_map_keys first_keys_snoc group_of_def)
  qed
qed

lemma order_eq:
  "orderByGroupThenCreatedAt ps = concat (map (\<lambda>k. sort_by created_less (group_of ps k)) (first_keys ps))"
  by (simp add: orderByGroupThenCreatedAt_def groups_eq comp_def)

interpretation created: weak_less created_less
  unfolding created_less_def[abs_def] by (rule weak_less_key)

lemma mset_concat_groups:
  "distinct ks \<Longrightarrow> groupKey ` set ps \<subseteq> set ks \<Longrightarrow> mset (concat (map (group_of ps) ks)) = mset ps"
proof (induction ks arbitrary: ps)
  case (Cons k ks)
  let ?rest = "filter (\<lambda>p. groupKey p \<noteq> k) ps"
  have "map (group_of ps) ks = map (group_of ?rest) ks"
    using Cons.prems(1) by (auto simp: group_of_def intro!: filter_cong)
  moreover have "mset (concat (map (group_of ?rest) ks)) = mset ?rest"
    using Cons.prems by (intro Cons.IH) auto
  moreover have "mset (group_of ps k) + mset ?rest = mset ps"
    by (simp add: group_of_def multiset_partition[symmetric])
  ultimately show ?case by (simp only: list.map concat.simps mset_append)
qed simp

lemma mset_order: "mset (orderByGroupThenCreatedAt ps) = mset ps"
proof -
  have "mset (concat (map (\<lambda>k. sort_by created_less (group_of ps k)) ks)) = mset (concat (map (group_of ps) ks))" for ks
    by (induction ks) simp_all
  then show ?thesis
    using mset_concat_groups[OF first_keys_distinct, of ps ps] by (simp add: order_eq set_first_keys)
qed

lemma set_order [simp]: "set (orderByGroupThenCreatedAt ps) = set ps"
  using mset_order[of ps] by (metis set_mset_mset)

section \<open>Rules and tiers\<close>

definition is_rule :: "string \<Rightarrow> bool" where
  "is_rule l \<longleftrightarrow> l \<noteq> [] \<and> \<not> prefix (line2 ''#'') l"

definition is_family :: "family \<Rightarrow> bool" where
  "is_family f \<longleftrightarrow> (\<exists>c. f = familyV4 c \<or> f = familyV6 c)"

lemma is_family_simps [simp]: "is_family (familyV4 c)" "is_family (familyV6 c)"
  by (auto simp: is_family_def)

lemma proto_cases: "is_family f \<Longrightarrow> fam_proto f = ''ip'' \<or> fam_proto f = ''ip6''"
  by (auto simp: is_family_def familyV4_def familyV6_def)

lemma is_rule_line2: "is_rule (line2 (c # s)) \<longleftrightarrow> c \<noteq> CHR ''#''"
  by (auto simp: is_rule_def line2_def)

lemma renderDenyRules_drop:
  assumes "is_family f" "r \<in> set (renderDenyRules p f)"
  shows "is_rule r \<and> suffix '' drop'' r"
  using assms proto_cases[OF assms(1)]
  by (auto simp: renderDenyRules_def is_rule_def line2_def suffix_def split: if_splits)

lemma renderReplyRestoreRule_accept:
  "renderReplyRestoreRule p = Inr r \<Longrightarrow> is_rule r \<and> suffix '' accept'' r \<and> prefix (line2 ''ct direction reply'') r"
  by (auto simp: renderReplyRestoreRule_def rbind_Inr_iff is_rule_def line2_def suffix_def prefix_def)

lemma renderStampRule_accept:
  assumes "is_family f" "renderStampRule p f = Inr r" "r \<noteq> []"
  shows "is_rule r \<and> suffix '' accept'' r"
  using assms proto_cases[OF assms(1)]
  by (auto simp: renderStampRule_def renderPlainStampRule_def rbind_Inr_iff is_rule_def line2_def suffix_def
      split: if_splits direction.splits)

lemma restore_rules_accept:
  "restore_rules ps f = Inr rs \<Longrightarrow> r \<in> set rs \<Longrightarrow> is_rule r \<and> suffix '' accept'' r \<and> prefix (line2 ''ct direction reply'') r"
  using renderReplyRestoreRule_accept by (auto simp: restore_rules_def split: if_splits dest: rmap_member)

lemma stamp_rules_accept:
  "is_family f \<Longrightarrow> stamp_rules ps f = Inr rs \<Longrightarrow> r \<in> set rs \<Longrightarrow> is_rule r \<and> suffix '' accept'' r"
  using renderStampRule_accept[of f] by (auto simp: stamp_rules_def rbind_Inr_iff dest: rmap_member)

lemma filter_section:
  "\<forall>r \<in> set rules. is_rule r \<Longrightarrow> filter is_rule comment = [] \<Longrightarrow>
   filter is_rule (add_section comment rules lines) = filter is_rule lines @ rules"
  by (simp add: add_section_def appendSection_def is_rule_def)

lemma comments_no_rule:
  "filter is_rule deny_comment = []" "filter is_rule restore_comment = []"
  "filter is_rule specific_comment = []" "filter is_rule fallthrough_comment = []"
  by (simp_all add: deny_comment_def restore_comment_def specific_comment_def fallthrough_comment_def is_rule_line2)

abbreviation deny_lines :: "policy list \<Rightarrow> family \<Rightarrow> string list" where
  "deny_lines ps f \<equiv> concat (map (\<lambda>p. renderDenyRules p f) (filter (\<lambda>p. p_Action p = ActionDeny) ps))"

abbreviation specific_stamps :: "policy list \<Rightarrow> policy list" where
  "specific_stamps ps \<equiv> filter (\<lambda>p. \<not> p_FromEntityWorld p) (filter (\<lambda>p. p_Action p = ActionStamp) ps)"

abbreviation fallthrough_stamps :: "policy list \<Rightarrow> policy list" where
  "fallthrough_stamps ps \<equiv> filter p_FromEntityWorld (filter (\<lambda>p. p_Action p = ActionStamp) ps)"

lemma chain_rules:
  assumes "is_family f" "renderFamilyChain ps f = Inr lines"
  obtains restore specific fallthr where
    "restore_rules ps f = Inr restore" "stamp_rules (specific_stamps ps) f = Inr specific"
    "stamp_rules (fallthrough_stamps ps) f = Inr fallthr"
    "filter is_rule lines = deny_lines ps f @ restore @ specific @ fallthr"
proof -
  from assms(2) obtain restore specific fallthr where
    rs: "restore_rules ps f = Inr restore" "stamp_rules (specific_stamps ps) f = Inr specific"
      "stamp_rules (fallthrough_stamps ps) f = Inr fallthr"
    and lines: "lines = add_section fallthrough_comment fallthr (add_section specific_comment specific
      (add_section restore_comment restore (add_section deny_comment (deny_lines ps f) [])))"
    by (auto simp: renderFamilyChain_def Let_def rbind_Inr_iff)
  have "\<forall>r \<in> set (deny_lines ps f). is_rule r" using renderDenyRules_drop[OF assms(1)] by auto
  moreover have "\<forall>r \<in> set restore. is_rule r" using restore_rules_accept[OF rs(1)] by blast
  moreover have "\<forall>r \<in> set specific. is_rule r" "\<forall>r \<in> set fallthr. is_rule r"
    using stamp_rules_accept[OF assms(1)] rs(2,3) by blast+
  ultimately have "filter is_rule lines = deny_lines ps f @ restore @ specific @ fallthr"
    unfolding lines by (simp add: filter_section comments_no_rule)
  with rs that show ?thesis by blast
qed

section \<open>Rendering succeeds\<close>

lemma stamp_render_total:
  assumes "policy_ok p" "p_Action p = ActionStamp"
  shows "\<exists>r. renderStampRule p f = Inr r"
proof -
  have ok: "stamp_ok p" using assms by (simp add: policy_ok_def)
  then show ?thesis
    using stamp_ok_dir[OF ok]
    by (auto simp: stamp_ok_def renderStampRule_def renderPlainStampRule_def isCompoundSet_def split: sum.splits)
qed

lemma restore_render_total:
  "policy_ok p \<Longrightarrow> p_Action p = ActionStamp \<Longrightarrow> p_ReplyStamp p \<noteq> [] \<Longrightarrow> \<exists>r. renderReplyRestoreRule p = Inr r"
  by (auto simp: policy_ok_def stamp_ok_def renderReplyRestoreRule_def split: sum.splits)

lemma renderFamilyChain_total:
  assumes "\<forall>p \<in> set ps. policy_ok p"
  shows "\<exists>lines. renderFamilyChain ps f = Inr lines"
proof -
  have "\<exists>rs. restore_rules ps f = Inr rs"
    using assms restore_render_total by (auto simp: restore_rules_def intro!: rmap_total)
  moreover have "\<exists>rs. stamp_rules qs f = Inr rs" if "set qs \<subseteq> {p \<in> set ps. p_Action p = ActionStamp}" for qs
  proof -
    have "\<exists>rs. rmap (\<lambda>p. renderStampRule p f) (orderByGroupThenCreatedAt qs) = Inr rs"
      using that assms stamp_render_total by (intro rmap_total) auto
    then show ?thesis by (auto simp: stamp_rules_def)
  qed
  from this[of "specific_stamps ps"] this[of "fallthrough_stamps ps"]
  have "\<exists>rs. stamp_rules (specific_stamps ps) f = Inr rs" "\<exists>rs. stamp_rules (fallthrough_stamps ps) f = Inr rs"
    by auto
  ultimately show ?thesis by (auto simp: renderFamilyChain_def Let_def)
qed

section \<open>References to sets\<close>

lemma Split_Cons: "strings_Split sep (c # s) =
   (if c = sep then [] # strings_Split sep s else (c # hd (strings_Split sep s)) # tl (strings_Split sep s))"
  by (cases "strings_Split sep s") auto

lemma Split_word:
  "sep \<notin> set a \<Longrightarrow> strings_Split sep (a @ s) = (a @ hd (strings_Split sep s)) # tl (strings_Split sep s)"
proof (induction a)
  case Nil
  then show ?case by (cases "strings_Split sep s") auto
next
  case (Cons c a)
  then show ?case by (auto simp: Split_Cons)
qed

text \<open>The set names a rule mentions, \<open>@name\<close>, and the name a declaration declares.\<close>

definition refs :: "string \<Rightarrow> string list" where
  "refs l = map tl (filter (\<lambda>t. t \<noteq> [] \<and> hd t = CHR ''@'') (strings_Split (CHR '' '') l))"

definition decl_name :: "string \<Rightarrow> string" where
  "decl_name l = strings_Split (CHR '' '') l ! 1"

lemma not_space:
  "policy_ok p \<Longrightarrow> CHR '' '' \<notin> set (p_Name p)" "policy_ok p \<Longrightarrow> CHR '' '' \<notin> set (V6SetName (p_Name p))"
  "policy_ok p \<Longrightarrow> CHR '' '' \<notin> set (PortsSetName (p_Name p))"
proof -
  assume ok: "policy_ok p"
  have "\<not> isValidIdentifierChar (CHR '' '')"
    by (simp add: isValidIdentifierChar_def is_alnum_def is_lower_def is_upper_def is_digit_def)
  then show "CHR '' '' \<notin> set (p_Name p)" using ok by (auto simp: policy_ok_def list_all_iff)
  then show "CHR '' '' \<notin> set (V6SetName (p_Name p))" "CHR '' '' \<notin> set (PortsSetName (p_Name p))"
    by (auto simp: V6SetName_def PortsSetName_def)
qed

lemma setName_cases: "is_family f \<Longrightarrow> fam_setName f n = n \<or> fam_setName f n = V6SetName n"
  by (auto simp: is_family_def familyV4_def familyV6_def)

lemma decl_name_set:
  "CHR '' '' \<notin> set n \<Longrightarrow> decl_name (line1 (''set '' @ n @ CHR '' '' # s)) = n"
  by (simp add: decl_name_def line1_def tab_def Split_Cons Split_word)

lemma decl_name_setDecl: "CHR '' '' \<notin> set n \<Longrightarrow> decl_name (setDecl n t es) = n"
  using decl_name_set[of n] by (simp add: setDecl_def Let_def)

lemma declared:
  assumes "policy_ok p"
  shows "hasCIDRSet p \<Longrightarrow> {p_Name p, V6SetName (p_Name p)} \<subseteq> decl_name ` set (renderSetDecl m p)"
    and "hasPortsSet p \<Longrightarrow> PortsSetName (p_Name p) \<in> decl_name ` set (renderSetDecl m p)"
  using not_space[OF assms] decl_name_set[of "PortsSetName (p_Name p)"]
  by (auto simp: renderSetDecl_def Let_def decl_name_setDecl hasPortsSet_def image_Un)

text \<open>The sets of a policy that a rule of the policy may refer to.\<close>

definition own_sets :: "policy \<Rightarrow> string set" where
  "own_sets p = (if hasCIDRSet p then {p_Name p, V6SetName (p_Name p)} else {}) \<union>
                (if hasPortsSet p then {PortsSetName (p_Name p)} else {})"

lemma own_sets_declared: "policy_ok p \<Longrightarrow> own_sets p \<subseteq> decl_name ` set (renderSetDecl m p)"
  using declared[of p m] by (auto simp: own_sets_def)

lemma hex_no_space: "CHR '' '' \<notin> set (hex v)" "\<exists>c s. hex v = c # s \<and> c \<noteq> CHR ''@''"
  using hexs_hex[of "uint v"] by (auto simp: hex_def list_all_iff is_hex_def is_digit_def)

definition pod_ok :: "string \<Rightarrow> bool" where
  "pod_ok c \<longleftrightarrow> CHR '' '' \<notin> set c \<and> CHR ''@'' \<notin> set c"

lemma hd_pod: "pod_ok c \<Longrightarrow> c \<noteq> [] \<Longrightarrow> hd c \<noteq> CHR ''@''"
  by (cases c) (auto simp: pod_ok_def)

lemma hd_hex: "hd (hex v) = CHR ''0''" "hex v \<noteq> []"
  by (simp_all add: hex_def)

lemmas refs_simps = refs_def line2_def tab_def Split_Cons Split_word hd_hex hex_no_space(1)

lemma refs_deny:
  assumes "policy_ok p" "is_family f" "pod_ok (fam_podCIDR f)" "p_Action p = ActionDeny" "r \<in> set (renderDenyRules p f)"
  shows "set (refs r) \<subseteq> own_sets p"
proof -
  note sp = not_space[OF assms(1)]
  have n: "CHR '' '' \<notin> set (fam_setName f (p_Name p))" using setName_cases[OF assms(2), of "p_Name p"] sp by auto
  have world: "\<not> hasPortsSet p \<Longrightarrow> hasCIDRSet p"
    using assms(1,4) by (auto simp: policy_ok_def deny_ok_def hasPortsSet_def hasCIDRSet_def)
  have c: "CHR '' '' \<notin> set (fam_podCIDR f)" using assms(3) by (simp add: pod_ok_def)
  show ?thesis
    using assms(5) n c sp world hd_pod[OF assms(3)] setName_cases[OF assms(2), of "p_Name p"] proto_cases[OF assms(2)]
    by (auto simp: renderDenyRules_def refs_simps own_sets_def split: if_splits)
qed

lemma refs_restore: "renderReplyRestoreRule p = Inr r \<Longrightarrow> refs r = []"
  by (auto simp: renderReplyRestoreRule_def rbind_Inr_iff refs_simps)

lemma refs_ingress:
  assumes "proto = ''ip'' \<or> proto = ''ip6''" "pod_ok c" "c \<noteq> []" "CHR '' '' \<notin> set n" "CHR '' '' \<notin> set pn"
  shows "set (refs (line2 (proto @ '' daddr '' @ c @
      (if h then '' '' @ proto @ '' saddr @'' @ n else []) @ (if q then '' tcp dport @'' @ pn else []) @
      '' meta priority set '' @ hex v @ '' accept''))) \<subseteq> (if h then {n} else {}) \<union> (if q then {pn} else {})"
proof -
  have c: "CHR '' '' \<notin> set c" using assms(2) by (simp add: pod_ok_def)
  note hd_c = hd_pod[OF assms(2,3)]
  show ?thesis
    using assms(1)
    by (elim disjE; cases h; cases q) (simp_all add: refs_simps c hd_c assms(3,4,5))
qed

lemma refs_egress:
  assumes "proto = ''ip'' \<or> proto = ''ip6''" "pod_ok c" "c \<noteq> []" "CHR '' '' \<notin> set n" "CHR '' '' \<notin> set pn"
  shows "set (refs (line2 (proto @ '' saddr '' @ c @
      (if h then '' '' @ proto @ '' daddr @'' @ n else []) @ (if q then '' tcp sport @'' @ pn else []) @
      '' meta priority set '' @ hex v @ '' accept''))) \<subseteq> (if h then {n} else {}) \<union> (if q then {pn} else {})"
proof -
  have c: "CHR '' '' \<notin> set c" using assms(2) by (simp add: pod_ok_def)
  note hd_c = hd_pod[OF assms(2,3)]
  show ?thesis
    using assms(1)
    by (elim disjE; cases h; cases q) (simp_all add: refs_simps c hd_c assms(3,4,5))
qed

lemma refs_compound:
  assumes "proto = ''ip'' \<or> proto = ''ip6''" "pod_ok c" "c \<noteq> []" "CHR '' '' \<notin> set n"
  shows "set (refs (line2 (proto @ '' saddr '' @ c @ '' '' @ proto @ '' daddr . tcp dport @'' @ n @
      '' ct mark set '' @ hex u @ '' meta priority set '' @ hex v @ '' accept''))) \<subseteq> {n}"
proof -
  have c: "CHR '' '' \<notin> set c" using assms(2) by (simp add: pod_ok_def)
  note hd_c = hd_pod[OF assms(2,3)]
  show ?thesis using assms(1) by (elim disjE) (simp_all add: refs_simps c hd_c assms(3,4))
qed

lemma refs_stamp:
  assumes "policy_ok p" "is_family f" "pod_ok (fam_podCIDR f)" "p_ReplyStamp p \<noteq> [] \<Longrightarrow> hasCIDRSet p"
    and "renderStampRule p f = Inr r"
  shows "set (refs r) \<subseteq> own_sets p"
proof (cases "fam_podCIDR f = []")
  case True
  with assms(5) show ?thesis by (simp add: renderStampRule_def refs_def)
next
  case False
  note sp = not_space[OF assms(1)]
  have n: "CHR '' '' \<notin> set (fam_setName f (p_Name p))" "fam_setName f (p_Name p) \<in> {p_Name p, V6SetName (p_Name p)}"
    using setName_cases[OF assms(2), of "p_Name p"] sp by auto
  then have sub: "(if hasCIDRSet p then {fam_setName f (p_Name p)} else {}) \<union>
    (if hasPortsSet p then {PortsSetName (p_Name p)} else {}) \<subseteq> own_sets p"
    by (auto simp: own_sets_def)
  note rule = refs_ingress[OF proto_cases[OF assms(2)] assms(3) False n(1) sp(3)]
    refs_egress[OF proto_cases[OF assms(2)] assms(3) False n(1) sp(3)]
    refs_compound[OF proto_cases[OF assms(2)] assms(3) False n(1)]
  from assms(5) False obtain fwd where fwd:
    "(if isCompoundSet p then rbind (lookupClass (p_ReplyStamp p)) (\<lambda>reply.
        Inr (line2 (fam_proto f @ '' saddr '' @ fam_podCIDR f @ '' '' @ fam_proto f @
          '' daddr . tcp dport @'' @ fam_setName f (p_Name p) @ '' ct mark set '' @ hex (cl_Mark reply) @
          '' meta priority set '' @ hex (cl_Priority fwd) @ '' accept'')))
      else renderPlainStampRule p f fwd) = Inr r"
    by (simp only: renderStampRule_def if_False rbind_Inr_iff) blast
  show ?thesis
  proof (cases "isCompoundSet p")
    case True
    from fwd[unfolded if_P[OF True] rbind_Inr_iff] obtain reply :: qos_class where
      "Inr (line2 (fam_proto f @ '' saddr '' @ fam_podCIDR f @ '' '' @ fam_proto f @
          '' daddr . tcp dport @'' @ fam_setName f (p_Name p) @ '' ct mark set '' @ hex (cl_Mark reply) @
          '' meta priority set '' @ hex (cl_Priority fwd) @ '' accept'')) = (Inr r :: string result)"
      by blast
    then have "r = line2 (fam_proto f @ '' saddr '' @ fam_podCIDR f @ '' '' @ fam_proto f @
          '' daddr . tcp dport @'' @ fam_setName f (p_Name p) @ '' ct mark set '' @ hex (cl_Mark reply) @
          '' meta priority set '' @ hex (cl_Priority fwd) @ '' accept'')"
      by (simp only: sum.inject)
    then have "set (refs r) \<subseteq> {fam_setName f (p_Name p)}" by (simp only: rule)
    moreover have "hasCIDRSet p" using True assms(4) by (simp add: isCompoundSet_def)
    ultimately show ?thesis using sub by auto
  next
    case False
    then have "renderPlainStampRule p f fwd = Inr r" using fwd by simp
    then have "set (refs r) \<subseteq> (if hasCIDRSet p then {fam_setName f (p_Name p)} else {}) \<union>
      (if hasPortsSet p then {PortsSetName (p_Name p)} else {})"
    proof (cases "p_Direction p")
      case DirectionIngress
      note r = \<open>renderPlainStampRule p f fwd = Inr r\<close>[unfolded renderPlainStampRule_def DirectionIngress direction.case sum.inject, symmetric]
      show ?thesis unfolding r by (rule rule(1))
    next
      case DirectionEgress
      note r = \<open>renderPlainStampRule p f fwd = Inr r\<close>[unfolded renderPlainStampRule_def DirectionEgress direction.case sum.inject, symmetric]
      show ?thesis unfolding r by (rule rule(2))
    qed (simp_all add: renderPlainStampRule_def)
    with sub show ?thesis by blast
  qed
qed

section \<open>Determinism\<close>

interpretation by_name: weak_less name_less
  unfolding name_less_def[abs_def] by (rule weak_less_key)

lemma sortedByName_cong:
  assumes "distinct (map p_Name ps)" "mset ps = mset qs"
  shows "sortedByName ps = sortedByName qs"
proof -
  have inj: "inj_on p_Name (set ps)" using assms(1) by (simp add: distinct_map)
  have "total_less name_less (set ps)"
    unfolding name_less_def[abs_def] by (rule total_less_key[OF inj])
  then show ?thesis
    unfolding sortedByName_def by (rule total_less.sort_by_cong_mset) (simp_all add: assms(2))
qed

lemma setDecl_cong:
  "zone_free es \<Longrightarrow> zone_free fs \<Longrightarrow>
   (\<lambda>t. ek_canon (parseElement t)) ` set es = (\<lambda>t. ek_canon (parseElement t)) ` set fs \<Longrightarrow>
   setDecl n t es = setDecl n t fs"
  using Canonicalize_cong[of es fs] by (simp add: setDecl_def)

lemma needsPodCIDR_cong: "set ps = set qs \<Longrightarrow> needsPodCIDR ps = needsPodCIDR qs"
  by (simp add: needsPodCIDR_def list_ex_iff)

section \<open>Reading elements back\<close>

lemma Index_prefix: "strings_Index (sub @ s) sub = Some 0" if "sub \<noteq> []"
  using that by (cases sub) auto

lemma Index_skip:
  assumes "\<forall>i \<le> length a. \<not> prefix sub (drop i a @ s) \<or> i = length a" "prefix sub s" "sub \<noteq> []"
  shows "strings_Index (a @ s) sub = Some (length a)"
  using assms
proof (induction a)
  case Nil
  then show ?case by (cases s) auto
next
  case (Cons c a)
  have "\<not> prefix sub ((c # a) @ s)" using Cons.prems(1)[rule_format, of 0] by simp
  moreover have "strings_Index (a @ s) sub = Some (length a)"
    using Cons.prems by (intro Cons.IH) (auto dest: spec[of _ "Suc _"])
  ultimately show ?case by simp
qed

lemma Index_marker:
  assumes "c \<notin> set P" "k < length m" "m ! k = c" "c \<notin> set (take k m)"
  shows "strings_Index (P @ m @ s) m = Some (length P)"
proof (rule Index_skip)
  show "m \<noteq> []" using assms(2) by auto
  show "prefix m (m @ s)" by simp
  show "\<forall>i \<le> length P. \<not> prefix m (drop i P @ m @ s) \<or> i = length P"
  proof (intro allI impI)
    fix i assume i: "i \<le> length P"
    show "\<not> prefix m (drop i P @ m @ s) \<or> i = length P"
    proof (cases "i = length P")
      case False
      have "c \<in> set (take (Suc k) m)" using assms(2,3) by (simp add: take_Suc_conv_app_nth)
      moreover have "c \<notin> set (take (Suc k) (drop i P @ m @ s))"
      proof -
        define n where "n = Suc k - length (drop i P)"
        have n: "n \<le> k" using False i by (simp add: n_def)
        then have "take n (m @ s) = take n m" using assms(2) by simp
        then have "c \<notin> set (take n (m @ s))"
          using assms(4) set_take_subset_set_take[OF n, of m] by auto
        moreover have "c \<notin> set (take (Suc k) (drop i P))"
          using assms(1) by (auto dest: in_set_takeD in_set_dropD)
        ultimately show ?thesis by (simp only: take_append n_def[symmetric] set_append Un_iff simp_thms)
      qed
      ultimately have "take (Suc k) m \<noteq> take (Suc k) (drop i P @ m @ s)" by metis
      moreover have "take (Suc k) X = take (Suc k) m" if "prefix m X" for X
        using that assms(2) by (auto simp: prefix_def)
      ultimately show ?thesis by metis
    qed simp
  qed
qed

text \<open>Blanks around a token.\<close>

lemma trim_left_space: "trim_runes space_runes (CHR '' '' # s) = trim_runes space_runes s"
  "trim_runes (map rev space_runes) (CHR '' '' # s) = trim_runes (map rev space_runes) s"
  by (subst trim_runes.simps; simp add: space_len_def space_runes_def)+

lemma TrimSpace_blanks:
  assumes "x \<noteq> []" "graphic (hd x)" "graphic (last x)"
  shows "strings_TrimSpace x = x" "strings_TrimSpace (CHR '' '' # x) = x" "strings_TrimSpace (CHR '' '' # x @ '' '') = x"
proof -
  have l: "trim_runes space_runes (x @ s) = x @ s" for s
    using assms by (intro trim_runes_graphic[OF space_runes_graphic(1)]) simp
  have r: "trim_runes (map rev space_runes) (rev x) = rev x"
    using assms by (intro trim_runes_graphic[OF space_runes_graphic(2)]) (simp add: hd_rev)
  show "strings_TrimSpace x = x" "strings_TrimSpace (CHR '' '' # x) = x" "strings_TrimSpace (CHR '' '' # x @ '' '') = x"
    using l[of "[]"] l[of "'' ''"] r by (simp_all add: strings_TrimSpace_def trim_left_space)
qed

definition elem_ok :: "string \<Rightarrow> bool" where
  "elem_ok x \<longleftrightarrow> x \<noteq> [] \<and> graphic (hd x) \<and> graphic (last x) \<and> CHR '','' \<notin> set x \<and> CHR ''}'' \<notin> set x"

lemma Split_comma_list:
  "xs \<noteq> [] \<Longrightarrow> \<forall>x \<in> set xs. elem_ok x \<Longrightarrow>
   map strings_TrimSpace (strings_Split (CHR '','') (strings_Join '', '' xs)) = xs"
proof (induction xs)
  case (Cons x xs)
  have x: "elem_ok x" using Cons.prems by simp
  show ?case
  proof (cases "xs = []")
    case True
    with x show ?thesis by (simp add: elem_ok_def Split_no_sep TrimSpace_blanks)
  next
    case False
    let ?r = "strings_Join '', '' xs"
    have IH: "map strings_TrimSpace (strings_Split (CHR '','') ?r) = xs" using Cons False by simp
    obtain y ys where ys: "strings_Split (CHR '','') ?r = y # ys" by (cases "strings_Split (CHR '','') ?r") auto
    obtain z zs where z: "xs = z # zs" using False by (cases xs) auto
    have "elem_ok z" using Cons.prems z by simp
    then have "y = z"
      using ys z by (cases zs) (auto simp: Split_no_sep Split_append elem_ok_def)
    then have "strings_TrimSpace (CHR '' '' # y) = strings_TrimSpace y"
      using \<open>elem_ok z\<close> by (simp add: elem_ok_def TrimSpace_blanks)
    moreover have "strings_Split (CHR '','') (x @ '', '' @ ?r) = x # (CHR '' '' # y) # ys"
      using x ys by (simp add: elem_ok_def Split_append)
    ultimately show ?thesis
      using False x IH ys by (simp add: Join_Cons elem_ok_def TrimSpace_blanks)
  qed
qed simp

lemma Join_ends:
  assumes "xs \<noteq> []" "\<forall>x \<in> set xs. elem_ok x"
  shows "strings_Join '', '' xs \<noteq> []" "graphic (hd (strings_Join '', '' xs))" "graphic (last (strings_Join '', '' xs))"
    "CHR ''}'' \<notin> set (strings_Join '', '' xs)"
  using assms
proof (induction xs)
  case (Cons x xs)
  { case 1 then show ?case by (cases "xs = []") (simp_all add: Join_Cons elem_ok_def) }
  { case 2 then show ?case by (cases "xs = []") (simp_all add: Join_Cons elem_ok_def) }
  { case 3 then show ?case using Cons by (cases "xs = []") (simp_all add: Join_Cons elem_ok_def) }
  { case 4 then show ?case using Cons by (cases "xs = []") (simp_all add: Join_Cons elem_ok_def) }
qed simp_all

lemma parseElementsLine_elements:
  assumes "CHR ''='' \<notin> set P" "xs \<noteq> []" "\<forall>x \<in> set xs. elem_ok x"
  shows "parseElementsLine (P @ ''elements = { '' @ strings_Join '', '' xs @ '' }'' @ r) = xs"
proof -
  let ?j = "strings_Join '', '' xs"
  note j = Join_ends[OF assms(2,3)]
  have idx: "strings_Index (P @ ''elements = {'' @ ('' '' @ ?j @ '' }'' @ r)) ''elements = {'' = Some (length P)"
    by (rule Index_marker[where c = "CHR ''=''" and k = 9]) (simp_all add: assms(1))
  have "strings_Index ((CHR '' '' # ?j @ '' '') @ ''}'' @ r) ''}'' = Some (length (CHR '' '' # ?j @ '' ''))"
    using j(4) by (intro Index_append) auto
  then have brace: "strings_Index (CHR '' '' # ?j @ '' }'' @ r) ''}'' = Some (length ?j + 2)" by simp
  have trim: "strings_TrimSpace (CHR '' '' # ?j @ '' '') = ?j" using j by (intro TrimSpace_blanks)
  have "filter (\<lambda>v. v \<noteq> []) (map strings_TrimSpace (strings_Split (CHR '','') ?j)) = xs"
    using Split_comma_list[OF assms(2,3)] assms(3) by (auto simp: elem_ok_def intro!: filter_True)
  then show ?thesis
    using idx brace trim j(1) by (simp add: parseElementsLine_def Let_def)
qed

lemma graphic_elem_ok: "s \<noteq> [] \<Longrightarrow> list_all graphic s \<Longrightarrow> CHR '','' \<notin> set s \<Longrightarrow> CHR ''}'' \<notin> set s \<Longrightarrow> elem_ok s"
  by (cases s) (auto simp: elem_ok_def list_all_iff)

lemma addr_String_plain: "addr_zone a = [] \<Longrightarrow> CHR '','' \<notin> set (addr_String a) \<and> CHR ''}'' \<notin> set (addr_String a)"
  using addr_String_set[of a "CHR '',''"] addr_String_set[of a "CHR ''}''"] by (auto simp: is_hex_def is_digit_def)

lemma itoa_int_plain: "0 \<le> n \<Longrightarrow> CHR '','' \<notin> set (itoa_int n) \<and> CHR ''}'' \<notin> set (itoa_int n) \<and> itoa_int n \<noteq> []"
  using itoa_digit_set[of n "CHR '',''"] itoa_digit_set[of n "CHR ''}''"] by (auto simp: itoa_int_def is_digit_def)

lemma parsed_elem_ok:
  assumes "CHR ''%'' \<notin> set t" "ek_parsed (parseElement t)"
  shows "elem_ok (ek_canon (parseElement t))"
proof -
  define k where "k = parseElement t"
  obtain a where a: "ek_addr k = Some a" using parseElement_addr[OF assms(2)] by (auto simp: k_def)
  have z: "addr_zone a = []" using parseElement_zone[OF assms(1)] a by (simp add: k_def)
  have wf: "key_wf k" by (simp add: k_def parseElement_key_wf)
  have host: "elem_ok (addr_String a)"
    using addr_String_graphic[OF z] addr_String_plain[OF z] by (intro graphic_elem_ok) auto
  have join: "elem_ok (x @ s @ y)" if "elem_ok x" "elem_ok y" "CHR '','' \<notin> set s" "CHR ''}'' \<notin> set s" for x y s
    using that by (auto simp: elem_ok_def)
  have num: "elem_ok (itoa_int n)" if "0 \<le> n" for n
    using itoa_int_graphic[OF that] itoa_int_plain[OF that] by (intro graphic_elem_ok) auto
  show ?thesis
    using wf a host unfolding k_def[symmetric]
    by (auto simp: key_wf_def elem_canon_def pfx_String_def compoundSep_def pfx_ok_def
        split: if_splits intro!: num join[where s = "'' . ''", simplified] join[where s = "''/''", simplified])
qed

section \<open>Properties\<close>

lemma line2_nonempty: "line2 s \<noteq> []" "[] \<noteq> line2 s"
  by (simp_all add: line2_def)

lemma renderPlainStampRule_nonempty: "renderPlainStampRule p f fwd \<noteq> Inr []"
  by (cases "p_Direction p") (simp_all add: renderPlainStampRule_def line2_nonempty)

lemma renderStampRule_nonempty:
  assumes "renderStampRule p f = Inr []"
  shows "fam_podCIDR f = []"
proof (rule ccontr)
  assume ne: "fam_podCIDR f \<noteq> []"
  have line: "rbind x (\<lambda>y. Inr (line2 (g y))) \<noteq> Inr []" for x :: "qos_class result" and g
    by (cases x) (simp_all add: line2_nonempty)
  note r = assms[unfolded renderStampRule_def if_not_P[OF ne]]
  show False
  proof (cases "lookupClass (p_Stamp p)")
    case (Inl e)
    with r show ?thesis by simp
  next
    case (Inr fwd)
    note r2 = r[unfolded Inr rbind_simps]
    show ?thesis
    proof (cases "isCompoundSet p")
      case True
      from r2[unfolded if_P[OF True]] show ?thesis by (rule notE[OF line])
    next
      case False
      from r2[unfolded if_not_P[OF False]] show ?thesis by (rule notE[OF renderPlainStampRule_nonempty])
    qed
  qed
qed

lemma renderDenyRules_nonempty: "renderDenyRules p f = [] \<Longrightarrow> hasPortsSet p \<and> fam_podCIDR f = []"
  by (auto simp: renderDenyRules_def split: if_splits)

lemma stamp_rules_each:
  assumes "stamp_rules ps f = Inr rules"
  shows "\<exists>all. list_all2 (\<lambda>p r. renderStampRule p f = Inr r) (orderByGroupThenCreatedAt ps) all \<and> rules = filter (\<lambda>r. r \<noteq> []) all \<and>
    ([] \<in> set all \<longrightarrow> fam_podCIDR f = [])"
proof -
  from assms obtain rs where r: "rmap (\<lambda>p. renderStampRule p f) (orderByGroupThenCreatedAt ps) = Inr rs" "rules = filter (\<lambda>r. r \<noteq> []) rs"
    unfolding stamp_rules_def rbind_Inr_iff by auto
  have "[] \<in> set rs \<longrightarrow> fam_podCIDR f = []" using rmap_member[OF r(1)] renderStampRule_nonempty by blast
  with r show ?thesis unfolding rmap_Inr by blast
qed

text \<open>
  C3: the position of a rule in a family chain follows from its kind alone. The rules of the chain are the drops of the deny policies, then
  one reply restore for every stamp policy with a reply stamp, if the family has a pod network, then the rules of the specific stamp policies,
  then those of the fallthrough ones, one for each policy in the order of the groups. Every drop comes before every accept, and the
  restores before any rule that could claim the reply. A deny policy has no drop only if it is restricted to ports and the family has no pod
  network, and a stamp policy has no rule only in that case.
\<close>

theorem renderFamilyChain_tiers:
  assumes "is_family f" "renderFamilyChain ps f = Inr lines"
  shows "\<exists>restores specifics fallthrs.
    filter is_rule lines = concat (map (\<lambda>p. renderDenyRules p f) (filter (\<lambda>p. p_Action p = ActionDeny) ps)) @ restores @
      filter (\<lambda>r. r \<noteq> []) specifics @ filter (\<lambda>r. r \<noteq> []) fallthrs \<and>
    list_all (\<lambda>p. list_all (suffix '' drop'') (renderDenyRules p f) \<and> (renderDenyRules p f = [] \<longrightarrow> hasPortsSet p \<and> fam_podCIDR f = [])) ps \<and>
    list_all2 (\<lambda>p r. renderReplyRestoreRule p = Inr r)
      (if fam_podCIDR f = [] then [] else filter (\<lambda>p. p_Action p = ActionStamp \<and> p_ReplyStamp p \<noteq> []) ps) restores \<and>
    list_all2 (\<lambda>p r. renderStampRule p f = Inr r) (orderByGroupThenCreatedAt (specific_stamps ps)) specifics \<and>
    list_all2 (\<lambda>p r. renderStampRule p f = Inr r) (orderByGroupThenCreatedAt (fallthrough_stamps ps)) fallthrs \<and>
    list_all (\<lambda>r. suffix '' accept'' r \<and> prefix (line2 ''ct direction reply'') r) restores \<and>
    list_all (\<lambda>r. suffix '' accept'' r \<or> r = [] \<and> fam_podCIDR f = []) (specifics @ fallthrs)"
proof -
  from chain_rules[OF assms] obtain restore specific fallthr where
    r: "restore_rules ps f = Inr restore" "stamp_rules (specific_stamps ps) f = Inr specific"
      "stamp_rules (fallthrough_stamps ps) f = Inr fallthr"
      "filter is_rule lines = deny_lines ps f @ restore @ specific @ fallthr" by blast
  from stamp_rules_each[OF r(2)] obtain specifics where
    sp: "list_all2 (\<lambda>p r. renderStampRule p f = Inr r) (orderByGroupThenCreatedAt (specific_stamps ps)) specifics"
      "specific = filter (\<lambda>r. r \<noteq> []) specifics" "[] \<in> set specifics \<longrightarrow> fam_podCIDR f = []" by blast
  from stamp_rules_each[OF r(3)] obtain fallthrs where
    ft: "list_all2 (\<lambda>p r. renderStampRule p f = Inr r) (orderByGroupThenCreatedAt (fallthrough_stamps ps)) fallthrs"
      "fallthr = filter (\<lambda>r. r \<noteq> []) fallthrs" "[] \<in> set fallthrs \<longrightarrow> fam_podCIDR f = []" by blast
  have "list_all (\<lambda>r. suffix '' accept'' r \<or> r = [] \<and> fam_podCIDR f = []) (specifics @ fallthrs)"
    using stamp_rules_accept[OF assms(1) r(2)] stamp_rules_accept[OF assms(1) r(3)] sp(2,3) ft(2,3) by (auto simp: list_all_iff)
  moreover have "list_all (\<lambda>p. list_all (suffix '' drop'') (renderDenyRules p f) \<and> (renderDenyRules p f = [] \<longrightarrow> hasPortsSet p \<and> fam_podCIDR f = [])) ps"
    using renderDenyRules_drop[OF assms(1)] renderDenyRules_nonempty by (auto simp: list_all_iff)
  moreover have "list_all (\<lambda>r. suffix '' accept'' r \<and> prefix (line2 ''ct direction reply'') r) restore"
    using restore_rules_accept[OF r(1)] by (auto simp: list_all_iff)
  moreover have "list_all2 (\<lambda>p r. renderReplyRestoreRule p = Inr r)
      (if fam_podCIDR f = [] then [] else filter (\<lambda>p. p_Action p = ActionStamp \<and> p_ReplyStamp p \<noteq> []) ps) restore"
    using r(1) by (auto simp: restore_rules_def rmap_Inr split: if_splits)
  ultimately show ?thesis using r(4) sp(1,2) ft(1,2) by blast
qed

definition example_deny :: policy where
  "example_deny = \<lparr>p_Name = ''bn-restricted'', p_Action = ActionDeny, p_Stamp = [], p_ReplyStamp = [],
     p_Direction = NoDirection, p_Ports = [], p_ManagedPorts = False, p_FromEntityWorld = False, p_CreatedAt = 0\<rparr>"

theorem renderFamilyChain_tiers_witness:
  "\<exists>lines d1 d2 r. renderFamilyChain [example_stamp ''a'' [''80''], example_deny] (familyV4 ''10.4.0.0/24'') = Inr lines \<and>
    filter is_rule lines = [d1, d2, r] \<and> suffix '' drop'' d1 \<and> suffix '' drop'' d2 \<and> suffix '' accept'' r"
proof -
  let ?ps = "[example_stamp ''a'' [''80''], example_deny]" and ?f = "familyV4 ''10.4.0.0/24''"
  have "policy_ok (example_stamp ''a'' [''80''])" "policy_ok example_deny" by code_simp+
  then obtain lines where ok: "renderFamilyChain ?ps ?f = Inr lines" using renderFamilyChain_total[of ?ps] by auto
  have l: "filter (\<lambda>p. p_Action p = ActionStamp \<and> p_ReplyStamp p \<noteq> []) ?ps = []" "fallthrough_stamps ?ps = []"
    "orderByGroupThenCreatedAt (specific_stamps ?ps) = [example_stamp ''a'' [''80'']]" "orderByGroupThenCreatedAt [] = []"
    "filter (\<lambda>p. p_Action p = ActionDeny) ?ps = [example_deny]" by code_simp+
  have d: "length (renderDenyRules example_deny ?f) = 2" "fam_podCIDR ?f \<noteq> []" by code_simp+
  then obtain d1 d2 where d12: "renderDenyRules example_deny ?f = [d1, d2]" by (auto simp: length_Suc_conv numeral_2_eq_2)
  from renderFamilyChain_tiers[OF is_family_simps(1) ok, unfolded l] d obtain r where
    "filter is_rule lines = [d1, d2] @ filter (\<lambda>r. r \<noteq> []) [r]" "suffix '' accept'' r" "list_all (suffix '' drop'') [d1, d2]"
    by (auto simp: d12 list_all2_Cons1 simp del: filter.simps)
  then show ?thesis using ok by (cases r) (auto simp: suffix_def)
qed

text \<open>
  The ordering within a tier computes the reference: the groups in the order of their first
  member, each group sorted by creation time, members created at the same time in input order. It
  is a permutation of the input, and reading off one group yields that group sorted.
\<close>

lemma orderByGroupThenCreatedAt_spec:
  "orderByGroupThenCreatedAt ps = concat (map (\<lambda>k. sort_by created_less (group_of ps k)) (first_keys ps)) \<and>
   mset (orderByGroupThenCreatedAt ps) = mset ps \<and>
   group_of (orderByGroupThenCreatedAt ps) k = sort_by created_less (group_of ps k) \<and>
   sorted_by created_less (group_of (orderByGroupThenCreatedAt ps) k)"
proof -
  have "group_of (sort_by created_less (group_of ps k')) k = (if k' = k then sort_by created_less (group_of ps k) else [])" for k'
    by (auto simp: group_of_def filter_empty_conv intro!: filter_True)
  then have "group_of (concat (map (\<lambda>k. sort_by created_less (group_of ps k)) ks)) k =
    (if k \<in> set ks then sort_by created_less (group_of ps k) else [])" if "distinct ks" for ks
    using that by (induction ks) (auto simp: group_of_def)
  note groups = this[OF first_keys_distinct]
  have empty_group: "k \<notin> groupKey ` set ps \<Longrightarrow> group_of ps k = []" for k
    by (auto simp: group_of_def filter_empty_conv)
  from groups have "group_of (orderByGroupThenCreatedAt ps) k = sort_by created_less (group_of ps k)"
    using empty_group[of k] by (simp add: order_eq set_first_keys)
  then show ?thesis using order_eq mset_order created.sorted_sort_by by simp
qed

lemma partition_empty: "partitionPodCIDRs pods acc = ([], []) \<longleftrightarrow> acc = ([], []) \<and> (\<forall>c \<in> set pods. c = [])"
  by (induction pods acc rule: partitionPodCIDRs.induct) (auto split: sum.splits bool.splits)

text \<open>
  C35: rendering a registry of validated policies fails exactly when no pod network is given although a policy needs one, that is, a stamp policy
  or a deny policy that is restricted to ports; the error is then of the kind \<open>IllegalArgument\<close>. In every other case it returns a document.
\<close>

theorem Render_total:
  assumes "list_all policy_ok ps"
  shows "if (\<exists>p \<in> set ps. p_Action p = ActionStamp \<or> p_Action p = ActionDeny \<and> hasPortsSet p) \<and> (\<forall>c \<in> set pods. c = [])
    then Render ps m pods = Inl (Err IllegalArgument ''pod CIDR is required to render a --stamp policy'')
    else \<exists>doc. Render ps m pods = Inr doc"
proof -
  have "\<forall>p \<in> set (sortedByName ps). policy_ok p" using assms by (simp add: sortedByName_def list_all_iff)
  note total = renderFamilyChain_total[OF this]
  obtain v4 v6 where pods: "partitionPodCIDRs pods ([], []) = (v4, v6)" by fastforce
  have needs: "needsPodCIDR ps \<longleftrightarrow> (\<exists>p \<in> set ps. p_Action p = ActionStamp \<or> p_Action p = ActionDeny \<and> hasPortsSet p)"
  proof -
    have "(case p_Action p of ActionStamp \<Rightarrow> True | ActionDeny \<Rightarrow> hasPortsSet p | OtherAction _ \<Rightarrow> False) \<longleftrightarrow>
      p_Action p = ActionStamp \<or> p_Action p = ActionDeny \<and> hasPortsSet p" for p by (cases "p_Action p") simp_all
    then show ?thesis by (simp only: needsPodCIDR_def list_ex_iff)
  qed
  have none: "v4 = [] \<and> v6 = [] \<longleftrightarrow> (\<forall>c \<in> set pods. c = [])" using partition_empty[of pods "([], [])"] pods by simp
  obtain a b where "renderFamilyChain (sortedByName ps) (familyV4 v4) = Inr a"
    "renderFamilyChain (sortedByName ps) (familyV6 v6) = Inr b" using total by blast
  then show ?thesis
    unfolding needs[symmetric] none[symmetric]
    by (cases "v4 = [] \<and> v6 = [] \<and> needsPodCIDR ps") (simp_all add: Render_def Let_def pods del: append_Cons)
qed

theorem Render_total_witness:
  "(\<exists>doc. Render [example_stamp ''a'' [''80''], example_deny] (\<lambda>_. []) [''10.4.0.0/24''] = Inr doc) \<and>
   (\<exists>doc. Render [example_deny] (\<lambda>_. []) [] = Inr doc) \<and>
   Render [example_stamp ''a'' [''80''], example_deny] (\<lambda>_. []) [[]] =
     Inl (Err IllegalArgument ''pod CIDR is required to render a --stamp policy'')"
proof -
  have ok: "list_all policy_ok [example_stamp ''a'' [''80''], example_deny]" "list_all policy_ok [example_deny]" by code_simp+
  have "p_Action (example_stamp ''a'' [''80'']) = ActionStamp" "p_Action example_deny = ActionDeny" "\<not> hasPortsSet example_deny" by code_simp+
  then show ?thesis
    using Render_total[OF ok(1), of "[''10.4.0.0/24'']" "\<lambda>_. []"] Render_total[OF ok(2), of "[]" "\<lambda>_. []"]
      Render_total[OF ok(1), of "[[]]" "\<lambda>_. []"] by simp
qed

text \<open>
  Every set that a rule refers to is declared in the same document, so \<open>nft -f\<close> finds it. This
  needs that no policy combines \<open>--reply-stamp\<close> with \<open>--from-entity world\<close>, which \<open>Validate\<close>
  does not rule out.
\<close>

lemma rule_sets_declared:
  assumes "list_all policy_ok ps" "list_all (\<lambda>p. p_ReplyStamp p \<noteq> [] \<longrightarrow> hasCIDRSet p) ps"
    and "is_family f" "pod_ok (fam_podCIDR f)" "renderFamilyChain ps f = Inr lines"
    and "r \<in> set lines" "is_rule r"
  shows "set (refs r) \<subseteq> set (map decl_name (renderSetDecls ps m))"
proof -
  have own: "set (refs r) \<subseteq> set (map decl_name (renderSetDecls ps m))"
    if "p \<in> set ps" "set (refs r) \<subseteq> own_sets p" for p
    using that assms(1) own_sets_declared[of p m] by (fastforce simp: renderSetDecls_def list_all_iff)
  from chain_rules[OF assms(3,5)] obtain restore specific fallthr where
    rs: "restore_rules ps f = Inr restore" "stamp_rules (specific_stamps ps) f = Inr specific"
      "stamp_rules (fallthrough_stamps ps) f = Inr fallthr"
      "filter is_rule lines = deny_lines ps f @ restore @ specific @ fallthr" by blast
  have "r \<in> set (deny_lines ps f @ restore @ specific @ fallthr)" using assms(6,7) rs(4) unfolding rs(4)[symmetric] by simp
  then consider "r \<in> set (deny_lines ps f)" | "r \<in> set restore" | "r \<in> set specific" | "r \<in> set fallthr" by auto
  then show ?thesis
  proof cases
    case 1
    then obtain p where "p \<in> set ps" "p_Action p = ActionDeny" "r \<in> set (renderDenyRules p f)" by auto
    then show ?thesis using own refs_deny[of p f r] assms(1,3,4) by (auto simp: list_all_iff)
  next
    case 2
    then have "refs r = []" using rs(1) refs_restore by (auto simp: restore_rules_def split: if_splits dest: rmap_member)
    then show ?thesis by simp
  next
    case 3
    then obtain p where "p \<in> set ps" "renderStampRule p f = Inr r"
      using rs(2) by (auto simp: stamp_rules_def rbind_Inr_iff dest!: rmap_member)
    then show ?thesis using own refs_stamp[of p f r] assms(1,2,3,4) by (auto simp: list_all_iff)
  next
    case 4
    then obtain p where "p \<in> set ps" "renderStampRule p f = Inr r"
      using rs(3) by (auto simp: stamp_rules_def rbind_Inr_iff dest!: rmap_member)
    then show ?thesis using own refs_stamp[of p f r] assms(1,2,3,4) by (auto simp: list_all_iff)
  qed
qed

text \<open>
  The document is a function of what it describes: it does not depend on the order in which the
  policies are listed, nor on the order, spelling or multiplicity of the elements supplied for a
  set. The skip of an unchanged write rests on this.
\<close>

lemma Render_deterministic:
  assumes "distinct (map p_Name ps)" "mset ps = mset qs"
    and "\<forall>s. zone_free (m s) \<and> zone_free (m' s) \<and>
      (\<lambda>t. ek_canon (parseElement t)) ` set (m s) = (\<lambda>t. ek_canon (parseElement t)) ` set (m' s)"
  shows "Render ps m pods = Render qs m' pods"
proof -
  have "sortedByName ps = sortedByName qs" by (rule sortedByName_cong[OF assms(1,2)])
  moreover have "set ps = set qs" using assms(2) by (metis set_mset_mset)
  then have "needsPodCIDR ps = needsPodCIDR qs" by (rule needsPodCIDR_cong)
  moreover have "setDecl n t (m s) = setDecl n t (m' s)" for n t s
    using assms(3) by (intro setDecl_cong) auto
  then have "renderSetDecl m = renderSetDecl m'"
    by (intro ext) (simp add: renderSetDecl_def Let_def)
  then have "renderSetDecls xs m = renderSetDecls xs m'" for xs
    by (simp add: renderSetDecls_def)
  ultimately show ?thesis
    unfolding Render_def Let_def by (cases "partitionPodCIDRs pods ([], [])") (simp only: prod.case)
qed

text \<open>
  What is written is what is read back: the element reader, applied to a set declaration of the
  document, returns exactly the canonical membership, and nothing for a declaration without
  elements.
\<close>

lemma parseElementsLine_setDecl:
  assumes "CHR ''='' \<notin> set n" "CHR ''='' \<notin> set t"
    and "zone_free es" "list_all (\<lambda>e. ek_parsed (parseElement e)) es"
  shows "parseElementsLine (setDecl n t es) = CanonicalizeElements es"
proof (cases "CanonicalizeElements es = []")
  case True
  have "CHR ''='' \<notin> set (setDecl n t es)" using assms(1,2) True by (simp add: setDecl_def line1_def tab_def)
  then have "\<not> strings_Contains (setDecl n t es) ''elements = {''" by (auto simp: Contains_iff)
  with True show ?thesis by (simp add: parseElementsLine_def strings_Contains_def)
next
  case False
  have "\<forall>x \<in> set (CanonicalizeElements es). elem_ok x"
    using assms(3,4) parsed_elem_ok by (auto simp: set_Canonicalize list_all_iff)
  moreover have "setDecl n t es = line1 (''set '' @ n @ '' { type '' @ t @ ''; '') @ ''elements = { '' @
      strings_Join '', '' (CanonicalizeElements es) @ '' }'' @ ''; }''"
    using False by (simp add: setDecl_def line1_def)
  moreover have "CHR ''='' \<notin> set (line1 (''set '' @ n @ '' { type '' @ t @ ''; ''))"
    using assms(1,2) by (simp add: line1_def tab_def)
  ultimately show ?thesis using parseElementsLine_elements False by metis
qed

end
