(* ===== verification/PolicyManager.thy ===== *)
theory PolicyManager
  imports PolicyRender
begin

text \<open>
  \<open>internal/network/policy/manager.go\<close>, \<open>registry.go\<close>, \<open>render_weaver.go\<close> and \<open>nft.go\<close>: the
  operations of \<open>network policy\<close> and the write path of the daemon.

  The state holds the registry directory (file stem and decoded content, in directory order), the
  persisted document and the kernel. The kernel is reached through the \<open>Runner\<close> interface only,
  the record \<open>runner\<close> of its methods; \<open>exec_runner\<close> is the implementation that executes \<open>nft\<close>,
  whose behaviour is a parameter. \<open>pm_env\<close> holds the outcomes of the operating system calls of
  one operation: a call of a kind either succeeds or fails throughout the operation. A write can
  fail after the rename, with the new content in place. A blocking lock acquisition that waits is
  an acquisition; the state is the one at that moment.
\<close>

section \<open>The kernel interface\<close>

record 'k runner =
  r_Apply :: "string \<Rightarrow> ('k, unit) action"
  r_AddElements :: "string \<Rightarrow> string list \<Rightarrow> ('k, unit) action"
  r_DeleteElements :: "string \<Rightarrow> string list \<Rightarrow> ('k, unit) action"
  r_SetElements :: "string \<Rightarrow> string list \<Rightarrow> ('k, unit) action"
  r_ListElements :: "string \<Rightarrow> 'k \<Rightarrow> string list result"
  r_List :: "'k \<Rightarrow> string result"
  r_Delete :: "('k, unit) action"
  r_Exists :: "'k \<Rightarrow> bool result"

record proc_result =
  pr_ok :: bool
  pr_stdout :: string
  pr_stderr :: string

type_synonym 'k nft_bin = "string list \<Rightarrow> string \<Rightarrow> 'k \<Rightarrow> proc_result \<times> 'k"

definition nft_run :: "'k nft_bin \<Rightarrow> string list \<Rightarrow> string \<Rightarrow> string \<Rightarrow> ('k, unit) action" where
  "nft_run nft args stdin msg k = (case nft args stdin k of (r, k') \<Rightarrow>
     (if pr_ok r then Inr () else Inl (Err ExternalError msg), k'))"

definition tableArgs :: "string list" where
  "tableArgs = [''inet'', ''weaver-workload-policy'']"

definition element_spec :: "string \<Rightarrow> string \<Rightarrow> string list \<Rightarrow> string" where
  "element_spec verb s elements =
     verb @ '' element '' @ TableName @ '' '' @ s @ '' { '' @ strings_Join '', '' elements @ '' }'' @ [nl]"

definition set_spec :: "string \<Rightarrow> string list \<Rightarrow> string" where
  "set_spec s elements = ''flush set '' @ TableName @ '' '' @ s @ [nl] @
     (if 0 < length elements then element_spec ''add'' s elements else [])"

definition exec_ListElements :: "'k nft_bin \<Rightarrow> string \<Rightarrow> 'k \<Rightarrow> string list result" where
  "exec_ListElements nft s k =
     (let r = fst (nft ([''list'', ''set''] @ tableArgs @ [s]) [] k) in
      if pr_ok r then Inr (parseElementsLine (pr_stdout r))
      else if isSetNotExistError (pr_stderr r) then Inr []
      else Inl (Err ExternalError ''nft list set failed''))"

definition exec_runner :: "'k nft_bin \<Rightarrow> 'k runner" where
  "exec_runner nft =
     \<lparr>r_Apply = (\<lambda>doc. nft_run nft [''-f'', ''-''] doc ''nft -f failed''),
      r_AddElements = (\<lambda>s es. if length es = 0 then sret ()
         else nft_run nft [''-f'', ''-''] (element_spec ''add'' s es) ''nft add element failed''),
      r_DeleteElements = (\<lambda>s es. if length es = 0 then sret ()
         else nft_run nft [''-f'', ''-''] (element_spec ''delete'' s es) ''nft delete element failed''),
      r_SetElements = (\<lambda>s es. nft_run nft [''-f'', ''-''] (set_spec s es) ''nft set elements failed''),
      r_ListElements = exec_ListElements nft,
      r_List = (\<lambda>k. let r = fst (nft ([''list'', ''table''] @ tableArgs) [] k) in
         if pr_ok r then Inr (pr_stdout r) else Inl (Err ExternalError ''nft list table failed'')),
      r_Delete = nft_run nft ([''delete'', ''table''] @ tableArgs) [] ''nft delete table failed'',
      r_Exists = (\<lambda>k. Inr (pr_ok (fst (nft ([''list'', ''table''] @ tableArgs) [] k))))\<rparr>"

section \<open>Files and locks\<close>

datatype lock_state = LockFree | LockHeld | LockFails

record pm_env =
  e_ReadDir :: bool
  e_ReadEntry :: "string \<Rightarrow> bool"
  e_WriteEntry :: file_write
  e_RemoveEntry :: bool
  e_ReadArtifact :: bool
  e_WriteArtifact :: file_write
  e_RemoveArtifact :: bool
  e_Lock :: lock_state
  e_Service :: bool
  e_Now :: int

datatype entry = Decoded policy | Undecodable

record 'k pm_state =
  pm_registry :: "(string \<times> entry) list"
  pm_artifact :: "string option"
  pm_kernel :: 'k

type_synonym ('k, 'a) pm_action = "('k pm_state, 'a) action"

definition kern :: "('k, 'a) action \<Rightarrow> ('k, 'a) pm_action" where
  "kern f s = (case f (pm_kernel s) of (r, k') \<Rightarrow> (r, s\<lparr>pm_kernel := k'\<rparr>))"

text \<open>\<open>atomicWriteFile\<close>: the result and whether the new content is in place.\<close>

definition atomicWriteFile :: "file_write \<Rightarrow> ('s \<Rightarrow> 's) \<Rightarrow> ('s, unit) action" where
  "atomicWriteFile w upd s = (case w of
     Written \<Rightarrow> (Inr (), upd s)
   | NotWritten \<Rightarrow> (Inl (Err ExternalError ''failed to write temp file''), s)
   | WrittenUnsynced \<Rightarrow> (Inl (Err ExternalError ''failed to fsync directory''), upd s))"

definition readArtifact :: "pm_env \<Rightarrow> 'k pm_state \<Rightarrow> string option" where
  "readArtifact env s = (if e_ReadArtifact env then pm_artifact s else None)"

definition writeArtifact :: "pm_env \<Rightarrow> string \<Rightarrow> ('k, unit) pm_action" where
  "writeArtifact env doc = atomicWriteFile (e_WriteArtifact env) (\<lambda>s. s\<lparr>pm_artifact := Some doc\<rparr>)"

definition writeEntry :: "pm_env \<Rightarrow> policy \<Rightarrow> ('k, unit) pm_action" where
  "writeEntry env p = atomicWriteFile (e_WriteEntry env)
     (\<lambda>s. s\<lparr>pm_registry := al_put (p_Name p) (Decoded p) (pm_registry s)\<rparr>)"

definition Exists :: "string \<Rightarrow> 'k pm_state \<Rightarrow> bool" where
  "Exists name s \<longleftrightarrow> map_of (pm_registry s) name \<noteq> None"

definition readEntry :: "pm_env \<Rightarrow> (string \<times> entry) list \<Rightarrow> string \<Rightarrow> policy option result" where
  "readEntry env reg name = (case map_of reg name of
     None \<Rightarrow> Inr None
   | Some ent \<Rightarrow>
       if \<not> e_ReadEntry env name then Inl (Err ExternalError ''failed to read policy registry'')
       else (case ent of
         Undecodable \<Rightarrow> Inl (Err IllegalFormat ''failed to parse policy registry'')
       | Decoded p \<Rightarrow> Inr (Some p)))"

definition loadAll :: "pm_env \<Rightarrow> 'k pm_state \<Rightarrow> policy list result" where
  "loadAll env s =
     (if \<not> e_ReadDir env then Inl (Err ExternalError ''failed to read policy registry dir'')
      else rbind (rmap (readEntry env (pm_registry s)) (sort_by (<) (map fst (pm_registry s)))) (\<lambda>ps.
        Inr (List.map_filter id ps)))"

definition IsRegistryEmpty :: "pm_env \<Rightarrow> 'k pm_state \<Rightarrow> bool result" where
  "IsRegistryEmpty env s = rbind (loadAll env s) (\<lambda>ps. Inr (length ps = 0))"

definition withLock :: "pm_env \<Rightarrow> ('k, 'a) pm_action \<Rightarrow> ('k, 'a) pm_action" where
  "withLock env fn = (if e_Lock env = LockFails then sfail (Err ExternalError ''failed to acquire lock'') else fn)"

definition withLockNB :: "pm_env \<Rightarrow> ('k, unit) pm_action \<Rightarrow> ('k, bool) pm_action" where
  "withLockNB env fn = (case e_Lock env of
     LockFails \<Rightarrow> sfail (Err ExternalError ''failed to acquire lock'')
   | LockHeld \<Rightarrow> sret False
   | LockFree \<Rightarrow> sbind fn (\<lambda>_. sret True))"

section \<open>Names of sets\<close>

definition findByName :: "policy list \<Rightarrow> string \<Rightarrow> policy option" where
  "findByName policies name = find (\<lambda>p. p_Name p = name) policies"

definition upsert :: "policy list \<Rightarrow> policy \<Rightarrow> policy list" where
  "upsert policies p = sort_by name_less (filter (\<lambda>q. p_Name q \<noteq> p_Name p) policies @ [p])"

definition cidrSetNames :: "policy \<Rightarrow> string list" where
  "cidrSetNames p = (if \<not> hasCIDRSet p then [] else [p_Name p, V6SetName (p_Name p)])"

definition daemonSetNames :: "policy \<Rightarrow> string list" where
  "daemonSetNames p = cidrSetNames p @
     (if p_ManagedPorts p \<and> length (p_Ports p) = 0 then [PortsSetName (p_Name p)] else [])"

definition snapshotMembership :: "'k runner \<Rightarrow> policy list \<Rightarrow> 'k \<Rightarrow> (string \<Rightarrow> string list) result" where
  "snapshotMembership R policies k =
     (let names = concat (map daemonSetNames policies) in
      rbind (rmap (\<lambda>n. map_err (decorate ''failed to snapshot live membership'') (r_ListElements R n k)) names) (\<lambda>ess.
        Inr (\<lambda>s. case map_of (zip names ess) s of None \<Rightarrow> [] | Some es \<Rightarrow> es)))"

definition liveMembership :: "'k runner \<Rightarrow> policy \<Rightarrow> 'k \<Rightarrow> string list result" where
  "liveMembership R p k =
     rbind (rmap (\<lambda>n. map_err (decorate ''failed to read live membership'') (r_ListElements R n k)) (cidrSetNames p)) (\<lambda>ess.
       Inr (concat ess))"

text \<open>The loop that validates loaded entries; \<open>Validate\<close> updates the entry it is called on.\<close>

definition validateEntries :: "(policy \<Rightarrow> bool) \<Rightarrow> policy list \<Rightarrow> policy list result" where
  "validateEntries skip policies = rmap (\<lambda>lp.
     if skip lp then Inr lp
     else case Validate [] lp of
       (Inl e, _) \<Rightarrow> Inl (wrap IllegalFormat ''corrupt policy registry entry'' e)
     | (Inr _, lp') \<Rightarrow> Inr lp') policies"

section \<open>Persisting membership\<close>

definition renderAndWriteArtifact :: "'k runner \<Rightarrow> pm_env \<Rightarrow> ('k, unit) pm_action" where
  "renderAndWriteArtifact R env =
     sbind (sread (loadAll env)) (\<lambda>policies.
     if length policies = 0 then sret ()
     else sbind (sread (\<lambda>s. snapshotMembership R policies (pm_kernel s))) (\<lambda>membership.
       (\<lambda>s. let existing = readArtifact env s;
                pods0 = (case existing of None \<Rightarrow> [] | Some d \<Rightarrow> ExtractPodCIDRs d);
                pods = (if length pods0 = 0
                        then (case r_List R (pm_kernel s) of Inl _ \<Rightarrow> [] | Inr live \<Rightarrow> ExtractPodCIDRs live)
                        else pods0)
            in (case Render policies membership pods of
                  Inl e \<Rightarrow> (Inl (decorate ''re-rendering failed'' e), s)
                | Inr doc \<Rightarrow>
                    if existing = Some doc then (Inr (), s)
                    else smap_err (decorate ''persisting failed'') (writeArtifact env doc) s))))"

definition persistMembership :: "'k runner \<Rightarrow> pm_env \<Rightarrow> ('k, unit) pm_action" where
  "persistMembership R env s = (Inr (), snd (renderAndWriteArtifact R env s))"

section \<open>Create\<close>

definition recoverPodCIDRs :: "pm_env \<Rightarrow> string list \<Rightarrow> 'k pm_state \<Rightarrow> string list" where
  "recoverPodCIDRs env podCIDRs s = (let pods = nonEmptyStrings podCIDRs in
     if length pods = 0 then (case readArtifact env s of None \<Rightarrow> [] | Some d \<Rightarrow> ExtractPodCIDRs d) else pods)"

text \<open>The membership the document is rendered with: the snapshot, with the sets of the target
  replaced.\<close>

definition desiredMembership :: "(string \<Rightarrow> string list) \<Rightarrow> policy \<Rightarrow> string list \<Rightarrow> string \<Rightarrow> string list" where
  "desiredMembership snapshot target cidrs =
     (if hasCIDRSet target then
        (case setElementsByFamily target cidrs of (v4, v6) \<Rightarrow>
           (snapshot(p_Name target := v4))(V6SetName (p_Name target) := v6))
      else snapshot)"

text \<open>From the choice of the target on: snapshot, render, apply, then write both files.\<close>

definition createApply :: "'k runner \<Rightarrow> pm_env \<Rightarrow> string list \<Rightarrow> policy list \<Rightarrow> policy \<Rightarrow> string list \<Rightarrow> ('k, bool) pm_action" where
  "createApply R env pods policies target cidrs =
     sbind (sread (\<lambda>s. snapshotMembership R policies (pm_kernel s))) (\<lambda>snapshot.
     sbind (slift (Render (upsert policies target) (desiredMembership snapshot target cidrs) pods)) (\<lambda>doc.
     sbind (kern (r_Apply R doc)) (\<lambda>_.
     sbind (smap_err (decorate ''chain applied to the kernel but persisting the policy registry failed'') (writeEntry env target)) (\<lambda>_.
     sbind (smap_err (decorate ''chain applied to the kernel but persisting the document failed'') (writeArtifact env doc)) (\<lambda>_.
     if e_Service env then sret True
     else sfail (Err ExternalError ''chain applied and persisted but enabling the service failed''))))))"

definition createLocked :: "'k runner \<Rightarrow> pm_env \<Rightarrow> string list \<Rightarrow> policy \<Rightarrow> string list \<Rightarrow> bool \<Rightarrow> ('k, bool) pm_action" where
  "createLocked R env pods p cidrs force =
     sbind (sread (loadAll env)) (\<lambda>policies0.
     sbind (slift (validateEntries (\<lambda>lp. p_Name lp = p_Name p) policies0)) (\<lambda>policies.
     sbind (slift (checkNoOverlap policies p)) (\<lambda>_.
     case findByName policies (p_Name p) of
       None \<Rightarrow> createApply R env pods policies
                 (if p_CreatedAt p = 0 then p\<lparr>p_CreatedAt := e_Now env\<rparr> else p) cidrs
     | Some existing \<Rightarrow>
         if force then createApply R env pods policies (p\<lparr>p_CreatedAt := p_CreatedAt existing\<rparr>) cidrs
         else sbind (sread (\<lambda>s. r_Exists R (pm_kernel s))) (\<lambda>tableExists.
           if tableExists then sret False
           else (case Validate [] existing of
             (Inl e, _) \<Rightarrow> sfail (wrap IllegalFormat ''corrupt policy registry entry'' e)
           | (Inr _, target) \<Rightarrow>
               createApply R env pods policies target [])))))"

definition Create :: "'k runner \<Rightarrow> pm_env \<Rightarrow> policy \<Rightarrow> string list \<Rightarrow> string list \<Rightarrow> bool \<Rightarrow> ('k, bool) pm_action" where
  "Create R env p0 cidrs podCIDRs force s = (case Validate cidrs p0 of
     (Inl e, _) \<Rightarrow> (Inl e, s)
   | (Inr _, p) \<Rightarrow> (case rejectContainment cidrs [] of
       Inl e \<Rightarrow> (Inl e, s)
     | Inr _ \<Rightarrow> withLock env (createLocked R env (recoverPodCIDRs env podCIDRs s) p cidrs force) s))"

section \<open>Element verbs\<close>

definition requirePolicyWithCIDRSet :: "pm_env \<Rightarrow> string \<Rightarrow> 'k pm_state \<Rightarrow> policy result" where
  "requirePolicyWithCIDRSet env name s = rbind (readEntry env (pm_registry s) name) (\<lambda>po. case po of
     None \<Rightarrow> Inl (Err IllegalState ''policy not found'')
   | Some p \<Rightarrow> if \<not> hasCIDRSet p then Inl (Err IllegalArgument ''policy has no CIDR set'') else Inr p)"

definition requirePolicyWithPortsSet :: "pm_env \<Rightarrow> string \<Rightarrow> 'k pm_state \<Rightarrow> policy result" where
  "requirePolicyWithPortsSet env name s = rbind (readEntry env (pm_registry s) name) (\<lambda>po. case po of
     None \<Rightarrow> Inl (Err IllegalState ''policy not found'')
   | Some p \<Rightarrow> if \<not> p_ManagedPorts p then Inl (Err IllegalArgument ''policy has no daemon-managed ports set'') else Inr p)"

definition requireTableExists :: "'k runner \<Rightarrow> 'k pm_state \<Rightarrow> unit result" where
  "requireTableExists R s = rbind (r_Exists R (pm_kernel s)) (\<lambda>ex.
     if ex then Inr () else Inl (Err IllegalState ''policy table not found''))"

definition Add :: "'k runner \<Rightarrow> pm_env \<Rightarrow> string \<Rightarrow> string list \<Rightarrow> ('k, unit) pm_action" where
  "Add R env name cidrs =
     (if length cidrs = 0 then sfail (Err IllegalArgument ''at least one --cidr is required'')
      else withLock env (
        sbind (sread (requirePolicyWithCIDRSet env name)) (\<lambda>p.
        sbind (slift (validateCIDRs p cidrs)) (\<lambda>_.
        sbind (sread (requireTableExists R)) (\<lambda>_.
        sbind (sread (\<lambda>s. liveMembership R p (pm_kernel s))) (\<lambda>live.
        sbind (slift (rejectContainment cidrs live)) (\<lambda>_.
        case setElementsByFamily p cidrs of (v4, v6) \<Rightarrow>
        sbind (kern (r_AddElements R name v4)) (\<lambda>_.
        sbind (kern (r_AddElements R (V6SetName name) v6)) (\<lambda>_.
        persistMembership R env)))))))))"

definition Remove :: "'k runner \<Rightarrow> pm_env \<Rightarrow> string \<Rightarrow> string list \<Rightarrow> ('k, unit) pm_action" where
  "Remove R env name cidrs =
     (if length cidrs = 0 then sfail (Err IllegalArgument ''at least one --cidr is required'')
      else withLock env (
        sbind (sread (requirePolicyWithCIDRSet env name)) (\<lambda>p.
        sbind (slift (validateCIDRs p cidrs)) (\<lambda>_.
        sbind (sread (requireTableExists R)) (\<lambda>_.
        case setElementsByFamily p cidrs of (v4, v6) \<Rightarrow>
        sbind (sread (\<lambda>s. liveMembership R p (pm_kernel s))) (\<lambda>live.
        sbind (slift (rejectMissingMembers (v4 @ v6) live)) (\<lambda>_.
        sbind (kern (r_DeleteElements R name v4)) (\<lambda>_.
        sbind (kern (r_DeleteElements R (V6SetName name) v6)) (\<lambda>_.
        persistMembership R env)))))))))"

datatype membershipSource = authoredMembership | derivedMembership

definition applySet :: "'k runner \<Rightarrow> pm_env \<Rightarrow> string \<Rightarrow> string list \<Rightarrow> membershipSource \<Rightarrow> ('k, unit) pm_action" where
  "applySet R env name cidrs0 src =
     sbind (sread (requirePolicyWithCIDRSet env name)) (\<lambda>p.
     sbind (slift (validateCIDRs p cidrs0)) (\<lambda>_.
     sbind (slift (case src of
         authoredMembership \<Rightarrow> rbind (rejectContainment cidrs0 []) (\<lambda>_. Inr cidrs0)
       | derivedMembership \<Rightarrow>
           (let kept = PruneContainedCIDRs cidrs0 in Inr (if length kept \<noteq> length cidrs0 then kept else cidrs0)))) (\<lambda>cidrs.
     sbind (sread (requireTableExists R)) (\<lambda>_.
     case setElementsByFamily p cidrs of (v4, v6) \<Rightarrow>
     sbind (kern (r_SetElements R name v4)) (\<lambda>_.
     kern (r_SetElements R (V6SetName name) v6))))))"

definition Set :: "'k runner \<Rightarrow> pm_env \<Rightarrow> string \<Rightarrow> string list \<Rightarrow> ('k, unit) pm_action" where
  "Set R env name cidrs = withLock env (
     sbind (applySet R env name cidrs authoredMembership) (\<lambda>_. persistMembership R env))"

definition applyPortsSet :: "'k runner \<Rightarrow> pm_env \<Rightarrow> string \<Rightarrow> string list \<Rightarrow> ('k, unit) pm_action" where
  "applyPortsSet R env name ports =
     sbind (sread (requirePolicyWithPortsSet env name)) (\<lambda>p.
     sbind (slift (check_all (\<lambda>port. map_err (wrap IllegalArgument ''invalid listener port'') (ValidatePort port)) ports)) (\<lambda>_.
     sbind (sread (requireTableExists R)) (\<lambda>_.
     kern (r_SetElements R (PortsSetName (p_Name p)) ports))))"

definition sortedMapKeys :: "(string \<times> string list) list \<Rightarrow> string list" where
  "sortedMapKeys m = sort_by (<) (map fst m)"

definition at_key :: "(string \<times> string list) list \<Rightarrow> string \<Rightarrow> string list" where
  "at_key m k = (case map_of m k of None \<Rightarrow> [] | Some v \<Rightarrow> v)"

definition ApplyMembership :: "'k runner \<Rightarrow> pm_env \<Rightarrow> (string \<times> string list) list \<Rightarrow> ('k, bool) pm_action" where
  "ApplyMembership R env desired =
     (if length desired = 0 then sret True
      else withLockNB env (
        sbind (seach (\<lambda>name. applySet R env name (at_key desired name) derivedMembership) (sortedMapKeys desired)) (\<lambda>_.
        persistMembership R env)))"

definition ApplySets :: "'k runner \<Rightarrow> pm_env \<Rightarrow> (string \<times> string list) list \<Rightarrow> (string \<times> string list) list \<Rightarrow> ('k, bool) pm_action" where
  "ApplySets R env membership ports =
     withLockNB env (
        sbind (seach (\<lambda>name. applySet R env name (at_key membership name) derivedMembership) (sortedMapKeys membership)) (\<lambda>_.
        sbind (seach (\<lambda>name. applyPortsSet R env name (at_key ports name)) (sortedMapKeys ports)) (\<lambda>_.
        persistMembership R env)))"

definition ApplyPorts :: "'k runner \<Rightarrow> pm_env \<Rightarrow> (string \<times> string list) list \<Rightarrow> ('k, bool) pm_action" where
  "ApplyPorts R env desired =
     (if length desired = 0 then sret True
      else withLockNB env (
        sbind (seach (\<lambda>name. applyPortsSet R env name (at_key desired name)) (sortedMapKeys desired)) (\<lambda>_.
        persistMembership R env)))"

section \<open>Delete\<close>

definition removeArtifact :: "pm_env \<Rightarrow> ('k, unit) pm_action" where
  "removeArtifact env s = (if pm_artifact s = None then (Inr (), s)
     else if e_RemoveArtifact env then (Inr (), s\<lparr>pm_artifact := None\<rparr>)
     else (Inl (Err ExternalError ''failed to remove the persisted file''), s))"

definition removeEntry :: "pm_env \<Rightarrow> string \<Rightarrow> ('k, unit) pm_action" where
  "removeEntry env name s = (if map_of (pm_registry s) name = None then (Inr (), s)
     else if e_RemoveEntry env then (Inr (), s\<lparr>pm_registry := al_del name (pm_registry s)\<rparr>)
     else (Inl (Err ExternalError ''failed to remove registry file''), s))"

definition Delete :: "'k runner \<Rightarrow> pm_env \<Rightarrow> string \<Rightarrow> ('k, unit) pm_action" where
  "Delete R env name = withLock env (
     sbind (sread (loadAll env)) (\<lambda>policies.
     if findByName policies name = None then sfail (Err IllegalState ''policy not found'')
     else sbind (slift (validateEntries (\<lambda>_. False) (filter (\<lambda>p. p_Name p \<noteq> name) policies))) (\<lambda>remaining.
       if length remaining = 0 then
         sbind (sread (\<lambda>s. map_err (decorate ''failed to check the table'') (r_Exists R (pm_kernel s)))) (\<lambda>ex.
         sbind (if ex then smap_err (decorate ''failed to delete the table'') (kern (r_Delete R)) else sret ()) (\<lambda>_.
         sbind (removeArtifact env) (\<lambda>_.
         removeEntry env name)))
       else
         sbind (sread (\<lambda>s. Inr (if needsPodCIDR remaining
             then (case readArtifact env s of None \<Rightarrow> [] | Some d \<Rightarrow> ExtractPodCIDRs d) else []))) (\<lambda>pods.
         sbind (sread (\<lambda>s. snapshotMembership R remaining (pm_kernel s))) (\<lambda>snapshot.
         sbind (slift (Render remaining snapshot pods)) (\<lambda>doc.
         sbind (kern (r_Apply R doc)) (\<lambda>_.
         sbind (smap_err (decorate ''chain re-rendered but persisting failed'') (writeArtifact env doc)) (\<lambda>_.
         removeEntry env name))))))))"

section \<open>Provisioning without a kernel\<close>

definition RenderWeaverNft :: "pm_env \<Rightarrow> string list \<Rightarrow> ('k, unit) pm_action" where
  "RenderWeaverNft env podCIDRs0 =
     sbind (sread (loadAll env)) (\<lambda>policies0.
     if length policies0 = 0 then removeArtifact env
     else sbind (slift (validateEntries (\<lambda>_. False) policies0)) (\<lambda>policies.
       (\<lambda>s. let pods0 = nonEmptyStrings podCIDRs0;
                pods = (if length pods0 = 0 \<and> needsPodCIDR policies
                        then (case readArtifact env s of None \<Rightarrow> [] | Some d \<Rightarrow> ExtractPodCIDRs d) else pods0)
            in (case Render policies (\<lambda>_. []) pods of
                  Inl e \<Rightarrow> (Inl (decorate ''failed to render'' e), s)
                | Inr doc \<Rightarrow> if readArtifact env s = Some doc then (Inr (), s) else writeArtifact env doc s))))"

section \<open>What an operation may change\<close>

lemma keeps_kern [keeps_intros]: "keeps pm_registry (kern f)" "keeps pm_artifact (kern f)"
  by (simp_all add: keeps_def kern_def split: prod.split)

lemma keeps_writeArtifact [keeps_intros]: "keeps pm_registry (writeArtifact env doc)" "keeps pm_kernel (writeArtifact env doc)"
  by (simp_all add: keeps_def writeArtifact_def atomicWriteFile_def split: file_write.split)

lemma keeps_writeEntry [keeps_intros]: "keeps pm_artifact (writeEntry env p)" "keeps pm_kernel (writeEntry env p)"
  by (simp_all add: keeps_def writeEntry_def atomicWriteFile_def split: file_write.split)

lemma keeps_removeArtifact [keeps_intros]: "keeps pm_registry (removeArtifact env)" "keeps pm_kernel (removeArtifact env)"
  by (simp_all add: keeps_def removeArtifact_def)

lemma keeps_removeEntry [keeps_intros]: "keeps pm_artifact (removeEntry env n)" "keeps pm_kernel (removeEntry env n)"
  by (simp_all add: keeps_def removeEntry_def)

lemma keeps_withLock [keeps_intros]: "keeps f m \<Longrightarrow> keeps f (withLock env m)"
  by (simp add: withLock_def keeps_intros)

lemma keeps_withLockNB [keeps_intros]: "keeps f m \<Longrightarrow> keeps f (withLockNB env m)"
  by (cases "e_Lock env") (simp_all add: withLockNB_def keeps_intros)

lemma renderAndWriteArtifact_cases:
  "snd (renderAndWriteArtifact R env s) = s \<or>
   (\<exists>doc. snd (renderAndWriteArtifact R env s) = s\<lparr>pm_artifact := Some doc\<rparr>)"
proof -
  have w: "snd (smap_err f (writeArtifact env doc) s) = s \<or> snd (smap_err f (writeArtifact env doc) s) = s\<lparr>pm_artifact := Some doc\<rparr>" for f doc
    by (cases "e_WriteArtifact env") (simp_all add: smap_err_apply writeArtifact_def atomicWriteFile_def)
  show ?thesis
  proof (cases "loadAll env s")
    case (Inr ps)
    then show ?thesis using w
      by (cases "snapshotMembership R ps (pm_kernel s)") (auto simp: renderAndWriteArtifact_def sbind_sread Let_def split: sum.split)
  qed (simp add: renderAndWriteArtifact_def sbind_sread)
qed

lemma keeps_persist [keeps_intros]: "keeps pm_registry (persistMembership R env)" "keeps pm_kernel (persistMembership R env)"
proof -
  have "pm_registry (snd (renderAndWriteArtifact R env s)) = pm_registry s \<and>
    pm_kernel (snd (renderAndWriteArtifact R env s)) = pm_kernel s" for s
    using renderAndWriteArtifact_cases[of R env s] by (elim disjE exE) simp_all
  then show "keeps pm_registry (persistMembership R env)" "keeps pm_kernel (persistMembership R env)"
    by (simp_all add: keeps_def persistMembership_def)
qed

lemma keeps_applySet [keeps_intros]: "keeps pm_registry (applySet R env n c src)" "keeps pm_artifact (applySet R env n c src)"
  unfolding applySet_def by (intro keeps_intros)+

lemma keeps_applyPortsSet [keeps_intros]: "keeps pm_registry (applyPortsSet R env n c)" "keeps pm_artifact (applyPortsSet R env n c)"
  unfolding applyPortsSet_def by (intro keeps_intros)+

lemma element_verbs_keep_registry:
  "keeps pm_registry (Add R env n c)" "keeps pm_registry (Remove R env n c)" "keeps pm_registry (Set R env n c)"
  "keeps pm_registry (ApplyMembership R env d)" "keeps pm_registry (ApplySets R env d e)"
  "keeps pm_registry (ApplyPorts R env d)" "keeps pm_registry (RenderWeaverNft env pods)"
  unfolding Add_def Remove_def Set_def ApplyMembership_def ApplySets_def ApplyPorts_def
  by (intro keeps_intros)+ (auto simp: keeps_def RenderWeaverNft_def sbind_def Let_def removeArtifact_def writeArtifact_def
      atomicWriteFile_def split: sum.split option.split file_write.split)

section \<open>Creating a policy\<close>

text \<open>The outcomes of the common tail of \<open>Create\<close>.\<close>

lemma createApply_cases:
  assumes "createApply R env pods policies target cidrs s = (r, s')"
  obtains e where "r = Inl e" "s' = s"
  | snapshot doc e k where "snapshotMembership R policies (pm_kernel s) = Inr snapshot"
      "Render (upsert policies target) (desiredMembership snapshot target cidrs) pods = Inr doc"
      "r_Apply R doc (pm_kernel s) = (Inl e, k)" "r = Inl e" "s' = s\<lparr>pm_kernel := k\<rparr>"
  | snapshot doc where "snapshotMembership R policies (pm_kernel s) = Inr snapshot"
      "Render (upsert policies target) (desiredMembership snapshot target cidrs) pods = Inr doc"
      "r_Apply R doc (pm_kernel s) = (Inr (), pm_kernel s')"
      "pm_registry s' = pm_registry s \<or> pm_registry s' = al_put (p_Name target) (Decoded target) (pm_registry s)"
      "pm_artifact s' = pm_artifact s \<or> pm_artifact s' = Some doc"
      "\<And>b. r = Inr b \<Longrightarrow> b \<and> pm_registry s' = al_put (p_Name target) (Decoded target) (pm_registry s) \<and> pm_artifact s' = Some doc"
proof (cases "snapshotMembership R policies (pm_kernel s)")
  case (Inl e)
  with assms that(1) show ?thesis by (auto simp: createApply_def sbind_sread)
next
  case snap: (Inr snapshot)
  show ?thesis
  proof (cases "Render (upsert policies target) (desiredMembership snapshot target cidrs) pods")
    case (Inl e)
    with snap assms that(1) show ?thesis by (auto simp: createApply_def sbind_sread)
  next
    case doc: (Inr doc)
    obtain ra k where ap: "r_Apply R doc (pm_kernel s) = (ra, k)" by fastforce
    show ?thesis
    proof (cases ra)
      case (Inl e)
      with snap doc ap assms that(2) show ?thesis
        by (auto simp: createApply_def sbind_sread sbind_def[of "kern _"] kern_def)
    next
      case (Inr u)
      with snap doc ap assms have "sbind (smap_err (decorate ''chain applied to the kernel but persisting the policy registry failed'') (writeEntry env target)) (\<lambda>_.
         sbind (smap_err (decorate ''chain applied to the kernel but persisting the document failed'') (writeArtifact env doc)) (\<lambda>_.
         if e_Service env then sret True
         else sfail (Err ExternalError ''chain applied and persisted but enabling the service failed''))) (s\<lparr>pm_kernel := k\<rparr>) = (r, s')"
        by (simp add: createApply_def sbind_sread sbind_def[of "kern _"] kern_def)
      then have tail: "pm_kernel s' = k"
        "pm_registry s' = pm_registry s \<or> pm_registry s' = al_put (p_Name target) (Decoded target) (pm_registry s)"
        "pm_artifact s' = pm_artifact s \<or> pm_artifact s' = Some doc"
        "r = Inr b \<Longrightarrow> b \<and> pm_registry s' = al_put (p_Name target) (Decoded target) (pm_registry s) \<and> pm_artifact s' = Some doc" for b
        by (auto simp: sbind_def smap_err_apply writeEntry_def writeArtifact_def atomicWriteFile_def
            split: file_write.splits if_splits)
      have "r_Apply R doc (pm_kernel s) = (Inr (), pm_kernel s')" using ap Inr tail(1) by simp
      from that(3)[OF snap doc this tail(2,3,4)] show ?thesis .
    qed
  qed
qed

text \<open>The outcomes of \<open>Create\<close>: nothing happened, or its tail ran on the loaded and validated
  policies with the new policy or, to heal a missing table, the registered one.\<close>

lemma Create_cases:
  assumes "Create R env p0 cidrs podCIDRs force s = (r, s')"
  obtains e where "r = Inl e" "s' = s"
  | p policies0 policies existing where "r = Inr False" "s' = s" "\<not> force" "r_Exists R (pm_kernel s) = Inr True"
      "Validate cidrs p0 = (Inr (), p)" "loadAll env s = Inr policies0"
      "validateEntries (\<lambda>lp. p_Name lp = p_Name p) policies0 = Inr policies" "findByName policies (p_Name p) = Some existing"
  | p policies0 policies target cidrs' where "Validate cidrs p0 = (Inr (), p)" "rejectContainment cidrs [] = Inr ()"
      "loadAll env s = Inr policies0" "validateEntries (\<lambda>lp. p_Name lp = p_Name p) policies0 = Inr policies"
      "checkNoOverlap policies p = Inr ()"
      "(\<exists>t. target = p\<lparr>p_CreatedAt := t\<rparr> \<and> (\<forall>q. findByName policies (p_Name p) = Some q \<longrightarrow> t = p_CreatedAt q)) \<and> cidrs' = cidrs \<and>
          (force \<or> findByName policies (p_Name p) = None) \<or>
        \<not> force \<and> cidrs' = [] \<and> r_Exists R (pm_kernel s) = Inr False \<and>
          (\<exists>existing. findByName policies (p_Name p) = Some existing \<and> Validate [] existing = (Inr (), target))"
      "createApply R env (recoverPodCIDRs env podCIDRs s) policies target cidrs' s = (r, s')"
proof -
  obtain rv p where v: "Validate cidrs p0 = (rv, p)" by fastforce
  show ?thesis
  proof (cases "\<exists>e. rv = Inl e \<or> rejectContainment cidrs [] = Inl e \<or> e_Lock env = LockFails \<or> loadAll env s = Inl e \<or>
      (\<exists>ps. loadAll env s = Inr ps \<and> validateEntries (\<lambda>lp. p_Name lp = p_Name p) ps = Inl e)")
    case True
    then have "\<exists>e. r = Inl e \<and> s' = s"
      using assms v by (auto simp: Create_def withLock_def createLocked_def sbind_sread split: sum.splits if_splits)
    then show ?thesis using that(1) by blast
  next
    case False
    then obtain policies0 policies where ok: "rv = Inr ()" "rejectContainment cidrs [] = Inr ()" "e_Lock env \<noteq> LockFails"
      "loadAll env s = Inr policies0" "validateEntries (\<lambda>lp. p_Name lp = p_Name p) policies0 = Inr policies"
      by (metis sum.exhaust old.unit.exhaust)
    note run = assms[unfolded Create_def v ok(1) prod.case sum.case ok(2) withLock_def if_not_P[OF ok(3)] createLocked_def
        sbind_sread ok(4) ok(5) sbind_slift]
    show ?thesis
    proof (cases "checkNoOverlap policies p")
      case (Inl e)
      with run that(1) show ?thesis by auto
    next
      case ov: (Inr u)
      note go = that(3)[OF v[unfolded ok(1)] ok(2,4,5) ov[unfolded unit_eq[of u]]]
      show ?thesis
      proof (cases "findByName policies (p_Name p)")
        case None
        with run ov have "createApply R env (recoverPodCIDRs env podCIDRs s) policies
            (if p_CreatedAt p = 0 then p\<lparr>p_CreatedAt := e_Now env\<rparr> else p) cidrs s = (r, s')" by simp
        moreover have "\<exists>t. (if p_CreatedAt p = 0 then p\<lparr>p_CreatedAt := e_Now env\<rparr> else p) = p\<lparr>p_CreatedAt := t\<rparr>"
          by (cases p) auto
        ultimately show ?thesis using go None by (metis option.distinct(1))
      next
        case (Some existing)
        show ?thesis
        proof (cases force)
          case True
          with run ov Some show ?thesis using go by auto
        next
          case False
          show ?thesis
          proof (cases "r_Exists R (pm_kernel s)")
            case (Inl e)
            with run ov Some False have "r = Inl e" "s' = s" by (auto simp: sbind_sread)
            then show ?thesis by (rule that(1))
          next
            case ex: (Inr b)
            obtain re target where re: "Validate [] existing = (re, target)" by fastforce
            note keep = that(2)[OF _ _ False _ v[unfolded ok(1)] ok(4,5) Some]
            from run ov Some False ex re that(1) keep show ?thesis
              using go[of target "[]"] False Some by (cases b; cases re) (auto simp: sbind_sread)
          qed
        qed
      qed
    qed
  qed
qed

section \<open>The registry\<close>

text \<open>Every file decodes to a validated policy of that name, and no two specific stamp policies
  share a group.\<close>

definition no_clash :: "entry \<Rightarrow> entry \<Rightarrow> bool" where
  "no_clash e f \<longleftrightarrow> (case (e, f) of
     (Decoded p, Decoded q) \<Rightarrow> p_Name p \<noteq> p_Name q \<and> isSpecific p \<and> isSpecific q \<longrightarrow> groupKey p \<noteq> groupKey q
   | _ \<Rightarrow> True)"

definition entry_ok :: "string \<times> entry \<Rightarrow> bool" where
  "entry_ok ne \<longleftrightarrow> (case snd ne of Decoded p \<Rightarrow> p_Name p = fst ne \<and> policy_ok p | Undecodable \<Rightarrow> False)"

definition registry_ok :: "(string \<times> entry) list \<Rightarrow> bool" where
  "registry_ok reg \<longleftrightarrow> distinct (map fst reg) \<and> list_all entry_ok reg \<and>
     (\<forall>e \<in> set reg. \<forall>f \<in> set reg. no_clash (snd e) (snd f))"

lemma no_clash_sym: "no_clash e f = no_clash f e"
  by (auto simp: no_clash_def split: entry.splits)

lemma set_al_put: "distinct (map fst kvs) \<Longrightarrow> set (al_put k v kvs) = insert (k, v) {kv \<in> set kvs. fst kv \<noteq> k}"
proof (induction kvs)
  case (Cons kv kvs)
  then show ?case by (cases kv) (auto simp: image_iff)
qed simp

lemma set_al_del: "set (al_del k kvs) = {kv \<in> set kvs. fst kv \<noteq> k}"
  by (auto simp: al_del_def)

lemma registry_ok_iff:
  "registry_ok reg \<longleftrightarrow> distinct (map fst reg) \<and> (\<forall>n e. (n, e) \<in> set reg \<longrightarrow> entry_ok (n, e)) \<and>
     (\<forall>n e m f. (n, e) \<in> set reg \<longrightarrow> (m, f) \<in> set reg \<longrightarrow> no_clash e f)"
  by (simp add: registry_ok_def list_all_iff Ball_def split_paired_all)

lemma registry_ok_put:
  assumes "registry_ok reg" "policy_ok p" "\<And>n e. (n, e) \<in> set reg \<Longrightarrow> n \<noteq> p_Name p \<Longrightarrow> no_clash e (Decoded p)"
  shows "registry_ok (al_put (p_Name p) (Decoded p) reg)"
proof -
  have d: "distinct (map fst reg)" using assms(1) by (simp add: registry_ok_def)
  have new: "entry_ok (p_Name p, Decoded p)" "no_clash (Decoded p) (Decoded p)"
    using assms(2) by (simp_all add: entry_ok_def no_clash_def)
  have mem: "(n, e) \<in> set (al_put (p_Name p) (Decoded p) reg) \<longleftrightarrow>
      n = p_Name p \<and> e = Decoded p \<or> (n, e) \<in> set reg \<and> n \<noteq> p_Name p" for n e
    by (auto simp: set_al_put[OF d])
  have "no_clash e f" if "n = p_Name p \<and> e = Decoded p \<or> (n, e) \<in> set reg \<and> n \<noteq> p_Name p"
    "m = p_Name p \<and> f = Decoded p \<or> (m, f) \<in> set reg \<and> m \<noteq> p_Name p" for n e m f
    using that
  proof (elim disjE conjE)
    assume "(n, e) \<in> set reg" "(m, f) \<in> set reg"
    then show ?thesis using assms(1) unfolding registry_ok_iff by blast
  qed (use new assms(3) no_clash_sym in metis)+
  then show ?thesis
    unfolding registry_ok_iff mem using assms(1)[unfolded registry_ok_iff] new distinct_al_put[OF d] by blast
qed

lemma registry_ok_del: "registry_ok reg \<Longrightarrow> registry_ok (al_del n reg)"
proof -
  assume ok: "registry_ok reg"
  have "distinct (map fst (al_del n reg))" using ok by (simp add: registry_ok_def al_del_def distinct_map_filter)
  moreover have "(m, e) \<in> set (al_del n reg) \<Longrightarrow> (m, e) \<in> set reg" for m e by (simp add: al_del_def)
  ultimately show ?thesis using ok unfolding registry_ok_iff by blast
qed

lemma readEntry_Some: "readEntry env reg n = Inr (Some p) \<Longrightarrow> map_of reg n = Some (Decoded p)"
  by (auto simp: readEntry_def split: option.splits entry.splits if_splits)

lemma readEntry_present: "readEntry env reg n = Inr q \<Longrightarrow> map_of reg n = Some (Decoded p) \<Longrightarrow> q = Some p"
  by (auto simp: readEntry_def split: if_splits)

lemma loadAll_set:
  assumes "loadAll env s = Inr ps"
  shows "set ps = {p. \<exists>n. map_of (pm_registry s) n = Some (Decoded p)}"
proof -
  let ?reg = "pm_registry s"
  from assms obtain os where os: "rmap (readEntry env ?reg) (sort_by (<) (map fst ?reg)) = Inr os"
    and ps: "ps = List.map_filter id os"
    by (auto simp: loadAll_def rbind_Inr_iff split: if_splits)
  have mem: "p \<in> set ps \<longleftrightarrow> Some p \<in> set os" for p by (simp add: ps set_map_filter_Some)
  show ?thesis
  proof (intro set_eqI iffI)
    fix p assume "p \<in> set ps"
    then obtain n where "readEntry env ?reg n = Inr (Some p)" using rmap_set[OF os] mem by auto
    then show "p \<in> {p. \<exists>n. map_of ?reg n = Some (Decoded p)}" using readEntry_Some by blast
  next
    fix p assume "p \<in> {p. \<exists>n. map_of ?reg n = Some (Decoded p)}"
    then obtain n where n: "map_of ?reg n = Some (Decoded p)" by blast
    then have "n \<in> set (sort_by (<) (map fst ?reg))" by (auto dest: map_of_SomeD intro!: image_eqI)
    then obtain q where "readEntry env ?reg n = Inr q" "q \<in> set os" using rmap_set[OF os] by fastforce
    then show "p \<in> set ps" using readEntry_present n mem by metis
  qed
qed

lemma loadAll_ok:
  assumes "loadAll env s = Inr ps" "registry_ok (pm_registry s)"
  shows "p \<in> set ps \<longleftrightarrow> (p_Name p, Decoded p) \<in> set (pm_registry s)" "\<forall>p \<in> set ps. policy_ok p"
proof -
  have d: "distinct (map fst (pm_registry s))" and e: "\<forall>x \<in> set (pm_registry s). entry_ok x"
    using assms(2) by (auto simp: registry_ok_def list_all_iff)
  have "map_of (pm_registry s) n = Some (Decoded p) \<longleftrightarrow> (n, Decoded p) \<in> set (pm_registry s)" for n p
    using map_of_eq_Some_iff[OF d] .
  moreover have "(n, Decoded p) \<in> set (pm_registry s) \<Longrightarrow> n = p_Name p \<and> policy_ok p" for n p
    using e by (fastforce simp: entry_ok_def)
  ultimately show "p \<in> set ps \<longleftrightarrow> (p_Name p, Decoded p) \<in> set (pm_registry s)" "\<forall>p \<in> set ps. policy_ok p"
    unfolding loadAll_set[OF assms(1)] by blast+
qed

text \<open>The policies of a registry, in the order of its files.\<close>

definition stored_policies :: "(string \<times> entry) list \<Rightarrow> policy list" where
  "stored_policies reg = List.map_filter (\<lambda>(n, e). case e of Decoded p \<Rightarrow> Some p | Undecodable \<Rightarrow> None) reg"

lemma stored_policies_names: "list_all entry_ok reg \<Longrightarrow> map p_Name (stored_policies reg) = map fst reg"
  by (induction reg) (auto simp: stored_policies_def entry_ok_def map_filter_simps split: entry.splits)

lemma set_stored_policies: "registry_ok reg \<Longrightarrow> p \<in> set (stored_policies reg) \<longleftrightarrow> (p_Name p, Decoded p) \<in> set reg"
proof -
  assume "registry_ok reg"
  then have e: "\<forall>x \<in> set reg. entry_ok x" by (simp add: registry_ok_def list_all_iff)
  have "p \<in> set (stored_policies reg) \<longleftrightarrow> (\<exists>n. (n, Decoded p) \<in> set reg)"
    by (induction reg) (auto simp: stored_policies_def map_filter_simps split: entry.splits)
  with e show ?thesis by (fastforce simp: entry_ok_def)
qed

lemma stored_mset:
  assumes "registry_ok reg" "set ps = set (stored_policies reg)" "distinct (map p_Name ps)"
  shows "mset ps = mset (stored_policies reg)"
proof -
  have "distinct (map p_Name (stored_policies reg))"
    using assms(1) stored_policies_names[of reg] by (simp add: registry_ok_def)
  then show ?thesis using assms(2,3) by (simp add: set_eq_iff_mset_eq_distinct distinct_map)
qed

lemma loadAll_stored:
  assumes "loadAll env s = Inr ps" "registry_ok (pm_registry s)"
  shows "mset ps = mset (stored_policies (pm_registry s)) \<and> distinct (map p_Name ps)"
proof -
  let ?reg = "pm_registry s"
  have d: "distinct (map fst ?reg)" and e: "list_all entry_ok ?reg" using assms(2) by (auto simp: registry_ok_def)
  from assms obtain os where os: "list_all2 (\<lambda>n q. readEntry env ?reg n = Inr q) (sort_by (<) (map fst ?reg)) os"
    and ps: "ps = List.map_filter id os"
    by (auto simp: loadAll_def rbind_Inr_iff rmap_Inr split: if_splits)
  have "\<exists>p. q = Some p \<and> p_Name p = n" if "readEntry env ?reg n = Inr q" "n \<in> set (map fst ?reg)" for n q
  proof -
    from that(2) obtain ent where m: "map_of ?reg n = Some ent" by (cases "map_of ?reg n") (auto simp: map_of_eq_None_iff)
    then have "entry_ok (n, ent)" using e by (auto simp: list_all_iff dest: map_of_SomeD)
    with m that(1) show ?thesis by (auto simp: readEntry_def entry_ok_def split: entry.splits if_splits)
  qed
  then have "list_all2 (\<lambda>n q. \<exists>p. q = Some p \<and> p_Name p = n) (sort_by (<) (map fst ?reg)) os"
    using os by (auto intro: list_all2_mono simp: list_all2_conv_all_nth) (metis length_map length_sort_by nth_mem set_map set_sort_by)
  then have "map p_Name (List.map_filter id os) = sort_by (<) (map fst ?reg)"
    by (induction rule: list_all2_induct) (auto simp: map_filter_simps)
  then have names: "distinct (map p_Name ps)" using d by (simp add: ps)
  moreover have "set ps = set (stored_policies ?reg)"
    using loadAll_ok(1)[OF assms] set_stored_policies[OF assms(2)] by blast
  ultimately show ?thesis using stored_mset[OF assms(2)] by simp
qed

lemma validateEntries_ok: "\<forall>p \<in> set ps. policy_ok p \<Longrightarrow> validateEntries skip ps = Inr ps"
  by (induction ps) (simp_all add: validateEntries_def Validate_ok)

lemma policy_ok_CreatedAt [simp]: "policy_ok (p\<lparr>p_CreatedAt := t\<rparr>) = policy_ok p"
  by (cases "p_Action p"; cases "lookupClass (p_Stamp p)"; cases "lookupClass (p_ReplyStamp p)")
    (simp_all add: policy_ok_def stamp_ok_def deny_ok_def)

lemma groupKey_CreatedAt [simp]: "groupKey (p\<lparr>p_CreatedAt := t\<rparr>) = groupKey p" "isSpecific (p\<lparr>p_CreatedAt := t\<rparr>) = isSpecific p"
  by (simp_all add: groupKey_def isSpecific_def)

text \<open>What \<open>Create\<close> writes to the registry, if it writes, keeps the registry well formed.\<close>

lemma Create_registry_ok:
  assumes "registry_ok (pm_registry s)" "Create R env p0 cidrs pods force s = (r, s')"
  shows "registry_ok (pm_registry s')"
  using assms(2)
proof (cases rule: Create_cases)
  case (3 p policies0 policies target cidrs')
  have ok: "\<forall>q \<in> set policies0. policy_ok q" using loadAll_ok(2)[OF 3(3) assms(1)] .
  then have pol: "policies = policies0" using 3(4) validateEntries_ok[OF ok] by simp
  have p: "policy_ok p" using 3(1) unfolding Validate_Inr by blast
  from 3(6) consider t where "target = p\<lparr>p_CreatedAt := t\<rparr>"
    | existing where "findByName policies (p_Name p) = Some existing" "Validate [] existing = (Inr (), target)" by blast
  then have target: "policy_ok target \<and> (\<forall>q \<in> set policies. p_Name q \<noteq> p_Name target \<longrightarrow> no_clash (Decoded q) (Decoded target))"
  proof cases
    case 1
    with p 3(5) show ?thesis by (auto simp: checkNoOverlap_Inr no_clash_def)
  next
    case ex: (2 existing)
    then have "existing \<in> set policies" by (auto simp: findByName_def find_Some_iff)
    then have "policy_ok existing" using ok pol by simp
    then have "target = existing" using ex(2) Validate_ok by simp
    moreover have "no_clash (Decoded q) (Decoded existing)" if "q \<in> set policies" for q
      using assms(1) loadAll_ok(1)[OF 3(3) assms(1)] that \<open>existing \<in> set policies\<close> pol
      unfolding registry_ok_iff by blast
    ultimately show ?thesis using \<open>policy_ok existing\<close> by blast
  qed
  have put: "registry_ok (al_put (p_Name target) (Decoded target) (pm_registry s))"
  proof (rule registry_ok_put[OF assms(1)])
    show "policy_ok target" using target by simp
    show "no_clash e (Decoded target)" if ne: "(n, e) \<in> set (pm_registry s)" "n \<noteq> p_Name target" for n e
    proof -
      have "entry_ok (n, e)" using assms(1) ne(1) unfolding registry_ok_iff by blast
      then obtain q where "e = Decoded q" "p_Name q = n" by (cases e) (auto simp: entry_ok_def)
      then show ?thesis using loadAll_ok(1)[OF 3(3) assms(1), of q] ne target pol by auto
    qed
  qed
  from 3(7) show ?thesis
    by (cases rule: createApply_cases) (use assms(1) put in auto)
qed (use assms(1) in auto)

lemma removeEntry_cases:
  "removeEntry env n s = (r, s') \<Longrightarrow>
     (s' = s \<or> s' = s\<lparr>pm_registry := al_del n (pm_registry s)\<rparr>) \<and> (r = Inr () \<longrightarrow> map_of (pm_registry s') n = None)"
  by (auto simp: removeEntry_def split: if_splits)

lemma Delete_registry:
  "pm_registry (snd (Delete R env name s)) = pm_registry s \<or>
   pm_registry (snd (Delete R env name s)) = al_del name (pm_registry s)"
proof -
  have "may pm_registry (al_del name) (removeEntry env name)"
    by (simp add: may_def removeEntry_def)
  then have "may pm_registry (al_del name) (Delete R env name)"
    unfolding Delete_def withLock_def
    by (intro may_if may_sbind keeps_intros) (auto intro!: may_keeps keeps_intros)
  then show ?thesis by (simp add: may_def)
qed

end
