(* ===== verification/PolicyOps.thy ===== *)
theory PolicyOps
  imports PolicyManager
begin

text \<open>
  What the operations of \<open>network policy\<close> guarantee: the order of kernel and disk, what a
  successful operation leaves behind, what a failed one leaves alone, and the well-formedness of
  the registry in every state that any sequence of operations can reach, whatever the kernel, the
  disk and other programs do in between.
\<close>

section \<open>Snapshots and rendering\<close>

lemma snapshot_lists:
  assumes "snapshotMembership R ps k = Inr m" "p \<in> set ps" "n \<in> set (daemonSetNames p)"
  shows "r_ListElements R n k = Inr (m n)"
proof -
  let ?names = "concat (map daemonSetNames ps)"
  from assms(1) obtain ess where
    r: "rmap (\<lambda>n. map_err (decorate ''failed to snapshot live membership'') (r_ListElements R n k)) ?names = Inr ess"
    and m: "m = (\<lambda>s. case map_of (zip ?names ess) s of None \<Rightarrow> [] | Some es \<Rightarrow> es)"
    by (auto simp: snapshotMembership_def Let_def rbind_Inr_iff)
  have l: "list_all2 (\<lambda>n es. r_ListElements R n k = Inr es) ?names ess" using r by (simp add: rmap_Inr)
  have "n \<in> set ?names" using assms(2,3) by auto
  then obtain es where es: "map_of (zip ?names ess) n = Some es"
    using l by (metis list_all2_lengthD map_of_zip_is_Some)
  then have "(n, es) \<in> set (zip ?names ess)" by (rule map_of_SomeD)
  then have "r_ListElements R n k = Inr es" using l by (auto simp: list_all2_iff)
  then show ?thesis by (simp add: m es)
qed

lemma Render_succeeds:
  assumes "\<forall>p \<in> set ps. policy_ok p" "needsPodCIDR ps \<Longrightarrow> partitionPodCIDRs pods ([], []) \<noteq> ([], [])"
  shows "\<exists>doc. Render ps m pods = Inr doc"
proof -
  have "\<forall>p \<in> set (sortedByName ps). policy_ok p" using assms by (simp add: sortedByName_def)
  note total = renderFamilyChain_total[OF this]
  obtain v4 v6 where pods: "partitionPodCIDRs pods ([], []) = (v4, v6)" by fastforce
  obtain a b where "renderFamilyChain (sortedByName ps) (familyV4 v4) = Inr a"
    "renderFamilyChain (sortedByName ps) (familyV6 v6) = Inr b" using total by blast
  with assms(2) pods show ?thesis by (auto simp: Render_def Let_def)
qed

text \<open>The document does not depend on the order of the policies, when their names differ.\<close>

lemma Render_order:
  assumes "mset ps = mset qs" "distinct (map p_Name ps)"
  shows "Render ps m pods = Render qs m pods"
  using sortedByName_cong[OF assms(2,1)] needsPodCIDR_cong[OF mset_eq_setD[OF assms(1)]] by (simp only: Render_def)

lemma findByName_stored:
  assumes "loadAll env s = Inr ps" "registry_ok (pm_registry s)"
  shows "findByName ps n = Some q \<longleftrightarrow> map_of (pm_registry s) n = Some (Decoded q)"
    "findByName ps n = None \<longleftrightarrow> map_of (pm_registry s) n = None"
proof -
  have d: "distinct (map fst (pm_registry s))" using assms(2) by (simp add: registry_ok_def)
  note mem = loadAll_ok(1)[OF assms]
  have some: "map_of (pm_registry s) n = Some (Decoded q)" if "findByName ps n = Some q" for q
  proof -
    from that have "q \<in> set ps" "p_Name q = n" by (auto simp: findByName_def find_Some_iff)
    then show ?thesis using mem[of q] map_of_eq_Some_iff[OF d] by auto
  qed
  have "findByName ps n \<noteq> None" if "map_of (pm_registry s) n = Some e" for e
  proof -
    have "(n, e) \<in> set (pm_registry s)" using that by (rule map_of_SomeD)
    moreover from this have "entry_ok (n, e)" using assms(2) unfolding registry_ok_iff by blast
    ultimately obtain q where "q \<in> set ps" "p_Name q = n" using mem by (cases e) (auto simp: entry_ok_def)
    then show ?thesis by (auto simp: findByName_def find_None_iff)
  qed
  with some show "findByName ps n = Some q \<longleftrightarrow> map_of (pm_registry s) n = Some (Decoded q)"
    "findByName ps n = None \<longleftrightarrow> map_of (pm_registry s) n = None"
    by (metis entry.inject(1) not_None_eq option.inject)+
qed

section \<open>Deleting a policy\<close>

lemma al_del_absent: "map_of kvs k = None \<Longrightarrow> al_del k kvs = kvs"
  unfolding al_del_def map_of_eq_None_iff by (rule filter_True) auto

lemma removeEntry_simps:
  "removeEntry env n s = (Inr (), s') \<Longrightarrow> pm_registry s' = al_del n (pm_registry s) \<and> pm_artifact s' = pm_artifact s \<and> pm_kernel s' = pm_kernel s"
  "removeEntry env n s = (Inl e, s') \<Longrightarrow> s' = s"
  by (auto simp: removeEntry_def al_del_absent split: if_splits)

lemma removeArtifact_simps:
  "removeArtifact env s = (Inr (), s') \<Longrightarrow> s' = s\<lparr>pm_artifact := None\<rparr>"
  by (auto simp: removeArtifact_def split: if_splits)

lemma writeArtifact_ok: "smap_err f (writeArtifact env doc) s = (Inr (), s') \<Longrightarrow> s' = s\<lparr>pm_artifact := Some doc\<rparr>"
  by (auto simp: smap_err_apply writeArtifact_def atomicWriteFile_def split: file_write.splits)

lemma kern_ok: "kern f s = (Inr x, s') \<longleftrightarrow> (\<exists>k. f (pm_kernel s) = (Inr x, k) \<and> s' = s\<lparr>pm_kernel := k\<rparr>)"
  by (auto simp: kern_def split: prod.splits)

text \<open>A registry file is removed by the last step only, so a failure leaves every entry in place.\<close>

definition keeps_on_error :: "('s \<Rightarrow> 'b) \<Rightarrow> ('s, 'a) action \<Rightarrow> bool" where
  "keeps_on_error f m \<longleftrightarrow> (\<forall>s e s'. m s = (Inl e, s') \<longrightarrow> f s' = f s)"

lemma keeps_on_errorI: "keeps f m \<Longrightarrow> keeps_on_error f m"
  unfolding keeps_on_error_def by (blast dest: keepsD)

lemma keeps_on_error_sbind: "keeps f m \<Longrightarrow> (\<And>x. keeps_on_error f (g x)) \<Longrightarrow> keeps_on_error f (sbind m g)"
  unfolding keeps_on_error_def
proof (intro allI impI)
  fix s e s'
  assume m: "keeps f m" and g: "\<And>x. \<forall>s e s'. g x s = (Inl e, s') \<longrightarrow> f s' = f s" and "sbind m g s = (Inl e, s')"
  from this(3) show "f s' = f s"
  proof (cases rule: sbind_cases)
    case 1 then show ?thesis using keepsD[OF m] by blast
  next
    case (2 x s1) then show ?thesis using keepsD[OF m 2(1)] g[of x] by auto
  qed
qed

lemma keeps_on_error_if: "keeps_on_error f m \<Longrightarrow> keeps_on_error f n \<Longrightarrow> keeps_on_error f (if c then m else n)"
  by simp

lemma keeps_on_error_removeEntry: "keeps_on_error pm_registry (removeEntry env n)"
  by (auto simp: keeps_on_error_def dest!: removeEntry_simps(2))

lemma Delete_keeps_on_error: "keeps_on_error pm_registry (Delete R env name)"
  unfolding Delete_def withLock_def
  by (intro keeps_on_error_if keeps_on_error_sbind keeps_intros keeps_on_error_removeEntry)
    (auto intro!: keeps_on_errorI keeps_intros)

text \<open>The pod networks a deletion renders with: those of the persisted document, if the remaining policies need any.\<close>

definition delete_pods :: "pm_env \<Rightarrow> policy list \<Rightarrow> 'k pm_state \<Rightarrow> string list" where
  "delete_pods env remaining s =
     (if needsPodCIDR remaining then (case readArtifact env s of None \<Rightarrow> [] | Some d \<Rightarrow> ExtractPodCIDRs d) else [])"

text \<open>The two ways a deletion succeeds.\<close>

lemma Delete_ok:
  assumes "Delete R env name s = (Inr (), s')"
  obtains policies remaining where "loadAll env s = Inr policies" "findByName policies name \<noteq> None"
    "validateEntries (\<lambda>_. False) (filter (\<lambda>p. p_Name p \<noteq> name) policies) = Inr remaining"
    "remaining = []" "pm_artifact s' = None" "pm_registry s' = al_del name (pm_registry s)"
    "r_Exists R (pm_kernel s) = Inr False \<and> pm_kernel s' = pm_kernel s \<or> r_Delete R (pm_kernel s) = (Inr (), pm_kernel s')"
  | policies remaining snapshot doc where "loadAll env s = Inr policies" "findByName policies name \<noteq> None"
    "validateEntries (\<lambda>_. False) (filter (\<lambda>p. p_Name p \<noteq> name) policies) = Inr remaining" "remaining \<noteq> []"
    "snapshotMembership R remaining (pm_kernel s) = Inr snapshot" "Render remaining snapshot (delete_pods env remaining s) = Inr doc"
    "r_Apply R doc (pm_kernel s) = (Inr (), pm_kernel s')" "pm_artifact s' = Some doc"
    "pm_registry s' = al_del name (pm_registry s)"
proof -
  from assms have lock: "e_Lock env \<noteq> LockFails" by (auto simp: Delete_def withLock_def)
  from assms[unfolded Delete_def withLock_def if_not_P[OF lock] sbind_sread[of "loadAll env"]] obtain policies where
    ps: "loadAll env s = Inr policies" by (auto split: sum.splits)
  note run = assms[unfolded Delete_def withLock_def if_not_P[OF lock] sbind_sread[of "loadAll env"] ps sum.case]
  then have found: "findByName policies name \<noteq> None" by (cases "findByName policies name = None") auto
  from run found obtain remaining where rem: "validateEntries (\<lambda>_. False) (filter (\<lambda>p. p_Name p \<noteq> name) policies) = Inr remaining"
    by (cases "validateEntries (\<lambda>_. False) (filter (\<lambda>p. p_Name p \<noteq> name) policies)") auto
  show ?thesis
  proof (cases "remaining = []")
    case True
    with run found rem have "sbind (sread (\<lambda>s. map_err (decorate ''failed to check the table'') (r_Exists R (pm_kernel s)))) (\<lambda>ex.
         sbind (if ex then smap_err (decorate ''failed to delete the table'') (kern (r_Delete R)) else sret ()) (\<lambda>_.
         sbind (removeArtifact env) (\<lambda>_. removeEntry env name))) s = (Inr (), s')" by simp
    then obtain ex s1 s2 where ex: "r_Exists R (pm_kernel s) = Inr ex"
      and s1: "(if ex then smap_err (decorate ''failed to delete the table'') (kern (r_Delete R)) else sret ()) s = (Inr (), s1)"
      and s2: "removeArtifact env s1 = (Inr (), s2)" and "removeEntry env name s2 = (Inr (), s')"
      by (auto simp: sbind_Inr_iff)
    note this(4)[THEN removeEntry_simps(1)] s2[THEN removeArtifact_simps]
    moreover have "pm_registry s1 = pm_registry s"
      "\<not> ex \<and> pm_kernel s1 = pm_kernel s \<or> r_Delete R (pm_kernel s) = (Inr (), pm_kernel s1)"
      using s1 by (auto simp: smap_err_apply kern_def split: if_splits prod.splits)
    ultimately show ?thesis using that(1)[OF ps found rem True] ex by auto
  next
    case False
    with run found rem obtain snapshot doc s1 s2 where
      "snapshotMembership R remaining (pm_kernel s) = Inr snapshot" "Render remaining snapshot (delete_pods env remaining s) = Inr doc"
      "kern (r_Apply R doc) s = (Inr (), s1)"
      "smap_err (decorate ''chain re-rendered but persisting failed'') (writeArtifact env doc) s1 = (Inr (), s2)"
      "removeEntry env name s2 = (Inr (), s')"
      by (auto simp: sbind_Inr_iff delete_pods_def)
    then show ?thesis using that(2)[OF ps found rem False]
      by (auto simp: kern_ok dest!: removeEntry_simps(1) writeArtifact_ok)
  qed
qed

section \<open>Element verbs\<close>

text \<open>Every guard of \<open>Add\<close> comes before the first write.\<close>

lemma Add_effect:
  assumes "Add R env name cidrs s = (r, s')" "s' \<noteq> s \<or> r = Inr ()"
  obtains p live where "requirePolicyWithCIDRSet env name s = Inr p" "validateCIDRs p cidrs = Inr ()"
    "requireTableExists R s = Inr ()" "liveMembership R p (pm_kernel s) = Inr live" "rejectContainment cidrs live = Inr ()"
    "sbind (kern (r_AddElements R name (fst (setElementsByFamily p cidrs)))) (\<lambda>_.
       sbind (kern (r_AddElements R (V6SetName name) (snd (setElementsByFamily p cidrs)))) (\<lambda>_. persistMembership R env)) s = (r, s')"
proof -
  have lock: "cidrs \<noteq> []" "e_Lock env \<noteq> LockFails" using assms by (auto simp: Add_def withLock_def split: if_splits)
  note run = assms(1)[unfolded Add_def withLock_def if_not_P[OF lock(2)]]
  obtain p where p: "requirePolicyWithCIDRSet env name s = Inr p"
    using run assms(2) lock(1) by (cases "requirePolicyWithCIDRSet env name s") (auto simp: sbind_sread)
  obtain u where v: "validateCIDRs p cidrs = Inr u"
    using run assms(2) lock(1) p by (cases "validateCIDRs p cidrs") (auto simp: sbind_sread)
  obtain w where t: "requireTableExists R s = Inr w"
    using run assms(2) lock(1) p v by (cases "requireTableExists R s") (auto simp: sbind_sread)
  obtain live where l: "liveMembership R p (pm_kernel s) = Inr live"
    using run assms(2) lock(1) p v t by (cases "liveMembership R p (pm_kernel s)") (auto simp: sbind_sread)
  obtain x where c: "rejectContainment cidrs live = Inr x"
    using run assms(2) lock(1) p v t l by (cases "rejectContainment cidrs live") (auto simp: sbind_sread)
  have "sbind (kern (r_AddElements R name (fst (setElementsByFamily p cidrs)))) (\<lambda>_.
       sbind (kern (r_AddElements R (V6SetName name) (snd (setElementsByFamily p cidrs)))) (\<lambda>_. persistMembership R env)) s = (r, s')"
    using run lock(1) p v t l c by (simp add: sbind_sread case_prod_beta)
  with that p v t l c show ?thesis by simp
qed

lemma elements_of_families:
  assumes "validateCIDRs p cidrs = Inr ()" "\<not> isCompoundSet p"
  shows "set (fst (setElementsByFamily p cidrs)) \<union> set (snd (setElementsByFamily p cidrs)) = set cidrs"
proof -
  have "\<exists>b. elementToken p c = Inr (c, b)" if "c \<in> set cidrs" for c
    using assms that by (auto simp: validateCIDRs_def check_all_Inr elementToken_def ValidateCIDR_iff CIDRIsIPv6_def)
  then show ?thesis
  proof (induction cidrs)
    case (Cons c cidrs)
    then obtain b where "elementToken p c = Inr (c, b)" by auto
    with Cons show ?case by (auto simp: setElementsByFamily_def map_filter_simps Let_def)
  qed (simp add: setElementsByFamily_def map_filter_simps)
qed

lemma applySet_effect:
  assumes "applySet R env name cidrs src s = (Inr (), s')"
  obtains p kept v4 v6 k1 where "requirePolicyWithCIDRSet env name s = Inr p" "validateCIDRs p cidrs = Inr ()"
    "kept = (case src of authoredMembership \<Rightarrow> cidrs | derivedMembership \<Rightarrow> PruneContainedCIDRs cidrs)"
    "src = authoredMembership \<Longrightarrow> rejectContainment cidrs [] = Inr ()"
    "setElementsByFamily p kept = (v4, v6)"
    "r_SetElements R name v4 (pm_kernel s) = (Inr (), k1)"
    "r_SetElements R (V6SetName name) v6 k1 = (Inr (), pm_kernel s')"
    "pm_registry s' = pm_registry s" "pm_artifact s' = pm_artifact s"
proof -
  have len: "(if length kept \<noteq> length cs then kept else cs) = kept" if "kept = PruneContainedCIDRs cs" for kept cs
  proof (cases "length kept = length cs")
    case True
    then have "kept = cs" unfolding that Prune_eq_filter by (metis filter_True length_filter_less less_irrefl)
    then show ?thesis by simp
  qed simp
  obtain p where p: "requirePolicyWithCIDRSet env name s = Inr p"
    using assms by (auto simp: applySet_def sbind_sread split: sum.splits)
  note run = assms[unfolded applySet_def sbind_sread[of "requirePolicyWithCIDRSet env name"] p sum.case]
  have v: "validateCIDRs p cidrs = Inr ()"
    using run by (cases "validateCIDRs p cidrs") auto
  let ?r = "case src of authoredMembership \<Rightarrow> rbind (rejectContainment cidrs []) (\<lambda>_. Inr cidrs)
       | derivedMembership \<Rightarrow> (let kept = PruneContainedCIDRs cidrs in Inr (if length kept \<noteq> length cidrs then kept else cidrs))"
  obtain kept where k: "?r = Inr kept" using run v by (cases ?r) auto
  have kept: "kept = (case src of authoredMembership \<Rightarrow> cidrs | derivedMembership \<Rightarrow> PruneContainedCIDRs cidrs)"
    "src = authoredMembership \<Longrightarrow> rejectContainment cidrs [] = Inr ()"
    using k len by (auto simp: rbind_Inr_iff split: membershipSource.splits)
  obtain v4 v6 where vs: "setElementsByFamily p kept = (v4, v6)" by fastforce
  from run v k vs obtain k1 where "r_SetElements R name v4 (pm_kernel s) = (Inr (), k1)"
    "r_SetElements R (V6SetName name) v6 k1 = (Inr (), pm_kernel s')"
    "pm_registry s' = pm_registry s" "pm_artifact s' = pm_artifact s"
    by (auto simp: sbind_sread sbind_Inr_iff kern_ok split: sum.splits)
  with that p v kept vs show ?thesis by blast
qed

section \<open>Sequences of operations\<close>

datatype pm_op =
    OpCreate policy "string list" "string list" bool
  | OpAdd string "string list"
  | OpRemove string "string list"
  | OpSet string "string list"
  | OpApplyMembership "(string \<times> string list) list"
  | OpApplySets "(string \<times> string list) list" "(string \<times> string list) list"
  | OpApplyPorts "(string \<times> string list) list"
  | OpDelete string
  | OpRenderWeaverNft "string list"

primrec run_op :: "'k runner \<Rightarrow> pm_env \<Rightarrow> pm_op \<Rightarrow> 'k pm_state \<Rightarrow> 'k pm_state" where
  "run_op R env (OpCreate p cidrs pods force) s = snd (Create R env p cidrs pods force s)"
| "run_op R env (OpAdd n cidrs) s = snd (Add R env n cidrs s)"
| "run_op R env (OpRemove n cidrs) s = snd (Remove R env n cidrs s)"
| "run_op R env (OpSet n cidrs) s = snd (Set R env n cidrs s)"
| "run_op R env (OpApplyMembership d) s = snd (ApplyMembership R env d s)"
| "run_op R env (OpApplySets d q) s = snd (ApplySets R env d q s)"
| "run_op R env (OpApplyPorts d) s = snd (ApplyPorts R env d s)"
| "run_op R env (OpDelete n) s = snd (Delete R env n s)"
| "run_op R env (OpRenderWeaverNft pods) s = snd (RenderWeaverNft env pods s)"

text \<open>The states reachable from an empty registry. Between operations, kernel and persisted
  document may change in any way; the registry directory is written by the operations only.\<close>

inductive pm_reachable :: "'k runner \<Rightarrow> 'k pm_state \<Rightarrow> bool" for R where
  pm_init: "pm_registry s = [] \<Longrightarrow> pm_reachable R s"
| pm_step: "pm_reachable R s \<Longrightarrow> pm_reachable R (run_op R env op s)"
| pm_external: "pm_reachable R s \<Longrightarrow> pm_registry s' = pm_registry s \<Longrightarrow> pm_reachable R s'"

lemma run_op_registry_ok: "registry_ok (pm_registry s) \<Longrightarrow> registry_ok (pm_registry (run_op R env op s))"
proof (cases op)
  case (OpCreate p cidrs pods force)
  then show "registry_ok (pm_registry s) \<Longrightarrow> ?thesis"
    by (cases "Create R env p cidrs pods force s") (auto dest: Create_registry_ok)
next
  case (OpDelete n)
  then show "registry_ok (pm_registry s) \<Longrightarrow> ?thesis"
    using Delete_registry[of R env n s] registry_ok_del by auto
qed (simp_all add: element_verbs_keep_registry[unfolded keeps_def, rule_format])

lemma reachable_registry_ok: "pm_reachable R s \<Longrightarrow> registry_ok (pm_registry s)"
proof (induction rule: pm_reachable.induct)
  case (pm_init s)
  then show ?case by (simp add: registry_ok_def)
qed (auto intro: run_op_registry_ok)

lemma loadAll_total:
  assumes "registry_ok (pm_registry s)" "e_ReadDir env" "\<And>n. e_ReadEntry env n"
  shows "\<exists>ps. loadAll env s = Inr ps"
proof -
  have "\<exists>y. readEntry env (pm_registry s) n = Inr y" if "n \<in> fst ` set (pm_registry s)" for n
  proof (cases "map_of (pm_registry s) n")
    case (Some e)
    then have "entry_ok (n, e)" using assms(1) by (auto simp: registry_ok_iff dest: map_of_SomeD)
    with Some assms(3) show ?thesis by (cases e) (auto simp: readEntry_def entry_ok_def)
  qed (simp add: readEntry_def)
  then have "\<exists>os. rmap (readEntry env (pm_registry s)) (sort_by (<) (map fst (pm_registry s))) = Inr os"
    by (intro rmap_total) auto
  with assms(2) show ?thesis by (auto simp: loadAll_def)
qed

lemma Validate_name: "Validate cidrs p = (Inr (), p') \<Longrightarrow> p_Name p' = p_Name p"
  by (cases "p_Action p"; cases "lookupClass (p_Stamp p)") (simp_all add: Validate_Inr derive_direction_def)

lemma validateEntries_member:
  assumes "validateEntries (\<lambda>_. False) ps = Inr rs" "r \<in> set rs"
  shows "policy_ok r \<and> (\<exists>q \<in> set ps. p_Name r = p_Name q)"
proof -
  from rmap_member[OF assms[unfolded validateEntries_def]] obtain q where q: "q \<in> set ps"
    "(case Validate [] q of (Inl e, _) \<Rightarrow> Inl (wrap IllegalFormat ''corrupt policy registry entry'' e) | (Inr _, lp') \<Rightarrow> Inr lp') = Inr r"
    by auto
  then have v: "Validate [] q = (Inr (), r)" by (cases "Validate [] q"; cases "fst (Validate [] q)") auto
  with q show ?thesis using Validate_name[OF v] by (auto simp: Validate_Inr)
qed

section \<open>A kernel for the witnesses\<close>

text \<open>A kernel that accepts every document and remembers the last one.\<close>

definition doc_runner :: "string option runner" where
  "doc_runner = \<lparr>r_Apply = (\<lambda>doc k. (Inr (), Some doc)), r_AddElements = (\<lambda>_ _ k. (Inr (), k)),
     r_DeleteElements = (\<lambda>_ _ k. (Inr (), k)), r_SetElements = (\<lambda>_ _ k. (Inr (), k)), r_ListElements = (\<lambda>_ k. Inr []),
     r_List = (\<lambda>k. case k of None \<Rightarrow> Inl (Err ExternalError ''nft list table failed'') | Some d \<Rightarrow> Inr d),
     r_Delete = (\<lambda>k. (Inr (), None)), r_Exists = (\<lambda>k. Inr (k \<noteq> None))\<rparr>"

definition quiet_env :: pm_env where
  "quiet_env = \<lparr>e_ReadDir = True, e_ReadEntry = (\<lambda>_. True), e_WriteEntry = Written, e_RemoveEntry = True,
     e_ReadArtifact = True, e_WriteArtifact = Written, e_RemoveArtifact = True, e_Lock = LockFree, e_Service = True, e_Now = 1\<rparr>"

definition empty_state :: "string option pm_state" where
  "empty_state = \<lparr>pm_registry = [], pm_artifact = None, pm_kernel = None\<rparr>"

definition deny_state :: "string option pm_state" where
  "deny_state = \<lparr>pm_registry = [(''bn-restricted'', Decoded example_deny)], pm_artifact = Some ''old'', pm_kernel = Some ''old''\<rparr>"

definition other_deny :: policy where
  "other_deny = example_deny\<lparr>p_Name := ''bn-other''\<rparr>"

definition two_denies :: "string option pm_state" where
  "two_denies = deny_state\<lparr>pm_registry := [(''bn-restricted'', Decoded example_deny), (''bn-other'', Decoded other_deny)]\<rparr>"

text \<open>A kernel that is the elements of its sets.\<close>

definition set_runner :: "(string \<Rightarrow> string list) runner" where
  "set_runner = \<lparr>r_Apply = (\<lambda>doc k. (Inr (), k)), r_AddElements = (\<lambda>n es k. (Inr (), k(n := k n @ es))),
     r_DeleteElements = (\<lambda>n es k. (Inr (), k(n := filter (\<lambda>e. e \<notin> set es) (k n)))), r_SetElements = (\<lambda>n es k. (Inr (), k(n := es))),
     r_ListElements = (\<lambda>n k. Inr (k n)), r_List = (\<lambda>k. Inr []), r_Delete = (\<lambda>k. (Inr (), \<lambda>_. [])), r_Exists = (\<lambda>k. Inr True)\<rparr>"

lemma set_runner_Add: "r_AddElements set_runner n es k = (Inr (), k(n := k n @ es))"
  by (simp add: set_runner_def)

definition live_state :: "(string \<Rightarrow> string list) pm_state" where
  "live_state = \<lparr>pm_registry = [(''bn-restricted'', Decoded example_deny)], pm_artifact = None,
     pm_kernel = (\<lambda>n. if n = ''bn-restricted'' then [''10.0.0.0/8''] else [])\<rparr>"

lemma live_run: "fst (Add set_runner quiet_env ''bn-restricted'' [''192.168.0.0/16''] live_state) = Inr ()"
  by code_simp

lemma example_runs:
  "fst (Create doc_runner quiet_env example_deny [''10.0.0.0/8''] [] False empty_state) = Inr True"
  "fst (Delete doc_runner quiet_env ''bn-restricted'' deny_state) = Inr ()"
  "fst (Add doc_runner quiet_env ''bn-restricted'' [''10.0.0.0/8''] deny_state) = Inr ()"
  "fst (Delete doc_runner (quiet_env\<lparr>e_RemoveEntry := False\<rparr>) ''bn-restricted'' deny_state) =
     Inl (Err ExternalError ''failed to remove registry file'')"
  "fst (applySet doc_runner quiet_env ''bn-restricted'' [''10.0.0.0/8'', ''10.1.0.0/16''] derivedMembership deny_state) = Inr ()"
  "fst (Create doc_runner quiet_env other_deny [''10.0.0.0/8''] [] False deny_state) = Inr True"
  "fst (Delete doc_runner quiet_env ''bn-other'' two_denies) = Inr ()"
  by code_simp+

lemma doc_runner_Apply: "r_Apply doc_runner doc k = (Inr (), Some doc)"
  by (simp add: doc_runner_def)

lemma run_eq: "fst x = r \<Longrightarrow> x = (r, snd x)"
  by (metis prod.collapse)

section \<open>Guarantees\<close>

lemma upsert_stored:
  assumes "loadAll env s = Inr ps" "registry_ok (pm_registry s)" "registry_ok (al_put (p_Name p) (Decoded p) (pm_registry s))"
  shows "Render (upsert ps p) m pods = Render (stored_policies (al_put (p_Name p) (Decoded p) (pm_registry s))) m pods"
proof -
  have d: "distinct (map fst (pm_registry s))" "distinct (map p_Name ps)"
    using assms(2) loadAll_stored[OF assms(1,2)] by (auto simp: registry_ok_def)
  have names: "distinct (map p_Name (upsert ps p))"
  proof -
    have "distinct (map p_Name (filter (\<lambda>q. p_Name q \<noteq> p_Name p) ps @ [p]))" using d(2) by (auto simp: distinct_map_filter)
    then show ?thesis unfolding upsert_def by (metis mset_map mset_sort_by mset_eq_imp_distinct_iff)
  qed
  have "set (upsert ps p) = set (stored_policies (al_put (p_Name p) (Decoded p) (pm_registry s)))"
    using loadAll_ok(1)[OF assms(1,2)] by (auto simp: upsert_def set_stored_policies[OF assms(3)] set_al_put[OF d(1)])
  from Render_order[OF stored_mset[OF assms(3) this names] names] show ?thesis .
qed



text \<open>
  Disk follows kernel. Whatever the outcome of \<open>Create\<close>, the registry and the persisted document
  are changed only after the kernel has accepted the new document, and the document is then the one
  the kernel accepted. A failed rendering or a rejected transaction leaves both files as they were.
\<close>

lemma Create_kernel_first:
  assumes "Create R env p0 cidrs podCIDRs force s = (r, s')"
    and "pm_registry s' \<noteq> pm_registry s \<or> pm_artifact s' \<noteq> pm_artifact s"
  shows "\<exists>doc. r_Apply R doc (pm_kernel s) = (Inr (), pm_kernel s') \<and>
    (pm_artifact s' = pm_artifact s \<or> pm_artifact s' = Some doc)"
  using assms(1)
proof (cases rule: Create_cases)
  case (3 p policies0 policies target cidrs')
  from 3(7) show ?thesis by (cases rule: createApply_cases) (use assms(2) in auto)
qed (use assms(2) in auto)

text \<open>
  C33: what a successful \<open>Delete\<close> leaves behind, on a well-formed registry. The registry has lost the policy, which was there. If it was
  the last one, the table is gone from the kernel, or was absent, and no document is persisted. Otherwise the kernel has loaded, and the
  disk holds, the rendering of the whole remaining registry, with the elements that every set of every remaining policy had in the kernel,
  and with the pod networks of the old document if they are needed.
\<close>

theorem Delete_exact:
  assumes "Delete R env name s = (Inr (), s')" "registry_ok (pm_registry s)"
  shows "pm_registry s' = al_del name (pm_registry s) \<and> map_of (pm_registry s) name \<noteq> None \<and>
    (if pm_registry s' = []
     then pm_artifact s' = None \<and>
       (r_Exists R (pm_kernel s) = Inr False \<and> pm_kernel s' = pm_kernel s \<or> r_Delete R (pm_kernel s) = (Inr (), pm_kernel s'))
     else \<exists>membership doc.
       Render (stored_policies (pm_registry s')) membership (delete_pods env (stored_policies (pm_registry s')) s) = Inr doc \<and>
       (\<forall>p \<in> set (stored_policies (pm_registry s')). \<forall>n \<in> set (daemonSetNames p). r_ListElements R n (pm_kernel s) = Inr (membership n)) \<and>
       r_Apply R doc (pm_kernel s) = (Inr (), pm_kernel s') \<and> pm_artifact s' = Some doc)"
proof -
  let ?reg = "al_del name (pm_registry s)"
  have ok: "registry_ok ?reg" using assms(2) by (rule registry_ok_del)
  have rest: "remaining = filter (\<lambda>p. p_Name p \<noteq> name) policies \<and> mset remaining = mset (stored_policies ?reg) \<and> distinct (map p_Name remaining)"
    if l: "loadAll env s = Inr policies" and v: "validateEntries (\<lambda>_. False) (filter (\<lambda>p. p_Name p \<noteq> name) policies) = Inr remaining"
    for policies remaining
  proof -
    have r: "remaining = filter (\<lambda>p. p_Name p \<noteq> name) policies"
      using v validateEntries_ok[of "filter (\<lambda>p. p_Name p \<noteq> name) policies"] loadAll_ok(2)[OF l assms(2)] by auto
    have d: "distinct (map p_Name remaining)" using loadAll_stored[OF l assms(2)] by (simp add: r distinct_map_filter)
    have "p \<in> set remaining \<longleftrightarrow> p \<in> set (stored_policies ?reg)" for p
      using loadAll_ok(1)[OF l assms(2), of p] unfolding set_stored_policies[OF ok] by (auto simp: r set_al_del)
    then have "set remaining = set (stored_policies ?reg)" by blast
    with d r stored_mset[OF ok] show ?thesis by blast
  qed
  have empty: "?reg = [] \<longleftrightarrow> stored_policies ?reg = []"
    using stored_policies_names[of ?reg] ok by (metis map_is_Nil_conv registry_ok_def)
  from assms(1) show ?thesis
  proof (cases rule: Delete_ok)
    case (1 policies remaining)
    with rest[OF 1(1,3)] empty findByName_stored(2)[OF 1(1) assms(2), of name] show ?thesis by simp
  next
    case (2 policies remaining snapshot doc)
    note r = rest[OF 2(1,3)]
    have "?reg \<noteq> []" using r 2(4) empty by auto
    moreover have "set remaining = set (stored_policies ?reg)" using r by (metis mset_eq_setD)
    moreover have "delete_pods env (stored_policies ?reg) s = delete_pods env remaining s"
      using needsPodCIDR_cong[OF \<open>set remaining = _\<close>] by (simp add: delete_pods_def)
    ultimately show ?thesis
      using 2 Render_order[of remaining "stored_policies ?reg"] r findByName_stored(2)[OF 2(1) assms(2), of name] snapshot_lists[OF 2(5)]
      by auto
  qed
qed

theorem Delete_exact_witness:
  "\<exists>m doc. Render [example_deny] m [] = Inr doc \<and> pm_kernel (snd (Delete doc_runner quiet_env ''bn-other'' two_denies)) = Some doc"
proof -
  let ?s = "snd (Delete doc_runner quiet_env ''bn-other'' two_denies)"
  have ok: "registry_ok (pm_registry two_denies)" by code_simp
  have reg: "al_del ''bn-other'' (pm_registry two_denies) = [(''bn-restricted'', Decoded example_deny)]" by code_simp
  have st: "stored_policies [(''bn-restricted'', Decoded example_deny)] = [example_deny]" by (simp add: stored_policies_def map_filter_simps)
  have pods: "delete_pods quiet_env [example_deny] two_denies = []" by code_simp
  note d = Delete_exact[OF run_eq[OF example_runs(7)] ok]
  then have "pm_registry ?s = [(''bn-restricted'', Decoded example_deny)]" by (simp only: reg)
  with d obtain m doc where "Render [example_deny] m [] = Inr doc" "r_Apply doc_runner doc (pm_kernel two_denies) = (Inr (), pm_kernel ?s)"
    by (auto simp only: st pods if_False list.distinct not_Cons_self2 simp_thms)
  then show ?thesis by (intro exI[of _ m] exI[of _ doc]) (simp add: doc_runner_Apply)
qed

text \<open>
  A deletion that fails, at whatever step, leaves the registry as it was, so that running it again
  finds the policy.
\<close>

lemma Delete_failure_keeps_registry:
  assumes "Delete R env name s = (Inl e, s')"
  shows "pm_registry s' = pm_registry s"
  using Delete_keeps_on_error assms unfolding keeps_on_error_def by blast

text \<open>
  C2: the registry stays well formed. In every state that any sequence of operations reaches, under any
  failures of the disk and any behaviour of the kernel, every registry file decodes to a validated policy of
  that name, names are unique, and no two specific stamp policies share a group.
\<close>

theorem registry_invariant:
  assumes "pm_reachable R s"
  shows "registry_ok (pm_registry s)"
  using assms by (rule reachable_registry_ok)

theorem registry_invariant_witness:
  "registry_ok (pm_registry (run_op doc_runner quiet_env (OpCreate example_deny [''10.0.0.0/8''] [] False) empty_state)) \<and>
   pm_registry (run_op doc_runner quiet_env (OpCreate example_deny [''10.0.0.0/8''] [] False) empty_state) \<noteq> []"
proof
  show "registry_ok (pm_registry (run_op doc_runner quiet_env (OpCreate example_deny [''10.0.0.0/8''] [] False) empty_state))"
    by (rule registry_invariant[OF pm_step[OF pm_init]]) (simp add: empty_state_def)
  show "pm_registry (run_op doc_runner quiet_env (OpCreate example_deny [''10.0.0.0/8''] [] False) empty_state) \<noteq> []"
    by code_simp
qed

text \<open>
  The boot document can always be rebuilt. In every reachable state, if the files can be read and
  written and a pod CIDR is given, rendering the registry succeeds and leaves either no document, for an empty registry, or
  a document rendered from all of it.
\<close>

lemma RenderWeaverNft_succeeds:
  assumes "pm_reachable R s" "e_ReadDir env" "\<And>n. e_ReadEntry env n" "e_ReadArtifact env"
    "e_WriteArtifact env = Written" "e_RemoveArtifact env" "partitionPodCIDRs (nonEmptyStrings pods) ([], []) \<noteq> ([], [])"
  shows "\<exists>s' policies. RenderWeaverNft env pods s = (Inr (), s') \<and> loadAll env s = Inr policies \<and>
    pm_registry s' = pm_registry s \<and> pm_kernel s' = pm_kernel s \<and>
    (if policies = [] then pm_artifact s' = None
     else \<exists>doc. Render policies (\<lambda>_. []) (nonEmptyStrings pods) = Inr doc \<and> pm_artifact s' = Some doc)"
proof -
  note ok = reachable_registry_ok[OF assms(1)]
  obtain ps where ps: "loadAll env s = Inr ps" using loadAll_total[OF ok assms(2,3)] by blast
  note valid = loadAll_ok(2)[OF ps ok]
  have pods: "nonEmptyStrings pods \<noteq> []" using assms(7) by auto
  obtain doc where doc: "Render ps (\<lambda>_. []) (nonEmptyStrings pods) = Inr doc"
    using Render_succeeds[OF valid] assms(7) by blast
  show ?thesis
  proof (cases "ps = []")
    case True
    then show ?thesis using ps assms(6) by (simp add: RenderWeaverNft_def sbind_sread removeArtifact_def)
  next
    case False
    then show ?thesis using ps assms(4,5) doc pods validateEntries_ok[OF valid]
      by (simp add: RenderWeaverNft_def sbind_sread Let_def readArtifact_def writeArtifact_def atomicWriteFile_def)
  qed
qed

text \<open>
  C37: what \<open>Add\<close> hands the kernel. When it succeeds, the policy is registered and has a set, every entry is valid for it, the kernel was
  given exactly the entries, split by family, for the two sets of the policy, and the registry is as before; for a plain address set the two
  lists are the entries as written. No two elements among the live ones and the entries that are prefixes for \<open>netip\<close> contain one another.
  Conversely, when two of them do, \<open>Add\<close> fails and changes nothing, neither in the kernel nor on disk.
\<close>

theorem Add_conflict_free:
  assumes "Add R env name cidrs s = (r, s')"
  shows "(r = Inr () \<longrightarrow> (\<exists>p live v4 v6 k1. map_of (pm_registry s) name = Some (Decoded p) \<and> hasCIDRSet p \<and> validateCIDRs p cidrs = Inr () \<and>
      setElementsByFamily p cidrs = (v4, v6) \<and> (\<not> isCompoundSet p \<longrightarrow> set v4 \<union> set v6 = set cidrs) \<and>
      r_AddElements R name v4 (pm_kernel s) = (Inr (), k1) \<and> r_AddElements R (V6SetName name) v6 k1 = (Inr (), pm_kernel s') \<and>
      pm_registry s' = pm_registry s \<and> liveMembership R p (pm_kernel s) = Inr live \<and>
      \<not> (\<exists>x \<in> set (live @ cidrs). \<exists>y \<in> set (live @ cidrs). tok_covers x y))) \<and>
    (\<forall>p live x y. map_of (pm_registry s) name = Some (Decoded p) \<and> liveMembership R p (pm_kernel s) = Inr live \<and>
       x \<in> set (live @ cidrs) \<and> y \<in> set (live @ cidrs) \<and> tok_covers x y \<longrightarrow> \<not> is_ok r \<and> s' = s)"
proof -
  have free: "\<exists>p live. map_of (pm_registry s) name = Some (Decoded p) \<and> hasCIDRSet p \<and> validateCIDRs p cidrs = Inr () \<and>
      liveMembership R p (pm_kernel s) = Inr live \<and> \<not> (\<exists>x \<in> set (live @ cidrs). \<exists>y \<in> set (live @ cidrs). tok_covers x y) \<and>
      sbind (kern (r_AddElements R name (fst (setElementsByFamily p cidrs)))) (\<lambda>_.
        sbind (kern (r_AddElements R (V6SetName name) (snd (setElementsByFamily p cidrs)))) (\<lambda>_. persistMembership R env)) s = (r, s')"
    if "s' \<noteq> s \<or> r = Inr ()"
    using assms that
  proof (cases rule: Add_effect)
    case (1 p live)
    have "map_of (pm_registry s) name = Some (Decoded p) \<and> hasCIDRSet p"
      using 1(1) by (auto simp: requirePolicyWithCIDRSet_def rbind_Inr_iff split: option.splits if_splits dest: readEntry_Some)
    moreover have "\<not> (\<exists>x \<in> set (live @ cidrs). \<exists>y \<in> set (live @ cidrs). tok_covers x y)"
      using 1(5) unfolding rejectContainment_Inr containmentPair_None .
    ultimately show ?thesis using 1 by blast
  qed
  have "\<exists>p live v4 v6 k1. map_of (pm_registry s) name = Some (Decoded p) \<and> hasCIDRSet p \<and> validateCIDRs p cidrs = Inr () \<and>
      setElementsByFamily p cidrs = (v4, v6) \<and> (\<not> isCompoundSet p \<longrightarrow> set v4 \<union> set v6 = set cidrs) \<and>
      r_AddElements R name v4 (pm_kernel s) = (Inr (), k1) \<and> r_AddElements R (V6SetName name) v6 k1 = (Inr (), pm_kernel s') \<and>
      pm_registry s' = pm_registry s \<and> liveMembership R p (pm_kernel s) = Inr live \<and>
      \<not> (\<exists>x \<in> set (live @ cidrs). \<exists>y \<in> set (live @ cidrs). tok_covers x y)" if r: "r = Inr ()"
  proof -
    from free r obtain p live where p: "map_of (pm_registry s) name = Some (Decoded p)" "hasCIDRSet p" "validateCIDRs p cidrs = Inr ()"
      "liveMembership R p (pm_kernel s) = Inr live" "\<not> (\<exists>x \<in> set (live @ cidrs). \<exists>y \<in> set (live @ cidrs). tok_covers x y)"
      and run: "sbind (kern (r_AddElements R name (fst (setElementsByFamily p cidrs)))) (\<lambda>_.
        sbind (kern (r_AddElements R (V6SetName name) (snd (setElementsByFamily p cidrs)))) (\<lambda>_. persistMembership R env)) s = (Inr (), s')" by blast
    obtain v4 v6 where v: "setElementsByFamily p cidrs = (v4, v6)" by fastforce
    from run obtain s1 s2 where k: "kern (r_AddElements R name v4) s = (Inr (), s1)" "kern (r_AddElements R (V6SetName name) v6) s1 = (Inr (), s2)"
      "persistMembership R env s2 = (Inr (), s')" by (auto simp: sbind_Inr_iff v)
    have "pm_registry s' = pm_registry s2" "pm_kernel s' = pm_kernel s2" using k(3) keepsD[OF keeps_persist(1)] keepsD[OF keeps_persist(2)] by blast+
    with k(1,2) p v elements_of_families[OF p(3)] show ?thesis by (auto simp: kern_ok)
  qed
  moreover have "\<not> is_ok r \<and> s' = s" if "map_of (pm_registry s) name = Some (Decoded p)" "liveMembership R p (pm_kernel s) = Inr live"
    "x \<in> set (live @ cidrs)" "y \<in> set (live @ cidrs)" "tok_covers x y" for p live x y
    using free that by (cases "s' \<noteq> s \<or> r = Inr ()") (auto simp: is_ok_unit)
  ultimately show ?thesis by blast
qed

theorem Add_conflict_free_witness:
  "pm_kernel (snd (Add set_runner quiet_env ''bn-restricted'' [''192.168.0.0/16''] live_state)) ''bn-restricted'' = [''10.0.0.0/8'', ''192.168.0.0/16''] \<and>
   snd (Add set_runner quiet_env ''bn-restricted'' [''10.1.0.0/16''] live_state) = live_state"
proof
  have p: "map_of (pm_registry live_state) ''bn-restricted'' = Some (Decoded example_deny)"
    and k: "pm_kernel live_state = (\<lambda>n. if n = ''bn-restricted'' then [''10.0.0.0/8''] else [])" by (simp_all add: live_state_def)
  let ?s = "snd (Add set_runner quiet_env ''bn-restricted'' [''192.168.0.0/16''] live_state)"
  have e: "setElementsByFamily example_deny [''192.168.0.0/16''] = ([''192.168.0.0/16''], [])" by code_simp
  from Add_conflict_free[OF run_eq[OF live_run]] p e obtain k1 where
    "r_AddElements set_runner ''bn-restricted'' [''192.168.0.0/16''] (pm_kernel live_state) = (Inr (), k1)"
    "r_AddElements set_runner (V6SetName ''bn-restricted'') [] k1 = (Inr (), pm_kernel ?s)" by auto
  then have "pm_kernel ?s = k1(V6SetName ''bn-restricted'' := k1 (V6SetName ''bn-restricted'') @ [])"
    "k1 = (pm_kernel live_state)(''bn-restricted'' := pm_kernel live_state ''bn-restricted'' @ [''192.168.0.0/16''])"
    unfolding set_runner_Add by simp_all
  then show "pm_kernel ?s ''bn-restricted'' = [''10.0.0.0/8'', ''192.168.0.0/16'']" by (simp only: k) (simp add: V6SetName_def)
  have live: "liveMembership set_runner example_deny (pm_kernel live_state) = Inr [''10.0.0.0/8'']" by code_simp
  have cov: "tok_covers ''10.0.0.0/8'' ''10.1.0.0/16''" by code_simp
  show "snd (Add set_runner quiet_env ''bn-restricted'' [''10.1.0.0/16''] live_state) = live_state"
    using Add_conflict_free[OF prod.collapse[symmetric], of set_runner quiet_env "''bn-restricted''" "[''10.1.0.0/16'']" live_state, THEN conjunct2,
      rule_format, of example_deny "[''10.0.0.0/8'']" "''10.0.0.0/8''" "''10.1.0.0/16''"] p live cov by simp
qed

text \<open>
  The write path of the daemon. When a reconciled set is applied successfully, the two family sets were
  replaced, in this order, by the elements of the pruned list; that list has no containment, and every
  address that an element of the given list matches is matched by one that was written.
\<close>

lemma applySet_derived:
  assumes "applySet R env name cidrs derivedMembership s = (Inr (), s')"
  shows "\<exists>p kept v4 v6 k1. map_of (pm_registry s) name = Some (Decoded p) \<and> setElementsByFamily p kept = (v4, v6) \<and>
    r_SetElements R name v4 (pm_kernel s) = (Inr (), k1) \<and>
    r_SetElements R (V6SetName name) v6 k1 = (Inr (), pm_kernel s') \<and>
    set kept \<subseteq> set cidrs \<and> \<not> (\<exists>x \<in> set kept. \<exists>y \<in> set kept. tok_covers x y) \<and>
    (\<forall>c \<in> set cidrs. \<forall>a. tok_matches c a \<longrightarrow> (\<exists>x \<in> set kept. tok_matches x a))"
  using assms
proof (cases rule: applySet_effect)
  case (1 p kept v4 v6 k1)
  have kept: "kept = PruneContainedCIDRs cidrs" using 1(3) by simp
  have "map_of (pm_registry s) name = Some (Decoded p)"
    using 1(1) by (auto simp: requirePolicyWithCIDRSet_def rbind_Inr_iff split: option.splits if_splits dest: readEntry_Some)
  moreover have "set kept \<subseteq> set cidrs" "\<not> (\<exists>x \<in> set kept. \<exists>y \<in> set kept. tok_covers x y)"
    unfolding kept Prune_eq_filter by auto
  moreover have "\<exists>x \<in> set kept. tok_matches x a" if "c \<in> set cidrs" "tok_matches c a" for c a
    using Prune_keeps_match[OF that] by (simp add: kept)
  ultimately show ?thesis using 1 by blast
qed

end
