(* ===== verification/ShapeModel.thy ===== *)
theory ShapeModel
  imports GoStd
begin

text \<open>
  \<open>internal/network/shape\<close>: the tc classes and devices, bandwidth strings, validation, overrides,
  default profiles, the boot script and the tc argument encoding (\<open>class.go\<close>, \<open>device.go\<close>,
  \<open>validate.go\<close>, \<open>override.go\<close>, \<open>speed.go\<close>, \<open>defaults.go\<close>, \<open>render.go\<close>, \<open>tc.go\<close>, \<open>detect.go\<close>, \<open>stats.go\<close>).

  Values of type \<open>int64\<close> are integers; every operation on them that can overflow is followed by
  \<open>wrap64\<close>. A time stamp is an integer, and 0 is the zero time.
\<close>

section \<open>Machine arithmetic\<close>

definition wrap64 :: "int \<Rightarrow> int" where
  "wrap64 x = (x + 2 ^ 63) mod 2 ^ 64 - 2 ^ 63"

text \<open>Integer division of Go truncates towards zero.\<close>

definition quot :: "int \<Rightarrow> int \<Rightarrow> int" where
  "quot a b = sgn a * sgn b * (\<bar>a\<bar> div \<bar>b\<bar>)"

lemma wrap64_id [simp]: "- (2 ^ 63) \<le> x \<Longrightarrow> x < 2 ^ 63 \<Longrightarrow> wrap64 x = x"
  by (simp add: wrap64_def)

lemma wrap64_bounds: "- (2 ^ 63) \<le> wrap64 x" "wrap64 x < 2 ^ 63"
proof -
  have "0 \<le> (x + 2 ^ 63) mod 2 ^ 64" "(x + 2 ^ 63) mod 2 ^ 64 < (2 :: int) ^ 64" by simp_all
  then show "- (2 ^ 63) \<le> wrap64 x" "wrap64 x < 2 ^ 63" by (simp_all add: wrap64_def)
qed

lemma quot_nonneg: "0 \<le> a \<Longrightarrow> 0 < b \<Longrightarrow> quot a b = a div b"
  by (cases "a = 0") (simp_all add: quot_def)

section \<open>Classes and devices\<close>

definition DirIngress :: string where "DirIngress = ''ingress''"
definition DirEgress :: string where "DirEgress = ''egress''"

record classInfo =
  ci_Minor :: string
  ci_Handle :: string
  ci_Dir :: string

definition classInfoMap :: "(string \<times> classInfo) list" where
  "classInfoMap =
     [(''publisher'', \<lparr>ci_Minor = ''10'', ci_Handle = ''110'', ci_Dir = DirIngress\<rparr>),
      (''backfill-response'', \<lparr>ci_Minor = ''20'', ci_Handle = ''120'', ci_Dir = DirIngress\<rparr>),
      (''reserve-ingress'', \<lparr>ci_Minor = ''30'', ci_Handle = ''130'', ci_Dir = DirIngress\<rparr>),
      (''partner'', \<lparr>ci_Minor = ''40'', ci_Handle = ''140'', ci_Dir = DirEgress\<rparr>),
      (''public'', \<lparr>ci_Minor = ''50'', ci_Handle = ''150'', ci_Dir = DirEgress\<rparr>),
      (''reserve-egress'', \<lparr>ci_Minor = ''60'', ci_Handle = ''160'', ci_Dir = DirEgress\<rparr>)]"

definition lookupClassInfo :: "string \<Rightarrow> classInfo result" where
  "lookupClassInfo name = (case map_of classInfoMap name of
     None \<Rightarrow> Inl (Err IllegalArgument ''unknown class'') | Some c \<Rightarrow> Inr c)"

definition knownClassNames :: "string list" where
  "knownClassNames = sort_by (<) (map fst classInfoMap)"

definition knownClassNamesForDir :: "string \<Rightarrow> string list" where
  "knownClassNamesForDir dir = sort_by (<) (map fst (filter (\<lambda>nc. ci_Dir (snd nc) = dir) classInfoMap))"

record ClassConfig =
  cc_Name :: string
  cc_Rate :: string
  cc_Ceil :: string
  cc_Prio :: int
  cc_CreatedAt :: int

record DeviceConfig =
  dc_Dir :: string
  dc_Rate :: string
  dc_DefaultClass :: string
  dc_CreatedAt :: int

definition effectiveCeil :: "ClassConfig \<Rightarrow> string" where
  "effectiveCeil c = (if cc_Ceil c \<noteq> [] then cc_Ceil c else cc_Rate c)"

section \<open>Bandwidth strings\<close>

text \<open>
  \<open>strings.ToLower\<close>. Two code points outside ASCII have an ASCII lower case: U+212A (Kelvin sign,
  bytes E2 84 AA) and U+0130 (bytes C4 B0). Any other code point outside ASCII stays outside
  ASCII and is left as it is here: no test in this package tells such bytes apart.
\<close>

fun lower_utf8 :: "string \<Rightarrow> string" where
  "lower_utf8 [] = []"
| "lower_utf8 (c # s) =
     (if take 2 s = [CHR 0x84, CHR 0xAA] \<and> c = CHR 0xE2 then CHR ''k'' # lower_utf8 (drop 2 s)
      else if take 1 s = [CHR 0xB0] \<and> c = CHR 0xC4 then CHR ''i'' # lower_utf8 (drop 1 s)
      else to_lower c # lower_utf8 s)"

definition bandwidth_suffix :: "string \<Rightarrow> (int \<times> string) option" where
  "bandwidth_suffix low =
     (if strings_HasSuffix low ''gbit'' then Some (1000000000, take (length low - 4) low)
      else if strings_HasSuffix low ''mbit'' then Some (1000000, take (length low - 4) low)
      else if strings_HasSuffix low ''kbit'' then Some (1000, take (length low - 4) low)
      else if strings_HasSuffix low ''bit'' then Some (1, take (length low - 3) low)
      else None)"

definition parseBandwidthBps :: "string \<Rightarrow> int result" where
  "parseBandwidthBps s =
     (let low = lower_utf8 (strings_TrimSpace s) in
      case bandwidth_suffix low of
        None \<Rightarrow> Inl (Err IllegalArgument ''invalid bandwidth: expected a number followed by a unit'')
      | Some (multiplier, numStr) \<Rightarrow>
          (case strconv_ParseInt numStr of
             None \<Rightarrow> Inl (Err IllegalArgument ''invalid bandwidth: numeric part must be a positive integer'')
           | Some n \<Rightarrow>
               if n \<le> 0 then Inl (Err IllegalArgument ''invalid bandwidth: numeric part must be a positive integer'')
               else Inr (wrap64 (n * multiplier))))"

section \<open>Validation\<close>

definition validateDir :: "string \<Rightarrow> unit result" where
  "validateDir dir = (if dir \<noteq> DirIngress \<and> dir \<noteq> DirEgress
     then Inl (Err IllegalArgument ''--device must be ingress or egress'') else Inr ())"

definition validatePrio :: "int \<Rightarrow> unit result" where
  "validatePrio prio = (if prio < 0 \<or> prio > 7 then Inl (Err IllegalArgument ''--prio must be in [0,7]'') else Inr ())"

definition validateDefaultClass :: "string \<Rightarrow> string \<Rightarrow> unit result" where
  "validateDefaultClass className dir = rbind (lookupClassInfo className) (\<lambda>info.
     if ci_Dir info \<noteq> dir then Inl (Err IllegalArgument ''class cannot be the default for the device'') else Inr ())"

definition validateRate :: "string \<Rightarrow> unit result" where
  "validateRate rate =
     (if strings_TrimSpace rate = [] then Inl (Err IllegalArgument ''--rate must not be empty'')
      else rbind (parseBandwidthBps rate) (\<lambda>_. Inr ()))"

definition validateCeilGeRate :: "string \<Rightarrow> string \<Rightarrow> unit result" where
  "validateCeilGeRate ceil rate = rbind (parseBandwidthBps ceil) (\<lambda>ceilBps.
     case parseBandwidthBps rate of
       Inl _ \<Rightarrow> Inr ()
     | Inr rateBps \<Rightarrow> if ceilBps < rateBps then Inl (Err IllegalArgument ''--ceil must be >= --rate'') else Inr ())"

definition validateClassFields :: "string \<Rightarrow> string \<Rightarrow> int \<Rightarrow> unit result" where
  "validateClassFields rate ceil prio =
     rbind (validateRate rate) (\<lambda>_.
     rbind (if ceil \<noteq> [] then validateCeilGeRate ceil rate else Inr ()) (\<lambda>_.
     validatePrio prio))"

definition add_rate :: "int \<Rightarrow> ClassConfig \<Rightarrow> int" where
  "add_rate acc c = (case parseBandwidthBps (cc_Rate c) of Inl _ \<Rightarrow> acc | Inr bps \<Rightarrow> wrap64 (acc + bps))"

definition sumParseableRatesBps :: "ClassConfig list \<Rightarrow> int" where
  "sumParseableRatesBps classes = foldl add_rate 0 classes"

definition validateSumRates :: "ClassConfig list \<Rightarrow> ClassConfig \<Rightarrow> string \<Rightarrow> unit result" where
  "validateSumRates existing cfg deviceRate =
     (case parseBandwidthBps deviceRate of
        Inl _ \<Rightarrow> Inr ()
      | Inr deviceBps \<Rightarrow> (case parseBandwidthBps (cc_Rate cfg) of
          Inl _ \<Rightarrow> Inr ()
        | Inr newBps \<Rightarrow>
            (let siblings = filter (\<lambda>c. cc_Name c \<noteq> cc_Name cfg) existing;
                 total = wrap64 (sumParseableRatesBps siblings + newBps)
             in if total > deviceBps then Inl (Err IllegalArgument ''total class rates would exceed device root rate'')
                else Inr ())))"

section \<open>Overrides\<close>

record ClassOverride =
  co_Rate :: string
  co_Ceil :: string
  co_Prio :: "int option"

definition ValidateClassOverride :: "string \<Rightarrow> ClassOverride \<Rightarrow> unit result" where
  "ValidateClassOverride name ov =
     rbind (lookupClassInfo name) (\<lambda>_.
     rbind (if co_Rate ov \<noteq> [] then map_err (decorate ''invalid --shape rate'') (validateRate (co_Rate ov)) else Inr ()) (\<lambda>_.
     rbind (if co_Ceil ov \<noteq> [] then map_err (decorate ''invalid --shape ceil'') (validateRate (co_Ceil ov)) else Inr ()) (\<lambda>_.
     rbind (if co_Rate ov \<noteq> [] \<and> co_Ceil ov \<noteq> [] then validateCeilGeRate (co_Ceil ov) (co_Rate ov) else Inr ()) (\<lambda>_.
     case co_Prio ov of None \<Rightarrow> Inr () | Some prio \<Rightarrow> validatePrio prio))))"

definition applyClassOverride :: "(string \<times> ClassOverride) list \<Rightarrow> ClassConfig \<Rightarrow> ClassConfig" where
  "applyClassOverride overrides c = (case map_of overrides (cc_Name c) of
     None \<Rightarrow> c
   | Some ov \<Rightarrow> c\<lparr>cc_Rate := (if co_Rate ov \<noteq> [] then co_Rate ov else cc_Rate c),
                 cc_Ceil := (if co_Ceil ov \<noteq> [] then co_Ceil ov else cc_Ceil c),
                 cc_Prio := (case co_Prio ov of None \<Rightarrow> cc_Prio c | Some prio \<Rightarrow> prio)\<rparr>)"

definition applyClassOverrides :: "ClassConfig list \<Rightarrow> (string \<times> ClassOverride) list \<Rightarrow> ClassConfig list" where
  "applyClassOverrides classes overrides = map (applyClassOverride overrides) classes"

definition validateProvisionedClasses :: "ClassConfig list \<Rightarrow> string \<Rightarrow> unit result" where
  "validateProvisionedClasses classes deviceRate =
     rbind (check_all (\<lambda>c. map_err (decorate ''class'') (validateClassFields (cc_Rate c) (cc_Ceil c) (cc_Prio c))) classes) (\<lambda>_.
     case parseBandwidthBps deviceRate of
       Inl _ \<Rightarrow> Inr ()
     | Inr deviceBps \<Rightarrow> if sumParseableRatesBps classes > deviceBps
         then Inl (Err IllegalArgument ''total class rates exceed the device root rate'') else Inr ())"

section \<open>Link speed\<close>

definition readLinkSpeedMbitFrom :: "string option \<Rightarrow> int option" where
  "readLinkSpeedMbitFrom raw = (case raw of
     None \<Rightarrow> None
   | Some r \<Rightarrow> (case strconv_Atoi (strings_TrimSpace r) of
       None \<Rightarrow> None | Some n \<Rightarrow> if n \<le> 0 then None else Some n))"

definition ReadLinkSpeedMbit :: "(string \<Rightarrow> string option) \<Rightarrow> string \<Rightarrow> int option" where
  "ReadLinkSpeedMbit sysfs nic = (if CHR ''/'' \<in> set nic then None
     else readLinkSpeedMbitFrom (sysfs (''/sys/class/net/'' @ nic @ ''/speed'')))"

definition DefaultLinkSpeedMbit :: int where "DefaultLinkSpeedMbit = 1000"

definition FormatSpeedHint :: "int \<Rightarrow> string" where
  "FormatSpeedHint mbit = (if mbit \<ge> 1000 \<and> mbit mod 1000 = 0 then itoa_int (quot mbit 1000) @ ''gbit''
     else itoa_int mbit @ ''mbit'')"

definition ParseSpeedMbit :: "string \<Rightarrow> int option" where
  "ParseSpeedMbit s0 =
     (let s = lower_utf8 (strings_TrimSpace s0) in
      if s = [] then None
      else if strings_HasSuffix s ''gbit'' then
        (case strconv_Atoi (strings_TrimSuffix s ''gbit'') of
           None \<Rightarrow> None | Some n \<Rightarrow> if n \<le> 0 then None else Some (wrap64 (n * 1000)))
      else if strings_HasSuffix s ''mbit'' then
        (case strconv_Atoi (strings_TrimSuffix s ''mbit'') of
           None \<Rightarrow> None | Some n \<Rightarrow> if n \<le> 0 then None else Some n)
      else None)"

section \<open>Default profiles\<close>

record defaultClassSpec =
  ds_name :: string
  ds_ratePct :: int
  ds_ceilPct :: int
  ds_ceilFull :: bool
  ds_prio :: int

record defaultProfile =
  dp_dir :: string
  dp_defaultClass :: string
  dp_classes :: "defaultClassSpec list"

definition egressProfile :: defaultProfile where
  "egressProfile = \<lparr>dp_dir = DirEgress, dp_defaultClass = ''reserve-egress'', dp_classes =
     [\<lparr>ds_name = ''partner'', ds_ratePct = 40, ds_ceilPct = 70, ds_ceilFull = False, ds_prio = 0\<rparr>,
      \<lparr>ds_name = ''public'', ds_ratePct = 30, ds_ceilPct = 70, ds_ceilFull = False, ds_prio = 5\<rparr>,
      \<lparr>ds_name = ''reserve-egress'', ds_ratePct = 30, ds_ceilPct = 0, ds_ceilFull = True, ds_prio = 1\<rparr>]\<rparr>"

definition ingressProfile :: defaultProfile where
  "ingressProfile = \<lparr>dp_dir = DirIngress, dp_defaultClass = ''reserve-ingress'', dp_classes =
     [\<lparr>ds_name = ''publisher'', ds_ratePct = 80, ds_ceilPct = 0, ds_ceilFull = True, ds_prio = 0\<rparr>,
      \<lparr>ds_name = ''backfill-response'', ds_ratePct = 10, ds_ceilPct = 0, ds_ceilFull = True, ds_prio = 7\<rparr>,
      \<lparr>ds_name = ''reserve-ingress'', ds_ratePct = 10, ds_ceilPct = 0, ds_ceilFull = True, ds_prio = 1\<rparr>]\<rparr>"

definition pct_mbit :: "int \<Rightarrow> int \<Rightarrow> string" where
  "pct_mbit mbps pct = itoa_int (quot (wrap64 (mbps * pct)) 100) @ ''mbit''"

definition defaultClass :: "string \<Rightarrow> int \<Rightarrow> int \<Rightarrow> defaultClassSpec \<Rightarrow> ClassConfig" where
  "defaultClass trunkRate mbps now c =
     \<lparr>cc_Name = ds_name c, cc_Rate = pct_mbit mbps (ds_ratePct c),
      cc_Ceil = (if \<not> ds_ceilFull c then pct_mbit mbps (ds_ceilPct c) else trunkRate),
      cc_Prio = ds_prio c, cc_CreatedAt = now\<rparr>"

definition buildDefaultConfig :: "defaultProfile \<Rightarrow> string \<Rightarrow> int \<Rightarrow> (DeviceConfig \<times> ClassConfig list) result" where
  "buildDefaultConfig p trunkRate now =
     rbind (map_err (wrap IllegalArgument ''invalid trunk rate'') (parseBandwidthBps trunkRate)) (\<lambda>bps.
     Inr (\<lparr>dc_Dir = dp_dir p, dc_Rate = trunkRate, dc_DefaultClass = dp_defaultClass p, dc_CreatedAt = now\<rparr>,
          map (defaultClass trunkRate (quot bps 1000000) now) (dp_classes p)))"

definition sameBandwidth :: "string \<Rightarrow> string \<Rightarrow> bool" where
  "sameBandwidth a b = (case (parseBandwidthBps a, parseBandwidthBps b) of
     (Inr aBps, Inr bBps) \<Rightarrow> aBps = bBps
   | _ \<Rightarrow> strings_TrimSpace a = strings_TrimSpace b)"

text \<open>\<open>byName\<close> is filled in order, so the last class of a name wins.\<close>

definition mergeClass :: "bool \<Rightarrow> ClassConfig list \<Rightarrow> ClassConfig \<Rightarrow> ClassConfig" where
  "mergeClass keepClassRates existingClasses c =
     (case find (\<lambda>e. cc_Name e = cc_Name c) (rev existingClasses) of
        None \<Rightarrow> c
      | Some prev \<Rightarrow>
          (let c1 = (if cc_CreatedAt prev \<noteq> 0 then c\<lparr>cc_CreatedAt := cc_CreatedAt prev\<rparr> else c)
           in if keepClassRates then c1\<lparr>cc_Rate := cc_Rate prev, cc_Ceil := cc_Ceil prev, cc_Prio := cc_Prio prev\<rparr> else c1))"

definition mergeExistingConfig ::
    "DeviceConfig \<Rightarrow> ClassConfig list \<Rightarrow> DeviceConfig option \<Rightarrow> ClassConfig list \<Rightarrow> DeviceConfig \<times> ClassConfig list" where
  "mergeExistingConfig dev classes existingDev existingClasses = (case existingDev of
     None \<Rightarrow> (dev, classes)
   | Some ex \<Rightarrow>
       (let dev1 = (if dc_CreatedAt ex \<noteq> 0 then dev\<lparr>dc_CreatedAt := dc_CreatedAt ex\<rparr> else dev);
            keepClassRates = sameBandwidth (dc_Rate ex) (dc_Rate dev1);
            dev2 = (if keepClassRates then dev1\<lparr>dc_Rate := dc_Rate ex\<rparr> else dev1)
        in (dev2, map (mergeClass keepClassRates existingClasses) classes)))"

definition defaultEgressConfig :: "string \<Rightarrow> int \<Rightarrow> (DeviceConfig \<times> ClassConfig list) result" where
  "defaultEgressConfig trunkRate now = buildDefaultConfig egressProfile trunkRate now"

definition defaultIngressConfig :: "string \<Rightarrow> int \<Rightarrow> (DeviceConfig \<times> ClassConfig list) result" where
  "defaultIngressConfig trunkRate now = buildDefaultConfig ingressProfile trunkRate now"

section \<open>Facts about bandwidth strings\<close>

text \<open>Bytes that \<open>strings.TrimSpace\<close> may remove.\<close>

definition space_bytes :: "char set" where
  "space_bytes = (\<Union>r \<in> set space_runes. set r)"

lemma trim_runes_removed: "set s \<subseteq> set (trim_runes rs s) \<union> (\<Union>r \<in> set rs. set r)"
proof (induction rs s rule: trim_runes.induct)
  case (1 rs s)
  show ?case
  proof (cases "s = [] \<or> space_len rs s = 0")
    case True
    then show ?thesis by (subst trim_runes.simps) auto
  next
    case False
    then obtain r where r: "find (\<lambda>r. prefix r s) rs = Some r" by (auto simp: space_len_def split: option.splits)
    then have "r \<in> set rs" "prefix r s" by (auto simp: find_Some_iff)
    moreover have "space_len rs s = length r" using r by (simp add: space_len_def)
    ultimately have "set s = set r \<union> set (drop (space_len rs s) s)" by (auto simp: prefix_def)
    with 1[OF False] \<open>r \<in> set rs\<close> False show ?thesis by (subst trim_runes.simps) auto
  qed
qed

lemma TrimSpace_removed: "set s \<subseteq> set (strings_TrimSpace s) \<union> space_bytes"
proof -
  have "set s \<subseteq> set (trim_runes space_runes s) \<union> space_bytes"
    using trim_runes_removed[of s space_runes] by (simp add: space_bytes_def)
  moreover have "set (trim_runes space_runes s) \<subseteq> set (strings_TrimSpace s) \<union> space_bytes"
    using trim_runes_removed[of "rev (trim_runes space_runes s)" "map rev space_runes"]
    by (simp add: space_bytes_def strings_TrimSpace_def)
  ultimately show ?thesis by blast
qed

lemma lower_utf8_removed:
  "set s \<subseteq> {c. to_lower c \<in> set (lower_utf8 s)} \<union> {CHR 0xE2, CHR 0x84, CHR 0xAA, CHR 0xC4, CHR 0xB0}"
proof (induction s rule: lower_utf8.induct)
  case (2 c s)
  consider "take 2 s = [CHR 0x84, CHR 0xAA] \<and> c = CHR 0xE2"
    | "\<not> (take 2 s = [CHR 0x84, CHR 0xAA] \<and> c = CHR 0xE2)" "take 1 s = [CHR 0xB0] \<and> c = CHR 0xC4"
    | "\<not> (take 2 s = [CHR 0x84, CHR 0xAA] \<and> c = CHR 0xE2)" "\<not> (take 1 s = [CHR 0xB0] \<and> c = CHR 0xC4)" by blast
  then show ?case
  proof cases
    case 1
    moreover have "set s = set (take 2 s) \<union> set (drop 2 s)" by (metis append_take_drop_id set_append)
    ultimately show ?thesis using 2(1)[OF 1] by auto
  next
    case c: 2
    moreover have "set s = set (take 1 s) \<union> set (drop 1 s)" by (metis append_take_drop_id set_append)
    ultimately show ?thesis using 2(2)[OF c] by (simp add: c) (auto simp: c)
  next
    case 3
    then show ?thesis using 2(3)[OF 3] by (auto simp del: take_eq_Nil)
  qed
qed simp

lemma lower_utf8_id: "list_all (\<lambda>c. byte c < 128 \<and> \<not> is_upper c) s \<Longrightarrow> lower_utf8 s = s"
  by (induction s rule: lower_utf8.induct) (auto simp: to_lower_def)

lemma HasSuffix_same_length: "length u = length v \<Longrightarrow> strings_HasSuffix (x @ u) v \<longleftrightarrow> u = v"
  by (auto simp: strings_HasSuffix_def suffix_def)

text \<open>The units, with their multipliers.\<close>

definition units :: "(string \<times> int) list" where
  "units = [(''gbit'', 1000000000), (''mbit'', 1000000), (''kbit'', 1000), (''bit'', 1)]"

lemma units_cases:
  assumes "(u, m) \<in> set units"
  obtains "u = ''gbit''" "m = 1000000000" | "u = ''mbit''" "m = 1000000" | "u = ''kbit''" "m = 1000" | "u = ''bit''" "m = 1"
  using assms by (auto simp: units_def)

lemma bandwidth_suffix_Some:
  assumes "bandwidth_suffix low = Some (m, num)"
  shows "\<exists>u. low = num @ u \<and> (u, m) \<in> set units"
proof -
  have cut: "low = take (length low - n) low @ v" if "strings_HasSuffix low v" "length v = n" for v n
    using that by (auto simp: strings_HasSuffix_def suffix_def)
  show ?thesis
    using assms cut[of "''gbit''" 4] cut[of "''mbit''" 4] cut[of "''kbit''" 4] cut[of "''bit''" 3]
    by (auto simp: bandwidth_suffix_def units_def split: if_splits)
qed

lemma parseBandwidthBps_Inr:
  "parseBandwidthBps s = Inr v \<longleftrightarrow> (\<exists>m num n. bandwidth_suffix (lower_utf8 (strings_TrimSpace s)) = Some (m, num) \<and>
     strconv_ParseInt num = Some n \<and> 0 < n \<and> v = wrap64 (n * m))"
  by (auto simp: parseBandwidthBps_def Let_def split: option.splits if_splits)

lemma ParseInt_chars: "strconv_ParseInt s = Some n \<Longrightarrow> c \<in> set s \<Longrightarrow> is_digit c \<or> c = CHR ''-'' \<or> c = CHR ''+''"
  by (cases s) (auto simp: strconv_ParseInt_def Let_def list_all_iff split: if_splits)

text \<open>The bytes of a string that parses as a bandwidth.\<close>

definition rate_byte :: "char \<Rightarrow> bool" where
  "rate_byte c \<longleftrightarrow> is_alnum c \<or> c = CHR ''-'' \<or> c = CHR ''+'' \<or> c \<in> space_bytes \<or> 128 \<le> byte c"

lemma rate_bytes:
  assumes "parseBandwidthBps s = Inr v" "c \<in> set s"
  shows "rate_byte c"
proof -
  from assms(1) obtain m num n where p: "bandwidth_suffix (lower_utf8 (strings_TrimSpace s)) = Some (m, num)"
    "strconv_ParseInt num = Some n" by (auto simp: parseBandwidthBps_Inr)
  then obtain u where u: "lower_utf8 (strings_TrimSpace s) = num @ u" "(u, m) \<in> set units"
    using bandwidth_suffix_Some by blast
  have low: "is_digit d \<or> d = CHR ''-'' \<or> d = CHR ''+'' \<or> is_lower d" if "d \<in> set (lower_utf8 (strings_TrimSpace s))" for d
    using that u(2) ParseInt_chars[OF p(2), of d] unfolding u(1) by (auto simp: units_def is_lower_def)
  have "c \<in> set (strings_TrimSpace s) \<or> c \<in> space_bytes" using TrimSpace_removed assms(2) by blast
  then have "to_lower c \<in> set (lower_utf8 (strings_TrimSpace s)) \<or> 128 \<le> byte c \<or> c \<in> space_bytes"
    using lower_utf8_removed[of "strings_TrimSpace s"] by auto
  then show ?thesis using low[of "to_lower c"] by (auto simp: rate_byte_def is_alnum_def to_lower_def split: if_splits)
qed

lemma rate_byte_plain: "rate_byte c \<Longrightarrow> c \<notin> {CHR 0x22, CHR ''$'', CHR 0x60, CHR 0x5C, CHR '';'', CHR ''&'', CHR ''|''}"
proof -
  have "list_all (\<lambda>c. \<not> rate_byte c) [CHR 0x22, CHR ''$'', CHR 0x60, CHR 0x5C, CHR '';'', CHR ''&'', CHR ''|'']"
    by (simp add: rate_byte_def is_alnum_def is_lower_def is_upper_def is_digit_def space_bytes_def space_runes_def)
  then show "rate_byte c \<Longrightarrow> ?thesis" by auto
qed

lemma suffix_number_unit:
  assumes "0 \<le> n" "(u, m) \<in> set units"
  shows "lower_utf8 (strings_TrimSpace (itoa n @ u)) = itoa n @ u" "bandwidth_suffix (itoa n @ u) = Some (m, itoa n)"
proof -
  have d: "list_all is_digit (itoa n)" using itoa_digits assms(1) by simp
  have g: "list_all graphic (itoa n @ u)" "list_all (\<lambda>c. byte c < 128 \<and> \<not> is_upper c) (itoa n @ u)"
    using d assms(2) by (auto simp: list_all_iff is_digit_def graphic_def is_upper_def elim!: units_cases)
  show "lower_utf8 (strings_TrimSpace (itoa n @ u)) = itoa n @ u"
    using TrimSpace_all_graphic[OF g(1)] lower_utf8_id[OF g(2)] by simp
  have no_suffix: "\<not> strings_HasSuffix (itoa n @ ''bit'') v" if "v \<in> {''gbit'', ''mbit'', ''kbit''}" for v
  proof -
    obtain xs x where x: "itoa n = xs @ [x]" by (cases "itoa n" rule: rev_cases) auto
    then have "is_digit x" using d by simp
    then have "x # ''bit'' \<noteq> v" using that by (auto simp: is_digit_def)
    then show ?thesis using HasSuffix_same_length[of "x # ''bit''" v xs] that by (auto simp: x)
  qed
  show "bandwidth_suffix (itoa n @ u) = Some (m, itoa n)"
    using assms(2) no_suffix by (elim units_cases) (simp_all add: bandwidth_suffix_def HasSuffix_same_length)
qed

lemma parse_number_unit:
  assumes "0 \<le> n" "n < 2 ^ 63" "(u, m) \<in> set units"
  shows "parseBandwidthBps (itoa n @ u) =
    (if n = 0 then Inl (Err IllegalArgument ''invalid bandwidth: numeric part must be a positive integer'')
     else Inr (wrap64 (n * m)))"
  using suffix_number_unit[OF assms(1,3)] ParseInt_itoa assms by (simp add: parseBandwidthBps_def)

lemma parseBandwidthBps_blank: "strings_TrimSpace r = [] \<Longrightarrow> \<exists>e. parseBandwidthBps r = Inl e"
  by (simp add: parseBandwidthBps_def bandwidth_suffix_def strings_HasSuffix_def)

lemma validateRate_Inr: "validateRate r = Inr () \<longleftrightarrow> (\<exists>v. parseBandwidthBps r = Inr v)"
  using parseBandwidthBps_blank[of r] by (auto simp: validateRate_def rbind_Inr_iff)

lemma validateClassFields_Inr:
  "validateClassFields rate ceil prio = Inr () \<longleftrightarrow>
     (\<exists>r. parseBandwidthBps rate = Inr r \<and> (ceil = [] \<or> (\<exists>c. parseBandwidthBps ceil = Inr c \<and> r \<le> c))) \<and> 0 \<le> prio \<and> prio \<le> 7"
  by (auto simp: validateClassFields_def validateRate_Inr validateCeilGeRate_def validatePrio_def rbind_Inr_iff split: if_splits)

section \<open>Facts about the default profiles\<close>

lemma pct_mbit_nonneg:
  assumes "0 \<le> mbps" "mbps * 100 < 2 ^ 63" "0 \<le> pct" "pct \<le> 100"
  shows "pct_mbit mbps pct = itoa (mbps * pct div 100) @ ''mbit''"
proof -
  have "0 \<le> mbps * pct" "mbps * pct \<le> mbps * 100" using assms by (auto intro: mult_left_mono)
  then show ?thesis using assms(2) by (simp add: pct_mbit_def quot_nonneg itoa_int_def pos_imp_zdiv_neg_iff)
qed

lemma parse_pct:
  assumes "0 \<le> bps" "bps < 2 ^ 63" "0 \<le> pct" "pct \<le> 100"
  shows "parseBandwidthBps (pct_mbit (bps div 1000000) pct) =
    (if bps div 1000000 * pct div 100 = 0 then Inl (Err IllegalArgument ''invalid bandwidth: numeric part must be a positive integer'')
     else Inr (bps div 1000000 * pct div 100 * 1000000))"
proof -
  let ?m = "bps div 1000000" let ?n = "?m * pct div 100"
  have m: "0 \<le> ?m" "?m * 1000000 \<le> bps" using assms(1) by (simp_all add: pos_imp_zdiv_nonneg_iff)
  have p: "0 \<le> ?m * pct" "?m * pct \<le> ?m * 100" using m assms(3,4) by (auto intro: mult_left_mono)
  have n: "0 \<le> ?n" "?n \<le> ?m" using p by (auto simp: pos_imp_zdiv_nonneg_iff intro: zdiv_mono1[of _ "?m * 100" 100, simplified])
  have "pct_mbit ?m pct = itoa ?n @ ''mbit''" using pct_mbit_nonneg[of ?m pct] m assms(2-4) by simp
  moreover have "(''mbit'', 1000000) \<in> set units" by (simp add: units_def)
  ultimately show ?thesis using parse_number_unit[of ?n "''mbit''" 1000000] n m assms(2) by simp
qed

text \<open>What is checked of one default class.\<close>

lemma default_class_fields:
  assumes "parseBandwidthBps trunk = Inr bps" "0 \<le> bps" "bps < 2 ^ 63"
    and "0 \<le> ds_ratePct c" "ds_ratePct c \<le> 100" "0 \<le> ds_prio c" "ds_prio c \<le> 7"
    and "ds_ceilFull c \<or> ds_ratePct c \<le> ds_ceilPct c \<and> ds_ceilPct c \<le> 100"
  shows "validateClassFields (cc_Rate (defaultClass trunk (bps div 1000000) now c)) (cc_Ceil (defaultClass trunk (bps div 1000000) now c))
      (cc_Prio (defaultClass trunk (bps div 1000000) now c)) = Inr () \<longleftrightarrow> bps div 1000000 * ds_ratePct c div 100 \<noteq> 0"
proof -
  define m where "m = bps div 1000000"
  define r where "r = m * ds_ratePct c div 100"
  define k where "k = m * ds_ceilPct c div 100"
  have m: "0 \<le> m" "m * 1000000 \<le> bps" using assms(2) by (simp_all add: m_def pos_imp_zdiv_nonneg_iff)
  have r: "0 \<le> r" "r \<le> m"
    using m(1) assms(4,5) zdiv_mono1[of "m * ds_ratePct c" "m * 100" 100]
    by (simp_all add: r_def pos_imp_zdiv_nonneg_iff mult_left_mono)
  have rate: "parseBandwidthBps (pct_mbit m (ds_ratePct c)) = Inr v \<longleftrightarrow> r \<noteq> 0 \<and> v = r * 1000000" for v
    using parse_pct[OF assms(2,3,4,5), folded m_def, folded r_def] by auto
  show ?thesis
  proof (cases "ds_ceilFull c")
    case True
    have "trunk \<noteq> []" using assms(1) parseBandwidthBps_blank[of trunk] TrimSpace_graphic[of "[]"] by auto
    moreover have "r * 1000000 \<le> bps" using r m by linarith
    ultimately show ?thesis
      unfolding m_def[symmetric] r_def[symmetric] validateClassFields_Inr
      using True assms(1,6,7) rate by (simp add: defaultClass_def)
  next
    case False
    then have ceil: "parseBandwidthBps (pct_mbit m (ds_ceilPct c)) = Inr v \<longleftrightarrow> k \<noteq> 0 \<and> v = k * 1000000" for v
      using parse_pct[OF assms(2,3), of "ds_ceilPct c", folded m_def, folded k_def] assms(4,8) by auto
    have "r \<le> k" unfolding r_def k_def using False assms(8) m(1) by (intro zdiv_mono1 mult_left_mono) auto
    moreover have "pct_mbit m (ds_ceilPct c) \<noteq> []" by (simp add: pct_mbit_def)
    ultimately show ?thesis
      unfolding m_def[symmetric] r_def[symmetric] validateClassFields_Inr
      using False assms(6,7) rate ceil r by (auto simp: defaultClass_def)
  qed
qed

lemma sum_pct:
  assumes "0 \<le> bps" "bps < 2 ^ 63" "0 \<le> acc" "acc + bps div 1000000 * pct div 100 * 1000000 < 2 ^ 63"
    and "0 \<le> pct" "pct \<le> 100" "cc_Rate c = pct_mbit (bps div 1000000) pct"
  shows "add_rate acc c = acc + bps div 1000000 * pct div 100 * 1000000"
proof -
  have "0 \<le> bps div 1000000 * pct div 100" using assms(1,5) by (simp add: pos_imp_zdiv_nonneg_iff)
  then show ?thesis using parse_pct[OF assms(1,2,5,6)] assms(3,4,7) by (auto simp: add_rate_def)
qed

text \<open>The rates of a profile add up to at most the trunk, so only a rate of zero can fail the check.\<close>

lemma profile_check:
  assumes "parseBandwidthBps trunk = Inr bps" "0 \<le> bps" "bps < 2 ^ 63"
    and spec: "\<forall>x \<in> set [a, b, c]. 0 \<le> ds_ratePct x \<and> ds_ratePct x \<le> 100 \<and> 0 \<le> ds_prio x \<and> ds_prio x \<le> 7 \<and>
      (ds_ceilFull x \<or> ds_ratePct x \<le> ds_ceilPct x \<and> ds_ceilPct x \<le> 100)"
    and full: "ds_ratePct a + ds_ratePct b + ds_ratePct c = 100"
  shows "validateProvisionedClasses (map (defaultClass trunk (bps div 1000000) now) [a, b, c]) trunk = Inr () \<longleftrightarrow>
    (\<forall>x \<in> set [a, b, c]. bps div 1000000 * ds_ratePct x div 100 \<noteq> 0)"
proof -
  define m where "m = bps div 1000000"
  have m: "0 \<le> m" "m * 1000000 \<le> bps" using assms(2) by (simp_all add: m_def pos_imp_zdiv_nonneg_iff)
  define r where "r x = m * ds_ratePct x div 100" for x :: defaultClassSpec
  have r: "0 \<le> r x" "r x * 100 \<le> m * ds_ratePct x" if "x \<in> set [a, b, c]" for x
    using that m spec by (auto simp: r_def pos_imp_zdiv_nonneg_iff)
  have "m * ds_ratePct a + m * ds_ratePct b + m * ds_ratePct c = m * 100"
    using full by (metis distrib_left)
  then have sum: "r a + r b + r c \<le> m" using r(2)[of a] r(2)[of b] r(2)[of c] by simp
  have R: "cc_Rate (defaultClass trunk m now x) = pct_mbit m (ds_ratePct x)" for x by (simp add: defaultClass_def)
  note add = sum_pct[OF assms(2,3), folded m_def, OF _ _ _ _ R, folded r_def]
  have "sumParseableRatesBps (map (defaultClass trunk m now) [a, b, c]) = r a * 1000000 + r b * 1000000 + r c * 1000000"
    using r(1)[of a] r(1)[of b] r(1)[of c] sum m assms(3) spec by (simp add: sumParseableRatesBps_def add)
  then have ok: "sumParseableRatesBps (map (defaultClass trunk m now) [a, b, c]) \<le> bps" using sum m by simp
  have fields: "validateClassFields (cc_Rate (defaultClass trunk m now x)) (cc_Ceil (defaultClass trunk m now x))
      (cc_Prio (defaultClass trunk m now x)) = Inr () \<longleftrightarrow> r x \<noteq> 0" if "x \<in> set [a, b, c]" for x
    using default_class_fields[OF assms(1,2,3), folded m_def, folded r_def] spec that by blast
  have "check_all (\<lambda>c. map_err (decorate ''class'') (validateClassFields (cc_Rate c) (cc_Ceil c) (cc_Prio c)))
      (map (defaultClass trunk m now) [a, b, c]) = Inr () \<longleftrightarrow> (\<forall>x \<in> set [a, b, c]. r x \<noteq> 0)"
    unfolding check_all_Inr using fields by simp
  with ok show ?thesis
    unfolding m_def[symmetric] r_def[symmetric] validateProvisionedClasses_def rbind_Inr_unit assms(1) sum.case by (simp add: not_less)
qed

lemma mega: "0 \<le> (bps :: int) \<Longrightarrow> k \<le> bps div 1000000 \<longleftrightarrow> k * 1000000 \<le> bps"
  by linarith

lemma pct_pos: "0 \<le> (m :: int) \<Longrightarrow> m * p div 100 \<noteq> 0 \<longleftrightarrow> 100 \<le> m * p \<or> m * p < 0"
  by linarith

section \<open>Guarantees\<close>

text \<open>
  Bandwidth values are 64-bit and wrap around. A number with a unit parses to the product modulo
  \<open>2 ^ 64\<close>, which is the product itself below \<open>2 ^ 63\<close>; above, the value that the checks compare is not the
  bandwidth that was asked for: 18446744074 gbit counts as 290 Mbit.
\<close>

lemma parseBandwidthBps_wraps:
  assumes "0 < n" "n < 2 ^ 63" "(u, m) \<in> set units"
  shows "parseBandwidthBps (itoa n @ u) = Inr (wrap64 (n * m)) \<and>
    (n * m < 2 ^ 63 \<longrightarrow> parseBandwidthBps (itoa n @ u) = Inr (n * m)) \<and>
    parseBandwidthBps ''18446744074gbit'' = Inr 290448384"
proof -
  have "0 \<le> n * m" using assms(1,3) by (auto elim!: units_cases)
  moreover have "parseBandwidthBps ''18446744074gbit'' = Inr 290448384" by code_simp
  ultimately show ?thesis using parse_number_unit[of n u m] assms by simp
qed

text \<open>
  No injection through a rate. A rate that passes validation has no byte that is special to the shell
  between double quotes, nor a quote or a command separator, so that the boot script, which root executes, runs the
  commands of its template and no others.
\<close>

lemma validateRate_no_injection:
  assumes "validateRate rate = Inr ()"
  shows "set rate \<inter> {CHR 0x22, CHR ''$'', CHR 0x60, CHR 0x5C, CHR '';'', CHR ''&'', CHR ''|''} = {}"
proof -
  from assms obtain v where v: "parseBandwidthBps rate = Inr v" by (auto simp: validateRate_Inr)
  show ?thesis using rate_byte_plain[OF rate_bytes[OF v]] by blast
qed

text \<open>
  A link speed survives being shown and read. The hint that is printed for a positive speed parses back to it,
  both as a speed and, while the value fits 64 bits, as a bandwidth.
\<close>

lemma FormatSpeedHint_roundtrip:
  assumes "0 < n" "n < 2 ^ 63"
  shows "ParseSpeedMbit (FormatSpeedHint n) = Some n \<and>
    (n * 1000000 < 2 ^ 63 \<longrightarrow> parseBandwidthBps (FormatSpeedHint n) = Inr (n * 1000000))"
proof -
  have u: "(''gbit'', 1000000000) \<in> set units" "(''mbit'', 1000000) \<in> set units" by (simp_all add: units_def)
  show ?thesis
  proof (cases "n \<ge> 1000 \<and> n mod 1000 = 0")
    case True
    define k where "k = n div 1000"
    have k: "n = k * 1000" "0 < k" using True unfolding k_def by auto
    have "FormatSpeedHint n = itoa k @ ''gbit''"
      using True k by (simp add: FormatSpeedHint_def quot_nonneg itoa_int_def)
    then show ?thesis using k assms suffix_number_unit(1)[OF _ u(1), of k] parse_number_unit[OF _ _ u(1), of k]
      by (simp add: ParseSpeedMbit_def HasSuffix_same_length strings_TrimSuffix_def Atoi_itoa)
  next
    case False
    then have "FormatSpeedHint n = itoa n @ ''mbit''" using assms by (auto simp: FormatSpeedHint_def itoa_int_def)
    then show ?thesis using assms suffix_number_unit(1)[OF _ u(2), of n] parse_number_unit[OF _ _ u(2), of n]
      by (simp add: ParseSpeedMbit_def HasSuffix_same_length strings_TrimSuffix_def Atoi_itoa)
  qed
qed

text \<open>
  When the default profiles are usable. For a trunk rate that is read as a positive number of bits per
  second, the computed classes pass the check made before they are stored exactly if the trunk is at least 4 Mbit/s
  for egress and 10 Mbit/s for ingress; below, a class is given the rate \<open>0mbit\<close>.
\<close>

lemma default_profiles_valid:
  assumes "parseBandwidthBps trunk = Inr bps" "0 < bps"
  shows "(\<exists>dev classes. buildDefaultConfig egressProfile trunk now = Inr (dev, classes) \<and>
      (validateProvisionedClasses classes (dc_Rate dev) = Inr () \<longleftrightarrow> 4000000 \<le> bps)) \<and>
    (\<exists>dev classes. buildDefaultConfig ingressProfile trunk now = Inr (dev, classes) \<and>
      (validateProvisionedClasses classes (dc_Rate dev) = Inr () \<longleftrightarrow> 10000000 \<le> bps))"
proof -
  have b: "0 \<le> bps" "bps < 2 ^ 63"
    using assms wrap64_bounds(2) by (auto simp: parseBandwidthBps_Inr simp del: wrap64_id)
  have m: "0 \<le> bps div 1000000" using b(1) by (simp add: pos_imp_zdiv_nonneg_iff)
  have q: "quot bps 1000000 = bps div 1000000" using b by (simp add: quot_nonneg)
  have "validateProvisionedClasses (map (defaultClass trunk (bps div 1000000) now) (dp_classes egressProfile)) trunk = Inr () \<longleftrightarrow>
      (\<forall>x \<in> set (dp_classes egressProfile). bps div 1000000 * ds_ratePct x div 100 \<noteq> 0)"
    unfolding egressProfile_def defaultProfile.simps by (rule profile_check[OF assms(1) b]) simp_all
  moreover have "(\<forall>x \<in> set (dp_classes egressProfile). bps div 1000000 * ds_ratePct x div 100 \<noteq> 0) \<longleftrightarrow> 4000000 \<le> bps"
    unfolding mega[OF b(1), of 4, simplified, symmetric] using m pct_pos[OF m, of 40] pct_pos[OF m, of 30]
    by (auto simp: egressProfile_def)
  moreover have "validateProvisionedClasses (map (defaultClass trunk (bps div 1000000) now) (dp_classes ingressProfile)) trunk = Inr () \<longleftrightarrow>
      (\<forall>x \<in> set (dp_classes ingressProfile). bps div 1000000 * ds_ratePct x div 100 \<noteq> 0)"
    unfolding ingressProfile_def defaultProfile.simps by (rule profile_check[OF assms(1) b]) simp_all
  moreover have "(\<forall>x \<in> set (dp_classes ingressProfile). bps div 1000000 * ds_ratePct x div 100 \<noteq> 0) \<longleftrightarrow> 10000000 \<le> bps"
    unfolding mega[OF b(1), of 10, simplified, symmetric] using m pct_pos[OF m, of 80] pct_pos[OF m, of 10]
    by (auto simp: ingressProfile_def)
  ultimately show ?thesis using assms(1) q by (simp add: buildDefaultConfig_def)
qed

end
