(* ===== verification/ShapeRender.thy ===== *)
theory ShapeRender
  imports ShapeModel
begin

text \<open>
  The text that the shaping plane hands to other programs: the boot script of \<open>render.go\<close> with its
  template \<open>solo-provisioner-bandwidth-shaper.sh.tmpl\<close> expanded, the argument vectors of \<open>tc.go\<close>,
  and the readings of \<open>detect.go\<close> and \<open>stats.go\<close>.
\<close>

section \<open>Boot script\<close>

definition nicNameRe :: "string \<Rightarrow> bool" where
  "nicNameRe s \<longleftrightarrow> 1 \<le> length s \<and> length s \<le> 15 \<and> list_all (\<lambda>c. is_alnum c \<or> c \<in> set ''._-'') s"

record classRenderData =
  cr_Minor :: string
  cr_Handle :: string
  cr_Rate :: string
  cr_Ceil :: string
  cr_Prio :: int

record deviceRenderData =
  dr_DefaultMinor :: string
  dr_Rate :: string

record scriptData =
  sd_NIC :: string
  sd_SpeedMbit :: int
  sd_Device :: deviceRenderData
  sd_Classes :: "classRenderData list"
  sd_Unshape :: bool

definition dq :: char where "dq = CHR 0x22"

definition dquote :: "string \<Rightarrow> string" where
  "dquote s = dq # s @ [dq]"

definition script_head :: "string list" where
  "script_head =
     [''#!/bin/sh'',
      ''# Managed by solo-provisioner. Re-rendered by `network shape create/set/delete` and `block node install`; do not edit.'',
      ''#'',
      ''# Replays the $EGRESS HTB hierarchy at boot. Idempotent: delete the root qdisc'',
      ''# first (cascades to all classes and leaf qdiscs), then add everything fresh.'',
      ''# fq_codel does not support tc'' @ [CHR 0x27] @ ''s change() operation, so replace/change is not'',
      ''# viable for leaf qdiscs.'',
      ''set -e'',
      []]"

definition del_root_line :: string where
  "del_root_line = ''tc qdisc del dev '' @ dquote ''$NIC'' @ '' root 2>/dev/null || true''"

definition add_root_line :: "string \<Rightarrow> string" where
  "add_root_line defaultMinor = ''tc qdisc add dev '' @ dquote ''$NIC'' @ '' root handle 1: htb default '' @ defaultMinor"

definition trunk_line :: "string \<Rightarrow> string" where
  "trunk_line rate = ''tc class  add dev '' @ dquote ''$NIC'' @ '' parent 1:   classid 1:1  htb rate '' @
     dquote rate @ '' ceil '' @ dquote rate"

definition class_line :: "classRenderData \<Rightarrow> string" where
  "class_line c = ''tc class  add dev '' @ dquote ''$NIC'' @ '' parent 1:1  classid 1:'' @ cr_Minor c @ '' htb rate '' @
     dquote (cr_Rate c) @ '' ceil '' @ dquote (cr_Ceil c) @ '' prio '' @ itoa_int (cr_Prio c)"

definition leaf_line :: "classRenderData \<Rightarrow> string" where
  "leaf_line c = ''tc qdisc  add dev '' @ dquote ''$NIC'' @ '' parent 1:'' @ cr_Minor c @ '' handle '' @ cr_Handle c @ '': fq_codel''"

definition speed_lines :: "string list" where
  "speed_lines =
     [''# Detect link speed in Mbit/s. The kernel uses -1 for '' @ dquote ''unknown'' @ '' (common on'',
      ''# virtual NICs and at early boot before the link is established). Suppress'',
      ''# any read error so set -e never fires here (e.g. udev may not have renamed'',
      ''# the NIC yet if the service starts very early). Fall back to 1000 Mbit/s.'',
      ''SPEED=$(cat /sys/class/net/'' @ dquote ''$NIC'' @ ''/speed 2>/dev/null || echo -1)'',
      ''[ '' @ dquote ''${SPEED:-0}'' @ '' -gt 0 ] 2>/dev/null || SPEED=1000'']"

definition shape_lines :: "scriptData \<Rightarrow> string list" where
  "shape_lines d =
     (if sd_SpeedMbit d < 0 then [] else speed_lines) @
     [[], ''# Remove any existing root qdisc (and all its children). Silent no-op if absent.'',
      del_root_line,
      [],
      ''# Root HTB qdisc: unmatched traffic falls to default class 1:'' @ dr_DefaultMinor (sd_Device d) @ ''.'',
      add_root_line (dr_DefaultMinor (sd_Device d)),
      [],
      ''# Trunk class: full link rate as the ceiling for the whole hierarchy.'',
      trunk_line (dr_Rate (sd_Device d))] @
     concat (map (\<lambda>c. [[], class_line c, leaf_line c]) (sd_Classes d)) @ [[]]"

definition unshape_lines :: "string list" where
  "unshape_lines =
     [[], ''# Traffic shaping disabled: remove any existing root qdisc (cascading to all'',
      ''# classes and leaf qdiscs) and leave the NIC unshaped. No hierarchy is re-added.'',
      del_root_line]"

definition script_lines :: "scriptData \<Rightarrow> string list" where
  "script_lines d = script_head @ [''NIC='' @ dquote (sd_NIC d)] @
     (if sd_Unshape d then unshape_lines else shape_lines d)"

definition renderTcEgressScriptFromData :: "scriptData \<Rightarrow> string result" where
  "renderTcEgressScriptFromData d =
     (if \<not> nicNameRe (sd_NIC d) then Inl (Err IllegalArgument ''egress NIC name is invalid'')
      else Inr (concat (map (\<lambda>l. l @ [nl]) (script_lines d))))"

definition defaultScriptData :: "string \<Rightarrow> scriptData" where
  "defaultScriptData nicName =
     \<lparr>sd_NIC = nicName, sd_SpeedMbit = 0,
      sd_Device = \<lparr>dr_DefaultMinor = ''60'', dr_Rate = ''${SPEED}mbit''\<rparr>,
      sd_Classes =
        [\<lparr>cr_Minor = ''40'', cr_Handle = ''140'', cr_Rate = ''$(( SPEED * 40 / 100 ))mbit'', cr_Ceil = ''$(( SPEED * 70 / 100 ))mbit'', cr_Prio = 0\<rparr>,
         \<lparr>cr_Minor = ''50'', cr_Handle = ''150'', cr_Rate = ''$(( SPEED * 30 / 100 ))mbit'', cr_Ceil = ''$(( SPEED * 70 / 100 ))mbit'', cr_Prio = 5\<rparr>,
         \<lparr>cr_Minor = ''60'', cr_Handle = ''160'', cr_Rate = ''$(( SPEED * 30 / 100 ))mbit'', cr_Ceil = ''${SPEED}mbit'', cr_Prio = 1\<rparr>],
      sd_Unshape = False\<rparr>"

definition renderTcEgressScript :: "string \<Rightarrow> string result" where
  "renderTcEgressScript nicName = renderTcEgressScriptFromData (defaultScriptData nicName)"

definition renderTcEgressUnshapeScript :: "string \<Rightarrow> string result" where
  "renderTcEgressUnshapeScript nicName = renderTcEgressScriptFromData
     \<lparr>sd_NIC = nicName, sd_SpeedMbit = -1, sd_Device = \<lparr>dr_DefaultMinor = [], dr_Rate = []\<rparr>, sd_Classes = [], sd_Unshape = True\<rparr>"

definition classRender :: "ClassConfig \<Rightarrow> classRenderData result" where
  "classRender cls = rbind (lookupClassInfo (cc_Name cls)) (\<lambda>ci.
     Inr \<lparr>cr_Minor = ci_Minor ci, cr_Handle = ci_Handle ci, cr_Rate = cc_Rate cls, cr_Ceil = effectiveCeil cls, cr_Prio = cc_Prio cls\<rparr>)"

definition renderTcEgressScriptFromConfig :: "string \<Rightarrow> DeviceConfig \<Rightarrow> ClassConfig list \<Rightarrow> string result" where
  "renderTcEgressScriptFromConfig nicName dev classes =
     rbind (lookupClassInfo (dc_DefaultClass dev)) (\<lambda>info.
     rbind (rmap classRender classes) (\<lambda>crs.
     renderTcEgressScriptFromData
       \<lparr>sd_NIC = nicName, sd_SpeedMbit = -1,
        sd_Device = \<lparr>dr_DefaultMinor = ci_Minor info, dr_Rate = dc_Rate dev\<rparr>,
        sd_Classes = crs, sd_Unshape = False\<rparr>))"

section \<open>Arguments of tc\<close>

definition tcQdiscDelRootArgs :: "string \<Rightarrow> string list" where
  "tcQdiscDelRootArgs nic = [''qdisc'', ''del'', ''dev'', nic, ''root'']"

definition tcQdiscAddRootArgs :: "string \<Rightarrow> string \<Rightarrow> string list" where
  "tcQdiscAddRootArgs nic defaultMinor =
     [''qdisc'', ''add'', ''dev'', nic, ''root'', ''handle'', ''1:'', ''htb'', ''default'', defaultMinor]"

definition tcClassAddRootArgs :: "string \<Rightarrow> string \<Rightarrow> string \<Rightarrow> string list" where
  "tcClassAddRootArgs nic rate ceil =
     [''class'', ''add'', ''dev'', nic, ''parent'', ''1:'', ''classid'', ''1:1'', ''htb'', ''rate'', rate, ''ceil'', ceil]"

definition tcClassAddArgs :: "string \<Rightarrow> string \<Rightarrow> string \<Rightarrow> string \<Rightarrow> int \<Rightarrow> string list" where
  "tcClassAddArgs nic minor rate ceil prio =
     [''class'', ''add'', ''dev'', nic, ''parent'', ''1:1'', ''classid'', ''1:'' @ minor, ''htb'', ''rate'', rate, ''ceil'', ceil, ''prio'', itoa_int prio]"

definition tcClassChangeArgs :: "string \<Rightarrow> string \<Rightarrow> string \<Rightarrow> string \<Rightarrow> int \<Rightarrow> string list" where
  "tcClassChangeArgs nic minor rate ceil prio =
     [''class'', ''change'', ''dev'', nic, ''parent'', ''1:1'', ''classid'', ''1:'' @ minor, ''htb'', ''rate'', rate, ''ceil'', ceil, ''prio'', itoa_int prio]"

definition tcQdiscAddFqCodelArgs :: "string \<Rightarrow> string \<Rightarrow> string \<Rightarrow> string list" where
  "tcQdiscAddFqCodelArgs nic minor handle =
     [''qdisc'', ''add'', ''dev'', nic, ''parent'', ''1:'' @ minor, ''handle'', handle @ '':'', ''fq_codel'']"

section \<open>Words of a line\<close>

text \<open>\<open>strings.Fields\<close>, with the word read so far.\<close>

function fields_from :: "string \<Rightarrow> string \<Rightarrow> string list" where
  "fields_from w s = (let done = (if w = [] then [] else [w]) in
     if s = [] then done
     else if space_len space_runes s \<noteq> 0 then done @ fields_from [] (drop (space_len space_runes s) s)
     else fields_from (w @ [hd s]) (tl s))"
  by pat_completeness auto
termination
  by (relation "measure (\<lambda>(w, s). length s)") auto

declare fields_from.simps [simp del]

definition strings_Fields :: "string \<Rightarrow> string list" where
  "strings_Fields s = fields_from [] s"

section \<open>Route table\<close>

text \<open>The lines of \<open>bufio.Scanner\<close> up to the first one that exceeds its buffer, and whether there is such a line.\<close>

definition drop_cr :: "string \<Rightarrow> string" where
  "drop_cr l = (if l \<noteq> [] \<and> last l = CHR 0x0D then butlast l else l)"

definition scan_lines :: "string \<Rightarrow> string list \<times> bool" where
  "scan_lines s =
     (let raw = strings_Split nl s;
          ls = (if last raw = [] then butlast raw else raw);
          fits = (\<lambda>l. length l < 65536)
      in (map drop_cr (takeWhile fits ls), \<not> list_all fits ls))"

definition ParseUint16_32 :: "string \<Rightarrow> int option" where
  "ParseUint16_32 s = (if s \<noteq> [] \<and> list_all is_hex s \<and> hexs_val s < 2 ^ 32 then Some (hexs_val s) else None)"

definition route_iface :: "string \<Rightarrow> string option" where
  "route_iface l = (case strings_Fields l of
     iface # dest # _ # fl # _ \<Rightarrow>
       (case ParseUint16_32 fl of
          None \<Rightarrow> None
        | Some flags \<Rightarrow> if dest = ''00000000'' \<and> flags div 2 mod 2 \<noteq> 0 \<and> flags mod 2 \<noteq> 0 then Some iface else None)
   | _ \<Rightarrow> None)"

definition detectEgressInterfaceFrom :: "string option \<Rightarrow> string result" where
  "detectEgressInterfaceFrom content = (case content of
     None \<Rightarrow> Inl (Err ExternalError ''failed to open the route table'')
   | Some c \<Rightarrow> (case scan_lines c of (ls, too_long) \<Rightarrow>
       (case List.map_filter route_iface (drop 1 ls) of
          iface # _ \<Rightarrow> Inr iface
        | [] \<Rightarrow> if too_long then Inl (Err ExternalError ''failed to read the route table'')
                else Inl (Err IllegalState ''no default route found''))))"

section \<open>Counters\<close>

record ClassStat =
  cs_ClassID :: string
  cs_Bytes :: "64 word"
  cs_Packets :: "64 word"
  cs_Drops :: "64 word"
  cs_Overlimits :: "64 word"

record 'f ClassDelta =
  cd_Name :: string
  cd_ClassID :: string
  cd_RateBitsPerSec :: 'f
  cd_BytesDelta :: "64 word"
  cd_OverlimitsDelta :: "64 word"
  cd_DropsDelta :: "64 word"

record WatchSpec =
  ws_Device :: string
  ws_Iface :: string
  ws_Class :: string

definition resolveWatchClasses :: "WatchSpec \<Rightarrow> (string \<times> string list) result" where
  "resolveWatchClasses spec =
     (if ws_Device spec = [] then Inl (Err IllegalArgument ''--device is required'')
      else rbind (validateDir (ws_Device spec)) (\<lambda>_.
        if ws_Class spec \<noteq> [] then
          rbind (lookupClassInfo (ws_Class spec)) (\<lambda>ci.
          if ci_Dir ci \<noteq> ws_Device spec then Inl (Err IllegalArgument ''--class is not a class of --device'')
          else Inr (ws_Device spec, [ws_Class spec]))
        else Inr (ws_Device spec, knownClassNamesForDir (ws_Device spec))))"

definition monotonicDelta :: "64 word \<Rightarrow> 64 word \<Rightarrow> 64 word" where
  "monotonicDelta prev cur = (if cur < prev then 0 else cur - prev)"

definition zeroStat :: ClassStat where
  "zeroStat = \<lparr>cs_ClassID = [], cs_Bytes = 0, cs_Packets = 0, cs_Drops = 0, cs_Overlimits = 0\<rparr>"

text \<open>\<open>classDeltas\<close>; the floating-point rate of a byte difference over the elapsed time is the
  parameter \<open>rate\<close>.\<close>

definition classDelta :: "(64 word \<Rightarrow> 'f) \<Rightarrow> (string \<times> ClassStat) list \<Rightarrow> (string \<times> ClassStat) list \<Rightarrow> string \<Rightarrow> 'f ClassDelta option" where
  "classDelta rate prev cur name = (case lookupClassInfo name of
     Inl _ \<Rightarrow> None
   | Inr ci \<Rightarrow>
       (let classid = ''1:'' @ ci_Minor ci in
        case map_of cur classid of
          None \<Rightarrow> None
        | Some c \<Rightarrow>
            (let p = (case map_of prev classid of None \<Rightarrow> zeroStat | Some p \<Rightarrow> p);
                 bytesDelta = monotonicDelta (cs_Bytes p) (cs_Bytes c)
             in Some \<lparr>cd_Name = name, cd_ClassID = classid, cd_RateBitsPerSec = rate bytesDelta,
                      cd_BytesDelta = bytesDelta,
                      cd_OverlimitsDelta = monotonicDelta (cs_Overlimits p) (cs_Overlimits c),
                      cd_DropsDelta = monotonicDelta (cs_Drops p) (cs_Drops c)\<rparr>)))"

definition classDeltas :: "(64 word \<Rightarrow> 'f) \<Rightarrow> (string \<times> ClassStat) list \<Rightarrow> (string \<times> ClassStat) list \<Rightarrow> string list \<Rightarrow> 'f ClassDelta list" where
  "classDeltas rate prev cur classes =
     sort_by (\<lambda>a b. cd_ClassID a < cd_ClassID b) (List.map_filter (classDelta rate prev cur) classes)"

section \<open>Facts about words\<close>

lemma space_len_graphic: "graphic c \<Longrightarrow> space_len space_runes (c # s) = 0"
proof -
  assume "graphic c"
  then have "\<not> prefix r (c # s)" if "r \<in> set space_runes" for r
    using space_runes_graphic(1) that by (cases r) auto
  then show ?thesis by (simp add: space_len_def find_None_iff[THEN iffD2])
qed

lemma fields_word: "list_all graphic w \<Longrightarrow> fields_from v (w @ s) = fields_from (v @ w) s"
proof (induction w arbitrary: v)
  case (Cons c w)
  have "fields_from v (c # w @ s) = fields_from (v @ [c]) (w @ s)"
    using Cons.prems by (subst fields_from.simps) (simp add: space_len_graphic)
  with Cons show ?case by simp
qed simp

lemma fields_blank: "fields_from v (CHR '' '' # s) = (if v = [] then [] else [v]) @ fields_from [] s"
proof -
  have "space_len space_runes (CHR '' '' # s) = 1" by (simp add: space_len_def space_runes_def)
  then show ?thesis by (subst fields_from.simps) (simp add: Let_def)
qed

lemma fields_end: "fields_from v [] = (if v = [] then [] else [v])"
  by (subst fields_from.simps) (simp add: Let_def)

lemma fields_char: "graphic c \<Longrightarrow> fields_from v (c # s) = fields_from (v @ [c]) s"
  using fields_word[of "[c]" v s] by simp

lemmas fields_simps = fields_word fields_blank fields_end fields_char

text \<open>A word as the shell passes it on, without the double quotes.\<close>

definition unquote :: "string \<Rightarrow> string" where
  "unquote w = filter (\<lambda>c. c \<noteq> dq) w"

text \<open>A word of the script: printable ASCII without the double quote.\<close>

definition plain_word :: "string \<Rightarrow> bool" where
  "plain_word w \<longleftrightarrow> w \<noteq> [] \<and> list_all (\<lambda>c. graphic c \<and> c \<noteq> dq) w"

lemma plain_wordD:
  "plain_word w \<Longrightarrow> list_all graphic w" "plain_word w \<Longrightarrow> filter (\<lambda>c. c \<noteq> dq) w = w"
  "plain_word w \<Longrightarrow> fields_from [] w = [w]"
  using fields_word[of w "[]" "[]"] by (auto simp: plain_word_def list_all_iff filter_id_conv fields_end)

lemma plain_itoa_int: "plain_word (itoa_int i)"
proof -
  have "plain_word (itoa n)" if "0 \<le> n" for n
    using itoa_digits[OF that] itoa_nonempty[of n] by (auto simp: plain_word_def list_all_iff is_digit_def graphic_def dq_def)
  then show ?thesis by (auto simp: itoa_int_def plain_word_def graphic_def dq_def)
qed

section \<open>Guarantees\<close>

text \<open>
  The boot script and the live path encode the same commands. Split into words and with the quotes
  removed, each line of the script is \<open>tc\<close> followed by the arguments that the live runner passes for that step, with
  \<open>$NIC\<close> for the interface.
\<close>

lemma boot_script_lockstep:
  assumes "plain_word (cr_Minor c)" "plain_word (cr_Handle c)" "plain_word (cr_Rate c)" "plain_word (cr_Ceil c)"
    and "plain_word minor" "plain_word rate"
  shows "map unquote (strings_Fields (class_line c)) = ''tc'' # tcClassAddArgs ''$NIC'' (cr_Minor c) (cr_Rate c) (cr_Ceil c) (cr_Prio c) \<and>
    map unquote (strings_Fields (leaf_line c)) = ''tc'' # tcQdiscAddFqCodelArgs ''$NIC'' (cr_Minor c) (cr_Handle c) \<and>
    map unquote (strings_Fields (trunk_line rate)) = ''tc'' # tcClassAddRootArgs ''$NIC'' rate rate \<and>
    map unquote (strings_Fields (add_root_line minor)) = ''tc'' # tcQdiscAddRootArgs ''$NIC'' minor \<and>
    map unquote (strings_Fields del_root_line) = ''tc'' # tcQdiscDelRootArgs ''$NIC'' @ [''2>/dev/null'', ''||'', ''true'']"
  using assms[THEN plain_wordD(1)] assms[THEN plain_wordD(2)] assms(5)[THEN plain_wordD(3)]
    plain_itoa_int[of "cr_Prio c", THEN plain_wordD(1)] plain_itoa_int[of "cr_Prio c", THEN plain_wordD(2)]
    plain_itoa_int[of "cr_Prio c", THEN plain_wordD(3)]
  by (simp add: strings_Fields_def class_line_def leaf_line_def trunk_line_def add_root_line_def del_root_line_def dquote_def
      tcClassAddArgs_def tcQdiscAddFqCodelArgs_def tcClassAddRootArgs_def tcQdiscAddRootArgs_def tcQdiscDelRootArgs_def
      fields_simps unquote_def graphic_def dq_def)

end
