(* ===== verification/ShapeManager.thy ===== *)
theory ShapeManager
  imports ShapeRender
begin

text \<open>
  \<open>internal/network/shape/manager.go\<close>, \<open>registry.go\<close>, \<open>veth.go\<close> and the runner of \<open>tc_linux.go\<close>: the operations
  of \<open>network shape\<close> on the stored devices and classes, the boot script and the live hierarchy.

  The state holds the two configuration directories (file stem and decoded content), the stamps of
  the policy registry, which this package only reads, the boot script and the kernel. The kernel is reached through \<open>tc_runner\<close>,
  the record of the methods of \<open>TCRunner\<close> and of \<open>applyEgress\<close>, which restarts the service that executes the script; \<open>exec_tc\<close> is the
  implementation over the \<open>tc\<close> binary, a parameter. \<open>sh_env\<close> holds the outcomes of operating system calls.
\<close>

section \<open>Kernel and environment\<close>

record 'k tc_runner =
  t_ClassChange :: "string \<Rightarrow> string \<Rightarrow> string \<Rightarrow> string \<Rightarrow> int \<Rightarrow> ('k, unit) action"
  t_QdiscDelRoot :: "string \<Rightarrow> ('k, unit) action"
  t_QdiscAddRoot :: "string \<Rightarrow> string \<Rightarrow> ('k, unit) action"
  t_ClassAddRoot :: "string \<Rightarrow> string \<Rightarrow> string \<Rightarrow> ('k, unit) action"
  t_ClassAdd :: "string \<Rightarrow> string \<Rightarrow> string \<Rightarrow> string \<Rightarrow> int \<Rightarrow> ('k, unit) action"
  t_QdiscAddFqCodel :: "string \<Rightarrow> string \<Rightarrow> string \<Rightarrow> ('k, unit) action"
  t_applyEgress :: "string option \<Rightarrow> ('k, unit) action"

type_synonym 'k tc_bin = "string list \<Rightarrow> 'k \<Rightarrow> bool \<times> 'k"

definition tc_run :: "'k tc_bin \<Rightarrow> string list \<Rightarrow> ('k, unit) action" where
  "tc_run tc args k = (case tc args k of (ok, k') \<Rightarrow>
     (if ok then Inr () else Inl (Err ExternalError ''tc failed''), k'))"

definition exec_tc :: "'k tc_bin \<Rightarrow> (string option \<Rightarrow> ('k, unit) action) \<Rightarrow> 'k tc_runner" where
  "exec_tc tc restart =
     \<lparr>t_ClassChange = (\<lambda>nic minor rate ceil prio. tc_run tc (tcClassChangeArgs nic minor rate ceil prio)),
      t_QdiscDelRoot = (\<lambda>nic k. (Inr (), snd (tc (tcQdiscDelRootArgs nic) k))),
      t_QdiscAddRoot = (\<lambda>nic minor. tc_run tc (tcQdiscAddRootArgs nic minor)),
      t_ClassAddRoot = (\<lambda>nic rate ceil. tc_run tc (tcClassAddRootArgs nic rate ceil)),
      t_ClassAdd = (\<lambda>nic minor rate ceil prio. tc_run tc (tcClassAddArgs nic minor rate ceil prio)),
      t_QdiscAddFqCodel = (\<lambda>nic minor handle. tc_run tc (tcQdiscAddFqCodelArgs nic minor handle)),
      t_applyEgress = restart\<rparr>"

record sh_env =
  se_Lock :: bool
  se_ReadDevice :: "string \<Rightarrow> bool"
  se_ReadClass :: "string \<Rightarrow> bool"
  se_ReadClassDir :: bool
  se_WriteDevice :: file_write
  se_WriteClass :: "string \<Rightarrow> file_write"
  se_RemoveDevice :: bool
  se_RemoveClass :: "string \<Rightarrow> bool"
  se_ReadPolicyDir :: bool
  se_ReadPolicy :: "string \<Rightarrow> bool"
  se_ReadScript :: bool
  se_WriteScript :: file_write
  se_NIC :: "string result"
  se_Sysfs :: "string \<Rightarrow> string option"
  se_Now :: int

datatype 'a cfg_file = Parsed 'a | Malformed

record policyStampRef =
  ps_Stamp :: string
  ps_ReplyStamp :: string

record 'k sh_state =
  sh_devices :: "(string \<times> DeviceConfig cfg_file) list"
  sh_classes :: "(string \<times> ClassConfig cfg_file) list"
  sh_policies :: "(string \<times> policyStampRef cfg_file) list"
  sh_script :: "string option"
  sh_kernel :: 'k

type_synonym ('k, 'a) sh_action = "('k sh_state, 'a) action"

definition sh_kern :: "('k, 'a) action \<Rightarrow> ('k, 'a) sh_action" where
  "sh_kern f s = (case f (sh_kernel s) of (r, k') \<Rightarrow> (r, s\<lparr>sh_kernel := k'\<rparr>))"

section \<open>Registry\<close>

definition atomicWriteFile :: "file_write \<Rightarrow> ('s \<Rightarrow> 's) \<Rightarrow> ('s, unit) action" where
  "atomicWriteFile w upd s = (case w of
     Written \<Rightarrow> (Inr (), upd s)
   | NotWritten \<Rightarrow> (Inl (Err ExternalError ''failed to write temp file''), s)
   | WrittenUnsynced \<Rightarrow> (Inl (Err ExternalError ''failed to fsync directory''), upd s))"

definition readConfigJSON :: "bool \<Rightarrow> (string \<times> 'a cfg_file) list \<Rightarrow> string \<Rightarrow> 'a option result" where
  "readConfigJSON readable files name = (case map_of files name of
     None \<Rightarrow> Inr None
   | Some f \<Rightarrow> if \<not> readable then Inl (Err ExternalError ''failed to read config'')
       else (case f of Malformed \<Rightarrow> Inl (Err IllegalFormat ''failed to parse config'') | Parsed v \<Rightarrow> Inr (Some v)))"

definition writeDevice :: "sh_env \<Rightarrow> DeviceConfig \<Rightarrow> ('k, unit) sh_action" where
  "writeDevice env dev = atomicWriteFile (se_WriteDevice env) (\<lambda>s. s\<lparr>sh_devices := al_put (dc_Dir dev) (Parsed dev) (sh_devices s)\<rparr>)"

definition writeClass :: "sh_env \<Rightarrow> ClassConfig \<Rightarrow> ('k, unit) sh_action" where
  "writeClass env cls = atomicWriteFile (se_WriteClass env (cc_Name cls))
     (\<lambda>s. s\<lparr>sh_classes := al_put (cc_Name cls) (Parsed cls) (sh_classes s)\<rparr>)"

definition readDevice :: "sh_env \<Rightarrow> string \<Rightarrow> 'k sh_state \<Rightarrow> DeviceConfig option result" where
  "readDevice env dir s = readConfigJSON (se_ReadDevice env dir) (sh_devices s) dir"

definition readClass :: "sh_env \<Rightarrow> string \<Rightarrow> 'k sh_state \<Rightarrow> ClassConfig option result" where
  "readClass env name s = readConfigJSON (se_ReadClass env name) (sh_classes s) name"

definition class_dir :: "string \<Rightarrow> string option" where
  "class_dir name = map_option ci_Dir (map_of classInfoMap name)"

definition loadClassesForDir :: "sh_env \<Rightarrow> string \<Rightarrow> 'k sh_state \<Rightarrow> ClassConfig list result" where
  "loadClassesForDir env dir s =
     (if \<not> se_ReadClassDir env then Inl (Err ExternalError ''failed to read class config dir'')
      else rbind (rmap (\<lambda>n. readClass env n s) (sort_by (<) (filter (\<lambda>n. class_dir n = Some dir) (map fst (sh_classes s))))) (\<lambda>cs.
        Inr (List.map_filter id cs)))"

definition removeClass :: "sh_env \<Rightarrow> string \<Rightarrow> ('k, unit) sh_action" where
  "removeClass env name s = (if map_of (sh_classes s) name = None then (Inr (), s)
     else if se_RemoveClass env name then (Inr (), s\<lparr>sh_classes := al_del name (sh_classes s)\<rparr>)
     else (Inl (Err ExternalError ''failed to remove config''), s))"

definition removeDevice :: "sh_env \<Rightarrow> string \<Rightarrow> ('k, unit) sh_action" where
  "removeDevice env dir s = (if map_of (sh_devices s) dir = None then (Inr (), s)
     else if se_RemoveDevice env then (Inr (), s\<lparr>sh_devices := al_del dir (sh_devices s)\<rparr>)
     else (Inl (Err ExternalError ''failed to remove config''), s))"

text \<open>The names of the policies that refer to each class.\<close>

definition policyStamps :: "sh_env \<Rightarrow> string \<times> policyStampRef cfg_file \<Rightarrow> (string \<times> string) list result" where
  "policyStamps env np =
     (if \<not> se_ReadPolicy env (fst np) then Inl (Err ExternalError ''failed to read policy file'')
      else (case snd np of
        Malformed \<Rightarrow> Inl (Err IllegalFormat ''failed to parse policy file'')
      | Parsed ref \<Rightarrow> Inr ((if ps_Stamp ref \<noteq> [] then [(ps_Stamp ref, fst np)] else []) @
                          (if ps_ReplyStamp ref \<noteq> [] then [(ps_ReplyStamp ref, fst np)] else []))))"

definition loadPolicyStamps :: "sh_env \<Rightarrow> 'k sh_state \<Rightarrow> (string \<Rightarrow> string list) result" where
  "loadPolicyStamps env s =
     (if \<not> se_ReadPolicyDir env then Inl (Err ExternalError ''failed to read policy registry'')
      else rbind (rmap (policyStamps env) (sort_by (\<lambda>a b. fst a < fst b) (sh_policies s))) (\<lambda>refs.
        Inr (\<lambda>class. map snd (filter (\<lambda>r. fst r = class) (concat refs)))))"

definition withLock :: "sh_env \<Rightarrow> ('k, 'a) sh_action \<Rightarrow> ('k, 'a) sh_action" where
  "withLock env fn = (if se_Lock env then fn else sfail (Err ExternalError ''failed to acquire lock''))"

section \<open>Boot script\<close>

definition isAutoRate :: "string \<Rightarrow> bool" where
  "isAutoRate rate \<longleftrightarrow> map to_lower (strings_TrimSpace rate) = ''auto''"

definition resolveAutoRateString :: "sh_env \<Rightarrow> string \<Rightarrow> string" where
  "resolveAutoRateString env rate =
     (if \<not> isAutoRate rate then rate
      else (case se_NIC env of
          Inl _ \<Rightarrow> FormatSpeedHint DefaultLinkSpeedMbit
        | Inr nic \<Rightarrow> (case ReadLinkSpeedMbit (se_Sysfs env) nic of
            None \<Rightarrow> FormatSpeedHint DefaultLinkSpeedMbit | Some mbit \<Rightarrow> FormatSpeedHint mbit)))"

definition resolveAutoRate :: "sh_env \<Rightarrow> DeviceConfig \<Rightarrow> DeviceConfig" where
  "resolveAutoRate env dev = (if dc_Dir dev \<noteq> DirEgress then dev
     else dev\<lparr>dc_Rate := resolveAutoRateString env (dc_Rate dev)\<rparr>)"

datatype egressApplyMode = applyRestart | applyPersistOnly | applyUnshape

definition renderEgressScript :: "sh_env \<Rightarrow> string \<Rightarrow> 'k sh_state \<Rightarrow> string result" where
  "renderEgressScript env nic s =
     rbind (readDevice env DirEgress s) (\<lambda>d. case d of
       None \<Rightarrow> renderTcEgressScript nic
     | Some dev \<Rightarrow> rbind (loadClassesForDir env DirEgress s) (\<lambda>classes.
         if length classes = 0 then
           (case defaultEgressConfig (dc_Rate dev) (se_Now env) of
              Inr (_, defClasses) \<Rightarrow> renderTcEgressScriptFromConfig nic dev defClasses
            | Inl _ \<Rightarrow> renderTcEgressScript nic)
         else renderTcEgressScriptFromConfig nic dev classes))"

definition writeEgressScript :: "sh_env \<Rightarrow> string \<Rightarrow> ('k, unit) sh_action" where
  "writeEgressScript env rendered s =
     (if se_ReadScript env \<and> sh_script s = Some rendered then (Inr (), s)
      else atomicWriteFile (se_WriteScript env) (\<lambda>s. s\<lparr>sh_script := Some rendered\<rparr>) s)"

definition restartEgress :: "'k tc_runner \<Rightarrow> ('k, unit) sh_action" where
  "restartEgress T s = sh_kern (t_applyEgress T (sh_script s)) s"

definition applyEgressScript :: "'k tc_runner \<Rightarrow> sh_env \<Rightarrow> string \<Rightarrow> egressApplyMode \<Rightarrow> ('k, unit) sh_action" where
  "applyEgressScript T env nic0 mode =
     sbind (slift (if nic0 = [] then map_err (decorate ''cannot re-render bandwidth-shaper script'') (se_NIC env) else Inr nic0)) (\<lambda>nic.
     sbind (if mode = applyUnshape then slift (renderTcEgressUnshapeScript nic) else sread (renderEgressScript env nic)) (\<lambda>rendered.
     sbind (writeEgressScript env rendered) (\<lambda>_.
     case mode of
       applyPersistOnly \<Rightarrow> sret ()
     | applyUnshape \<Rightarrow>
         sbind (smap_err (decorate ''failed to delete live root qdisc'') (sh_kern (t_QdiscDelRoot T nic))) (\<lambda>_. restartEgress T)
     | applyRestart \<Rightarrow> restartEgress T)))"

section \<open>Operations\<close>

definition CreateDevice :: "'k tc_runner \<Rightarrow> sh_env \<Rightarrow> DeviceConfig \<Rightarrow> bool \<Rightarrow> ('k, bool) sh_action" where
  "CreateDevice T env dev force =
     sbind (slift (validateDir (dc_Dir dev))) (\<lambda>_.
     sbind (slift (if lower_utf8 (strings_TrimSpace (dc_Rate dev)) \<noteq> ''auto'' then validateRate (dc_Rate dev) else Inr ())) (\<lambda>_.
     sbind (slift (validateDefaultClass (dc_DefaultClass dev) (dc_Dir dev))) (\<lambda>_.
     withLock env (
       sbind (sread (readDevice env (dc_Dir dev))) (\<lambda>existing.
       if existing \<noteq> None \<and> \<not> force then sret False
       else
         (let dev1 = (case existing of
                Some ex \<Rightarrow> dev\<lparr>dc_CreatedAt := dc_CreatedAt ex\<rparr>
              | None \<Rightarrow> if dc_CreatedAt dev = 0 then dev\<lparr>dc_CreatedAt := se_Now env\<rparr> else dev);
              dev2 = resolveAutoRate env dev1
          in sbind (writeDevice env dev2) (\<lambda>_.
             sbind (if dc_Dir dev2 = DirEgress then applyEgressScript T env [] applyRestart else sret ()) (\<lambda>_.
             sret True))))))))"

definition CreateClass :: "'k tc_runner \<Rightarrow> sh_env \<Rightarrow> ClassConfig \<Rightarrow> bool \<Rightarrow> ('k, bool) sh_action" where
  "CreateClass T env cls force =
     sbind (slift (lookupClassInfo (cc_Name cls))) (\<lambda>ci.
     sbind (slift (validateClassFields (cc_Rate cls) (cc_Ceil cls) (cc_Prio cls))) (\<lambda>_.
     withLock env (
       sbind (sread (readDevice env (ci_Dir ci))) (\<lambda>d. case d of
         None \<Rightarrow> sfail (Err IllegalState ''device is not configured'')
       | Some dev \<Rightarrow>
           sbind (sread (loadClassesForDir env (ci_Dir ci))) (\<lambda>siblings.
           sbind (slift (validateSumRates siblings cls (dc_Rate dev))) (\<lambda>_.
           sbind (sread (readClass env (cc_Name cls))) (\<lambda>existing.
           if existing \<noteq> None \<and> \<not> force then sret False
           else
             (let cls1 = (case existing of
                    Some ex \<Rightarrow> cls\<lparr>cc_CreatedAt := cc_CreatedAt ex\<rparr>
                  | None \<Rightarrow> if cc_CreatedAt cls = 0 then cls\<lparr>cc_CreatedAt := se_Now env\<rparr> else cls)
              in sbind (writeClass env cls1) (\<lambda>_.
                 sbind (if ci_Dir ci = DirEgress then applyEgressScript T env [] applyRestart else sret ()) (\<lambda>_.
                 sret True))))))))))"

definition setFields :: "string option \<Rightarrow> string option \<Rightarrow> int option \<Rightarrow> ClassConfig \<Rightarrow> ClassConfig" where
  "setFields rate ceil prio cls =
     cls\<lparr>cc_Rate := (case rate of None \<Rightarrow> cc_Rate cls | Some r \<Rightarrow> r),
         cc_Ceil := (case ceil of None \<Rightarrow> cc_Ceil cls | Some c \<Rightarrow> c),
         cc_Prio := (case prio of None \<Rightarrow> cc_Prio cls | Some p \<Rightarrow> p)\<rparr>"

definition SetClass :: "'k tc_runner \<Rightarrow> sh_env \<Rightarrow> string \<Rightarrow> string option \<Rightarrow> string option \<Rightarrow> int option \<Rightarrow> ('k, unit) sh_action" where
  "SetClass T env name rate ceil prio =
     sbind (slift (lookupClassInfo name)) (\<lambda>ci.
     withLock env (
       sbind (sread (readClass env name)) (\<lambda>c. case c of
         None \<Rightarrow> sfail (Err IllegalState ''class is not configured'')
       | Some cls0 \<Rightarrow>
           (let cls = setFields rate ceil prio cls0 in
            sbind (slift (validateClassFields (cc_Rate cls) (cc_Ceil cls) (cc_Prio cls))) (\<lambda>_.
            sbind (sread (readDevice env (ci_Dir ci))) (\<lambda>d.
            sbind (case d of
                None \<Rightarrow> sret ()
              | Some dev \<Rightarrow> sbind (sread (loadClassesForDir env (ci_Dir ci))) (\<lambda>siblings.
                  slift (validateSumRates siblings cls (dc_Rate dev)))) (\<lambda>_.
            sbind (writeClass env cls) (\<lambda>_.
            if ci_Dir ci = DirEgress then
              sbind (slift (map_err (decorate ''egress NIC detection failed'') (se_NIC env))) (\<lambda>nic.
              sbind (smap_err (decorate ''live tc class change failed'')
                (sh_kern (t_ClassChange T nic (ci_Minor ci) (cc_Rate cls) (effectiveCeil cls) (cc_Prio cls)))) (\<lambda>_.
              smap_err (decorate ''boot script re-render failed'') (applyEgressScript T env nic applyPersistOnly)))
            else sret ()))))))))"

definition DeleteClass :: "'k tc_runner \<Rightarrow> sh_env \<Rightarrow> string \<Rightarrow> ('k, unit) sh_action" where
  "DeleteClass T env name =
     sbind (slift (lookupClassInfo name)) (\<lambda>ci.
     withLock env (
       sbind (sread (readClass env name)) (\<lambda>c.
       if c = None then sfail (Err IllegalState ''class is not configured'')
       else
         sbind (sread (readDevice env (ci_Dir ci))) (\<lambda>d.
         if (case d of None \<Rightarrow> False | Some dev \<Rightarrow> dc_DefaultClass dev = name)
         then sfail (Err IllegalState ''class is the default class for the device'')
         else
           sbind (sread (loadPolicyStamps env)) (\<lambda>stamps.
           if length (stamps name) > 0 then sfail (Err IllegalState ''class is referenced by network policy'')
           else
             sbind (removeClass env name) (\<lambda>_.
             if ci_Dir ci = DirEgress
             then smap_err (decorate ''boot script re-render failed'') (applyEgressScript T env [] applyRestart)
             else sret ()))))))"

definition DeleteDevice :: "'k tc_runner \<Rightarrow> sh_env \<Rightarrow> string \<Rightarrow> ('k, unit) sh_action" where
  "DeleteDevice T env dir =
     sbind (slift (validateDir dir)) (\<lambda>_.
     withLock env (
       sbind (sread (readDevice env dir)) (\<lambda>d.
       if d = None then sfail (Err IllegalState ''device is not configured'')
       else
         sbind (sread (loadClassesForDir env dir)) (\<lambda>classes.
         if length classes > 0 then sfail (Err IllegalState ''device still has configured classes'')
         else
           sbind (removeDevice env dir) (\<lambda>_.
           if dir = DirEgress
           then smap_err (decorate ''boot script re-render failed'') (applyEgressScript T env [] applyRestart)
           else sret ())))))"

definition TeardownEgress :: "'k tc_runner \<Rightarrow> sh_env \<Rightarrow> ('k, unit) sh_action" where
  "TeardownEgress T env = withLock env (
     sbind (sread (loadClassesForDir env DirEgress)) (\<lambda>classes.
     sbind (seach (\<lambda>c. removeClass env (cc_Name c)) classes) (\<lambda>_.
     sbind (removeDevice env DirEgress) (\<lambda>_.
     smap_err (decorate ''boot script re-render failed'') (applyEgressScript T env [] applyUnshape)))))"

definition TeardownIngress :: "sh_env \<Rightarrow> ('k, unit) sh_action" where
  "TeardownIngress env = withLock env (
     sbind (sread (loadClassesForDir env DirIngress)) (\<lambda>classes.
     sbind (seach (\<lambda>c. removeClass env (cc_Name c)) classes) (\<lambda>_.
     removeDevice env DirIngress)))"

definition loadExistingConfig :: "sh_env \<Rightarrow> string \<Rightarrow> 'k sh_state \<Rightarrow> (DeviceConfig option \<times> ClassConfig list) result" where
  "loadExistingConfig env dir s = rbind (readDevice env dir s) (\<lambda>d. case d of
     None \<Rightarrow> Inr (None, [])
   | Some dev \<Rightarrow> rbind (loadClassesForDir env dir s) (\<lambda>classes. Inr (Some dev, classes)))"

definition provisionDefaults ::
    "sh_env \<Rightarrow> defaultProfile \<Rightarrow> string \<Rightarrow> (string \<times> ClassOverride) list \<Rightarrow> ('k, unit) sh_action \<Rightarrow> ('k, unit) sh_action" where
  "provisionDefaults env prof trunkRate overrides afterWrite =
     sbind (slift (buildDefaultConfig prof (resolveAutoRateString env trunkRate) (se_Now env))) (\<lambda>(dev0, classes0).
     withLock env (
       sbind (sread (loadExistingConfig env (dp_dir prof))) (\<lambda>(existingDev, existingClasses).
       (case mergeExistingConfig dev0 classes0 existingDev existingClasses of (dev, classes1) \<Rightarrow>
        (let classes = applyClassOverrides classes1 overrides in
         sbind (slift (validateProvisionedClasses classes (dc_Rate dev))) (\<lambda>_.
         sbind (writeDevice env dev) (\<lambda>_.
         sbind (seach (writeClass env) classes) (\<lambda>_.
         afterWrite))))))))"

definition ProvisionDefaultEgress ::
    "'k tc_runner \<Rightarrow> sh_env \<Rightarrow> string \<Rightarrow> string \<Rightarrow> (string \<times> ClassOverride) list \<Rightarrow> ('k, unit) sh_action" where
  "ProvisionDefaultEgress T env nicName trunkRate overrides =
     provisionDefaults env egressProfile trunkRate overrides (applyEgressScript T env nicName applyRestart)"

definition ProvisionDefaultIngress :: "sh_env \<Rightarrow> string \<Rightarrow> (string \<times> ClassOverride) list \<Rightarrow> ('k, unit) sh_action" where
  "ProvisionDefaultIngress env trunkRate overrides = provisionDefaults env ingressProfile trunkRate overrides (sret ())"

definition ProvisionDefaultIngressShape :: "sh_env \<Rightarrow> string \<Rightarrow> string \<Rightarrow> (string \<times> ClassOverride) list \<Rightarrow> ('k, unit) sh_action" where
  "ProvisionDefaultIngressShape env nicName trunkRate overrides =
     ProvisionDefaultIngress (if nicName \<noteq> [] then env\<lparr>se_NIC := Inr nicName\<rparr> else env) trunkRate overrides"

section \<open>Pod interfaces\<close>

definition validateVethName :: "string \<Rightarrow> unit result" where
  "validateVethName veth = (if \<not> nicNameRe veth then Inl (Err IllegalArgument ''veth name is invalid'') else Inr ())"

definition effectiveIngressRootRate :: "string \<Rightarrow> string \<Rightarrow> string result" where
  "effectiveIngressRootRate ingressRate egressRate =
     (if validateRate ingressRate = Inr () then Inr ingressRate
      else if validateRate egressRate = Inr () then Inr egressRate
      else Inl (Err IllegalState ''ingress shape rate is not a concrete bandwidth''))"

definition applyVethHierarchy :: "'k tc_runner \<Rightarrow> sh_env \<Rightarrow> string \<Rightarrow> string \<Rightarrow> string \<Rightarrow> ClassConfig list \<Rightarrow> ('k, unit) sh_action" where
  "applyVethHierarchy T env veth defaultMinor rootRate classes = withLock env (
     sbind (sh_kern (t_QdiscDelRoot T veth)) (\<lambda>_.
     sbind (sh_kern (t_QdiscAddRoot T veth defaultMinor)) (\<lambda>_.
     sbind (sh_kern (t_ClassAddRoot T veth rootRate rootRate)) (\<lambda>_.
     seach (\<lambda>cls.
       sbind (slift (lookupClassInfo (cc_Name cls))) (\<lambda>ci.
       sbind (sh_kern (t_ClassAdd T veth (ci_Minor ci) (cc_Rate cls) (effectiveCeil cls) (cc_Prio cls))) (\<lambda>_.
       sh_kern (t_QdiscAddFqCodel T veth (ci_Minor ci) (ci_Handle ci))))) classes))))"

definition ApplyIngressVeth :: "'k tc_runner \<Rightarrow> sh_env \<Rightarrow> string \<Rightarrow> ('k, unit) sh_action" where
  "ApplyIngressVeth T env veth =
     sbind (slift (validateVethName veth)) (\<lambda>_.
     sbind (sread (readDevice env DirIngress)) (\<lambda>d. case d of
       None \<Rightarrow> sfail (Err IllegalState ''no ingress shape recorded'')
     | Some dev \<Rightarrow>
         sbind (slift (lookupClassInfo (dc_DefaultClass dev))) (\<lambda>defInfo.
         sbind (sread (readDevice env DirEgress)) (\<lambda>egress.
         sbind (slift (effectiveIngressRootRate (dc_Rate dev) (case egress of None \<Rightarrow> [] | Some e \<Rightarrow> dc_Rate e))) (\<lambda>rootRate.
         sbind (sread (loadClassesForDir env DirIngress)) (\<lambda>classes.
         if length classes = 0 then sfail (Err IllegalState ''no ingress shape classes recorded'')
         else applyVethHierarchy T env veth (ci_Minor defInfo) rootRate classes))))))"

definition RemoveIngressVeth :: "'k tc_runner \<Rightarrow> sh_env \<Rightarrow> string \<Rightarrow> ('k, unit) sh_action" where
  "RemoveIngressVeth T env veth =
     sbind (slift (validateVethName veth)) (\<lambda>_. withLock env (sh_kern (t_QdiscDelRoot T veth)))"

end
