(* ===== verification/ShapeOps.thy ===== *)
theory ShapeOps
  imports ShapeManager
begin

text \<open>
  What the operations of \<open>network shape\<close> guarantee: the stored configuration stays valid in every reachable state, class rates
  stay within the device rate when a class is written, a class in use is not deleted, and the boot
  script has no place where a stored value could become a command.
\<close>

section \<open>Directories of configuration files\<close>

text \<open>The contract of a directory with one file per key: the content of a valid file determines its name.\<close>

locale keyed_files =
  fixes valid :: "string \<Rightarrow> 'a \<Rightarrow> bool" and key :: "'a \<Rightarrow> string"
  assumes key_valid: "valid n v \<Longrightarrow> key v = n"
begin

definition files_ok :: "(string \<times> 'a cfg_file) list \<Rightarrow> bool" where
  "files_ok fs \<longleftrightarrow> distinct (map fst fs) \<and> (\<forall>n f. map_of fs n = Some f \<longrightarrow> (\<exists>v. f = Parsed v \<and> valid n v))"

lemma files_ok_Nil: "files_ok []"
  by (simp add: files_ok_def)

lemma files_ok_put: "files_ok fs \<Longrightarrow> valid n v \<Longrightarrow> files_ok (al_put n (Parsed v) fs)"
  by (auto simp: files_ok_def distinct_al_put)

lemma files_ok_del: "files_ok fs \<Longrightarrow> files_ok (al_del n fs)"
  by (auto simp: files_ok_def distinct_al_del)

lemma files_ok_valid: "files_ok fs \<Longrightarrow> map_of fs n = Some (Parsed v) \<Longrightarrow> valid n v"
  by (fastforce simp: files_ok_def)

lemma read_valid: "files_ok fs \<Longrightarrow> readConfigJSON b fs n = Inr (Some v) \<Longrightarrow> map_of fs n = Some (Parsed v) \<and> valid n v"
  by (auto simp: files_ok_def readConfigJSON_def split: option.splits if_splits cfg_file.splits)

lemma read_key: "files_ok fs \<Longrightarrow> readConfigJSON b fs n = Inr (Some v) \<Longrightarrow> key v = n"
  using read_valid key_valid by blast

text \<open>Reading a list of names that are present returns their contents in order.\<close>

lemma read_all:
  assumes "files_ok fs" "rmap (\<lambda>n. readConfigJSON (b n) fs n) ns = Inr os" "set ns \<subseteq> fst ` set fs"
  shows "map key (List.map_filter id os) = ns \<and> (\<forall>v \<in> set (List.map_filter id os). map_of fs (key v) = Some (Parsed v))"
  using assms(2,3)
proof (induction ns arbitrary: os)
  case (Cons n ns)
  then obtain o1 os1 where os: "os = o1 # os1" "readConfigJSON (b n) fs n = Inr o1"
    "rmap (\<lambda>n. readConfigJSON (b n) fs n) ns = Inr os1" by (auto simp: rbind_Inr_iff)
  from Cons.prems(2) obtain f where "map_of fs n = Some f" by (auto simp: map_of_eq_None_iff[of fs n] dest: weak_map_of_SomeI)
  then obtain v where "o1 = Some v" using os(2) by (auto simp: readConfigJSON_def split: if_splits cfg_file.splits)
  with os(2) have "map_of fs n = Some (Parsed v)" "key v = n" using read_valid read_key assms(1) by blast+
  with Cons.IH[OF os(3)] Cons.prems(2) os(1) \<open>o1 = Some v\<close> show ?case by (simp add: List.map_filter_simps)
qed (simp add: List.map_filter_simps)

end

definition dev_ok :: "string \<Rightarrow> DeviceConfig \<Rightarrow> bool" where
  "dev_ok d dev \<longleftrightarrow> dc_Dir dev = d \<and> validateDir d = Inr () \<and> validateDefaultClass (dc_DefaultClass dev) d = Inr () \<and>
     (validateRate (dc_Rate dev) = Inr () \<or> d \<noteq> DirEgress \<and> isAutoRate (dc_Rate dev))"

definition cls_ok :: "string \<Rightarrow> ClassConfig \<Rightarrow> bool" where
  "cls_ok n c \<longleftrightarrow> cc_Name c = n \<and> class_dir n \<noteq> None \<and> validateClassFields (cc_Rate c) (cc_Ceil c) (cc_Prio c) = Inr ()"

interpretation dev: keyed_files dev_ok dc_Dir
  by unfold_locales (simp add: dev_ok_def)

interpretation cls: keyed_files cls_ok cc_Name
  by unfold_locales (simp add: cls_ok_def)

text \<open>The invariant of the stored configuration.\<close>

definition shape_ok :: "'k sh_state \<Rightarrow> bool" where
  "shape_ok s \<longleftrightarrow> dev.files_ok (sh_devices s) \<and> cls.files_ok (sh_classes s)"

lemma class_dir_lookup: "class_dir n = Some d \<longleftrightarrow> (\<exists>ci. lookupClassInfo n = Inr ci \<and> ci_Dir ci = d)"
  by (auto simp: class_dir_def lookupClassInfo_def split: option.splits)

lemma shape_ok_readDevice: "shape_ok s \<Longrightarrow> readDevice env d s = Inr (Some dev) \<Longrightarrow> dev_ok d dev"
  unfolding shape_ok_def readDevice_def using dev.read_valid by blast

lemma shape_ok_readClass: "shape_ok s \<Longrightarrow> readClass env n s = Inr (Some c) \<Longrightarrow> cls_ok n c"
  unfolding shape_ok_def readClass_def using cls.read_valid by blast

lemma shape_ok_writeDevice [preserves_intros]: "dev_ok (dc_Dir d) d \<Longrightarrow> preserves shape_ok (writeDevice env d)"
  by (simp add: preserves_def writeDevice_def atomicWriteFile_def shape_ok_def dev.files_ok_put split: file_write.split)

lemma shape_ok_writeClass [preserves_intros]: "cls_ok (cc_Name c) c \<Longrightarrow> preserves shape_ok (writeClass env c)"
  by (simp add: preserves_def writeClass_def atomicWriteFile_def shape_ok_def cls.files_ok_put split: file_write.split)

lemma shape_ok_remove [preserves_intros]: "preserves shape_ok (removeClass env n)" "preserves shape_ok (removeDevice env d)"
  by (simp_all add: preserves_def removeClass_def removeDevice_def shape_ok_def cls.files_ok_del dev.files_ok_del)

lemma preserves_withLock [preserves_intros]: "preserves I m \<Longrightarrow> preserves I (withLock env m)"
  by (simp add: withLock_def preserves_basic)

text \<open>Applying the boot script touches script and kernel only.\<close>

definition sh_config :: "'k sh_state \<Rightarrow> (string \<times> DeviceConfig cfg_file) list \<times> (string \<times> ClassConfig cfg_file) list \<times> (string \<times> policyStampRef cfg_file) list" where
  "sh_config s = (sh_devices s, sh_classes s, sh_policies s)"

lemma shape_ok_config: "sh_config s' = sh_config s \<Longrightarrow> shape_ok s \<Longrightarrow> shape_ok s'"
  by (simp add: sh_config_def shape_ok_def)

lemma keeps_config_basic [keeps_intros]:
  "keeps sh_config (sh_kern f)" "keeps sh_config (restartEgress T)" "keeps sh_config (writeEgressScript env r)"
  by (auto simp: keeps_def sh_config_def sh_kern_def restartEgress_def writeEgressScript_def atomicWriteFile_def
      split: prod.split file_write.split)

lemma keeps_config_apply [keeps_intros]: "keeps sh_config (applyEgressScript T env nic mode)"
  unfolding applyEgressScript_def by (cases mode) (auto intro!: keeps_intros)

lemma shape_ok_apply [preserves_intros]:
  "preserves shape_ok (applyEgressScript T env nic mode)" "preserves shape_ok (sh_kern f)"
  using keeps_config_apply keeps_config_basic(1) shape_ok_config by (blast intro: preserves_keeps)+

section \<open>Every operation keeps the configuration valid\<close>

lemma lower_auto: "lower_utf8 s = ''auto'' \<longleftrightarrow> map to_lower s = ''auto''"
proof -
  have k: "CHR ''k'' \<notin> set ''auto''" "CHR ''i'' \<notin> set ''auto''" by simp_all
  have "set t \<subseteq> set ''auto'' \<Longrightarrow> lower_utf8 s = t \<longleftrightarrow> map to_lower s = t" for t
  proof (induction s arbitrary: t rule: lower_utf8.induct)
    case (2 c s)
    have hi: "to_lower (CHR 0xE2) \<notin> set ''auto''" "to_lower (CHR 0xC4) \<notin> set ''auto''" by code_simp+
    show ?case
    proof (cases t)
      case Nil
      then show ?thesis by auto
    next
      case (Cons d u)
      then have d: "d \<in> set ''auto''" "set u \<subseteq> set ''auto''" using 2(4) by auto
      show ?thesis
      proof (cases "c = CHR 0xE2 \<or> c = CHR 0xC4")
        case True
        then have "map to_lower (c # s) \<noteq> t" using Cons d(1) hi by auto
        moreover have "lower_utf8 (c # s) \<noteq> t" using Cons d(1) hi k True by auto
        ultimately show ?thesis by blast
      next
        case False
        then show ?thesis using 2(3)[of u] Cons d(2) by auto
      qed
    qed
  qed auto
  then show ?thesis by simp
qed

lemma FormatSpeedHint_valid: "0 < n \<Longrightarrow> n < 2 ^ 63 \<Longrightarrow> validateRate (FormatSpeedHint n) = Inr ()"
proof -
  assume n: "0 < n" "n < 2 ^ 63"
  have u: "(''gbit'', 1000000000) \<in> set units" "(''mbit'', 1000000) \<in> set units" by (simp_all add: units_def)
  show ?thesis
  proof (cases "n \<ge> 1000 \<and> n mod 1000 = 0")
    case True
    then have "FormatSpeedHint n = itoa (n div 1000) @ ''gbit''" "0 < n div 1000" "n div 1000 < 2 ^ 63"
      using n by (auto simp: FormatSpeedHint_def quot_nonneg itoa_int_def pos_imp_zdiv_pos_iff)
    then show ?thesis using parse_number_unit[OF _ _ u(1), of "n div 1000"] by (auto simp: validateRate_Inr)
  next
    case False
    then have "FormatSpeedHint n = itoa n @ ''mbit''" using n by (auto simp: FormatSpeedHint_def itoa_int_def)
    then show ?thesis using n parse_number_unit[OF _ _ u(2), of n] by (auto simp: validateRate_Inr)
  qed
qed

lemma ReadLinkSpeed_bounds: "ReadLinkSpeedMbit sysfs nic = Some n \<Longrightarrow> 0 < n \<and> n < 2 ^ 63"
  using ParseInt_bounds by (fastforce simp: ReadLinkSpeedMbit_def readLinkSpeedMbitFrom_def strconv_Atoi_def split: if_splits option.splits)

lemma resolve_valid: "isAutoRate r \<or> validateRate r = Inr () \<Longrightarrow> validateRate (resolveAutoRateString env r) = Inr ()"
  using FormatSpeedHint_valid[of DefaultLinkSpeedMbit] FormatSpeedHint_valid ReadLinkSpeed_bounds
  by (auto simp: resolveAutoRateString_def DefaultLinkSpeedMbit_def split: sum.split option.split)

lemma preserves_CreateDevice: "preserves shape_ok (CreateDevice T env d force)"
  unfolding CreateDevice_def Let_def
proof (intro preserves_intros)
  fix x s s' y t t' z u u' existing v v' assume
    d: "slift (validateDir (dc_Dir d)) s = (Inr x, s')"
       "slift (if lower_utf8 (strings_TrimSpace (dc_Rate d)) \<noteq> ''auto'' then validateRate (dc_Rate d) else Inr ()) t = (Inr y, t')"
       "slift (validateDefaultClass (dc_DefaultClass d) (dc_Dir d)) u = (Inr z, u')"
  let ?dev = "case existing of None \<Rightarrow> if dc_CreatedAt d = 0 then d\<lparr>dc_CreatedAt := se_Now env\<rparr> else d
    | Some ex \<Rightarrow> d\<lparr>dc_CreatedAt := dc_CreatedAt ex\<rparr>"
  have "dc_Dir ?dev = dc_Dir d" "dc_Rate ?dev = dc_Rate d" "dc_DefaultClass ?dev = dc_DefaultClass d"
    by (simp_all split: option.split)
  moreover have "validateRate (dc_Rate d) = Inr () \<or> isAutoRate (dc_Rate d)"
    using d(2) lower_auto by (auto simp: isAutoRate_def split: if_splits)
  ultimately show "dev_ok (dc_Dir (resolveAutoRate env ?dev)) (resolveAutoRate env ?dev)"
    using d(1,3) resolve_valid[of "dc_Rate d" env] by (auto simp: dev_ok_def resolveAutoRate_def)
qed

lemma preserves_CreateClass: "preserves shape_ok (CreateClass T env c force)"
  unfolding CreateClass_def Let_def
proof (intro preserves_intros)
  fix ci s s' x t t' d u u' dev siblings v v' y w w' existing z z'
  assume a: "slift (lookupClassInfo (cc_Name c)) s = (Inr ci, s')"
    "slift (validateClassFields (cc_Rate c) (cc_Ceil c) (cc_Prio c)) t = (Inr x, t')"
  let ?c = "case existing of None \<Rightarrow> if cc_CreatedAt c = 0 then c\<lparr>cc_CreatedAt := se_Now env\<rparr> else c
    | Some ex \<Rightarrow> c\<lparr>cc_CreatedAt := cc_CreatedAt ex\<rparr>"
  have "cc_Name ?c = cc_Name c" "cc_Rate ?c = cc_Rate c" "cc_Ceil ?c = cc_Ceil c" "cc_Prio ?c = cc_Prio c"
    by (simp_all split: option.split)
  moreover have "class_dir (cc_Name c) \<noteq> None" using a(1) class_dir_lookup by auto
  ultimately show "cls_ok (cc_Name ?c) ?c" using a(2) by (auto simp: cls_ok_def)
qed

lemma setFields_name [simp]: "cc_Name (setFields r c p cls) = cc_Name cls"
  by (simp add: setFields_def)

lemma preserves_SetClass: "preserves shape_ok (SetClass T env n rate ceil prio)"
  unfolding SetClass_def Let_def
proof (intro preserves_intros)
  fix ci s s' c t t' cls x u u'
  assume a: "shape_ok t" "sread (readClass env n) t = (Inr c, t')" "c = Some cls"
    "slift (validateClassFields (cc_Rate (setFields rate ceil prio cls)) (cc_Ceil (setFields rate ceil prio cls))
       (cc_Prio (setFields rate ceil prio cls))) u = (Inr x, u')"
  then have "cls_ok n cls" using shape_ok_readClass[of t env n cls] by auto
  with a(4) show "cls_ok (cc_Name (setFields rate ceil prio cls)) (setFields rate ceil prio cls)"
    by (auto simp: cls_ok_def)
qed

lemma preserves_deletes:
  "preserves shape_ok (DeleteClass T env n)" "preserves shape_ok (DeleteDevice T env dir)"
  "preserves shape_ok (TeardownEgress T env)" "preserves shape_ok (TeardownIngress env)"
  unfolding DeleteClass_def DeleteDevice_def TeardownEgress_def TeardownIngress_def by (intro preserves_intros)+

definition profile_ok :: "defaultProfile \<Rightarrow> bool" where
  "profile_ok p \<longleftrightarrow> validateDir (dp_dir p) = Inr () \<and> validateDefaultClass (dp_defaultClass p) (dp_dir p) = Inr () \<and>
     list_all (\<lambda>c. class_dir (ds_name c) \<noteq> None) (dp_classes p)"

lemma profiles_ok: "profile_ok egressProfile" "profile_ok ingressProfile"
  by code_simp+

lemma mergeClass_name [simp]: "cc_Name (mergeClass k ex c) = cc_Name c"
  by (simp add: mergeClass_def Let_def split: option.split)

lemma applyClassOverride_name [simp]: "cc_Name (applyClassOverride ov c) = cc_Name c"
  by (simp add: applyClassOverride_def split: option.split)

lemma merge_dev:
  "mergeExistingConfig dev classes ex exc = (dev', classes') \<Longrightarrow>
     dc_Dir dev' = dc_Dir dev \<and> dc_DefaultClass dev' = dc_DefaultClass dev \<and>
     (dc_Rate dev' = dc_Rate dev \<or> (\<exists>e. ex = Some e \<and> dc_Rate dev' = dc_Rate e)) \<and>
     map cc_Name classes' = map cc_Name classes"
  by (auto simp: mergeExistingConfig_def Let_def comp_def split: option.splits)

lemma provisioned_classes_ok:
  assumes "validateProvisionedClasses classes r = Inr ()" "c \<in> set classes" "class_dir (cc_Name c) \<noteq> None"
  shows "cls_ok (cc_Name c) c"
  using assms by (auto simp: validateProvisionedClasses_def rbind_Inr_iff check_all_Inr cls_ok_def)

lemma preserves_provisionDefaults:
  assumes "profile_ok prof" "preserves shape_ok after"
  shows "preserves shape_ok (provisionDefaults env prof trunk overrides after)"
  unfolding provisionDefaults_def Let_def
proof (intro preserves_intros assms(2))
  fix x s s' dev0 classes0 y t t' existingDev existingClasses dev classes1 z u u'
  assume a: "slift (buildDefaultConfig prof (resolveAutoRateString env trunk) (se_Now env)) s = (Inr x, s')" "x = (dev0, classes0)"
    "shape_ok t" "sread (loadExistingConfig env (dp_dir prof)) t = (Inr y, t')" "y = (existingDev, existingClasses)"
    "mergeExistingConfig dev0 classes0 existingDev existingClasses = (dev, classes1)"
    "slift (validateProvisionedClasses (applyClassOverrides classes1 overrides) (dc_Rate dev)) u = (Inr z, u')"
  then have build: "buildDefaultConfig prof (resolveAutoRateString env trunk) (se_Now env) = Inr (dev0, classes0)"
    and ok: "validateProvisionedClasses (applyClassOverrides classes1 overrides) (dc_Rate dev) = Inr ()" by auto
  have dev0: "dc_Dir dev0 = dp_dir prof" "dc_DefaultClass dev0 = dp_defaultClass prof" "validateRate (dc_Rate dev0) = Inr ()"
    and names0: "map cc_Name classes0 = map ds_name (dp_classes prof)"
    using build by (auto simp: buildDefaultConfig_def rbind_Inr_iff validateRate_Inr comp_def defaultClass_def)
  have existing: "dev_ok (dp_dir prof) e" if "existingDev = Some e" for e
    using a(3,4,5) that shape_ok_readDevice[of t env "dp_dir prof" e]
    by (auto simp: loadExistingConfig_def rbind_Inr_iff split: option.splits)
  note m = merge_dev[OF a(6)]
  show "dev_ok (dc_Dir dev) dev"
    using m dev0 existing assms(1) by (auto simp: dev_ok_def profile_ok_def)
  fix cls assume c: "cls \<in> set (applyClassOverrides classes1 overrides)"
  have "cc_Name cls \<in> set (map cc_Name classes1)" using c by (auto simp: applyClassOverrides_def)
  then have "class_dir (cc_Name cls) \<noteq> None"
    using m names0 assms(1) by (auto simp: profile_ok_def list_all_iff)
  with ok c show "cls_ok (cc_Name cls) cls" by (rule provisioned_classes_ok)
qed

lemma preserves_provisions:
  "preserves shape_ok (ProvisionDefaultEgress T env nic trunk ov)" "preserves shape_ok (ProvisionDefaultIngressShape env nic trunk ov)"
  unfolding ProvisionDefaultEgress_def ProvisionDefaultIngressShape_def ProvisionDefaultIngress_def
  by (intro preserves_provisionDefaults profiles_ok preserves_intros)+

lemma preserves_veth:
  "preserves shape_ok (ApplyIngressVeth T env veth)" "preserves shape_ok (RemoveIngressVeth T env veth)"
  unfolding ApplyIngressVeth_def RemoveIngressVeth_def applyVethHierarchy_def by (intro preserves_intros)+

section \<open>Sequences of operations\<close>

datatype sh_op =
    OpCreateDevice DeviceConfig bool
  | OpCreateClass ClassConfig bool
  | OpSetClass string "string option" "string option" "int option"
  | OpDeleteClass string
  | OpDeleteDevice string
  | OpTeardownEgress
  | OpTeardownIngress
  | OpProvisionEgress string string "(string \<times> ClassOverride) list"
  | OpProvisionIngress string string "(string \<times> ClassOverride) list"
  | OpApplyIngressVeth string
  | OpRemoveIngressVeth string

primrec run_sh :: "'k tc_runner \<Rightarrow> sh_env \<Rightarrow> sh_op \<Rightarrow> 'k sh_state \<Rightarrow> 'k sh_state" where
  "run_sh T env (OpCreateDevice d force) s = snd (CreateDevice T env d force s)"
| "run_sh T env (OpCreateClass c force) s = snd (CreateClass T env c force s)"
| "run_sh T env (OpSetClass n r c p) s = snd (SetClass T env n r c p s)"
| "run_sh T env (OpDeleteClass n) s = snd (DeleteClass T env n s)"
| "run_sh T env (OpDeleteDevice d) s = snd (DeleteDevice T env d s)"
| "run_sh T env OpTeardownEgress s = snd (TeardownEgress T env s)"
| "run_sh T env OpTeardownIngress s = snd (TeardownIngress env s)"
| "run_sh T env (OpProvisionEgress nic r ov) s = snd (ProvisionDefaultEgress T env nic r ov s)"
| "run_sh T env (OpProvisionIngress nic r ov) s = snd (ProvisionDefaultIngressShape env nic r ov s)"
| "run_sh T env (OpApplyIngressVeth v) s = snd (ApplyIngressVeth T env v s)"
| "run_sh T env (OpRemoveIngressVeth v) s = snd (RemoveIngressVeth T env v s)"

text \<open>The states reachable from empty directories; policies, script and kernel may change at any time.\<close>

inductive sh_reachable :: "'k tc_runner \<Rightarrow> 'k sh_state \<Rightarrow> bool" for T where
  sh_init: "sh_devices s = [] \<Longrightarrow> sh_classes s = [] \<Longrightarrow> sh_reachable T s"
| sh_step: "sh_reachable T s \<Longrightarrow> sh_reachable T (run_sh T env op s)"
| sh_external: "sh_reachable T s \<Longrightarrow> sh_devices s' = sh_devices s \<Longrightarrow> sh_classes s' = sh_classes s \<Longrightarrow> sh_reachable T s'"

lemmas preserves_ops = preserves_CreateDevice preserves_CreateClass preserves_SetClass preserves_deletes preserves_provisions preserves_veth

lemma sh_reachable_ok: "sh_reachable T s \<Longrightarrow> shape_ok s"
proof (induction rule: sh_reachable.induct)
  case (sh_init s)
  then show ?case by (simp add: shape_ok_def dev.files_ok_Nil cls.files_ok_Nil)
next
  case (sh_step s env op)
  then show ?case by (cases op) (simp_all add: preserves_ops[unfolded preserves_def, rule_format])
qed (simp add: shape_ok_def)

section \<open>Class rates\<close>

definition rate_of :: "ClassConfig \<Rightarrow> int" where
  "rate_of c = (case parseBandwidthBps (cc_Rate c) of Inl _ \<Rightarrow> 0 | Inr bps \<Rightarrow> bps)"

lemma wrap64_add [simp]: "wrap64 (wrap64 a + b) = wrap64 (a + b)"
  by (simp add: wrap64_def mod_simps algebra_simps)

lemma wrap64_idem [simp]: "wrap64 (wrap64 a) = wrap64 a"
  using wrap64_add[of a 0] by simp

text \<open>The running 64-bit sum is the sum modulo \<open>2 ^ 64\<close>, in any order.\<close>

lemma sum_rates: "sumParseableRatesBps cs = wrap64 (sum_list (map rate_of cs))"
proof -
  have "foldl add_rate (wrap64 acc) cs = wrap64 (acc + sum_list (map rate_of cs))" for acc
  proof (induction cs arbitrary: acc)
    case (Cons c cs)
    have "add_rate (wrap64 acc) c = wrap64 (acc + rate_of c)"
      by (cases "parseBandwidthBps (cc_Rate c)") (simp_all add: add_rate_def rate_of_def)
    then show ?case using Cons[of "acc + rate_of c"] by (simp add: add.assoc)
  qed simp
  from this[of 0] show ?thesis by (simp add: sumParseableRatesBps_def)
qed

lemma sum_list_filter_name:
  assumes "distinct (map cc_Name cs)" "c \<in> set cs"
  shows "sum_list (map rate_of cs) = sum_list (map rate_of (filter (\<lambda>x. cc_Name x \<noteq> cc_Name c) cs)) + rate_of c"
  using assms
proof (induction cs)
  case (Cons x cs)
  show ?case
  proof (cases "x = c")
    case True
    then have "filter (\<lambda>y. cc_Name y \<noteq> cc_Name c) cs = cs"
      using Cons.prems(1) by (auto simp: filter_id_conv) (metis imageI)
    then show ?thesis using True by simp
  next
    case False
    then have "c \<in> set cs" "cc_Name x \<noteq> cc_Name c" using Cons.prems by auto
    then show ?thesis using Cons by simp
  qed
qed simp

text \<open>The stored classes of a direction.\<close>

definition classes_in :: "string \<Rightarrow> 'k sh_state \<Rightarrow> ClassConfig list" where
  "classes_in dir s = List.map_filter (\<lambda>(n, f). case f of Malformed \<Rightarrow> None
     | Parsed c \<Rightarrow> if class_dir n = Some dir then Some c else None) (sh_classes s)"

definition stored_class :: "string \<Rightarrow> 'k sh_state \<Rightarrow> ClassConfig \<Rightarrow> bool" where
  "stored_class dir s c \<longleftrightarrow> class_dir (cc_Name c) = Some dir \<and> map_of (sh_classes s) (cc_Name c) = Some (Parsed c)"

lemma classes_in_facts:
  assumes "shape_ok s"
  shows "distinct (map cc_Name (classes_in dir s))" "c \<in> set (classes_in dir s) \<longleftrightarrow> stored_class dir s c"
proof -
  define fs where "fs = sh_classes s"
  define pick :: "string \<times> ClassConfig cfg_file \<Rightarrow> ClassConfig option" where "pick = (\<lambda>(n, f). case f of Malformed \<Rightarrow> None | Parsed c \<Rightarrow> if class_dir n = Some dir then Some c else None)"
  have ok: "cls.files_ok fs" and d: "distinct (map fst fs)" using assms by (simp_all add: shape_ok_def cls.files_ok_def fs_def)
  have named: "cc_Name v = n" if "(n, Parsed v) \<in> set fs" for n v
  proof -
    have "map_of fs n = Some (Parsed v)" using that d by simp
    then have "cls_ok n v" using ok unfolding cls.files_ok_def by blast
    then show ?thesis by (rule cls.key_valid)
  qed
  have "distinct (map cc_Name (List.map_filter pick gs)) \<and> cc_Name ` set (List.map_filter pick gs) \<subseteq> fst ` set gs"
    if "set gs \<subseteq> set fs" "distinct (map fst gs)" for gs
    using that
  proof (induction gs)
    case (Cons g gs)
    obtain n f where g: "g = (n, f)" by fastforce
    have IH: "distinct (map cc_Name (List.map_filter pick gs))" "cc_Name ` set (List.map_filter pick gs) \<subseteq> fst ` set gs"
      using Cons by auto
    show ?case
    proof (cases "pick g")
      case (Some c)
      then have "f = Parsed c" by (auto simp: pick_def g split: cfg_file.splits if_splits)
      then have "cc_Name c = n" using named Cons.prems(1) g by auto
      with IH Cons.prems(2) Some show ?thesis by (auto simp: List.map_filter_simps g)
    qed (use IH in \<open>auto simp: List.map_filter_simps\<close>)
  qed (simp add: List.map_filter_simps)
  from this[OF subset_refl d] show "distinct (map cc_Name (classes_in dir s))"
    by (simp add: classes_in_def fs_def pick_def)
  show "c \<in> set (classes_in dir s) \<longleftrightarrow> stored_class dir s c"
  proof -
    have pick: "pick nf = Some c \<longleftrightarrow> snd nf = Parsed c \<and> class_dir (fst nf) = Some dir" for nf
      by (cases nf; cases "snd nf") (auto simp: pick_def)
    have "c \<in> set (classes_in dir s) \<longleftrightarrow> (\<exists>nf \<in> set fs. pick nf = Some c)"
      by (simp add: classes_in_def fs_def pick_def set_map_filter_Some)
    also have "\<dots> \<longleftrightarrow> (\<exists>n. (n, Parsed c) \<in> set fs \<and> class_dir n = Some dir)"
      unfolding pick by force
    also have "\<dots> \<longleftrightarrow> stored_class dir s c"
      unfolding stored_class_def fs_def[symmetric] map_of_eq_Some_iff[OF d] using named by blast
    finally show ?thesis .
  qed
qed

lemma load_classes:
  assumes "shape_ok s" "loadClassesForDir env dir s = Inr cs"
  shows "distinct (map cc_Name cs)" "c \<in> set cs \<longleftrightarrow> stored_class dir s c"
proof -
  let ?fs = "sh_classes s"
  let ?ns = "sort_by (<) (filter (\<lambda>n. class_dir n = Some dir) (map fst ?fs))"
  have ok: "cls.files_ok ?fs" "distinct (map fst ?fs)" using assms(1) by (simp_all add: shape_ok_def cls.files_ok_def)
  from assms(2) obtain os where os: "rmap (\<lambda>n. readConfigJSON (se_ReadClass env n) ?fs n) ?ns = Inr os" "cs = List.map_filter id os"
    by (auto simp: loadClassesForDir_def readClass_def rbind_Inr_iff split: if_splits)
  have all: "map cc_Name cs = ?ns" "\<forall>v \<in> set cs. map_of ?fs (cc_Name v) = Some (Parsed v)"
    using cls.read_all[OF ok(1) os(1)] os(2) by auto
  show "distinct (map cc_Name cs)" using all(1) ok(2) by simp
  have names: "cc_Name ` set cs = {n \<in> fst ` set ?fs. class_dir n = Some dir}"
  proof -
    have "cc_Name ` set cs = set ?ns" using all(1) by (metis list.set_map)
    also have "\<dots> = {n \<in> fst ` set ?fs. class_dir n = Some dir}" by auto
    finally show ?thesis .
  qed
  show "c \<in> set cs \<longleftrightarrow> stored_class dir s c"
  proof
    assume "c \<in> set cs"
    then show "stored_class dir s c" using all(2) names by (auto simp: stored_class_def)
  next
    assume c: "stored_class dir s c"
    then have "cc_Name c \<in> fst ` set ?fs" "class_dir (cc_Name c) = Some dir"
      unfolding stored_class_def by (metis domI dom_map_of_conv_image_fst, simp)
    then have "cc_Name c \<in> cc_Name ` set cs" unfolding names by simp
    then obtain v where "v \<in> set cs" "cc_Name v = cc_Name c" by (metis imageE)
    with all(2) c show "c \<in> set cs" by (auto simp: stored_class_def)
  qed
qed

lemma load_classes_sum:
  assumes "shape_ok s" "loadClassesForDir env dir s = Inr cs"
  shows "mset cs = mset (classes_in dir s)"
proof -
  have "distinct cs" "distinct (classes_in dir s)"
    using load_classes(1)[OF assms] classes_in_facts(1)[OF assms(1), of dir] by (auto simp: distinct_map)
  moreover have "set cs = set (classes_in dir s)" using load_classes(2)[OF assms] classes_in_facts(2)[OF assms(1)] by blast
  ultimately show ?thesis by (simp add: set_eq_iff_mset_eq_distinct)
qed

text \<open>Writing a class adds its rate to those of the others.\<close>

lemma sum_rates_mset: "mset xs = mset ys \<Longrightarrow> sum_list (map rate_of xs) = sum_list (map rate_of ys)"
  unfolding sum_mset_sum_list[symmetric] mset_map by simp

lemma put_class_sum:
  assumes "shape_ok s" "loadClassesForDir env dir s = Inr cs" "shape_ok s'"
    and "sh_classes s' = al_put (cc_Name c) (Parsed c) (sh_classes s)" "class_dir (cc_Name c) = Some dir"
  shows "sum_list (map rate_of (classes_in dir s')) = sum_list (map rate_of (filter (\<lambda>x. cc_Name x \<noteq> cc_Name c) cs)) + rate_of c"
proof -
  let ?new = "classes_in dir s'"
  have c: "c \<in> set ?new" unfolding classes_in_facts(2)[OF assms(3)] stored_class_def assms(4) map_of_al_put using assms(5) by simp
  have "x \<in> set ?new \<and> cc_Name x \<noteq> cc_Name c \<longleftrightarrow> x \<in> set cs \<and> cc_Name x \<noteq> cc_Name c" for x
    unfolding classes_in_facts(2)[OF assms(3)] load_classes(2)[OF assms(1,2)] stored_class_def assms(4) map_of_al_put by auto
  then have "set (filter (\<lambda>x. cc_Name x \<noteq> cc_Name c) ?new) = set (filter (\<lambda>x. cc_Name x \<noteq> cc_Name c) cs)"
    unfolding set_filter by blast
  moreover have "distinct ?new" "distinct cs"
    using classes_in_facts(1)[OF assms(3), of dir] load_classes(1)[OF assms(1,2)] by (simp_all add: distinct_map)
  ultimately have "mset (filter (\<lambda>x. cc_Name x \<noteq> cc_Name c) ?new) = mset (filter (\<lambda>x. cc_Name x \<noteq> cc_Name c) cs)"
    by (intro iffD1[OF set_eq_iff_mset_eq_distinct] distinct_filter)
  then have "sum_list (map rate_of (filter (\<lambda>x. cc_Name x \<noteq> cc_Name c) ?new)) = sum_list (map rate_of (filter (\<lambda>x. cc_Name x \<noteq> cc_Name c) cs))"
    by (rule sum_rates_mset)
  then show ?thesis using sum_list_filter_name[OF classes_in_facts(1)[OF assms(3)] c] by simp
qed

lemma writeClass_ok: "writeClass env c s = (Inr u, s') \<Longrightarrow> s' = s\<lparr>sh_classes := al_put (cc_Name c) (Parsed c) (sh_classes s)\<rparr>"
  by (auto simp: writeClass_def atomicWriteFile_def split: file_write.splits)

lemma validateSumRates_budget:
  assumes "validateSumRates cs c rate = Inr ()" "parseBandwidthBps rate = Inr bps" "parseBandwidthBps (cc_Rate c) = Inr r"
  shows "wrap64 (sum_list (map rate_of (filter (\<lambda>x. cc_Name x \<noteq> cc_Name c) cs)) + r) \<le> bps"
  using assms by (simp add: validateSumRates_def Let_def sum_rates split: if_splits)

text \<open>A class that was checked against its siblings and written keeps the total within the device rate.\<close>

lemma written_within_budget:
  assumes "shape_ok s" "loadClassesForDir env dir s = Inr cs" "validateSumRates cs c rate = Inr ()" "cls_ok (cc_Name c) c"
    and "shape_ok s'" "sh_classes s' = al_put (cc_Name c) (Parsed c) (sh_classes s)" "class_dir (cc_Name c) = Some dir"
    and "parseBandwidthBps rate = Inr bps"
  shows "sumParseableRatesBps (classes_in dir s') \<le> bps"
proof -
  obtain r where r: "parseBandwidthBps (cc_Rate c) = Inr r" using assms(4) by (auto simp: cls_ok_def validateClassFields_Inr)
  show ?thesis
    using validateSumRates_budget[OF assms(3,8) r] put_class_sum[OF assms(1,2,5,6,7)] r by (simp add: sum_rates rate_of_def)
qed

lemma CreateClass_True:
  assumes "CreateClass T env c force s = (Inr True, s')"
  obtains ci dev cs c1 where "lookupClassInfo (cc_Name c) = Inr ci" "readDevice env (ci_Dir ci) s = Inr (Some dev)"
    "loadClassesForDir env (ci_Dir ci) s = Inr cs" "validateSumRates cs c (dc_Rate dev) = Inr ()"
    "cc_Name c1 = cc_Name c" "cc_Rate c1 = cc_Rate c" "sh_classes s' = al_put (cc_Name c) (Parsed c1) (sh_classes s)"
    "sh_devices s' = sh_devices s"
proof -
  note d = CreateClass_def withLock_def sbind_sread
  obtain ci where ci: "lookupClassInfo (cc_Name c) = Inr ci" using assms by (cases "lookupClassInfo (cc_Name c)") (simp_all add: d)
  have v: "validateClassFields (cc_Rate c) (cc_Ceil c) (cc_Prio c) = Inr ()"
    using assms ci by (cases "validateClassFields (cc_Rate c) (cc_Ceil c) (cc_Prio c)") (simp_all add: d)
  have lock: "se_Lock env" using assms ci v by (cases "se_Lock env") (simp_all add: d)
  obtain dd where dd: "readDevice env (ci_Dir ci) s = Inr dd"
    using assms ci v lock by (cases "readDevice env (ci_Dir ci) s") (simp_all add: d)
  obtain dev where dev: "readDevice env (ci_Dir ci) s = Inr (Some dev)"
    using assms ci v lock dd by (cases dd) (simp_all add: d)
  obtain cs where cs: "loadClassesForDir env (ci_Dir ci) s = Inr cs"
    using assms ci v lock dev by (cases "loadClassesForDir env (ci_Dir ci) s") (simp_all add: d)
  have sum: "validateSumRates cs c (dc_Rate dev) = Inr ()"
    using assms ci v lock dev cs by (cases "validateSumRates cs c (dc_Rate dev)") (simp_all add: d)
  obtain existing where ex: "readClass env (cc_Name c) s = Inr existing"
    using assms ci v lock dev cs sum by (cases "readClass env (cc_Name c) s") (simp_all add: d)
  have go: "\<not> (existing \<noteq> None \<and> \<not> force)" using assms ci v lock dev cs sum ex by (cases existing; cases force) (simp_all add: d)
  note f = ci dev cs sum
  have run: "(let c1 = (case existing of Some ex \<Rightarrow> c\<lparr>cc_CreatedAt := cc_CreatedAt ex\<rparr>
                  | None \<Rightarrow> if cc_CreatedAt c = 0 then c\<lparr>cc_CreatedAt := se_Now env\<rparr> else c)
              in sbind (writeClass env c1) (\<lambda>_.
                 sbind (if ci_Dir ci = DirEgress then applyEgressScript T env [] applyRestart else sret ()) (\<lambda>_. sret True))) s = (Inr True, s')"
    using assms ci v lock dev cs sum ex go by (cases existing; cases force) (simp_all add: d)
  define c1 where "c1 = (case existing of Some ex \<Rightarrow> c\<lparr>cc_CreatedAt := cc_CreatedAt ex\<rparr>
    | None \<Rightarrow> if cc_CreatedAt c = 0 then c\<lparr>cc_CreatedAt := se_Now env\<rparr> else c)"
  have c1: "cc_Name c1 = cc_Name c" "cc_Rate c1 = cc_Rate c" by (simp_all add: c1_def split: option.split)
  from run obtain u s1 where w: "writeClass env c1 s = (Inr u, s1)"
    and "(if ci_Dir ci = DirEgress then applyEgressScript T env [] applyRestart else sret ()) s1 = (Inr (), s')"
    by (auto simp: Let_def c1_def[symmetric] sbind_Inr_iff)
  then have "sh_config s' = sh_config s1" using keepsD[OF keeps_config_apply] by (auto split: if_splits)
  with writeClass_ok[OF w] c1 that[OF f, of c1] show ?thesis by (simp add: sh_config_def)
qed

lemma SetClass_ok:
  assumes "SetClass T env n rate ceil prio s = (Inr (), s')"
  obtains ci c0 c dd where "lookupClassInfo n = Inr ci" "readClass env n s = Inr (Some c0)" "c = setFields rate ceil prio c0"
    "validateClassFields (cc_Rate c) (cc_Ceil c) (cc_Prio c) = Inr ()" "readDevice env (ci_Dir ci) s = Inr dd"
    "\<And>dev. dd = Some dev \<Longrightarrow> \<exists>cs. loadClassesForDir env (ci_Dir ci) s = Inr cs \<and> validateSumRates cs c (dc_Rate dev) = Inr ()"
    "sh_classes s' = al_put (cc_Name c0) (Parsed c) (sh_classes s)" "sh_devices s' = sh_devices s"
proof -
  note d = SetClass_def withLock_def sbind_sread
  obtain ci where ci: "lookupClassInfo n = Inr ci" using assms by (cases "lookupClassInfo n") (simp_all add: d)
  have lock: "se_Lock env" using assms ci by (cases "se_Lock env") (simp_all add: d)
  obtain oc where oc: "readClass env n s = Inr oc" using assms ci lock by (cases "readClass env n s") (simp_all add: d)
  obtain c0 where c0: "readClass env n s = Inr (Some c0)" using assms ci lock oc by (cases oc) (simp_all add: d)
  define c where "c = setFields rate ceil prio c0"
  note run0 = assms[unfolded SetClass_def withLock_def, simplified ci sbind_slift if_P[OF lock] sbind_sread[of "readClass env n"] c0 sum.case option.case Let_def,
      folded c_def]
  have v: "validateClassFields (cc_Rate c) (cc_Ceil c) (cc_Prio c) = Inr ()"
    using run0 by (cases "validateClassFields (cc_Rate c) (cc_Ceil c) (cc_Prio c)") simp_all
  obtain dd where dd: "readDevice env (ci_Dir ci) s = Inr dd"
    using run0 v by (cases "readDevice env (ci_Dir ci) s") (simp_all add: sbind_sread)
  let ?tail = "\<lambda>_. sbind (writeClass env c) (\<lambda>_.
            if ci_Dir ci = DirEgress then
              sbind (slift (map_err (decorate ''egress NIC detection failed'') (se_NIC env))) (\<lambda>nic.
              sbind (smap_err (decorate ''live tc class change failed'')
                (sh_kern (t_ClassChange T nic (ci_Minor ci) (cc_Rate c) (effectiveCeil c) (cc_Prio c)))) (\<lambda>_.
              smap_err (decorate ''boot script re-render failed'') (applyEgressScript T env nic applyPersistOnly)))
            else sret ())"
  have "sbind (case dd of None \<Rightarrow> sret () | Some dev \<Rightarrow> sbind (sread (loadClassesForDir env (ci_Dir ci))) (\<lambda>siblings.
                  slift (validateSumRates siblings c (dc_Rate dev)))) ?tail s = (Inr (), s')"
    using run0 v dd by (simp add: sbind_sread[of "readDevice env (ci_Dir ci)"])
  then obtain x s1 where chk: "(case dd of None \<Rightarrow> sret () | Some dev \<Rightarrow> sbind (sread (loadClassesForDir env (ci_Dir ci))) (\<lambda>siblings.
                  slift (validateSumRates siblings c (dc_Rate dev)))) s = (Inr x, s1)" and tail: "?tail () s1 = (Inr (), s')"
    unfolding sbind_Inr_iff[of _ ?tail] by blast
  have sums: "\<exists>cs. loadClassesForDir env (ci_Dir ci) s = Inr cs \<and> validateSumRates cs c (dc_Rate dev) = Inr ()" if "dd = Some dev" for dev
    using chk that by (auto simp: sbind_sread split: sum.splits)
  have s1: "s1 = s" using chk by (cases dd) (auto simp: sbind_sread split: sum.splits)
  let ?rest = "if ci_Dir ci = DirEgress then
              sbind (slift (map_err (decorate ''egress NIC detection failed'') (se_NIC env))) (\<lambda>nic.
              sbind (smap_err (decorate ''live tc class change failed'')
                (sh_kern (t_ClassChange T nic (ci_Minor ci) (cc_Rate c) (effectiveCeil c) (cc_Prio c)))) (\<lambda>_.
              smap_err (decorate ''boot script re-render failed'') (applyEgressScript T env nic applyPersistOnly)))
            else sret ()"
  from tail obtain u s2 where w: "writeClass env c s = (Inr u, s2)" and rest: "?rest s2 = (Inr (), s')"
    unfolding s1 sbind_Inr_iff[of "writeClass env c"] by blast
  have "keeps sh_config ?rest" by (intro keeps_intros)
  from keepsD[OF this rest] have "sh_config s' = sh_config s2" .
  with writeClass_ok[OF w] have "sh_classes s' = al_put (cc_Name c0) (Parsed c) (sh_classes s)" "sh_devices s' = sh_devices s"
    by (simp_all add: sh_config_def c_def)
  with that[OF ci c0 c_def v dd sums] show ?thesis by simp
qed

section \<open>Text of the boot script\<close>

definition shell_safe :: "string \<Rightarrow> bool" where
  "shell_safe w \<longleftrightarrow> set w \<inter> {CHR 0x22, CHR ''$'', CHR 0x60, CHR 0x5C, CHR '';'', CHR ''&'', CHR ''|''} = {}"

lemma shell_safe_rate: "parseBandwidthBps r = Inr v \<Longrightarrow> shell_safe r"
  using rate_byte_plain[OF rate_bytes[of r v]] by (auto simp: shell_safe_def)

lemma shell_safe_pct: "shell_safe (pct_mbit m p)"
proof -
  have "is_digit c" if "c \<in> set (itoa n)" "0 \<le> n" for c n using itoa_digit_set that by blast
  then have "is_digit c \<or> c = CHR ''-''" if "c \<in> set (itoa_int i)" for c i
    using that by (auto simp: itoa_int_def split: if_splits)
  then show ?thesis by (fastforce simp: shell_safe_def pct_mbit_def is_digit_def)
qed

definition script_safe :: "scriptData \<Rightarrow> bool" where
  "script_safe d \<longleftrightarrow> nicNameRe (sd_NIC d) \<and> shell_safe (dr_Rate (sd_Device d)) \<and> dr_DefaultMinor (sd_Device d) \<in> ci_Minor ` snd ` set classInfoMap \<and>
     (\<forall>c \<in> set (sd_Classes d). shell_safe (cr_Rate c) \<and> shell_safe (cr_Ceil c) \<and>
        (cr_Minor c, cr_Handle c) \<in> (\<lambda>ci. (ci_Minor ci, ci_Handle ci)) ` snd ` set classInfoMap)"

lemma lookupClassInfo_set: "lookupClassInfo n = Inr ci \<Longrightarrow> ci \<in> snd ` set classInfoMap"
  by (auto simp: lookupClassInfo_def split: option.splits dest!: map_of_SomeD intro: rev_image_eqI)

lemma script_from_config:
  assumes "renderTcEgressScriptFromConfig nic dev classes = Inr script" "shell_safe (dc_Rate dev)"
    and "\<forall>c \<in> set classes. shell_safe (cc_Rate c) \<and> shell_safe (cc_Ceil c)"
  shows "\<exists>d. script_safe d \<and> sd_NIC d = nic \<and> dr_Rate (sd_Device d) = dc_Rate dev \<and> script = concat (map (\<lambda>l. l @ [nl]) (script_lines d))"
proof -
  from assms(1) obtain info crs where i: "lookupClassInfo (dc_DefaultClass dev) = Inr info" "rmap classRender classes = Inr crs"
    and r: "renderTcEgressScriptFromData \<lparr>sd_NIC = nic, sd_SpeedMbit = -1, sd_Device = \<lparr>dr_DefaultMinor = ci_Minor info, dr_Rate = dc_Rate dev\<rparr>,
        sd_Classes = crs, sd_Unshape = False\<rparr> = Inr script"
    by (auto simp: renderTcEgressScriptFromConfig_def rbind_Inr_iff)
  have "shell_safe (cr_Rate cr) \<and> shell_safe (cr_Ceil cr) \<and>
        (cr_Minor cr, cr_Handle cr) \<in> (\<lambda>ci. (ci_Minor ci, ci_Handle ci)) ` snd ` set classInfoMap" if "cr \<in> set crs" for cr
  proof -
    from rmap_member[OF i(2) that] obtain c ci where c: "c \<in> set classes" "lookupClassInfo (cc_Name c) = Inr ci"
      "cr = \<lparr>cr_Minor = ci_Minor ci, cr_Handle = ci_Handle ci, cr_Rate = cc_Rate c, cr_Ceil = effectiveCeil c, cr_Prio = cc_Prio c\<rparr>"
      by (auto simp: classRender_def rbind_Inr_iff)
    then show ?thesis using assms(3) lookupClassInfo_set[OF c(2)] by (auto simp: effectiveCeil_def)
  qed
  with i(1) r assms(2) lookupClassInfo_set show ?thesis
    by (auto simp: renderTcEgressScriptFromData_def script_safe_def split: if_splits intro!: exI[where x = "\<lparr>sd_NIC = nic, sd_SpeedMbit = -1,
        sd_Device = \<lparr>dr_DefaultMinor = ci_Minor info, dr_Rate = dc_Rate dev\<rparr>, sd_Classes = crs, sd_Unshape = False\<rparr>"])
qed

lemma script_default:
  assumes "renderTcEgressScript nic = Inr script"
  shows "nicNameRe nic \<and> script = concat (map (\<lambda>l. l @ [nl]) (script_lines (defaultScriptData nic)))"
  using assms by (auto simp: renderTcEgressScript_def renderTcEgressScriptFromData_def defaultScriptData_def split: if_splits)

lemma renderEgressScript_safe:
  assumes "shape_ok s" "renderEgressScript env nic s = Inr script"
  shows "\<exists>d. sd_NIC d = nic \<and> nicNameRe nic \<and> script = concat (map (\<lambda>l. l @ [nl]) (script_lines d)) \<and>
    (case map_of (sh_devices s) DirEgress of
       Some (Parsed dev) \<Rightarrow> script_safe d \<and> dr_Rate (sd_Device d) = dc_Rate dev \<or>
         d = defaultScriptData nic \<and> \<not> is_ok (defaultEgressConfig (dc_Rate dev) (se_Now env))
     | _ \<Rightarrow> d = defaultScriptData nic)"
proof -
  have nic: "sd_NIC (defaultScriptData nic) = nic" by (simp add: defaultScriptData_def)
  obtain d0 where d0: "readDevice env DirEgress s = Inr d0" using assms(2) by (auto simp: renderEgressScript_def rbind_Inr_iff)
  show ?thesis
  proof (cases d0)
    case None
    then have "map_of (sh_devices s) DirEgress = None" "renderTcEgressScript nic = Inr script"
      using d0 assms(2) by (auto simp: readDevice_def readConfigJSON_def renderEgressScript_def split: option.splits if_splits cfg_file.splits)
    with script_default nic show ?thesis by auto
  next
    case (Some dev)
    note dev = d0[unfolded Some]
    have stored: "map_of (sh_devices s) DirEgress = Some (Parsed dev)"
      using dev by (auto simp: readDevice_def readConfigJSON_def split: option.splits if_splits cfg_file.splits)
    from assms(2) dev obtain cs where cs: "loadClassesForDir env DirEgress s = Inr cs"
      and r: "(if length cs = 0 then (case defaultEgressConfig (dc_Rate dev) (se_Now env) of
              Inr (_, defClasses) \<Rightarrow> renderTcEgressScriptFromConfig nic dev defClasses | Inl _ \<Rightarrow> renderTcEgressScript nic)
         else renderTcEgressScriptFromConfig nic dev cs) = Inr script"
      by (auto simp: renderEgressScript_def rbind_Inr_iff)
    have rate: "shell_safe (dc_Rate dev)"
      using shape_ok_readDevice[OF assms(1) dev] shell_safe_rate by (auto simp: dev_ok_def validateRate_Inr)
    consider (default) "\<not> is_ok (defaultEgressConfig (dc_Rate dev) (se_Now env))" "renderTcEgressScript nic = Inr script"
      | (config) classes where "renderTcEgressScriptFromConfig nic dev classes = Inr script" "\<forall>c \<in> set classes. shell_safe (cc_Rate c) \<and> shell_safe (cc_Ceil c)"
    proof (cases "cs = []")
      case True
      show ?thesis
      proof (cases "defaultEgressConfig (dc_Rate dev) (se_Now env)")
        case (Inl e)
        with r True default show ?thesis by simp
      next
        case (Inr dd)
        obtain dev' defs where dd: "dd = (dev', defs)" by (cases dd)
        have "\<forall>c \<in> set defs. shell_safe (cc_Rate c) \<and> shell_safe (cc_Ceil c)"
          using Inr dd rate shell_safe_pct by (auto simp: defaultEgressConfig_def buildDefaultConfig_def rbind_Inr_iff defaultClass_def)
        with r True Inr dd config show ?thesis by simp
      qed
    next
      case False
      have "shell_safe (cc_Rate c) \<and> shell_safe (cc_Ceil c)" if "c \<in> set cs" for c
      proof -
        have "map_of (sh_classes s) (cc_Name c) = Some (Parsed c)"
          using load_classes(2)[OF assms(1) cs] that by (simp add: stored_class_def)
        then have "cls_ok (cc_Name c) c" using assms(1) cls.files_ok_valid by (auto simp: shape_ok_def)
        then show ?thesis using shell_safe_rate by (auto simp: cls_ok_def validateClassFields_Inr shell_safe_def)
      qed
      with False r config show ?thesis by simp
    qed
    then show ?thesis
    proof cases
      case default
      with script_default nic stored show ?thesis by auto
    next
      case (config classes)
      from script_from_config[OF config(1) rate config(2)] stored show ?thesis by (auto simp: script_safe_def)
    qed
  qed
qed

section \<open>References to a class\<close>

lemma find_set: "find P xs = Some x \<Longrightarrow> x \<in> set xs \<and> P x"
  by (induction xs) (auto split: if_splits)

lemma policyStamps_free:
  assumes "policyStamps env (p, Parsed ref) = Inr y" "\<forall>q. (name, q) \<notin> set y" "name \<noteq> []"
  shows "ps_Stamp ref \<noteq> name \<and> ps_ReplyStamp ref \<noteq> name"
  using assms by (auto simp: policyStamps_def split: if_splits)

lemma loadPolicyStamps_free:
  assumes "loadPolicyStamps env s = Inr stamps" "stamps name = []" "name \<noteq> []" "(p, Parsed ref) \<in> set (sh_policies s)"
  shows "ps_Stamp ref \<noteq> name \<and> ps_ReplyStamp ref \<noteq> name"
proof -
  let ?ps = "sort_by (\<lambda>a b. fst a < fst b) (sh_policies s)"
  from assms(1) obtain refs where refs: "rmap (policyStamps env) ?ps = Inr refs"
    "stamps = (\<lambda>class. map snd (filter (\<lambda>r. fst r = class) (concat refs)))"
    by (auto simp: loadPolicyStamps_def rbind_Inr_iff split: if_splits)
  from rmap_set[OF refs(1)] assms(4) obtain y where y: "policyStamps env (p, Parsed ref) = Inr y" "y \<in> set refs" by fastforce
  have "filter (\<lambda>r. fst r = name) (concat refs) = []" using assms(2) refs(2) by simp
  then have "\<forall>q. (name, q) \<notin> set y" using y(2) by (fastforce simp: filter_empty_conv)
  with y(1) assms(3) show ?thesis using policyStamps_free by blast
qed

section \<open>A host for the witnesses\<close>

definition script_runner :: "string option tc_runner" where
  "script_runner = \<lparr>t_ClassChange = (\<lambda>_ _ _ _ _ k. (Inr (), k)), t_QdiscDelRoot = (\<lambda>_ k. (Inr (), None)),
     t_QdiscAddRoot = (\<lambda>_ _ k. (Inr (), k)), t_ClassAddRoot = (\<lambda>_ _ _ k. (Inr (), k)), t_ClassAdd = (\<lambda>_ _ _ _ _ k. (Inr (), k)),
     t_QdiscAddFqCodel = (\<lambda>_ _ _ k. (Inr (), k)), t_applyEgress = (\<lambda>script k. (Inr (), script))\<rparr>"

definition quiet_host :: sh_env where
  "quiet_host = \<lparr>se_Lock = True, se_ReadDevice = (\<lambda>_. True), se_ReadClass = (\<lambda>_. True), se_ReadClassDir = True,
     se_WriteDevice = Written, se_WriteClass = (\<lambda>_. Written), se_RemoveDevice = True, se_RemoveClass = (\<lambda>_. True),
     se_ReadPolicyDir = True, se_ReadPolicy = (\<lambda>_. True), se_ReadScript = True, se_WriteScript = Written,
     se_NIC = Inr ''ens3'', se_Sysfs = (\<lambda>_. None), se_Now = 1\<rparr>"

definition fresh_host :: "string option sh_state" where
  "fresh_host = \<lparr>sh_devices = [], sh_classes = [], sh_policies = [], sh_script = None, sh_kernel = None\<rparr>"

definition egress_1g :: DeviceConfig where
  "egress_1g = \<lparr>dc_Dir = ''egress'', dc_Rate = ''1gbit'', dc_DefaultClass = ''reserve-egress'', dc_CreatedAt = 1\<rparr>"

definition ingress_1g :: DeviceConfig where
  "ingress_1g = \<lparr>dc_Dir = ''ingress'', dc_Rate = ''1gbit'', dc_DefaultClass = ''reserve-ingress'', dc_CreatedAt = 1\<rparr>"

definition partner_400 :: ClassConfig where
  "partner_400 = \<lparr>cc_Name = ''partner'', cc_Rate = ''400mbit'', cc_Ceil = ''700mbit'', cc_Prio = 0, cc_CreatedAt = 1\<rparr>"

definition publisher_400 :: ClassConfig where
  "publisher_400 = \<lparr>cc_Name = ''publisher'', cc_Rate = ''400mbit'', cc_Ceil = ''700mbit'', cc_Prio = 0, cc_CreatedAt = 1\<rparr>"

definition shaped_host :: "string option sh_state" where
  "shaped_host = \<lparr>sh_devices = [(''ingress'', Parsed ingress_1g)], sh_classes = [(''publisher'', Parsed publisher_400)],
     sh_policies = [], sh_script = None, sh_kernel = None\<rparr>"

definition egress_host :: "string option sh_state" where
  "egress_host = run_sh script_runner quiet_host (OpCreateDevice egress_1g False) fresh_host"

lemma shaped_reachable: "sh_reachable script_runner shaped_host" "sh_reachable script_runner egress_host"
proof -
  have "shaped_host = run_sh script_runner quiet_host (OpCreateClass publisher_400 False)
     (run_sh script_runner quiet_host (OpCreateDevice ingress_1g False) fresh_host)" by code_simp
  then show "sh_reachable script_runner shaped_host" by (metis (no_types) fresh_host_def sh_init sh_state.select_convs(1,2) sh_step)
  show "sh_reachable script_runner egress_host" unfolding egress_host_def by (intro sh_step sh_init) (simp_all add: fresh_host_def)
qed

lemma shape_runs:
  "fst (SetClass script_runner quiet_host ''publisher'' (Some ''500mbit'') None None shaped_host) = Inr ()"
  "fst (DeleteClass script_runner quiet_host ''publisher'' shaped_host) = Inr ()"
  "sh_classes (snd (DeleteClass script_runner quiet_host ''publisher'' shaped_host)) \<noteq> sh_classes shaped_host"
  by code_simp+

section \<open>Guarantees\<close>

text \<open>
  C4: the stored configuration stays valid. In every state that any sequence of operations reaches, under any
  failures of the host, every device file and every class file decodes, is stored under its own name and passes the
  validation of the verb that wrote it.
\<close>

theorem shape_invariant:
  assumes "sh_reachable T s"
  shows "shape_ok s"
  using assms by (rule sh_reachable_ok)

theorem shape_invariant_witness: "shape_ok shaped_host \<and> sh_classes shaped_host \<noteq> []"
proof
  show "shape_ok shaped_host" using shape_invariant[OF shaped_reachable(1)] .
  show "sh_classes shaped_host \<noteq> []" by code_simp
qed

text \<open>
  C38: the trunk is not oversubscribed by a class that is written. After a class was created, or set while its device
  exists, the stored rates of its direction add up, in 64-bit arithmetic, to at most the rate of the device.
\<close>

theorem class_writes_within_budget:
  assumes "sh_reachable T s"
  shows "(CreateClass T env c force s = (Inr True, s') \<longrightarrow>
      (\<exists>dir dev. class_dir (cc_Name c) = Some dir \<and> map_of (sh_devices s') dir = Some (Parsed dev) \<and>
        (\<forall>bps. parseBandwidthBps (dc_Rate dev) = Inr bps \<longrightarrow> sumParseableRatesBps (classes_in dir s') \<le> bps))) \<and>
    (SetClass T env n rate ceil prio s = (Inr (), s') \<longrightarrow>
      (\<exists>dir. class_dir n = Some dir \<and> (\<forall>dev bps. map_of (sh_devices s') dir = Some (Parsed dev) \<longrightarrow>
        parseBandwidthBps (dc_Rate dev) = Inr bps \<longrightarrow> sumParseableRatesBps (classes_in dir s') \<le> bps)))"
proof (intro conjI impI)
  note ok = sh_reachable_ok[OF assms]
  {
    assume run: "CreateClass T env c force s = (Inr True, s')"
    have ok': "shape_ok s'" using preservesD[OF preserves_CreateClass ok run] .
    from run show "\<exists>dir dev. class_dir (cc_Name c) = Some dir \<and> map_of (sh_devices s') dir = Some (Parsed dev) \<and>
        (\<forall>bps. parseBandwidthBps (dc_Rate dev) = Inr bps \<longrightarrow> sumParseableRatesBps (classes_in dir s') \<le> bps)"
    proof (cases rule: CreateClass_True)
      case (1 ci dev cs c1)
      have dir: "class_dir (cc_Name c1) = Some (ci_Dir ci)" using 1(1,5) class_dir_lookup by auto
      have c1: "cls_ok (cc_Name c1) c1" using ok' 1(5,7) cls.files_ok_valid[of "sh_classes s'"] by (simp add: shape_ok_def)
      have sum: "validateSumRates cs c1 (dc_Rate dev) = Inr ()" using 1(4) unfolding validateSumRates_def 1(5) 1(6) .
      have "map_of (sh_devices s') (ci_Dir ci) = Some (Parsed dev)"
        using 1(2,8) ok dev.read_valid by (auto simp: readDevice_def shape_ok_def)
      with written_within_budget[OF ok 1(3) sum c1 ok'] dir 1(5,7) show ?thesis by auto
    qed
  }
  {
    assume run: "SetClass T env n rate ceil prio s = (Inr (), s')"
    have ok': "shape_ok s'" using preservesD[OF preserves_SetClass ok run] .
    from run show "\<exists>dir. class_dir n = Some dir \<and> (\<forall>dev bps. map_of (sh_devices s') dir = Some (Parsed dev) \<longrightarrow>
        parseBandwidthBps (dc_Rate dev) = Inr bps \<longrightarrow> sumParseableRatesBps (classes_in dir s') \<le> bps)"
    proof (cases rule: SetClass_ok)
      case (1 ci c0 c dd)
      have n: "cc_Name c0 = n" "cc_Name c = n" using shape_ok_readClass[OF ok 1(2)] 1(3) by (simp_all add: cls_ok_def)
      have dir: "class_dir n = Some (ci_Dir ci)" using 1(1) class_dir_lookup by auto
      have c: "cls_ok (cc_Name c) c" using ok' 1(7) n cls.files_ok_valid[of "sh_classes s'"] by (simp add: shape_ok_def)
      have "sumParseableRatesBps (classes_in (ci_Dir ci) s') \<le> bps"
        if "map_of (sh_devices s') (ci_Dir ci) = Some (Parsed dev)" "parseBandwidthBps (dc_Rate dev) = Inr bps" for dev bps
      proof -
        have "dd = Some dev" using 1(5,8) that(1) by (auto simp: readDevice_def readConfigJSON_def split: if_splits)
        with 1(6) obtain cs where "loadClassesForDir env (ci_Dir ci) s = Inr cs" "validateSumRates cs c (dc_Rate dev) = Inr ()" by blast
        from written_within_budget[OF ok this c ok' _ _ that(2)] 1(7) n dir show ?thesis by simp
      qed
      with dir show ?thesis by blast
    qed
  }
qed

theorem class_writes_within_budget_witness:
  "\<exists>s' dir. SetClass script_runner quiet_host ''publisher'' (Some ''500mbit'') None None shaped_host = (Inr (), s') \<and>
     class_dir ''publisher'' = Some dir \<and> (\<forall>dev bps. map_of (sh_devices s') dir = Some (Parsed dev) \<longrightarrow>
        parseBandwidthBps (dc_Rate dev) = Inr bps \<longrightarrow> sumParseableRatesBps (classes_in dir s') \<le> bps)"
proof -
  let ?r = "SetClass script_runner quiet_host ''publisher'' (Some ''500mbit'') None None shaped_host"
  have "?r = (Inr (), snd ?r)" using shape_runs(1) by (metis prod.collapse)
  with class_writes_within_budget[OF shaped_reachable(1), where s' = "snd ?r"] show ?thesis by metis
qed

text \<open>
  A class in use is not deleted. If \<open>DeleteClass\<close> changes the stored classes, whatever its result, then the class was
  configured, it is not the default class of its device, and no policy of the registry stamps it or restores it.
\<close>

lemma DeleteClass_guarded:
  assumes "DeleteClass T env name s = (r, s')" "sh_classes s' \<noteq> sh_classes s"
  shows "sh_classes s' = al_del name (sh_classes s) \<and>
    (\<exists>dir. class_dir name = Some dir \<and> (\<forall>dev. map_of (sh_devices s) dir = Some (Parsed dev) \<longrightarrow> dc_DefaultClass dev \<noteq> name)) \<and>
    (\<forall>p ref. (p, Parsed ref) \<in> set (sh_policies s) \<longrightarrow> ps_Stamp ref \<noteq> name \<and> ps_ReplyStamp ref \<noteq> name)"
proof -
  note d = DeleteClass_def withLock_def sbind_sread
  obtain ci where ci: "lookupClassInfo name = Inr ci" using assms by (cases "lookupClassInfo name") (simp_all add: d)
  have lock: "se_Lock env" using assms ci by (cases "se_Lock env") (simp_all add: d)
  obtain c where c: "readClass env name s = Inr c" using assms ci lock by (cases "readClass env name s") (simp_all add: d)
  have c': "c \<noteq> None" using assms ci lock c by (cases c) (simp_all add: d)
  obtain dd where dd: "readDevice env (ci_Dir ci) s = Inr dd"
    using assms ci lock c c' by (cases "readDevice env (ci_Dir ci) s") (simp_all add: d)
  have default: "\<not> (case dd of None \<Rightarrow> False | Some dev \<Rightarrow> dc_DefaultClass dev = name)"
    using assms ci lock c c' dd by (cases "case dd of None \<Rightarrow> False | Some dev \<Rightarrow> dc_DefaultClass dev = name") (simp_all add: d)
  obtain stamps where st: "loadPolicyStamps env s = Inr stamps"
    using assms ci lock c c' dd default by (cases "loadPolicyStamps env s") (simp_all add: d)
  have free: "stamps name = []"
    using assms ci lock c c' dd default st by (cases "stamps name") (simp_all add: d)
  let ?rest = "\<lambda>_ :: unit. if ci_Dir ci = DirEgress
    then smap_err (decorate ''boot script re-render failed'') (applyEgressScript T env [] applyRestart) else sret ()"
  have run: "sbind (removeClass env name) ?rest s = (r, s')"
    using assms(1) ci lock c c' dd default st free by (simp add: d)
  have keep: "keeps sh_config (?rest u)" for u by (intro keeps_intros)
  from run have "sh_classes s' = al_del name (sh_classes s)"
  proof (cases rule: sbind_cases)
    case (2 u s1)
    have "sh_config s' = sh_config s1" using keepsD[OF keep 2(2)] .
    with 2(1) assms(2) show ?thesis by (auto simp: sh_config_def removeClass_def split: if_splits)
  qed (use assms(2) in \<open>auto simp: removeClass_def split: if_splits\<close>)
  moreover have "dc_DefaultClass dev \<noteq> name" if "map_of (sh_devices s) (ci_Dir ci) = Some (Parsed dev)" for dev
    using dd default that by (auto simp: readDevice_def readConfigJSON_def split: if_splits)
  moreover have "name \<noteq> []" using ci by (auto simp: lookupClassInfo_def classInfoMap_def)
  then have "\<forall>p ref. (p, Parsed ref) \<in> set (sh_policies s) \<longrightarrow> ps_Stamp ref \<noteq> name \<and> ps_ReplyStamp ref \<noteq> name"
    using loadPolicyStamps_free[OF st free] by blast
  ultimately show ?thesis using ci class_dir_lookup by blast
qed

text \<open>
  C40: the boot script is free of injected commands. In every reachable state, the script rendered for an interface is the expansion of
  the template at that interface, whose name is of the allowed alphabet, and at one of two kinds of values. Without a stored egress device, or
  with one that has no classes and whose rate gives no default classes, they are the fixed default expressions, which depend on nothing that an operator
  wrote. Otherwise they are the rate of the stored device, class ids of the class table, and rates and ceilings, none of which has a
  shell-special byte.
\<close>

theorem boot_script_safe:
  assumes "sh_reachable T s" "renderEgressScript env nic s = Inr script"
  shows "\<exists>d. sd_NIC d = nic \<and> nicNameRe nic \<and> script = concat (map (\<lambda>l. l @ [nl]) (script_lines d)) \<and>
    (case map_of (sh_devices s) DirEgress of
       Some (Parsed dev) \<Rightarrow> script_safe d \<and> dr_Rate (sd_Device d) = dc_Rate dev \<or>
         d = defaultScriptData nic \<and> \<not> is_ok (defaultEgressConfig (dc_Rate dev) (se_Now env))
     | _ \<Rightarrow> d = defaultScriptData nic)"
  by (rule renderEgressScript_safe[OF sh_reachable_ok[OF assms(1)] assms(2)])

theorem boot_script_safe_witness:
  "\<exists>script d. renderEgressScript quiet_host ''ens3'' egress_host = Inr script \<and> script_safe d \<and> sd_NIC d = ''ens3'' \<and>
     script = concat (map (\<lambda>l. l @ [nl]) (script_lines d))"
proof -
  have "is_ok (renderEgressScript quiet_host ''ens3'' egress_host)" by code_simp
  then obtain script where r: "renderEgressScript quiet_host ''ens3'' egress_host = Inr script"
    by (cases "renderEgressScript quiet_host ''ens3'' egress_host") auto
  have "case map_of (sh_devices egress_host) DirEgress of
      Some (Parsed dev) \<Rightarrow> is_ok (defaultEgressConfig (dc_Rate dev) (se_Now quiet_host)) | _ \<Rightarrow> False" by code_simp
  then obtain dev where dev: "map_of (sh_devices egress_host) DirEgress = Some (Parsed dev)" "is_ok (defaultEgressConfig (dc_Rate dev) (se_Now quiet_host))"
    by (auto split: option.splits cfg_file.splits)
  from boot_script_safe[OF shaped_reachable(2) r] dev r show ?thesis by auto
qed

text \<open>
  Re-provisioning keeps what was tuned. When the requested trunk rate is the bandwidth already recorded, the merged
  device is the recorded one, with the profile's default class, and every class of the profile that is recorded comes
  out exactly as recorded.
\<close>

lemma mergeExistingConfig_preserves:
  assumes "buildDefaultConfig prof trunk now = Inr (dev0, classes0)" "sameBandwidth (dc_Rate ex) trunk"
    "dc_Dir ex = dp_dir prof" "dc_CreatedAt ex \<noteq> 0" "distinct (map cc_Name existing)" "\<forall>c \<in> set existing. cc_CreatedAt c \<noteq> 0"
    "mergeExistingConfig dev0 classes0 (Some ex) existing = (dev, classes)"
  shows "dev = ex\<lparr>dc_DefaultClass := dp_defaultClass prof\<rparr> \<and> map cc_Name classes = map ds_name (dp_classes prof) \<and>
    (\<forall>c \<in> set classes. \<forall>prev \<in> set existing. cc_Name prev = cc_Name c \<longrightarrow> c = prev)"
proof -
  have b: "dev0 = \<lparr>dc_Dir = dp_dir prof, dc_Rate = trunk, dc_DefaultClass = dp_defaultClass prof, dc_CreatedAt = now\<rparr>"
    "map cc_Name classes0 = map ds_name (dp_classes prof)"
    using assms(1) by (auto simp: buildDefaultConfig_def rbind_Inr_iff comp_def defaultClass_def)
  have m: "dev = ex\<lparr>dc_DefaultClass := dp_defaultClass prof\<rparr>" "classes = map (mergeClass True existing) classes0"
    using assms(2,3,4,7) by (auto simp: mergeExistingConfig_def Let_def b(1))
  have "mergeClass True existing c0 = prev" if "prev \<in> set existing" "cc_Name prev = cc_Name c0" for c0 prev
  proof -
    have "find (\<lambda>e. cc_Name e = cc_Name c0) (rev existing) = Some prev"
    proof (cases "find (\<lambda>e. cc_Name e = cc_Name c0) (rev existing)")
      case None
      then show ?thesis using that by (auto simp: find_None_iff)
    next
      case (Some e)
      then have "e \<in> set existing" "cc_Name e = cc_Name c0" by (auto dest: find_set)
      then show ?thesis using Some that assms(5) by (metis distinct_map inj_onD)
    qed
    then show ?thesis using that assms(6) by (simp add: mergeClass_def Let_def)
  qed
  with m b(2) show ?thesis by (auto simp: comp_def)
qed

end
