(* ===== verification/FirewallModel.thy ===== *)
theory FirewallModel
  imports Sanity
begin

text \<open>
  \<open>internal/network/firewall\<close>: the named rules of \<open>rule.go\<close>, the table of \<open>table.go\<close> and the declarative
  configuration of \<open>config.go\<close>.

  \<open>Rule.Validate\<close> and \<open>Table.Validate\<close> sort port lists and fix names in place; here they return the
  normalised value, since every caller drops the value it passed when they fail. A slice that may be nil with a meaning of
  its own (the lists of a \<open>Block\<close>, of an \<open>Update\<close>) is a list option; the lists of a \<open>Rule\<close> are lists, as the code
  treats a nil and an empty one alike. The YAML library is outside this theory: \<open>ParseConfig\<close> takes the
  outcome of its decoder.
\<close>

section \<open>Rules\<close>

definition ProtoTCP :: string where "ProtoTCP = ''tcp''"
definition ProtoUDP :: string where "ProtoUDP = ''udp''"

definition RuleMgmt :: string where "RuleMgmt = ''mgmt''"
definition RuleBlocked :: string where "RuleBlocked = ''blocked''"
definition RuleInCluster :: string where "RuleInCluster = ''in_cluster''"

definition ReservedNames :: "string list" where
  "ReservedNames = [RuleMgmt, RuleBlocked, RuleInCluster]"

record Rule =
  ru_Name :: string
  ru_CIDRs :: "string list"
  ru_Ports :: "string list"
  ru_Proto :: string
  ru_ICMPEcho :: bool

definition IsReserved :: "string \<Rightarrow> bool" where
  "IsReserved name \<longleftrightarrow> Contains name ReservedNames"

definition addrSetName :: "string \<Rightarrow> string" where
  "addrSetName name = (if IsReserved name then name @ ''_addrs'' else name)"

definition v6SetName :: "string \<Rightarrow> string" where
  "v6SetName name = addrSetName name @ ''6''"

definition portsSetName :: "string \<Rightarrow> string" where
  "portsSetName name = name @ ''_ports''"

definition incomplete :: "Rule \<Rightarrow> bool" where
  "incomplete r = (if IsReserved (ru_Name r) then False
     else length (ru_CIDRs r) = 0 \<or> (length (ru_Ports r) = 0 \<and> \<not> ru_ICMPEcho r))"

definition proto :: "Rule \<Rightarrow> string" where
  "proto r = (if ru_Proto r = [] then ProtoTCP else ru_Proto r)"

text \<open>The bounds of a port specification; a single port is a range of one.\<close>

definition port_value :: "string \<Rightarrow> int" where
  "port_value s = (case strconv_Atoi s of None \<Rightarrow> 0 | Some n \<Rightarrow> n)"

definition parsePortSpec :: "string \<Rightarrow> (int \<times> int) result" where
  "parsePortSpec s =
     (let spec = strings_TrimSpace s in
      case cut_byte (CHR ''-'') spec of
        None \<Rightarrow> rbind (ValidatePort spec) (\<lambda>_. Inr (port_value spec, port_value spec))
      | Some (loStr, hiStr) \<Rightarrow>
          rbind (map_err (wrap IllegalArgument ''invalid range start'') (ValidatePort loStr)) (\<lambda>_.
          rbind (map_err (wrap IllegalArgument ''invalid range end'') (ValidatePort hiStr)) (\<lambda>_.
          Inr (port_value loStr, port_value hiStr))))"

definition validatePortSpec :: "string \<Rightarrow> unit result" where
  "validatePortSpec s = rbind (parsePortSpec s) (\<lambda>(lo, hi).
     if lo > hi then Inl (Err IllegalArgument ''port range is inverted'') else Inr ())"

definition port_less :: "string \<Rightarrow> string \<Rightarrow> bool" where
  "port_less p q = (case (parsePortSpec p, parsePortSpec q) of
     (Inr _, Inl _) \<Rightarrow> True
   | (Inl _, Inr _) \<Rightarrow> False
   | (Inl _, Inl _) \<Rightarrow> p < q
   | (Inr (loI, hiI), Inr (loJ, hiJ)) \<Rightarrow> if loI \<noteq> loJ then loI < loJ else hiI < hiJ)"

definition sortPortSpecs :: "string list \<Rightarrow> string list" where
  "sortPortSpecs ports = sort_by port_less ports"

definition splitCIDRs :: "string list \<Rightarrow> string list \<times> string list" where
  "splitCIDRs cidrs =
     (filter (\<lambda>c. CIDRIsIPv6 c = Inr False) cidrs, filter (\<lambda>c. CIDRIsIPv6 c = Inr True) cidrs)"

definition without :: "string list \<Rightarrow> string list \<Rightarrow> string list" where
  "without xs dropped = filter (\<lambda>v. \<not> Contains v dropped) xs"

definition dedupeStrings :: "string list \<Rightarrow> string list" where
  "dedupeStrings xs = dedupe_key id [] xs"

definition sortedDedupe :: "string list \<Rightarrow> string list" where
  "sortedDedupe xs = sort_by (<) (dedupeStrings xs)"

text \<open>The checks of the fields that a reserved block does not take.\<close>

definition validateShape :: "Rule \<Rightarrow> unit result" where
  "validateShape r =
     (if ru_Name r = RuleBlocked then
        if length (ru_Ports r) > 0 then Inl (Err IllegalArgument ''blocked does not take ports'')
        else if ru_Proto r \<noteq> [] then Inl (Err IllegalArgument ''blocked does not take proto'')
        else if ru_ICMPEcho r then Inl (Err IllegalArgument ''blocked does not take icmp_echo'')
        else Inr ()
      else if ru_Name r = RuleMgmt then
        if ru_Proto r \<noteq> [] then Inl (Err IllegalArgument ''mgmt does not take proto'')
        else if ru_ICMPEcho r then Inl (Err IllegalArgument ''mgmt does not take icmp_echo'')
        else Inr ()
      else if ru_Name r = RuleInCluster then
        if ru_Proto r \<noteq> [] then Inl (Err IllegalArgument ''in_cluster does not take proto'')
        else if ru_ICMPEcho r then Inl (Err IllegalArgument ''in_cluster does not take icmp_echo'')
        else Inr ()
      else Inr ())"

definition validateRuleCIDRs :: "string list \<Rightarrow> unit result" where
  "validateRuleCIDRs cidrs = check_all (\<lambda>c. map_err (wrap IllegalArgument ''invalid cidr'') (ValidateCIDR c)) cidrs"

definition validateRulePorts :: "string list \<Rightarrow> unit result" where
  "validateRulePorts ports = check_all (\<lambda>p. map_err (wrap IllegalArgument ''invalid port'') (validatePortSpec p)) ports"

definition Rule_Validate :: "Rule \<Rightarrow> Rule result" where
  "Rule_Validate r =
     rbind (map_err (wrap IllegalArgument ''invalid rule name'') (ValidateIdentifier (ru_Name r))) (\<lambda>_.
     rbind (validateRuleCIDRs (ru_CIDRs r)) (\<lambda>_.
     rbind (validateRulePorts (ru_Ports r)) (\<lambda>_.
     rbind (if ru_Proto r = [] \<or> ru_Proto r = ProtoTCP \<or> ru_Proto r = ProtoUDP then Inr ()
            else Inl (Err IllegalArgument ''invalid proto'')) (\<lambda>_.
     rbind (validateShape r) (\<lambda>_.
     Inr (r\<lparr>ru_Ports := sortPortSpecs (ru_Ports r)\<rparr>))))))"

definition append_new :: "string list \<Rightarrow> string \<Rightarrow> string list" where
  "append_new xs c = (if Contains c xs then xs else xs @ [c])"

definition AddCIDRs :: "string list \<Rightarrow> Rule \<Rightarrow> Rule result" where
  "AddCIDRs cidrs r = rbind (validateRuleCIDRs cidrs) (\<lambda>_.
     Inr (r\<lparr>ru_CIDRs := sort_by (<) (foldl append_new (ru_CIDRs r) cidrs)\<rparr>))"

definition RemoveCIDRs :: "string list \<Rightarrow> Rule \<Rightarrow> Rule" where
  "RemoveCIDRs cidrs r = r\<lparr>ru_CIDRs := without (ru_CIDRs r) cidrs\<rparr>"

definition SetCIDRs :: "string list \<Rightarrow> Rule \<Rightarrow> Rule result" where
  "SetCIDRs cidrs r = rbind (validateRuleCIDRs cidrs) (\<lambda>_. Inr (r\<lparr>ru_CIDRs := sortedDedupe cidrs\<rparr>))"

definition AddPorts :: "string list \<Rightarrow> Rule \<Rightarrow> Rule result" where
  "AddPorts ports r = rbind (validateRulePorts ports) (\<lambda>_.
     Inr (r\<lparr>ru_Ports := sortPortSpecs (foldl append_new (ru_Ports r) ports)\<rparr>))"

definition RemovePorts :: "string list \<Rightarrow> Rule \<Rightarrow> Rule" where
  "RemovePorts ports r = r\<lparr>ru_Ports := without (ru_Ports r) ports\<rparr>"

definition SetPorts :: "string list \<Rightarrow> Rule \<Rightarrow> Rule result" where
  "SetPorts ports r = rbind (validateRulePorts ports) (\<lambda>_.
     Inr (r\<lparr>ru_Ports := sortPortSpecs (dedupeStrings ports)\<rparr>))"

section \<open>Table\<close>

definition DefaultSSHPort :: int where "DefaultSSHPort = 22"

definition DefaultInClusterPorts :: "int list" where
  "DefaultInClusterPorts = [6443, 4244, 7472, 10250]"

record Table =
  t_Mgmt :: Rule
  t_Blocked :: Rule
  t_InCluster :: Rule
  t_Allow :: "Rule list"

definition PortStrings :: "int list \<Rightarrow> string list" where
  "PortStrings ports = sortPortSpecs (map itoa_int ports)"

definition NewTable :: Table where
  "NewTable =
     \<lparr>t_Mgmt = \<lparr>ru_Name = RuleMgmt, ru_CIDRs = [], ru_Ports = [itoa_int DefaultSSHPort], ru_Proto = [], ru_ICMPEcho = False\<rparr>,
      t_Blocked = \<lparr>ru_Name = RuleBlocked, ru_CIDRs = [], ru_Ports = [], ru_Proto = [], ru_ICMPEcho = False\<rparr>,
      t_InCluster = \<lparr>ru_Name = RuleInCluster, ru_CIDRs = [], ru_Ports = PortStrings DefaultInClusterPorts, ru_Proto = [], ru_ICMPEcho = False\<rparr>,
      t_Allow = []\<rparr>"

definition lookupRule :: "Table \<Rightarrow> string \<Rightarrow> Rule option" where
  "lookupRule t name =
     (if name = RuleMgmt then Some (t_Mgmt t)
      else if name = RuleBlocked then Some (t_Blocked t)
      else if name = RuleInCluster then Some (t_InCluster t)
      else find (\<lambda>r. ru_Name r = name) (t_Allow t))"

text \<open>Storing through the pointer that \<open>Table.Rule\<close> returns.\<close>

fun replace_first :: "string \<Rightarrow> Rule \<Rightarrow> Rule list \<Rightarrow> Rule list" where
  "replace_first name r' [] = []"
| "replace_first name r' (r # rs) = (if ru_Name r = name then r' # rs else r # replace_first name r' rs)"

definition storeRule :: "Table \<Rightarrow> string \<Rightarrow> Rule \<Rightarrow> Table" where
  "storeRule t name r =
     (if name = RuleMgmt then t\<lparr>t_Mgmt := r\<rparr>
      else if name = RuleBlocked then t\<lparr>t_Blocked := r\<rparr>
      else if name = RuleInCluster then t\<lparr>t_InCluster := r\<rparr>
      else t\<lparr>t_Allow := replace_first name r (t_Allow t)\<rparr>)"

definition Names :: "Table \<Rightarrow> string list" where
  "Names t = ReservedNames @ map ru_Name (t_Allow t)"

definition table_rules :: "Table \<Rightarrow> Rule list" where
  "table_rules t = t_Mgmt t # t_Blocked t # t_InCluster t # t_Allow t"

definition sortAllow :: "Rule list \<Rightarrow> Rule list" where
  "sortAllow rs = sort_by (\<lambda>r s. ru_Name r < ru_Name s) rs"

definition UpsertAllow :: "Rule \<Rightarrow> Table \<Rightarrow> Table result" where
  "UpsertAllow r0 t =
     (if IsReserved (ru_Name r0) then Inl (Err IllegalArgument ''reserved name cannot be used for an allow rule'')
      else rbind (Rule_Validate r0) (\<lambda>r.
        if list_ex (\<lambda>a. ru_Name a = ru_Name r) (t_Allow t)
        then Inr (t\<lparr>t_Allow := replace_first (ru_Name r) r (t_Allow t)\<rparr>)
        else Inr (t\<lparr>t_Allow := sortAllow (t_Allow t @ [r])\<rparr>)))"

definition IncompleteAllowRules :: "Table \<Rightarrow> string list" where
  "IncompleteAllowRules t = map ru_Name (filter incomplete (t_Allow t))"

fun remove_first :: "string \<Rightarrow> Rule list \<Rightarrow> Rule list" where
  "remove_first name [] = []"
| "remove_first name (r # rs) = (if ru_Name r = name then rs else r # remove_first name rs)"

definition Table_DeleteRule :: "string \<Rightarrow> Table \<Rightarrow> Table result" where
  "Table_DeleteRule name t =
     (if IsReserved name then Inl (Err IllegalArgument ''reserved block cannot be deleted'')
      else if list_ex (\<lambda>a. ru_Name a = name) (t_Allow t)
      then Inr (t\<lparr>t_Allow := remove_first name (t_Allow t)\<rparr>)
      else Inl (Err IllegalArgument ''no such rule''))"

definition derivedSets :: "Rule \<Rightarrow> string list" where
  "derivedSets r = [addrSetName (ru_Name r), v6SetName (ru_Name r), portsSetName (ru_Name r)]"

text \<open>The loop over the claims, with the names that already have an owner.\<close>

fun claim_all :: "string list \<Rightarrow> string list \<Rightarrow> unit result" where
  "claim_all owned [] = Inr ()"
| "claim_all owned (s # ss) = (if s \<in> set owned then Inl (Err IllegalArgument ''rules derive the same nft set name'')
     else claim_all (s # owned) ss)"

definition checkSetNameCollisions :: "Table \<Rightarrow> unit result" where
  "checkSetNameCollisions t = claim_all [] (concat (map derivedSets (table_rules t)))"

fun checkAllowNames :: "string list \<Rightarrow> Rule list \<Rightarrow> unit result" where
  "checkAllowNames seen [] = Inr ()"
| "checkAllowNames seen (r # rs) =
     (if IsReserved (ru_Name r) then Inl (Err IllegalArgument ''reserved name cannot be used for an allow rule'')
      else if ru_Name r \<in> set seen then Inl (Err IllegalArgument ''duplicate allow rule'')
      else checkAllowNames (ru_Name r # seen) rs)"

definition Table_Validate :: "Table \<Rightarrow> Table result" where
  "Table_Validate t0 =
     rbind (Rule_Validate ((t_Mgmt t0)\<lparr>ru_Name := RuleMgmt\<rparr>)) (\<lambda>mgmt.
     rbind (Rule_Validate ((t_Blocked t0)\<lparr>ru_Name := RuleBlocked\<rparr>)) (\<lambda>blocked.
     rbind (Rule_Validate ((t_InCluster t0)\<lparr>ru_Name := RuleInCluster\<rparr>)) (\<lambda>inCluster.
     rbind (rmap Rule_Validate (t_Allow t0)) (\<lambda>allow.
     (let t = \<lparr>t_Mgmt = mgmt, t_Blocked = blocked, t_InCluster = inCluster, t_Allow = allow\<rparr> in
      rbind (checkAllowNames [] (t_Allow t)) (\<lambda>_.
      rbind (checkSetNameCollisions t) (\<lambda>_.
      Inr t)))))))"

section \<open>Declarative configuration\<close>

definition ConfigVersion :: int where "ConfigVersion = 1"

record Block =
  b_CIDRs :: "string list option"
  b_Ports :: "string list option"

record FileConfig =
  fc_Version :: int
  fc_Mgmt :: "Block option"
  fc_Blocked :: "Block option"
  fc_InCluster :: "Block option"
  fc_Allow :: "Rule list"

definition requireBlock :: "bool \<Rightarrow> Block option \<Rightarrow> unit result" where
  "requireBlock cidrsRequired b = (case b of
     None \<Rightarrow> Inl (Err IllegalFormat ''firewall config is missing a required block'')
   | Some block \<Rightarrow> if cidrsRequired \<and> b_CIDRs block = None then Inl (Err IllegalFormat ''firewall config block is missing cidrs'')
       else Inr ())"

definition requireReservedBlocks :: "FileConfig \<Rightarrow> unit result" where
  "requireReservedBlocks c =
     rbind (requireBlock True (fc_Mgmt c)) (\<lambda>_.
     rbind (requireBlock True (fc_Blocked c)) (\<lambda>_.
     requireBlock False (fc_InCluster c)))"

definition list_of :: "string list option \<Rightarrow> string list" where
  "list_of xo = (case xo of None \<Rightarrow> [] | Some xs \<Rightarrow> xs)"

definition block_into :: "Block option \<Rightarrow> Rule \<Rightarrow> Rule" where
  "block_into b r = (case b of None \<Rightarrow> r
   | Some bl \<Rightarrow> r\<lparr>ru_CIDRs := list_of (b_CIDRs bl), ru_Ports := (case b_Ports bl of None \<Rightarrow> ru_Ports r | Some ps \<Rightarrow> ps)\<rparr>)"

definition blocked_into :: "Block option \<Rightarrow> Rule \<Rightarrow> Rule" where
  "blocked_into b r = (case b of None \<Rightarrow> r
   | Some bl \<Rightarrow> r\<lparr>ru_CIDRs := list_of (b_CIDRs bl), ru_Ports := list_of (b_Ports bl)\<rparr>)"

fun upsert_all :: "string list \<Rightarrow> Rule list \<Rightarrow> Table \<Rightarrow> Table result" where
  "upsert_all seen [] t = Inr t"
| "upsert_all seen (r # rs) t =
     (if ru_Name r \<in> set seen then Inl (Err IllegalFormat ''duplicate allow rule'')
      else rbind (UpsertAllow r t) (\<lambda>t'. upsert_all (ru_Name r # seen) rs t'))"

definition FileConfig_Table :: "FileConfig \<Rightarrow> Table result" where
  "FileConfig_Table c =
     upsert_all [] (fc_Allow c)
       (NewTable\<lparr>t_Mgmt := block_into (fc_Mgmt c) (t_Mgmt NewTable),
                 t_Blocked := blocked_into (fc_Blocked c) (t_Blocked NewTable),
                 t_InCluster := block_into (fc_InCluster c) (t_InCluster NewTable)\<rparr>)"

definition InClusterCIDRsUnset :: "FileConfig \<Rightarrow> bool" where
  "InClusterCIDRsUnset c = (case fc_InCluster c of None \<Rightarrow> True | Some b \<Rightarrow> b_CIDRs b = None)"

definition FileConfigFromTable :: "Table \<Rightarrow> FileConfig" where
  "FileConfigFromTable t =
     \<lparr>fc_Version = ConfigVersion,
      fc_Mgmt = Some \<lparr>b_CIDRs = Some (ru_CIDRs (t_Mgmt t)), b_Ports = Some (ru_Ports (t_Mgmt t))\<rparr>,
      fc_Blocked = Some \<lparr>b_CIDRs = Some (ru_CIDRs (t_Blocked t)), b_Ports = None\<rparr>,
      fc_InCluster = Some \<lparr>b_CIDRs = Some (ru_CIDRs (t_InCluster t)), b_Ports = Some (ru_Ports (t_InCluster t))\<rparr>,
      fc_Allow = t_Allow t\<rparr>"

text \<open>
  The tables that are built while a configuration is checked share their port lists with it, so that the
  validation sorts the lists of the configuration too.
\<close>

definition sort_block :: "Block \<Rightarrow> Block" where
  "sort_block b = b\<lparr>b_Ports := map_option sortPortSpecs (b_Ports b)\<rparr>"

definition sort_config :: "FileConfig \<Rightarrow> FileConfig" where
  "sort_config c = c\<lparr>fc_Mgmt := map_option sort_block (fc_Mgmt c), fc_Blocked := map_option sort_block (fc_Blocked c),
     fc_InCluster := map_option sort_block (fc_InCluster c),
     fc_Allow := map (\<lambda>r. r\<lparr>ru_Ports := sortPortSpecs (ru_Ports r)\<rparr>) (fc_Allow c)\<rparr>"

definition ParseConfig :: "FileConfig option \<Rightarrow> FileConfig result" where
  "ParseConfig decoded = (case decoded of
     None \<Rightarrow> Inl (Err IllegalFormat ''failed to parse firewall config'')
   | Some c \<Rightarrow>
       if fc_Version c \<noteq> 0 \<and> fc_Version c \<noteq> ConfigVersion then Inl (Err IllegalFormat ''unsupported firewall config version'')
       else rbind (requireReservedBlocks c) (\<lambda>_.
            rbind (FileConfig_Table c) (\<lambda>t.
            rbind (Table_Validate t) (\<lambda>_.
            Inr (sort_config c)))))"

section \<open>Facts about sorting\<close>

text \<open>The comparison of port specifications orders by a key, unparseable ones last.\<close>

definition port_key :: "string \<Rightarrow> nat \<times> (int \<times> int) \<times> string" where
  "port_key p = (case parsePortSpec p of Inr b \<Rightarrow> (0, b, []) | Inl _ \<Rightarrow> (1, (0, 0), p))"

lemma port_less_key: "port_less = (\<lambda>p q. port_key p < port_key q)"
  by (auto simp: port_less_def port_key_def less_prod_def fun_eq_iff split: sum.splits)

interpretation port_order: weak_less port_less
  unfolding port_less_key by (rule weak_less_key)

lemma sortPortSpecs_idem [simp]: "sortPortSpecs (sortPortSpecs ps) = sortPortSpecs ps"
  unfolding sortPortSpecs_def by (rule sort_by_sorted[OF port_order.sorted_sort_by])

lemma set_sortPortSpecs [simp]: "set (sortPortSpecs ps) = set ps"
  by (simp add: sortPortSpecs_def)

lemma sortPortSpecs_Nil [simp]: "sortPortSpecs [] = []" "sortPortSpecs ps = [] \<longleftrightarrow> ps = []"
  by (simp_all add: sortPortSpecs_def)

section \<open>What validation accepts\<close>

definition reserved_shape :: "Rule \<Rightarrow> bool" where
  "reserved_shape r \<longleftrightarrow> (IsReserved (ru_Name r) \<longrightarrow> ru_Proto r = [] \<and> \<not> ru_ICMPEcho r) \<and> (ru_Name r = RuleBlocked \<longrightarrow> ru_Ports r = [])"

definition rule_ok :: "Rule \<Rightarrow> bool" where
  "rule_ok r \<longleftrightarrow> ru_Name r \<noteq> [] \<and> list_all isValidIdentifierChar (ru_Name r) \<and>
     list_all (\<lambda>c. ValidateCIDR c = Inr ()) (ru_CIDRs r) \<and> list_all (\<lambda>p. validatePortSpec p = Inr ()) (ru_Ports r) \<and>
     ru_Proto r \<in> {[], ProtoTCP, ProtoUDP} \<and> reserved_shape r"

definition sort_rule :: "Rule \<Rightarrow> Rule" where
  "sort_rule r = r\<lparr>ru_Ports := sortPortSpecs (ru_Ports r)\<rparr>"

lemma IsReserved_iff: "IsReserved n \<longleftrightarrow> n = RuleMgmt \<or> n = RuleBlocked \<or> n = RuleInCluster"
  by (auto simp: IsReserved_def Contains_def ReservedNames_def)

lemma reserved_distinct [simp]:
  "RuleMgmt \<noteq> RuleBlocked" "RuleBlocked \<noteq> RuleMgmt" "RuleMgmt \<noteq> RuleInCluster" "RuleInCluster \<noteq> RuleMgmt"
  "RuleBlocked \<noteq> RuleInCluster" "RuleInCluster \<noteq> RuleBlocked"
  by (simp_all add: RuleMgmt_def RuleBlocked_def RuleInCluster_def)

lemma validateShape_iff: "validateShape r = Inr () \<longleftrightarrow> reserved_shape r"
  by (auto simp: validateShape_def reserved_shape_def IsReserved_iff)

lemma validateRuleCIDRs_iff: "validateRuleCIDRs cs = Inr () \<longleftrightarrow> list_all (\<lambda>c. ValidateCIDR c = Inr ()) cs"
  by (simp add: validateRuleCIDRs_def check_all_Inr list_all_iff)

lemma validateRulePorts_iff: "validateRulePorts ps = Inr () \<longleftrightarrow> list_all (\<lambda>p. validatePortSpec p = Inr ()) ps"
  by (simp add: validateRulePorts_def check_all_Inr list_all_iff)

lemma Rule_Validate_iff: "Rule_Validate r = Inr r' \<longleftrightarrow> rule_ok r \<and> r' = sort_rule r"
  by (auto simp: Rule_Validate_def rule_ok_def sort_rule_def rbind_Inr_iff ValidateIdentifier_iff
      validateRuleCIDRs_iff validateRulePorts_iff validateShape_iff)

lemma sort_rule_simps [simp]:
  "ru_Name (sort_rule r) = ru_Name r" "ru_CIDRs (sort_rule r) = ru_CIDRs r" "ru_Proto (sort_rule r) = ru_Proto r"
  "ru_ICMPEcho (sort_rule r) = ru_ICMPEcho r" "ru_Ports (sort_rule r) = sortPortSpecs (ru_Ports r)"
  "sort_rule (sort_rule r) = sort_rule r" "derivedSets (sort_rule r) = derivedSets r"
  by (simp_all add: sort_rule_def derivedSets_def)

lemma rule_ok_sort [simp]: "rule_ok (sort_rule r) \<longleftrightarrow> rule_ok r"
  by (simp add: rule_ok_def reserved_shape_def list_all_iff)

lemma rmap_Rule_Validate: "rmap Rule_Validate rs = Inr rs' \<longleftrightarrow> list_all rule_ok rs \<and> rs' = map sort_rule rs"
  by (induction rs arbitrary: rs') (auto simp: rbind_Inr_iff Rule_Validate_iff)

lemma claim_all_iff: "claim_all owned ss = Inr () \<longleftrightarrow> distinct ss \<and> set ss \<inter> set owned = {}"
  by (induction ss arbitrary: owned) auto

lemma checkAllowNames_iff:
  "checkAllowNames seen rs = Inr () \<longleftrightarrow>
     list_all (\<lambda>r. \<not> IsReserved (ru_Name r)) rs \<and> distinct (map ru_Name rs) \<and> set (map ru_Name rs) \<inter> set seen = {}"
  by (induction seen rs rule: checkAllowNames.induct) (auto simp del: IsReserved_iff)

definition fix_names :: "Table \<Rightarrow> Table" where
  "fix_names t = t\<lparr>t_Mgmt := (t_Mgmt t)\<lparr>ru_Name := RuleMgmt\<rparr>, t_Blocked := (t_Blocked t)\<lparr>ru_Name := RuleBlocked\<rparr>,
     t_InCluster := (t_InCluster t)\<lparr>ru_Name := RuleInCluster\<rparr>\<rparr>"

definition sort_table :: "Table \<Rightarrow> Table" where
  "sort_table t = \<lparr>t_Mgmt = sort_rule (t_Mgmt t), t_Blocked = sort_rule (t_Blocked t),
     t_InCluster = sort_rule (t_InCluster t), t_Allow = map sort_rule (t_Allow t)\<rparr>"

definition table_ok :: "Table \<Rightarrow> bool" where
  "table_ok t \<longleftrightarrow> list_all rule_ok (table_rules t) \<and> list_all (\<lambda>r. \<not> IsReserved (ru_Name r)) (t_Allow t) \<and>
     distinct (concat (map derivedSets (table_rules t)))"

lemma distinct_concat_names:
  assumes "distinct (concat (map derivedSets rs))"
  shows "distinct (map ru_Name rs)"
  using assms by (induction rs) (fastforce simp: derivedSets_def portsSetName_def)+

lemma table_rules_sort [simp]: "table_rules (sort_table t) = map sort_rule (table_rules t)"
  by (simp add: table_rules_def sort_table_def)

lemma table_ok_sort [simp]: "table_ok (sort_table t) \<longleftrightarrow> table_ok t"
  by (simp add: table_ok_def list.pred_map o_def) (simp add: sort_table_def list.pred_map o_def)

lemma Table_Validate_iff: "Table_Validate t = Inr t' \<longleftrightarrow> table_ok (fix_names t) \<and> t' = sort_table (fix_names t)"
proof -
  let ?f = "fix_names t"
  have allow: "t_Allow ?f = t_Allow t" by (simp add: fix_names_def)
  have rules: "table_rules ?f = (t_Mgmt t)\<lparr>ru_Name := RuleMgmt\<rparr> # (t_Blocked t)\<lparr>ru_Name := RuleBlocked\<rparr> #
      (t_InCluster t)\<lparr>ru_Name := RuleInCluster\<rparr> # t_Allow t"
    by (simp add: table_rules_def fix_names_def)
  have "Table_Validate t = Inr t' \<longleftrightarrow> list_all rule_ok (table_rules ?f) \<and>
      checkAllowNames [] (t_Allow (sort_table ?f)) = Inr () \<and> checkSetNameCollisions (sort_table ?f) = Inr () \<and> t' = sort_table ?f"
    unfolding Table_Validate_def rbind_Inr_iff Rule_Validate_iff rmap_Rule_Validate Let_def rules
    by (auto simp: sort_table_def fix_names_def)
  also have "\<dots> \<longleftrightarrow> table_ok ?f \<and> t' = sort_table ?f"
    unfolding checkAllowNames_iff checkSetNameCollisions_def claim_all_iff table_rules_sort table_ok_def
    using distinct_concat_names[of "table_rules ?f"] by (auto simp: sort_table_def list.pred_map o_def table_rules_def)
  finally show ?thesis .
qed

section \<open>Configuration and table\<close>

lemma table_okD:
  assumes "table_ok t" "r \<in> set (t_Allow t)"
  shows "rule_ok r" "\<not> IsReserved (ru_Name r)"
  using assms by (auto simp: table_ok_def table_rules_def list_all_iff)

lemma table_ok_names: "table_ok t \<Longrightarrow> distinct (map ru_Name (t_Allow t))"
  using distinct_concat_names[of "table_rules t"] by (auto simp: table_ok_def table_rules_def)

lemma name_order: "distinct (map ru_Name rs) \<Longrightarrow> total_less (\<lambda>r s. ru_Name r < ru_Name s) (set rs)"
  by (rule total_less_key) (simp add: distinct_map)

lemma name_order_weak: "weak_less (\<lambda>r s. ru_Name r < ru_Name s)"
  by (rule weak_less_key)

lemma set_sortAllow [simp]: "set (sortAllow rs) = set rs" "mset (sortAllow rs) = mset rs"
  by (simp_all add: sortAllow_def)

lemma sorted_sortAllow: "sorted_by (\<lambda>r s. ru_Name r < ru_Name s) (sortAllow rs)"
  unfolding sortAllow_def by (rule weak_less.sorted_sort_by[OF name_order_weak])

lemma sortAllow_cong: "distinct (map ru_Name rs) \<Longrightarrow> mset rs = mset rs' \<Longrightarrow> sortAllow rs = sortAllow rs'"
  unfolding sortAllow_def by (rule total_less.sort_by_cong_mset[OF name_order]) auto

lemma sortAllow_idem [simp]: "sortAllow (sortAllow rs) = sortAllow rs"
  unfolding sortAllow_def by (rule sort_by_sorted[OF weak_less.sorted_sort_by[OF name_order_weak]])

text \<open>Rules that are in normal form are taken over as they are, in the order of their names.\<close>

lemma upsert_all_new:
  assumes "list_all (\<lambda>r. rule_ok r \<and> sort_rule r = r \<and> \<not> IsReserved (ru_Name r)) rs"
    and "distinct (map ru_Name (t_Allow t @ rs))" "set seen = ru_Name ` set (t_Allow t)"
    and "sortAllow (t_Allow t) = t_Allow t"
  shows "upsert_all seen rs t = Inr (t\<lparr>t_Allow := sortAllow (t_Allow t @ rs)\<rparr>)"
  using assms
proof (induction rs arbitrary: t seen)
  case Nil
  then show ?case by simp
next
  case (Cons r rs)
  let ?t = "t\<lparr>t_Allow := sortAllow (t_Allow t @ [r])\<rparr>"
  from Cons.prems have r: "Rule_Validate r = Inr r" "\<not> IsReserved (ru_Name r)" "ru_Name r \<notin> ru_Name ` set (t_Allow t)"
    by (simp_all add: Rule_Validate_iff)
  moreover have "\<not> list_ex (\<lambda>a. ru_Name a = ru_Name r) (t_Allow t)" using r(3) unfolding list_ex_iff image_iff by metis
  ultimately have up: "UpsertAllow r t = Inr ?t" by (simp add: UpsertAllow_def)
  have eq: "sortAllow (t_Allow ?t @ rs) = sortAllow (t_Allow t @ r # rs)"
    using Cons.prems(2) by (intro sortAllow_cong[symmetric]) simp_all
  have "mset (map ru_Name (t_Allow ?t @ rs)) = mset (map ru_Name (t_Allow t @ r # rs))" by simp
  then have "distinct (map ru_Name (t_Allow ?t @ rs))" using Cons.prems(2) mset_eq_imp_distinct_iff by blast
  then have "upsert_all (ru_Name r # seen) rs ?t = Inr (?t\<lparr>t_Allow := sortAllow (t_Allow ?t @ rs)\<rparr>)"
    using Cons.prems(1,3) by (intro Cons.IH) simp_all
  moreover have "ru_Name r \<notin> set seen" using r(3) Cons.prems(3) by simp
  ultimately show ?case using up eq by simp
qed

definition by_name :: "Table \<Rightarrow> Table" where
  "by_name t = t\<lparr>t_Allow := sortAllow (t_Allow t)\<rparr>"

lemma mset_concat_map: "mset (concat (map f xs)) = (\<Sum>x \<in># mset xs. mset (f x))"
  by (induction xs) simp_all

lemma table_ok_by_name:
  assumes "table_ok t"
  shows "table_ok (by_name t)"
proof -
  have "mset (concat (map derivedSets (table_rules (by_name t)))) = mset (concat (map derivedSets (table_rules t)))"
    by (simp add: mset_concat_map table_rules_def by_name_def)
  then have "distinct (concat (map derivedSets (table_rules (by_name t))))"
    using assms mset_eq_imp_distinct_iff unfolding table_ok_def by blast
  then show ?thesis using assms by (auto simp: table_ok_def list_all_iff table_rules_def by_name_def)
qed

definition named :: "Table \<Rightarrow> bool" where
  "named t \<longleftrightarrow> ru_Name (t_Mgmt t) = RuleMgmt \<and> ru_Name (t_Blocked t) = RuleBlocked \<and> ru_Name (t_InCluster t) = RuleInCluster"

lemma Table_Validate_result:
  assumes "Table_Validate t0 = Inr t"
  shows "table_ok t" "named t" "sort_table t = t" "Table_Validate t = Inr t"
proof -
  have t: "t = sort_table (fix_names t0)" "table_ok (fix_names t0)" using assms by (simp_all add: Table_Validate_iff)
  then show "table_ok t" by simp
  show n: "named t" using t(1) by (simp add: named_def sort_table_def fix_names_def)
  show s: "sort_table t = t" using t(1) by (simp add: sort_table_def)
  have "fix_names t = t" using n by (simp add: fix_names_def named_def)
  with s \<open>table_ok t\<close> show "Table_Validate t = Inr t" by (simp add: Table_Validate_iff)
qed

lemma reserved_rule_eq:
  assumes "rule_ok r" "IsReserved (ru_Name r)"
  shows "r = \<lparr>ru_Name = ru_Name r, ru_CIDRs = ru_CIDRs r, ru_Ports = ru_Ports r, ru_Proto = [], ru_ICMPEcho = False\<rparr>"
  using assms by (simp add: rule_ok_def reserved_shape_def)

lemma sort_table_Allow: "sort_table t = t \<Longrightarrow> \<forall>r \<in> set (t_Allow t). sort_rule r = r"
proof -
  assume "sort_table t = t"
  then have "t_Allow (sort_table t) = t_Allow t" by (rule arg_cong)
  then have "map sort_rule (t_Allow t) = map (\<lambda>r. r) (t_Allow t)" by (simp add: sort_table_def)
  then show ?thesis unfolding map_eq_conv .
qed

lemma FileConfig_Table_inverse:
  assumes ok: "table_ok t" "named t" "sort_table t = t"
  shows "FileConfig_Table (FileConfigFromTable t) = Inr (by_name t)"
proof -
  have res: "rule_ok (t_Mgmt t)" "rule_ok (t_Blocked t)" "rule_ok (t_InCluster t)"
    using ok(1) by (auto simp: table_ok_def table_rules_def)
  have blocked: "ru_Ports (t_Blocked t) = []" using res(2) ok(2) by (simp add: rule_ok_def reserved_shape_def named_def)
  have rules: "list_all (\<lambda>r. rule_ok r \<and> sort_rule r = r \<and> \<not> IsReserved (ru_Name r)) (t_Allow t)"
    using table_okD[OF ok(1)] sort_table_Allow[OF ok(3)] unfolding list_all_iff by blast
  have "upsert_all [] (t_Allow t) u = Inr (u\<lparr>t_Allow := sortAllow (t_Allow t)\<rparr>)" if "t_Allow u = []" for u
    using upsert_all_new[OF rules, of u "[]"] table_ok_names[OF ok(1)] that by (simp add: sortAllow_def)
  then show ?thesis
    using reserved_rule_eq[OF res(1)] reserved_rule_eq[OF res(2)] reserved_rule_eq[OF res(3)] ok(2) blocked
    by (simp add: FileConfig_Table_def FileConfigFromTable_def NewTable_def block_into_def blocked_into_def list_of_def
        by_name_def named_def IsReserved_iff)
qed

lemma sort_config_FromTable: "sort_table t = t \<Longrightarrow> sort_config (FileConfigFromTable t) = FileConfigFromTable t"
  unfolding sort_table_def
  by (simp add: sort_config_def FileConfigFromTable_def sort_block_def)
     (metis (mono_tags, lifting) Table.select_convs sort_rule_def sort_rule_simps(5) map_eq_conv)

lemma ParseConfig_FromTable:
  assumes ok: "table_ok t" "named t" "sort_table t = t"
  shows "ParseConfig (Some (FileConfigFromTable t)) = Inr (FileConfigFromTable t)"
proof -
  have "fix_names (by_name t) = by_name t" using ok(2) by (simp add: fix_names_def by_name_def named_def)
  then have "\<exists>u. Table_Validate (by_name t) = Inr u" using table_ok_by_name[OF ok(1)] by (simp add: Table_Validate_iff)
  then show ?thesis using FileConfig_Table_inverse[OF ok] sort_config_FromTable[OF ok(3)]
    by (auto simp: ParseConfig_def requireReservedBlocks_def requireBlock_def FileConfigFromTable_def)
qed

section \<open>Properties\<close>

lemma distinct_derivedSets: "distinct (derivedSets r)"
  by (simp add: derivedSets_def addrSetName_def v6SetName_def portsSetName_def)

lemma distinct_concat_pairwise:
  "distinct (concat (map derivedSets rs)) \<longleftrightarrow> sorted_wrt (\<lambda>r r'. set (derivedSets r) \<inter> set (derivedSets r') = {}) rs"
  by (induction rs) (auto simp: distinct_derivedSets)

text \<open>
  Which tables are accepted. A table passes validation exactly if each of its rules is valid for its position, no
  allow rule takes a reserved name, and no two rules derive a common nft set name; the accepted table differs from the given one
  only in the names of the reserved blocks and the order of the ports, and is accepted again unchanged.
\<close>

lemma Table_Validate_exact:
  "((\<exists>t. Table_Validate t0 = Inr t) \<longleftrightarrow>
     (\<forall>r \<in> set (table_rules (fix_names t0)). rule_ok r) \<and> (\<forall>r \<in> set (t_Allow t0). \<not> IsReserved (ru_Name r)) \<and>
     sorted_wrt (\<lambda>r r'. set (derivedSets r) \<inter> set (derivedSets r') = {}) (table_rules (fix_names t0))) \<and>
   (\<forall>t. Table_Validate t0 = Inr t \<longrightarrow> t = sort_table (fix_names t0) \<and> Table_Validate t = Inr t)"
proof -
  have allow: "t_Allow (fix_names t0) = t_Allow t0" by (simp add: fix_names_def)
  have "(\<exists>t. Table_Validate t0 = Inr t) \<longleftrightarrow> table_ok (fix_names t0)" unfolding Table_Validate_iff by blast
  then have "(\<exists>t. Table_Validate t0 = Inr t) \<longleftrightarrow>
     (\<forall>r \<in> set (table_rules (fix_names t0)). rule_ok r) \<and> (\<forall>r \<in> set (t_Allow t0). \<not> IsReserved (ru_Name r)) \<and>
     sorted_wrt (\<lambda>r r'. set (derivedSets r) \<inter> set (derivedSets r') = {}) (table_rules (fix_names t0))"
    unfolding table_ok_def distinct_concat_pairwise list_all_iff allow .
  moreover have "t = sort_table (fix_names t0) \<and> Table_Validate t = Inr t" if "Table_Validate t0 = Inr t" for t
    using that Table_Validate_result(4)[OF that] by (simp only: Table_Validate_iff)
  ultimately show ?thesis by blast
qed

definition colliding_table :: Table where
  "colliding_table = NewTable\<lparr>t_Allow :=
     [\<lparr>ru_Name = ''k8s'', ru_CIDRs = [''10.0.0.0/8''], ru_Ports = [''6443''], ru_Proto = [], ru_ICMPEcho = False\<rparr>,
      \<lparr>ru_Name = ''k8s6'', ru_CIDRs = [''10.0.0.0/8''], ru_Ports = [''6443''], ru_Proto = [], ru_ICMPEcho = False\<rparr>]\<rparr>"

text \<open>
  The configuration file is a faithful form of the table. The configuration written for an accepted table is accepted
  when it is read, and yields the same table with the allow rules in the order of their names, so that writing and
  reading again changes nothing.
\<close>

lemma config_roundtrip:
  assumes "Table_Validate t0 = Inr t"
  shows "ParseConfig (Some (FileConfigFromTable t)) = Inr (FileConfigFromTable t) \<and>
    FileConfig_Table (FileConfigFromTable t) = Inr (by_name t) \<and>
    FileConfig_Table (FileConfigFromTable (by_name t)) = Inr (by_name t)"
proof -
  note ok = Table_Validate_result[OF assms]
  have "named (by_name t)" "by_name (by_name t) = by_name t" using ok(2) by (simp_all add: named_def by_name_def)
  moreover have "sort_table (by_name t) = by_name t"
  proof -
    have "\<forall>r \<in> set (sortAllow (t_Allow t)). sort_rule r = r" using sort_table_Allow[OF ok(3)] by simp
    then have "map sort_rule (sortAllow (t_Allow t)) = sortAllow (t_Allow t)" by (intro map_idI) simp
    moreover have "sort_rule (t_Mgmt t) = t_Mgmt t" "sort_rule (t_Blocked t) = t_Blocked t" "sort_rule (t_InCluster t) = t_InCluster t"
      using arg_cong[OF ok(3), of t_Mgmt] arg_cong[OF ok(3), of t_Blocked] arg_cong[OF ok(3), of t_InCluster] by (simp_all add: sort_table_def)
    ultimately show ?thesis by (simp add: sort_table_def by_name_def)
  qed
  ultimately show ?thesis
    using ParseConfig_FromTable[OF ok(1-3)] FileConfig_Table_inverse[OF ok(1-3)] FileConfig_Table_inverse[of "by_name t"] table_ok_by_name[OF ok(1)]
    by simp
qed

end
