(* ===== verification/FirewallRender.thy ===== *)
theory FirewallRender
  imports FirewallModel
begin

text \<open>
  \<open>render.go\<close> and \<open>parse.go\<close> of \<open>internal/network/firewall\<close>: the document of the table \<open>inet weaver-host-firewall\<close>, with
  the template \<open>network-weaver-host-firewall.nft.tmpl\<close> expanded line by line, and the recovery of the reserved blocks
  from such a document. The regular expressions of \<open>parse.go\<close> are functions that return the
  leftmost match with the greedy choices of the expression.
\<close>

section \<open>Fixed text of the template\<close>

definition em_dash :: string where
  "em_dash = [CHR 0xE2, CHR 0x80, CHR 0x94]"

definition line1 :: "string \<Rightarrow> string" where "line1 l = tab # l"
definition line2 :: "string \<Rightarrow> string" where "line2 l = tab # tab # l"

definition head_lines :: "string list" where
  "head_lines =
     [''add table inet weaver-host-firewall'',
      ''delete table inet weaver-host-firewall'',
      ''add table inet weaver-host-firewall'',
      ''table inet weaver-host-firewall {'',
      line1 ''# Every set below is `flags interval` + `auto-merge`, addresses included.'',
      line1 ''#'',
      line1 ''# On an address set, `interval` is what admits a prefix at all, and'',
      line1 ''# `auto-merge` is what folds an overlapping prefix into the one that covers'',
      line1 ''# it. Without it, adding 10.0.0.5/32 to a set already holding 10.0.0.0/24'',
      line1 (''# makes nft reject the entire document with '' @ [CHR 0x22] @ ''conflicting intervals''),
      line1 (''# specified'' @ [CHR 0x22] @ '' '' @ em_dash @ '' which is reachable from a plain `firewall add --cidr`.''),
      line1 ''#'',
      line1 ''# On a port set, `interval` is what lets one element hold a range'',
      line1 ''# (2379-2380); a plain inet_service set rejects the range syntax outright.'',
      line1 ''#'',
      line1 ''# auto-merge collapses overlapping and adjacent entries, so the live set can'',
      line1 (''# read back differently from what was written '' @ em_dash @ '' which is why the persisted''),
      line1 (''# YAML config, not the kernel, is this table'' @ [CHR 0x27] @ ''s source of truth.'')]"

definition icmp4_lines :: "string list" where
  "icmp4_lines =
     [[],
      line1 ''# Operator block list, dropped as early as the packet can be seen. Priority'',
      line1 ''# -300 is the `raw` band, ahead of conntrack at -200, so a blocked source'',
      line1 ''# never gets a conntrack lookup or a provisional entry allocated.'',
      line1 ''#'',
      line1 ''# This hook covers the forward path as well as the host path, so a blocked'',
      line1 (''# CIDR is blocked for pod-bound traffic too '' @ em_dash @ '' the block list means '' @ [CHR 0x22] @ ''this peer''),
      line1 (''# is blocked on this node'' @ [CHR 0x22] @ '', not '' @ [CHR 0x22] @ ''blocked from the host'' @ [CHR 0x27] @ ''s own services'' @ [CHR 0x22] @ ''.''),
      line1 ''chain prerouting_blocklist {'',
      line2 ''type filter hook prerouting priority -300; policy accept;'',
      line2 ''ip saddr @blocked_addrs drop'',
      line2 ''ip6 saddr @blocked_addrs6 drop'',
      line1 ''}'',
      [],
      line1 ''# The hooked chain carries only what applies to every packet regardless of'',
      line1 (''# address family, then dispatches into the regular chains below '' @ em_dash @ '' so an IPv4''),
      line1 ''# packet never evaluates an IPv6 rule and vice versa. A jump that returns'',
      line1 ''# without a verdict falls through to the rest of this chain, ending at the'',
      line1 ''# `policy drop`.'',
      line1 ''chain input {'',
      line2 ''type filter hook input priority 0; policy drop;'',
      [],
      line2 ''# Operator-curated block list (`network firewall --blocked-cidrs`). Runs'',
      line2 ''# before every other rule, including the conntrack fast-path below, so an'',
      line2 ''# entry added here drops already-open connections too. Purely'',
      line2 ''# operator-managed: nothing else ever writes to these sets. One rule per'',
      line2 (''# family '' @ em_dash @ '' two address compares are cheaper than a dispatch.''),
      line2 ''#'',
      line2 ''# Redundant for anything arriving on a wire, since prerouting_blocklist'',
      line2 (''# already dropped it. Kept because this ordering '' @ em_dash @ '' block list ahead of the''),
      line2 (''# conntrack fast-path '' @ em_dash @ '' is the tested definition of what the block list''),
      line2 ''# does on the host path, and it should not become contingent on a chain'',
      line2 ''# registered on a different hook.'',
      line2 ''ip saddr @blocked_addrs drop'',
      line2 ''ip6 saddr @blocked_addrs6 drop'',
      [],
      line2 (''# Admit loopback. `iif '' @ [CHR 0x22] @ ''lo'' @ [CHR 0x22] @ ''` covers both 127.0.0.0/8 and ::1 since this is''),
      line2 ''# an `inet` (dual-family) table. It precedes the ICMP dispatch so pinging'',
      line2 ''# localhost is not rate-limited, which also means loopback is admitted'',
      line2 (''# without a conntrack state check '' @ em_dash @ '' the host talking to itself.''),
      line2 (''iif '' @ [CHR 0x22] @ ''lo'' @ [CHR 0x22] @ '' accept''),
      [],
      line2 ''# ICMP is dispatched BEFORE the conntrack fast-path below. netfilter'',
      line2 ''# conntrack DOES track ICMP echo as a flow (keyed on the echo id), so a'',
      line2 ''# sustained ping shares one entry and every packet after the first would'',
      line2 ''# otherwise match `established` and bypass the echo-request rate limit.'',
      line2 ''# Handling ICMP first keeps the limit effective. `meta l4proto` selects'',
      line2 ''# the family on its own (protocol 1 vs 58) and resolves past IPv6'',
      line2 ''# extension headers, so it doubles as the family split for ICMP.'',
      line2 ''meta l4proto vmap { icmp : jump input_icmp_ipv4, icmpv6 : jump input_icmp_ipv6 }'',
      [],
      line2 ''# Conntrack fast-path for everything else (TCP/UDP). A single state'',
      line2 ''# lookup covers both the invalid drop and the established/related accept.'',
      line2 ''# ICMP that fell through the chains above lands here too, so a solicited'',
      line2 ''# echo-reply is still admitted as `established`.'',
      line2 ''ct state vmap { established : accept, related : accept, invalid : drop }'',
      [],
      line2 ''meta nfproto vmap { ipv4 : jump input_ipv4, ipv6 : jump input_ipv6 }'',
      line1 ''}'',
      [],
      line1 (''# ICMPv4. Runs ahead of the base chain'' @ [CHR 0x27] @ ''s conntrack vmap, so it re-drops''),
      line1 ''# invalid itself: that ordering is what stops a forged ICMP error from being'',
      line1 ''# admitted by the blanket path-health accepts below.'',
      line1 ''chain input_icmp_ipv4 {'',
      line2 ''ct state invalid drop'',
      [],
      line2 (''# Full ICMP from management sources (ping, traceroute, diagnostics) '' @ em_dash @ '' no rate limit.''),
      line2 ''ip saddr @mgmt_addrs icmp type { echo-request, echo-reply, destination-unreachable, time-exceeded, parameter-problem } accept'']"

definition icmp6_lines :: "string list" where
  "icmp6_lines =
     [[],
      line2 ''# From everyone else: always allow the path-health subset (Path MTU'',
      line2 ''# Discovery + traceroute), and rate-limit echo-request to prevent floods.'',
      line2 ''# Discarding the excess first lets one accept cover every admitted type,'',
      line2 (''# and keeps over-budget echo from falling back to the base chain'' @ [CHR 0x27] @ ''s''),
      line2 ''# established accept (a sustained ping is established after the first'',
      line2 ''# reply). The meter must stay scoped to echo-request: metering the whole'',
      line2 ''# set would share one bucket, so a ping flood would starve the error'',
      line2 ''# signals below and blackhole PMTUD exactly when the host is loaded.'',
      line2 ''icmp type echo-request limit rate over 10/second drop'',
      line2 ''icmp type { destination-unreachable, time-exceeded, echo-request } accept'',
      line1 ''}'',
      [],
      line1 ''# ICMPv6. Same invalid-first ordering, and for the same reason, as the IPv4'',
      line1 ''# chain above.'',
      line1 ''chain input_icmp_ipv6 {'',
      line2 ''ct state invalid drop'',
      [],
      line2 ''# --- IPv6 Neighbor Discovery + MLD (REQUIRED under policy drop) ---'',
      line2 ''# IPv6 is non-functional without Neighbor Discovery: address resolution'',
      line2 ''# (neighbor solicit/advert) and router discovery (router solicit/advert)'',
      line2 ''# ride on ICMPv6 and would otherwise be dropped, breaking all IPv6. NDP'',
      line2 (''# packets use a hop limit of 255 (RFC 4861 '' @ [CHR 0xC2, CHR 0xA7] @ ''11.2); enforce it so an''),
      line2 ''# off-link (routed) forgery cannot satisfy the accept. ICMPv6 Redirect is'',
      line2 ''# deliberately excluded here (accepting it enables on-link MITM). These'',
      line2 ''# are structural, not policy: no rule can remove them.'',
      line2 ''icmpv6 type { nd-neighbor-solicit, nd-neighbor-advert, nd-router-solicit, nd-router-advert } ip6 hoplimit 255 accept'',
      line2 (''# Multicast Listener Discovery '' @ em_dash @ '' the switch needs these reports to forward''),
      line2 ''# the solicited-node multicast that NDP relies on.'',
      line2 ''icmpv6 type { mld-listener-query, mld-listener-report, mld-listener-done } accept'',
      [],
      line2 (''# Full ICMPv6 from management sources '' @ em_dash @ '' no rate limit.''),
      line2 ''ip6 saddr @mgmt_addrs6 icmpv6 type { echo-request, echo-reply, destination-unreachable, time-exceeded, parameter-problem, packet-too-big } accept'']"

definition input4_lines :: "string list" where
  "input4_lines =
     [[],
      line2 (''# IPv6 path health for everyone. packet-too-big is the IPv6 PMTUD signal '' @ em_dash),
      line2 ''# IPv6 routers never fragment, so dropping it silently blackholes any flow'',
      line2 (''# whose path MTU is smaller than the sender'' @ [CHR 0x27] @ ''s. Discarding over-budget echo''),
      line2 ''# first lets one accept cover every admitted type; the meter must stay'',
      line2 ''# scoped to echo-request, since metering the whole set would share one'',
      line2 ''# bucket and let a ping flood starve packet-too-big.'',
      line2 ''icmpv6 type echo-request limit rate over 10/second drop'',
      line2 ''icmpv6 type { packet-too-big, destination-unreachable, time-exceeded, parameter-problem, echo-request } accept'',
      line1 ''}'',
      [],
      line1 ''# Transport accepts, one chain per family. Every rule here is an accept'',
      line1 ''# against a named source set, so evaluation order within the chain carries no'',
      line1 (''# meaning '' @ em_dash @ '' a packet either matches one of them or falls through to the base''),
      line1 (''# chain'' @ [CHR 0x27] @ ''s `policy drop`. Rules are emitted in name order for a stable render.''),
      line1 ''chain input_ipv4 {'',
      line2 ''# SSH / management access from the allowlist only.'',
      line2 ''ip saddr @mgmt_addrs tcp dport @mgmt_ports accept'']"

definition input6_lines :: "string list" where
  "input6_lines =
     [line1 ''}'',
      [],
      line1 ''chain input_ipv6 {'',
      line2 ''# SSH / management access from the allowlist only.'',
      line2 ''ip6 saddr @mgmt_addrs6 tcp dport @mgmt_ports accept'']"

definition output_lines :: "string list" where
  "output_lines =
     [line1 ''}'',
      [],
      line1 ''# Block-list symmetry on locally-generated traffic. Dropping a peer inbound'',
      line1 ''# does not stop this host from dialing it, and once the host initiates, the'',
      line1 (''# replies are admitted by the input chain'' @ [CHR 0x27] @ ''s `ct state established` accept '' @ em_dash),
      line1 ''# so an inbound-only block list does not actually block the connection.'',
      line1 ''#'',
      line1 ''# `policy accept`: this is not an egress allowlist. Enumerating legitimate'',
      line1 ''# outbound traffic on a Kubernetes node (kubelet to the API server, etcd,'',
      line1 ''# DNS, NTP, image pulls from arbitrary registries, Cilium, Teleport) is both'',
      line1 ''# large and brittle, and getting it wrong strands the node.'',
      line1 ''chain output {'',
      line2 ''type filter hook output priority 0; policy accept;'',
      line2 ''ip daddr @blocked_addrs drop'',
      line2 ''ip6 daddr @blocked_addrs6 drop'',
      line1 ''}'',
      ''}'']"

section \<open>Rendering\<close>

definition TableName :: string where "TableName = ''inet weaver-host-firewall''"

record ruleRender =
  rr_Name :: string
  rr_AddrSet :: string
  rr_AddrSet6 :: string
  rr_PortsSet :: string
  rr_Elements :: string
  rr_Elements6 :: string
  rr_PortElements :: string
  rr_Proto :: string
  rr_HasV4 :: bool
  rr_HasV6 :: bool
  rr_HasPorts :: bool
  rr_ICMPEcho :: bool

record renderData =
  rd_Mgmt :: ruleRender
  rd_Blocked :: ruleRender
  rd_InCluster :: ruleRender
  rd_Allow :: "ruleRender list"

definition flattenRule :: "Rule \<Rightarrow> ruleRender" where
  "flattenRule r = (case splitCIDRs (ru_CIDRs r) of (v4, v6) \<Rightarrow>
     \<lparr>rr_Name = ru_Name r, rr_AddrSet = addrSetName (ru_Name r), rr_AddrSet6 = v6SetName (ru_Name r),
      rr_PortsSet = portsSetName (ru_Name r), rr_Elements = strings_Join '', '' v4, rr_Elements6 = strings_Join '', '' v6,
      rr_PortElements = strings_Join '', '' (ru_Ports r), rr_Proto = proto r,
      rr_HasV4 = (length v4 > 0), rr_HasV6 = (length v6 > 0), rr_HasPorts = (length (ru_Ports r) > 0),
      rr_ICMPEcho = ru_ICMPEcho r\<rparr>)"

definition set_decl :: "string \<Rightarrow> string \<Rightarrow> string \<Rightarrow> string" where
  "set_decl name typ elements = line1 (''set '' @ name @ '' { type '' @ typ @ ''; flags interval; auto-merge;'' @
     (if elements \<noteq> [] then '' elements = { '' @ elements @ '' };'' else []) @ '' }'')"

definition reserved_decls :: "renderData \<Rightarrow> string list" where
  "reserved_decls d =
     [set_decl ''mgmt_addrs'' ''ipv4_addr'' (rr_Elements (rd_Mgmt d)),
      set_decl ''mgmt_addrs6'' ''ipv6_addr'' (rr_Elements6 (rd_Mgmt d)),
      set_decl ''mgmt_ports'' ''inet_service'' (rr_PortElements (rd_Mgmt d)),
      set_decl ''blocked_addrs'' ''ipv4_addr'' (rr_Elements (rd_Blocked d)),
      set_decl ''blocked_addrs6'' ''ipv6_addr'' (rr_Elements6 (rd_Blocked d)),
      set_decl ''in_cluster_addrs'' ''ipv4_addr'' (rr_Elements (rd_InCluster d)),
      set_decl ''in_cluster_addrs6'' ''ipv6_addr'' (rr_Elements6 (rd_InCluster d)),
      set_decl ''in_cluster_ports'' ''inet_service'' (rr_PortElements (rd_InCluster d))]"

definition allow_decls :: "ruleRender \<Rightarrow> string list" where
  "allow_decls r =
     [set_decl (rr_AddrSet r) ''ipv4_addr'' (rr_Elements r), set_decl (rr_AddrSet6 r) ''ipv6_addr'' (rr_Elements6 r)] @
     (if rr_HasPorts r then [line1 (''set '' @ rr_PortsSet r @ '' { type inet_service; flags interval; auto-merge; elements = { '' @
        rr_PortElements r @ '' }; }'')] else [])"

definition echo4_lines :: "ruleRender \<Rightarrow> string list" where
  "echo4_lines r = (if rr_ICMPEcho r \<and> rr_HasV4 r then
     [line2 (''# Unmetered echo for the '' @ rr_Name r @ '' rule'' @ [CHR 0x27] @ ''s sources. Must stay above the''),
      line2 ''# rate meter below: the meter drops over-budget echo outright, so a named'',
      line2 (''# accept placed after it would never be reached under a flood '' @ em_dash @ '' which is''),
      line2 ''# exactly when an operator needs ping to still work.'',
      line2 (''ip saddr @'' @ rr_AddrSet r @ '' icmp type echo-request accept'')] else [])"

definition echo6_lines :: "ruleRender \<Rightarrow> string list" where
  "echo6_lines r = (if rr_ICMPEcho r \<and> rr_HasV6 r then
     [line2 (''# Unmetered echo for the '' @ rr_Name r @ '' rule'' @ [CHR 0x27] @ ''s sources '' @ em_dash @ '' above the meter, same''),
      line2 ''# reasoning as the IPv4 chain.'',
      line2 (''ip6 saddr @'' @ rr_AddrSet6 r @ '' icmpv6 type echo-request accept'')] else [])"

definition in_cluster_comment :: string where
  "in_cluster_comment = line2 ''# In-cluster host-service ports, reachable from the pod CIDR only.''"

definition in_cluster4_lines :: "ruleRender \<Rightarrow> string list" where
  "in_cluster4_lines r = (if rr_HasV4 r
     then [[], in_cluster_comment, line2 ''ip saddr @in_cluster_addrs tcp dport @in_cluster_ports accept''] else [])"

definition in_cluster6_lines :: "ruleRender \<Rightarrow> string list" where
  "in_cluster6_lines r = (if rr_HasV6 r
     then [[], in_cluster_comment, line2 ''ip6 saddr @in_cluster_addrs6 tcp dport @in_cluster_ports accept''] else [])"

definition accept4_lines :: "ruleRender \<Rightarrow> string list" where
  "accept4_lines r = (if rr_HasV4 r \<and> rr_HasPorts r
     then [line2 (''ip saddr @'' @ rr_AddrSet r @ '' '' @ rr_Proto r @ '' dport @'' @ rr_PortsSet r @ '' accept'')] else [])"

definition accept6_lines :: "ruleRender \<Rightarrow> string list" where
  "accept6_lines r = (if rr_HasV6 r \<and> rr_HasPorts r
     then [line2 (''ip6 saddr @'' @ rr_AddrSet6 r @ '' '' @ rr_Proto r @ '' dport @'' @ rr_PortsSet r @ '' accept'')] else [])"

definition each :: "(ruleRender \<Rightarrow> string list) \<Rightarrow> renderData \<Rightarrow> string list" where
  "each f d = concat (map f (rd_Allow d))"

definition doc_lines :: "renderData \<Rightarrow> string list" where
  "doc_lines d =
     head_lines @ reserved_decls d @ each allow_decls d @
     icmp4_lines @ each echo4_lines d @
     icmp6_lines @ each echo6_lines d @
     input4_lines @ in_cluster4_lines (rd_InCluster d) @ each accept4_lines d @
     input6_lines @ in_cluster6_lines (rd_InCluster d) @ each accept6_lines d @
     output_lines"

definition lines_text :: "string list \<Rightarrow> string" where
  "lines_text ls = concat (map (\<lambda>l. l @ [nl]) ls)"

definition render_data :: "Table \<Rightarrow> renderData" where
  "render_data t = \<lparr>rd_Mgmt = flattenRule (t_Mgmt t), rd_Blocked = flattenRule (t_Blocked t),
     rd_InCluster = flattenRule (t_InCluster t), rd_Allow = map flattenRule (t_Allow t)\<rparr>"

text \<open>\<open>Render\<close> normalises the table it is called on; the normalised table is part of the result.\<close>

definition Render :: "Table \<Rightarrow> (Table \<times> string) result" where
  "Render t = rbind (Table_Validate t) (\<lambda>t'. Inr (t', lines_text (doc_lines (render_data t'))))"

section \<open>Recovery from a document\<close>

text \<open>The leftmost position at which a matcher succeeds.\<close>

fun leftmost :: "(string \<Rightarrow> 'a option) \<Rightarrow> string \<Rightarrow> 'a option" where
  "leftmost m [] = m []"
| "leftmost m (c # s) = (case m (c # s) of Some x \<Rightarrow> Some x | None \<Rightarrow> leftmost m s)"

definition strip_prefix :: "string \<Rightarrow> string \<Rightarrow> string option" where
  "strip_prefix p s = (if prefix p s then Some (drop (length p) s) else None)"

text \<open>The rest of a set pattern on the text up to the closing brace: the rightmost \<open>elements\<close> clause.\<close>

fun elements_in :: "string \<Rightarrow> string option" where
  "elements_in [] = None"
| "elements_in (c # s) = (case elements_in s of
     Some x \<Rightarrow> Some x
   | None \<Rightarrow> (case strip_prefix ''elements = { '' (c # s) of
       None \<Rightarrow> None
     | Some r \<Rightarrow> if r \<noteq> [] \<and> last r = CHR '' '' then Some (butlast r) else None))"

definition set_at :: "string \<Rightarrow> string \<Rightarrow> string option" where
  "set_at name s = (case strip_prefix (''set '' @ name @ '' {'') s of
     None \<Rightarrow> None
   | Some r \<Rightarrow> (case cut_byte (CHR ''}'') r of None \<Rightarrow> None | Some (body, _) \<Rightarrow> elements_in body))"

definition find_set :: "string \<Rightarrow> string \<Rightarrow> string option" where
  "find_set name content = leftmost (set_at name) content"

definition splitElements :: "string \<Rightarrow> string list" where
  "splitElements s0 = (let s = strings_TrimSpace s0 in
     if s = [] then [] else filter (\<lambda>v. v \<noteq> []) (map strings_TrimSpace (strings_Split (CHR '','') s)))"

definition parseSetElements :: "string \<Rightarrow> string list \<Rightarrow> string list" where
  "parseSetElements content names = concat (map (\<lambda>n. case find_set n content of None \<Rightarrow> [] | Some e \<Rightarrow> splitElements e) names)"

definition set_declared :: "string \<Rightarrow> string \<Rightarrow> bool" where
  "set_declared name content \<longleftrightarrow> strings_Contains content (''set '' @ name @ '' {'')"

definition legacy_port_at :: "string \<Rightarrow> string option" where
  "legacy_port_at s = (case strip_prefix ''ip saddr @mgmt_addrs tcp dport '' s of
     None \<Rightarrow> None
   | Some r \<Rightarrow> (let ds = takeWhile is_digit r in
       if ds \<noteq> [] \<and> prefix '' accept'' (dropWhile is_digit r) then Some ds else None))"

definition re_space :: "char \<Rightarrow> bool" where
  "re_space c \<longleftrightarrow> c \<in> {CHR 0x09, CHR 0x0A, CHR 0x0C, CHR 0x0D, CHR '' ''}"

definition legacy_cidr_at :: "string \<Rightarrow> string \<Rightarrow> string option" where
  "legacy_cidr_at fam s = (case strip_prefix (fam @ '' saddr '') s of
     None \<Rightarrow> None
   | Some r \<Rightarrow> (let w = takeWhile (\<lambda>c. \<not> re_space c) r in
       if w \<noteq> [] \<and> hd w \<noteq> CHR ''@'' \<and> prefix '' tcp dport @in_cluster_ports accept'' (dropWhile (\<lambda>c. \<not> re_space c) r)
       then Some w else None))"

definition legacy_cidrs :: "string \<Rightarrow> string list" where
  "legacy_cidrs content = List.map_filter (\<lambda>fam. leftmost (legacy_cidr_at fam) content) [''ip'', ''ip6'']"

definition parsed_mgmt_ports :: "string \<Rightarrow> string list" where
  "parsed_mgmt_ports content =
     (if set_declared ''mgmt_ports'' content then parseSetElements content [''mgmt_ports'']
      else case leftmost legacy_port_at content of Some p \<Rightarrow> [p] | None \<Rightarrow> ru_Ports (t_Mgmt NewTable))"

definition Parse :: "string \<Rightarrow> Table result" where
  "Parse content =
     (if \<not> strings_Contains content (''table '' @ TableName @ '' {'')
      then Inl (Err IllegalFormat ''not a recognised inet weaver-host-firewall ruleset'')
      else
        (let inCluster = parseSetElements content [''in_cluster_addrs'', ''in_cluster_addrs6''] in
         Inr (NewTable\<lparr>
           t_Mgmt := (t_Mgmt NewTable)\<lparr>ru_CIDRs := parseSetElements content [''mgmt_addrs'', ''mgmt_addrs6''],
                                      ru_Ports := parsed_mgmt_ports content\<rparr>,
           t_Blocked := (t_Blocked NewTable)\<lparr>ru_CIDRs := parseSetElements content [''blocked_addrs'', ''blocked_addrs6'']\<rparr>,
           t_InCluster := (t_InCluster NewTable)\<lparr>
             ru_CIDRs := (if length inCluster = 0 then legacy_cidrs content else inCluster),
             ru_Ports := (if set_declared ''in_cluster_ports'' content
                          then parseSetElements content [''in_cluster_ports''] else ru_Ports (t_InCluster NewTable))\<rparr>\<rparr>)))"

end
