(* ===== verification/FirewallParse.thy ===== *)
theory FirewallParse
  imports FirewallRender
begin

text \<open>
  Reading back what was rendered: \<open>Parse\<close> of the document of a validated table returns its reserved blocks.
\<close>

section \<open>Occurrences in a document\<close>

text \<open>The texts that follow each occurrence of a byte.\<close>

fun after :: "char \<Rightarrow> string \<Rightarrow> string list" where
  "after c [] = []"
| "after c (x # s) = (if x = c then s # after c s else after c s)"

lemma after_none [simp]: "c \<notin> set s \<Longrightarrow> after c s = []"
  by (induction s) auto

lemma after_append: "after c (s @ t) = map (\<lambda>u. u @ t) (after c s) @ after c t"
  by (induction s) auto

lemma after_suffix: "u \<in> set (after c s) \<Longrightarrow> suffix u s"
  by (induction s) (auto simp: suffix_Cons split: if_splits)

lemma Contains_after:
  assumes "strings_Contains s (p @ c # q)"
  shows "\<exists>u \<in> set (after c s). prefix q u"
proof -
  from assms obtain a b where "s = a @ (p @ c # q) @ b" by (auto simp: Contains_iff)
  then have "q @ b \<in> set (after c s)" by (simp add: after_append)
  then show ?thesis by (auto simp: prefix_def)
qed

lemma Contains_mono: "strings_Contains l s \<Longrightarrow> c \<in> set s \<Longrightarrow> c \<in> set l"
  by (auto simp: Contains_iff)

lemma lines_text_simps [simp]:
  "lines_text [] = []" "lines_text (l # ls) = l @ nl # lines_text ls" "lines_text (ls @ ls') = lines_text ls @ lines_text ls'"
  by (simp_all add: lines_text_def)

lemma append_split: "a @ b = c @ d \<Longrightarrow> length c \<le> length a \<Longrightarrow> \<exists>w. a = c @ w \<and> w @ b = d"
  unfolding append_eq_append_conv2 by auto

text \<open>A text without a line break occurs in a document within one of its lines.\<close>

lemma occurs_in_line:
  assumes "lines_text ls @ s = u @ p @ v" "length u < length (lines_text ls)" "nl \<notin> set p"
  shows "\<exists>l \<in> set ls. strings_Contains l p"
  using assms
proof (induction ls arbitrary: u)
  case (Cons l ls)
  show ?case
  proof (cases "length u \<le> length l")
    case True
    from Cons.prems(1) have eq: "l @ nl # (lines_text ls @ s) = u @ p @ v" by simp
    obtain w where w: "l = u @ w" "w @ nl # (lines_text ls @ s) = p @ v" using append_split[OF eq True] by blast
    have "prefix p w"
    proof (cases "length p \<le> length w")
      case True
      then show ?thesis using append_split[OF w(2)] by (auto simp: prefix_def)
    next
      case False
      then have "(p @ v) ! length w \<in> set p" by (simp add: nth_append)
      moreover have "(p @ v) ! length w = nl" unfolding w(2)[symmetric] by simp
      ultimately show ?thesis using Cons.prems(3) by simp
    qed
    then show ?thesis using w(1) by (auto simp: prefix_def Contains_iff)
  next
    case False
    then have len: "length (l @ [nl]) \<le> length u" by simp
    have "u @ (p @ v) = (l @ [nl]) @ (lines_text ls @ s)" using Cons.prems(1) by simp
    from append_split[OF this len] obtain u' where u: "u = (l @ [nl]) @ u'" "u' @ (p @ v) = lines_text ls @ s" by blast
    then have "length u' < length (lines_text ls)" using Cons.prems(2) by simp
    then show ?thesis using Cons.IH[OF u(2)[symmetric] _ Cons.prems(3)] by auto
  qed
qed simp

section \<open>Leftmost matches\<close>

lemma leftmost_None: "(\<And>u v. s = u @ v \<Longrightarrow> m v = None) \<Longrightarrow> leftmost m s = None"
proof (induction s)
  case (Cons c s)
  have "m (c # s) = None" using Cons.prems[of "[]"] by simp
  moreover have "leftmost m s = None" using Cons.IH Cons.prems by (metis append_Cons)
  ultimately show ?case by simp
qed simp

lemma leftmost_skip:
  "(\<And>u v. a @ s = u @ v \<Longrightarrow> length u < length a \<Longrightarrow> m v = None) \<Longrightarrow> leftmost m (a @ s) = leftmost m s"
proof (induction a)
  case (Cons c a)
  have "m (c # a @ s) = None" using Cons.prems[of "[]"] by simp
  moreover have "leftmost m (a @ s) = leftmost m s"
    using Cons.prems[of "c # u" for u] by (intro Cons.IH) auto
  ultimately show ?case by simp
qed simp

text \<open>A matcher that starts with a fixed text finds nothing in lines without that text.\<close>

definition starts :: "string \<Rightarrow> (string \<Rightarrow> 'a option) \<Rightarrow> bool" where
  "starts p m \<longleftrightarrow> (\<forall>s. m s \<noteq> None \<longrightarrow> prefix p s)"

lemma leftmost_lines:
  assumes "starts p m" "nl \<notin> set p" "\<forall>l \<in> set ls. \<not> strings_Contains l p"
  shows "leftmost m (lines_text ls @ s) = leftmost m s"
proof (rule leftmost_skip)
  fix u v assume uv: "lines_text ls @ s = u @ v" "length u < length (lines_text ls)"
  show "m v = None"
  proof (rule ccontr)
    assume "m v \<noteq> None"
    then obtain w where "v = p @ w" using assms(1) by (auto simp: starts_def prefix_def)
    then show False using occurs_in_line[of ls s u p w] uv assms(2,3) by auto
  qed
qed

lemma leftmost_lines_None:
  assumes "starts p m" "nl \<notin> set p" "p \<noteq> []" "\<forall>l \<in> set ls. \<not> strings_Contains l p"
  shows "leftmost m (lines_text ls) = None"
proof -
  have "m [] = None" using assms(1,3) by (auto simp: starts_def)
  then show ?thesis using leftmost_lines[OF assms(1,2,4), of "[]"] by simp
qed

section \<open>Set declarations\<close>

definition set_open :: "string \<Rightarrow> string" where
  "set_open name = ''set '' @ name @ '' {''"

definition plain_text :: "string \<Rightarrow> bool" where
  "plain_text s \<longleftrightarrow> CHR 0x7B \<notin> set s \<and> CHR 0x7D \<notin> set s \<and> CHR 0x40 \<notin> set s"

definition plain_name :: "string \<Rightarrow> bool" where
  "plain_name n \<longleftrightarrow> plain_text n \<and> CHR '' '' \<notin> set n \<and> nl \<notin> set n"

lemma starts_set_at: "starts (set_open name) (set_at name)"
  by (auto simp: starts_def set_at_def set_open_def strip_prefix_def split: option.splits if_splits)

lemma elements_in_plain: "CHR 0x7B \<notin> set s \<Longrightarrow> elements_in s = None"
proof (induction s)
  case (Cons c s)
  then have "\<not> prefix ''elements = { '' (c # s)" by (auto simp: prefix_def Cons_eq_append_conv)
  with Cons show ?case by (simp add: strip_prefix_def)
qed simp

lemma elements_in_append: "elements_in s = Some e \<Longrightarrow> elements_in (a @ s) = Some e"
  by (induction a) auto

lemma elements_in_clause:
  assumes "plain_text e"
  shows "elements_in (a @ ''elements = { '' @ e @ '' '') = Some e"
proof (rule elements_in_append)
  have "elements_in (e @ '' '') = None" using assms by (intro elements_in_plain) (simp add: plain_text_def)
  then show "elements_in (''elements = { '' @ e @ '' '') = Some e"
    by (simp add: strip_prefix_def)
qed

lemma cut_byte_here: "c \<notin> set a \<Longrightarrow> cut_byte c (a @ c # b) = Some (a, b)"
  by (simp add: cut_byte_Some)

lemma set_at_decl:
  assumes "plain_text e" "plain_text typ"
  shows "set_at name (set_open name @ '' type '' @ typ @ ''; flags interval; auto-merge;'' @
      (if e \<noteq> [] then '' elements = { '' @ e @ '' };'' else []) @ '' }'' @ s) = (if e = [] then None else Some e)"
proof (cases "e = []")
  case True
  let ?b = "'' type '' @ typ @ ''; flags interval; auto-merge; ''"
  have plain: "CHR 0x7D \<notin> set ?b" "CHR 0x7B \<notin> set ?b" using assms(2) by (simp_all add: plain_text_def)
  from plain(1) have "cut_byte (CHR 0x7D) (?b @ CHR 0x7D # s) = Some (?b, s)" by (rule cut_byte_here)
  moreover have "elements_in ?b = None" by (rule elements_in_plain[OF plain(2)])
  ultimately show ?thesis using True by (simp add: set_at_def strip_prefix_def set_open_def)
next
  case False
  let ?b = "('' type '' @ typ @ ''; flags interval; auto-merge; '') @ ''elements = { '' @ e @ '' ''"
  have "CHR 0x7D \<notin> set ?b" using assms by (simp add: plain_text_def)
  then have "cut_byte (CHR 0x7D) (?b @ CHR 0x7D # ''; }'' @ s) = Some (?b, ''; }'' @ s)" by (rule cut_byte_here)
  moreover have "elements_in ?b = Some e" by (rule elements_in_clause[OF assms(1)])
  ultimately show ?thesis using False by (simp add: set_at_def strip_prefix_def set_open_def)
qed

lemma same_cut: "a @ c # b = a' @ c # b' \<Longrightarrow> c \<notin> set a \<Longrightarrow> c \<notin> set b \<Longrightarrow> length a = length a'"
  by (metis append_Cons_eq_iff append_eq_append_conv2 in_set_conv_decomp)

lemma find_set_decl:
  assumes "plain_text e" "plain_text typ" "nl \<notin> set name" "plain_name name"
    and none: "\<forall>l \<in> set (ls1 @ ls2). \<not> strings_Contains l (set_open name)"
  shows "find_set name (lines_text (ls1 @ set_decl name typ e # ls2)) = (if e = [] then None else Some e)"
proof -
  let ?p = "set_open name"
  let ?rest = "'' type '' @ typ @ ''; flags interval; auto-merge;'' @ (if e \<noteq> [] then '' elements = { '' @ e @ '' };'' else []) @ '' }''"
  let ?tl = "?rest @ nl # lines_text ls2"
  have p: "nl \<notin> set ?p" "?p \<noteq> []" using assms(3) by (simp_all add: set_open_def nl_def)
  have decl: "set_decl name typ e = tab # ?p @ ?rest" by (simp add: set_decl_def line1_def set_open_def)
  have tab: "set_at name (tab # s) = None" for s
    by (simp add: set_at_def strip_prefix_def tab_def)
  have at: "set_at name (?p @ ?tl) = (if e = [] then None else Some e)"
    using set_at_decl[OF assms(1,2), of name "nl # lines_text ls2"] by simp
  have "leftmost (set_at name) (lines_text ls1 @ tab # ?p @ ?tl) = leftmost (set_at name) (tab # ?p @ ?tl)"
    using none by (intro leftmost_lines[OF starts_set_at p(1)]) auto
  also have "\<dots> = leftmost (set_at name) (?p @ ?tl)" using tab by simp
  also have "\<dots> = (if e = [] then None else Some e)"
  proof (cases "e = []")
    case False
    then show ?thesis using at p(2) by (cases "?p") simp_all
  next
    case True
    obtain q where q: "?p = CHR ''s'' # q @ [CHR 0x7B]" "CHR 0x7B \<notin> set q"
      using assms(4) by (simp add: set_open_def plain_name_def plain_text_def)
    have "\<not> strings_Contains ((q @ [CHR 0x7B]) @ ?rest) ?p"
    proof
      assume "strings_Contains ((q @ [CHR 0x7B]) @ ?rest) ?p"
      then obtain a b where "(q @ [CHR 0x7B]) @ ?rest = a @ ?p @ b" by (auto simp: Contains_iff)
      then have "q @ CHR 0x7B # ?rest = (a @ CHR ''s'' # q) @ CHR 0x7B # b" unfolding q(1) by simp
      moreover have "CHR 0x7B \<notin> set ?rest" using True assms(2) by (simp add: plain_text_def)
      ultimately have "length q = length (a @ CHR ''s'' # q)" using q(2) same_cut by metis
      then show False by simp
    qed
    then have "leftmost (set_at name) (lines_text (((q @ [CHR 0x7B]) @ ?rest) # ls2)) = None"
      using none by (intro leftmost_lines_None[OF starts_set_at p]) auto
    moreover have "?p @ ?tl = CHR ''s'' # lines_text (((q @ [CHR 0x7B]) @ ?rest) # ls2)" unfolding q(1) by simp
    ultimately have "leftmost (set_at name) (?p @ ?tl) = None" using at True by simp
    with True show ?thesis by simp
  qed
  finally show ?thesis by (simp add: find_set_def decl)
qed

section \<open>Lines without a pattern\<close>

definition fixed_lines :: "string list" where
  "fixed_lines = head_lines @ icmp4_lines @ icmp6_lines @ input4_lines @ input6_lines @ output_lines"

definition no_set_line :: "string \<Rightarrow> bool" where
  "no_set_line l \<longleftrightarrow> CHR 0x7B \<notin> set l \<or> \<not> strings_Contains l ''set ''"

lemma fixed_no_set: "list_all no_set_line fixed_lines"
  unfolding fixed_lines_def by code_simp

lemma fixed_no_ports: "list_all (\<lambda>l. \<not> strings_Contains l ''@in_cluster_ports'') fixed_lines"
  unfolding fixed_lines_def by code_simp

lemma no_set_lineD: "no_set_line l \<Longrightarrow> \<not> strings_Contains l (set_open n)"
  unfolding no_set_line_def using Contains_mono[of l "set_open n" "CHR 0x7B"]
  by (auto simp: set_open_def Contains_iff)

text \<open>The sets of the reserved blocks.\<close>

definition reserved_sets :: "string list" where
  "reserved_sets = [''mgmt_addrs'', ''mgmt_addrs6'', ''mgmt_ports'', ''blocked_addrs'', ''blocked_addrs6'',
     ''in_cluster_addrs'', ''in_cluster_addrs6'', ''in_cluster_ports'']"

definition nft_type :: "string \<Rightarrow> bool" where
  "nft_type t \<longleftrightarrow> t \<in> {''ipv4_addr'', ''ipv6_addr'', ''inet_service''}"

lemma reserved_sets_start:
  "n \<in> set reserved_sets \<Longrightarrow> \<exists>r. n = ''mgmt_'' @ r \<or> n = ''blocked_'' @ r \<or> n = ''in_cluster_'' @ r"
  by (auto simp: reserved_sets_def)

lemma reserved_sets_plain: "n \<in> set reserved_sets \<Longrightarrow> plain_name n"
  by (auto simp: reserved_sets_def plain_name_def plain_text_def nl_def)

lemma takeWhile_word: "c \<notin> set n \<Longrightarrow> takeWhile (\<lambda>x. x \<noteq> c) (n @ c # s) = n"
  by (induction n) auto

lemma prefix_word:
  assumes "prefix (n @ '' {'') (n' @ '' '' @ s)" "CHR '' '' \<notin> set n" "CHR '' '' \<notin> set n'"
  shows "n = n'"
proof -
  from assms(1) obtain b where "n @ CHR '' '' # (CHR 0x7B # b) = n' @ CHR '' '' # s" by (auto simp: prefix_def)
  then have "takeWhile (\<lambda>c. c \<noteq> CHR '' '') (n @ CHR '' '' # (CHR 0x7B # b)) = takeWhile (\<lambda>c. c \<noteq> CHR '' '') (n' @ CHR '' '' # s)"
    by (rule arg_cong)
  then show ?thesis by (simp only: takeWhile_word[OF assms(2)] takeWhile_word[OF assms(3)])
qed

lemma prefix_open_brace: "prefix (n @ '' {'') u \<Longrightarrow> CHR 0x7B \<in> set u"
  by (auto simp: prefix_def)

lemma no_open_in_tail:
  assumes "CHR 0x7B \<notin> set s" "u \<in> set (after c s)"
  shows "\<not> prefix (n @ '' {'') u"
proof
  assume "prefix (n @ '' {'') u"
  then have "CHR 0x7B \<in> set u" by (rule prefix_open_brace)
  then show False using after_suffix[OF assms(2)] assms(1) by (auto simp: suffix_def)
qed

lemma decl_other:
  assumes "n \<in> set reserved_sets" "plain_name n'" "n' \<noteq> n" "plain_text e" "nft_type typ"
  shows "\<not> strings_Contains (set_decl n' typ e) (set_open n)"
proof
  assume "strings_Contains (set_decl n' typ e) (set_open n)"
  then have "strings_Contains (set_decl n' typ e) (''set'' @ CHR '' '' # n @ '' {'')" by (simp add: set_open_def)
  then obtain u where u: "u \<in> set (after (CHR '' '') (set_decl n' typ e))" "prefix (n @ '' {'') u" using Contains_after by blast
  have n: "CHR '' '' \<notin> set n" "CHR '' '' \<notin> set n'" "CHR 0x7B \<notin> set e"
    using reserved_sets_plain[OF assms(1)] assms(2,4) by (auto simp: plain_name_def plain_text_def)
  have word: "\<not> prefix (n @ '' {'') (n' @ CHR '' '' # s)" for s
    using prefix_word[of n n' s] n assms(3) by auto
  have tails: "\<not> prefix (n @ '' {'') t" if "t \<in> set (after (CHR '' '') (e @ '' }; }''))" for t
    using that no_open_in_tail[of "e @ '' }; }''"] n(3) by auto
  have elast: "\<not> prefix (n @ '' {'') (e @ '' }; }'')" using prefix_open_brace[of n "e @ '' }; }''"] n(3) by auto
  from assms(5) consider "typ = ''ipv4_addr''" | "typ = ''ipv6_addr''" | "typ = ''inet_service''" by (auto simp: nft_type_def)
  then show False
    using u reserved_sets_start[OF assms(1)] word tails elast n(2)
    by cases (auto simp: set_decl_def line1_def tab_def after_append split: if_splits)
qed

section \<open>Elements and names of a validated table\<close>

definition trimmed :: "Rule \<Rightarrow> bool" where
  "trimmed r \<longleftrightarrow> list_all (\<lambda>p. strings_TrimSpace p = p) (ru_Ports r)"

definition element_text :: "string \<Rightarrow> bool" where
  "element_text s \<longleftrightarrow> s \<noteq> [] \<and> list_all (\<lambda>c. is_hex c \<or> c \<in> set '':./+-'') s"

lemma element_char:
  assumes "is_hex c \<or> c \<in> set '':./+-''"
  shows "graphic c" "c \<noteq> CHR '',''" "c \<noteq> CHR 0x7B" "c \<noteq> CHR 0x7D" "c \<noteq> CHR 0x40" "c \<noteq> CHR '' ''"
  using assms by (auto simp: graphic_def is_hex_def is_digit_def)

lemma element_text_cidr: "ValidateCIDR c = Inr () \<Longrightarrow> element_text c"
  using ValidateCIDR_chars[of c] by (auto simp: element_text_def list_all_iff ValidateCIDR_def)

lemma element_text_port:
  assumes "validatePortSpec p = Inr ()" "strings_TrimSpace p = p"
  shows "element_text p"
proof -
  have hex: "is_hex c" if "is_digit c" for c using that by (rule hex_digit)
  show ?thesis
  proof (cases "cut_byte (CHR ''-'') p")
    case None
    then have "ValidatePort p = Inr ()" using assms by (auto simp: validatePortSpec_def parsePortSpec_def rbind_Inr_iff)
    then show ?thesis using ValidatePort_chars[of p] hex by (fastforce simp: element_text_def list_all_iff)
  next
    case (Some ab)
    obtain a b where ab: "ab = (a, b)" by (cases ab)
    with Some assms have v: "ValidatePort a = Inr ()" "ValidatePort b = Inr ()"
      by (auto simp: validatePortSpec_def parsePortSpec_def rbind_Inr_iff)
    have "p = a @ CHR ''-'' # b" using Some ab by (simp add: cut_byte_Some)
    then show ?thesis using ValidatePort_chars[OF v(1)] ValidatePort_chars[OF v(2)] hex
      by (fastforce simp: element_text_def list_all_iff)
  qed
qed

lemma set_Join_subset: "set (strings_Join sep xs) \<subseteq> set sep \<union> (\<Union>x \<in> set xs. set x)"
  by (induction sep xs rule: strings_Join.induct) auto

lemma plain_Join:
  assumes "list_all element_text xs"
  shows "plain_text (strings_Join '', '' xs)"
proof -
  have "c \<noteq> CHR 0x7B \<and> c \<noteq> CHR 0x7D \<and> c \<noteq> CHR 0x40" if "c \<in> set (strings_Join '', '' xs)" for c
  proof -
    from that set_Join_subset[of "'', ''" xs] consider "c \<in> set '', ''" | x where "x \<in> set xs" "c \<in> set x" by blast
    then show ?thesis
    proof cases
      case 2
      then show ?thesis using assms element_char[of c] by (auto simp: list_all_iff element_text_def)
    qed auto
  qed
  then show ?thesis unfolding plain_text_def by blast
qed

lemma TrimSpace_element: "element_text x \<Longrightarrow> strings_TrimSpace x = x"
  using element_char(1) by (intro TrimSpace_all_graphic) (simp add: element_text_def list_all_iff)

lemma TrimSpace_blank_element:
  assumes "element_text x"
  shows "strings_TrimSpace (CHR '' '' # x) = x"
proof -
  have "x \<noteq> []" "graphic (hd x)" "graphic (last x)"
    using assms element_char(1) by (auto simp: element_text_def list_all_iff)
  then have "trim_runes space_runes x = x" "strings_TrimSpace x = x"
    by (auto intro!: trim_runes_graphic space_runes_graphic TrimSpace_graphic)
  moreover have "trim_runes space_runes (CHR '' '' # x) = trim_runes space_runes x"
    by (subst trim_runes.simps) (simp add: space_len_def space_runes_def)
  ultimately show ?thesis by (simp add: strings_TrimSpace_def)
qed

lemma Split_Join_comma:
  assumes "\<forall>y \<in> set (x # xs). CHR '','' \<notin> set y"
  shows "strings_Split (CHR '','') (strings_Join '', '' (x # xs)) = x # map ((#) (CHR '' '')) xs"
  using assms by (induction xs arbitrary: x) (simp_all add: Split_no_sep Split_append)

lemma Join_pieces_ends:
  "xs \<noteq> [] \<Longrightarrow> \<forall>x \<in> set xs. x \<noteq> [] \<Longrightarrow>
   strings_Join sep xs \<noteq> [] \<and> hd (strings_Join sep xs) = hd (hd xs) \<and> last (strings_Join sep xs) = last (last xs)"
  by (induction sep xs rule: strings_Join.induct) auto

lemma element_ends: "element_text y \<Longrightarrow> y \<noteq> [] \<and> graphic (hd y) \<and> graphic (last y)"
  using element_char(1) unfolding element_text_def list_all_iff by (metis hd_in_set last_in_set)

lemma TrimSpace_Join:
  assumes "xs \<noteq> []" "list_all element_text xs"
  shows "strings_TrimSpace (strings_Join sep xs) = strings_Join sep xs" "strings_Join sep xs \<noteq> []"
proof -
  have "element_text (hd xs)" "element_text (last xs)" using assms by (simp_all add: list_all_iff)
  moreover have "\<forall>x \<in> set xs. x \<noteq> []" using assms(2) element_ends by (simp add: list_all_iff)
  ultimately show "strings_TrimSpace (strings_Join sep xs) = strings_Join sep xs" "strings_Join sep xs \<noteq> []"
    using Join_pieces_ends[OF assms(1), of sep] element_ends TrimSpace_graphic by simp_all
qed

lemma splitElements_Join:
  assumes "list_all element_text xs"
  shows "splitElements (strings_Join '', '' xs) = xs"
proof (cases xs)
  case Nil
  then show ?thesis by (simp add: splitElements_def TrimSpace_graphic)
next
  case (Cons x ys)
  then have el: "element_text x" "list_all element_text ys" using assms by simp_all
  have sep: "\<forall>y \<in> set (x # ys). CHR '','' \<notin> set y"
    using assms Cons element_char(2) unfolding element_text_def list_all_iff by blast
  have trim: "map strings_TrimSpace (map ((#) (CHR '' '')) ys) = ys"
    using el(2) by (induction ys) (simp_all add: TrimSpace_blank_element)
  have keep: "filter (\<lambda>v. v \<noteq> []) xs = xs"
    using assms element_ends by (induction xs) simp_all
  show ?thesis
    using TrimSpace_Join[OF _ assms, of "'', ''"] Cons Split_Join_comma[OF sep] TrimSpace_element[OF el(1)] trim keep
    by (simp only: splitElements_def Let_def list.simps if_False not_False_eq_True list.map(2))
qed

section \<open>The lines of a validated table\<close>

lemma rule_elements:
  assumes "rule_ok r" "trimmed r"
  shows "list_all element_text (ru_CIDRs r)" "list_all element_text (ru_Ports r)"
  using assms element_text_cidr element_text_port by (auto simp: rule_ok_def trimmed_def list_all_iff)

lemma flatten_plain:
  assumes "rule_ok r" "trimmed r"
  shows "plain_text (rr_Elements (flattenRule r))" "plain_text (rr_Elements6 (flattenRule r))" "plain_text (rr_PortElements (flattenRule r))"
proof -
  have "list_all element_text (filter P (ru_CIDRs r))" for P using rule_elements(1)[OF assms] by (auto simp: list_all_iff)
  then show "plain_text (rr_Elements (flattenRule r))" "plain_text (rr_Elements6 (flattenRule r))"
    "plain_text (rr_PortElements (flattenRule r))"
    using plain_Join rule_elements(2)[OF assms] by (simp_all add: flattenRule_def splitCIDRs_def)
qed

lemma identifier_char [simp]:
  "\<not> isValidIdentifierChar (CHR '' '')" "\<not> isValidIdentifierChar (CHR 0x7B)" "\<not> isValidIdentifierChar (CHR 0x7D)"
  "\<not> isValidIdentifierChar (CHR 0x40)" "\<not> isValidIdentifierChar nl"
  by (simp_all add: isValidIdentifierChar_def is_alnum_def is_digit_def is_lower_def is_upper_def nl_def)

lemma plain_name_identifier: "list_all isValidIdentifierChar n \<Longrightarrow> plain_name n"
  unfolding plain_name_def plain_text_def list_all_iff using identifier_char by metis

lemma derivedSets_plain:
  assumes "rule_ok r" "s \<in> set (derivedSets r)"
  shows "plain_name s"
proof -
  have "plain_name (ru_Name r)" using assms(1) plain_name_identifier by (simp add: rule_ok_def)
  then show ?thesis using assms(2)
    by (auto simp: derivedSets_def addrSetName_def v6SetName_def portsSetName_def plain_name_def plain_text_def nl_def split: if_splits)
qed

text \<open>No set of an allow rule has the name of a set of a reserved block.\<close>

lemma reserved_sets_derived:
  assumes "named t" "n \<in> set reserved_sets"
  shows "n \<in> set (concat (map derivedSets [t_Mgmt t, t_Blocked t, t_InCluster t]))"
proof -
  have "derivedSets (t_Mgmt t) = [''mgmt_addrs'', ''mgmt_addrs6'', ''mgmt_ports'']"
    "derivedSets (t_Blocked t) = [''blocked_addrs'', ''blocked_addrs6'', ''blocked_ports'']"
    "derivedSets (t_InCluster t) = [''in_cluster_addrs'', ''in_cluster_addrs6'', ''in_cluster_ports'']"
    using assms(1) by (simp_all add: named_def derivedSets_def addrSetName_def v6SetName_def portsSetName_def IsReserved_iff
        RuleMgmt_def RuleBlocked_def RuleInCluster_def)
  then show ?thesis using assms(2) by (auto simp: reserved_sets_def)
qed

lemma allow_sets_not_reserved:
  assumes "table_ok t" "named t" "r \<in> set (t_Allow t)" "s \<in> set (derivedSets r)"
  shows "s \<notin> set reserved_sets"
proof
  assume "s \<in> set reserved_sets"
  then have "s \<in> set (concat (map derivedSets [t_Mgmt t, t_Blocked t, t_InCluster t]))" by (rule reserved_sets_derived[OF assms(2)])
  moreover have "s \<in> set (concat (map derivedSets (t_Allow t)))" using assms(3,4) by auto
  moreover have "distinct (concat (map derivedSets [t_Mgmt t, t_Blocked t, t_InCluster t]) @ concat (map derivedSets (t_Allow t)))"
    using assms(1) by (simp add: table_ok_def table_rules_def)
  ultimately show False by (auto simp only: distinct_append)
qed

definition decls :: "renderData \<Rightarrow> (string \<times> string \<times> string) list" where
  "decls d =
     [(''mgmt_addrs'', ''ipv4_addr'', rr_Elements (rd_Mgmt d)), (''mgmt_addrs6'', ''ipv6_addr'', rr_Elements6 (rd_Mgmt d)),
      (''mgmt_ports'', ''inet_service'', rr_PortElements (rd_Mgmt d)),
      (''blocked_addrs'', ''ipv4_addr'', rr_Elements (rd_Blocked d)), (''blocked_addrs6'', ''ipv6_addr'', rr_Elements6 (rd_Blocked d)),
      (''in_cluster_addrs'', ''ipv4_addr'', rr_Elements (rd_InCluster d)), (''in_cluster_addrs6'', ''ipv6_addr'', rr_Elements6 (rd_InCluster d)),
      (''in_cluster_ports'', ''inet_service'', rr_PortElements (rd_InCluster d))]"

lemma reserved_decls_eq: "reserved_decls d = map (\<lambda>(n, t, e). set_decl n t e) (decls d)"
  by (simp add: reserved_decls_def decls_def)

lemma decls_names: "map fst (decls d) = reserved_sets" "distinct reserved_sets" "(n, typ, e) \<in> set (decls d) \<Longrightarrow> nft_type typ"
  by (auto simp: decls_def reserved_sets_def nft_type_def)

text \<open>The lines besides the declarations of the reserved blocks.\<close>

definition other_lines :: "renderData \<Rightarrow> string list" where
  "other_lines d = fixed_lines @ each allow_decls d @ each echo4_lines d @ each echo6_lines d @
     in_cluster4_lines (rd_InCluster d) @ in_cluster6_lines (rd_InCluster d) @ each accept4_lines d @ each accept6_lines d"

lemma each_render: "l \<in> set (each f (render_data t)) \<longleftrightarrow> (\<exists>r \<in> set (t_Allow t). l \<in> set (f (flattenRule r)))"
  by (auto simp: each_def render_data_def)

lemma brace_free:
  assumes "rule_ok r" "l \<in> set (echo4_lines (flattenRule r) @ echo6_lines (flattenRule r) @ accept4_lines (flattenRule r) @ accept6_lines (flattenRule r) @
      in_cluster4_lines (flattenRule r) @ in_cluster6_lines (flattenRule r))"
  shows "CHR 0x7B \<notin> set l"
proof -
  have "CHR 0x7B \<notin> set (ru_Name r)" using assms(1) plain_name_identifier by (auto simp: rule_ok_def plain_name_def plain_text_def)
  moreover have "CHR 0x7B \<notin> set (proto r)" using assms(1) by (auto simp: rule_ok_def proto_def ProtoTCP_def ProtoUDP_def)
  ultimately show ?thesis using assms(2)
    by (auto simp: echo4_lines_def echo6_lines_def accept4_lines_def accept6_lines_def in_cluster4_lines_def in_cluster6_lines_def
        in_cluster_comment_def line2_def tab_def em_dash_def flattenRule_def splitCIDRs_def addrSetName_def v6SetName_def portsSetName_def
        split: if_splits)
qed

lemma allow_decl_form:
  assumes "rule_ok r" "trimmed r" "l \<in> set (allow_decls (flattenRule r))"
  shows "\<exists>n typ e. l = set_decl n typ e \<and> n \<in> set (derivedSets r) \<and> nft_type typ \<and> plain_text e"
proof -
  let ?f = "flattenRule r"
  have ports: "rr_PortElements ?f \<noteq> []" if "rr_HasPorts ?f"
    using that TrimSpace_Join(2)[OF _ rule_elements(2)[OF assms(1,2)]] by (auto simp: flattenRule_def splitCIDRs_def)
  from assms(3) consider "l = set_decl (rr_AddrSet ?f) ''ipv4_addr'' (rr_Elements ?f)"
    | "l = set_decl (rr_AddrSet6 ?f) ''ipv6_addr'' (rr_Elements6 ?f)"
    | "l = set_decl (rr_PortsSet ?f) ''inet_service'' (rr_PortElements ?f)"
    using ports by (auto simp: allow_decls_def set_decl_def split: if_splits)
  moreover have "rr_AddrSet ?f \<in> set (derivedSets r)" "rr_AddrSet6 ?f \<in> set (derivedSets r)" "rr_PortsSet ?f \<in> set (derivedSets r)"
    by (simp_all add: flattenRule_def splitCIDRs_def derivedSets_def)
  ultimately show ?thesis using flatten_plain[OF assms(1,2)] by cases (auto simp: nft_type_def)
qed

text \<open>The tables for which a document is rendered, with port specifications as the nft tool prints them.\<close>

definition plain_table :: "Table \<Rightarrow> bool" where
  "plain_table t \<longleftrightarrow> table_ok t \<and> named t \<and> list_all trimmed (table_rules t)"

lemma plain_tableD:
  assumes "plain_table t"
  shows "table_ok t" "named t" "r \<in> set (table_rules t) \<Longrightarrow> rule_ok r \<and> trimmed r" "r \<in> set (t_Allow t) \<Longrightarrow> rule_ok r \<and> trimmed r"
  using assms by (auto simp: plain_table_def table_ok_def list_all_iff table_rules_def)

lemma other_lines_no_set:
  assumes "plain_table t" "n \<in> set reserved_sets" "l \<in> set (other_lines (render_data t))"
  shows "\<not> strings_Contains l (set_open n)"
proof -
  let ?d = "render_data t"
  have brace: ?thesis if "CHR 0x7B \<notin> set l" using that by (intro no_set_lineD) (simp add: no_set_line_def)
  have inc: "rd_InCluster ?d = flattenRule (t_InCluster t)" "rule_ok (t_InCluster t)"
    using plain_tableD(3)[OF assms(1), of "t_InCluster t"] by (simp_all add: render_data_def table_rules_def)
  from assms(3) consider "l \<in> set fixed_lines" | "l \<in> set (each allow_decls ?d)"
    | r where "rule_ok r" "l \<in> set (echo4_lines (flattenRule r) @ echo6_lines (flattenRule r) @ accept4_lines (flattenRule r) @ accept6_lines (flattenRule r) @
      in_cluster4_lines (flattenRule r) @ in_cluster6_lines (flattenRule r))"
    using inc plain_tableD(4)[OF assms(1)] by (auto simp: other_lines_def each_render)
  then show ?thesis
  proof cases
    case 1
    then show ?thesis using fixed_no_set no_set_lineD by (simp add: list_all_iff)
  next
    case 2
    then obtain r where r: "r \<in> set (t_Allow t)" "l \<in> set (allow_decls (flattenRule r))" by (auto simp: each_render)
    then have ok: "rule_ok r" "trimmed r" using plain_tableD(4)[OF assms(1)] by simp_all
    from allow_decl_form[OF ok r(2)] obtain m ty e where m: "l = set_decl m ty e" "m \<in> set (derivedSets r)" "nft_type ty" "plain_text e" by blast
    have "m \<noteq> n" using allow_sets_not_reserved[OF plain_tableD(1,2)[OF assms(1)] r(1) m(2)] assms(2) by auto
    then show ?thesis using decl_other[OF assms(2) derivedSets_plain[OF ok(1) m(2)] _ m(4,3)] m(1) by simp
  next
    case 3
    then show ?thesis using brace brace_free by blast
  qed
qed

lemma doc_lines_split:
  "doc_lines d = head_lines @ reserved_decls d @ drop (length (head_lines @ reserved_decls d)) (doc_lines d)"
  "set (drop (length (head_lines @ reserved_decls d)) (doc_lines d)) \<subseteq> set (other_lines d)" "set head_lines \<subseteq> set (other_lines d)"
  by (auto simp: doc_lines_def other_lines_def fixed_lines_def)

lemma decls_plain:
  assumes "plain_table t" "(n, typ, e) \<in> set (decls (render_data t))"
  shows "plain_text e"
  using assms(2) flatten_plain plain_tableD(3)[OF assms(1)] by (auto simp: decls_def render_data_def table_rules_def)

lemma find_set_doc:
  assumes t: "plain_table t" and mem: "(n, typ, e) \<in> set (decls (render_data t))"
  shows "find_set n (lines_text (doc_lines (render_data t))) = (if e = [] then None else Some e)"
proof -
  let ?d = "render_data t"
  let ?decl = "\<lambda>(n, t, e). set_decl n t e"
  from split_list[OF mem] obtain xs ys where sp: "decls ?d = xs @ (n, typ, e) # ys" by blast
  obtain rest where rest: "doc_lines ?d = head_lines @ reserved_decls ?d @ rest" "set rest \<subseteq> set (other_lines ?d)"
    using doc_lines_split by blast
  have n: "n \<in> set reserved_sets" using mem decls_names(1)[of ?d] by (metis fst_conv list.set_map image_eqI)
  have "distinct (map fst (decls ?d))" by (simp only: decls_names)
  then have notin: "n \<notin> fst ` set (xs @ ys)" unfolding sp by (simp add: image_Un)
  have ne: "m \<noteq> n" if "(m, ty, f) \<in> set (xs @ ys)" for m ty f using notin that by (metis fst_conv image_eqI)
  have ty: "nft_type ty" if "(m, ty, f) \<in> set (decls ?d)" for m ty f using that by (rule decls_names(3))
  have names: "m \<in> set reserved_sets" if "(m, ty, f) \<in> set (decls ?d)" for m ty f
    using that decls_names(1)[of ?d] by (metis fst_conv list.set_map image_eqI)
  have decl: "\<not> strings_Contains l (set_open n)" if "l \<in> set (map ?decl (xs @ ys))" for l
  proof -
    from that obtain x where x: "x \<in> set (xs @ ys)" "l = ?decl x" unfolding list.set_map by blast
    obtain m ty' f where "x = (m, ty', f)" by (rule prod_cases3)
    with x have l: "l = set_decl m ty' f" "(m, ty', f) \<in> set (xs @ ys)" by simp_all
    have mem': "(m, ty', f) \<in> set (decls ?d)" unfolding sp using l(2) by auto
    show ?thesis unfolding l(1)
      using decl_other[OF n reserved_sets_plain[OF names[OF mem']] ne[OF l(2)] decls_plain[OF t mem'] ty[OF mem']] .
  qed
  have "find_set n (lines_text ((head_lines @ map ?decl xs) @ set_decl n typ e # (map ?decl ys @ rest))) = (if e = [] then None else Some e)"
  proof (rule find_set_decl[OF decls_plain[OF t mem]])
    show "plain_text typ" using ty[OF mem] by (auto simp: nft_type_def plain_text_def)
    show "plain_name n" by (rule reserved_sets_plain[OF n])
    then show "nl \<notin> set n" by (simp add: plain_name_def)
    show "\<forall>l \<in> set ((head_lines @ map ?decl xs) @ (map ?decl ys @ rest)). \<not> strings_Contains l (set_open n)"
    proof
      fix l assume "l \<in> set ((head_lines @ map ?decl xs) @ (map ?decl ys @ rest))"
      then consider "l \<in> set (other_lines ?d)" | "l \<in> set (map ?decl (xs @ ys))"
        using rest(2) doc_lines_split(3)[of ?d] unfolding set_append map_append by blast
      then show "\<not> strings_Contains l (set_open n)" using other_lines_no_set[OF t n] decl by cases blast+
    qed
  qed
  then show ?thesis using rest(1) unfolding reserved_decls_eq sp by simp
qed

lemma parse_set_doc:
  assumes "plain_table t" "(n, typ, strings_Join '', '' xs) \<in> set (decls (render_data t))" "list_all element_text xs"
  shows "(case find_set n (lines_text (doc_lines (render_data t))) of None \<Rightarrow> [] | Some e \<Rightarrow> splitElements e) = xs"
  using find_set_doc[OF assms(1,2)] splitElements_Join[OF assms(3)] TrimSpace_Join(2)[OF _ assms(3)]
  by (cases "xs = []") auto

section \<open>The patterns of older documents\<close>

lemma legacy_cidr_at_occ:
  assumes "legacy_cidr_at fam s = Some w" "nl \<notin> set fam"
  shows "\<exists>p. prefix p s \<and> nl \<notin> set p \<and> (\<exists>a. p = a @ CHR 0x40 # ''in_cluster_ports accept'')"
proof -
  let ?p = "fam @ '' saddr '' @ w @ '' tcp dport @in_cluster_ports accept''"
  from assms(1) obtain r where r: "s = fam @ '' saddr '' @ r" "w = takeWhile (\<lambda>c. \<not> re_space c) r"
    "prefix '' tcp dport @in_cluster_ports accept'' (dropWhile (\<lambda>c. \<not> re_space c) r)"
    by (auto simp: legacy_cidr_at_def strip_prefix_def Let_def prefix_def split: option.splits if_splits)
  from r(3) obtain z where "dropWhile (\<lambda>c. \<not> re_space c) r = '' tcp dport @in_cluster_ports accept'' @ z" by (auto simp: prefix_def)
  then have "r = w @ '' tcp dport @in_cluster_ports accept'' @ z" using takeWhile_dropWhile_id[of "\<lambda>c. \<not> re_space c" r] r(2) by simp
  then have "prefix ?p s" using r(1) by (auto simp: prefix_def)
  moreover have "nl \<notin> set w" unfolding r(2) by (auto dest: set_takeWhileD simp: re_space_def nl_def)
  moreover have "?p = (fam @ '' saddr '' @ w @ '' tcp dport '') @ CHR 0x40 # ''in_cluster_ports accept''" by simp
  ultimately show ?thesis using assms(2) by (intro exI[of _ ?p]) (auto simp: nl_def)
qed

definition no_ports_ref :: "string \<Rightarrow> bool" where
  "no_ports_ref l \<longleftrightarrow> (\<forall>u \<in> set (after (CHR 0x40) l). \<not> prefix ''in_cluster_ports accept'' u)"

lemma legacy_cidrs_none:
  assumes "\<forall>l \<in> set ls. no_ports_ref l"
  shows "legacy_cidrs (lines_text ls) = []"
proof -
  have none: "leftmost (legacy_cidr_at fam) (lines_text ls) = None" if fam: "nl \<notin> set fam" for fam
  proof (rule leftmost_None, rule ccontr)
    fix u v assume uv: "lines_text ls = u @ v" and "legacy_cidr_at fam v \<noteq> None"
    then obtain p a where p: "prefix p v" "nl \<notin> set p" "p = a @ CHR 0x40 # ''in_cluster_ports accept''" using legacy_cidr_at_occ fam by blast
    then obtain z where "lines_text ls @ [] = u @ p @ z" "p \<noteq> []" using uv by (auto simp: prefix_def)
    moreover from this have "length u < length (lines_text ls)" by (metis append_Nil2 append_eq_conv_conj length_append length_greater_0_conv less_add_same_cancel1 add_gr_0)
    ultimately obtain l where "l \<in> set ls" "strings_Contains l p" using occurs_in_line[OF _ _ p(2)] by blast
    then show False using Contains_after assms unfolding p(3) no_ports_ref_def by blast
  qed
  show ?thesis using none[of "''ip''"] none[of "''ip6''"] by (simp add: legacy_cidrs_def nl_def List.map_filter_simps)
qed

lemma after_Contains: "u \<in> set (after c s) \<Longrightarrow> prefix q u \<Longrightarrow> strings_Contains s (c # q)"
proof (induction s)
  case (Cons x s)
  then consider "x = c" "u = s" | "u \<in> set (after c s)" by (auto split: if_splits)
  then show ?case
  proof cases
    case 1
    then show ?thesis using Cons.prems(2) unfolding Contains_iff by (metis append_Cons append_Nil prefix_def)
  next
    case 2
    then obtain a b where "s = a @ (c # q) @ b" using Cons.IH Cons.prems(2) by (auto simp: Contains_iff)
    then have "x # s = (x # a) @ (c # q) @ b" by simp
    then show ?thesis unfolding Contains_iff by blast
  qed
qed simp

lemma fixed_no_ref: "l \<in> set fixed_lines \<Longrightarrow> no_ports_ref l"
proof -
  assume "l \<in> set fixed_lines"
  then have no: "\<not> strings_Contains l ''@in_cluster_ports''" using fixed_no_ports by (simp add: list_all_iff)
  have "\<not> prefix ''in_cluster_ports accept'' u" if "u \<in> set (after (CHR 0x40) l)" for u
  proof
    assume "prefix ''in_cluster_ports accept'' u"
    then have "prefix ''in_cluster_ports'' u" by (auto simp: prefix_def)
    then show False using after_Contains[OF that] no by simp
  qed
  then show ?thesis by (simp add: no_ports_ref_def)
qed

lemma decl_no_ref:
  assumes "plain_name n" "plain_text e" "nft_type ty"
  shows "no_ports_ref (set_decl n ty e)"
proof -
  have "CHR 0x40 \<notin> set (set_decl n ty e)" using assms
    by (auto simp: set_decl_def line1_def tab_def plain_name_def plain_text_def nft_type_def split: if_splits)
  then show ?thesis by (simp add: no_ports_ref_def)
qed

lemma word_eq:
  assumes "prefix (n @ CHR '' '' # x) (a @ CHR '' '' # y)" "CHR '' '' \<notin> set n" "CHR '' '' \<notin> set a"
  shows "n = a" "prefix x y"
proof -
  from assms(1) obtain z where eq: "a @ CHR '' '' # y = n @ CHR '' '' # (x @ z)" by (auto simp: prefix_def)
  then have "takeWhile (\<lambda>c. c \<noteq> CHR '' '') (a @ CHR '' '' # y) = takeWhile (\<lambda>c. c \<noteq> CHR '' '') (n @ CHR '' '' # (x @ z))" by (rule arg_cong)
  then show n: "n = a" by (simp only: takeWhile_word[OF assms(2)] takeWhile_word[OF assms(3)])
  show "prefix x y" using eq unfolding n by (auto simp: prefix_def)
qed

lemma ports_ref_word:
  "prefix ''in_cluster_ports accept'' (a @ CHR '' '' # y) \<Longrightarrow> CHR '' '' \<notin> set a \<Longrightarrow> a = ''in_cluster_ports'' \<and> prefix ''accept'' y"
  using word_eq[of "''in_cluster_ports''" "''accept''" a y] by auto

lemma rule_lines_no_ref:
  assumes "rule_ok r" "\<not> IsReserved (ru_Name r)"
    and "l \<in> set (echo4_lines (flattenRule r) @ echo6_lines (flattenRule r) @ accept4_lines (flattenRule r) @ accept6_lines (flattenRule r))"
  shows "no_ports_ref l"
proof -
  let ?n = "ru_Name r"
  have name: "CHR 0x40 \<notin> set ?n" "CHR '' '' \<notin> set ?n"
    using assms(1) plain_name_identifier[of ?n] by (auto simp: rule_ok_def plain_name_def plain_text_def)
  have p: "proto r = ''tcp'' \<or> proto r = ''udp''" using assms(1) by (auto simp: rule_ok_def proto_def ProtoTCP_def ProtoUDP_def)
  have ports: "?n @ ''_ports'' \<noteq> ''in_cluster_ports''"
  proof
    assume "?n @ ''_ports'' = ''in_cluster_ports''"
    then have "?n @ ''_ports'' = RuleInCluster @ ''_ports''" by (simp add: RuleInCluster_def)
    then show False using assms(2) by (simp add: IsReserved_iff)
  qed
  have w1: "\<not> prefix ''in_cluster_ports accept'' (?n @ CHR '' '' # CHR ''i'' # y)"
    and w2: "\<not> prefix ''in_cluster_ports accept'' ((?n @ ''6'') @ CHR '' '' # CHR ''i'' # y)"
    and w3: "\<not> prefix ''in_cluster_ports accept'' (?n @ CHR '' '' # proto r @ y)"
    and w4: "\<not> prefix ''in_cluster_ports accept'' ((?n @ ''6'') @ CHR '' '' # proto r @ y)"
    and w5: "\<not> prefix ''in_cluster_ports accept'' ((?n @ ''_ports'') @ CHR '' '' # y)" for y
    using ports_ref_word[of ?n] ports_ref_word[of "?n @ ''6''"] ports_ref_word[of "?n @ ''_ports''"] name(2) p ports
    by fastforce+
  have pat: "CHR 0x40 \<notin> set (proto r)" using p by auto
  show ?thesis using assms(2,3) w1 w2 w3 w4 w5 name(1) pat
    by (auto simp: no_ports_ref_def echo4_lines_def echo6_lines_def accept4_lines_def accept6_lines_def line2_def tab_def em_dash_def
        flattenRule_def splitCIDRs_def addrSetName_def v6SetName_def portsSetName_def after_append split: if_splits)
qed

section \<open>Round trip\<close>

definition by_family :: "Rule \<Rightarrow> Rule" where
  "by_family r = r\<lparr>ru_CIDRs := fst (splitCIDRs (ru_CIDRs r)) @ snd (splitCIDRs (ru_CIDRs r))\<rparr>"

definition reserved_part :: "Table \<Rightarrow> Table" where
  "reserved_part t = \<lparr>t_Mgmt = by_family (t_Mgmt t), t_Blocked = by_family (t_Blocked t), t_InCluster = by_family (t_InCluster t), t_Allow = []\<rparr>"

lemma mset_by_family:
  assumes "list_all (\<lambda>c. ValidateCIDR c = Inr ()) cs"
  shows "mset (fst (splitCIDRs cs) @ snd (splitCIDRs cs)) = mset cs"
proof -
  have "CIDRIsIPv6 c = Inr True \<longleftrightarrow> CIDRIsIPv6 c \<noteq> Inr False" if "c \<in> set cs" for c
    using assms that by (auto simp: list_all_iff ValidateCIDR_iff CIDRIsIPv6_def split: option.splits)
  then have "filter (\<lambda>c. CIDRIsIPv6 c = Inr True) cs = filter (\<lambda>c. CIDRIsIPv6 c \<noteq> Inr False) cs" by (rule filter_cong[OF refl])
  then show ?thesis by (simp add: splitCIDRs_def)
qed

lemma doc_line_Contains:
  assumes "l \<in> set ls" "strings_Contains l p"
  shows "strings_Contains (lines_text ls) p"
proof -
  from split_list[OF assms(1)] obtain xs ys where "ls = xs @ l # ys" by blast
  moreover from assms(2) obtain a b where "l = a @ p @ b" by (auto simp: Contains_iff)
  ultimately have "lines_text ls = (lines_text xs @ a) @ p @ (b @ nl # lines_text ys)" by simp
  then show ?thesis unfolding Contains_iff by blast
qed

lemma set_declared_doc:
  assumes "(n, ty, e) \<in> set (decls d)"
  shows "set_declared n (lines_text (doc_lines d))"
  unfolding set_declared_def
proof (rule doc_line_Contains)
  show "set_decl n ty e \<in> set (doc_lines d)" using assms by (auto simp: doc_lines_def reserved_decls_eq image_iff split: prod.splits intro!: bexI[of _ "(n, ty, e)"])
  have "set_decl n ty e = [tab] @ (''set '' @ n @ '' {'') @ ('' type '' @ ty @ ''; flags interval; auto-merge;'' @
     (if e \<noteq> [] then '' elements = { '' @ e @ '' };'' else []) @ '' }'')" by (simp add: set_decl_def line1_def)
  then show "strings_Contains (set_decl n ty e) (''set '' @ n @ '' {'')" unfolding Contains_iff by blast
qed

lemma doc_table: "strings_Contains (lines_text (doc_lines d)) (''table '' @ TableName @ '' {'')"
proof (rule doc_line_Contains)
  show "''table inet weaver-host-firewall {'' \<in> set (doc_lines d)" by (simp add: doc_lines_def head_lines_def)
  show "strings_Contains ''table inet weaver-host-firewall {'' (''table '' @ TableName @ '' {'')" by (simp add: TableName_def strings_Contains_def)
qed

lemma legacy_cidrs_doc:
  assumes t: "plain_table t" and "\<not> rr_HasV4 (flattenRule (t_InCluster t))" "\<not> rr_HasV6 (flattenRule (t_InCluster t))"
  shows "legacy_cidrs (lines_text (doc_lines (render_data t))) = []"
proof (rule legacy_cidrs_none, rule ballI)
  let ?d = "render_data t"
  fix l assume l: "l \<in> set (doc_lines ?d)"
  have "rd_InCluster ?d = flattenRule (t_InCluster t)" by (simp add: render_data_def)
  with l assms(2,3) consider "l \<in> set fixed_lines" | x where "x \<in> set (decls ?d)" "l = (\<lambda>(n, t, e). set_decl n t e) x"
    | r where "r \<in> set (t_Allow t)" "l \<in> set (allow_decls (flattenRule r))"
    | r where "r \<in> set (t_Allow t)" "l \<in> set (echo4_lines (flattenRule r) @ echo6_lines (flattenRule r) @ accept4_lines (flattenRule r) @ accept6_lines (flattenRule r))"
    by (auto simp: doc_lines_def fixed_lines_def each_render reserved_decls_eq in_cluster4_lines_def in_cluster6_lines_def)
  then show "no_ports_ref l"
  proof cases
    case 1
    then show ?thesis by (rule fixed_no_ref)
  next
    case 2
    obtain n ty e where x: "x = (n, ty, e)" by (rule prod_cases3)
    then have "n \<in> set reserved_sets" using 2(1) decls_names(1)[of ?d] by (metis fst_conv list.set_map image_eqI)
    then show ?thesis using 2 x decl_no_ref[OF reserved_sets_plain decls_plain[OF t] decls_names(3)] by simp
  next
    case 3
    then have ok: "rule_ok r" "trimmed r" using plain_tableD(4)[OF t] by simp_all
    from allow_decl_form[OF ok 3(2)] obtain n ty e where "l = set_decl n ty e" "n \<in> set (derivedSets r)" "nft_type ty" "plain_text e" by blast
    then show ?thesis using decl_no_ref derivedSets_plain[OF ok(1)] by simp
  next
    case 4
    then show ?thesis using rule_lines_no_ref table_okD[OF plain_tableD(1)[OF t]] by blast
  qed
qed

lemma decls_mem:
  fixes t :: Table
  defines "d \<equiv> decls (render_data t)"
  shows "(''mgmt_addrs'', ''ipv4_addr'', strings_Join '', '' (fst (splitCIDRs (ru_CIDRs (t_Mgmt t))))) \<in> set d"
    "(''mgmt_addrs6'', ''ipv6_addr'', strings_Join '', '' (snd (splitCIDRs (ru_CIDRs (t_Mgmt t))))) \<in> set d"
    "(''mgmt_ports'', ''inet_service'', strings_Join '', '' (ru_Ports (t_Mgmt t))) \<in> set d"
    "(''blocked_addrs'', ''ipv4_addr'', strings_Join '', '' (fst (splitCIDRs (ru_CIDRs (t_Blocked t))))) \<in> set d"
    "(''blocked_addrs6'', ''ipv6_addr'', strings_Join '', '' (snd (splitCIDRs (ru_CIDRs (t_Blocked t))))) \<in> set d"
    "(''in_cluster_addrs'', ''ipv4_addr'', strings_Join '', '' (fst (splitCIDRs (ru_CIDRs (t_InCluster t))))) \<in> set d"
    "(''in_cluster_addrs6'', ''ipv6_addr'', strings_Join '', '' (snd (splitCIDRs (ru_CIDRs (t_InCluster t))))) \<in> set d"
    "(''in_cluster_ports'', ''inet_service'', strings_Join '', '' (ru_Ports (t_InCluster t))) \<in> set d"
  by (simp_all add: d_def decls_def render_data_def flattenRule_def splitCIDRs_def)

lemma split_elements:
  assumes "rule_ok r" "trimmed r"
  shows "list_all element_text (fst (splitCIDRs (ru_CIDRs r)))" "list_all element_text (snd (splitCIDRs (ru_CIDRs r)))"
  using rule_elements(1)[OF assms] by (simp_all add: list_all_iff splitCIDRs_def)

lemma by_family_reserved:
  assumes "rule_ok r" "IsReserved (ru_Name r)"
  shows "by_family r = \<lparr>ru_Name = ru_Name r, ru_CIDRs = fst (splitCIDRs (ru_CIDRs r)) @ snd (splitCIDRs (ru_CIDRs r)),
    ru_Ports = ru_Ports r, ru_Proto = [], ru_ICMPEcho = False\<rparr>"
  using assms by (cases r) (simp add: by_family_def rule_ok_def reserved_shape_def)

lemma Parse_doc:
  assumes t: "plain_table t"
  shows "Parse (lines_text (doc_lines (render_data t))) = Inr (reserved_part t)"
proof -
  let ?doc = "lines_text (doc_lines (render_data t))"
  have rules: "rule_ok (t_Mgmt t)" "trimmed (t_Mgmt t)" "rule_ok (t_Blocked t)" "trimmed (t_Blocked t)" "rule_ok (t_InCluster t)" "trimmed (t_InCluster t)"
    using plain_tableD(3)[OF t] by (simp_all add: table_rules_def)
  note el = split_elements[OF rules(1,2)] rule_elements(2)[OF rules(1,2)] split_elements[OF rules(3,4)] split_elements[OF rules(5,6)] rule_elements(2)[OF rules(5,6)]
  note found = parse_set_doc[OF t decls_mem(1) el(1)] parse_set_doc[OF t decls_mem(2) el(2)] parse_set_doc[OF t decls_mem(3) el(3)]
    parse_set_doc[OF t decls_mem(4) el(4)] parse_set_doc[OF t decls_mem(5) el(5)] parse_set_doc[OF t decls_mem(6) el(6)]
    parse_set_doc[OF t decls_mem(7) el(7)] parse_set_doc[OF t decls_mem(8) el(8)]
  have sets: "parseSetElements ?doc [''mgmt_addrs'', ''mgmt_addrs6''] = ru_CIDRs (by_family (t_Mgmt t))"
    "parseSetElements ?doc [''blocked_addrs'', ''blocked_addrs6''] = ru_CIDRs (by_family (t_Blocked t))"
    "parseSetElements ?doc [''in_cluster_addrs'', ''in_cluster_addrs6''] = ru_CIDRs (by_family (t_InCluster t))"
    "parseSetElements ?doc [''mgmt_ports''] = ru_Ports (t_Mgmt t)" "parseSetElements ?doc [''in_cluster_ports''] = ru_Ports (t_InCluster t)"
    by (simp_all add: parseSetElements_def by_family_def found)
  have inc: "(if length (ru_CIDRs (by_family (t_InCluster t))) = 0 then legacy_cidrs ?doc else ru_CIDRs (by_family (t_InCluster t))) = ru_CIDRs (by_family (t_InCluster t))"
    using legacy_cidrs_doc[OF t] by (simp add: by_family_def flattenRule_def splitCIDRs_def)
  have ports: "ru_Ports (t_Blocked t) = []" using rules(3) plain_tableD(2)[OF t] by (simp add: rule_ok_def reserved_shape_def named_def)
  show ?thesis
    unfolding Parse_def parsed_mgmt_ports_def Let_def sets inc
    using doc_table[of "render_data t"] set_declared_doc[OF decls_mem(3)] set_declared_doc[OF decls_mem(8)] ports plain_tableD(2)[OF t]
    by (simp add: reserved_part_def by_family_reserved rules NewTable_def named_def IsReserved_iff)
qed

lemma Render_Inr: "Render t0 = Inr (t, doc) \<longleftrightarrow> Table_Validate t0 = Inr t \<and> doc = lines_text (doc_lines (render_data t))"
  by (auto simp: Render_def rbind_Inr_iff)

text \<open>
  C24: the management allowlist survives the loss of the configuration file. Reading back the document that was rendered
  for a table returns its three reserved blocks with their ports, and their addresses grouped by family but otherwise
  unchanged, whatever allow rules the table has; these are not recovered. Ports are assumed to be stored without
  surrounding white space.
\<close>

theorem Parse_Render:
  assumes "Render t0 = Inr (t, doc)" "list_all trimmed (table_rules t)"
  shows "Parse doc = Inr (reserved_part t) \<and>
    (\<forall>r \<in> {t_Mgmt t, t_Blocked t, t_InCluster t}. mset (ru_CIDRs (by_family r)) = mset (ru_CIDRs r) \<and> ru_Ports (by_family r) = ru_Ports r)"
proof -
  have t: "plain_table t" "doc = lines_text (doc_lines (render_data t))"
    using assms Table_Validate_result[of t0 t] by (auto simp: Render_Inr plain_table_def)
  have "list_all (\<lambda>c. ValidateCIDR c = Inr ()) (ru_CIDRs r)" if "r \<in> {t_Mgmt t, t_Blocked t, t_InCluster t}" for r
    using that plain_tableD(3)[OF t(1)] by (auto simp: table_rules_def rule_ok_def)
  then show ?thesis using Parse_doc[OF t(1)] t(2) mset_by_family by (simp add: by_family_def)
qed

definition sample_table :: Table where
  "sample_table =
     \<lparr>t_Mgmt = \<lparr>ru_Name = ''mgmt'', ru_CIDRs = [''2001:db8::/32'', ''10.1.0.0/16''], ru_Ports = [''22''], ru_Proto = [], ru_ICMPEcho = False\<rparr>,
      t_Blocked = \<lparr>ru_Name = ''blocked'', ru_CIDRs = [''203.0.113.0/24''], ru_Ports = [], ru_Proto = [], ru_ICMPEcho = False\<rparr>,
      t_InCluster = \<lparr>ru_Name = ''in_cluster'', ru_CIDRs = [], ru_Ports = [''4244'', ''6443''], ru_Proto = [], ru_ICMPEcho = False\<rparr>,
      t_Allow = [\<lparr>ru_Name = ''etcd'', ru_CIDRs = [''192.0.2.0/24''], ru_Ports = [''2379-2380''], ru_Proto = ''tcp'', ru_ICMPEcho = True\<rparr>]\<rparr>"

lemma sample_table_valid: "Table_Validate sample_table = Inr sample_table" "list_all trimmed (table_rules sample_table)"
  by code_simp+

theorem Parse_Render_witness:
  "\<exists>doc. Render sample_table = Inr (sample_table, doc) \<and> Parse doc = Inr (reserved_part sample_table)"
proof -
  have r: "Render sample_table = Inr (sample_table, lines_text (doc_lines (render_data sample_table)))"
    using sample_table_valid(1) by (simp add: Render_Inr)
  show ?thesis using Parse_Render[OF r sample_table_valid(2)] r by blast
qed

section \<open>What an allow rule renders\<close>

text \<open>
  The check for unfinished rules agrees with the template. An allow rule renders no accept in any chain exactly
  when it is reported as incomplete, so that a rule that was declared and not yet populated grants nothing, and every
  rule that is not reported takes effect.
\<close>

lemma incomplete_exact:
  assumes "rule_ok r" "\<not> IsReserved (ru_Name r)"
  shows "incomplete r \<longleftrightarrow>
    echo4_lines (flattenRule r) @ echo6_lines (flattenRule r) @ accept4_lines (flattenRule r) @ accept6_lines (flattenRule r) = []"
proof -
  have "mset (fst (splitCIDRs (ru_CIDRs r)) @ snd (splitCIDRs (ru_CIDRs r))) = mset (ru_CIDRs r)"
    using assms(1) by (intro mset_by_family) (simp add: rule_ok_def)
  then have "fst (splitCIDRs (ru_CIDRs r)) @ snd (splitCIDRs (ru_CIDRs r)) = [] \<longleftrightarrow> ru_CIDRs r = []" by (metis mset_zero_iff)
  then show ?thesis using assms(2)
    by (auto simp: incomplete_def echo4_lines_def echo6_lines_def accept4_lines_def accept6_lines_def flattenRule_def splitCIDRs_def)
qed

end
