(* ===== verification/FirewallManager.thy ===== *)
theory FirewallManager
  imports FirewallParse
begin

text \<open>
  \<open>internal/network/firewall/manager.go\<close> and \<open>nft.go\<close>: the verbs of \<open>network firewall\<close> on the declarative configuration, its
  retained previous generation, the rendered document and the kernel.

  The configuration file is kept in the form of the YAML library, a type parameter with the decoder and the encoder
  of the library in the record \<open>yaml\<close>; \<open>yaml_ok\<close> is what the library promises for the configurations that are written
  here: what was encoded decodes to itself. The kernel is reached through \<open>fw_runner\<close>, the methods of \<open>Runner\<close> and the restart of the service that
  loads the document; \<open>exec_fw\<close> is the implementation over the \<open>nft\<close> binary, a parameter. \<open>fw_env\<close> holds the outcomes of the operating
  system calls of one operation.
\<close>

section \<open>Kernel and environment\<close>

record 'k fw_runner =
  w_List :: "'k \<Rightarrow> string result"
  w_Check :: "string \<Rightarrow> 'k \<Rightarrow> unit result"
  w_Delete :: "('k, unit) action"
  w_Exists :: "'k \<Rightarrow> bool result"
  w_Restart :: "string option \<Rightarrow> ('k, unit) action"

datatype exit_status = ExitOk | ExitNonZero | NotRun

record fw_proc =
  fp_status :: exit_status
  fp_stdout :: string
  fp_stderr :: string

text \<open>The binary is given its arguments, the content of the file they name, and the kernel.\<close>

type_synonym 'k fw_nft = "string list \<Rightarrow> string \<Rightarrow> 'k \<Rightarrow> fw_proc \<times> 'k"

definition tableArgs :: "string list" where
  "tableArgs = [''inet'', ''weaver-host-firewall'']"

definition isRulesetDiagnostic :: "string \<Rightarrow> string \<Rightarrow> bool" where
  "isRulesetDiagnostic path stderr \<longleftrightarrow>
     list_ex (\<lambda>line. let l = strings_TrimSpace line; p = path @ '':'' in
       prefix p l \<and> drop (length p) l \<noteq> [] \<and> is_digit (hd (drop (length p) l)))
     (strings_Split nl stderr)"

definition exec_Check :: "'k fw_nft \<Rightarrow> string \<Rightarrow> string \<Rightarrow> 'k \<Rightarrow> unit result" where
  "exec_Check nft path doc k =
     (let r = fst (nft [''-c'', ''-f'', path] doc k) in
      if fp_status r = ExitOk then Inr ()
      else if fp_status r = ExitNonZero \<and> isRulesetDiagnostic path (strings_TrimSpace (fp_stderr r))
      then Inl (Err IllegalFormat ''nft rejected the rendered ruleset'')
      else Inl (Err ExternalError ''failed to check the rendered ruleset''))"

definition exec_fw :: "'k fw_nft \<Rightarrow> string \<Rightarrow> (string option \<Rightarrow> ('k, unit) action) \<Rightarrow> 'k fw_runner" where
  "exec_fw nft path restart =
     \<lparr>w_List = (\<lambda>k. let r = fst (nft ([''list'', ''table''] @ tableArgs) [] k) in
        if fp_status r = ExitOk then Inr (fp_stdout r) else Inl (Err ExternalError ''nft list table failed'')),
      w_Check = exec_Check nft path,
      w_Delete = (\<lambda>k. case nft ([''delete'', ''table''] @ tableArgs) [] k of (r, k') \<Rightarrow>
        (if fp_status r = ExitOk then Inr () else Inl (Err ExternalError ''nft delete table failed''), k')),
      w_Exists = (\<lambda>k. Inr (fp_status (fst (nft ([''list'', ''table''] @ tableArgs) [] k)) = ExitOk)),
      w_Restart = restart\<rparr>"

record 'y yaml =
  y_decode :: "'y \<Rightarrow> FileConfig option"
  y_encode :: "FileConfig \<Rightarrow> 'y option"

definition yaml_ok :: "'y yaml \<Rightarrow> bool" where
  "yaml_ok Y \<longleftrightarrow> (\<forall>t y. table_ok t \<longrightarrow> y_encode Y (FileConfigFromTable t) = Some y \<longrightarrow> y_decode Y y = Some (FileConfigFromTable t))"

record fw_env =
  fe_Lock :: bool
  fe_ReadConfig :: bool
  fe_ReadNft :: bool
  fe_Stage :: bool
  fe_WritePrev :: file_write
  fe_WriteConfig :: file_write
  fe_WriteNft :: file_write
  fe_RemovePrev :: bool
  fe_RemoveConfig :: bool
  fe_RemoveNft :: bool

record ('y, 'k) fw_state =
  fs_config :: "'y option"
  fs_prev :: "'y option"
  fs_nft :: "string option"
  fs_kernel :: 'k

type_synonym ('y, 'k, 'a) fw_action = "(('y, 'k) fw_state, 'a) action"

definition fw_kern :: "('k, 'a) action \<Rightarrow> ('y, 'k, 'a) fw_action" where
  "fw_kern f s = (case f (fs_kernel s) of (r, k') \<Rightarrow> (r, s\<lparr>fs_kernel := k'\<rparr>))"

section \<open>Files\<close>

definition LoadConfigFile :: "'y yaml \<Rightarrow> string option \<Rightarrow> (string \<Rightarrow> stat_result) \<Rightarrow> (string \<Rightarrow> 'y option) \<Rightarrow> string \<Rightarrow> FileConfig result" where
  "LoadConfigFile Y cwd os_Stat os_ReadFile path =
     rbind (map_err (wrap IllegalArgument ''invalid --from-file'') (ValidateInputFile cwd os_Stat path)) (\<lambda>clean.
     case os_ReadFile clean of
       None \<Rightarrow> Inl (Err ExternalError ''failed to read --from-file'')
     | Some data \<Rightarrow> ParseConfig (y_decode Y data))"

definition atomicWriteFile :: "file_write \<Rightarrow> ('s \<Rightarrow> 's) \<Rightarrow> ('s, unit) action" where
  "atomicWriteFile w upd s = (case w of
     Written \<Rightarrow> (Inr (), upd s)
   | NotWritten \<Rightarrow> (Inl (Err ExternalError ''failed to write temp file''), s)
   | WrittenUnsynced \<Rightarrow> (Inl (Err ExternalError ''failed to fsync directory''), upd s))"

definition withLock :: "fw_env \<Rightarrow> ('y, 'k, 'a) fw_action \<Rightarrow> ('y, 'k, 'a) fw_action" where
  "withLock env fn = (if fe_Lock env then fn else sfail (Err ExternalError ''failed to acquire lock''))"

definition load :: "'y yaml \<Rightarrow> fw_env \<Rightarrow> ('y, 'k) fw_state \<Rightarrow> Table result" where
  "load Y env s = (case fs_config s of
     Some data \<Rightarrow>
       if \<not> fe_ReadConfig env then Inl (Err ExternalError ''failed to read the config'')
       else rbind (map_err (decorate ''failed to load'') (ParseConfig (y_decode Y data))) (\<lambda>cfg. FileConfig_Table cfg)
   | None \<Rightarrow> (case fs_nft s of
       None \<Rightarrow> Inl (Err IllegalState ''firewall not found'')
     | Some doc \<Rightarrow> if \<not> fe_ReadNft env then Inl (Err ExternalError ''failed to read the document'') else Parse doc))"

definition retainPreviousConfig :: "'y yaml \<Rightarrow> fw_env \<Rightarrow> ('y, 'k) fw_state \<Rightarrow> ('y, 'k) fw_state" where
  "retainPreviousConfig Y env s = (case fs_config s of
     None \<Rightarrow> s
   | Some data \<Rightarrow>
       if \<not> fe_ReadConfig env then s
       else if \<not> is_ok (ParseConfig (y_decode Y data)) then s
       else (case atomicWriteFile (fe_WritePrev env) (\<lambda>s. s\<lparr>fs_prev := Some data\<rparr>) s of
           (Inr _, s') \<Rightarrow> s'
         | (Inl _, s') \<Rightarrow> if fe_RemovePrev env then s'\<lparr>fs_prev := None\<rparr> else s'))"

definition check :: "'k fw_runner \<Rightarrow> fw_env \<Rightarrow> string \<Rightarrow> ('y, 'k) fw_state \<Rightarrow> unit result" where
  "check W env block s =
     (if \<not> fe_Stage env then Inl (Err ExternalError ''failed to write temp file'')
      else map_err (decorate ''the host firewall ruleset was not applied'') (w_Check W block (fs_kernel s)))"

definition Marshal :: "'y yaml \<Rightarrow> FileConfig \<Rightarrow> 'y result" where
  "Marshal Y c = (case y_encode Y c of
     None \<Rightarrow> Inl (Err InternalError ''failed to render firewall config as YAML'') | Some y \<Rightarrow> Inr y)"

definition applyAndPersist :: "'y yaml \<Rightarrow> 'k fw_runner \<Rightarrow> fw_env \<Rightarrow> Table \<Rightarrow> ('y, 'k, unit) fw_action" where
  "applyAndPersist Y W env t0 =
     sbind (slift (Render t0)) (\<lambda>(t, block).
     sbind (slift (Marshal Y (FileConfigFromTable t))) (\<lambda>cfg.
     sbind (sread (check W env block)) (\<lambda>_.
     sbind (\<lambda>s. (Inr (), retainPreviousConfig Y env s)) (\<lambda>_.
     sbind (atomicWriteFile (fe_WriteConfig env) (\<lambda>s. s\<lparr>fs_config := Some cfg\<rparr>)) (\<lambda>_.
     sbind (atomicWriteFile (fe_WriteNft env) (\<lambda>s. s\<lparr>fs_nft := Some block\<rparr>)) (\<lambda>_.
     \<lambda>s. fw_kern (w_Restart W (fs_nft s)) s))))))"

section \<open>Verbs\<close>

definition Create :: "'y yaml \<Rightarrow> 'k fw_runner \<Rightarrow> fw_env \<Rightarrow> Table \<Rightarrow> bool \<Rightarrow> ('y, 'k, bool) fw_action" where
  "Create Y W env t0 force =
     sbind (slift (Table_Validate t0)) (\<lambda>t.
     withLock env (
       sbind (sread (\<lambda>s. w_Exists W (fs_kernel s))) (\<lambda>ex.
       if ex \<and> \<not> force then sret False
       else sbind (applyAndPersist Y W env t) (\<lambda>_. sret True))))"

definition Apply :: "'y yaml \<Rightarrow> 'k fw_runner \<Rightarrow> fw_env \<Rightarrow> Table \<Rightarrow> ('y, 'k, unit) fw_action" where
  "Apply Y W env t0 = sbind (slift (Table_Validate t0)) (\<lambda>t. withLock env (applyAndPersist Y W env t))"

definition CreateRule :: "'y yaml \<Rightarrow> 'k fw_runner \<Rightarrow> fw_env \<Rightarrow> Rule \<Rightarrow> bool \<Rightarrow> ('y, 'k, bool) fw_action" where
  "CreateRule Y W env r force =
     (if IsReserved (ru_Name r) then sfail (Err IllegalArgument ''reserved name cannot be used for an allow rule'')
      else withLock env (
        sbind (sread (load Y env)) (\<lambda>t.
        if lookupRule t (ru_Name r) \<noteq> None \<and> \<not> force then sret False
        else sbind (slift (UpsertAllow r t)) (\<lambda>t'.
             sbind (applyAndPersist Y W env t') (\<lambda>_. sret True)))))"

definition mutate :: "'y yaml \<Rightarrow> 'k fw_runner \<Rightarrow> fw_env \<Rightarrow> (Table \<Rightarrow> Table result) \<Rightarrow> ('y, 'k, unit) fw_action" where
  "mutate Y W env fn = withLock env (
     sbind (sread (load Y env)) (\<lambda>t.
     sbind (slift (fn t)) (\<lambda>t'.
     applyAndPersist Y W env t')))"

definition onRule :: "string \<Rightarrow> (Rule \<Rightarrow> Rule result) \<Rightarrow> Table \<Rightarrow> Table result" where
  "onRule name fn t = (case lookupRule t name of
     None \<Rightarrow> Inl (Err IllegalArgument ''no such rule'')
   | Some r \<Rightarrow> rbind (fn r) (\<lambda>r'. Inr (storeRule t name r')))"

definition mutateRule :: "'y yaml \<Rightarrow> 'k fw_runner \<Rightarrow> fw_env \<Rightarrow> string \<Rightarrow> (Rule \<Rightarrow> Rule result) \<Rightarrow> ('y, 'k, unit) fw_action" where
  "mutateRule Y W env name fn = mutate Y W env (onRule name fn)"

definition addMembers :: "string list \<Rightarrow> string list \<Rightarrow> Rule \<Rightarrow> Rule result" where
  "addMembers cidrs ports r = rbind (AddCIDRs cidrs r) (\<lambda>r'. AddPorts ports r')"

definition Add :: "'y yaml \<Rightarrow> 'k fw_runner \<Rightarrow> fw_env \<Rightarrow> string \<Rightarrow> string list \<Rightarrow> string list \<Rightarrow> ('y, 'k, unit) fw_action" where
  "Add Y W env name cidrs ports = mutateRule Y W env name (addMembers cidrs ports)"

definition removeMembers :: "string list \<Rightarrow> string list \<Rightarrow> Rule \<Rightarrow> Rule result" where
  "removeMembers cidrs ports r = Inr (RemovePorts ports (RemoveCIDRs cidrs r))"

definition Remove :: "'y yaml \<Rightarrow> 'k fw_runner \<Rightarrow> fw_env \<Rightarrow> string \<Rightarrow> string list \<Rightarrow> string list \<Rightarrow> ('y, 'k, unit) fw_action" where
  "Remove Y W env name cidrs ports = mutateRule Y W env name (removeMembers cidrs ports)"

record Update =
  up_Name :: string
  up_CIDRs :: "string list option"
  up_Ports :: "string list option"
  up_Proto :: "string option"
  up_ICMPEcho :: "bool option"

definition applyUpdate :: "Update \<Rightarrow> Rule \<Rightarrow> Rule result" where
  "applyUpdate u r =
     rbind (case up_CIDRs u of None \<Rightarrow> Inr r | Some cidrs \<Rightarrow> SetCIDRs cidrs r) (\<lambda>r1.
     rbind (case up_Ports u of None \<Rightarrow> Inr r1 | Some ports \<Rightarrow> SetPorts ports r1) (\<lambda>r2.
     (let r3 = (case up_Proto u of None \<Rightarrow> r2 | Some p \<Rightarrow> r2\<lparr>ru_Proto := p\<rparr>)
      in Inr (case up_ICMPEcho u of None \<Rightarrow> r3 | Some e \<Rightarrow> r3\<lparr>ru_ICMPEcho := e\<rparr>))))"

fun applyUpdates :: "Update list \<Rightarrow> Table \<Rightarrow> Table result" where
  "applyUpdates [] t = Inr t"
| "applyUpdates (u # us) t = rbind (onRule (up_Name u) (applyUpdate u) t) (\<lambda>t'. applyUpdates us t')"

definition SetMany :: "'y yaml \<Rightarrow> 'k fw_runner \<Rightarrow> fw_env \<Rightarrow> Update list \<Rightarrow> ('y, 'k, unit) fw_action" where
  "SetMany Y W env updates = mutate Y W env (applyUpdates updates)"

definition Set :: "'y yaml \<Rightarrow> 'k fw_runner \<Rightarrow> fw_env \<Rightarrow> string \<Rightarrow> string list option \<Rightarrow> string list option \<Rightarrow> ('y, 'k, unit) fw_action" where
  "Set Y W env name cidrs ports = SetMany Y W env
     [\<lparr>up_Name = name, up_CIDRs = cidrs, up_Ports = ports, up_Proto = None, up_ICMPEcho = None\<rparr>]"

definition DeleteRule :: "'y yaml \<Rightarrow> 'k fw_runner \<Rightarrow> fw_env \<Rightarrow> string \<Rightarrow> ('y, 'k, unit) fw_action" where
  "DeleteRule Y W env name = mutate Y W env (Table_DeleteRule name)"

definition Reapply :: "'y yaml \<Rightarrow> 'k fw_runner \<Rightarrow> fw_env \<Rightarrow> ('y, 'k, unit) fw_action" where
  "Reapply Y W env = mutate Y W env Inr"

definition Config :: "'y yaml \<Rightarrow> fw_env \<Rightarrow> ('y, 'k) fw_state \<Rightarrow> FileConfig result" where
  "Config Y env s = rbind (load Y env s) (\<lambda>t. Inr (FileConfigFromTable t))"

definition IsActive :: "'k fw_runner \<Rightarrow> ('y, 'k) fw_state \<Rightarrow> bool result" where
  "IsActive W s = w_Exists W (fs_kernel s)"

definition Show :: "'k fw_runner \<Rightarrow> ('y, 'k) fw_state \<Rightarrow> string result" where
  "Show W s = rbind (w_Exists W (fs_kernel s)) (\<lambda>ex.
     if \<not> ex then Inr (''No inet weaver-host-firewall firewall table is currently active.'' @ [nl] @
       ''Run `solo-provisioner network firewall create` to install one.'')
     else w_List W (fs_kernel s))"

definition remove_file :: "bool \<Rightarrow> (('y, 'k) fw_state \<Rightarrow> bool) \<Rightarrow> (('y, 'k) fw_state \<Rightarrow> ('y, 'k) fw_state) \<Rightarrow> ('y, 'k, unit) fw_action" where
  "remove_file ok present upd s = (if \<not> present s then (Inr (), s)
     else if ok then (Inr (), upd s) else (Inl (Err ExternalError ''failed to remove a file''), s))"

definition Delete :: "'k fw_runner \<Rightarrow> fw_env \<Rightarrow> ('y, 'k, unit) fw_action" where
  "Delete W env = withLock env (
     sbind (sread (\<lambda>s. w_Exists W (fs_kernel s))) (\<lambda>ex.
     sbind (if ex then fw_kern (w_Delete W) else sret ()) (\<lambda>_.
     sbind (remove_file (fe_RemoveNft env) (\<lambda>s. fs_nft s \<noteq> None) (\<lambda>s. s\<lparr>fs_nft := None\<rparr>)) (\<lambda>_.
     sbind (remove_file (fe_RemoveConfig env) (\<lambda>s. fs_config s \<noteq> None) (\<lambda>s. s\<lparr>fs_config := None\<rparr>)) (\<lambda>_.
     remove_file (fe_RemovePrev env) (\<lambda>s. fs_prev s \<noteq> None) (\<lambda>s. s\<lparr>fs_prev := None\<rparr>))))))"

end
