(* ===== verification/FirewallOps.thy ===== *)
theory FirewallOps
  imports FirewallManager
begin

text \<open>
  What the verbs of \<open>network firewall\<close> guarantee: the table as a map from names to rules, the order of dry run and writes, the
  agreement of configuration, document and kernel, the retained generation, and the recovery from the document.
\<close>

section \<open>Applying a table\<close>

lemma retain_other [simp]:
  "fs_config (retainPreviousConfig Y env s) = fs_config s" "fs_nft (retainPreviousConfig Y env s) = fs_nft s"
  "fs_kernel (retainPreviousConfig Y env s) = fs_kernel s"
  by (auto simp: retainPreviousConfig_def atomicWriteFile_def split: option.splits file_write.splits)

lemma retain_prev:
  "fs_prev (retainPreviousConfig Y env s) = fs_prev s \<or> fs_prev (retainPreviousConfig Y env s) = None \<or>
   (fs_prev (retainPreviousConfig Y env s) = fs_config s \<and> (\<exists>y. fs_config s = Some y \<and> is_ok (ParseConfig (y_decode Y y))))"
  by (auto simp: retainPreviousConfig_def atomicWriteFile_def split: option.splits file_write.splits)

text \<open>The possible outcomes of \<open>applyAndPersist\<close>, by how far it came.\<close>

lemma applyAndPersist_cases:
  assumes "applyAndPersist Y W env t0 s = (r, s')"
  obtains (rejected) e where "r = Inl e" "s' = s"
  | (accepted) t doc cfg where "Render t0 = Inr (t, doc)" "y_encode Y (FileConfigFromTable t) = Some cfg" "w_Check W doc (fs_kernel s) = Inr ()"
      "fs_prev s' = fs_prev (retainPreviousConfig Y env s)"
      "fs_config s' = fs_config s \<or> fs_config s' = Some cfg" "fs_nft s' = fs_nft s \<or> (fs_nft s' = Some doc \<and> fs_config s' = Some cfg)"
      "r = Inr () \<longrightarrow> fs_config s' = Some cfg \<and> fs_nft s' = Some doc \<and> w_Restart W (Some doc) (fs_kernel s) = (Inr (), fs_kernel s')"
proof (cases "Render t0")
  case (Inl e)
  then show ?thesis using assms rejected by (auto simp: applyAndPersist_def)
next
  case (Inr td)
  obtain t doc where td: "td = (t, doc)" by (cases td)
  show ?thesis
  proof (cases "y_encode Y (FileConfigFromTable t)")
    case None
    then show ?thesis using assms Inr td rejected by (auto simp: applyAndPersist_def Marshal_def)
  next
    case (Some cfg)
    show ?thesis
    proof (cases "check W env doc s")
      case (Inl e)
      with assms Inr td Some have "r = Inl e" "s' = s" by (simp_all add: applyAndPersist_def Marshal_def sbind_def)
      then show ?thesis by (rule rejected)
    next
      case ok: (Inr x)
      then have "w_Check W doc (fs_kernel s) = Inr ()" by (auto simp: check_def split: if_splits)
      moreover note assms Inr td Some ok
      ultimately show ?thesis
        by (intro accepted[of t doc cfg])
           (auto simp: applyAndPersist_def Marshal_def sbind_def atomicWriteFile_def fw_kern_def split: file_write.splits prod.splits sum.splits)
    qed
  qed
qed

section \<open>Sequences of verbs\<close>

datatype fw_op =
    FwCreate Table bool
  | FwApply Table
  | FwCreateRule Rule bool
  | FwAdd string "string list" "string list"
  | FwRemove string "string list" "string list"
  | FwSetMany "Update list"
  | FwDeleteRule string
  | FwReapply
  | FwDelete

primrec run_fw :: "'y yaml \<Rightarrow> 'k fw_runner \<Rightarrow> fw_env \<Rightarrow> fw_op \<Rightarrow> ('y, 'k) fw_state \<Rightarrow> ('y, 'k) fw_state" where
  "run_fw Y W env (FwCreate t force) s = snd (Create Y W env t force s)"
| "run_fw Y W env (FwApply t) s = snd (Apply Y W env t s)"
| "run_fw Y W env (FwCreateRule r force) s = snd (CreateRule Y W env r force s)"
| "run_fw Y W env (FwAdd n cidrs ports) s = snd (Add Y W env n cidrs ports s)"
| "run_fw Y W env (FwRemove n cidrs ports) s = snd (Remove Y W env n cidrs ports s)"
| "run_fw Y W env (FwSetMany us) s = snd (SetMany Y W env us s)"
| "run_fw Y W env (FwDeleteRule n) s = snd (DeleteRule Y W env n s)"
| "run_fw Y W env FwReapply s = snd (Reapply Y W env s)"
| "run_fw Y W env FwDelete s = snd (Delete W env s)"

text \<open>Between verbs, the kernel and the document may change in any way; configuration and retained copy are written by the verbs only.\<close>

inductive fw_reachable :: "'y yaml \<Rightarrow> 'k fw_runner \<Rightarrow> ('y, 'k) fw_state \<Rightarrow> bool" for Y W where
  fw_init: "fs_config s = None \<Longrightarrow> fs_prev s = None \<Longrightarrow> fw_reachable Y W s"
| fw_step: "fw_reachable Y W s \<Longrightarrow> fw_reachable Y W (run_fw Y W env op s)"
| fw_external: "fw_reachable Y W s \<Longrightarrow> fs_config s' = fs_config s \<Longrightarrow> fs_prev s' = fs_prev s \<Longrightarrow> fw_reachable Y W s'"

text \<open>Every verb but \<open>Delete\<close> changes the state only by applying a table.\<close>

definition applies :: "'y yaml \<Rightarrow> 'k fw_runner \<Rightarrow> fw_env \<Rightarrow> ('y, 'k, 'a) fw_action \<Rightarrow> bool" where
  "applies Y W env m \<longleftrightarrow> (\<forall>s r s'. m s = (r, s') \<longrightarrow> s' = s \<or> (\<exists>t r0. applyAndPersist Y W env t s = (r0, s')))"

lemma applies_basic:
  "applies Y W env (applyAndPersist Y W env t)" "applies Y W env (sret x)" "applies Y W env (sfail e)"
  by (auto simp: applies_def)

lemma applies_read: "(\<And>x. applies Y W env (g x)) \<Longrightarrow> applies Y W env (sbind (sread f) g)"
  "(\<And>x. applies Y W env (g x)) \<Longrightarrow> applies Y W env (sbind (slift v) g)"
  by (auto simp: applies_def sbind_def split: sum.splits prod.splits)

lemma applies_then: "applies Y W env (sbind (applyAndPersist Y W env t) (\<lambda>_. sret x))"
  unfolding applies_def sbind_def by (force split: sum.splits prod.splits)

lemma applies_if: "applies Y W env m \<Longrightarrow> applies Y W env m' \<Longrightarrow> applies Y W env (if c then m else m')"
  by simp

lemma applies_lock: "applies Y W env m \<Longrightarrow> applies Y W env (withLock env m)"
  by (simp add: withLock_def applies_basic)

lemmas applies_intros = applies_basic applies_read applies_then applies_if applies_lock

lemma verbs_apply:
  "applies Y W env (Create Y W env t force)" "applies Y W env (Apply Y W env t)" "applies Y W env (CreateRule Y W env r force)"
  "applies Y W env (mutate Y W env fn)"
  unfolding Create_def Apply_def CreateRule_def mutate_def by (intro applies_intros)+

lemma mutators_apply:
  "applies Y W env (Add Y W env n cidrs ports)" "applies Y W env (Remove Y W env n cidrs ports)" "applies Y W env (SetMany Y W env us)"
  "applies Y W env (DeleteRule Y W env n)" "applies Y W env (Reapply Y W env)"
  by (simp_all add: Add_def Remove_def SetMany_def DeleteRule_def Reapply_def mutateRule_def verbs_apply)

lemma appliesD: "applies Y W env m \<Longrightarrow> snd (m s) = s \<or> (\<exists>t r. applyAndPersist Y W env t s = (r, snd (m s)))"
  unfolding applies_def by (metis prod.collapse)

lemma run_fw_cases:
  assumes "op \<noteq> FwDelete"
  shows "run_fw Y W env op s = s \<or> (\<exists>t r. applyAndPersist Y W env t s = (r, run_fw Y W env op s))"
  using assms appliesD[OF verbs_apply(1)] appliesD[OF verbs_apply(2)] appliesD[OF verbs_apply(3)]
    appliesD[OF mutators_apply(1)] appliesD[OF mutators_apply(2)] appliesD[OF mutators_apply(3)] appliesD[OF mutators_apply(4)] appliesD[OF mutators_apply(5)]
  by (cases op) simp_all

lemma Delete_removes:
  assumes "Delete W env s = (r, s')"
  shows "(fs_config s' = fs_config s \<or> fs_config s' = None) \<and> (fs_prev s' = fs_prev s \<or> fs_prev s' = None) \<and>
    (r = Inr () \<longrightarrow> fs_config s' = None \<and> fs_prev s' = None \<and> fs_nft s' = None)"
  using assms by (auto simp: Delete_def withLock_def sbind_def remove_file_def fw_kern_def split: if_splits sum.splits prod.splits)

section \<open>Invariant\<close>

definition written :: "'y yaml \<Rightarrow> 'y \<Rightarrow> bool" where
  "written Y y \<longleftrightarrow> (\<exists>t. Table_Validate t = Inr t \<and> y_decode Y y = Some (FileConfigFromTable t))"

definition fw_inv :: "'y yaml \<Rightarrow> ('y, 'k) fw_state \<Rightarrow> bool" where
  "fw_inv Y s \<longleftrightarrow> (\<forall>y. fs_config s = Some y \<longrightarrow> written Y y) \<and> (\<forall>y. fs_prev s = Some y \<longrightarrow> written Y y)"

lemma written_encode:
  assumes "yaml_ok Y" "Render t0 = Inr (t, doc)" "y_encode Y (FileConfigFromTable t) = Some cfg"
  shows "written Y cfg"
proof -
  have "Table_Validate t0 = Inr t" using assms(2) by (simp add: Render_Inr)
  note ok = Table_Validate_result[OF this]
  then show ?thesis using assms(1,3) unfolding written_def yaml_ok_def by blast
qed

lemma written_load:
  assumes "written Y y"
  shows "\<exists>t. ParseConfig (y_decode Y y) = Inr (FileConfigFromTable t) \<and> FileConfig_Table (FileConfigFromTable t) = Inr (by_name t) \<and> Table_Validate t = Inr t"
proof -
  from assms obtain t where t: "Table_Validate t = Inr t" "y_decode Y y = Some (FileConfigFromTable t)" by (auto simp: written_def)
  note ok = Table_Validate_result[OF t(1)]
  show ?thesis using t ParseConfig_FromTable[OF ok(1-3)] FileConfig_Table_inverse[OF ok(1-3)] by auto
qed

lemma fw_inv_apply:
  assumes "yaml_ok Y" "fw_inv Y s" "applyAndPersist Y W env t0 s = (r, s')"
  shows "fw_inv Y s'"
  using assms(3)
proof (cases rule: applyAndPersist_cases)
  case rejected
  then show ?thesis using assms(2) by simp
next
  case (accepted t doc cfg)
  have "written Y cfg" by (rule written_encode[OF assms(1) accepted(1,2)])
  then show ?thesis using accepted(4,5) retain_prev[of Y env s] assms(2) unfolding fw_inv_def by (metis option.inject option.distinct(1))
qed

lemma fw_inv_run:
  assumes "yaml_ok Y" "fw_inv Y s"
  shows "fw_inv Y (run_fw Y W env op s)"
proof (cases "op = FwDelete")
  case True
  then show ?thesis using Delete_removes[of W env s] assms(2) unfolding fw_inv_def by (cases "Delete W env s") auto
next
  case False
  then show ?thesis using run_fw_cases[of op Y W env s] fw_inv_apply[OF assms] assms(2) by auto
qed

lemma fw_inv_reachable: "fw_reachable Y W s \<Longrightarrow> yaml_ok Y \<Longrightarrow> fw_inv Y s"
proof (induction rule: fw_reachable.induct)
  case (fw_external s s')
  then show ?case by (simp add: fw_inv_def)
qed (simp_all add: fw_inv_run, simp add: fw_inv_def)

section \<open>The table as a map from names to rules\<close>

text \<open>
  What the verbs rely on: rules are looked up by name, and a rule stored under its own name is found there and
  changes no other. The effect of a sequence of stores follows.
\<close>

locale named_rules =
  fixes get :: "'t \<Rightarrow> string \<Rightarrow> Rule option"
    and put :: "'t \<Rightarrow> string \<Rightarrow> Rule \<Rightarrow> 't"
  assumes get_put: "get t n = Some r0 \<Longrightarrow> ru_Name r = n \<Longrightarrow> get (put t n r) = (get t)(n \<mapsto> r)"
begin

lemma put_same: "get t n = Some r \<Longrightarrow> ru_Name r = n \<Longrightarrow> get (put t n r) = get t"
  by (simp add: get_put fun_upd_idem)

lemma put_dom: "get t n = Some r0 \<Longrightarrow> ru_Name r = n \<Longrightarrow> dom (get (put t n r)) = dom (get t)"
  by (auto simp: get_put)

lemma put_puts:
  assumes "\<forall>r \<in> set rs. ru_Name r \<in> dom (get t)"
  shows "get (foldl (\<lambda>t r. put t (ru_Name r) r) t rs) = get t ++ map_of (rev (map (\<lambda>r. (ru_Name r, r)) rs))"
  using assms
proof (induction rs arbitrary: t)
  case (Cons r rs)
  then obtain r0 where r0: "get t (ru_Name r) = Some r0" by auto
  have "get (foldl (\<lambda>t r. put t (ru_Name r) r) (put t (ru_Name r) r) rs) = get (put t (ru_Name r) r) ++ map_of (rev (map (\<lambda>r. (ru_Name r, r)) rs))"
    using Cons.prems put_dom[OF r0 refl] by (intro Cons.IH) auto
  then show ?case using get_put[OF r0 refl] by (simp add: map_of_append)
qed simp

end

lemma find_distinct:
  assumes "distinct (map ru_Name rs)"
  shows "find (\<lambda>x. ru_Name x = m) rs = Some r \<longleftrightarrow> r \<in> set rs \<and> ru_Name r = m"
  using assms by (induction rs) auto

lemma find_cong_set:
  assumes "distinct (map ru_Name rs)" "distinct (map ru_Name rs')" "set rs = set rs'"
  shows "find (\<lambda>x. ru_Name x = m) rs = find (\<lambda>x. ru_Name x = m) rs'"
  using find_distinct[OF assms(1), of m] find_distinct[OF assms(2), of m] assms(3) by (metis option.exhaust)

lemma find_replace_first:
  "find (\<lambda>x. ru_Name x = n) rs \<noteq> None \<Longrightarrow> ru_Name r = n \<Longrightarrow>
   find (\<lambda>x. ru_Name x = m) (replace_first n r rs) = (if m = n then Some r else find (\<lambda>x. ru_Name x = m) rs)"
  by (induction rs) auto

lemma lookup_store:
  assumes "lookupRule t n = Some r0" "ru_Name r = n"
  shows "lookupRule (storeRule t n r) = (lookupRule t)(n \<mapsto> r)"
  using assms find_replace_first[of n "t_Allow t" r]
  by (auto simp: fun_eq_iff lookupRule_def storeRule_def split: if_splits)

interpretation table: named_rules lookupRule storeRule
  by unfold_locales (rule lookup_store)

lemma lookup_name: "named t \<Longrightarrow> lookupRule t n = Some r \<Longrightarrow> ru_Name r = n"
  by (auto simp: lookupRule_def named_def find_Some_iff split: if_splits)

lemma find_remove_first:
  "distinct (map ru_Name rs) \<Longrightarrow> find (\<lambda>x. ru_Name x = m) (remove_first n rs) = (if m = n then None else find (\<lambda>x. ru_Name x = m) rs)"
  by (induction rs) (auto simp: find_None_iff image_iff)

lemma lookup_DeleteRule:
  assumes "table_ok t" "Table_DeleteRule n t = Inr t'"
  shows "lookupRule t' = (lookupRule t)(n := None)" "\<not> IsReserved n"
  using assms(2) find_remove_first[OF table_ok_names[OF assms(1)], of _ n]
  by (auto simp: Table_DeleteRule_def lookupRule_def fun_eq_iff IsReserved_iff split: if_splits)

lemma lookup_UpsertAllow:
  assumes "table_ok t" "UpsertAllow r t = Inr t'"
  shows "lookupRule t' = (lookupRule t)(ru_Name r \<mapsto> sort_rule r)"
proof (cases "list_ex (\<lambda>a. ru_Name a = ru_Name r) (t_Allow t)")
  case True
  then have "find (\<lambda>x. ru_Name x = ru_Name r) (t_Allow t) \<noteq> None" by (auto simp: find_None_iff list_ex_iff)
  with True show ?thesis using assms(2) find_replace_first[of "ru_Name r" "t_Allow t" "sort_rule r"]
    by (auto simp: UpsertAllow_def Rule_Validate_iff rbind_Inr_iff lookupRule_def fun_eq_iff IsReserved_iff split: if_splits)
next
  case False
  let ?r = "sort_rule r" and ?a = "t_Allow t"
  have new: "ru_Name r \<notin> ru_Name ` set ?a" using False by (auto simp: list_ex_iff)
  have t': "t' = t\<lparr>t_Allow := sortAllow (?a @ [?r])\<rparr>" "\<not> IsReserved (ru_Name r)"
    using False assms(2) by (auto simp: UpsertAllow_def Rule_Validate_iff rbind_Inr_iff split: if_splits)
  have d: "distinct (map ru_Name (?r # ?a))" using table_ok_names[OF assms(1)] new by simp
  have "mset (map ru_Name (sortAllow (?a @ [?r]))) = mset (map ru_Name (?r # ?a))" by simp
  then have "distinct (map ru_Name (sortAllow (?a @ [?r])))" using d mset_eq_imp_distinct_iff by blast
  then have "find (\<lambda>x. ru_Name x = m) (sortAllow (?a @ [?r])) = find (\<lambda>x. ru_Name x = m) (?r # ?a)" for m
    using d by (intro find_cong_set) auto
  then show ?thesis using t' by (auto simp: lookupRule_def fun_eq_iff IsReserved_iff)
qed

text \<open>The operations on a rule keep its name.\<close>

lemma addMembers_name: "\<forall>r r'. addMembers cs ps r = Inr r' \<longrightarrow> ru_Name r' = ru_Name r"
  by (auto simp: addMembers_def AddCIDRs_def AddPorts_def rbind_Inr_iff)

lemma removeMembers_name: "\<forall>r r'. removeMembers cs ps r = Inr r' \<longrightarrow> ru_Name r' = ru_Name r"
  by (auto simp: removeMembers_def RemovePorts_def RemoveCIDRs_def)

lemma applyUpdate_name: "\<forall>r r'. applyUpdate u r = Inr r' \<longrightarrow> ru_Name r' = ru_Name r"
  by (auto simp: applyUpdate_def SetCIDRs_def SetPorts_def rbind_Inr_iff Let_def split: option.splits)

lemma onRule_lookup:
  assumes "named t" "onRule n fn t = Inr t'" "\<forall>r r'. fn r = Inr r' \<longrightarrow> ru_Name r' = ru_Name r"
  shows "\<exists>r r'. lookupRule t n = Some r \<and> fn r = Inr r' \<and> lookupRule t' = (lookupRule t)(n \<mapsto> r')" "named t'"
proof -
  from assms(2) obtain r r' where r: "lookupRule t n = Some r" "fn r = Inr r'" "t' = storeRule t n r'"
    by (auto simp: onRule_def rbind_Inr_iff split: option.splits)
  then have "ru_Name r' = n" using assms(3) lookup_name[OF assms(1)] by metis
  then show "\<exists>r r'. lookupRule t n = Some r \<and> fn r = Inr r' \<and> lookupRule t' = (lookupRule t)(n \<mapsto> r')"
    using r table.get_put[OF r(1)] by blast
  show "named t'" using assms(1) r(3) \<open>ru_Name r' = n\<close> by (auto simp: named_def storeRule_def)
qed

text \<open>The updates of \<open>SetMany\<close> on a map.\<close>

fun map_updates :: "Update list \<Rightarrow> (string \<Rightarrow> Rule option) \<Rightarrow> (string \<Rightarrow> Rule option) result" where
  "map_updates [] m = Inr m"
| "map_updates (u # us) m = (case m (up_Name u) of
     None \<Rightarrow> Inl (Err IllegalArgument ''no such rule'')
   | Some r \<Rightarrow> rbind (applyUpdate u r) (\<lambda>r'. map_updates us (m(up_Name u \<mapsto> r'))))"

lemma applyUpdates_lookup: "named t \<Longrightarrow> applyUpdates us t = Inr t' \<Longrightarrow> map_updates us (lookupRule t) = Inr (lookupRule t')"
proof (induction us arbitrary: t)
  case (Cons u us)
  then obtain t1 where t1: "onRule (up_Name u) (applyUpdate u) t = Inr t1" "applyUpdates us t1 = Inr t'" by (auto simp: rbind_Inr_iff)
  from onRule_lookup[OF Cons.prems(1) t1(1) applyUpdate_name] obtain r r' where r: "lookupRule t (up_Name u) = Some r" "applyUpdate u r = Inr r'"
    "lookupRule t1 = (lookupRule t)(up_Name u \<mapsto> r')" "named t1" by blast
  have "map_updates us ((lookupRule t)(up_Name u \<mapsto> r')) = Inr (lookupRule t')" using Cons.IH[OF r(4) t1(2)] unfolding r(3) .
  then show ?case by (simp only: map_updates.simps r(1,2) option.case rbind_simps)
qed simp

text \<open>
  C25: the table implements a map from names to rules. On an accepted table, declaring a rule, deleting one, adding and
  removing members and replacing them act on the rule with the given name as an update of that map, and on no
  other rule; a reserved block is never deleted.
\<close>

theorem Table_refines_map:
  assumes "Table_Validate t0 = Inr t"
  shows "(\<forall>r t'. UpsertAllow r t = Inr t' \<longrightarrow> lookupRule t' = (lookupRule t)(ru_Name r \<mapsto> sort_rule r)) \<and>
    (\<forall>n t'. Table_DeleteRule n t = Inr t' \<longrightarrow> \<not> IsReserved n \<and> lookupRule t' = (lookupRule t)(n := None)) \<and>
    (\<forall>n cs ps t'. onRule n (addMembers cs ps) t = Inr t' \<longrightarrow>
       (\<exists>r r'. lookupRule t n = Some r \<and> addMembers cs ps r = Inr r' \<and> lookupRule t' = (lookupRule t)(n \<mapsto> r'))) \<and>
    (\<forall>n cs ps t'. onRule n (removeMembers cs ps) t = Inr t' \<longrightarrow>
       (\<exists>r. lookupRule t n = Some r \<and> lookupRule t' = (lookupRule t)(n \<mapsto> RemovePorts ps (RemoveCIDRs cs r)))) \<and>
    (\<forall>us t'. applyUpdates us t = Inr t' \<longrightarrow> map_updates us (lookupRule t) = Inr (lookupRule t'))"
proof -
  note ok = Table_Validate_result[OF assms]
  have "\<exists>r. lookupRule t n = Some r \<and> lookupRule t' = (lookupRule t)(n \<mapsto> RemovePorts ps (RemoveCIDRs cs r))"
    if "onRule n (removeMembers cs ps) t = Inr t'" for n cs ps t'
    using onRule_lookup(1)[OF ok(2) that removeMembers_name] by (auto simp: removeMembers_def)
  moreover have "\<exists>r r'. lookupRule t n = Some r \<and> addMembers cs ps r = Inr r' \<and> lookupRule t' = (lookupRule t)(n \<mapsto> r')"
    if "onRule n (addMembers cs ps) t = Inr t'" for n cs ps t'
    by (rule onRule_lookup(1)[OF ok(2) that addMembers_name])
  ultimately show ?thesis
    using lookup_UpsertAllow[OF ok(1)] lookup_DeleteRule[OF ok(1)] applyUpdates_lookup[OF ok(2)] by blast
qed

section \<open>A host for the witnesses\<close>

text \<open>A kernel that loads whatever document it is given, and a library whose encoding is the identity.\<close>

definition id_yaml :: "FileConfig yaml" where
  "id_yaml = \<lparr>y_decode = Some, y_encode = Some\<rparr>"

definition loader :: "string option fw_runner" where
  "loader = \<lparr>w_List = (\<lambda>k. case k of None \<Rightarrow> Inl (Err ExternalError ''nft list table failed'') | Some d \<Rightarrow> Inr d),
     w_Check = (\<lambda>_ _. Inr ()), w_Delete = (\<lambda>k. (Inr (), None)), w_Exists = (\<lambda>k. Inr (k \<noteq> None)), w_Restart = (\<lambda>doc k. (Inr (), doc))\<rparr>"

definition calm :: fw_env where
  "calm = \<lparr>fe_Lock = True, fe_ReadConfig = True, fe_ReadNft = True, fe_Stage = True, fe_WritePrev = Written, fe_WriteConfig = Written,
     fe_WriteNft = Written, fe_RemovePrev = True, fe_RemoveConfig = True, fe_RemoveNft = True\<rparr>"

definition bare_host :: "(FileConfig, string option) fw_state" where
  "bare_host = \<lparr>fs_config = None, fs_prev = None, fs_nft = None, fs_kernel = None\<rparr>"

definition walled_host :: "(FileConfig, string option) fw_state" where
  "walled_host = \<lparr>fs_config = Some (FileConfigFromTable sample_table), fs_prev = None,
     fs_nft = Some (lines_text (doc_lines (render_data sample_table))), fs_kernel = Some (lines_text (doc_lines (render_data sample_table)))\<rparr>"

lemma id_yaml_ok: "yaml_ok id_yaml"
  by (simp add: yaml_ok_def id_yaml_def)

lemma Render_sample: "Render sample_table = Inr (sample_table, lines_text (doc_lines (render_data sample_table)))"
  using sample_table_valid(1) by (simp add: Render_Inr)

lemma apply_sample: "applyAndPersist id_yaml loader calm sample_table bare_host = (Inr (), walled_host)"
  by (simp add: applyAndPersist_def Render_sample Marshal_def id_yaml_def check_def calm_def loader_def bare_host_def walled_host_def
      retainPreviousConfig_def atomicWriteFile_def fw_kern_def sbind_def)

lemma create_sample: "Create id_yaml loader calm sample_table False bare_host = (Inr True, walled_host)"
proof -
  have "fe_Lock calm" "w_Exists loader (fs_kernel bare_host) = Inr False" by (simp_all add: calm_def loader_def bare_host_def)
  then show ?thesis using apply_sample sample_table_valid(1) by (simp add: Create_def withLock_def sbind_def)
qed

lemma walled_reachable: "fw_reachable id_yaml loader walled_host"
proof -
  have "fw_reachable id_yaml loader bare_host" by (rule fw_init) (simp_all add: bare_host_def)
  from fw_step[OF this, of calm "FwCreate sample_table False"] show ?thesis using create_sample by simp
qed

lemma by_name_sample: "by_name sample_table = sample_table"
  by (simp add: by_name_def sample_table_def sortAllow_def)

lemma load_walled: "load id_yaml calm walled_host = Inr sample_table"
proof -
  note ok = Table_Validate_result[OF sample_table_valid(1)]
  show ?thesis using ParseConfig_FromTable[OF ok(1-3)] FileConfig_Table_inverse[OF ok(1-3)] by_name_sample
    by (simp add: load_def walled_host_def calm_def id_yaml_def)
qed

lemma reapply_walled:
  "Reapply id_yaml loader calm walled_host = (Inr (), walled_host\<lparr>fs_prev := Some (FileConfigFromTable sample_table)\<rparr>)"
proof -
  note ok = Table_Validate_result[OF sample_table_valid(1)]
  have "applyAndPersist id_yaml loader calm sample_table walled_host = (Inr (), walled_host\<lparr>fs_prev := Some (FileConfigFromTable sample_table)\<rparr>)"
    using ParseConfig_FromTable[OF ok(1-3)]
    by (simp add: applyAndPersist_def Render_sample Marshal_def id_yaml_def check_def calm_def loader_def walled_host_def
      retainPreviousConfig_def atomicWriteFile_def fw_kern_def sbind_def)
  moreover have "fe_Lock calm" by (simp add: calm_def)
  ultimately show ?thesis using load_walled by (simp add: Reapply_def mutate_def withLock_def sbind_def)
qed

section \<open>Properties of the verbs\<close>

theorem Table_refines_map_witness:
  "lookupRule sample_table ''etcd'' \<noteq> None \<and>
   (\<exists>t'. Table_DeleteRule ''etcd'' sample_table = Inr t' \<and> lookupRule t' = (lookupRule sample_table)(''etcd'' := None))"
proof -
  have "lookupRule sample_table ''etcd'' \<noteq> None" "\<exists>t'. Table_DeleteRule ''etcd'' sample_table = Inr t'"
    by (simp_all add: lookupRule_def Table_DeleteRule_def sample_table_def IsReserved_iff RuleMgmt_def RuleBlocked_def RuleInCluster_def)
  then show ?thesis using Table_refines_map[OF sample_table_valid(1)] by blast
qed

text \<open>
  C22: a rejected ruleset never reaches the disk. Whatever verb but \<open>Delete\<close> runs and however it ends, if it changed anything, then the dry run
  has accepted a document rendered from a valid table; the persisted document is that one or unchanged; it changes only once the
  configuration it was rendered from is on disk. A readable configuration that parses was retained before: the copy is that
  configuration when it could be written, and is gone when it could not but could be removed. Any other configuration leaves the copy alone.
\<close>

theorem dry_run_first:
  assumes "run_fw Y W env op s = s'" "op \<noteq> FwDelete" "s' \<noteq> s"
  shows "(\<exists>t0 t doc cfg. Render t0 = Inr (t, doc) \<and> y_encode Y (FileConfigFromTable t) = Some cfg \<and> w_Check W doc (fs_kernel s) = Inr () \<and>
      (fs_config s' = fs_config s \<or> fs_config s' = Some cfg) \<and>
      (fs_nft s' = fs_nft s \<or> (fs_nft s' = Some doc \<and> fs_config s' = Some cfg))) \<and>
    (if fe_ReadConfig env \<and> (\<exists>y. fs_config s = Some y \<and> is_ok (ParseConfig (y_decode Y y)))
     then (fe_WritePrev env = Written \<longrightarrow> fs_prev s' = fs_config s) \<and> (fe_WritePrev env \<noteq> Written \<and> fe_RemovePrev env \<longrightarrow> fs_prev s' = None)
     else fs_prev s' = fs_prev s)"
proof -
  from run_fw_cases[OF assms(2), of Y W env s] assms(1,3) obtain t0 r where ap: "applyAndPersist Y W env t0 s = (r, s')" by auto
  then show ?thesis
  proof (cases rule: applyAndPersist_cases)
    case rejected
    then show ?thesis using assms(3) by simp
  next
    case (accepted t doc cfg)
    have "if fe_ReadConfig env \<and> (\<exists>y. fs_config s = Some y \<and> is_ok (ParseConfig (y_decode Y y)))
      then (fe_WritePrev env = Written \<longrightarrow> fs_prev s' = fs_config s) \<and> (fe_WritePrev env \<noteq> Written \<and> fe_RemovePrev env \<longrightarrow> fs_prev s' = None)
      else fs_prev s' = fs_prev s"
      unfolding accepted(4) by (auto simp: retainPreviousConfig_def atomicWriteFile_def split: option.splits file_write.splits)
    moreover have "\<exists>t0 t doc cfg. Render t0 = Inr (t, doc) \<and> y_encode Y (FileConfigFromTable t) = Some cfg \<and> w_Check W doc (fs_kernel s) = Inr () \<and>
      (fs_config s' = fs_config s \<or> fs_config s' = Some cfg) \<and> (fs_nft s' = fs_nft s \<or> (fs_nft s' = Some doc \<and> fs_config s' = Some cfg))"
      using accepted(1-3,5,6) by blast
    ultimately show ?thesis by (rule conjI[rotated])
  qed
qed

theorem dry_run_first_witness:
  "fs_prev walled_host = None \<and> fs_prev (run_fw id_yaml loader calm FwReapply walled_host) = Some (FileConfigFromTable sample_table)"
proof -
  have cfg: "fs_config walled_host = Some (FileConfigFromTable sample_table)" "fs_prev walled_host = None" by (simp_all add: walled_host_def)
  have "run_fw id_yaml loader calm FwReapply walled_host \<noteq> walled_host"
    using reapply_walled by (simp add: walled_host_def)
  note d = dry_run_first[OF refl _ this, THEN conjunct2]
  have "is_ok (ParseConfig (y_decode id_yaml (FileConfigFromTable sample_table)))"
    using load_walled cfg by (cases "ParseConfig (y_decode id_yaml (FileConfigFromTable sample_table))") (auto simp: load_def calm_def)
  with d cfg show ?thesis by (auto simp: calm_def)
qed

text \<open>
  C23: configuration, document and kernel agree. When a change of the current table succeeds, the configuration on disk is that of the changed
  table in normal form, the document on disk is its rendering, the service has loaded that very document, and the next
  verb works on exactly that table, with the allow rules in the order of their names.
\<close>

theorem mutate_exact:
  assumes "mutate Y W env fn s = (Inr (), s')" "yaml_ok Y" "fe_ReadConfig env'"
  shows "\<exists>t0 t1 t doc. load Y env s = Inr t0 \<and> fn t0 = Inr t1 \<and> Render t1 = Inr (t, doc) \<and>
    fs_nft s' = Some doc \<and> w_Check W doc (fs_kernel s) = Inr () \<and> w_Restart W (Some doc) (fs_kernel s) = (Inr (), fs_kernel s') \<and>
    load Y env' s' = Inr (by_name t) \<and> Config Y env' s' = Inr (FileConfigFromTable (by_name t))"
proof -
  from assms(1) obtain t0 t1 where t: "load Y env s = Inr t0" "fn t0 = Inr t1" and ap: "applyAndPersist Y W env t1 s = (Inr (), s')"
    by (auto simp: mutate_def withLock_def sbind_Inr_iff split: if_splits)
  from ap show ?thesis
  proof (cases rule: applyAndPersist_cases)
    case (accepted t doc cfg)
    have v: "Table_Validate t1 = Inr t" using accepted(1) by (simp add: Render_Inr)
    note ok = Table_Validate_result[OF v]
    have "y_decode Y cfg = Some (FileConfigFromTable t)" using assms(2) accepted(2) ok(1) by (simp add: yaml_ok_def)
    then have "load Y env' s' = Inr (by_name t)"
      using accepted(7) assms(3) ParseConfig_FromTable[OF ok(1-3)] FileConfig_Table_inverse[OF ok(1-3)] by (simp add: load_def)
    then show ?thesis using t accepted by (auto simp: Config_def)
  qed simp
qed

theorem mutate_exact_witness:
  "\<exists>s'. mutate id_yaml loader calm Inr walled_host = (Inr (), s') \<and> load id_yaml calm s' = Inr (by_name sample_table)"
proof -
  obtain s' where m: "mutate id_yaml loader calm Inr walled_host = (Inr (), s')" using reapply_walled by (simp add: Reapply_def)
  have "fe_ReadConfig calm" by (simp add: calm_def)
  from mutate_exact[OF m id_yaml_ok this] obtain t0 t1 t doc where "load id_yaml calm walled_host = Inr t0" "Inr t0 = Inr t1"
    "Render t1 = Inr (t, doc)" "load id_yaml calm s' = Inr (by_name t)" by blast
  then show ?thesis using m load_walled Render_sample by auto
qed

text \<open>
  C21: what was written can be read. In every state that any sequence of verbs reaches, under any failures of the host, the configuration
  and the retained previous generation, where present, are accepted by the parser, and loading a readable configuration
  yields a valid table; in particular no verb leaves a configuration that would need the lossy recovery.
\<close>

theorem firewall_invariant:
  assumes "fw_reachable Y W s" "yaml_ok Y"
  shows "(\<forall>y. fs_config s = Some y \<or> fs_prev s = Some y \<longrightarrow> is_ok (ParseConfig (y_decode Y y))) \<and>
    (fs_config s \<noteq> None \<longrightarrow> fe_ReadConfig env \<longrightarrow> (\<exists>t t'. load Y env s = Inr t \<and> Table_Validate t = Inr t'))"
proof -
  have inv: "fw_inv Y s" by (rule fw_inv_reachable[OF assms])
  have ok: "is_ok (ParseConfig (y_decode Y y))" if "fs_config s = Some y \<or> fs_prev s = Some y" for y
    using that inv written_load[of Y y] by (auto simp: fw_inv_def)
  moreover have "\<exists>t t'. load Y env s = Inr t \<and> Table_Validate t = Inr t'" if "fs_config s = Some y" "fe_ReadConfig env" for y
  proof -
    from that(1) inv written_load[of Y y] obtain t where t: "ParseConfig (y_decode Y y) = Inr (FileConfigFromTable t)"
      "FileConfig_Table (FileConfigFromTable t) = Inr (by_name t)" "Table_Validate t = Inr t" by (auto simp: fw_inv_def)
    note v = Table_Validate_result[OF t(3)]
    have "fix_names (by_name t) = by_name t" using v(2) by (simp add: fix_names_def by_name_def named_def)
    then have "\<exists>t'. Table_Validate (by_name t) = Inr t'" using table_ok_by_name[OF v(1)] by (simp add: Table_Validate_iff)
    then show ?thesis using t that by (simp add: load_def)
  qed
  ultimately show ?thesis by auto
qed

theorem firewall_invariant_witness:
  "fw_reachable id_yaml loader walled_host \<and> is_ok (ParseConfig (y_decode id_yaml (FileConfigFromTable sample_table)))"
proof -
  have "fs_config walled_host = Some (FileConfigFromTable sample_table)" by (simp add: walled_host_def)
  then show ?thesis using firewall_invariant[OF walled_reachable id_yaml_ok] walled_reachable by blast
qed

text \<open>
  Losing the configuration does not lock the operator out. If the configuration file is lost after a table was applied, the next verb
  still loads the management, block and in-cluster lists that were in force, with their ports.
\<close>

lemma recovery_after_loss:
  assumes "applyAndPersist Y W env t0 s = (Inr (), s1)" "Table_Validate t0 = Inr t" "list_all trimmed (table_rules t)"
    and "s2 = s1\<lparr>fs_config := None\<rparr>" "fe_ReadNft env'"
  shows "load Y env' s2 = Inr (reserved_part t)"
  using assms(1)
proof (cases rule: applyAndPersist_cases)
  case (accepted t' doc cfg)
  then have "fs_nft s2 = Some doc" "t' = t" "doc = lines_text (doc_lines (render_data t))" using assms(2,4) by (auto simp: Render_Inr)
  moreover have "plain_table t" using Table_Validate_result[OF assms(2)] assms(3) by (simp add: plain_table_def)
  ultimately show ?thesis using assms(4,5) Parse_doc by (simp add: load_def)
qed simp

end
