(* ===== verification/Sha256.thy ===== *)
theory Sha256
  imports GoStd
begin

text \<open>
  \<open>crypto/sha256\<close> and \<open>encoding/hex\<close>, as far as the program uses them: \<open>Sum256\<close> of FIPS 180-4 on
  32-bit words and \<open>EncodeToString\<close>. The definitions compute; no theorem relies on the digest being
  collision free, only on it being a function of the bytes.
\<close>

unbundle bit_operations_syntax

definition sha_K :: "32 word list" where
  "sha_K =
     [1116352408, 1899447441, 3049323471, 3921009573, 961987163, 1508970993, 2453635748, 2870763221,
      3624381080, 310598401, 607225278, 1426881987, 1925078388, 2162078206, 2614888103, 3248222580,
      3835390401, 4022224774, 264347078, 604807628, 770255983, 1249150122, 1555081692, 1996064986,
      2554220882, 2821834349, 2952996808, 3210313671, 3336571891, 3584528711, 113926993, 338241895,
      666307205, 773529912, 1294757372, 1396182291, 1695183700, 1986661051, 2177026350, 2456956037,
      2730485921, 2820302411, 3259730800, 3345764771, 3516065817, 3600352804, 4094571909, 275423344,
      430227734, 506948616, 659060556, 883997877, 958139571, 1322822218, 1537002063, 1747873779,
      1955562222, 2024104815, 2227730452, 2361852424, 2428436474, 2756734187, 3204031479, 3329325298]"

definition sha_H0 :: "32 word list" where
  "sha_H0 =
     [1779033703, 3144134277, 1013904242, 2773480762, 1359893119, 2600822924, 528734635, 1541459225]"

text \<open>The message schedule, the newest word first.\<close>

primrec sha_extend :: "nat \<Rightarrow> 32 word list \<Rightarrow> 32 word list" where
  "sha_extend 0 ws = ws"
| "sha_extend (Suc n) ws =
     (let x = ws ! 14; y = ws ! 1;
          s0 = word_rotr 7 x XOR word_rotr 18 x XOR drop_bit 3 x;
          s1 = word_rotr 17 y XOR word_rotr 19 y XOR drop_bit 10 y
      in sha_extend n ((s1 + ws ! 6 + s0 + ws ! 15) # ws))"

definition sha_round :: "32 word list \<Rightarrow> 32 word \<times> 32 word \<Rightarrow> 32 word list" where
  "sha_round v kw =
     (let a = v ! 0; b = v ! 1; c = v ! 2; d = v ! 3; e = v ! 4; f = v ! 5; g = v ! 6; h = v ! 7;
          s1 = word_rotr 6 e XOR word_rotr 11 e XOR word_rotr 25 e;
          ch = (e AND f) XOR (NOT e AND g);
          t1 = h + s1 + ch + fst kw + snd kw;
          s0 = word_rotr 2 a XOR word_rotr 13 a XOR word_rotr 22 a;
          maj = (a AND b) XOR (a AND c) XOR (b AND c);
          t2 = s0 + maj
      in [t1 + t2, a, b, c, d + t1, e, f, g])"

definition sha_block :: "32 word list \<Rightarrow> 32 word list \<Rightarrow> 32 word list" where
  "sha_block hs ws =
     map2 (+) hs (foldl sha_round hs (zip sha_K (rev (sha_extend 48 (rev ws)))))"

definition sha_byte :: "char \<Rightarrow> 32 word" where
  "sha_byte c = word_of_int (of_char c)"

fun sha_words :: "32 word list \<Rightarrow> 32 word list" where
  "sha_words (a # b # c # d # bs) = (push_bit 24 a OR push_bit 16 b OR push_bit 8 c OR d) # sha_words bs"
| "sha_words _ = []"

text \<open>Padding: a one bit, zeros up to 56 modulo 64 bytes, and the bit length in eight bytes.\<close>

definition sha_pad :: "string \<Rightarrow> 32 word list" where
  "sha_pad s =
     (let n = length s in
      map sha_byte s @ [0x80] @ replicate ((119 - n mod 64) mod 64) 0 @
      map (\<lambda>i. word_of_int (int (8 * n) div 256 ^ i mod 256)) (rev [0..<8]))"

function sha_blocks :: "32 word list \<Rightarrow> 32 word list \<Rightarrow> 32 word list" where
  "sha_blocks hs ws = (if ws = [] then hs else sha_blocks (sha_block hs (take 16 ws)) (drop 16 ws))"
  by pat_completeness auto
termination by (relation "measure (\<lambda>(_, ws). length ws)") auto

declare sha_blocks.simps [simp del]

definition sha256_Sum256 :: "string \<Rightarrow> 32 word list" where
  "sha256_Sum256 s = sha_blocks sha_H0 (sha_words (sha_pad s))"

text \<open>The hexadecimal form of the 32 bytes of a digest.\<close>

definition hex_word :: "32 word \<Rightarrow> string" where
  "hex_word w = map (\<lambda>i. hex_char (uint w div 16 ^ i mod 16)) (rev [0..<8])"

definition hex_EncodeToString :: "32 word list \<Rightarrow> string" where
  "hex_EncodeToString ws = concat (map hex_word ws)"

section \<open>The length of a digest\<close>

lemma length_sha_round: "length (sha_round v kw) = 8"
  by (simp add: sha_round_def Let_def)

lemma length_sha_rounds: "length v = 8 \<Longrightarrow> length (foldl sha_round v kws) = 8"
  by (induction kws arbitrary: v) (simp_all add: length_sha_round)

lemma length_sha_block: "length hs = 8 \<Longrightarrow> length (sha_block hs ws) = 8"
  by (simp add: sha_block_def length_sha_rounds)

lemma length_sha_blocks: "length hs = 8 \<Longrightarrow> length (sha_blocks hs ws) = 8"
proof (induction hs ws rule: sha_blocks.induct)
  case (1 hs ws)
  then show ?case by (simp add: sha_blocks.simps[of hs ws] length_sha_block)
qed

lemma length_digest: "length (hex_EncodeToString (sha256_Sum256 s)) = 64"
proof -
  have "length (sha256_Sum256 s) = 8" by (simp add: sha256_Sum256_def sha_H0_def length_sha_blocks)
  moreover have "length (hex_word w) = 8" for w by (simp add: hex_word_def)
  then have "length (hex_EncodeToString ws) = 8 * length ws" for ws
    by (induction ws) (simp_all add: hex_EncodeToString_def)
  ultimately show ?thesis by simp
qed

end
