(* ===== verification/ReconcileModel.thy ===== *)
theory ReconcileModel
  imports PolicyOps Sha256
begin

text \<open>
  \<open>internal/blocknode/shaper\<close>: the worker behind \<open>block node reconcile-shaper\<close>, which derives the
  membership of the policy sets and the listener ports from the statusz endpoints of the block node
  and writes the sets that differ (\<open>policy_map.go\<close>, \<open>reconciler.go\<close>, \<open>statusz_client.go\<close>).

  A Go map is an association list in the order in which the loop over it visits the keys; what is
  proved holds for every order of the same entries where the code may visit them in any order.
  HTTP, URL joining and JSON decoding are the fields of \<open>http_env\<close>.
\<close>

section \<open>The statusz payload\<close>

record endpoint =
  ep_Address :: string
  ep_Port :: string

record network_connection =
  nc_Local :: endpoint
  nc_Remote :: endpoint
  nc_Category :: string
  nc_TLSRequired :: bool

record network_data =
  nd_ActiveEndpoints :: "network_connection list"

datatype http_outcome = NoResponse | Response int string

record http_env =
  h_JoinPath :: "string \<Rightarrow> string \<Rightarrow> string option"
  h_NewRequest :: "string \<Rightarrow> bool"
  h_Do :: "string \<Rightarrow> http_outcome"
  h_Decode :: "string \<Rightarrow> network_data option"

definition statusz_fetch :: "http_env \<Rightarrow> string \<Rightarrow> string \<Rightarrow> network_data result" where
  "statusz_fetch H baseURL path = (case h_JoinPath H baseURL path of
     None \<Rightarrow> Inl (Err IllegalArgument ''build statusz URL'')
   | Some url \<Rightarrow>
       if \<not> h_NewRequest H url then Inl (Err InternalError ''build statusz request'')
       else (case h_Do H url of
         NoResponse \<Rightarrow> Inl (Err ExternalError ''fetch statusz'')
       | Response status body \<Rightarrow>
           if status \<noteq> 200 then Inl (Err ExternalError ''statusz returned status'')
           else (case h_Decode H body of
             None \<Rightarrow> Inl (Err IllegalFormat ''decode statusz response'')
           | Some d \<Rightarrow> Inr d)))"

definition InboundClients :: "http_env \<Rightarrow> string \<Rightarrow> network_data result" where
  "InboundClients H baseURL = statusz_fetch H baseURL ''statusz/inbound''"

definition OutboundClients :: "http_env \<Rightarrow> string \<Rightarrow> network_data result" where
  "OutboundClients H baseURL = statusz_fetch H baseURL ''statusz/outbound''"

text \<open>The interface \<open>endpointFetcher\<close> and its production instance.\<close>

record fetcher =
  f_Inbound :: "network_data result"
  f_Outbound :: "network_data result"

definition statusz_fetcher :: "http_env \<Rightarrow> string \<Rightarrow> fetcher" where
  "statusz_fetcher H baseURL = \<lparr>f_Inbound = InboundClients H baseURL, f_Outbound = OutboundClients H baseURL\<rparr>"

section \<open>Categories and bindings\<close>

definition CategoryPublisher :: string where "CategoryPublisher = ''publisher''"
definition CategoryPartner :: string where "CategoryPartner = ''partner''"
definition CategoryRestricted :: string where "CategoryRestricted = ''restricted''"
definition CategoryPublic :: string where "CategoryPublic = ''public''"

datatype stat_direction = Inbound | Outbound

instantiation stat_direction :: linorder
begin

definition less_eq_stat_direction :: "stat_direction \<Rightarrow> stat_direction \<Rightarrow> bool" where
  "less_eq_stat_direction a b \<longleftrightarrow> a = Inbound \<or> b = Outbound"

definition less_stat_direction :: "stat_direction \<Rightarrow> stat_direction \<Rightarrow> bool" where
  "less_stat_direction a b \<longleftrightarrow> a = Inbound \<and> b = Outbound"

instance
proof
  fix x y z :: stat_direction
  show "(x < y) = (x \<le> y \<and> \<not> y \<le> x)" "x \<le> x" "x \<le> y \<Longrightarrow> y \<le> z \<Longrightarrow> x \<le> z"
    "x \<le> y \<Longrightarrow> y \<le> x \<Longrightarrow> x = y" "x \<le> y \<or> y \<le> x"
    by (cases x; cases y; cases z; simp add: less_eq_stat_direction_def less_stat_direction_def)+
qed

end

record bindingKey =
  bk_dir :: stat_direction
  bk_cat :: string

record categoryBinding =
  cb_policyName :: string
  cb_compound :: bool

definition categoryBindings :: "(bindingKey \<times> categoryBinding) list" where
  "categoryBindings =
     [(\<lparr>bk_dir = Inbound, bk_cat = CategoryPublisher\<rparr>, \<lparr>cb_policyName = ''bn-publisher'', cb_compound = False\<rparr>),
      (\<lparr>bk_dir = Inbound, bk_cat = CategoryPartner\<rparr>, \<lparr>cb_policyName = ''bn-partner-out'', cb_compound = False\<rparr>),
      (\<lparr>bk_dir = Inbound, bk_cat = CategoryRestricted\<rparr>, \<lparr>cb_policyName = ''bn-restricted'', cb_compound = False\<rparr>),
      (\<lparr>bk_dir = Outbound, bk_cat = CategoryPartner\<rparr>, \<lparr>cb_policyName = ''bn-backfill'', cb_compound = True\<rparr>)]"

definition portBindings :: "(string \<times> string list) list" where
  "portBindings =
     [(CategoryPublisher, [''bn-publisher'']),
      (CategoryPartner, [''bn-partner-out'']),
      (CategoryPublic, [''bn-subscriber-in'', ''bn-public-out''])]"

definition managedPortsPolicyNames :: "string list" where
  "managedPortsPolicyNames = sort_by (<) (dedupe_key id [] (concat (map snd portBindings)))"

type_synonym categoryEndpoints = "(bindingKey \<times> string list) list"
type_synonym setMap = "(string \<times> string list) list"
type_synonym elementLister = "string \<Rightarrow> string list result"

record policyDelta =
  pd_Policy :: string
  pd_SetDelta :: set_delta

section \<open>Differences\<close>

fun portDeltas_loop :: "elementLister \<Rightarrow> setMap \<Rightarrow> string list \<Rightarrow> policyDelta list result" where
  "portDeltas_loop lister desired [] = Inr []"
| "portDeltas_loop lister desired (name # names) =
     rbind (map_err (decorate ''read live listener ports'') (lister (PortsSetName name))) (\<lambda>live.
     let delta = DiffElements (at_key desired name) live in
     rbind (portDeltas_loop lister desired names) (\<lambda>ds.
     Inr (if SetDelta_Empty delta then ds else \<lparr>pd_Policy = name, pd_SetDelta = delta\<rparr> # ds)))"

definition computePortDeltas :: "elementLister \<Rightarrow> setMap \<Rightarrow> policyDelta list result" where
  "computePortDeltas lister desired = portDeltas_loop lister desired (sort_by (<) (map fst desired))"

definition desiredElements :: "categoryBinding \<Rightarrow> string list \<Rightarrow> string list result" where
  "desiredElements b endpoints =
     (if \<not> cb_compound b then Inr (PruneContainedCIDRs endpoints)
      else rmap (\<lambda>e. map_err (decorate ''policy endpoint'') (CompoundElement e)) endpoints)"

definition key_less :: "bindingKey \<Rightarrow> bindingKey \<Rightarrow> bool" where
  "key_less i j \<longleftrightarrow> (if bk_dir i \<noteq> bk_dir j then bk_dir i < bk_dir j else bk_cat i < bk_cat j)"

definition sortedKeys :: "categoryEndpoints \<Rightarrow> bindingKey list" where
  "sortedKeys ce = sort_by key_less (map fst ce)"

definition endpoints_at :: "categoryEndpoints \<Rightarrow> bindingKey \<Rightarrow> string list" where
  "endpoints_at ce k = (case map_of ce k of None \<Rightarrow> [] | Some es \<Rightarrow> es)"

fun policyDeltas_loop :: "elementLister \<Rightarrow> categoryEndpoints \<Rightarrow> bindingKey list \<Rightarrow> policyDelta list result" where
  "policyDeltas_loop lister ce [] = Inr []"
| "policyDeltas_loop lister ce (k # ks) = (case map_of categoryBindings k of
     None \<Rightarrow> policyDeltas_loop lister ce ks
   | Some b \<Rightarrow>
       rbind (desiredElements b (endpoints_at ce k)) (\<lambda>desired.
       rbind (map_err (decorate ''read live membership'') (lister (cb_policyName b))) (\<lambda>live.
       rbind (map_err (decorate ''read live IPv6 membership'') (lister (V6SetName (cb_policyName b)))) (\<lambda>live6.
       let delta = DiffElements desired (live @ live6) in
       rbind (policyDeltas_loop lister ce ks) (\<lambda>ds.
       Inr (if SetDelta_Empty delta then ds else \<lparr>pd_Policy = cb_policyName b, pd_SetDelta = delta\<rparr> # ds))))))"

definition computePolicyDeltas :: "elementLister \<Rightarrow> categoryEndpoints \<Rightarrow> policyDelta list result" where
  "computePolicyDeltas lister ce =
     rbind (policyDeltas_loop lister ce (sortedKeys ce)) (\<lambda>ds.
     Inr (sort_by (\<lambda>x y. pd_Policy x < pd_Policy y) ds))"

fun canonicalDesired :: "setMap \<Rightarrow> categoryEndpoints \<Rightarrow> setMap result" where
  "canonicalDesired m [] = Inr m"
| "canonicalDesired m ((k, endpoints) # ce) = (case map_of categoryBindings k of
     None \<Rightarrow> canonicalDesired m ce
   | Some b \<Rightarrow> rbind (desiredElements b endpoints) (\<lambda>elems.
       canonicalDesired (al_put (cb_policyName b) (CanonicalizeElements elems) m) ce))"

definition canonicalDesiredMembership :: "categoryEndpoints \<Rightarrow> setMap result" where
  "canonicalDesiredMembership ce = canonicalDesired [] ce"

section \<open>From statusz to desired sets\<close>

definition hostCIDR :: "string \<Rightarrow> string" where
  "hostCIDR addr =
     (if strings_Contains addr ''/'' then addr
      else case netip_ParseAddr addr of
        None \<Rightarrow> addr
      | Some a \<Rightarrow> if addr_Is4 a then addr @ ''/32'' else if addr_Is6 a then addr @ ''/128'' else addr)"

definition bucketize_step :: "stat_direction \<Rightarrow> categoryEndpoints \<Rightarrow> network_connection \<Rightarrow> categoryEndpoints" where
  "bucketize_step dir ce conn =
     (let k = \<lparr>bk_dir = dir, bk_cat = nc_Category conn\<rparr> in
      case map_of categoryBindings k of
        None \<Rightarrow> ce
      | Some b \<Rightarrow>
          if \<not> cb_compound b then al_put k (endpoints_at ce k @ [hostCIDR (ep_Address (nc_Remote conn))]) ce
          else if ep_Port (nc_Remote conn) = [] \<or> ep_Port (nc_Remote conn) = ''*'' then ce
          else al_put k (endpoints_at ce k @ [net_JoinHostPort (ep_Address (nc_Remote conn)) (ep_Port (nc_Remote conn))]) ce)"

definition bucketize :: "categoryEndpoints \<Rightarrow> stat_direction \<Rightarrow> network_data \<Rightarrow> categoryEndpoints" where
  "bucketize ce dir data = foldl (bucketize_step dir) ce (nd_ActiveEndpoints data)"

definition bucketizeEndpoints :: "network_data \<Rightarrow> network_data \<Rightarrow> categoryEndpoints" where
  "bucketizeEndpoints inbound outbound =
     bucketize (bucketize (map (\<lambda>kb. (fst kb, [])) categoryBindings) Inbound inbound) Outbound outbound"

fun desiredMembership :: "setMap \<Rightarrow> categoryEndpoints \<Rightarrow> setMap" where
  "desiredMembership m [] = m"
| "desiredMembership m ((k, endpoints) # ce) = (case map_of categoryBindings k of
     None \<Rightarrow> desiredMembership m ce
   | Some b \<Rightarrow> desiredMembership (al_put (cb_policyName b) endpoints m) ce)"

text \<open>\<open>sortedUnique\<close>: sort, then drop each element that equals its predecessor.\<close>

fun drop_repeats :: "string option \<Rightarrow> string list \<Rightarrow> string list" where
  "drop_repeats prev [] = []"
| "drop_repeats prev (s # ss) = (if prev = Some s then drop_repeats (Some s) ss else s # drop_repeats (Some s) ss)"

definition sortedUnique :: "string list \<Rightarrow> string list" where
  "sortedUnique xs = drop_repeats None (sort_by (<) xs)"

text \<open>The ports of each policy as the code collects them: a map of sets, seeded with every policy.\<close>

definition seed_ports :: "setMap" where
  "seed_ports = map (\<lambda>n. (n, [])) (dedupe_key id [] (concat (map snd portBindings)))"

definition add_port :: "string \<Rightarrow> setMap \<Rightarrow> string \<Rightarrow> setMap" where
  "add_port port m name = al_put name (List.insert port (at_key m name)) m"

definition port_step :: "setMap \<Rightarrow> network_connection \<Rightarrow> setMap" where
  "port_step m conn = (case map_of portBindings (nc_Category conn) of
     None \<Rightarrow> m
   | Some names \<Rightarrow>
       (let port = ep_Port (nc_Local conn) in
        if port = [] \<or> port = ''*'' then m else foldl (add_port port) m names))"

definition desiredPorts :: "network_data \<Rightarrow> setMap" where
  "desiredPorts inbound =
     map (\<lambda>(name, ports). (name, sortedUnique ports)) (foldl port_step seed_ports (nd_ActiveEndpoints inbound))"

definition combinedCanonical :: "setMap \<Rightarrow> setMap \<Rightarrow> setMap" where
  "combinedCanonical canon portsDesired =
     foldl (\<lambda>m np. al_put (PortsSetName (fst np)) (CanonicalizeElements (snd np)) m)
       (foldl (\<lambda>m ne. al_put (fst ne) (snd ne) m) [] canon) portsDesired"

definition serializeMembership :: "setMap \<Rightarrow> string" where
  "serializeMembership m =
     concat (map (\<lambda>name. name @ [nl] @ strings_Join '','' (sortedUnique (at_key m name)) @ [nl])
       (sort_by (<) (map fst m)))"

definition membershipDigest :: "setMap \<Rightarrow> string" where
  "membershipDigest m = hex_EncodeToString (sha256_Sum256 (serializeMembership m))"

definition ownedPolicyNames :: "string list" where
  "ownedPolicyNames = sort_by (<) (map (\<lambda>kb. cb_policyName (snd kb)) categoryBindings)"

definition ownedSetNames :: "string list" where
  "ownedSetNames = sort_by (<) (ownedPolicyNames @ map PortsSetName managedPortsPolicyNames)"

definition unchangedSetNames :: "string list \<Rightarrow> string list" where
  "unchangedSetNames changed = filter (\<lambda>name. name \<notin> set changed) ownedSetNames"

section \<open>Check and Apply\<close>

record apply_result =
  res_Applied :: "string list"
  res_Skipped :: "string list"
  res_Unchanged :: "string list"
  res_Digest :: string

record check_result =
  cr_Digest :: string
  cr_Desired :: setMap
  cr_DesiredPorts :: setMap

definition fetchEndpoints :: "fetcher \<Rightarrow> (categoryEndpoints \<times> network_data) result" where
  "fetchEndpoints F =
     rbind (f_Inbound F) (\<lambda>inbound.
     rbind (f_Outbound F) (\<lambda>outbound.
     Inr (bucketizeEndpoints inbound outbound, inbound)))"

definition Check :: "fetcher \<Rightarrow> check_result result" where
  "Check F =
     rbind (fetchEndpoints F) (\<lambda>(ce, inbound).
     rbind (canonicalDesiredMembership ce) (\<lambda>canon.
     let portsDesired = desiredPorts inbound in
     Inr \<lparr>cr_Digest = membershipDigest (combinedCanonical canon portsDesired),
          cr_Desired = canon, cr_DesiredPorts = portsDesired\<rparr>))"

text \<open>The batch and the report: what is rewritten, and under which names it is reported.\<close>

definition changed_batch :: "setMap \<Rightarrow> policyDelta list \<Rightarrow> setMap" where
  "changed_batch desired deltas = foldl (\<lambda>m d. al_put (pd_Policy d) (at_key desired (pd_Policy d)) m) [] deltas"

definition changed_names :: "policyDelta list \<Rightarrow> policyDelta list \<Rightarrow> string list" where
  "changed_names memDeltas portDeltas =
     sort_by (<) (map pd_Policy memDeltas @ map (\<lambda>d. PortsSetName (pd_Policy d)) portDeltas)"

definition Apply :: "fetcher \<Rightarrow> 'k runner \<Rightarrow> pm_env \<Rightarrow> ('k, apply_result) pm_action" where
  "Apply F R env =
     sbind (slift (fetchEndpoints F)) (\<lambda>(ce, inbound).
     sbind (slift (canonicalDesiredMembership ce)) (\<lambda>canon.
     let desired = desiredMembership [] ce;
         portsDesired = desiredPorts inbound;
         digest = membershipDigest (combinedCanonical canon portsDesired)
     in
     sbind (sread (\<lambda>s. computePolicyDeltas (\<lambda>n. r_ListElements R n (pm_kernel s)) ce)) (\<lambda>memDeltas.
     sbind (sread (\<lambda>s. computePortDeltas (\<lambda>n. r_ListElements R n (pm_kernel s)) portsDesired)) (\<lambda>portDeltas.
     let changed = changed_names memDeltas portDeltas;
         res = \<lparr>res_Applied = [], res_Skipped = [], res_Unchanged = unchangedSetNames changed, res_Digest = digest\<rparr>
     in
     sbind (smap_err (wrap ExternalError ''apply reconciled traffic-shaper sets'')
             (ApplySets R env (changed_batch desired memDeltas) (changed_batch portsDesired portDeltas))) (\<lambda>applied.
     sret (if applied then res\<lparr>res_Applied := changed\<rparr> else res\<lparr>res_Skipped := changed\<rparr>))))))"

end
