(* ===== verification/ReconcileOps.thy ===== *)
theory ReconcileOps
  imports ReconcileModel
begin

text \<open>
  What a reconcile tick does: the desired sets as a function of the statusz payload, the partition of
  the owned sets in the report, the digest, and that an applied tick converges.
\<close>

section \<open>The desired sets in closed form\<close>

definition plain_members :: "string \<Rightarrow> network_data \<Rightarrow> string list" where
  "plain_members cat data =
     map (\<lambda>c. hostCIDR (ep_Address (nc_Remote c))) (filter (\<lambda>c. nc_Category c = cat) (nd_ActiveEndpoints data))"

definition wildcard_port :: "string \<Rightarrow> bool" where
  "wildcard_port p \<longleftrightarrow> p = [] \<or> p = ''*''"

definition compound_members :: "string \<Rightarrow> network_data \<Rightarrow> string list" where
  "compound_members cat data =
     map (\<lambda>c. net_JoinHostPort (ep_Address (nc_Remote c)) (ep_Port (nc_Remote c)))
       (filter (\<lambda>c. nc_Category c = cat \<and> \<not> wildcard_port (ep_Port (nc_Remote c))) (nd_ActiveEndpoints data))"

definition listener_ports :: "string \<Rightarrow> network_data \<Rightarrow> string set" where
  "listener_ports cat data =
     {p. \<exists>c \<in> set (nd_ActiveEndpoints data). nc_Category c = cat \<and> p = ep_Port (nc_Local c) \<and> \<not> wildcard_port p}"

abbreviation "k_publisher \<equiv> \<lparr>bk_dir = Inbound, bk_cat = ''publisher''\<rparr>"
abbreviation "k_partner \<equiv> \<lparr>bk_dir = Inbound, bk_cat = ''partner''\<rparr>"
abbreviation "k_restricted \<equiv> \<lparr>bk_dir = Inbound, bk_cat = ''restricted''\<rparr>"
abbreviation "k_backfill \<equiv> \<lparr>bk_dir = Outbound, bk_cat = ''partner''\<rparr>"

lemmas category_defs = CategoryPublisher_def CategoryPartner_def CategoryRestricted_def CategoryPublic_def

lemma bindings_map:
  "map_of categoryBindings k =
     (if k = k_publisher then Some \<lparr>cb_policyName = ''bn-publisher'', cb_compound = False\<rparr>
      else if k = k_partner then Some \<lparr>cb_policyName = ''bn-partner-out'', cb_compound = False\<rparr>
      else if k = k_restricted then Some \<lparr>cb_policyName = ''bn-restricted'', cb_compound = False\<rparr>
      else if k = k_backfill then Some \<lparr>cb_policyName = ''bn-backfill'', cb_compound = True\<rparr>
      else None)"
  by (simp add: categoryBindings_def category_defs)

definition ce_view :: "string list \<Rightarrow> string list \<Rightarrow> string list \<Rightarrow> string list \<Rightarrow> categoryEndpoints" where
  "ce_view pub part restr back =
     [(k_publisher, pub), (k_partner, part), (k_restricted, restr), (k_backfill, back)]"

lemma bucketize_inbound:
  "foldl (bucketize_step Inbound) (ce_view a b c d) cs =
     ce_view (a @ map (\<lambda>c. hostCIDR (ep_Address (nc_Remote c))) (filter (\<lambda>c. nc_Category c = ''publisher'') cs))
       (b @ map (\<lambda>c. hostCIDR (ep_Address (nc_Remote c))) (filter (\<lambda>c. nc_Category c = ''partner'') cs))
       (c @ map (\<lambda>c. hostCIDR (ep_Address (nc_Remote c))) (filter (\<lambda>c. nc_Category c = ''restricted'') cs)) d"
proof (induction cs arbitrary: a b c d)
  case (Cons x cs)
  have "bucketize_step Inbound (ce_view a b c d) x =
    ce_view (a @ (if nc_Category x = ''publisher'' then [hostCIDR (ep_Address (nc_Remote x))] else []))
      (b @ (if nc_Category x = ''partner'' then [hostCIDR (ep_Address (nc_Remote x))] else []))
      (c @ (if nc_Category x = ''restricted'' then [hostCIDR (ep_Address (nc_Remote x))] else [])) d"
    by (simp add: bucketize_step_def bindings_map ce_view_def endpoints_at_def)
  then show ?case by (simp add: Cons.IH)
qed simp

lemma bucketize_outbound:
  "foldl (bucketize_step Outbound) (ce_view a b c d) cs =
     ce_view a b c (d @ map (\<lambda>c. net_JoinHostPort (ep_Address (nc_Remote c)) (ep_Port (nc_Remote c)))
       (filter (\<lambda>c. nc_Category c = ''partner'' \<and> \<not> wildcard_port (ep_Port (nc_Remote c))) cs))"
proof (induction cs arbitrary: d)
  case (Cons x cs)
  have "bucketize_step Outbound (ce_view a b c d) x =
    ce_view a b c (d @ (if nc_Category x = ''partner'' \<and> \<not> wildcard_port (ep_Port (nc_Remote x))
      then [net_JoinHostPort (ep_Address (nc_Remote x)) (ep_Port (nc_Remote x))] else []))"
    by (simp add: bucketize_step_def bindings_map ce_view_def endpoints_at_def wildcard_port_def)
  then show ?case by (simp add: Cons.IH)
qed simp

lemma bucketizeEndpoints_view:
  "bucketizeEndpoints inb outb =
     ce_view (plain_members ''publisher'' inb) (plain_members ''partner'' inb) (plain_members ''restricted'' inb)
       (compound_members ''partner'' outb)"
proof -
  have "map (\<lambda>kb. (fst kb, [])) categoryBindings = ce_view [] [] [] []"
    by (simp add: categoryBindings_def category_defs ce_view_def)
  then show ?thesis
    by (simp add: bucketizeEndpoints_def bucketize_def bucketize_inbound bucketize_outbound plain_members_def compound_members_def)
qed

lemma desiredMembership_view:
  "desiredMembership [] (ce_view a b c d) =
     [(''bn-publisher'', a), (''bn-partner-out'', b), (''bn-restricted'', c), (''bn-backfill'', d)]"
  by (simp add: ce_view_def bindings_map)

lemma sortedKeys_view: "sortedKeys (ce_view a b c d) = [k_partner, k_publisher, k_restricted, k_backfill]"
  by (simp add: sortedKeys_def ce_view_def key_less_def less_stat_direction_def) 

section \<open>Sorting without repetition\<close>

lemma drop_repeats_set:
  "sorted_by (<) xs \<Longrightarrow> (\<forall>x \<in> set xs. case prev of None \<Rightarrow> True | Some p \<Rightarrow> p \<le> x) \<Longrightarrow>
   set (drop_repeats prev xs) = set xs - (case prev of None \<Rightarrow> {} | Some p \<Rightarrow> {p}) \<and>
   sorted_wrt (<) (drop_repeats prev xs)"
proof (induction prev xs rule: drop_repeats.induct)
  case (2 prev s ss)
  have le: "\<forall>x \<in> set ss. s \<le> x" using 2(3) by (simp add: not_less)
  show ?case
  proof (cases "prev = Some s")
    case True
    then show ?thesis using 2(1)[OF True] 2(3) le by auto
  next
    case False
    then have "set (drop_repeats (Some s) ss) = set ss - {s}" "sorted_wrt (<) (drop_repeats (Some s) ss)"
      using 2(2)[OF False] 2(3) le by auto
    then show ?thesis using False 2(4) le by (auto split: option.splits intro: le_neq_trans)
  qed
qed simp

lemma sortedUnique_set [simp]: "set (sortedUnique xs) = set xs"
  and sortedUnique_strict: "sorted_wrt (<) (sortedUnique xs)"
  using drop_repeats_set[of "sort_by (<) xs" None] string_less.sorted_sort_by[of xs]
  by (simp_all add: sortedUnique_def)

lemma strict_sorted_unique:
  "sorted_wrt (<) xs \<Longrightarrow> sorted_wrt (<) ys \<Longrightarrow> set xs = set ys \<Longrightarrow> xs = (ys :: string list)"
  by (metis strict_sorted_equal)

lemma sortedUnique_cong: "set xs = set ys \<Longrightarrow> sortedUnique xs = sortedUnique ys"
  by (rule strict_sorted_unique) (simp_all add: sortedUnique_strict)


lemma sortedUnique_list_of_set: "sortedUnique xs = sorted_list_of_set (set xs)"
  by (rule strict_sorted_unique) (simp_all add: sortedUnique_strict)

section \<open>The desired ports in closed form\<close>

definition ports_view :: "string list \<Rightarrow> string list \<Rightarrow> string list \<Rightarrow> string list \<Rightarrow> setMap" where
  "ports_view pub part sub public =
     [(''bn-publisher'', pub), (''bn-partner-out'', part), (''bn-subscriber-in'', sub), (''bn-public-out'', public)]"

lemma port_bindings_map:
  "map_of portBindings c =
     (if c = ''publisher'' then Some [''bn-publisher''] else if c = ''partner'' then Some [''bn-partner-out'']
      else if c = ''public'' then Some [''bn-subscriber-in'', ''bn-public-out''] else None)"
  by (simp add: portBindings_def category_defs)

lemma seed_ports_view: "seed_ports = ports_view [] [] [] []"
  by (simp add: seed_ports_def portBindings_def ports_view_def)

lemma port_step_view:
  "port_step (ports_view a b c d) x =
     (let p = ep_Port (nc_Local x); on = (\<lambda>cat xs. if nc_Category x = cat \<and> \<not> wildcard_port p then List.insert p xs else xs) in
      ports_view (on ''publisher'' a) (on ''partner'' b) (on ''public'' c) (on ''public'' d))"
  by (simp add: port_step_def port_bindings_map wildcard_port_def Let_def add_port_def ports_view_def at_key_def)

lemma foldl_port_step:
  "\<exists>a' b' c' d'. foldl port_step (ports_view a b c d) cs = ports_view a' b' c' d' \<and>
     set a' = set a \<union> listener_ports ''publisher'' \<lparr>nd_ActiveEndpoints = cs\<rparr> \<and>
     set b' = set b \<union> listener_ports ''partner'' \<lparr>nd_ActiveEndpoints = cs\<rparr> \<and>
     set c' = set c \<union> listener_ports ''public'' \<lparr>nd_ActiveEndpoints = cs\<rparr> \<and>
     set d' = set d \<union> listener_ports ''public'' \<lparr>nd_ActiveEndpoints = cs\<rparr>"
proof (induction cs arbitrary: a b c d)
  case (Cons x cs)
  let ?p = "ep_Port (nc_Local x)"
  let ?on = "\<lambda>cat xs. if nc_Category x = cat \<and> \<not> wildcard_port ?p then List.insert ?p xs else xs"
  have lp: "listener_ports cat \<lparr>nd_ActiveEndpoints = x # cs\<rparr> =
     (if nc_Category x = cat \<and> \<not> wildcard_port ?p then {?p} else {}) \<union> listener_ports cat \<lparr>nd_ActiveEndpoints = cs\<rparr>" for cat
    by (auto simp: listener_ports_def)
  have on: "set (?on cat xs) = set xs \<union> (if nc_Category x = cat \<and> \<not> wildcard_port ?p then {?p} else {})" for cat xs
    by simp
  from Cons.IH[of "?on ''publisher'' a" "?on ''partner'' b" "?on ''public'' c" "?on ''public'' d"]
  show ?case unfolding lp on Un_assoc by (simp add: port_step_view Let_def)
qed (simp add: listener_ports_def, blast)

lemma desiredPorts_view:
  "desiredPorts inb =
     (let l = (\<lambda>cat. sorted_list_of_set (listener_ports cat inb)) in
      ports_view (l ''publisher'') (l ''partner'') (l ''public'') (l ''public''))"
proof -
  obtain cs where inb: "inb = \<lparr>nd_ActiveEndpoints = cs\<rparr>" by (cases inb) auto
  from foldl_port_step[of "[]" "[]" "[]" "[]" cs] show ?thesis
    by (auto simp: desiredPorts_def seed_ports_view inb ports_view_def sortedUnique_list_of_set)
qed

lemma finite_listener_ports [simp]: "finite (listener_ports cat inb)"
proof -
  have "listener_ports cat inb \<subseteq> (\<lambda>c. ep_Port (nc_Local c)) ` set (nd_ActiveEndpoints inb)" by (auto simp: listener_ports_def)
  then show ?thesis by (rule finite_subset) simp
qed

section \<open>Differences of whole sets\<close>

abbreviation canon :: "string list \<Rightarrow> string set" where
  "canon es \<equiv> (\<lambda>t. ek_canon (parseElement t)) ` set es"

lemma Diff_Empty: "SetDelta_Empty (DiffElements desired live) \<longleftrightarrow> canon desired = canon live"
  by (auto simp: SetDelta_Empty_def DiffElements_def Let_def set_Canonicalize filter_empty_conv)

text \<open>The live elements of a policy, both families.\<close>

definition live_of :: "elementLister \<Rightarrow> string \<Rightarrow> string list result" where
  "live_of L name = rbind (L name) (\<lambda>live. rbind (L (V6SetName name)) (\<lambda>live6. Inr (live @ live6)))"

definition mem_in_sync :: "elementLister \<Rightarrow> categoryBinding \<Rightarrow> string list \<Rightarrow> bool" where
  "mem_in_sync L b es \<longleftrightarrow> (\<exists>desired live. desiredElements b es = Inr desired \<and>
     live_of L (cb_policyName b) = Inr live \<and> canon desired = canon live)"

definition ports_in_sync :: "elementLister \<Rightarrow> string \<Rightarrow> string list \<Rightarrow> bool" where
  "ports_in_sync L name ports \<longleftrightarrow> (\<exists>live. L (PortsSetName name) = Inr live \<and> canon ports = canon live)"

lemma policyDeltas_loop_Inr:
  assumes "policyDeltas_loop L ce ks = Inr ds"
  shows "map pd_Policy ds = map (\<lambda>k. cb_policyName (the (map_of categoryBindings k)))
      (filter (\<lambda>k. \<exists>b. map_of categoryBindings k = Some b \<and> \<not> mem_in_sync L b (endpoints_at ce k)) ks)"
  using assms
proof (induction ks arbitrary: ds)
  case (Cons k ks)
  show ?case
  proof (cases "map_of categoryBindings k")
    case None
    with Cons show ?thesis by simp
  next
    case (Some b)
    from Cons.prems Some obtain desired live live6 ds' where
      parts: "desiredElements b (endpoints_at ce k) = Inr desired" "L (cb_policyName b) = Inr live"
        "L (V6SetName (cb_policyName b)) = Inr live6" "policyDeltas_loop L ce ks = Inr ds'"
      and ds: "ds = (if SetDelta_Empty (DiffElements desired (live @ live6)) then ds'
        else \<lparr>pd_Policy = cb_policyName b, pd_SetDelta = DiffElements desired (live @ live6)\<rparr> # ds')"
      by (auto simp: rbind_Inr_iff Let_def)
    have "SetDelta_Empty (DiffElements desired (live @ live6)) \<longleftrightarrow> mem_in_sync L b (endpoints_at ce k)"
      unfolding Diff_Empty mem_in_sync_def live_of_def parts by simp
    then show ?thesis using Cons.IH[OF parts(4)] Some ds by simp
  qed
qed simp

lemma portDeltas_loop_Inr:
  "portDeltas_loop L desired ns = Inr ds \<Longrightarrow> map pd_Policy ds = filter (\<lambda>n. \<not> ports_in_sync L n (at_key desired n)) ns"
proof (induction ns arbitrary: ds)
  case (Cons n ns)
  then obtain live ds' where "L (PortsSetName n) = Inr live" "portDeltas_loop L desired ns = Inr ds'"
    and "ds = (if SetDelta_Empty (DiffElements (at_key desired n) live) then ds'
        else \<lparr>pd_Policy = n, pd_SetDelta = DiffElements (at_key desired n) live\<rparr> # ds')"
    by (auto simp: rbind_Inr_iff Let_def)
  moreover from this(1) have "SetDelta_Empty (DiffElements (at_key desired n) live) \<longleftrightarrow> ports_in_sync L n (at_key desired n)"
    unfolding Diff_Empty ports_in_sync_def by simp
  ultimately show ?case using Cons.IH by simp
qed simp


lemma policyDeltas_synced:
  "(\<And>k b. k \<in> set ks \<Longrightarrow> map_of categoryBindings k = Some b \<Longrightarrow> mem_in_sync L b (endpoints_at ce k)) \<Longrightarrow>
   policyDeltas_loop L ce ks = Inr []"
proof (induction ks)
  case (Cons k ks)
  show ?case
  proof (cases "map_of categoryBindings k")
    case (Some b)
    then obtain desired live live6 where "desiredElements b (endpoints_at ce k) = Inr desired" "L (cb_policyName b) = Inr live"
      "L (V6SetName (cb_policyName b)) = Inr live6" "canon desired = canon (live @ live6)"
      using Cons.prems[of k b] by (auto simp: mem_in_sync_def live_of_def rbind_Inr_iff)
    moreover from this(4) have "SetDelta_Empty (DiffElements desired (live @ live6))" by (simp only: Diff_Empty)
    ultimately show ?thesis using Cons Some by simp
  qed (use Cons in simp)
qed simp

lemma portDeltas_synced:
  "(\<And>n. n \<in> set ns \<Longrightarrow> ports_in_sync L n (at_key desired n)) \<Longrightarrow> portDeltas_loop L desired ns = Inr []"
proof (induction ns)
  case (Cons n ns)
  then obtain live where "L (PortsSetName n) = Inr live" "canon (at_key desired n) = canon live"
    using Cons.prems[OF list.set_intros(1), unfolded ports_in_sync_def] by blast
  moreover from this(2) have "SetDelta_Empty (DiffElements (at_key desired n) live)" by (simp only: Diff_Empty)
  ultimately show ?case using Cons by simp
qed simp

section \<open>Compound endpoints are not prefixes\<close>

lemma SplitHostPort_Some:
  assumes "net_SplitHostPort s = Some (h, p)"
  shows "s = CHR ''['' # h @ '']:'' @ p \<or> s = h @ CHR '':'' # p \<and> CHR '':'' \<notin> set h"
proof -
  from assms obtain before port where cut: "s = before @ CHR '':'' # port" and nocolon: "CHR '':'' \<notin> set port"
    by (auto simp: net_SplitHostPort_def cut_last_byte_Some split: option.splits)
  then have c: "cut_last_byte (CHR '':'') s = Some (before, port)" by (simp add: cut_last_byte_Some)
  show ?thesis
  proof (cases "hd s = CHR ''[''")
    case True
    with assms c obtain a rest where a: "cut_byte (CHR '']'') s = Some (a, rest)" "rest \<noteq> []" "length a + 1 = length before" "h = tl a" "p = port"
      by (auto simp: net_SplitHostPort_def split: option.splits if_splits)
    from a(1) have sa: "s = (a @ [CHR '']'']) @ rest" by (simp add: cut_byte_Some)
    have "before = a @ [CHR '']'']" using sa cut a(3) by (metis append_eq_append_conv length_append_singleton Suc_eq_plus1)
    moreover have "a \<noteq> []" using True sa by (cases a) auto
    moreover have "hd a = CHR ''[''" using True sa \<open>a \<noteq> []\<close> by simp
    ultimately show ?thesis using cut a(4,5) by (cases a) auto
  next
    case False
    with assms c show ?thesis using cut by (auto simp: net_SplitHostPort_def split: if_splits)
  qed
qed

lemma find_append_Some: "find P xs = Some x \<Longrightarrow> find P (xs @ ys) = Some x"
  by (induction xs) (auto split: if_splits)

lemma find_not_None_mem: "find P xs = Some x \<Longrightarrow> x \<in> set xs \<and> P x"
  by (auto simp: find_Some_iff)

lemma ip_port_not_cidr:
  assumes "validateIPPort c = Inr ()"
  shows "cidr_of c = None"
proof -
  from assms obtain host port a where sp: "net_SplitHostPort c = Some (host, port)" and a: "netip_ParseAddr host = Some a" "addr_zone a = []"
    and port: "ValidatePort port = Inr ()"
    by (auto simp: validateIPPort_def net_ParseIP_def split: option.splits if_splits)
  have shape: "c = CHR ''['' # host @ '']:'' @ port \<or> c = host @ CHR '':'' # port \<and> CHR '':'' \<notin> set host"
    by (rule SplitHostPort_Some[OF sp])
  have hchars: "\<And>x. x \<in> set host \<Longrightarrow> is_hex x \<or> x = CHR '':'' \<or> x = CHR ''.''" using ParseAddr_chars[OF a] by blast
  have pchars: "\<And>x. x \<in> set port \<Longrightarrow> is_digit x \<or> x = CHR ''+''" using ValidatePort_chars[OF port] by blast
  have chars: "is_hex x \<or> x \<in> set '':.[]+''" if "x \<in> set c" for x
    using that shape hchars[of x] pchars[of x] hex_digit[of x] by auto
  have "list_all graphic c"
    using chars by (fastforce simp: list_all_iff graphic_def is_hex_def is_digit_def)
  then have trim: "strings_TrimSpace c = c" "splitCompound c = None"
    using TrimSpace_all_graphic graphic_no_compound by blast+
  have no: "CHR ''/'' \<notin> set c" "CHR ''%'' \<notin> set c" using chars[of "CHR ''/''"] chars[of "CHR ''%''"] by (auto simp: is_hex_def is_digit_def)
  have "netip_ParseAddr c = None"
  proof (rule ccontr)
    assume "netip_ParseAddr c \<noteq> None"
    then obtain b where b: "netip_ParseAddr c = Some b" by blast
    from shape show False
    proof (elim disjE conjE)
      assume "c = CHR ''['' # host @ '']:'' @ port"
      then have "CHR ''['' \<in> set c" by simp
      then show False using ParseAddr_chars[OF b ParseAddr_no_zone[OF b no(2)], of "CHR ''[''"] by (auto simp: is_hex_def is_digit_def)
    next
      assume c: "c = host @ CHR '':'' # port" "CHR '':'' \<notin> set host"
      let ?P = "\<lambda>c. c = CHR ''.'' \<or> c = CHR '':'' \<or> c = CHR ''%''"
      obtain x where x: "find ?P host = Some x" using a(1) by (auto simp: netip_ParseAddr_def split: option.splits)
      then have "x \<in> set host" "?P x" using find_not_None_mem by fast+
      then have "x = CHR ''.''" using a(1) x c(2) by (auto simp: netip_ParseAddr_def)
      then have "find ?P c = Some (CHR ''.'')" using find_append_Some[OF x] c(1) by simp
      then have "parse_ipv4 c = Some b" using b by (simp add: netip_ParseAddr_def)
      then have "is_digit (CHR '':'') \<or> CHR '':'' = CHR ''.''"
        using ipv4_loop_chars c(1) by (fastforce simp: parse_ipv4_def parse_ipv4_fields_def)
      then show False by (simp add: is_digit_def)
    qed
  qed
  then have "parseElement c = unparsed c"
    using no(1) by (simp add: parseElement_def trim Contains_byte)
  then show ?thesis by (simp add: cidr_of_def parseCIDRElem_def unparsed_def)
qed

lemma Prune_ip_ports: "\<forall>c \<in> set es. validateIPPort c = Inr () \<Longrightarrow> PruneContainedCIDRs es = es"
  by (auto simp: Prune_eq_filter tok_covers_def ip_port_not_cidr intro!: filter_True split: option.splits)


section \<open>What a successful write leaves in the kernel\<close>

text \<open>
  What the tick relies on from the kernel, for the elements that satisfy \<open>ok\<close>: after a successful
  replacement a set lists the same elements, in any spelling that the canonical form identifies, and
  the other sets list what they listed before. nft has this for elements in its own notation.
\<close>

definition stores_sets :: "'k runner \<Rightarrow> (string \<Rightarrow> bool) \<Rightarrow> bool" where
  "stores_sets R ok \<longleftrightarrow> (\<forall>n es k k'. r_SetElements R n es k = (Inr (), k') \<longrightarrow>
     (list_all ok es \<longrightarrow> (\<exists>ls. r_ListElements R n k' = Inr ls \<and> canon ls = canon es)) \<and>
     (\<forall>m. m \<noteq> n \<longrightarrow> r_ListElements R m k' = r_ListElements R m k))"

abbreviation lists :: "'k runner \<Rightarrow> 'k pm_state \<Rightarrow> elementLister" where
  "lists R s \<equiv> \<lambda>n. r_ListElements R n (pm_kernel s)"

lemma V6SetName_neq [simp]: "V6SetName n \<noteq> n" "n \<noteq> V6SetName n"
  by (simp_all add: V6SetName_def)

lemma elementToken_tok:
  "elementToken p c = Inr t \<Longrightarrow> if isCompoundSet p then CompoundElement c = Inr (fst t) else fst t = c"
  by (cases "net_SplitHostPort c"; cases "netip_ParseAddr (fst (the (net_SplitHostPort c)))")
    (auto simp: elementToken_def rbind_Inr_iff split: if_splits)

lemma family_tokens:
  assumes valid: "validateCIDRs p es = Inr ()" and fam: "setElementsByFamily p (PruneContainedCIDRs es) = (v4, v6)"
    and kind: "isCompoundSet p = cb_compound b"
  shows "\<exists>desired. desiredElements b es = Inr desired \<and> set desired = set v4 \<union> set v6"
proof -
  let ?kept = "PruneContainedCIDRs es"
  have "set ?kept \<subseteq> set es" by (auto simp: Prune_eq_filter)
  then have "validateCIDRs p ?kept = Inr ()" using valid by (auto simp: validateCIDRs_def check_all_Inr)
  from setElementsByFamily_complete[OF this fam] obtain ts where ts: "map Inr ts = map (elementToken p) ?kept"
    and v: "v4 = map fst (filter (\<lambda>t. \<not> snd t) ts)" "v6 = map fst (filter snd ts)" by blast
  have all: "list_all2 (\<lambda>c t. elementToken p c = Inr t) ?kept ts"
    using ts by (auto simp: list_all2_conv_all_nth list_eq_iff_nth_eq)
  have toks: "set v4 \<union> set v6 = fst ` set ts" unfolding v by auto
  show ?thesis
  proof (cases "cb_compound b")
    case True
    then have "\<forall>c \<in> set es. validateIPPort c = Inr ()" using valid kind by (auto simp: validateCIDRs_def check_all_Inr)
    then have kept: "?kept = es" by (rule Prune_ip_ports)
    have "list_all2 (\<lambda>c t. CompoundElement c = Inr (fst t)) es ts"
      using all[unfolded kept] by (rule list_all2_mono) (use elementToken_tok kind True in fastforce)
    then have "rmap (\<lambda>e. map_err (decorate ''policy endpoint'') (CompoundElement e)) es = Inr (map fst ts)"
      by (simp add: rmap_Inr list_all2_map2)
    then show ?thesis using True toks by (auto simp: desiredElements_def)
  next
    case False
    have "list_all2 (\<lambda>c t. fst t = c) ?kept ts"
      using all by (rule list_all2_mono) (use elementToken_tok kind False in fastforce)
    then have "map fst ts = ?kept" by (auto simp: list_all2_conv_all_nth list_eq_iff_nth_eq)
    then have "set ?kept = fst ` set ts" by (metis list.set_map)
    then show ?thesis using False toks by (simp add: desiredElements_def)
  qed
qed

lemma applySet_synced:
  assumes store: "stores_sets R ok"
    and run: "applySet R env (cb_policyName b) es derivedMembership s = (Inr (), s')"
    and kind: "\<And>p. map_of (pm_registry s) (cb_policyName b) = Some (Decoded p) \<Longrightarrow> isCompoundSet p = cb_compound b"
    and ok: "\<And>desired. desiredElements b es = Inr desired \<Longrightarrow> list_all ok desired"
  shows "pm_registry s' = pm_registry s" "mem_in_sync (lists R s') b es"
    "n \<noteq> cb_policyName b \<Longrightarrow> n \<noteq> V6SetName (cb_policyName b) \<Longrightarrow> lists R s' n = lists R s n"
proof -
  let ?n = "cb_policyName b"
  from run obtain p v4 v6 k1 where p: "requirePolicyWithCIDRSet env ?n s = Inr p" "validateCIDRs p es = Inr ()"
    "setElementsByFamily p (PruneContainedCIDRs es) = (v4, v6)"
    and w4: "r_SetElements R ?n v4 (pm_kernel s) = (Inr (), k1)"
    and w6: "r_SetElements R (V6SetName ?n) v6 k1 = (Inr (), pm_kernel s')" and reg: "pm_registry s' = pm_registry s"
    by (rule applySet_effect) auto
  show "pm_registry s' = pm_registry s" by (rule reg)
  have "map_of (pm_registry s) ?n = Some (Decoded p)"
    using p(1) readEntry_Some by (auto simp: requirePolicyWithCIDRSet_def rbind_Inr_iff split: option.splits if_splits)
  from family_tokens[OF p(2,3) kind[OF this]] obtain desired where d: "desiredElements b es = Inr desired"
    "set desired = set v4 \<union> set v6" by blast
  have oks: "list_all ok v4" "list_all ok v6" using ok[OF d(1)] d(2) by (auto simp: list_all_iff)
  note s4 = store[unfolded stores_sets_def, rule_format, OF w4] and s6 = store[unfolded stores_sets_def, rule_format, OF w6]
  from s4 oks obtain ls4 where l4: "r_ListElements R ?n k1 = Inr ls4" "canon ls4 = canon v4" by blast
  from s6 oks obtain ls6 where l6: "lists R s' (V6SetName ?n) = Inr ls6" "canon ls6 = canon v6" by blast
  have "lists R s' ?n = Inr ls4" using s6 l4(1) by simp
  with l6 l4 d show "mem_in_sync (lists R s') b es"
    by (auto simp: mem_in_sync_def live_of_def image_Un)
  show "n \<noteq> ?n \<Longrightarrow> n \<noteq> V6SetName ?n \<Longrightarrow> lists R s' n = lists R s n" using s4 s6 by simp
qed

lemma applyPortsSet_synced:
  assumes store: "stores_sets R ok"
    and run: "applyPortsSet R env name ports s = (Inr (), s')"
    and named: "\<And>p. map_of (pm_registry s) name = Some (Decoded p) \<Longrightarrow> p_Name p = name"
    and ok: "list_all ok ports"
  shows "pm_registry s' = pm_registry s" "ports_in_sync (lists R s') name ports"
    "n \<noteq> PortsSetName name \<Longrightarrow> lists R s' n = lists R s n"
proof -
  from run obtain p k1 where p: "requirePolicyWithPortsSet env name s = Inr p"
    and w: "r_SetElements R (PortsSetName (p_Name p)) ports (pm_kernel s) = (Inr (), k1)" and s': "s' = s\<lparr>pm_kernel := k1\<rparr>"
    by (auto simp: applyPortsSet_def sbind_Inr_iff kern_ok)
  have "map_of (pm_registry s) name = Some (Decoded p)"
    using p readEntry_Some by (auto simp: requirePolicyWithPortsSet_def rbind_Inr_iff split: option.splits if_splits)
  then have n: "p_Name p = name" by (rule named)
  note s1 = store[unfolded stores_sets_def, rule_format, OF w[unfolded n]]
  show "pm_registry s' = pm_registry s" by (simp add: s')
  show "ports_in_sync (lists R s') name ports" using s1 ok by (auto simp: ports_in_sync_def s')
  show "n \<noteq> PortsSetName name \<Longrightarrow> lists R s' n = lists R s n" using s1 by (simp add: s')
qed

text \<open>A loop of writes with disjoint footprints: each write's effect is still there at the end.\<close>

lemma seach_footprints:
  assumes "seach f xs s = (Inr (), s')" "J s" "distinct xs"
    and step: "\<And>x s s'. x \<in> set xs \<Longrightarrow> J s \<Longrightarrow> f x s = (Inr (), s') \<Longrightarrow> J s' \<and> P x s' \<and> (\<forall>n. n \<notin> F x \<longrightarrow> L s' n = L s n)"
    and stable: "\<And>x s s'. x \<in> set xs \<Longrightarrow> P x s \<Longrightarrow> \<forall>n \<in> F x. L s' n = L s n \<Longrightarrow> P x s'"
    and disjoint: "\<And>x y. x \<in> set xs \<Longrightarrow> y \<in> set xs \<Longrightarrow> x \<noteq> y \<Longrightarrow> F x \<inter> F y = {}"
  shows "J s' \<and> (\<forall>x \<in> set xs. P x s') \<and> (\<forall>n. n \<notin> (\<Union>x \<in> set xs. F x) \<longrightarrow> L s' n = L s n)"
  using assms
proof (induction xs arbitrary: s)
  case (Cons x xs)
  from Cons.prems(1) obtain s1 where x: "f x s = (Inr (), s1)" and xs: "seach f xs s1 = (Inr (), s')"
    by (auto simp: sbind_Inr_iff)
  have one: "J s1" "P x s1" "\<forall>n. n \<notin> F x \<longrightarrow> L s1 n = L s n" using Cons.prems(4)[of x, OF _ Cons.prems(2) x] by auto
  have rest: "J s' \<and> (\<forall>y \<in> set xs. P y s') \<and> (\<forall>n. n \<notin> (\<Union>y \<in> set xs. F y) \<longrightarrow> L s' n = L s1 n)"
    by (rule Cons.IH[OF xs one(1)]) (use Cons.prems(3-6) in auto)
  have "F x \<inter> F y = {}" if "y \<in> set xs" for y using Cons.prems(3,6) that by auto
  then have "\<forall>n \<in> F x. L s' n = L s1 n" using rest by blast
  then have "P x s'" using Cons.prems(5)[of x s1 s'] one(2) by simp
  with rest one show ?case by auto
qed simp


section \<open>A tick\<close>

lemma Apply_eqI:
  assumes "f_Inbound F = Inr inb" "f_Outbound F = Inr outb"
    "canonicalDesiredMembership (bucketizeEndpoints inb outb) = Inr canonm"
    "computePolicyDeltas (lists R s) (bucketizeEndpoints inb outb) = Inr memD"
    "computePortDeltas (lists R s) (desiredPorts inb) = Inr portD"
    "ApplySets R env (changed_batch (desiredMembership [] (bucketizeEndpoints inb outb)) memD)
       (changed_batch (desiredPorts inb) portD) s = (Inr applied, s')"
  shows "Apply F R env s = (Inr \<lparr>res_Applied = (if applied then changed_names memD portD else []),
      res_Skipped = (if applied then [] else changed_names memD portD),
      res_Unchanged = unchangedSetNames (changed_names memD portD),
      res_Digest = membershipDigest (combinedCanonical canonm (desiredPorts inb))\<rparr>, s')"
  using assms by (simp add: Apply_def fetchEndpoints_def sbind_sread sbind_def[of "smap_err _ _"] smap_err_apply Let_def)

lemma Apply_Inr:
  assumes "Apply F R env s = (Inr res, s')"
  obtains inb outb canonm memD portD applied where "f_Inbound F = Inr inb" "f_Outbound F = Inr outb"
    "canonicalDesiredMembership (bucketizeEndpoints inb outb) = Inr canonm"
    "computePolicyDeltas (lists R s) (bucketizeEndpoints inb outb) = Inr memD"
    "computePortDeltas (lists R s) (desiredPorts inb) = Inr portD"
    "ApplySets R env (changed_batch (desiredMembership [] (bucketizeEndpoints inb outb)) memD)
       (changed_batch (desiredPorts inb) portD) s = (Inr applied, s')"
    "res = \<lparr>res_Applied = (if applied then changed_names memD portD else []),
      res_Skipped = (if applied then [] else changed_names memD portD),
      res_Unchanged = unchangedSetNames (changed_names memD portD),
      res_Digest = membershipDigest (combinedCanonical canonm (desiredPorts inb))\<rparr>"
proof -
  obtain inb where i: "f_Inbound F = Inr inb"
    using assms by (cases "f_Inbound F") (auto simp: Apply_def fetchEndpoints_def)
  obtain outb where o: "f_Outbound F = Inr outb"
    using assms i by (cases "f_Outbound F") (auto simp: Apply_def fetchEndpoints_def)
  let ?ce = "bucketizeEndpoints inb outb"
  obtain canonm where c: "canonicalDesiredMembership ?ce = Inr canonm"
    using assms i o by (cases "canonicalDesiredMembership ?ce") (auto simp: Apply_def fetchEndpoints_def)
  obtain memD where m: "computePolicyDeltas (lists R s) ?ce = Inr memD"
    using assms i o c by (cases "computePolicyDeltas (lists R s) ?ce") (auto simp: Apply_def fetchEndpoints_def sbind_sread Let_def)
  obtain portD where p: "computePortDeltas (lists R s) (desiredPorts inb) = Inr portD"
    using assms i o c m
    by (cases "computePortDeltas (lists R s) (desiredPorts inb)") (auto simp: Apply_def fetchEndpoints_def sbind_sread Let_def)
  obtain r s1 where a: "ApplySets R env (changed_batch (desiredMembership [] ?ce) memD)
    (changed_batch (desiredPorts inb) portD) s = (r, s1)" by fastforce
  obtain applied where r: "r = Inr applied" using assms i o c m p a
    by (cases r) (auto simp: Apply_def fetchEndpoints_def sbind_sread sbind_def[of "smap_err _ _"] smap_err_apply Let_def)
  note e = Apply_eqI[OF i o c m p a[unfolded r]]
  then have "s1 = s'" using assms by simp
  with that[OF i o c m p] a r e assms show ?thesis by simp
qed

lemma changed_batch_snoc:
  "changed_batch D (ds @ [d]) = al_put (pd_Policy d) (at_key D (pd_Policy d)) (changed_batch D ds)"
  by (simp add: changed_batch_def)

lemma changed_batch_keys: "fst ` set (changed_batch D ds) = pd_Policy ` set ds" "distinct (map fst (changed_batch D ds))"
  by (induction ds rule: rev_induct) (simp_all add: changed_batch_snoc distinct_al_put, simp_all add: changed_batch_def)

lemma changed_batch_at: "n \<in> pd_Policy ` set ds \<Longrightarrow> at_key (changed_batch D ds) n = at_key D n"
proof (induction ds rule: rev_induct)
  case (snoc d ds)
  have "map_of (changed_batch D ds) n = None \<longleftrightarrow> n \<notin> pd_Policy ` set ds" for n
    by (simp add: map_of_eq_None_iff changed_batch_keys)
  with snoc show ?case by (auto simp: changed_batch_snoc at_key_def)
qed simp

lemma ApplySets_True:
  assumes "ApplySets R env mem ports s = (Inr True, s')"
  obtains s1 s2 where "seach (\<lambda>name. applySet R env name (at_key mem name) derivedMembership) (sortedMapKeys mem) s = (Inr (), s1)"
    "seach (\<lambda>name. applyPortsSet R env name (at_key ports name)) (sortedMapKeys ports) s1 = (Inr (), s2)"
    "pm_kernel s' = pm_kernel s2" "pm_registry s' = pm_registry s2"
proof -
  from assms obtain s1 s2 where 1: "seach (\<lambda>name. applySet R env name (at_key mem name) derivedMembership) (sortedMapKeys mem) s = (Inr (), s1)"
    "seach (\<lambda>name. applyPortsSet R env name (at_key ports name)) (sortedMapKeys ports) s1 = (Inr (), s2)"
    and p: "persistMembership R env s2 = (Inr (), s')"
    by (auto simp: ApplySets_def withLockNB_def sbind_Inr_iff split: lock_state.splits)
  from keepsD[OF keeps_persist(1) p] keepsD[OF keeps_persist(2) p] that[OF 1] show ?thesis by simp
qed

lemma ApplySets_empty:
  "e_Lock env \<noteq> LockFails \<Longrightarrow> \<exists>applied s'. ApplySets R env [] [] s = (Inr applied, s') \<and> pm_kernel s' = pm_kernel s \<and> pm_registry s' = pm_registry s"
proof (cases "e_Lock env")
  case LockFree
  obtain r s' where p: "persistMembership R env s = (r, s')" by fastforce
  then have "r = Inr ()" by (simp add: persistMembership_def)
  then have "ApplySets R env [] [] s = (Inr True, s')"
    using LockFree p by (simp add: ApplySets_def withLockNB_def sortedMapKeys_def sbind_def)
  with keepsD[OF keeps_persist(1) p] keepsD[OF keeps_persist(2) p] show ?thesis by blast
qed (auto simp: ApplySets_def withLockNB_def)

lemma image_the_map_of:
  assumes "distinct (map fst al)"
  shows "(\<lambda>k. f (the (map_of al k))) ` {k \<in> fst ` set al. \<exists>b. map_of al k = Some b \<and> Q b k} = {f b | k b. (k, b) \<in> set al \<and> Q b k}"
proof -
  have "map_of al k = Some b \<longleftrightarrow> (k, b) \<in> set al" for k b using map_of_eq_Some_iff[OF assms] .
  then show ?thesis by (auto simp: image_iff) (metis fst_conv option.sel)+
qed

lemma computePolicyDeltas_policies:
  assumes "computePolicyDeltas L (bucketizeEndpoints inb outb) = Inr ds"
  shows "pd_Policy ` set ds = {cb_policyName b | k b. (k, b) \<in> set categoryBindings \<and>
    \<not> mem_in_sync L b (endpoints_at (bucketizeEndpoints inb outb) k)}"
proof -
  let ?ce = "bucketizeEndpoints inb outb"
  from assms obtain ds' where l: "policyDeltas_loop L ?ce (sortedKeys ?ce) = Inr ds'" and ds: "set ds = set ds'"
    by (auto simp: computePolicyDeltas_def rbind_Inr_iff)
  have keys: "set (sortedKeys ?ce) = fst ` set categoryBindings"
    by (simp add: bucketizeEndpoints_view sortedKeys_view categoryBindings_def category_defs insert_commute)
  have d: "distinct (map fst categoryBindings)" by (simp add: categoryBindings_def category_defs)
  have "pd_Policy ` set ds = set (map pd_Policy ds')" by (simp add: ds)
  also have "\<dots> = {cb_policyName b | k b. (k, b) \<in> set categoryBindings \<and> \<not> mem_in_sync L b (endpoints_at ?ce k)}"
    unfolding policyDeltas_loop_Inr[OF l] set_map set_filter keys by (rule image_the_map_of[OF d])
  finally show ?thesis .
qed


lemma computePortDeltas_policies:
  "computePortDeltas L D = Inr ds \<Longrightarrow> pd_Policy ` set ds = {n \<in> fst ` set D. \<not> ports_in_sync L n (at_key D n)}"
proof -
  assume "computePortDeltas L D = Inr ds"
  then have "map pd_Policy ds = filter (\<lambda>n. \<not> ports_in_sync L n (at_key D n)) (sort_by (<) (map fst D))"
    unfolding computePortDeltas_def by (rule portDeltas_loop_Inr)
  then have "set (map pd_Policy ds) = set (filter (\<lambda>n. \<not> ports_in_sync L n (at_key D n)) (sort_by (<) (map fst D)))" by simp
  then show ?thesis by simp
qed

section \<open>Convergence\<close>

text \<open>The registry holds the policies of the block node in the form the bindings expect: the set of a policy
  is keyed by address and port exactly when its binding is compound.\<close>

definition provisioned :: "(string \<times> entry) list \<Rightarrow> bool" where
  "provisioned reg \<longleftrightarrow> registry_ok reg \<and> (\<forall>kb \<in> set categoryBindings. case map_of reg (cb_policyName (snd kb)) of
     Some (Decoded p) \<Rightarrow> isCompoundSet p = cb_compound (snd kb) | _ \<Rightarrow> True)"

text \<open>Every token that a tick may write satisfies \<open>ok\<close>.\<close>

definition storable :: "(string \<Rightarrow> bool) \<Rightarrow> network_data \<Rightarrow> network_data \<Rightarrow> bool" where
  "storable ok inb outb \<longleftrightarrow>
     list_all (\<lambda>(k, b). case desiredElements b (endpoints_at (bucketizeEndpoints inb outb) k) of
       Inl _ \<Rightarrow> True | Inr d \<Rightarrow> list_all ok d) categoryBindings \<and>
     list_all (\<lambda>np. list_all ok (snd np)) (desiredPorts inb)"

definition synced :: "elementLister \<Rightarrow> network_data \<Rightarrow> network_data \<Rightarrow> bool" where
  "synced L inb outb \<longleftrightarrow>
     (\<forall>(k, b) \<in> set categoryBindings. mem_in_sync L b (endpoints_at (bucketizeEndpoints inb outb) k)) \<and>
     (\<forall>n \<in> fst ` set (desiredPorts inb). ports_in_sync L n (at_key (desiredPorts inb) n))"

lemma set_bindings:
  "set categoryBindings = {(k_publisher, \<lparr>cb_policyName = ''bn-publisher'', cb_compound = False\<rparr>),
     (k_partner, \<lparr>cb_policyName = ''bn-partner-out'', cb_compound = False\<rparr>),
     (k_restricted, \<lparr>cb_policyName = ''bn-restricted'', cb_compound = False\<rparr>),
     (k_backfill, \<lparr>cb_policyName = ''bn-backfill'', cb_compound = True\<rparr>)}"
  by (simp add: categoryBindings_def category_defs)

lemma ports_keys: "fst ` set (desiredPorts inb) = {''bn-publisher'', ''bn-partner-out'', ''bn-subscriber-in'', ''bn-public-out''}"
  by (simp add: desiredPorts_view Let_def ports_view_def)

lemma desired_endpoints:
  assumes "(k, b) \<in> set categoryBindings"
  shows "at_key (desiredMembership [] (bucketizeEndpoints inb outb)) (cb_policyName b) = endpoints_at (bucketizeEndpoints inb outb) k"
  using assms unfolding set_bindings bucketizeEndpoints_view desiredMembership_view
  by (elim insertE emptyE) (simp_all add: at_key_def endpoints_at_def ce_view_def)

definition mem_sets :: "string \<Rightarrow> string set" where
  "mem_sets n = {n, V6SetName n}"

lemma mem_sets_disjoint:
  assumes "(k, b) \<in> set categoryBindings" "(k', b') \<in> set categoryBindings" "cb_policyName b \<noteq> cb_policyName b'"
  shows "mem_sets (cb_policyName b) \<inter> mem_sets (cb_policyName b') = {}"
  using assms unfolding set_bindings by (elim insertE emptyE) (simp_all add: mem_sets_def V6SetName_def)

lemma ports_sets_disjoint:
  assumes "(k, b) \<in> set categoryBindings" "n \<in> fst ` set (desiredPorts inb)"
  shows "PortsSetName n \<notin> mem_sets (cb_policyName b)"
  using assms unfolding set_bindings ports_keys
  by (elim insertE emptyE) (simp_all add: mem_sets_def V6SetName_def PortsSetName_def)

lemma mem_in_sync_cong:
  "mem_in_sync L b es \<Longrightarrow> \<forall>n \<in> mem_sets (cb_policyName b). L' n = L n \<Longrightarrow> mem_in_sync L' b es"
  by (simp add: mem_in_sync_def live_of_def mem_sets_def)

lemma ports_in_sync_cong: "ports_in_sync L n ps \<Longrightarrow> L' (PortsSetName n) = L (PortsSetName n) \<Longrightarrow> ports_in_sync L' n ps"
  by (simp add: ports_in_sync_def)

text \<open>The binding of a policy name.\<close>

definition binding_of :: "string \<Rightarrow> bindingKey \<times> categoryBinding" where
  "binding_of n = the (find (\<lambda>kb. cb_policyName (snd kb) = n) categoryBindings)"

lemma binding_of_eq: "kb \<in> set categoryBindings \<Longrightarrow> binding_of (cb_policyName (snd kb)) = kb"
  unfolding set_bindings by (elim insertE emptyE) (simp_all add: binding_of_def categoryBindings_def category_defs)

abbreviation mem_ok :: "'k runner \<Rightarrow> network_data \<Rightarrow> network_data \<Rightarrow> string \<Rightarrow> 'k pm_state \<Rightarrow> bool" where
  "mem_ok R inb outb n s \<equiv>
     mem_in_sync (lists R s) (snd (binding_of n)) (endpoints_at (bucketizeEndpoints inb outb) (fst (binding_of n)))"

lemma binding_name: "n \<in> (\<lambda>kb. cb_policyName (snd kb)) ` set categoryBindings \<Longrightarrow>
  binding_of n \<in> set categoryBindings \<and> cb_policyName (snd (binding_of n)) = n"
  using binding_of_eq by auto

lemma membership_phase:
  assumes store: "stores_sets R ok" and prov: "provisioned (pm_registry s)" and ok: "storable ok inb outb"
    and run: "seach (\<lambda>n. applySet R env n (D n) derivedMembership) ns s = (Inr (), s')"
    and ns: "distinct ns" "set ns \<subseteq> (\<lambda>kb. cb_policyName (snd kb)) ` set categoryBindings"
    and D: "\<And>n. n \<in> set ns \<Longrightarrow> D n = endpoints_at (bucketizeEndpoints inb outb) (fst (binding_of n))"
  shows "pm_registry s' = pm_registry s \<and> (\<forall>n \<in> set ns. mem_ok R inb outb n s') \<and>
    (\<forall>m. m \<notin> (\<Union>n \<in> set ns. mem_sets n) \<longrightarrow> lists R s' m = lists R s m)"
proof (rule seach_footprints[where J = "\<lambda>t. pm_registry t = pm_registry s" and L = "\<lambda>s. lists R s" and
      P = "mem_ok R inb outb" and F = mem_sets, OF run refl ns(1)])
  have b: "binding_of n \<in> set categoryBindings" "cb_policyName (snd (binding_of n)) = n" if "n \<in> set ns" for n
    using binding_name[of n] ns(2) that by auto
  fix n t t' assume n: "n \<in> set ns" and reg: "pm_registry t = pm_registry s"
    and w: "applySet R env n (D n) derivedMembership t = (Inr (), t')"
  let ?b = "snd (binding_of n)" and ?es = "endpoints_at (bucketizeEndpoints inb outb) (fst (binding_of n))"
  have kind: "isCompoundSet p = cb_compound ?b" if "map_of (pm_registry t) (cb_policyName ?b) = Some (Decoded p)" for p
    using prov that b[OF n] unfolding provisioned_def reg by fastforce
  have oks: "list_all ok d" if "desiredElements ?b ?es = Inr d" for d
    using ok that b(1)[OF n] by (auto simp: storable_def list_all_iff split_beta split: sum.splits)
  have "applySet R env (cb_policyName ?b) ?es derivedMembership t = (Inr (), t')" using w b(2)[OF n] D[OF n] by simp
  note eff = applySet_synced[OF store this kind oks]
  show "pm_registry t' = pm_registry s \<and> mem_ok R inb outb n t' \<and> (\<forall>m. m \<notin> mem_sets n \<longrightarrow> lists R t' m = lists R t m)"
    using eff reg b(2)[OF n] by (simp add: mem_sets_def)
next
  fix n t t' assume n: "n \<in> set ns" and "mem_ok R inb outb n t" "\<forall>m \<in> mem_sets n. lists R t' m = lists R t m"
  moreover have "cb_policyName (snd (binding_of n)) = n" using binding_name[of n] ns(2) n by blast
  ultimately show "mem_ok R inb outb n t'" using mem_in_sync_cong[of "lists R t" "snd (binding_of n)"] by simp
next
  fix x y assume xy: "x \<in> set ns" "y \<in> set ns" "x \<noteq> y"
  show "mem_sets x \<inter> mem_sets y = {}"
    using mem_sets_disjoint[of "fst (binding_of x)" "snd (binding_of x)" "fst (binding_of y)" "snd (binding_of y)"] xy(3)
      binding_name[OF subsetD[OF ns(2) xy(1)]] binding_name[OF subsetD[OF ns(2) xy(2)]] by simp
qed

lemma ports_phase:
  assumes store: "stores_sets R ok" and reg: "registry_ok (pm_registry s)"
    and run: "seach (\<lambda>n. applyPortsSet R env n (D n)) ns s = (Inr (), s')"
    and ns: "distinct ns" and ok: "\<And>n. n \<in> set ns \<Longrightarrow> list_all ok (D n)"
  shows "pm_registry s' = pm_registry s \<and> (\<forall>n \<in> set ns. ports_in_sync (lists R s') n (D n)) \<and>
    (\<forall>m. m \<notin> (\<Union>n \<in> set ns. {PortsSetName n}) \<longrightarrow> lists R s' m = lists R s m)"
proof (rule seach_footprints[where J = "\<lambda>t. pm_registry t = pm_registry s" and L = "\<lambda>s. lists R s" and
      P = "\<lambda>n s. ports_in_sync (lists R s) n (D n)" and F = "\<lambda>n. {PortsSetName n}", OF run refl ns])
  fix n t t' assume n: "n \<in> set ns" and t: "pm_registry t = pm_registry s" and w: "applyPortsSet R env n (D n) t = (Inr (), t')"
  have "p_Name p = n" if "map_of (pm_registry t) n = Some (Decoded p)" for p
  proof -
    have "entry_ok (n, Decoded p)" using reg map_of_SomeD[OF that] unfolding registry_ok_iff t by blast
    then show ?thesis by (simp add: entry_ok_def)
  qed
  from applyPortsSet_synced[OF store w this ok[OF n]] t
  show "pm_registry t' = pm_registry s \<and> ports_in_sync (lists R t') n (D n) \<and>
    (\<forall>m. m \<notin> {PortsSetName n} \<longrightarrow> lists R t' m = lists R t m)" by simp
qed (auto intro: ports_in_sync_cong simp: PortsSetName_def)

lemma storable_ports: "storable ok inb outb \<Longrightarrow> list_all ok (at_key (desiredPorts inb) n)"
proof (cases "map_of (desiredPorts inb) n")
  case (Some ps)
  assume "storable ok inb outb"
  then have "\<forall>np \<in> set (desiredPorts inb). list_all ok (snd np)" by (simp add: storable_def list_all_iff)
  then have "list_all ok ps" using map_of_SomeD[OF Some] by auto
  then show ?thesis by (simp add: at_key_def Some)
qed (simp add: at_key_def)

lemma applied_synced:
  assumes store: "stores_sets R ok" and prov: "provisioned (pm_registry s)" and ok: "storable ok inb outb"
    and mem: "computePolicyDeltas (lists R s) (bucketizeEndpoints inb outb) = Inr memD"
    and ports: "computePortDeltas (lists R s) (desiredPorts inb) = Inr portD"
    and run: "ApplySets R env (changed_batch (desiredMembership [] (bucketizeEndpoints inb outb)) memD)
       (changed_batch (desiredPorts inb) portD) s = (Inr True, s')"
  shows "synced (lists R s') inb outb"
proof -
  let ?ce = "bucketizeEndpoints inb outb" and ?D = "desiredMembership [] (bucketizeEndpoints inb outb)" and ?E = "desiredPorts inb"
  let ?M = "changed_batch ?D memD" and ?P = "changed_batch ?E portD"
  from run obtain s1 s2 where r1: "seach (\<lambda>n. applySet R env n (at_key ?M n) derivedMembership) (sortedMapKeys ?M) s = (Inr (), s1)"
    and r2: "seach (\<lambda>n. applyPortsSet R env n (at_key ?P n)) (sortedMapKeys ?P) s1 = (Inr (), s2)"
    and fin: "pm_kernel s' = pm_kernel s2" by (rule ApplySets_True)
  note memP = computePolicyDeltas_policies[OF mem] and portP = computePortDeltas_policies[OF ports]
  have mkeys: "set (sortedMapKeys ?M) = pd_Policy ` set memD" "distinct (sortedMapKeys ?M)"
    using changed_batch_keys[of ?D memD] by (simp_all add: sortedMapKeys_def)
  have pkeys: "set (sortedMapKeys ?P) = pd_Policy ` set portD" "distinct (sortedMapKeys ?P)"
    using changed_batch_keys[of ?E portD] by (simp_all add: sortedMapKeys_def)
  have own: "pd_Policy ` set memD \<subseteq> (\<lambda>kb. cb_policyName (snd kb)) ` set categoryBindings" unfolding memP by force
  have "at_key ?M n = endpoints_at ?ce (fst (binding_of n))" if "n \<in> pd_Policy ` set memD" for n
    using changed_batch_at[OF that, of ?D] desired_endpoints[of "fst (binding_of n)" "snd (binding_of n)" inb outb]
      binding_name[OF subsetD[OF own that]] by simp
  then have one: "\<forall>n \<in> pd_Policy ` set memD. mem_ok R inb outb n s1"
    "\<forall>m. m \<notin> (\<Union>n \<in> pd_Policy ` set memD. mem_sets n) \<longrightarrow> lists R s1 m = lists R s m" and reg: "pm_registry s1 = pm_registry s"
    using membership_phase[OF store prov ok r1 mkeys(2) own[folded mkeys(1)]] unfolding mkeys(1) by blast+
  have pat: "at_key ?P n = at_key ?E n" if "n \<in> pd_Policy ` set portD" for n using changed_batch_at[OF that] .
  have "list_all ok (at_key ?P n)" if "n \<in> pd_Policy ` set portD" for n using pat[OF that] storable_ports[OF ok] by simp
  moreover have "registry_ok (pm_registry s1)" using prov reg by (simp add: provisioned_def)
  ultimately have two: "\<forall>n \<in> pd_Policy ` set portD. ports_in_sync (lists R s2) n (at_key ?P n)"
    "\<forall>m. m \<notin> (\<Union>n \<in> pd_Policy ` set portD. {PortsSetName n}) \<longrightarrow> lists R s2 m = lists R s1 m"
    using ports_phase[OF store _ r2 pkeys(2)] unfolding pkeys(1) by blast+
  have psub: "pd_Policy ` set portD \<subseteq> fst ` set ?E" unfolding portP by blast
  show ?thesis unfolding synced_def fin
  proof (intro conjI ballI, clarify)
    fix k b assume kb: "(k, b) \<in> set categoryBindings"
    let ?n = "cb_policyName b"
    have bo: "binding_of ?n = (k, b)" using binding_of_eq[OF kb] by simp
    have "m \<notin> (\<Union>n \<in> pd_Policy ` set portD. {PortsSetName n})" if "m \<in> mem_sets ?n" for m
      using ports_sets_disjoint[OF kb subsetD[OF psub]] that by blast
    then have fr2: "\<forall>m \<in> mem_sets ?n. lists R s2 m = lists R s1 m" by (intro ballI two(2)[rule_format])
    have "mem_in_sync (lists R s1) b (endpoints_at ?ce k)"
    proof (cases "?n \<in> pd_Policy ` set memD")
      case True
      from bspec[OF one(1) this] show ?thesis by (simp only: bo fst_conv snd_conv)
    next
      case False
      then have live: "mem_in_sync (lists R s) b (endpoints_at ?ce k)" using kb unfolding memP by blast
      have "mem_sets ?n \<inter> mem_sets n = {}" if "n \<in> pd_Policy ` set memD" for n
      proof -
        have "(fst (binding_of n), snd (binding_of n)) \<in> set categoryBindings" "cb_policyName (snd (binding_of n)) = n"
          using binding_name[OF subsetD[OF own that]] by simp_all
        then show ?thesis using mem_sets_disjoint[OF kb] False that by metis
      qed
      then have "\<forall>m \<in> mem_sets ?n. lists R s1 m = lists R s m" using one(2) by blast
      with live show ?thesis by (rule mem_in_sync_cong)
    qed
    then show "mem_in_sync (lists R s2) b (endpoints_at ?ce k)" using fr2 by (rule mem_in_sync_cong)
  next
    fix n assume n: "n \<in> fst ` set ?E"
    have "PortsSetName n \<notin> mem_sets m" if "m \<in> pd_Policy ` set memD" for m
      using ports_sets_disjoint[OF _ n, of "fst (binding_of m)" "snd (binding_of m)"] binding_name[OF subsetD[OF own that]] by simp
    then have fr1: "lists R s1 (PortsSetName n) = lists R s (PortsSetName n)" using one(2) by blast
    show "ports_in_sync (lists R s2) n (at_key ?E n)"
    proof (cases "n \<in> pd_Policy ` set portD")
      case True
      from bspec[OF two(1) this] show ?thesis by (simp only: pat[OF True])
    next
      case False
      then have "ports_in_sync (lists R s) n (at_key ?E n)" using n unfolding portP by blast
      moreover have "PortsSetName n \<notin> (\<Union>n \<in> pd_Policy ` set portD. {PortsSetName n})" using False by (auto simp: PortsSetName_def)
      then have "lists R s2 (PortsSetName n) = lists R s (PortsSetName n)" using two(2) fr1 by metis
      ultimately show ?thesis by (rule ports_in_sync_cong)
    qed
  qed
qed

lemma changed_names_nil: "changed_names [] [] = []" "unchangedSetNames [] = ownedSetNames" "changed_batch D [] = []"
  by (simp_all add: changed_names_def unchangedSetNames_def changed_batch_def)

lemma synced_tick:
  assumes "synced (lists R s) inb outb" "f_Inbound F = Inr inb" "f_Outbound F = Inr outb"
    "canonicalDesiredMembership (bucketizeEndpoints inb outb) = Inr canonm" "e_Lock env \<noteq> LockFails"
  shows "\<exists>s'. Apply F R env s = (Inr \<lparr>res_Applied = [], res_Skipped = [], res_Unchanged = ownedSetNames,
      res_Digest = membershipDigest (combinedCanonical canonm (desiredPorts inb))\<rparr>, s') \<and>
    pm_kernel s' = pm_kernel s \<and> pm_registry s' = pm_registry s"
proof -
  let ?ce = "bucketizeEndpoints inb outb"
  have "(k, b) \<in> set categoryBindings" if "map_of categoryBindings k = Some b" for k b using that by (rule map_of_SomeD)
  then have "policyDeltas_loop (lists R s) ?ce (sortedKeys ?ce) = Inr []"
    using assms(1) unfolding synced_def by (intro policyDeltas_synced) blast
  then have mem: "computePolicyDeltas (lists R s) ?ce = Inr []" by (simp add: computePolicyDeltas_def)
  have ports: "computePortDeltas (lists R s) (desiredPorts inb) = Inr []"
    unfolding computePortDeltas_def using assms(1) unfolding synced_def by (intro portDeltas_synced) (simp only: set_sort_by list.set_map)
  from ApplySets_empty[OF assms(5), of R s] obtain applied s' where
    a: "ApplySets R env [] [] s = (Inr applied, s')" "pm_kernel s' = pm_kernel s" "pm_registry s' = pm_registry s" by blast
  have "ApplySets R env (changed_batch (desiredMembership [] ?ce) []) (changed_batch (desiredPorts inb) []) s = (Inr applied, s')"
    using a(1) by (simp only: changed_names_nil)
  from Apply_eqI[OF assms(2-4) mem ports this] a(2,3) show ?thesis by (simp add: changed_names_nil)
qed

section \<open>The report\<close>

lemma distinct_owned: "distinct ownedSetNames"
  and owned_sets: "set ownedSetNames = (\<lambda>kb. cb_policyName (snd kb)) ` set categoryBindings \<union> PortsSetName ` set managedPortsPolicyNames"
  by code_simp (simp add: ownedSetNames_def ownedPolicyNames_def)

lemma set_managed: "set managedPortsPolicyNames = fst ` set (desiredPorts inb)"
  by (simp add: managedPortsPolicyNames_def portBindings_def ports_keys insert_commute)

lemma policy_deltas_distinct:
  assumes "computePolicyDeltas L (bucketizeEndpoints inb outb) = Inr ds"
  shows "distinct (map pd_Policy ds)"
proof -
  let ?ce = "bucketizeEndpoints inb outb" and ?f = "\<lambda>k. cb_policyName (the (map_of categoryBindings k))"
  from assms obtain ds' where l: "policyDeltas_loop L ?ce (sortedKeys ?ce) = Inr ds'" and "mset ds = mset ds'"
    by (auto simp: computePolicyDeltas_def rbind_Inr_iff)
  then have m: "mset (map pd_Policy ds) = mset (map pd_Policy ds')" by simp
  have "distinct (map ?f (sortedKeys ?ce))"
    by (simp add: bucketizeEndpoints_view sortedKeys_view bindings_map)
  then have "distinct (map ?f (filter P (sortedKeys ?ce)))" for P by (rule distinct_map_filter)
  then have "distinct (map pd_Policy ds')" unfolding policyDeltas_loop_Inr[OF l] .
  then show ?thesis using mset_eq_imp_distinct_iff[OF m] by simp
qed

lemma port_deltas_distinct: "computePortDeltas L (desiredPorts inb) = Inr ds \<Longrightarrow> distinct (map pd_Policy ds)"
proof -
  assume "computePortDeltas L (desiredPorts inb) = Inr ds"
  note portDeltas_loop_Inr[OF this[unfolded computePortDeltas_def]]
  moreover have "distinct (map fst (desiredPorts inb))" by (simp add: desiredPorts_view Let_def ports_view_def)
  ultimately show ?thesis by simp
qed

lemma disjoint_image: "\<forall>n \<in> A. f n \<notin> B \<Longrightarrow> B \<inter> f ` A = {}"
  by blast

lemma changed_names_owned:
  assumes "computePolicyDeltas L (bucketizeEndpoints inb outb) = Inr memD" "computePortDeltas L (desiredPorts inb) = Inr portD"
  shows "distinct (changed_names memD portD)" "set (changed_names memD portD) \<subseteq> set ownedSetNames"
proof -
  have own: "pd_Policy ` set memD \<subseteq> (\<lambda>kb. cb_policyName (snd kb)) ` set categoryBindings"
    unfolding computePolicyDeltas_policies[OF assms(1)] by force
  have ps: "pd_Policy ` set portD \<subseteq> fst ` set (desiredPorts inb)" unfolding computePortDeltas_policies[OF assms(2)] by blast
  have "set (changed_names memD portD) = pd_Policy ` set memD \<union> PortsSetName ` pd_Policy ` set portD"
    by (simp add: changed_names_def image_image)
  then show "set (changed_names memD portD) \<subseteq> set ownedSetNames"
    unfolding owned_sets set_managed[of inb] by (simp only:) (intro Un_mono image_mono own ps)
  have p: "distinct (map PortsSetName (map pd_Policy portD))"
    unfolding distinct_map[of PortsSetName] using port_deltas_distinct[OF assms(2)] by (simp add: inj_on_def PortsSetName_def)
  have "PortsSetName n \<notin> pd_Policy ` set memD" if "n \<in> pd_Policy ` set portD" for n
  proof
    assume "PortsSetName n \<in> pd_Policy ` set memD"
    from binding_name[OF subsetD[OF own this]] show False
      using ports_sets_disjoint[OF _ subsetD[OF ps that], of "fst (binding_of (PortsSetName n))" "snd (binding_of (PortsSetName n))"]
      by (simp add: mem_sets_def)
  qed
  then have no: "\<forall>n \<in> pd_Policy ` set portD. PortsSetName n \<notin> pd_Policy ` set memD" by blast
  then have "set (map pd_Policy memD) \<inter> set (map PortsSetName (map pd_Policy portD)) = {}"
    unfolding list.set_map by (rule disjoint_image)
  then have "distinct (map pd_Policy memD @ map PortsSetName (map pd_Policy portD))"
    using policy_deltas_distinct[OF assms(1)] p unfolding distinct_append by blast
  then show "distinct (changed_names memD portD)" by (simp only: changed_names_def distinct_sort_by map_map comp_def)
qed

lemma ApplySets_outcome:
  "ApplySets R env m p s = (Inr b, s') \<Longrightarrow> (b \<longleftrightarrow> e_Lock env = LockFree) \<and> (\<not> b \<longleftrightarrow> e_Lock env = LockHeld) \<and> (\<not> b \<longrightarrow> s' = s)"
  by (cases "e_Lock env") (auto simp: ApplySets_def withLockNB_def sbind_Inr_iff)

lemma mset_split: "distinct xs \<Longrightarrow> set xs \<subseteq> set ys \<Longrightarrow> distinct ys \<Longrightarrow> mset (xs @ filter (\<lambda>y. y \<notin> set xs) ys) = mset ys"
  by (subst set_eq_iff_mset_eq_distinct[symmetric]) auto

section \<open>The serialization behind the digest\<close>

text \<open>A map that the format separates: a name is a line, a member a non-empty field of a comma separated line.\<close>

definition member_text :: "string \<Rightarrow> bool" where
  "member_text t \<longleftrightarrow> t \<noteq> [] \<and> CHR '','' \<notin> set t \<and> nl \<notin> set t"

definition plain_map :: "setMap \<Rightarrow> bool" where
  "plain_map m \<longleftrightarrow> distinct (map fst m) \<and> list_all (\<lambda>(n, es). nl \<notin> set n \<and> list_all member_text es) m"

definition map_lines :: "setMap \<Rightarrow> string list" where
  "map_lines m = concat (map (\<lambda>n. [n, strings_Join '','' (sortedUnique (at_key m n))]) (sort_by (<) (map fst m)))"

lemma pair_lines:
  "concat (map (\<lambda>n. n @ [c] @ g n @ [c]) ns) = concat (map (\<lambda>l. l @ [c]) (concat (map (\<lambda>n. [n, g n]) ns)))"
  by (induction ns) simp_all

lemma serialize_lines: "serializeMembership m = concat (map (\<lambda>l. l @ [nl]) (map_lines m))"
  unfolding serializeMembership_def map_lines_def by (rule pair_lines)

lemma Split_terminated:
  "\<forall>l \<in> set ls. c \<notin> set l \<Longrightarrow> strings_Split c (concat (map (\<lambda>l. l @ [c]) ls)) = ls @ [[]]"
  by (induction ls) (simp_all add: Split_append)

lemma pair_lines_inj:
  "concat (map (\<lambda>n. [n, g n]) ns) = concat (map (\<lambda>n. [n, g' n]) ns') \<Longrightarrow> ns = ns' \<and> map g ns = map g' ns'"
proof (induction ns arbitrary: ns')
  case Nil
  then show ?case by (cases ns') simp_all
next
  case (Cons n ns)
  then obtain r where "ns' = n # r" "g n = g' n" "concat (map (\<lambda>n. [n, g n]) ns) = concat (map (\<lambda>n. [n, g' n]) r)"
    by (cases ns') auto
  moreover from Cons.IH[OF this(3)] have "ns = r" "map g ns = map g' r" by blast+
  ultimately show ?case by (simp only: list.map)
qed

lemma Join_chars: "c \<in> set (strings_Join sep xs) \<Longrightarrow> c \<in> set sep \<or> (\<exists>x \<in> set xs. c \<in> set x)"
proof (induction xs)
  case (Cons x xs)
  then show ?case by (cases "xs = []") (auto simp: Join_Cons)
qed simp

lemma Join_member_text:
  assumes "list_all member_text xs" "list_all member_text ys" "strings_Join '','' xs = strings_Join '','' ys"
  shows "xs = ys"
proof -
  have ne: "strings_Join '','' zs = [] \<longleftrightarrow> zs = []" if "list_all member_text zs" for zs
    using that by (cases zs; cases "tl zs") (auto simp: member_text_def)
  have "strings_Split (CHR '','') (strings_Join '','' zs) = zs" if "list_all member_text zs" "zs \<noteq> []" for zs
    using that by (intro Split_Join) (auto simp: member_text_def list_all_iff)
  then show ?thesis using assms ne by metis
qed

lemma plain_map_at: "plain_map m \<Longrightarrow> list_all member_text (sortedUnique (at_key m n))"
  by (auto simp: plain_map_def at_key_def list_all_iff split: option.splits dest!: map_of_SomeD)

lemma plain_map_lines: "plain_map m \<Longrightarrow> l \<in> set (map_lines m) \<Longrightarrow> nl \<notin> set l"
proof
  assume m: "plain_map m" "l \<in> set (map_lines m)" and nl: "nl \<in> set l"
  from m(2) obtain n where n: "n \<in> fst ` set m" "l = n \<or> l = strings_Join '','' (sortedUnique (at_key m n))"
    by (auto simp: map_lines_def)
  then show False using nl m(1) plain_map_at[OF m(1), of n] Join_chars[of nl "'',''" "sortedUnique (at_key m n)"]
    by (auto simp: plain_map_def list_all_iff member_text_def nl_def)
qed

lemma serialize_determines:
  assumes "plain_map m" "plain_map m'" "serializeMembership m = serializeMembership m'"
  shows "map_option set (map_of m n) = map_option set (map_of m' n)"
proof -
  have split: "strings_Split nl (serializeMembership x) = map_lines x @ [[]]" if "plain_map x" for x
    unfolding serialize_lines by (rule Split_terminated) (use plain_map_lines[OF that] in blast)
  have "map_lines m @ [[]] = map_lines m' @ [[]]" using split[OF assms(1)] split[OF assms(2)] assms(3) by simp
  then have "map_lines m = map_lines m'" by simp
  from pair_lines_inj[OF this[unfolded map_lines_def]]
  have keys: "sort_by (<) (map fst m) = sort_by (<) (map fst m')"
    and joins: "map (\<lambda>n. strings_Join '','' (sortedUnique (at_key m n))) (sort_by (<) (map fst m)) =
      map (\<lambda>n. strings_Join '','' (sortedUnique (at_key m' n))) (sort_by (<) (map fst m'))"
    by blast+
  have vals: "sortedUnique (at_key m n) = sortedUnique (at_key m' n)" if "n \<in> fst ` set m"
    using joins[folded keys, unfolded map_eq_conv set_sort_by list.set_map] that
    by (intro Join_member_text plain_map_at assms) (rule bspec)
  have dom: "fst ` set m = fst ` set m'" using arg_cong[OF keys, of set] by simp
  show ?thesis
  proof (cases "n \<in> fst ` set m")
    case True
    then have "map_of m n \<noteq> None" "map_of m' n \<noteq> None" using dom by (simp_all add: map_of_eq_None_iff)
    then obtain es es' where e: "map_of m n = Some es" "map_of m' n = Some es'" by blast
    then have "set (sortedUnique es) = set (sortedUnique es')" using vals[OF True] by (simp add: at_key_def)
    then show ?thesis using e by simp
  next
    case False
    then have "map_of m n = None" "map_of m' n = None" using dom by (simp_all add: map_of_eq_None_iff)
    then show ?thesis by simp
  qed
qed

lemma serialize_cong:
  assumes "distinct (map fst m)" "distinct (map fst m')" "\<forall>n. map_option set (map_of m n) = map_option set (map_of m' n)"
  shows "serializeMembership m = serializeMembership m'"
proof -
  have "\<forall>n. map_of m n = None \<longleftrightarrow> map_of m' n = None" using assms(3) by (metis map_option_is_None)
  then have dom: "fst ` set m = fst ` set m'" by (auto simp: map_of_eq_None_iff)
  have "mset (map fst m) = mset (map fst m')"
    using assms(1,2) dom by (subst set_eq_iff_mset_eq_distinct[symmetric]) auto
  then have keys: "sort_by (<) (map fst m) = sort_by (<) (map fst m')" by (intro string_less.sort_by_cong_mset) simp_all
  have "set (at_key m n) = set (at_key m' n)" for n
    using assms(3)[rule_format, of n] by (cases "map_of m n"; cases "map_of m' n") (simp_all add: at_key_def)
  then have "sortedUnique (at_key m n) = sortedUnique (at_key m' n)" for n by (rule sortedUnique_cong)
  then show ?thesis by (simp add: serializeMembership_def keys)
qed

section \<open>Hosts as prefixes\<close>

lemma no_slash: "netip_ParseAddr a = Some x \<Longrightarrow> addr_zone x = [] \<Longrightarrow> CHR ''/'' \<notin> set a"
  using ParseAddr_chars[of a x "CHR ''/''"] by (auto simp: is_hex_def is_digit_def)

text \<open>The two mask lengths of a host.\<close>

definition host_bits :: "addr \<Rightarrow> string" where
  "host_bits x = (if addr_Is4 x then ''32'' else ''128'')"

lemma host_bits_facts:
  "strconv_Atoi (host_bits x) = Some (int (addr_bitlen x))" "list_all is_digit (host_bits x)" "host_bits x \<noteq> []"
  "dec_val (host_bits x) = int (addr_bitlen x)" "CHR ''1'' \<le> hd (host_bits x) \<and> hd (host_bits x) \<le> CHR ''9''"
proof -
  have "strconv_Atoi ''32'' = Some 32" "strconv_Atoi ''128'' = Some 128" "list_all is_digit ''32''" "list_all is_digit ''128''"
    "dec_val ''32'' = 32" "dec_val ''128'' = 128" "CHR ''1'' \<le> CHR ''3''" "CHR ''3'' \<le> CHR ''9''" "CHR ''1'' \<le> CHR ''9''"
    by code_simp+
  then show "strconv_Atoi (host_bits x) = Some (int (addr_bitlen x))" "list_all is_digit (host_bits x)" "host_bits x \<noteq> []"
    "dec_val (host_bits x) = int (addr_bitlen x)" "CHR ''1'' \<le> hd (host_bits x) \<and> hd (host_bits x) \<le> CHR ''9''"
    by (cases x; simp add: host_bits_def addr_Is4_def)+
qed

lemma hostCIDR_host:
  assumes "netip_ParseAddr a = Some x" "addr_zone x = []"
  shows "hostCIDR a = a @ CHR ''/'' # host_bits x"
  using assms no_slash[OF assms] by (cases x) (simp_all add: hostCIDR_def Contains_byte addr_Is4_def addr_Is6_def host_bits_def)

lemma hostCIDR_chars:
  assumes "netip_ParseAddr a = Some x" "addr_zone x = []" "c \<in> set (hostCIDR a)"
  shows "is_hex c \<or> c = CHR '':'' \<or> c = CHR ''.'' \<or> c = CHR ''/''"
  using assms(3) ParseAddr_chars[OF assms(1,2), of c] host_bits_facts(2)[of x] hex_digit[of c]
  by (auto simp: hostCIDR_host[OF assms(1,2)] list_all_iff)

lemma hostCIDR_valid:
  assumes "netip_ParseAddr a = Some x" "addr_zone x = []"
  shows "ValidateCIDR (hostCIDR a) = Inr ()"
proof -
  have "cut_byte (CHR ''/'') (hostCIDR a) = Some (a, host_bits x)"
    using no_slash[OF assms] by (simp add: hostCIDR_host[OF assms] cut_byte_Some)
  then have "net_ParseCIDR (hostCIDR a) \<noteq> None" using assms host_bits_facts[of x] by (simp add: net_ParseCIDR_def)
  moreover have "c \<notin> set '';&|$`<>(){}[]*?~''" if "c \<in> set (hostCIDR a)" for c
    using hostCIDR_chars[OF assms that] by (auto simp: is_hex_def is_digit_def)
  then have "\<not> shellMetachars (hostCIDR a)" unfolding shellMetachars_def list_ex_iff by blast
  ultimately show ?thesis by (simp add: ValidateCIDR_iff)
qed

lemma hostCIDR_canon:
  assumes "netip_ParseAddr a = Some x" "addr_zone x = []"
  shows "ek_canon (parseElement (hostCIDR a)) = addr_String x"
proof -
  have "list_all graphic (hostCIDR a)" using hostCIDR_chars[OF assms] graphic_hex by (auto simp: list_all_iff)
  then have t: "strings_TrimSpace (hostCIDR a) = hostCIDR a" "splitCompound (hostCIDR a) = None"
    using TrimSpace_all_graphic graphic_no_compound by blast+
  have "CHR ''/'' \<notin> set (host_bits x)" by (simp add: host_bits_def)
  then have cut: "cut_last_byte (CHR ''/'') (hostCIDR a) = Some (a, host_bits x)"
    by (simp add: hostCIDR_host[OF assms] cut_last_byte_Some)
  have p: "netip_ParsePrefix (hostCIDR a) = Some (netip_PrefixFrom x (int (addr_bitlen x)))"
    using assms host_bits_facts[of x] by (simp add: netip_ParsePrefix_def cut)
  have m: "pfx_Masked (netip_PrefixFrom x (int (addr_bitlen x))) = netip_PrefixFrom x (int (addr_bitlen x))"
    by (rule Masked_ok[OF pfx_ok_host])
  have "without_zone x = x" using assms(2) by (cases x) simp_all
  then have f: "netip_PrefixFrom x (int (addr_bitlen x)) = Prefix x (int (addr_bitlen x))" by (simp add: netip_PrefixFrom_def)
  have "strings_Contains (hostCIDR a) ''/''" by (simp add: Contains_byte hostCIDR_host[OF assms])
  then show ?thesis by (simp add: parseElement_def t p m[unfolded f] f Let_def)
qed

lemma is_ok_ex: "is_ok r \<longleftrightarrow> (\<exists>x. r = Inr x)"
  by (cases r) simp_all

lemma canonical_view:
  "canonicalDesiredMembership (ce_view a b c d) =
     rbind (rmap (\<lambda>e. map_err (decorate ''policy endpoint'') (CompoundElement e)) d) (\<lambda>toks.
       Inr [(''bn-publisher'', CanonicalizeElements (PruneContainedCIDRs a)),
            (''bn-partner-out'', CanonicalizeElements (PruneContainedCIDRs b)),
            (''bn-restricted'', CanonicalizeElements (PruneContainedCIDRs c)),
            (''bn-backfill'', CanonicalizeElements toks)])"
  by (simp add: canonicalDesiredMembership_def ce_view_def bindings_map desiredElements_def)

section \<open>A kernel for the witnesses\<close>

text \<open>A kernel that holds a list of elements for each set of the table.\<close>

definition set_runner :: "(string \<Rightarrow> string list) runner" where
  "set_runner = \<lparr>r_Apply = (\<lambda>doc k. (Inr (), k)), r_AddElements = (\<lambda>n es k. (Inr (), k(n := k n @ es))),
     r_DeleteElements = (\<lambda>n es k. (Inr (), k(n := filter (\<lambda>e. e \<notin> set es) (k n)))),
     r_SetElements = (\<lambda>n es k. (Inr (), k(n := es))), r_ListElements = (\<lambda>n k. Inr (k n)),
     r_List = (\<lambda>k. Inr []), r_Delete = (\<lambda>k. (Inr (), \<lambda>_. [])), r_Exists = (\<lambda>k. Inr True)\<rparr>"

lemma set_runner_stores: "stores_sets set_runner (\<lambda>_. True)"
  by (simp add: stores_sets_def set_runner_def)

definition stamp_policy :: "string \<Rightarrow> string \<Rightarrow> string \<Rightarrow> bool \<Rightarrow> policy" where
  "stamp_policy name stamp reply managed =
     \<lparr>p_Name = name, p_Action = ActionStamp, p_Stamp = stamp, p_ReplyStamp = reply,
      p_Direction = (if stamp = ''publisher'' then DirectionIngress else DirectionEgress), p_Ports = [], p_ManagedPorts = managed,
      p_FromEntityWorld = False, p_CreatedAt = 1\<rparr>"

definition bn_registry :: "(string \<times> entry) list" where
  "bn_registry =
     [(''bn-publisher'', Decoded (stamp_policy ''bn-publisher'' ''publisher'' [] True)),
      (''bn-partner-out'', Decoded (stamp_policy ''bn-partner-out'' ''partner'' [] True)),
      (''bn-restricted'', Decoded example_deny),
      (''bn-backfill'', Decoded (stamp_policy ''bn-backfill'' ''partner'' ''backfill-response'' False)),
      (''bn-subscriber-in'', Decoded ((stamp_policy ''bn-subscriber-in'' ''publisher'' [] True)\<lparr>p_FromEntityWorld := True\<rparr>)),
      (''bn-public-out'', Decoded ((stamp_policy ''bn-public-out'' ''public'' [] True)\<lparr>p_FromEntityWorld := True\<rparr>))]"

definition bn_state :: "(string \<Rightarrow> string list) pm_state" where
  "bn_state = \<lparr>pm_registry = bn_registry, pm_artifact = None, pm_kernel = (\<lambda>n. if n = ''bn-restricted'' then [''10.9.0.0/16''] else [])\<rparr>"

definition bn_conn :: "string \<Rightarrow> string \<Rightarrow> string \<Rightarrow> string \<Rightarrow> network_connection" where
  "bn_conn cat port addr rport = \<lparr>nc_Local = \<lparr>ep_Address = ''10.0.0.1'', ep_Port = port\<rparr>,
     nc_Remote = \<lparr>ep_Address = addr, ep_Port = rport\<rparr>, nc_Category = cat, nc_TLSRequired = False\<rparr>"

definition bn_fetcher :: fetcher where
  "bn_fetcher = \<lparr>f_Inbound = Inr \<lparr>nd_ActiveEndpoints =
      [bn_conn ''publisher'' ''40840'' ''198.51.100.7'' ''*'', bn_conn ''partner'' ''40841'' ''2001:db8::7'' ''*'',
       bn_conn ''partner'' ''40841'' ''203.0.113.0/24'' ''*'', bn_conn ''partner'' ''40841'' ''203.0.113.9'' ''*'',
       bn_conn ''public'' ''40842'' ''0.0.0.0/0'' ''*'']\<rparr>,
     f_Outbound = Inr \<lparr>nd_ActiveEndpoints =
      [bn_conn ''partner'' ''*'' ''192.0.2.1'' ''443'', bn_conn ''partner'' ''*'' ''2001:db8::9'' ''443'', bn_conn ''partner'' ''*'' ''192.0.2.2'' ''*'']\<rparr>\<rparr>"

lemma bn_provisioned: "provisioned bn_registry"
  by code_simp


lemma storable_True: "storable (\<lambda>_. True) inb outb"
  by (auto simp: storable_def list_all_iff split: sum.splits)

definition bn_in :: network_data where
  "bn_in = (case f_Inbound bn_fetcher of Inr d \<Rightarrow> d)"

definition bn_out :: network_data where
  "bn_out = (case f_Outbound bn_fetcher of Inr d \<Rightarrow> d)"

definition bn_batch :: "(setMap \<times> setMap) result" where
  "bn_batch =
     rbind (computePolicyDeltas (lists set_runner bn_state) (bucketizeEndpoints bn_in bn_out)) (\<lambda>m.
     rbind (computePortDeltas (lists set_runner bn_state) (desiredPorts bn_in)) (\<lambda>p.
     Inr (changed_batch (desiredMembership [] (bucketizeEndpoints bn_in bn_out)) m, changed_batch (desiredPorts bn_in) p)))"

lemma bn_runs:
  "canonicalDesiredMembership (bucketizeEndpoints bn_in bn_out) =
     Inr [(''bn-publisher'', [''198.51.100.7'']), (''bn-partner-out'', [''203.0.113.0/24'', ''2001:db8::7'']),
       (''bn-restricted'', []), (''bn-backfill'', [''192.0.2.1 . 443'', ''2001:db8::9 . 443''])]"
  "rbind bn_batch (\<lambda>(m, p). fst (ApplySets set_runner quiet_env m p bn_state)) = Inr True"
  by code_simp+

lemma bn_tick: "\<exists>res s'. Apply bn_fetcher set_runner quiet_env bn_state = (Inr res, s')"
proof -
  have f: "f_Inbound bn_fetcher = Inr bn_in" "f_Outbound bn_fetcher = Inr bn_out" by (simp_all add: bn_in_def bn_out_def bn_fetcher_def)
  from bn_runs(2) obtain memD portD where "computePolicyDeltas (lists set_runner bn_state) (bucketizeEndpoints bn_in bn_out) = Inr memD"
    "computePortDeltas (lists set_runner bn_state) (desiredPorts bn_in) = Inr portD"
    "fst (ApplySets set_runner quiet_env (changed_batch (desiredMembership [] (bucketizeEndpoints bn_in bn_out)) memD)
      (changed_batch (desiredPorts bn_in) portD) bn_state) = Inr True"
    by (auto simp: bn_batch_def rbind_Inr_iff)
  from Apply_eqI[OF f bn_runs(1) this(1,2) run_eq[OF this(3)]] show ?thesis by blast
qed

section \<open>Guarantees\<close>


text \<open>
  C6: the report of a tick accounts for every owned set exactly once: the applied, the skipped and the unchanged
  sets together are the owned sets. The sets reported as applied or skipped are those whose live elements
  differ from the desired ones. Sets are skipped only because another process holds the lock, and
  then nothing was written, neither to the kernel nor to disk. The digest is the one that the unprivileged
  \<open>Check\<close> reports for the same statusz answer.
\<close>

theorem Apply_report:
  assumes "Apply F R env s = (Inr res, s')"
  shows "mset (res_Applied res @ res_Skipped res @ res_Unchanged res) = mset ownedSetNames \<and>
    (\<exists>inb outb. f_Inbound F = Inr inb \<and> f_Outbound F = Inr outb \<and>
      set (res_Applied res @ res_Skipped res) =
        {cb_policyName b | k b. (k, b) \<in> set categoryBindings \<and> \<not> mem_in_sync (lists R s) b (endpoints_at (bucketizeEndpoints inb outb) k)} \<union>
        {PortsSetName n | n. n \<in> fst ` set (desiredPorts inb) \<and> \<not> ports_in_sync (lists R s) n (at_key (desiredPorts inb) n)}) \<and>
    (e_Lock env = LockHeld \<longrightarrow> s' = s \<and> res_Applied res = []) \<and> (e_Lock env = LockFree \<longrightarrow> res_Skipped res = []) \<and>
    (\<exists>c. Check F = Inr c \<and> cr_Digest c = res_Digest res)"
proof -
  from assms obtain inb outb canonm memD portD applied where f: "f_Inbound F = Inr inb" "f_Outbound F = Inr outb"
    and c: "canonicalDesiredMembership (bucketizeEndpoints inb outb) = Inr canonm"
    and d: "computePolicyDeltas (lists R s) (bucketizeEndpoints inb outb) = Inr memD"
      "computePortDeltas (lists R s) (desiredPorts inb) = Inr portD"
    and a: "ApplySets R env (changed_batch (desiredMembership [] (bucketizeEndpoints inb outb)) memD)
       (changed_batch (desiredPorts inb) portD) s = (Inr applied, s')"
    and r: "res = \<lparr>res_Applied = (if applied then changed_names memD portD else []),
      res_Skipped = (if applied then [] else changed_names memD portD),
      res_Unchanged = unchangedSetNames (changed_names memD portD),
      res_Digest = membershipDigest (combinedCanonical canonm (desiredPorts inb))\<rparr>" by (rule Apply_Inr)
  have as: "res_Applied res @ res_Skipped res = changed_names memD portD" using r by simp
  have "mset (res_Applied res @ res_Skipped res @ res_Unchanged res) = mset ownedSetNames"
    using mset_split[OF changed_names_owned[OF d] distinct_owned] unfolding append_assoc[symmetric] as
    by (simp add: r unchangedSetNames_def)
  moreover have "set (res_Applied res @ res_Skipped res) = pd_Policy ` set memD \<union> PortsSetName ` pd_Policy ` set portD"
    unfolding as by (simp add: changed_names_def image_image)
  moreover note ApplySets_outcome[OF a]
  moreover have "Check F = Inr \<lparr>cr_Digest = res_Digest res, cr_Desired = canonm, cr_DesiredPorts = desiredPorts inb\<rparr>"
    by (simp add: Check_def fetchEndpoints_def f c r Let_def)
  moreover have "PortsSetName ` pd_Policy ` set portD =
    {PortsSetName n | n. n \<in> fst ` set (desiredPorts inb) \<and> \<not> ports_in_sync (lists R s) n (at_key (desiredPorts inb) n)}"
    unfolding computePortDeltas_policies[OF d(2)] by blast
  moreover have "applied \<Longrightarrow> res_Skipped res = []" "\<not> applied \<Longrightarrow> res_Applied res = []" using r by simp_all
  ultimately show ?thesis
    using f unfolding computePolicyDeltas_policies[OF d(1)] by (intro conjI exI[of _ inb] exI[of _ outb] impI) simp_all
qed




theorem Apply_report_witness:
  "\<exists>res s'. Apply bn_fetcher set_runner quiet_env bn_state = (Inr res, s') \<and>
     mset (res_Applied res @ res_Skipped res @ res_Unchanged res) = mset ownedSetNames \<and> res_Skipped res = []"
proof -
  obtain res s' where run: "Apply bn_fetcher set_runner quiet_env bn_state = (Inr res, s')" using bn_tick by blast
  from Apply_report[OF run] run show ?thesis by (auto simp: quiet_env_def)
qed

text \<open>
  What the worker wants, as a function of the statusz answer. A plain set wants the remote hosts of
  its category, without those that another entry covers, in canonical form; the backfill set
  wants the address and port keys of the outbound partners with a concrete port; a ports set wants the
  distinct concrete local ports of its category, sorted. Every owned set is in the answer, with no elements if
  the category has no endpoint, and \<open>Check\<close> fails only on an outbound partner endpoint that is no
  address and port.
\<close>

lemma Check_exact:
  assumes "f_Inbound F = Inr inb" "f_Outbound F = Inr outb"
  shows "case Check F of
      Inl e \<Rightarrow> \<exists>ep \<in> set (compound_members ''partner'' outb). \<not> is_ok (CompoundElement ep)
    | Inr c \<Rightarrow> (\<exists>toks. list_all2 (\<lambda>ep t. CompoundElement ep = Inr t) (compound_members ''partner'' outb) toks \<and>
        cr_Desired c = [(''bn-publisher'', CanonicalizeElements (PruneContainedCIDRs (plain_members ''publisher'' inb))),
          (''bn-partner-out'', CanonicalizeElements (PruneContainedCIDRs (plain_members ''partner'' inb))),
          (''bn-restricted'', CanonicalizeElements (PruneContainedCIDRs (plain_members ''restricted'' inb))),
          (''bn-backfill'', CanonicalizeElements toks)]) \<and>
        cr_DesiredPorts c = [(''bn-publisher'', sorted_list_of_set (listener_ports ''publisher'' inb)),
          (''bn-partner-out'', sorted_list_of_set (listener_ports ''partner'' inb)),
          (''bn-subscriber-in'', sorted_list_of_set (listener_ports ''public'' inb)),
          (''bn-public-out'', sorted_list_of_set (listener_ports ''public'' inb))]"
proof -
  let ?toks = "rmap (\<lambda>e. map_err (decorate ''policy endpoint'') (CompoundElement e)) (compound_members ''partner'' outb)"
  note ports = desiredPorts_view[of inb, unfolded ports_view_def Let_def]
  show ?thesis
  proof (cases ?toks)
    case (Inl e)
    have "\<exists>ep \<in> set (compound_members ''partner'' outb). \<not> is_ok (CompoundElement ep)"
    proof (rule ccontr)
      assume "\<not> ?thesis"
      then have "\<forall>ep \<in> set (compound_members ''partner'' outb). \<exists>t. map_err (decorate ''policy endpoint'') (CompoundElement ep) = Inr t"
        by (simp add: is_ok_ex)
      from rmap_total[OF this] Inl show False by simp
    qed
    moreover have "Check F = Inl e" using Inl assms by (simp add: Check_def fetchEndpoints_def bucketizeEndpoints_view canonical_view)
    ultimately show ?thesis by simp
  next
    case (Inr toks)
    then have "list_all2 (\<lambda>ep t. CompoundElement ep = Inr t) (compound_members ''partner'' outb) toks" by (simp add: rmap_Inr)
    with Inr assms show ?thesis by (auto simp: Check_def fetchEndpoints_def bucketizeEndpoints_view canonical_view ports Let_def)
  qed
qed

text \<open>
  The digest is computed from the content only. Two desired states, whatever the order and repetition of their
  entries, serialize to the same bytes, and so have the same digest, exactly when they have the same
  sets with the same members; hence the daemon misses a change only if SHA-256 collides.
\<close>

lemma membershipDigest_content:
  assumes "plain_map m" "plain_map m'"
  shows "(serializeMembership m = serializeMembership m' \<longleftrightarrow> (\<forall>n. map_option set (map_of m n) = map_option set (map_of m' n))) \<and>
    ((\<forall>n. map_option set (map_of m n) = map_option set (map_of m' n)) \<longrightarrow> membershipDigest m = membershipDigest m')"
proof -
  have "(\<forall>n. map_option set (map_of m n) = map_option set (map_of m' n)) \<Longrightarrow> serializeMembership m = serializeMembership m'"
    using serialize_cong assms by (simp add: plain_map_def)
  then show ?thesis using serialize_determines[OF assms] by (auto simp: membershipDigest_def)
qed

text \<open>
  A bare host address that statusz reports reaches the policy layer: with the explicit mask it passes the
  validation that refuses a bare address, and its canonical form is the address as nft prints it, so the mask
  never shows in a difference or a digest.
\<close>

lemma hostCIDR_accepted:
  assumes "netip_ParseAddr a = Some x" "addr_zone x = []"
  shows "ValidateCIDR (hostCIDR a) = Inr () \<and> ValidateCIDR a \<noteq> Inr () \<and>
    CanonicalizeElements [hostCIDR a] = [addr_String x]"
proof -
  have "cut_byte (CHR ''/'') a = None" using no_slash[OF assms] by (simp add: cut_byte_None)
  then have "net_ParseCIDR a = None" by (simp add: net_ParseCIDR_def)
  then show ?thesis
    using hostCIDR_valid[OF assms] hostCIDR_canon[OF assms] by (auto simp: ValidateCIDR_iff CanonicalizeElements_def)
qed

end
