(* ===== verification/DaemonModel.thy ===== *)
theory DaemonModel
  imports ReconcileOps
begin

text \<open>
  The block-node monitor of the daemon: \<open>internal/daemon/blocknode\<close> (the pod watcher and the statusz
  poll loop), the privileged delegation of \<open>internal/daemon/privexec\<close> and the worker command
  \<open>block node reconcile-shaper\<close> that it executes (\<open>cmd/cli\<close>).

  A goroutine is cut at its atomic points: a critical section under \<open>mu\<close>, a channel operation, a call of
  the delegator. The functions below are these pieces and their sequential compositions; the step
  relation of \<open>DaemonOps\<close> interleaves the pieces. Pods come from the Kubernetes client; the model has
  the fields that the code reads. Times are nanoseconds.
\<close>

section \<open>Privileged execution\<close>

record exec_env =
  x_Executable :: "string option"
  x_Stat :: "string \<Rightarrow> bool"

definition filepath_Dir :: "string \<Rightarrow> string" where
  "filepath_Dir p = filepath_Clean (case cut_last_byte (CHR ''/'') p of None \<Rightarrow> [] | Some (a, _) \<Rightarrow> a @ ''/'')"

definition cliBinName :: string where
  "cliBinName = ''solo-provisioner''"

definition sudoBinCandidates :: "string list" where
  "sudoBinCandidates = [''/usr/bin/sudo'', ''/bin/sudo'', ''/usr/sbin/sudo'']"

definition cliBinCandidates :: "string list" where
  "cliBinCandidates = [''/opt/solo/weaver/bin/'' @ cliBinName, ''/usr/local/bin/'' @ cliBinName]"

definition resolve_bin :: "exec_env \<Rightarrow> string list \<Rightarrow> string \<Rightarrow> string result" where
  "resolve_bin X candidates reason = (case find (x_Stat X) candidates of
     Some c \<Rightarrow> Inr c
   | None \<Rightarrow> Inl (Err ExternalError reason))"

definition resolveCLI :: "exec_env \<Rightarrow> string result" where
  "resolveCLI X =
     resolve_bin X (case x_Executable X of
         None \<Rightarrow> cliBinCandidates
       | Some exe \<Rightarrow> filepath_Clean (filepath_Dir exe @ ''/'' @ cliBinName) # cliBinCandidates) ''CLIBinaryNotFound''"

text \<open>The argument vector, program first, that a delegation executes.\<close>

definition Run_argv :: "exec_env \<Rightarrow> string list \<Rightarrow> string list result" where
  "Run_argv X args =
     (if length args = 0 then Inl (Err ExternalError ''PrivilegedExecNoArgs'')
      else rbind (resolve_bin X sudoBinCandidates ''SudoBinaryNotFound'') (\<lambda>sudoBin.
        rbind (resolveCLI X) (\<lambda>cliBin. Inr ([sudoBin, ''-n'', cliBin] @ args))))"

definition NetworkPolicySet :: "exec_env \<Rightarrow> string \<Rightarrow> string list \<Rightarrow> string list result" where
  "NetworkPolicySet X name cidrs =
     (if strings_TrimSpace name = [] then Inl (Err ExternalError ''PolicyNameEmpty'')
      else Run_argv X ([''network'', ''policy'', ''set'', ''--name'', name] @
        (if 0 < length cidrs then [''--cidrs'', strings_Join '','' cidrs] else [])))"

definition tcAttach :: "exec_env \<Rightarrow> string \<Rightarrow> bool \<Rightarrow> string list result" where
  "tcAttach X veth detach =
     (if strings_TrimSpace veth = [] then Inl (Err ExternalError ''VethNameEmpty'')
      else Run_argv X ([''block'', ''node'', ''tc-attach'', ''--veth'', veth] @ (if detach then [''--detach''] else [])))"

definition ReconcileShaper :: "exec_env \<Rightarrow> string \<Rightarrow> string list result" where
  "ReconcileShaper X statuszURL =
     (if strings_TrimSpace statuszURL = [] then Inl (Err ExternalError ''StatuszURLEmpty'')
      else Run_argv X [''block'', ''node'', ''reconcile-shaper'', ''--statusz-url'', statuszURL])"

definition ReconcileShaperCheck_argv :: "exec_env \<Rightarrow> string \<Rightarrow> string list result" where
  "ReconcileShaperCheck_argv X statuszURL =
     (if strings_TrimSpace statuszURL = [] then Inl (Err ExternalError ''StatuszURLEmpty'')
      else rbind (resolveCLI X) (\<lambda>cliBin.
        Inr ([cliBin] @ [''block'', ''node'', ''reconcile-shaper'', ''--statusz-url'', statuszURL, ''--check'', ''--output'', ''json''])))"

text \<open>What the check makes of the worker's answer: \<open>None\<close> for a failed run, otherwise the outcome of
  decoding the digest from its output.\<close>

definition ReconcileShaperCheck_digest :: "string option option \<Rightarrow> string result" where
  "ReconcileShaperCheck_digest out = (case out of
     None \<Rightarrow> Inl (Err ExternalError ''ReconcileShaperCheckFailed'')
   | Some None \<Rightarrow> Inl (Err ExternalError ''ReconcileShaperCheckParseFailed'')
   | Some (Some digest) \<Rightarrow>
       if digest = [] then Inl (Err ExternalError ''ReconcileShaperCheckEmptyDigest'') else Inr digest)"

section \<open>The worker command\<close>

definition strconv_ParseBool :: "string \<Rightarrow> bool option" where
  "strconv_ParseBool s =
     (if s \<in> {''1'', ''t'', ''T'', ''TRUE'', ''true'', ''True''} then Some True
      else if s \<in> {''0'', ''f'', ''F'', ''FALSE'', ''false'', ''False''} then Some False else None)"

definition isCheckTrueFlag :: "string \<Rightarrow> bool" where
  "isCheckTrueFlag arg =
     (if arg = ''--check'' then True
      else if \<not> strings_HasPrefix arg ''--check='' then False
      else strconv_ParseBool (strings_TrimPrefix arg ''--check='') = Some True)"

definition isPrivilegeExemptInvocation :: "string list \<Rightarrow> bool" where
  "isPrivilegeExemptInvocation args =
     (if length args = 0 then True
      else if list_ex (\<lambda>a. a \<in> {''--version'', ''-v'', ''--help'', ''-h''}) args then True
      else if hd args = ''version'' \<or> hd args = ''help'' then True
      else ''reconcile-shaper'' \<in> set args \<and> list_ex isCheckTrueFlag args)"

text \<open>The worker against a block node that answers as \<open>H\<close> and a host in state \<open>s\<close>: \<open>--check\<close> prints the
  digest; the apply path exits with an error exactly when \<open>Apply\<close> returns one.\<close>

definition runReconcileCheck :: "http_env \<Rightarrow> string \<Rightarrow> string result" where
  "runReconcileCheck H statuszURL = rbind (Check (statusz_fetcher H statuszURL)) (\<lambda>c. Inr (cr_Digest c))"

definition runReconcileApply :: "http_env \<Rightarrow> 'k runner \<Rightarrow> pm_env \<Rightarrow> string \<Rightarrow> ('k, unit) pm_action" where
  "runReconcileApply H R env statuszURL = sbind (Apply (statusz_fetcher H statuszURL) R env) (\<lambda>_. sret ())"

section \<open>Pods\<close>

record pod =
  pod_UID :: string
  pod_Conditions :: "(string \<times> string) list"
  pod_PodIP :: string
  pod_Containers :: "(string \<times> int) list list"

definition podContainersReady :: "pod \<Rightarrow> bool" where
  "podContainersReady p = (case find (\<lambda>c. fst c = ''ContainersReady'') (pod_Conditions p) of
     None \<Rightarrow> False
   | Some c \<Rightarrow> snd c = ''True'')"

definition bnHealthContainerPort :: "pod \<Rightarrow> string" where
  "bnHealthContainerPort p = (case find (\<lambda>c. fst c = ''health'') (concat (pod_Containers p)) of
     None \<Rightarrow> ''40983''
   | Some c \<Rightarrow> itoa_int (snd c))"

section \<open>The shared state of the monitor\<close>

record monitor =
  mo_statuszURL :: string
  mo_attached :: "(string \<times> string) list"
  mo_inflight :: "string list"
  mo_discoveredURL :: string
  mo_discoveredPod :: string
  mo_urlChanged :: bool

definition effectiveStatuszURL :: "monitor \<Rightarrow> string" where
  "effectiveStatuszURL m = (if mo_statuszURL m \<noteq> [] then mo_statuszURL m else mo_discoveredURL m)"

text \<open>The channel has capacity one and the send does not block.\<close>

definition signalURLChanged :: "monitor \<Rightarrow> monitor" where
  "signalURLChanged m = m\<lparr>mo_urlChanged := True\<rparr>"

text \<open>The critical section of \<open>recordDiscoveredStatusz\<close>; the flag says that a signal follows.\<close>

definition recordDiscoveredStatusz :: "pod \<Rightarrow> monitor \<Rightarrow> monitor \<times> bool" where
  "recordDiscoveredStatusz p m =
     (if \<not> podContainersReady p then (m, False)
      else if pod_PodIP p = [] then (m, False)
      else let url = ''http://'' @ net_JoinHostPort (pod_PodIP p) (bnHealthContainerPort p) in
        (m\<lparr>mo_discoveredURL := url, mo_discoveredPod := pod_UID p\<rparr>, mo_discoveredURL m \<noteq> url))"

text \<open>The critical section of \<open>dispatchUpsert\<close>; the flag says that a goroutine is started.\<close>

definition dispatchUpsert :: "pod \<Rightarrow> monitor \<Rightarrow> monitor \<times> bool" where
  "dispatchUpsert p m =
     (if pod_UID p \<in> set (mo_inflight m) then (m, False)
      else (m\<lparr>mo_inflight := pod_UID p # mo_inflight m\<rparr>, True))"

text \<open>The critical section of \<open>handlePodDelete\<close>: whether the endpoint was cleared, and the veth to detach.\<close>

definition handlePodDelete :: "pod \<Rightarrow> monitor \<Rightarrow> monitor \<times> bool \<times> string option" where
  "handlePodDelete p m =
     (let cleared = mo_discoveredPod m = pod_UID p;
          m1 = (if cleared then m\<lparr>mo_discoveredURL := [], mo_discoveredPod := []\<rparr> else m)
      in (m1\<lparr>mo_attached := al_del (pod_UID p) (mo_attached m)\<rparr>, cleared, map_of (mo_attached m) (pod_UID p)))"

section \<open>Attaching a veth\<close>

datatype resolve_outcome = Resolved string | NotYetVisible | ResolveFails | Cancelled

definition vethResolveAttempts :: nat where
  "vethResolveAttempts = 15"

text \<open>The loop of \<open>resolveVethWithRetry\<close> on the outcomes of its attempts.\<close>

fun resolve_loop :: "nat \<Rightarrow> resolve_outcome list \<Rightarrow> string option" where
  "resolve_loop 0 os = None"
| "resolve_loop (Suc n) [] = None"
| "resolve_loop (Suc n) (out # os) = (case out of
     Resolved veth \<Rightarrow> Some veth
   | NotYetVisible \<Rightarrow> resolve_loop n os
   | ResolveFails \<Rightarrow> None
   | Cancelled \<Rightarrow> None)"

definition resolveVethWithRetry :: "resolve_outcome list \<Rightarrow> string option" where
  "resolveVethWithRetry os = resolve_loop vethResolveAttempts os"

text \<open>\<open>scanHostVeth\<close> on the entries of \<open>/sys/class/net\<close> and the content of their \<open>ifindex\<close> files.\<close>

definition readIfindex :: "string option \<Rightarrow> int result" where
  "readIfindex file = (case file of
     None \<Rightarrow> Inl (Err ExternalError ''read'')
   | Some d \<Rightarrow> (case strconv_Atoi (strings_TrimSpace d) of
       None \<Rightarrow> Inl (Err IllegalFormat ''parse ifindex'')
     | Some v \<Rightarrow> Inr v))"

definition scanHostVeth :: "(string \<times> string option) list option \<Rightarrow> int \<Rightarrow> string result" where
  "scanHostVeth entries iflink = (case entries of
     None \<Rightarrow> Inl (Err ExternalError ''read sys class net'')
   | Some es \<Rightarrow> (case find (\<lambda>e. readIfindex (snd e) = Inr iflink) es of
       None \<Rightarrow> Inl (Err ExternalError ''host veth not yet visible for pod iflink'')
     | Some e \<Rightarrow> Inr (fst e)))"

section \<open>The poll loop\<close>

record poll =
  po_lastDigest :: string
  po_lastApply :: "int option"
  po_lastURL :: string

definition poll_start :: poll where
  "poll_start = \<lparr>po_lastDigest = [], po_lastApply = None, po_lastURL = []\<rparr>"

definition statuszForceResyncInterval :: int where
  "statuszForceResyncInterval = 3600 * 10 ^ 9"

text \<open>\<open>reconcile\<close> in runStatuszPoll: noting the endpoint, the gate, and what a successful apply records.\<close>

definition poll_note :: "string \<Rightarrow> poll \<Rightarrow> poll" where
  "poll_note url p =
     (if url \<noteq> po_lastURL p then p\<lparr>po_lastURL := url, po_lastDigest := [], po_lastApply := None\<rparr> else p)"

definition poll_skips :: "string \<Rightarrow> int \<Rightarrow> poll \<Rightarrow> bool" where
  "poll_skips digest now p \<longleftrightarrow> digest = po_lastDigest p \<and>
     (case po_lastApply p of None \<Rightarrow> False | Some t \<Rightarrow> now - t < statuszForceResyncInterval)"

definition poll_applied :: "string \<Rightarrow> int \<Rightarrow> poll \<Rightarrow> poll" where
  "poll_applied digest now p = p\<lparr>po_lastDigest := digest, po_lastApply := Some now\<rparr>"

record 's delegator =
  d_Check :: "string \<Rightarrow> 's \<Rightarrow> string result"
  d_Apply :: "string \<Rightarrow> ('s, unit) action"

definition poll_reconcile :: "'s delegator \<Rightarrow> string \<Rightarrow> int \<Rightarrow> int \<Rightarrow> (poll \<times> 's, unit) action" where
  "poll_reconcile D url now now' = (\<lambda>(p0, s).
     let p = poll_note url p0 in
     if url = [] then (Inr (), (p, s))
     else (case d_Check D url s of
         Inl e \<Rightarrow> (Inl e, (p, s))
       | Inr digest \<Rightarrow>
           if poll_skips digest now p then (Inr (), (p, s))
           else (case d_Apply D url s of
               (Inl e, s') \<Rightarrow> (Inl e, (p, s'))
             | (Inr _, s') \<Rightarrow> (Inr (), (poll_applied digest now' p, s')))))"

text \<open>The production delegator, with sudo and the binaries in place: it runs the worker.\<close>

definition worker :: "http_env \<Rightarrow> 'k runner \<Rightarrow> pm_env \<Rightarrow> 'k pm_state delegator" where
  "worker H R env =
     \<lparr>d_Check = (\<lambda>url s. ReconcileShaperCheck_digest (case runReconcileCheck H url of Inl _ \<Rightarrow> None | Inr d \<Rightarrow> Some (Some d))),
      d_Apply = (\<lambda>url. smap_err (wrap ExternalError ''PrivilegedExecFailed'') (runReconcileApply H R env url))\<rparr>"

section \<open>Supervision\<close>

definition responsibilityBackoffInitial :: int where
  "responsibilityBackoffInitial = 5 * 10 ^ 9"

definition responsibilityBackoffMax :: int where
  "responsibilityBackoffMax = 300 * 10 ^ 9"

definition minDuration :: "int \<Rightarrow> int \<Rightarrow> int" where
  "minDuration a b = (if a < b then a else b)"

text \<open>The delays that \<open>superviseResponsibility\<close> waits, from a current back-off, on the outcomes of the
  runs of its responsibility (\<open>True\<close> for an error). The product with the factor \<open>2.0\<close> is exact: the
  durations stay far below \<open>2 ^ 53\<close>.\<close>

fun supervise_delays :: "int \<Rightarrow> bool list \<Rightarrow> int list" where
  "supervise_delays backoff [] = []"
| "supervise_delays backoff (err # rest) =
     (if \<not> err then supervise_delays responsibilityBackoffInitial rest
      else backoff # supervise_delays (minDuration (backoff * 2) responsibilityBackoffMax) rest)"

definition superviseResponsibility :: "bool list \<Rightarrow> int list" where
  "superviseResponsibility runs = supervise_delays responsibilityBackoffInitial runs"

end
