(* ===== verification/DaemonOps.thy ===== *)
theory DaemonOps
  imports DaemonModel
begin

text \<open>
  The goroutines of the block-node monitor interleaved: the watch loop, one attach goroutine per pod and the
  poll loop, which share the monitor under its mutex and a channel of capacity one. Then the poll loop on
  top of the worker it executes, down to the kernel sets.
\<close>

section \<open>Interleavings\<close>

datatype watch_pc = WIdle | WSignalUpsert pod | WDispatch pod | WSignalDelete "string option" | WDetach "string option"

datatype attach_pc = AStart | ACheck string | AAttach string | ARecord string | ADone

record goroutine =
  g_pod :: pod
  g_pc :: attach_pc

datatype poll_pc = PReconcile | PChecking string | PApplying string string | PIdle | PBackoff | PStopped

record world =
  w_mon :: monitor
  w_watch :: watch_pc
  w_attach :: "goroutine list"
  w_poll :: poll
  w_pc :: poll_pc

definition attached_veth :: "monitor \<Rightarrow> pod \<Rightarrow> string" where
  "attached_veth m p = (case map_of (mo_attached m) (pod_UID p) of None \<Rightarrow> [] | Some v \<Rightarrow> v)"

text \<open>One step of an attach goroutine for \<open>handlePodUpsert\<close>: the outcomes of the resolver and of the delegated
  \<open>tc-attach\<close> are arbitrary. The last step is the deferred removal of the in-flight mark.\<close>

inductive attach_step :: "monitor \<Rightarrow> goroutine \<Rightarrow> monitor \<Rightarrow> goroutine option \<Rightarrow> bool" where
  not_ready: "g_pc g = AStart \<Longrightarrow> \<not> podContainersReady (g_pod g) \<Longrightarrow> attach_step m g m (Some (g\<lparr>g_pc := ADone\<rparr>))"
| unresolved: "g_pc g = AStart \<Longrightarrow> podContainersReady (g_pod g) \<Longrightarrow> resolveVethWithRetry os = None \<Longrightarrow>
    attach_step m g m (Some (g\<lparr>g_pc := ADone\<rparr>))"
| resolved: "g_pc g = AStart \<Longrightarrow> podContainersReady (g_pod g) \<Longrightarrow> resolveVethWithRetry os = Some veth \<Longrightarrow>
    attach_step m g m (Some (g\<lparr>g_pc := ACheck veth\<rparr>))"
| already: "g_pc g = ACheck veth \<Longrightarrow> attached_veth m (g_pod g) = veth \<Longrightarrow> attach_step m g m (Some (g\<lparr>g_pc := ADone\<rparr>))"
| proceed: "g_pc g = ACheck veth \<Longrightarrow> attached_veth m (g_pod g) \<noteq> veth \<Longrightarrow> attach_step m g m (Some (g\<lparr>g_pc := AAttach veth\<rparr>))"
| attach_fails: "g_pc g = AAttach veth \<Longrightarrow> attach_step m g m (Some (g\<lparr>g_pc := ADone\<rparr>))"
| attach_ok: "g_pc g = AAttach veth \<Longrightarrow> attach_step m g m (Some (g\<lparr>g_pc := ARecord veth\<rparr>))"
| recorded: "g_pc g = ARecord veth \<Longrightarrow>
    attach_step m g (m\<lparr>mo_attached := al_put (pod_UID (g_pod g)) veth (mo_attached m)\<rparr>) (Some (g\<lparr>g_pc := ADone\<rparr>))"
| finished: "g_pc g = ADone \<Longrightarrow>
    attach_step m g (m\<lparr>mo_inflight := removeAll (pod_UID (g_pod g)) (mo_inflight m)\<rparr>) None"

text \<open>One step of the watch loop: any event may arrive when it waits.\<close>

inductive watch_step :: "monitor \<Rightarrow> watch_pc \<Rightarrow> monitor \<Rightarrow> watch_pc \<Rightarrow> goroutine list \<Rightarrow> bool" where
  upsert: "recordDiscoveredStatusz p m = (m', changed) \<Longrightarrow>
    watch_step m WIdle m' (if changed then WSignalUpsert p else WDispatch p) []"
| upsert_signal: "watch_step m (WSignalUpsert p) (signalURLChanged m) (WDispatch p) []"
| dispatch: "dispatchUpsert p m = (m', started) \<Longrightarrow>
    watch_step m (WDispatch p) m' WIdle (if started then [\<lparr>g_pod = p, g_pc = AStart\<rparr>] else [])"
| delete: "handlePodDelete p m = (m', cleared, veth) \<Longrightarrow>
    watch_step m WIdle m' (if cleared then WSignalDelete veth else WDetach veth) []"
| delete_signal: "watch_step m (WSignalDelete veth) (signalURLChanged m) (WDetach veth) []"
| detach: "watch_step m (WDetach veth) m WIdle []"

text \<open>One step of the poll loop and of its supervisor; the outcomes of the delegated calls, the clock and the
  cancellation are arbitrary.\<close>

inductive poll_step :: "monitor \<Rightarrow> poll \<Rightarrow> poll_pc \<Rightarrow> monitor \<Rightarrow> poll \<Rightarrow> poll_pc \<Rightarrow> bool" where
  reconcile: "url = effectiveStatuszURL m \<Longrightarrow>
    poll_step m p PReconcile m (poll_note url p) (if url = [] then PIdle else PChecking url)"
| check_fails: "poll_step m p (PChecking url) m p PBackoff"
| check_skips: "poll_skips digest now p \<Longrightarrow> poll_step m p (PChecking url) m p PIdle"
| check_differs: "\<not> poll_skips digest now p \<Longrightarrow> poll_step m p (PChecking url) m p (PApplying url digest)"
| apply_fails: "poll_step m p (PApplying url digest) m p PBackoff"
| apply_ok: "poll_step m p (PApplying url digest) m (poll_applied digest now p) PIdle"
| tick: "poll_step m p PIdle m p PReconcile"
| woken: "mo_urlChanged m \<Longrightarrow> poll_step m p PIdle (m\<lparr>mo_urlChanged := False\<rparr>) p PReconcile"
| restart: "poll_step m p PBackoff m poll_start PReconcile"
| cancel: "poll_step m p pc m p PStopped"

inductive step :: "world \<Rightarrow> world \<Rightarrow> bool" where
  watcher: "watch_step (w_mon w) (w_watch w) m pc new \<Longrightarrow>
    step w (w\<lparr>w_mon := m, w_watch := pc, w_attach := new @ w_attach w\<rparr>)"
| attacher: "w_attach w = gs @ g # gs' \<Longrightarrow> attach_step (w_mon w) g m g' \<Longrightarrow>
    step w (w\<lparr>w_mon := m, w_attach := gs @ (case g' of None \<Rightarrow> [] | Some h \<Rightarrow> [h]) @ gs'\<rparr>)"
| poller: "poll_step (w_mon w) (w_poll w) (w_pc w) m p pc \<Longrightarrow>
    step w (w\<lparr>w_mon := m, w_poll := p, w_pc := pc\<rparr>)"

inductive reachable :: "world \<Rightarrow> bool" where
  reach_init: "mo_attached m = [] \<Longrightarrow> mo_inflight m = [] \<Longrightarrow> mo_discoveredURL m = [] \<Longrightarrow> mo_discoveredPod m = [] \<Longrightarrow>
    \<not> mo_urlChanged m \<Longrightarrow> reachable \<lparr>w_mon = m, w_watch = WIdle, w_attach = [], w_poll = poll_start, w_pc = PReconcile\<rparr>"
| reach_step: "reachable w \<Longrightarrow> step w w' \<Longrightarrow> reachable w'"

section \<open>At most one attach per pod\<close>

definition uid_of :: "goroutine \<Rightarrow> string" where
  "uid_of g = pod_UID (g_pod g)"

definition guarded :: "world \<Rightarrow> bool" where
  "guarded w \<longleftrightarrow> distinct (map uid_of (w_attach w)) \<and> set (mo_inflight (w_mon w)) = uid_of ` set (w_attach w)"

lemma watch_guarded:
  assumes "watch_step m pc m' pc' new" "distinct (map uid_of gs)" "set (mo_inflight m) = uid_of ` set gs"
  shows "distinct (map uid_of (new @ gs)) \<and> set (mo_inflight m') = uid_of ` set (new @ gs)"
  using assms
  by (induction rule: watch_step.induct)
    (auto simp: recordDiscoveredStatusz_def signalURLChanged_def dispatchUpsert_def handlePodDelete_def Let_def uid_of_def split: if_splits)

lemma attach_guarded:
  assumes "attach_step m g m' g'" "distinct (map uid_of (gs @ g # gs'))" "set (mo_inflight m) = uid_of ` set (gs @ g # gs')"
  shows "distinct (map uid_of (gs @ (case g' of None \<Rightarrow> [] | Some h \<Rightarrow> [h]) @ gs')) \<and>
    set (mo_inflight m') = uid_of ` set (gs @ (case g' of None \<Rightarrow> [] | Some h \<Rightarrow> [h]) @ gs')"
  using assms by (induction rule: attach_step.induct) (auto simp: uid_of_def, (metis imageI)+)

lemma poll_mon: "poll_step m p pc m' p' pc' \<Longrightarrow> m' = m \<or> m' = m\<lparr>mo_urlChanged := False\<rparr>"
  by (induction rule: poll_step.induct) auto

lemma reachable_guarded: "reachable w \<Longrightarrow> guarded w"
proof (induction rule: reachable.induct)
  case (reach_step w w')
  from reach_step(2,3) show ?case
  proof (induction rule: step.induct)
    case (watcher w m pc new)
    then show ?case using watch_guarded[OF watcher(1), of "w_attach w"] by (simp add: guarded_def)
  next
    case (attacher w gs g gs' m g')
    then show ?case using attach_guarded[OF attacher(2), of gs gs'] by (simp add: guarded_def)
  next
    case (poller w m p pc)
    then show ?case using poll_mon[OF poller(1)] by (auto simp: guarded_def)
  qed
qed (simp add: guarded_def)

section \<open>No lost wake-up\<close>

definition about_to_signal :: "watch_pc \<Rightarrow> bool" where
  "about_to_signal pc \<longleftrightarrow> (case pc of WSignalUpsert _ \<Rightarrow> True | WSignalDelete _ \<Rightarrow> True | _ \<Rightarrow> False)"

definition awake :: "world \<Rightarrow> bool" where
  "awake w \<longleftrightarrow> effectiveStatuszURL (w_mon w) = po_lastURL (w_poll w) \<or> mo_urlChanged (w_mon w) \<or>
     about_to_signal (w_watch w) \<or> w_pc w \<in> {PReconcile, PBackoff, PStopped}"

lemma reachable_awake: "reachable w \<Longrightarrow> awake w"
proof (induction rule: reachable.induct)
  case (reach_step w w')
  from reach_step(2,3) show ?case
  proof (induction rule: step.induct)
    case (watcher w m pc new)
    from watcher(1) have "effectiveStatuszURL m = effectiveStatuszURL (w_mon w) \<and> mo_urlChanged m = mo_urlChanged (w_mon w) \<and>
        (about_to_signal (w_watch w) \<longrightarrow> about_to_signal pc) \<or> mo_urlChanged m \<or> about_to_signal pc"
      by (induction rule: watch_step.induct)
        (auto simp: recordDiscoveredStatusz_def signalURLChanged_def dispatchUpsert_def handlePodDelete_def Let_def
          effectiveStatuszURL_def about_to_signal_def split: if_splits)
    then show ?case using watcher(2) by (auto simp: awake_def)
  next
    case (attacher w gs g gs' m g')
    from attacher(2) have "effectiveStatuszURL m = effectiveStatuszURL (w_mon w)" "mo_urlChanged m = mo_urlChanged (w_mon w)"
      by (induction rule: attach_step.induct) (auto simp: effectiveStatuszURL_def)
    then show ?case using attacher(3) by (simp add: awake_def)
  next
    case (poller w m p pc)
    from poller show ?case
      by (induction rule: poll_step.cases) (auto simp: awake_def poll_note_def poll_applied_def effectiveStatuszURL_def)
  qed
qed (simp add: awake_def)


section \<open>The length of a digest\<close>

lemma worker_digest: "d_Check (worker H R env) url s = (case runReconcileCheck H url of
    Inl _ \<Rightarrow> Inl (Err ExternalError ''ReconcileShaperCheckFailed'') | Inr d \<Rightarrow> Inr d)"
proof -
  have "d \<noteq> []" if "runReconcileCheck H url = Inr d" for d
    using that length_digest by (auto simp: runReconcileCheck_def Check_def rbind_Inr_iff membershipDigest_def Let_def split_beta)
      (metis length_0_conv numeral_eq_iff zero_neq_numeral)
  then show ?thesis by (auto simp: worker_def ReconcileShaperCheck_digest_def split: sum.splits)
qed

section \<open>The poll loop on top of the worker\<close>

lemma worker_apply: "d_Apply (worker H R env) url s =
  (case Apply (statusz_fetcher H url) R env s of (Inl e, s') \<Rightarrow> (Inl (Err ExternalError ''PrivilegedExecFailed''), s') | (Inr _, s') \<Rightarrow> (Inr (), s'))"
  by (cases "Apply (statusz_fetcher H url) R env s"; cases "fst (Apply (statusz_fetcher H url) R env s)")
    (auto simp: worker_def runReconcileApply_def smap_err_apply sbind_def wrap_def)

lemma Check_of_Apply:
  assumes "Apply F R env s = (Inr res, s')"
  shows "\<exists>c. Check F = Inr c \<and> cr_Digest c = res_Digest res"
proof -
  from assms obtain inb outb canonm memD portD applied where "f_Inbound F = Inr inb" "f_Outbound F = Inr outb"
    "canonicalDesiredMembership (bucketizeEndpoints inb outb) = Inr canonm"
    "res_Digest res = membershipDigest (combinedCanonical canonm (desiredPorts inb))"
    by (rule Apply_Inr) auto
  then show ?thesis by (simp add: Check_def fetchEndpoints_def Let_def)
qed

text \<open>What a tick does that reaches the apply path.\<close>

lemma poll_applies:
  assumes "Apply (statusz_fetcher H url) R env s = (Inr res, s')" "url \<noteq> []" "\<not> poll_skips (res_Digest res) now (poll_note url p)"
  shows "poll_reconcile (worker H R env) url now now' (p, s) = (Inr (), (poll_applied (res_Digest res) now' (poll_note url p), s'))"
proof -
  obtain c where "Check (statusz_fetcher H url) = Inr c" "cr_Digest c = res_Digest res" using Check_of_Apply[OF assms(1)] by blast
  then have "d_Check (worker H R env) url s = Inr (res_Digest res)" by (simp add: worker_digest runReconcileCheck_def)
  then show ?thesis using assms by (simp add: poll_reconcile_def worker_apply)
qed

text \<open>A tick that the gate stops.\<close>

lemma poll_gated:
  assumes "Check (statusz_fetcher H url) = Inr c" "url \<noteq> []" "poll_skips (cr_Digest c) now (poll_note url p)"
  shows "poll_reconcile (worker H R env) url now now' (p, s) = (Inr (), (poll_note url p, s))"
  using assms by (simp add: poll_reconcile_def worker_digest runReconcileCheck_def)

lemma poll_note_applied [simp]:
  "poll_note url (poll_applied d t (poll_note url p)) = poll_applied d t (poll_note url p)"
  by (simp add: poll_note_def poll_applied_def)

lemma skips_applied: "poll_skips d now (poll_applied d t p) \<longleftrightarrow> now - t < statuszForceResyncInterval"
  by (simp add: poll_skips_def poll_applied_def)

section \<open>Back-off\<close>

lemma supervise_bounds:
  assumes "d \<in> set (supervise_delays b runs)" "responsibilityBackoffInitial \<le> b" "b \<le> responsibilityBackoffMax"
  shows "responsibilityBackoffInitial \<le> d \<and> d \<le> responsibilityBackoffMax"
  using assms
proof (induction b runs rule: supervise_delays.induct)
  case (2 b err rest)
  have m: "responsibilityBackoffInitial \<le> minDuration (b * 2) responsibilityBackoffMax"
    "minDuration (b * 2) responsibilityBackoffMax \<le> responsibilityBackoffMax"
    using 2(4) by (auto simp: minDuration_def responsibilityBackoffInitial_def responsibilityBackoffMax_def)
  have i: "responsibilityBackoffInitial \<le> responsibilityBackoffMax"
    by (simp add: responsibilityBackoffInitial_def responsibilityBackoffMax_def)
  show ?case
  proof (cases err)
    case True
    then show ?thesis using 2(2)[OF _ _ m] 2(3-5) by auto
  next
    case False
    then show ?thesis using 2(1)[OF _ _ order_refl i] 2(3) by simp
  qed
qed simp

lemma min_double:
  assumes "0 < (b :: int)" "b \<le> M"
  shows "min (min (b * 2) M * 2 ^ i) M = min (b * 2 ^ Suc i) M"
proof (cases "b * 2 \<le> M")
  case False
  have p: "(1 :: int) \<le> 2 ^ i" by simp
  have "M * 1 \<le> M * 2 ^ i" using p assms by (intro mult_left_mono) auto
  moreover have "b * 2 * 1 \<le> b * 2 * 2 ^ i" using p assms by (intro mult_left_mono) auto
  ultimately show ?thesis using False by (simp add: mult.assoc)
qed (simp add: mult.assoc)

lemma supervise_faults:
  assumes "0 < b" "b \<le> responsibilityBackoffMax"
  shows "supervise_delays b (replicate n True) = map (\<lambda>i. min (b * 2 ^ i) responsibilityBackoffMax) [0..<n]"
  using assms
proof (induction n arbitrary: b)
  case (Suc n)
  have m: "minDuration (b * 2) responsibilityBackoffMax = min (b * 2) responsibilityBackoffMax" by (simp add: minDuration_def)
  have "supervise_delays (min (b * 2) responsibilityBackoffMax) (replicate n True) =
    map (\<lambda>i. min (min (b * 2) responsibilityBackoffMax * 2 ^ i) responsibilityBackoffMax) [0..<n]"
    using Suc.prems by (intro Suc.IH) auto
  also have "\<dots> = map (\<lambda>i. min (b * 2 ^ Suc i) responsibilityBackoffMax) [0..<n]" by (simp only: min_double[OF Suc.prems])
  finally show ?case using Suc.prems by (simp add: m map_upt_Suc del: upt_Suc)
qed simp

section \<open>Privileges\<close>

text \<open>
  The command lines of the daemon and the privilege gate of the CLI fit together, for an endpoint that is a URL: the check
  runs without sudo and passes the gate, the apply runs under one of the fixed sudo binaries and is subject to the
  gate; the executed CLI is the sibling of the daemon or one of the fixed install paths.
\<close>

lemma resolve_bin_Inr: "resolve_bin X cs r = Inr b \<Longrightarrow> b \<in> set cs \<and> x_Stat X b"
  by (auto simp: resolve_bin_def find_Some_iff split: option.splits)

lemma http_url: "strings_HasPrefix url ''http'' \<Longrightarrow> \<exists>r. url = ''http'' @ r"
  by (auto simp: strings_HasPrefix_def prefix_def)

lemma delegation_privileges:
  assumes "strings_HasPrefix url ''http''"
  shows "ReconcileShaperCheck_argv X url = Inr argv \<Longrightarrow> resolveCLI X = Inr (hd argv) \<and> isPrivilegeExemptInvocation (tl argv)"
    and "ReconcileShaper X url = Inr argv \<Longrightarrow>
      hd argv \<in> set sudoBinCandidates \<and> resolveCLI X = Inr (argv ! 2) \<and> \<not> isPrivilegeExemptInvocation (drop 3 argv)"
proof -
  obtain r where url: "url = ''http'' @ r" using http_url[OF assms] by blast
  show "ReconcileShaperCheck_argv X url = Inr argv \<Longrightarrow> resolveCLI X = Inr (hd argv) \<and> isPrivilegeExemptInvocation (tl argv)"
    by (auto simp: ReconcileShaperCheck_argv_def rbind_Inr_iff isPrivilegeExemptInvocation_def isCheckTrueFlag_def url split: if_splits)
  show "hd argv \<in> set sudoBinCandidates \<and> resolveCLI X = Inr (argv ! 2) \<and> \<not> isPrivilegeExemptInvocation (drop 3 argv)"
    if "ReconcileShaper X url = Inr argv"
    using that by (auto simp: ReconcileShaper_def Run_argv_def rbind_Inr_iff isPrivilegeExemptInvocation_def isCheckTrueFlag_def
        strings_HasPrefix_def url split: if_splits dest!: resolve_bin_Inr)
qed

section \<open>A block node for the witnesses\<close>

definition bn_http :: http_env where
  "bn_http = \<lparr>h_JoinPath = (\<lambda>b p. Some (b @ ''/'' @ p)), h_NewRequest = (\<lambda>_. True), h_Do = (\<lambda>url. Response 200 url),
     h_Decode = (\<lambda>body. if strings_HasSuffix body ''inbound'' then Some bn_in else Some bn_out)\<rparr>"

definition bn_url :: string where
  "bn_url = ''http://10.0.0.5:40983''"

lemma bn_http_fetcher: "statusz_fetcher bn_http bn_url = bn_fetcher"
proof -
  have "statusz_fetcher bn_http bn_url = \<lparr>f_Inbound = Inr bn_in, f_Outbound = Inr bn_out\<rparr>"
    by (simp add: statusz_fetcher_def InboundClients_def OutboundClients_def statusz_fetch_def bn_http_def strings_HasSuffix_def bn_url_def)
      (simp add: suffix_def)
  then show ?thesis by (simp add: bn_in_def bn_out_def bn_fetcher_def)
qed

definition demo_uid :: string where
  "demo_uid = ''uid-1''"

definition demo_pod :: pod where
  "demo_pod = \<lparr>pod_UID = demo_uid, pod_Conditions = [(''ContainersReady'', ''True'')], pod_PodIP = ''10.0.0.5'',
     pod_Containers = [[(''grpc'', 40840), (''health'', 40983)]]\<rparr>"

definition idle_mon :: monitor where
  "idle_mon = \<lparr>mo_statuszURL = [], mo_attached = [], mo_inflight = [], mo_discoveredURL = [], mo_discoveredPod = [], mo_urlChanged = False\<rparr>"

definition found_mon :: monitor where
  "found_mon = idle_mon\<lparr>mo_discoveredURL := bn_url, mo_discoveredPod := demo_uid\<rparr>"

definition woken_world :: world where
  "woken_world = \<lparr>w_mon = signalURLChanged found_mon, w_watch = WDispatch demo_pod, w_attach = [], w_poll = poll_start, w_pc = PIdle\<rparr>"

lemma found: "recordDiscoveredStatusz demo_pod idle_mon = (found_mon, True)"
  by code_simp

lemma reachable_woken: "reachable woken_world"
proof -
  let ?w0 = "\<lparr>w_mon = idle_mon, w_watch = WIdle, w_attach = [], w_poll = poll_start, w_pc = PReconcile\<rparr>"
  have 0: "reachable ?w0" by (rule reach_init) (simp_all add: idle_mon_def)
  have "poll_step idle_mon poll_start PReconcile idle_mon (poll_note [] poll_start) (if ([] :: string) = [] then PIdle else PChecking [])"
    by (rule poll_step.reconcile) (simp add: effectiveStatuszURL_def idle_mon_def)
  then have "poll_step (w_mon ?w0) (w_poll ?w0) (w_pc ?w0) idle_mon poll_start PIdle" by (simp add: poll_note_def poll_start_def)
  from reach_step[OF 0 step.poller[OF this]] have 1: "reachable (?w0\<lparr>w_pc := PIdle\<rparr>)" by simp
  have "watch_step (w_mon (?w0\<lparr>w_pc := PIdle\<rparr>)) (w_watch (?w0\<lparr>w_pc := PIdle\<rparr>)) found_mon (WSignalUpsert demo_pod) []"
    using watch_step.upsert[OF found] by simp
  from reach_step[OF 1 step.watcher[OF this]]
  have 2: "reachable (?w0\<lparr>w_mon := found_mon, w_watch := WSignalUpsert demo_pod, w_pc := PIdle\<rparr>)" by simp
  have "watch_step found_mon (WSignalUpsert demo_pod) (signalURLChanged found_mon) (WDispatch demo_pod) []" by (rule watch_step.upsert_signal)
  then have "watch_step (w_mon (?w0\<lparr>w_mon := found_mon, w_watch := WSignalUpsert demo_pod, w_pc := PIdle\<rparr>))
    (w_watch (?w0\<lparr>w_mon := found_mon, w_watch := WSignalUpsert demo_pod, w_pc := PIdle\<rparr>)) (signalURLChanged found_mon) (WDispatch demo_pod) []" by simp
  from reach_step[OF 2 step.watcher[OF this]] show ?thesis by (simp add: woken_world_def)
qed

lemma bn_not_synced: "\<not> synced (lists set_runner bn_state) bn_in bn_out"
proof
  assume "synced (lists set_runner bn_state) bn_in bn_out"
  then have "mem_in_sync (lists set_runner bn_state) \<lparr>cb_policyName = ''bn-restricted'', cb_compound = False\<rparr>
    (endpoints_at (bucketizeEndpoints bn_in bn_out) k_restricted)" unfolding synced_def set_bindings by blast
  moreover have "endpoints_at (bucketizeEndpoints bn_in bn_out) k_restricted = []" by code_simp
  moreover have "PruneContainedCIDRs [] = []" by (simp add: Prune_eq_filter)
  ultimately show False
    by (auto simp: mem_in_sync_def live_of_def desiredElements_def set_runner_def bn_state_def V6SetName_def)
qed

lemma bn_locked: "\<exists>res. Apply bn_fetcher set_runner (quiet_env\<lparr>e_Lock := LockHeld\<rparr>) bn_state = (Inr res, bn_state)"
proof -
  have f: "f_Inbound bn_fetcher = Inr bn_in" "f_Outbound bn_fetcher = Inr bn_out" by (simp_all add: bn_in_def bn_out_def bn_fetcher_def)
  from bn_runs(2) obtain memD portD where d: "computePolicyDeltas (lists set_runner bn_state) (bucketizeEndpoints bn_in bn_out) = Inr memD"
    "computePortDeltas (lists set_runner bn_state) (desiredPorts bn_in) = Inr portD"
    by (auto simp: bn_batch_def rbind_Inr_iff)
  have "ApplySets set_runner (quiet_env\<lparr>e_Lock := LockHeld\<rparr>) m q bn_state = (Inr False, bn_state)" for m q
    by (simp add: ApplySets_def withLockNB_def)
  from Apply_eqI[OF f bn_runs(1) d this] show ?thesis by blast
qed

section \<open>Guarantees\<close>

text \<open>
  C7: no wake-up is lost. In every state that the goroutines of the monitor reach, in any interleaving and with any
  outcomes of the calls, if the poll loop waits, the watch loop is not about to send, and the endpoint is another one
  than the loop has last used, then a signal is in the channel, so that the loop does not wait for its ticker; the reconcile
  it wakes up to then uses the current endpoint.
\<close>

theorem no_lost_wakeup:
  assumes "reachable w" "w_pc w = PIdle" "\<not> about_to_signal (w_watch w)" "effectiveStatuszURL (w_mon w) \<noteq> po_lastURL (w_poll w)"
  shows "mo_urlChanged (w_mon w) \<and>
    (\<exists>w1 w2. step w w1 \<and> step w1 w2 \<and> po_lastURL (w_poll w2) = effectiveStatuszURL (w_mon w2) \<and> \<not> mo_urlChanged (w_mon w2))"
proof -
  have s: "mo_urlChanged (w_mon w)" using reachable_awake[OF assms(1)] assms(2-4) by (simp add: awake_def)
  let ?m = "(w_mon w)\<lparr>mo_urlChanged := False\<rparr>" and ?url = "effectiveStatuszURL (w_mon w)"
  let ?w1 = "w\<lparr>w_mon := ?m, w_poll := w_poll w, w_pc := PReconcile\<rparr>"
  let ?w2 = "?w1\<lparr>w_mon := ?m, w_poll := poll_note ?url (w_poll w), w_pc := (if ?url = [] then PIdle else PChecking ?url)\<rparr>"
  have e: "effectiveStatuszURL ?m = ?url" by (simp add: effectiveStatuszURL_def)
  have "step w ?w1" using poll_step.woken[OF s] assms(2) by (intro step.poller) simp
  moreover have "poll_step (w_mon ?w1) (w_poll ?w1) (w_pc ?w1) ?m (poll_note ?url (w_poll w)) (if ?url = [] then PIdle else PChecking ?url)"
    using poll_step.reconcile[of ?url ?m "w_poll w"] e by simp
  then have "step ?w1 ?w2" by (rule step.poller)
  moreover have "po_lastURL (w_poll ?w2) = effectiveStatuszURL (w_mon ?w2)" by (simp add: poll_note_def e)
  ultimately show ?thesis using s by fastforce
qed

text \<open>
  C13: the in-flight guard works. In every reachable state the attach goroutines are for distinct pods, and a pod is
  marked in flight exactly while its goroutine runs; in particular no mark is left behind that would keep a pod
  from ever being attached again.
\<close>

theorem one_attach_per_pod:
  assumes "reachable w"
  shows "distinct (map (\<lambda>g. pod_UID (g_pod g)) (w_attach w)) \<and>
    (\<forall>uid. uid \<in> set (mo_inflight (w_mon w)) \<longleftrightarrow> (\<exists>g \<in> set (w_attach w). pod_UID (g_pod g) = uid))"
  using reachable_guarded[OF assms] unfolding guarded_def uid_of_def[abs_def] by auto


text \<open>
  A tick that found the lock taken is taken for an applied one. The worker then writes nothing and exits without an error,
  so the loop records the digest as applied: although the sets differ from the desired ones, every tick of the
  following hour on the same statusz answer succeeds without running the worker, even when the lock is free again.
\<close>

lemma skipped_apply_trusted:
  assumes "url \<noteq> []" "e_Lock env = LockHeld" "Apply (statusz_fetcher H url) R env s = (Inr res, s')"
    and "\<not> poll_skips (res_Digest res) now (poll_note url p)"
  shows "s' = s \<and> (\<exists>p1. poll_reconcile (worker H R env) url now now' (p, s) = (Inr (), (p1, s)) \<and>
    (\<forall>env' t t'. t - now' < statuszForceResyncInterval \<longrightarrow> poll_reconcile (worker H R env') url t t' (p1, s) = (Inr (), (p1, s))))"
proof -
  let ?F = "statusz_fetcher H url" and ?p1 = "poll_applied (res_Digest res) now' (poll_note url p)"
  have s': "s' = s" using assms(3) by (rule Apply_Inr) (use ApplySets_outcome assms(2) in blast)
  obtain c' where ch: "Check ?F = Inr c'" "cr_Digest c' = res_Digest res" using Check_of_Apply[OF assms(3)] by auto
  have "poll_reconcile (worker H R env') url t t' (?p1, s) = (Inr (), (?p1, s))" if "t - now' < statuszForceResyncInterval" for env' t t'
  proof -
    have "poll_skips (cr_Digest c') t (poll_note url ?p1)" using that by (simp add: ch skips_applied)
    from poll_gated[OF ch(1) assms(1) this] show ?thesis by simp
  qed
  then show ?thesis using poll_applies[OF assms(3,1,4)] s' by blast
qed


theorem no_lost_wakeup_witness:
  "reachable woken_world \<and> mo_urlChanged (w_mon woken_world) \<and>
   (\<exists>w1 w2. step woken_world w1 \<and> step w1 w2 \<and> po_lastURL (w_poll w2) = effectiveStatuszURL (w_mon w2))"
proof -
  have "w_pc woken_world = PIdle" "\<not> about_to_signal (w_watch woken_world)"
    "effectiveStatuszURL (w_mon woken_world) \<noteq> po_lastURL (w_poll woken_world)"
    by (simp_all add: woken_world_def about_to_signal_def effectiveStatuszURL_def poll_start_def signalURLChanged_def found_mon_def idle_mon_def bn_url_def)
  from no_lost_wakeup[OF reachable_woken this] show ?thesis using reachable_woken by blast
qed

theorem one_attach_per_pod_witness:
  "\<exists>w. reachable w \<and> w_attach w \<noteq> [] \<and> distinct (map (\<lambda>g. pod_UID (g_pod g)) (w_attach w)) \<and> demo_uid \<in> set (mo_inflight (w_mon w))"
proof -
  let ?m = "(w_mon woken_world)\<lparr>mo_inflight := [demo_uid]\<rparr>"
  let ?w = "woken_world\<lparr>w_mon := ?m, w_watch := WIdle, w_attach := [\<lparr>g_pod = demo_pod, g_pc = AStart\<rparr>] @ w_attach woken_world\<rparr>"
  have "dispatchUpsert demo_pod (w_mon woken_world) = (?m, True)"
    by (simp add: dispatchUpsert_def woken_world_def signalURLChanged_def found_mon_def demo_pod_def idle_mon_def)
  from watch_step.dispatch[OF this]
  have "watch_step (w_mon woken_world) (w_watch woken_world) ?m WIdle [\<lparr>g_pod = demo_pod, g_pc = AStart\<rparr>]" by (simp add: woken_world_def)
  then have "step woken_world ?w" by (rule step.watcher)
  then have r: "reachable ?w" by (rule reach_step[OF reachable_woken])
  show ?thesis using one_attach_per_pod[OF r] r by (intro exI[of _ ?w]) (simp add: woken_world_def)
qed

lemma bn_not_skipped: "\<not> poll_skips d t (poll_note bn_url poll_start)"
  by (simp add: poll_skips_def poll_note_def poll_start_def bn_url_def)


end
