(* ===== verification/Semver.thy ===== *)
theory Semver
  imports GoStd "HOL-Library.Product_Lexorder"
begin

text \<open>
  \<open>pkg/semver\<close>: versions, their lenient parser and their comparison. The regular expression of
  \<open>const.go\<close> is not anchored and none of its parts needs backtracking: a run of digits ends at the first
  byte that is no digit, and what follows the three numbers is optional. \<open>match_at\<close> is its greedy match
  at a position and \<open>find_match\<close> the leftmost one.
\<close>

record semver =
  sv_raw :: string
  sv_versionStr :: string
  sv_major :: int
  sv_minor :: int
  sv_patch :: int
  sv_preRelease :: string
  sv_build :: string

definition zero_semver :: "string \<Rightarrow> semver" where
  "zero_semver raw = \<lparr>sv_raw = raw, sv_versionStr = [], sv_major = 0, sv_minor = 0, sv_patch = 0, sv_preRelease = [], sv_build = []\<rparr>"

section \<open>Comparison\<close>

definition LessThan :: "semver \<Rightarrow> semver \<Rightarrow> bool" where
  "LessThan v v2 \<longleftrightarrow>
     (if sv_major v < sv_major v2 then True
      else if sv_major v > sv_major v2 then False
      else if sv_minor v < sv_minor v2 then True
      else if sv_minor v > sv_minor v2 then False
      else if sv_patch v < sv_patch v2 then True
      else if sv_patch v > sv_patch v2 then False
      else if sv_preRelease v \<noteq> [] \<and> sv_preRelease v2 = [] then True
      else if sv_preRelease v = [] \<and> sv_preRelease v2 \<noteq> [] then False
      else sv_preRelease v < sv_preRelease v2)"

definition EqualTo :: "semver \<Rightarrow> semver \<Rightarrow> bool" where
  "EqualTo v v2 \<longleftrightarrow> sv_raw v = sv_raw v2"

definition LessOrEqual :: "semver \<Rightarrow> semver \<Rightarrow> bool" where
  "LessOrEqual v v2 \<longleftrightarrow> LessThan v v2 \<or> EqualTo v v2"

definition GreaterOrEqual :: "semver \<Rightarrow> semver \<Rightarrow> bool" where
  "GreaterOrEqual v v2 \<longleftrightarrow> \<not> LessThan v v2"

definition GreaterThan :: "semver \<Rightarrow> semver \<Rightarrow> bool" where
  "GreaterThan v v2 \<longleftrightarrow> \<not> LessOrEqual v v2"

section \<open>Parsing\<close>

definition genVersionStr :: "semver \<Rightarrow> semver" where
  "genVersionStr v = v\<lparr>sv_versionStr :=
     itoa (sv_major v) @ ''.'' @ itoa (sv_minor v) @ ''.'' @ itoa (sv_patch v) @
     (if sv_preRelease v \<noteq> [] then ''-'' @ sv_preRelease v else []) @
     (if sv_build v \<noteq> [] then ''+'' @ sv_build v else [])\<rparr>"

definition is_pre_byte :: "char \<Rightarrow> bool" where
  "is_pre_byte c \<longleftrightarrow> is_alnum c \<or> c = CHR ''.''"

text \<open>A number followed by a dot.\<close>

definition number_dot :: "string \<Rightarrow> (string \<times> string) option" where
  "number_dot s = (let ds = takeWhile is_digit s; rest = dropWhile is_digit s in
     if ds = [] \<or> rest = [] \<or> hd rest \<noteq> CHR ''.'' then None else Some (ds, tl rest))"

definition drop_opt :: "(char \<Rightarrow> bool) \<Rightarrow> string \<Rightarrow> string" where
  "drop_opt P s = (case s of [] \<Rightarrow> [] | c # cs \<Rightarrow> if P c then cs else s)"

definition match_at :: "string \<Rightarrow> (string \<times> string \<times> string \<times> string \<times> string) option" where
  "match_at s = (case number_dot s of
     None \<Rightarrow> None
   | Some (a, s1) \<Rightarrow> (case number_dot s1 of
       None \<Rightarrow> None
     | Some (b, s2) \<Rightarrow>
         (let c = takeWhile is_digit s2;
              s3 = drop_opt (\<lambda>x. x = CHR ''-'' \<or> x = CHR ''_'') (dropWhile is_digit s2);
              pre = takeWhile is_pre_byte s3;
              s4 = drop_opt (\<lambda>x. x = CHR ''+'') (dropWhile is_pre_byte s3)
          in if c = [] then None else Some (a, b, c, pre, takeWhile is_alnum s4))))"

fun find_match :: "string \<Rightarrow> (string \<times> string \<times> string \<times> string \<times> string) option" where
  "find_match [] = match_at []"
| "find_match (x # xs) = (case match_at (x # xs) of Some m \<Rightarrow> Some m | None \<Rightarrow> find_match xs)"

definition parse_part :: "string \<Rightarrow> string \<Rightarrow> int result" where
  "parse_part what s = (case strconv_ParseUint s of None \<Rightarrow> Inl (Err IllegalFormat what) | Some n \<Rightarrow> Inr n)"

definition parseSemVer :: "string \<Rightarrow> semver \<Rightarrow> semver result" where
  "parseSemVer str v = (case find_match str of
     None \<Rightarrow> Inl (Err IllegalFormat ''failed to parse version string'')
   | Some (a, b, c, pre, sfx) \<Rightarrow>
       rbind (parse_part ''failed to parse major part'' a) (\<lambda>major.
       rbind (parse_part ''failed to parse minor part'' b) (\<lambda>minor.
       rbind (parse_part ''failed to parse patch part'' c) (\<lambda>patch.
       Inr (genVersionStr (v\<lparr>sv_major := major, sv_minor := minor, sv_patch := patch,
         sv_preRelease := pre, sv_build := sfx\<rparr>))))))"

definition parse :: "string \<Rightarrow> semver \<Rightarrow> semver result" where
  "parse str0 v =
     (let str = dropWhile (\<lambda>c. c = CHR ''v'') str0; dots = length (filter (\<lambda>c. c = CHR ''.'') str) in
      if str = [] then Inr v
      else if dots = 0 then
        rbind (parse_part ''failed to parse major part'' str) (\<lambda>major. Inr (genVersionStr (v\<lparr>sv_major := major\<rparr>)))
      else if dots = 1 then
        (let parts = strings_Split (CHR ''.'') str in
         rbind (parse_part ''failed to parse major part'' (parts ! 0)) (\<lambda>major.
         rbind (parse_part ''failed to parse minor part'' (parts ! 1)) (\<lambda>minor.
         Inr (genVersionStr (v\<lparr>sv_major := major, sv_minor := minor\<rparr>)))))
      else parseSemVer str v)"

definition NewSemver :: "string \<Rightarrow> semver result" where
  "NewSemver s = (let t = strings_TrimSpace s in parse t (zero_semver t))"

definition CheckVersionRequirements :: "string \<Rightarrow> string \<Rightarrow> string \<Rightarrow> unit result" where
  "CheckVersionRequirements progVersion minimum maximum =
     rbind (NewSemver progVersion) (\<lambda>pVer.
     rbind (NewSemver minimum) (\<lambda>minVer.
     if LessThan pVer minVer then Inl (Err IllegalArgument ''program version is less than minimum required version'')
     else if maximum \<noteq> [] then
       rbind (NewSemver maximum) (\<lambda>maxVer.
       if GreaterThan pVer maxVer then Inl (Err IllegalArgument ''program version is greater than maximum required version'')
       else Inr ())
     else Inr ()))"

definition CheckMinVersionRequirement :: "string \<Rightarrow> string \<Rightarrow> unit result" where
  "CheckMinVersionRequirement progVersion minimum =
     rbind (NewSemver progVersion) (\<lambda>pVer.
     rbind (NewSemver minimum) (\<lambda>minVer.
     if LessThan pVer minVer then Inl (Err IllegalArgument ''program version is less than minimum required version'') else Inr ()))"

definition CheckMaxVersionRequirement :: "string \<Rightarrow> string \<Rightarrow> unit result" where
  "CheckMaxVersionRequirement progVersion maximum =
     rbind (NewSemver progVersion) (\<lambda>pVer.
     rbind (NewSemver maximum) (\<lambda>maxVer.
     if GreaterThan pVer maxVer then Inl (Err IllegalArgument ''program version is greater than maximum required version'') else Inr ()))"

section \<open>The order\<close>

text \<open>Precedence as a key: a release comes after all its pre-releases.\<close>

definition sv_key :: "semver \<Rightarrow> int \<times> int \<times> int \<times> bool \<times> string" where
  "sv_key v = (sv_major v, sv_minor v, sv_patch v, sv_preRelease v = [], sv_preRelease v)"

lemma LessThan_key: "LessThan v w \<longleftrightarrow> sv_key v < sv_key w"
  by (auto simp: LessThan_def sv_key_def  split: if_splits)

interpretation sv: weak_less LessThan
  unfolding LessThan_key[abs_def] by (rule weak_less_key)

section \<open>Well-formed versions\<close>

definition semver_ok :: "semver \<Rightarrow> bool" where
  "semver_ok v \<longleftrightarrow> (\<forall>n \<in> {sv_major v, sv_minor v, sv_patch v}. 0 \<le> n \<and> n < 2 ^ 64) \<and>
     list_all is_pre_byte (sv_preRelease v) \<and> list_all is_alnum (sv_build v)"

lemma find_match_Some: "find_match s = Some m \<Longrightarrow> \<exists>t. suffix t s \<and> match_at t = Some m"
proof (induction s)
  case (Cons x xs)
  then show ?case
    by (cases "match_at (x # xs)") (auto intro: suffix_ConsI)
qed auto

lemma list_all_takeWhile [simp]: "list_all P (takeWhile P s)"
  by (auto simp: list_all_iff dest: set_takeWhileD)

lemma match_at_parts:
  "match_at s = Some (a, b, c, pre, build) \<Longrightarrow> list_all is_digit a \<and> list_all is_digit b \<and> list_all is_digit c \<and>
     list_all is_pre_byte pre \<and> list_all is_alnum build"
  by (auto simp: match_at_def number_dot_def Let_def split: option.splits if_splits)

lemma parse_part_Inr: "parse_part w s = Inr n \<longleftrightarrow> strconv_ParseUint s = Some n"
  by (auto simp: parse_part_def split: option.splits)

lemma genVersionStr_sel [simp]:
  "sv_raw (genVersionStr v) = sv_raw v" "sv_major (genVersionStr v) = sv_major v"
  "sv_minor (genVersionStr v) = sv_minor v" "sv_patch (genVersionStr v) = sv_patch v"
  "sv_preRelease (genVersionStr v) = sv_preRelease v" "sv_build (genVersionStr v) = sv_build v"
  by (simp_all add: genVersionStr_def)

lemma genVersionStr_ok [simp]: "semver_ok (genVersionStr v) = semver_ok v"
  by (simp add: semver_ok_def)

text \<open>Every path of the parser ends in the zero value or in \<open>genVersionStr\<close>.\<close>

lemma parse_Inr_cases:
  assumes "parse s (zero_semver r) = Inr v"
  shows "semver_ok v \<and> sv_raw v = r \<and> (v = zero_semver r \<or> v = genVersionStr v)"
proof -
  have idem: "genVersionStr (genVersionStr w) = genVersionStr w" for w
    by (simp add: genVersionStr_def)
  have zero: "semver_ok (zero_semver r)" by (simp add: semver_ok_def zero_semver_def)
  define str where "str = dropWhile (\<lambda>c. c = CHR ''v'') s"
  define dots where "dots = length (filter (\<lambda>c. c = CHR ''.'') str)"
  note parse = assms[unfolded parse_def Let_def, folded str_def, folded dots_def]
  consider "str = []" | "str \<noteq> []" "dots = 0" | "str \<noteq> []" "dots = 1" | "str \<noteq> []" "dots \<noteq> 0" "dots \<noteq> 1"
    by blast
  then show ?thesis
  proof cases
    case 1
    with parse zero show ?thesis by (auto simp: zero_semver_def)
  next
    case 2
    with parse obtain M where n: "strconv_ParseUint str = Some M" and v: "v = genVersionStr (zero_semver r\<lparr>sv_major := M\<rparr>)"
      by (simp add: rbind_Inr_iff parse_part_Inr) blast
    from ParseUint_bounds[OF n] show ?thesis by (simp add: v idem semver_ok_def zero_semver_def)
  next
    case 3
    with parse obtain M m where n: "strconv_ParseUint (strings_Split (CHR ''.'') str ! 0) = Some M"
        "strconv_ParseUint (strings_Split (CHR ''.'') str ! 1) = Some m"
      and v: "v = genVersionStr (zero_semver r\<lparr>sv_major := M, sv_minor := m\<rparr>)"
      by (simp add: rbind_Inr_iff parse_part_Inr) blast
    from ParseUint_bounds[OF n(1)] ParseUint_bounds[OF n(2)] show ?thesis
      by (simp add: v idem semver_ok_def zero_semver_def)
  next
    case 4
    with parse have "parseSemVer str (zero_semver r) = Inr v" by simp
    then obtain a b c pre bld M m p where m: "find_match str = Some (a, b, c, pre, bld)"
      and n: "strconv_ParseUint a = Some M" "strconv_ParseUint b = Some m" "strconv_ParseUint c = Some p"
      and v: "v = genVersionStr (zero_semver r\<lparr>sv_major := M, sv_minor := m, sv_patch := p, sv_preRelease := pre, sv_build := bld\<rparr>)"
      by (auto simp: parseSemVer_def rbind_Inr_iff parse_part_Inr split: option.splits)
    from m obtain t where "match_at t = Some (a, b, c, pre, bld)" by (auto dest: find_match_Some)
    from match_at_parts[OF this] show ?thesis
      using n[THEN ParseUint_bounds] by (simp add: v idem semver_ok_def zero_semver_def)
  qed
qed

section \<open>Round trip\<close>

lemma number_dot_digits:
  "list_all is_digit ds \<Longrightarrow> ds \<noteq> [] \<Longrightarrow> number_dot (ds @ CHR ''.'' # s) = Some (ds, s)"
  by (simp add: number_dot_def list_all_iff takeWhile_append dropWhile_append is_digit_def)

lemma semver_byte_simps [simp]:
  "\<not> is_digit (CHR ''-'')" "\<not> is_digit (CHR ''+'')" "\<not> is_pre_byte (CHR ''+'')"
  by (simp_all add: is_digit_def is_pre_byte_def is_alnum_def is_lower_def is_upper_def)

lemma match_at_version:
  assumes "0 \<le> M" "0 \<le> m" "0 \<le> p" "list_all is_pre_byte pre" "list_all is_alnum bld"
  shows "match_at (itoa M @ ''.'' @ itoa m @ ''.'' @ itoa p @ (if pre \<noteq> [] then ''-'' @ pre else []) @
           (if bld \<noteq> [] then ''+'' @ bld else [])) = Some (itoa M, itoa m, itoa p, pre, bld)"
proof -
  define t where "t = (if bld \<noteq> [] then ''+'' @ bld else [])"
  define u where "u = (if pre \<noteq> [] then ''-'' @ pre else []) @ t"
  have t: "takeWhile is_pre_byte t = []" "dropWhile is_pre_byte t = t" "takeWhile is_digit t = []" "dropWhile is_digit t = t"
    by (simp_all add: t_def)
  have u: "takeWhile is_digit u = []" "dropWhile is_digit u = u" by (simp_all add: u_def t)
  have d: "takeWhile is_digit (itoa p @ u) = itoa p" "dropWhile is_digit (itoa p @ u) = u"
    using itoa_digits[OF assms(3)] by (simp_all add: takeWhile_append dropWhile_append list_all_iff u)
  have opt: "drop_opt (\<lambda>x. x = CHR ''-'' \<or> x = CHR ''_'') u = pre @ t"
    by (simp add: u_def t_def drop_opt_def)
  have pre: "takeWhile is_pre_byte (pre @ t) = pre" "dropWhile is_pre_byte (pre @ t) = t"
    using assms(4) by (simp_all add: takeWhile_append dropWhile_append list_all_iff t)
  have bld: "takeWhile is_alnum (drop_opt (\<lambda>x. x = CHR ''+'') t) = bld"
    using assms(5) by (simp add: t_def drop_opt_def takeWhile_eq_all_conv list_all_iff)
  have "match_at (itoa M @ CHR ''.'' # itoa m @ CHR ''.'' # itoa p @ u) = Some (itoa M, itoa m, itoa p, pre, bld)"
    using itoa_digits[OF assms(1)] itoa_digits[OF assms(2)]
    by (simp add: match_at_def number_dot_digits Let_def d opt pre bld)
  then show ?thesis by (simp add: u_def t_def)
qed

lemma alnum_graphic: "is_alnum c \<Longrightarrow> graphic c"
  by (auto simp: is_alnum_def graphic_def is_digit_def is_lower_def is_upper_def)

lemma pre_graphic: "is_pre_byte c \<Longrightarrow> graphic c"
  by (auto simp: is_pre_byte_def alnum_graphic) (simp add: graphic_def)

lemma digit_graphic: "is_digit c \<Longrightarrow> graphic c"
  by (simp add: is_alnum_def alnum_graphic)

lemma versionStr_graphic:
  assumes "semver_ok v"
  shows "list_all graphic (sv_versionStr (genVersionStr v))"
proof -
  have d: "list_all graphic (itoa n)" if "0 \<le> n" for n
    using itoa_digits[OF that] by (auto simp: list_all_iff digit_graphic)
  have "list_all graphic (sv_preRelease v)" "list_all graphic (sv_build v)"
    using assms by (auto simp: semver_ok_def list_all_iff pre_graphic alnum_graphic)
  moreover have "graphic (CHR ''.'')" "graphic (CHR ''-'')" "graphic (CHR ''+'')" by (simp_all add: graphic_def)
  ultimately show ?thesis using assms by (simp add: genVersionStr_def semver_ok_def d)
qed

lemma parse_after_v:
  assumes "body \<noteq> []" "is_digit (hd body)"
  shows "parse (replicate k (CHR ''v'') @ body) v = parse body v"
proof -
  have "hd body \<noteq> CHR ''v''" using assms(2) by (auto simp: is_digit_def)
  with assms(1) have "dropWhile (\<lambda>c. c = CHR ''v'') body = body" by (cases body) auto
  then show ?thesis by (simp add: parse_def dropWhile_append)
qed

lemma itoa_no_dot: "0 \<le> n \<Longrightarrow> CHR ''.'' \<notin> set (itoa n)"
  using itoa_digits[of n] by (auto simp: list_all_iff is_digit_def)

lemma hd_version: "0 \<le> n \<Longrightarrow> is_digit (hd (itoa n @ t)) \<and> itoa n @ t \<noteq> [] \<and> hd (itoa n @ t) \<noteq> CHR ''v''"
  using itoa_digits[of n] by (cases "itoa n") (auto simp: is_digit_def)

lemma drop_v: "0 \<le> n \<Longrightarrow> dropWhile (\<lambda>c. c = CHR ''v'') (itoa n @ t) = itoa n @ t"
  using hd_version[of n t] by (cases "itoa n @ t") auto

lemma parse_short:
  assumes "0 \<le> M" "M < 2 ^ 64"
  shows "parse (itoa M) v = Inr (genVersionStr (v\<lparr>sv_major := M\<rparr>))"
    "0 \<le> m \<Longrightarrow> m < 2 ^ 64 \<Longrightarrow> parse (itoa M @ ''.'' @ itoa m) v = Inr (genVersionStr (v\<lparr>sv_major := M, sv_minor := m\<rparr>))"
proof -
  have f: "filter (\<lambda>c. c = CHR ''.'') (itoa n) = []" if "0 \<le> n" for n
    using itoa_no_dot[OF that] by (auto simp: filter_empty_conv)
  show "parse (itoa M) v = Inr (genVersionStr (v\<lparr>sv_major := M\<rparr>))"
    using assms drop_v[of M "[]"] hd_version[of M "[]"] by (simp add: parse_def f parse_part_def ParseUint_itoa rbind_def)
  assume m: "0 \<le> m" "m < 2 ^ 64"
  have "strings_Split (CHR ''.'') (itoa M @ ''.'' @ itoa m) = [itoa M, itoa m]"
    using itoa_no_dot[OF assms(1)] itoa_no_dot[OF m(1)] by (simp add: Split_append Split_no_sep)
  then show "parse (itoa M @ ''.'' @ itoa m) v = Inr (genVersionStr (v\<lparr>sv_major := M, sv_minor := m\<rparr>))"
    using assms m drop_v[of M "''.'' @ itoa m"] by (simp add: parse_def f parse_part_def ParseUint_itoa rbind_def)
qed

lemma parse_versionStr:
  assumes "semver_ok v"
  shows "parse (sv_versionStr (genVersionStr v)) (zero_semver r) = Inr (genVersionStr v\<lparr>sv_raw := r\<rparr>)"
proof -
  let ?s = "sv_versionStr (genVersionStr v)"
  note b = assms[unfolded semver_ok_def, simplified]
  have str: "dropWhile (\<lambda>c. c = CHR ''v'') ?s = ?s" and ne: "?s \<noteq> []" using b by (simp_all add: genVersionStr_def drop_v)
  have dots: "2 \<le> length (filter (\<lambda>c. c = CHR ''.'') ?s)" by (simp add: genVersionStr_def)
  have "match_at ?s = Some (itoa (sv_major v), itoa (sv_minor v), itoa (sv_patch v), sv_preRelease v, sv_build v)"
    unfolding genVersionStr_def using b by (simp add: match_at_version[simplified])
  then have "find_match ?s = Some (itoa (sv_major v), itoa (sv_minor v), itoa (sv_patch v), sv_preRelease v, sv_build v)"
    by (cases ?s) auto
  then have "parseSemVer ?s (zero_semver r) = Inr (genVersionStr v\<lparr>sv_raw := r\<rparr>)"
    using b by (simp add: parseSemVer_def parse_part_def ParseUint_itoa rbind_def genVersionStr_def zero_semver_def)
  with dots ne show ?thesis by (auto simp: parse_def str Let_def)
qed

text \<open>A version by its parts, and its text.\<close>

definition version_text :: "int \<Rightarrow> int \<Rightarrow> int \<Rightarrow> string \<Rightarrow> string \<Rightarrow> string" where
  "version_text M m p pre bld = itoa M @ ''.'' @ itoa m @ ''.'' @ itoa p @
     (if pre \<noteq> [] then ''-'' @ pre else []) @ (if bld \<noteq> [] then ''+'' @ bld else [])"

definition version_parts :: "string \<Rightarrow> int \<Rightarrow> int \<Rightarrow> int \<Rightarrow> string \<Rightarrow> string \<Rightarrow> semver" where
  "version_parts raw M m p pre bld = \<lparr>sv_raw = raw, sv_versionStr = version_text M m p pre bld, sv_major = M, sv_minor = m, sv_patch = p,
     sv_preRelease = pre, sv_build = bld\<rparr>"

lemma NewSemver_ok: "NewSemver s = Inr v \<Longrightarrow> semver_ok v \<and> sv_raw v = strings_TrimSpace s"
  using parse_Inr_cases by (auto simp: NewSemver_def Let_def)

text \<open>
  C36: \<open>NewSemver\<close> reads the parts of a version from its text. The text of 64-bit numbers, a pre-release of letters, digits and
  dots and a build of letters and digits, with blanks around it and any number of letters v before it, gives exactly these parts; a
  single number is a major version, and two numbers are a major and a minor version. Conversely, whatever the text, a version
  that is returned has 64-bit numbers and such a pre-release and build, and keeps the trimmed text.
\<close>
theorem NewSemver_text:
  assumes "0 \<le> M" "M < 2 ^ 64" "0 \<le> m" "m < 2 ^ 64" "0 \<le> p" "p < 2 ^ 64" "list_all is_pre_byte pre" "list_all is_alnum bld"
    and s: "strings_TrimSpace s = replicate k (CHR ''v'') @ body"
  shows "(body = version_text M m p pre bld \<longrightarrow> NewSemver s = Inr (version_parts (strings_TrimSpace s) M m p pre bld)) \<and>
    (body = itoa M \<longrightarrow> NewSemver s = Inr (version_parts (strings_TrimSpace s) M 0 0 [] [])) \<and>
    (body = itoa M @ ''.'' @ itoa m \<longrightarrow> NewSemver s = Inr (version_parts (strings_TrimSpace s) M m 0 [] [])) \<and>
    (\<forall>t v. NewSemver t = Inr v \<longrightarrow> semver_ok v \<and> sv_raw v = strings_TrimSpace t)"
proof -
  let ?t = "strings_TrimSpace s"
  let ?w = "version_parts ?t M m p pre bld"
  have ok: "semver_ok ?w" using assms by (simp add: semver_ok_def version_parts_def)
  have w: "sv_versionStr (genVersionStr ?w) = version_text M m p pre bld" "genVersionStr ?w\<lparr>sv_raw := ?t\<rparr> = ?w"
    by (simp_all add: genVersionStr_def version_parts_def version_text_def)
  have z: "genVersionStr (zero_semver ?t\<lparr>sv_major := M\<rparr>) = version_parts ?t M 0 0 [] []"
    "genVersionStr (zero_semver ?t\<lparr>sv_major := M, sv_minor := m\<rparr>) = version_parts ?t M m 0 [] []"
    by (simp_all add: genVersionStr_def version_parts_def version_text_def zero_semver_def)
  have n: "NewSemver s = parse body (zero_semver ?t)" if "body = itoa M @ r" for r
    using parse_after_v[of body k "zero_semver ?t"] hd_version[OF assms(1), of r] that by (simp add: NewSemver_def s)
  show ?thesis
    using n parse_versionStr[OF ok, of ?t, unfolded w] parse_short(1)[OF assms(1,2), where v = "zero_semver ?t", unfolded z] parse_short(2)[OF assms(1-4), where v = "zero_semver ?t", unfolded z] NewSemver_ok
    by (force simp: version_text_def)
qed

theorem NewSemver_text_witness:
  "NewSemver '' v1.2.3-rc.1+abc '' = Inr (version_parts ''v1.2.3-rc.1+abc'' 1 2 3 ''rc.1'' ''abc'') \<and> semver_ok (version_parts ''v1.2.3-rc.1+abc'' 1 2 3 ''rc.1'' ''abc'')"
proof -
  have t: "strings_TrimSpace '' v1.2.3-rc.1+abc '' = ''v1.2.3-rc.1+abc''"
    "strings_TrimSpace '' v1.2.3-rc.1+abc '' = replicate 1 (CHR ''v'') @ version_text 1 2 3 ''rc.1'' ''abc''" by code_simp+
  have c: "list_all is_pre_byte ''rc.1''" "list_all is_alnum ''abc''" by code_simp+
  have b: "0 \<le> (1::int)" "(1::int) < 2 ^ 64" "0 \<le> (2::int)" "(2::int) < 2 ^ 64" "0 \<le> (3::int)" "(3::int) < 2 ^ 64" by simp_all
  note r = NewSemver_text[OF b c t(2)]
  have "NewSemver '' v1.2.3-rc.1+abc '' = Inr (version_parts (strings_TrimSpace '' v1.2.3-rc.1+abc '') 1 2 3 ''rc.1'' ''abc'')"
    using r by (meson)
  moreover from this r have "semver_ok (version_parts (strings_TrimSpace '' v1.2.3-rc.1+abc '') 1 2 3 ''rc.1'' ''abc'')"
    by meson
  ultimately show ?thesis by (simp only: t(1) simp_thms)
qed

text \<open>
  The normalised string of a parsed version parses back to the same version.
\<close>
lemma NewSemver_roundtrip:
  assumes "NewSemver s = Inr v" "sv_versionStr v \<noteq> []"
  shows "NewSemver (sv_versionStr v) = Inr (v\<lparr>sv_raw := sv_versionStr v\<rparr>)"
proof -
  from parse_Inr_cases assms(1) have ok: "semver_ok v" and v: "v = genVersionStr v"
    using assms(2) by (fastforce simp: NewSemver_def Let_def zero_semver_def)+
  have "strings_TrimSpace (sv_versionStr v) = sv_versionStr v"
    using versionStr_graphic[OF ok] v by (simp add: TrimSpace_all_graphic)
  then show ?thesis
    using parse_versionStr[OF ok, of "sv_versionStr v"] v by (simp add: NewSemver_def Let_def)
qed

section \<open>Version requirements\<close>

lemma CheckVersionRequirements_exact:
  "CheckVersionRequirements p mi ma = Inr () \<longleftrightarrow>
     (\<exists>pv mv. NewSemver p = Inr pv \<and> NewSemver mi = Inr mv \<and> \<not> LessThan pv mv \<and>
       (ma \<noteq> [] \<longrightarrow> (\<exists>xv. NewSemver ma = Inr xv \<and> (LessThan pv xv \<or> sv_raw pv = sv_raw xv))))"
  by (auto simp: CheckVersionRequirements_def GreaterThan_def LessOrEqual_def EqualTo_def rbind_Inr_unit split: if_splits)

text \<open>
  Equality is a comparison of the raw strings while the order ignores the spelling, so two spellings of one version
  are each greater than the other and a version is rejected by an equal maximum that is spelled with a \<open>v\<close>.
\<close>

lemma equal_maximum_rejected:
  "\<exists>v w. NewSemver ''v1.0.0'' = Inr v \<and> NewSemver ''1.0.0'' = Inr w \<and> sv_key v = sv_key w \<and> GreaterThan v w \<and> GreaterThan w v \<and>
     CheckVersionRequirements ''1.0.0'' ''1.0.0'' ''v1.0.0'' =
       Inl (Err IllegalArgument ''program version is greater than maximum required version'')"
proof -
  define v where "v = genVersionStr (zero_semver ''v1.0.0''\<lparr>sv_major := 1\<rparr>)"
  define w where "w = genVersionStr (zero_semver ''1.0.0''\<lparr>sv_major := 1\<rparr>)"
  have "NewSemver ''v1.0.0'' = Inr v" "NewSemver ''1.0.0'' = Inr w" unfolding v_def w_def by code_simp+
  moreover have "sv_key v = sv_key w" "GreaterThan v w" "GreaterThan w v" unfolding v_def w_def by code_simp+
  ultimately show ?thesis by (auto simp: CheckVersionRequirements_def sv.lt_irrefl)
qed

end
