(* ===== verification/Storage.thy ===== *)
theory Storage
  imports Semver Sanity
begin

text \<open>
  The storage of a block node (\<open>pkg/models/config.go\<close>, \<open>internal/blocknode/optional_storage.go\<close> and
  \<open>internal/blocknode/storage.go\<close>): the configured paths and sizes, the registry of the volumes that a chart version
  requires, the resolution of the paths, and the deletion of the volumes of a release.
\<close>

section \<open>The storage configuration\<close>

record bn_storage =
  bs_BasePath :: string
  bs_ArchivePath :: string
  bs_LivePath :: string
  bs_LogPath :: string
  bs_VerificationPath :: string
  bs_PluginsPath :: string
  bs_ApplicationStatePath :: string
  bs_LiveSize :: string
  bs_ArchiveSize :: string
  bs_LogSize :: string
  bs_VerificationSize :: string
  bs_PluginsSize :: string
  bs_ApplicationStateSize :: string

definition blank :: "string \<Rightarrow> bool" where
  "blank s \<longleftrightarrow> strings_TrimSpace s = []"

definition Storage_IsEmpty :: "bn_storage \<Rightarrow> bool" where
  "Storage_IsEmpty b \<longleftrightarrow> blank (bs_BasePath b) \<and> blank (bs_ArchivePath b) \<and> blank (bs_LivePath b) \<and> blank (bs_LogPath b) \<and>
     blank (bs_LiveSize b) \<and> blank (bs_ArchiveSize b) \<and> blank (bs_LogSize b)"

text \<open>\<open>if strings.TrimSpace(b.F) == "" && strings.TrimSpace(other.F) != "" { b.F = other.F }\<close>\<close>

definition fill :: "string \<Rightarrow> string \<Rightarrow> string" where
  "fill x y = (if blank x \<and> \<not> blank y then y else x)"

definition MergeFrom :: "bn_storage \<Rightarrow> bn_storage \<Rightarrow> bn_storage" where
  "MergeFrom b other =
     (let receiverHasBasePath = \<not> blank (bs_BasePath b);
          b' = (if \<not> receiverHasBasePath then b\<lparr>
                  bs_BasePath := fill (bs_BasePath b) (bs_BasePath other),
                  bs_ArchivePath := fill (bs_ArchivePath b) (bs_ArchivePath other),
                  bs_LivePath := fill (bs_LivePath b) (bs_LivePath other),
                  bs_LogPath := fill (bs_LogPath b) (bs_LogPath other),
                  bs_VerificationPath := fill (bs_VerificationPath b) (bs_VerificationPath other),
                  bs_PluginsPath := fill (bs_PluginsPath b) (bs_PluginsPath other),
                  bs_ApplicationStatePath := fill (bs_ApplicationStatePath b) (bs_ApplicationStatePath other)\<rparr>
                else b)
      in b'\<lparr>bs_LiveSize := fill (bs_LiveSize b) (bs_LiveSize other),
            bs_ArchiveSize := fill (bs_ArchiveSize b) (bs_ArchiveSize other),
            bs_LogSize := fill (bs_LogSize b) (bs_LogSize other),
            bs_VerificationSize := fill (bs_VerificationSize b) (bs_VerificationSize other),
            bs_PluginsSize := fill (bs_PluginsSize b) (bs_PluginsSize other),
            bs_ApplicationStateSize := fill (bs_ApplicationStateSize b) (bs_ApplicationStateSize other)\<rparr>)"

text \<open>A field is checked when it is set.\<close>

definition check_path :: "string option \<Rightarrow> string \<Rightarrow> string \<Rightarrow> unit result" where
  "check_path cwd msg p = (if p = [] then Inr () else
     (case SanitizePath cwd p of Inl e \<Rightarrow> Inl (wrap IllegalArgument msg e) | Inr _ \<Rightarrow> Inr ()))"

definition check_size :: "string \<Rightarrow> string \<Rightarrow> unit result" where
  "check_size msg s = (if s = [] then Inr () else map_err (wrap IllegalArgument msg) (ValidateStorageSize s))"

definition Storage_Validate :: "string option \<Rightarrow> bn_storage \<Rightarrow> unit result" where
  "Storage_Validate cwd b =
     rbind (check_path cwd ''invalid base path'' (bs_BasePath b)) (\<lambda>_.
     rbind (check_path cwd ''invalid archive path'' (bs_ArchivePath b)) (\<lambda>_.
     rbind (check_path cwd ''invalid live path'' (bs_LivePath b)) (\<lambda>_.
     rbind (check_path cwd ''invalid log path'' (bs_LogPath b)) (\<lambda>_.
     rbind (check_path cwd ''invalid verification path'' (bs_VerificationPath b)) (\<lambda>_.
     rbind (check_path cwd ''invalid plugins path'' (bs_PluginsPath b)) (\<lambda>_.
     rbind (check_path cwd ''invalid application-state path'' (bs_ApplicationStatePath b)) (\<lambda>_.
     rbind (check_size ''invalid live storage size'' (bs_LiveSize b)) (\<lambda>_.
     rbind (check_size ''invalid archive storage size'' (bs_ArchiveSize b)) (\<lambda>_.
     rbind (check_size ''invalid log storage size'' (bs_LogSize b)) (\<lambda>_.
     rbind (check_size ''invalid verification storage size'' (bs_VerificationSize b)) (\<lambda>_.
     rbind (check_size ''invalid plugins storage size'' (bs_PluginsSize b)) (\<lambda>_.
     check_size ''invalid application-state storage size'' (bs_ApplicationStateSize b)))))))))))))"

section \<open>The registry of optional storages\<close>

record optional_storage =
  os_Name :: string
  os_PersistenceKey :: string
  os_MinVersion :: string
  os_MaxVersion :: string
  os_PVName :: string
  os_PVCName :: string
  os_DirName :: string
  os_GetPath :: "bn_storage \<Rightarrow> string"
  os_SetPath :: "bn_storage \<Rightarrow> string \<Rightarrow> bn_storage"
  os_GetSize :: "bn_storage \<Rightarrow> string"

definition BlockNodeApplicationStateRequiredVersion :: string where
  "BlockNodeApplicationStateRequiredVersion = ''0.37.0-0''"

definition BlockNodeVerificationRetirementVersion :: string where
  "BlockNodeVerificationRetirementVersion = ''0.37.0-0''"

definition verification_storage :: optional_storage where
  "verification_storage = \<lparr>os_Name = ''verification'', os_PersistenceKey = [], os_MinVersion = ''0.26.2'',
     os_MaxVersion = BlockNodeVerificationRetirementVersion, os_PVName = ''verification-storage-pv'',
     os_PVCName = ''verification-storage-pvc'', os_DirName = ''verification'', os_GetPath = bs_VerificationPath,
     os_SetPath = (\<lambda>s p. s\<lparr>bs_VerificationPath := p\<rparr>), os_GetSize = bs_VerificationSize\<rparr>"

definition plugins_storage :: optional_storage where
  "plugins_storage = \<lparr>os_Name = ''plugins'', os_PersistenceKey = [], os_MinVersion = ''0.28.1'', os_MaxVersion = [],
     os_PVName = ''plugins-storage-pv'', os_PVCName = ''plugins-storage-pvc'', os_DirName = ''plugins'',
     os_GetPath = bs_PluginsPath, os_SetPath = (\<lambda>s p. s\<lparr>bs_PluginsPath := p\<rparr>), os_GetSize = bs_PluginsSize\<rparr>"

definition application_state_storage :: optional_storage where
  "application_state_storage = \<lparr>os_Name = ''application-state'', os_PersistenceKey = ''applicationState'',
     os_MinVersion = BlockNodeApplicationStateRequiredVersion, os_MaxVersion = [],
     os_PVName = ''application-state-storage-pv'', os_PVCName = ''application-state-storage-pvc'',
     os_DirName = ''application-state'', os_GetPath = bs_ApplicationStatePath,
     os_SetPath = (\<lambda>s p. s\<lparr>bs_ApplicationStatePath := p\<rparr>), os_GetSize = bs_ApplicationStateSize\<rparr>"

definition optionalStorages :: "optional_storage list" where
  "optionalStorages = [verification_storage, plugins_storage, application_state_storage]"

definition RequiredByVersion :: "optional_storage \<Rightarrow> string \<Rightarrow> bool" where
  "RequiredByVersion opt targetVersion =
     (case NewSemver targetVersion of
        Inl _ \<Rightarrow> False
      | Inr target \<Rightarrow>
          (case NewSemver (os_MinVersion opt) of
             Inl _ \<Rightarrow> False
           | Inr minVer \<Rightarrow>
               if LessThan target minVer then False
               else if os_MaxVersion opt = [] then True
               else (case NewSemver (os_MaxVersion opt) of Inl _ \<Rightarrow> True | Inr maxVer \<Rightarrow> LessThan target maxVer)))"

definition GetApplicableOptionalStorages :: "string \<Rightarrow> optional_storage list" where
  "GetApplicableOptionalStorages targetVersion = filter (\<lambda>opt. RequiredByVersion opt targetVersion) optionalStorages"

definition ValidateStorageCompleteness :: "bn_storage \<Rightarrow> string \<Rightarrow> bool \<Rightarrow> unit result" where
  "ValidateStorageCompleteness storage chartVersion managePlugins =
     (if \<not> blank (bs_BasePath storage) then Inr ()
      else if blank (bs_ArchivePath storage) \<or> blank (bs_LivePath storage) \<or> blank (bs_LogPath storage)
        then Inl (Err IllegalArgument ''at least one storage path is not set and base path is empty'')
      else check_all (\<lambda>opt. if os_Name opt = ''plugins'' \<and> \<not> managePlugins then Inr ()
        else if blank (os_GetPath opt storage) then Inl (Err IllegalArgument ''storage path is required for chart version'')
        else Inr ()) (GetApplicableOptionalStorages chartVersion))"

section \<open>Resolving the paths\<close>

text \<open>\<open>path.Join\<close>: empty elements at the front are dropped and the rest is joined and cleaned.\<close>

definition path_Join :: "string list \<Rightarrow> string" where
  "path_Join es = (let rest = dropWhile (\<lambda>e. e = []) es in if rest = [] then [] else filepath_Clean (strings_Join ''/'' rest))"

definition sanitize_wrapped :: "string option \<Rightarrow> string \<Rightarrow> string \<Rightarrow> string result" where
  "sanitize_wrapped cwd msg p = map_err (wrap IllegalArgument msg) (SanitizePath cwd p)"

definition ResolveStoragePaths :: "string option \<Rightarrow> bn_storage \<Rightarrow> string \<Rightarrow> (string \<times> string \<times> string \<times> string list) result" where
  "ResolveStoragePaths cwd storage chartVersion =
     (let applicable = GetApplicableOptionalStorages chartVersion in
      rbind (if bs_BasePath storage \<noteq> [] then sanitize_wrapped cwd ''invalid base storage path'' (bs_BasePath storage) else Inr [])
        (\<lambda>basePath.
      let corePathsMissing = (bs_ArchivePath storage = [] \<or> bs_LivePath storage = [] \<or> bs_LogPath storage = []);
          optionalPathMissing = list_ex (\<lambda>opt. os_GetPath opt storage = []) applicable in
      if basePath = [] \<and> (corePathsMissing \<or> optionalPathMissing)
        then Inl (Err IllegalArgument ''at least one storage path is not set and base path is empty'')
      else
        let archivePath = (if bs_ArchivePath storage = [] then path_Join [basePath, ''archive''] else bs_ArchivePath storage);
            livePath = (if bs_LivePath storage = [] then path_Join [basePath, ''live''] else bs_LivePath storage);
            logPath = (if bs_LogPath storage = [] then path_Join [basePath, ''logs''] else bs_LogPath storage);
            optionalPaths = map (\<lambda>opt. (os_Name opt, if os_GetPath opt storage = [] then path_Join [basePath, os_DirName opt]
              else os_GetPath opt storage)) applicable in
        rbind (sanitize_wrapped cwd ''invalid archive path'' archivePath) (\<lambda>archive.
        rbind (sanitize_wrapped cwd ''invalid live path'' livePath) (\<lambda>live.
        rbind (sanitize_wrapped cwd ''invalid log path'' logPath) (\<lambda>log.
        rbind (rmap (\<lambda>(name, p). if p \<noteq> [] then sanitize_wrapped cwd (''invalid '' @ name @ '' path'') p else Inr p) optionalPaths)
          (\<lambda>optional. Inr (archive, live, log, optional)))))))"

definition resolveOptionalStoragePathAndSize :: "string option \<Rightarrow> bn_storage \<Rightarrow> optional_storage \<Rightarrow> (string \<times> string) result" where
  "resolveOptionalStoragePathAndSize cwd storage opt =
     rbind (if os_GetPath opt storage = [] \<and> bs_BasePath storage \<noteq> [] then
              rbind (sanitize_wrapped cwd ''invalid base storage path'' (bs_BasePath storage)) (\<lambda>sanitizedBase.
                Inr (path_Join [sanitizedBase, os_DirName opt]))
            else Inr (os_GetPath opt storage)) (\<lambda>storagePath.
     if storagePath \<noteq> [] then
       rbind (sanitize_wrapped cwd (''invalid '' @ os_Name opt @ '' path'') storagePath) (\<lambda>sanitized.
         Inr (sanitized, os_GetSize opt storage))
     else Inl (Err IllegalArgument (os_Name opt @ '' storage path is empty'')))"


section \<open>Provisioning\<close>

text \<open>The values the storage template is rendered with.\<close>

record storage_data =
  sd_Namespace :: string
  sd_Release :: string
  sd_LivePath :: string
  sd_ArchivePath :: string
  sd_LogPath :: string
  sd_VerificationPath :: string
  sd_PluginsPath :: string
  sd_ApplicationStatePath :: string
  sd_LiveSize :: string
  sd_ArchiveSize :: string
  sd_LogSize :: string
  sd_VerificationSize :: string
  sd_PluginsSize :: string
  sd_ApplicationStateSize :: string
  sd_IncludeVerification :: bool
  sd_IncludePlugins :: bool
  sd_IncludeApplicationState :: bool

definition include_storage :: "bool \<Rightarrow> bn_storage \<Rightarrow> optional_storage \<times> string \<Rightarrow> storage_data \<Rightarrow> storage_data" where
  "include_storage managePlugins storage = (\<lambda>(opt, p) d.
     (let s = os_GetSize opt storage in
      if os_Name opt = ''verification'' then
        d\<lparr>sd_IncludeVerification := True, sd_VerificationPath := p, sd_VerificationSize := s\<rparr>
      else if os_Name opt = ''plugins'' then
        (if managePlugins then d\<lparr>sd_IncludePlugins := True, sd_PluginsPath := p, sd_PluginsSize := s\<rparr> else d)
      else if os_Name opt = ''application-state'' then
        d\<lparr>sd_IncludeApplicationState := True, sd_ApplicationStatePath := p, sd_ApplicationStateSize := s\<rparr>
      else d))"

definition storageData :: "string \<Rightarrow> string \<Rightarrow> bool \<Rightarrow> bn_storage \<Rightarrow> string \<Rightarrow> string \<times> string \<times> string \<times> string list \<Rightarrow> storage_data" where
  "storageData ns release managePlugins storage chartVersion = (\<lambda>(archivePath, livePath, logPath, optionalPaths).
     let applicable = GetApplicableOptionalStorages chartVersion;
         padded = zip applicable (optionalPaths @ replicate (length applicable - length optionalPaths) [])
     in fold (include_storage managePlugins storage) padded
       \<lparr>sd_Namespace = ns, sd_Release = release, sd_LivePath = livePath, sd_ArchivePath = archivePath, sd_LogPath = logPath,
        sd_VerificationPath = [], sd_PluginsPath = [], sd_ApplicationStatePath = [], sd_LiveSize = bs_LiveSize storage,
        sd_ArchiveSize = bs_ArchiveSize storage, sd_LogSize = bs_LogSize storage, sd_VerificationSize = [], sd_PluginsSize = [],
        sd_ApplicationStateSize = [], sd_IncludeVerification = False, sd_IncludePlugins = False,
        sd_IncludeApplicationState = False\<rparr>)"

definition managed_storages :: "bool \<Rightarrow> string \<Rightarrow> optional_storage list" where
  "managed_storages managePlugins chartVersion =
     filter (\<lambda>opt. \<not> (os_Name opt = ''plugins'' \<and> \<not> managePlugins)) (GetApplicableOptionalStorages chartVersion)"

definition core_pvcs :: "string list" where
  "core_pvcs = [''live-storage-pvc'', ''archive-storage-pvc'', ''logging-storage-pvc'']"

definition waited_pvcs :: "bool \<Rightarrow> string \<Rightarrow> string list" where
  "waited_pvcs managePlugins chartVersion = core_pvcs @ map os_PVCName (managed_storages managePlugins chartVersion)"

text \<open>The values the template of a single optional storage is rendered with.\<close>

record optional_storage_data =
  od_Namespace :: string
  od_Release :: string
  od_PVName :: string
  od_PVCName :: string
  od_Path :: string
  od_Size :: string

text \<open>
  The calls that leave the program: the file system, the template renderer and the Kubernetes client. \<open>'c\<close> is the state
  they act on.
\<close>

record 'c storage_env =
  se_PathExists :: "string \<Rightarrow> ('c, bool) action"
  se_CreateDirectory :: "string \<Rightarrow> ('c, unit) action"
  se_WritePermissions :: "string \<Rightarrow> ('c, unit) action"
  se_WriteOwner :: "string \<Rightarrow> ('c, unit) action"
  se_RemoveContents :: "string \<Rightarrow> ('c, unit) action"
  se_Render :: "storage_data \<Rightarrow> string result"
  se_WriteFile :: "string \<Rightarrow> string \<Rightarrow> ('c, unit) action"
  se_ApplyManifest :: "string \<Rightarrow> ('c, unit) action"
  se_WaitBound :: "string \<Rightarrow> string \<Rightarrow> ('c, unit) action"
  se_ListPVCs :: "string \<Rightarrow> string \<Rightarrow> ('c, string list) action"
  se_ListPVs :: "string \<Rightarrow> ('c, (string \<times> string option) list) action"
  se_DeletePVC :: "string \<Rightarrow> string \<Rightarrow> ('c, unit) action"
  se_DeletePV :: "string \<Rightarrow> ('c, unit) action"
  se_RenderOptional :: "optional_storage_data \<Rightarrow> string result"

definition all_paths :: "string \<times> string \<times> string \<times> string list \<Rightarrow> string list" where
  "all_paths = (\<lambda>(archivePath, livePath, logPath, optionalPaths). [archivePath, livePath, logPath] @ filter (\<lambda>p. p \<noteq> []) optionalPaths)"

definition setup_dir :: "'c storage_env \<Rightarrow> string \<Rightarrow> ('c, unit) action" where
  "setup_dir env dirPath =
     sbind (smap_err (wrap IllegalState ''failed to check path existence'') (se_PathExists env dirPath)) (\<lambda>exists.
     if exists then sret ()
     else sbind (smap_err (wrap IllegalState ''failed to create directory'') (se_CreateDirectory env dirPath)) (\<lambda>_.
       sbind (smap_err (wrap IllegalState ''failed to set permissions'') (se_WritePermissions env dirPath)) (\<lambda>_.
       smap_err (wrap IllegalState ''failed to set ownership'') (se_WriteOwner env dirPath))))"

definition SetupStorage :: "'c storage_env \<Rightarrow> string option \<Rightarrow> bn_storage \<Rightarrow> string \<Rightarrow> ('c, unit) action" where
  "SetupStorage env cwd storage chartVersion =
     sbind (slift (ResolveStoragePaths cwd storage chartVersion)) (\<lambda>paths. seach (setup_dir env) (all_paths paths))"

definition ClearStorageDirectory :: "'c storage_env \<Rightarrow> string \<Rightarrow> ('c, unit) action" where
  "ClearStorageDirectory env dirPath =
     sbind (smap_err (wrap IllegalState ''failed to check path existence'') (se_PathExists env dirPath)) (\<lambda>exists.
     if \<not> exists then sret ()
     else smap_err (wrap IllegalState ''failed to clear directory contents'') (se_RemoveContents env dirPath))"

definition ResetStorage :: "'c storage_env \<Rightarrow> string option \<Rightarrow> bn_storage \<Rightarrow> string \<Rightarrow> ('c, unit) action" where
  "ResetStorage env cwd storage chartVersion =
     sbind (slift (ResolveStoragePaths cwd storage chartVersion)) (\<lambda>paths. seach (ClearStorageDirectory env) (all_paths paths))"

definition CreatePersistentVolumes ::
  "'c storage_env \<Rightarrow> string option \<Rightarrow> string \<Rightarrow> string \<Rightarrow> bool \<Rightarrow> bn_storage \<Rightarrow> string \<Rightarrow> string \<Rightarrow> ('c, unit) action" where
  "CreatePersistentVolumes env cwd ns release managePlugins storage chartVersion tempDir =
     sbind (slift (map_err (wrap IllegalState ''failed to get storage paths'') (ResolveStoragePaths cwd storage chartVersion))) (\<lambda>paths.
     sbind (slift (map_err (wrap IllegalState ''failed to render storage config template'')
       (se_Render env (storageData ns release managePlugins storage chartVersion paths)))) (\<lambda>storageConfig.
     let configFilePath = path_Join [tempDir, ''block-node-storage-config.yaml''] in
     sbind (smap_err (wrap IllegalState ''failed to write storage config to temp file'') (se_WriteFile env configFilePath storageConfig)) (\<lambda>_.
     sbind (smap_err (wrap IllegalState ''failed to apply storage configuration'') (se_ApplyManifest env configFilePath)) (\<lambda>_.
     seach (\<lambda>pvc. smap_err (wrap IllegalState ''PVC did not become bound in time'') (se_WaitBound env ns pvc))
       (waited_pvcs managePlugins chartVersion)))))"

definition CreateOptionalStorage ::
  "'c storage_env \<Rightarrow> string option \<Rightarrow> string \<Rightarrow> string \<Rightarrow> bn_storage \<Rightarrow> string \<Rightarrow> optional_storage \<Rightarrow> ('c, unit) action" where
  "CreateOptionalStorage env cwd ns release storage tempDir opt =
     sbind (slift (map_err (wrap IllegalState (''failed to resolve '' @ os_Name opt @ '' storage path''))
       (resolveOptionalStoragePathAndSize cwd storage opt))) (\<lambda>(storagePath, storageSize).
     sbind (slift (map_err (wrap IllegalState (''failed to render '' @ os_Name opt @ '' storage template''))
       (se_RenderOptional env \<lparr>od_Namespace = ns, od_Release = release, od_PVName = os_PVName opt, od_PVCName = os_PVCName opt,
          od_Path = storagePath, od_Size = storageSize\<rparr>))) (\<lambda>storageConfig.
     let configFilePath = path_Join [tempDir, ''block-node-'' @ os_Name opt @ ''-storage.yaml''] in
     sbind (smap_err (wrap IllegalState (''failed to write '' @ os_Name opt @ '' storage config'')) (se_WriteFile env configFilePath storageConfig)) (\<lambda>_.
     sbind (smap_err (wrap IllegalState (''failed to apply '' @ os_Name opt @ '' storage'')) (se_ApplyManifest env configFilePath)) (\<lambda>_.
     smap_err (wrap IllegalState (os_Name opt @ '' PVC did not become bound in time'')) (se_WaitBound env ns (os_PVCName opt))))))"

section \<open>Deleting the volumes of a release\<close>

definition SoloProvisionerStorageLabelSelector :: string where
  "SoloProvisionerStorageLabelSelector = ''app.kubernetes.io/managed-by=solo-provisioner,app.kubernetes.io/component=block-node-storage''"

definition helmManagedStorageLabelSelector :: "string \<Rightarrow> string" where
  "helmManagedStorageLabelSelector release = ''app.kubernetes.io/managed-by=Helm,app.kubernetes.io/instance='' @ release"

definition storage_selectors :: "string \<Rightarrow> string list" where
  "storage_selectors release =
     (if release \<noteq> [] then [SoloProvisionerStorageLabelSelector @ '',app.kubernetes.io/instance='' @ release,
                          helmManagedStorageLabelSelector release]
      else [SoloProvisionerStorageLabelSelector])"

text \<open>The loop over the listed names; \<open>seen\<close> is the set of names handled before.\<close>

fun delete_new :: "(string \<Rightarrow> ('c, unit) action) \<Rightarrow> string list \<Rightarrow> string list \<Rightarrow> ('c, string list) action" where
  "delete_new del [] seen = sret seen"
| "delete_new del (n # ns) seen =
     (if n \<in> set seen then delete_new del ns seen else sbind (del n) (\<lambda>_. delete_new del ns (n # seen)))"

fun delete_selected :: "(string \<Rightarrow> ('c, string list) action) \<Rightarrow> (string \<Rightarrow> ('c, unit) action) \<Rightarrow> string list \<Rightarrow> string list \<Rightarrow>
    ('c, string list) action" where
  "delete_selected lst del [] seen = sret seen"
| "delete_selected lst del (sel # sels) seen =
     sbind (lst sel) (\<lambda>names. sbind (delete_new del names seen) (delete_selected lst del sels))"

definition legacy_pvcs :: "string list" where
  "legacy_pvcs = core_pvcs @ map os_PVCName optionalStorages"

definition legacy_pvs :: "string list" where
  "legacy_pvs = [''live-storage-pv'', ''archive-storage-pv'', ''logging-storage-pv''] @ map os_PVName optionalStorages"

definition list_claimed_pvs :: "'c storage_env \<Rightarrow> string \<Rightarrow> string \<Rightarrow> ('c, string list) action" where
  "list_claimed_pvs env ns sel =
     sbind (smap_err (wrap IllegalState ''failed to list block-node PVs'') (se_ListPVs env sel)) (\<lambda>pvs.
     sret (map fst (filter (\<lambda>(_, claimNs). claimNs = Some ns) pvs)))"

definition DeleteAllPersistentVolumes :: "'c storage_env \<Rightarrow> string \<Rightarrow> string \<Rightarrow> ('c, unit) action" where
  "DeleteAllPersistentVolumes env ns release =
     (let selectors = storage_selectors release in
      sbind (delete_selected (\<lambda>sel. smap_err (wrap IllegalState ''failed to list block-node PVCs'') (se_ListPVCs env ns sel))
        (\<lambda>n. smap_err (wrap IllegalState ''failed to delete PVC'') (se_DeletePVC env ns n)) selectors []) (\<lambda>seenPVC.
      sbind (delete_selected (list_claimed_pvs env ns)
        (\<lambda>n. smap_err (wrap IllegalState ''failed to delete PV'') (se_DeletePV env n)) selectors []) (\<lambda>seenPV.
      sbind (seach (\<lambda>n. if n \<in> set seenPVC then sret ()
        else smap_err (wrap IllegalState ''failed to delete legacy PVC'') (se_DeletePVC env ns n)) legacy_pvcs) (\<lambda>_.
      seach (\<lambda>n. if n \<in> set seenPV then sret ()
        else smap_err (wrap IllegalState ''failed to delete legacy PV'') (se_DeletePV env n)) legacy_pvs))))"

section \<open>Joined paths\<close>

definition safe_abs :: "string \<Rightarrow> bool" where
  "safe_abs q \<longleftrightarrow> filepath_IsAbs q \<and> filepath_Clean q = q \<and> validPathChars q \<and> \<not> shellMetachars q"

abbreviation cwd_ok :: "string option \<Rightarrow> bool" where
  "cwd_ok cwd \<equiv> \<forall>wd. cwd = Some wd \<longrightarrow> filepath_IsAbs wd"

lemma SanitizePath_safe_abs: "SanitizePath cwd p = Inr q \<Longrightarrow> cwd_ok cwd \<Longrightarrow> safe_abs q"
  unfolding safe_abs_def by (rule SanitizePath_safe_aux)

lemma Split_clean:
  assumes "filepath_IsAbs q" "filepath_Clean q = q" "e \<in> set (strings_Split (CHR ''/'') q)"
  shows "e = [] \<or> plain_elem e"
proof -
  have q: "q = CHR ''/'' # strings_Join ''/'' (abs_elems q)" using assms Clean_abs[of q] by simp
  have "strings_Split (CHR ''/'') (strings_Join ''/'' (abs_elems q)) = (if abs_elems q = [] then [[]] else abs_elems q)"
    using abs_elems_plain by (simp, intro impI Split_Join) (auto simp: plain_elem_def)
  then have "strings_Split (CHR ''/'') q = [] # (if abs_elems q = [] then [[]] else abs_elems q)"
    by (subst q) simp
  with assms(3) abs_elems_plain show ?thesis by (auto split: if_splits)
qed

lemma SanitizePath_fixed: "safe_abs q \<Longrightarrow> SanitizePath cwd q = Inr q"
  using Split_clean[of q] Clean_nonempty[of q]
  by (auto simp: safe_abs_def SanitizePath_def list_ex_iff plain_elem_def)

definition dir_name :: "string \<Rightarrow> bool" where
  "dir_name d \<longleftrightarrow> d \<noteq> [] \<and> list_all (\<lambda>c. is_alnum c \<or> c = CHR ''-'') d"

lemma dir_name_plain:
  assumes "dir_name d"
  shows "plain_elem d"
proof -
  have "CHR ''.'' \<notin> set d" "CHR ''/'' \<notin> set d"
    using assms by (auto simp: dir_name_def list_all_iff is_alnum_def is_lower_def is_upper_def is_digit_def)
  with assms show ?thesis by (auto simp: plain_elem_def dir_name_def)
qed

lemma abs_elems_snoc: "plain_elem d \<Longrightarrow> abs_elems (q @ CHR ''/'' # d) = abs_elems q @ [d]"
  by (simp add: abs_elems_def Split_append_sep Split_no_sep plain_elem_def clean_elems_def clean_step_def)

lemma path_Join_dir: "q \<noteq> [] \<Longrightarrow> path_Join [q, d] = filepath_Clean (q @ CHR ''/'' # d)"
  by (simp add: path_Join_def)

lemma safe_abs_Join:
  assumes "safe_abs q" "dir_name d"
  shows "safe_abs (path_Join [q, d]) \<and> abs_elems (path_Join [q, d]) = abs_elems q @ [d]"
proof -
  let ?p = "q @ CHR ''/'' # d"
  have q: "filepath_IsAbs q" "q \<noteq> []" using assms by (auto simp: safe_abs_def filepath_IsAbs_def)
  then have abs: "filepath_IsAbs ?p" by (auto simp: filepath_IsAbs_def prefix_def)
  have j: "path_Join [q, d] = filepath_Clean ?p" using q by (simp add: path_Join_dir)
  have chars: "validPathChars ?p" "\<not> shellMetachars ?p"
    using assms by (auto simp: safe_abs_def validPathChars_def shellMetachars_def dir_name_def list_all_iff list_ex_iff
        is_alnum_def is_lower_def is_upper_def is_digit_def)
  have "validPathChars (filepath_Clean ?p)" "\<not> shellMetachars (filepath_Clean ?p)"
    using path_chars_mono[OF set_Clean_abs[OF abs]] Clean_nonempty[of ?p] chars by blast+
  then show ?thesis
    using abs by (simp add: j safe_abs_def IsAbs_Clean Clean_idem abs_elems_Clean abs_elems_snoc dir_name_plain[OF assms(2)])
qed

section \<open>Completeness of a validated storage\<close>

lemma check_path_Inr: "check_path cwd m p = Inr () \<longleftrightarrow> p = [] \<or> (\<exists>q. SanitizePath cwd p = Inr q)"
  by (auto simp: check_path_def split: sum.splits)

lemma Storage_Validate_paths:
  assumes "Storage_Validate cwd b = Inr ()"
  shows "\<forall>p \<in> {bs_BasePath b, bs_ArchivePath b, bs_LivePath b, bs_LogPath b} \<union> (\<lambda>opt. os_GetPath opt b) ` set optionalStorages.
    p \<noteq> [] \<longrightarrow> (\<exists>q. SanitizePath cwd p = Inr q)"
proof -
  have "check_path cwd m p = Inr () \<Longrightarrow> p \<noteq> [] \<longrightarrow> (\<exists>q. SanitizePath cwd p = Inr q)" for m p
    by (auto simp: check_path_Inr)
  then show ?thesis
    using assms unfolding Storage_Validate_def rbind_Inr_unit
    by (elim exE conjE)
      (simp add: optionalStorages_def verification_storage_def plugins_storage_def application_state_storage_def)
qed

lemma blank_Nil [simp]: "blank []"
  by (simp add: blank_def strings_TrimSpace_def trim_runes.simps)

lemma registry_dir_names: "opt \<in> set optionalStorages \<Longrightarrow> dir_name (os_DirName opt)"
  by (auto simp: optionalStorages_def verification_storage_def plugins_storage_def application_state_storage_def
      dir_name_def is_alnum_def is_lower_def is_upper_def is_digit_def)

lemma applicable_registry: "set (GetApplicableOptionalStorages v) \<subseteq> set optionalStorages"
  by (auto simp: GetApplicableOptionalStorages_def)

text \<open>The paths that the resolution sanitizes: the configured one, or the directory below the base path.\<close>

definition effective_path :: "string \<Rightarrow> string \<Rightarrow> string \<Rightarrow> string" where
  "effective_path basePath p dir = (if p = [] then path_Join [basePath, dir] else p)"

text \<open>Where a path that is not configured ends up.\<close>

definition below_base :: "string \<Rightarrow> string \<Rightarrow> string \<Rightarrow> string \<Rightarrow> bool" where
  "below_base base p dir q \<longleftrightarrow> safe_abs q \<and> (p = [] \<longrightarrow> abs_elems q = abs_elems base @ [dir])"

lemma effective_path_ok:
  assumes "cwd_ok cwd" "if p = [] then safe_abs base else \<exists>q. SanitizePath cwd p = Inr q" "dir_name dir"
  shows "\<exists>q. SanitizePath cwd (effective_path base p dir) = Inr q \<and> below_base base p dir q \<and> effective_path base p dir \<noteq> []"
proof (cases "p = []")
  case True
  then have s: "safe_abs (path_Join [base, dir])" "abs_elems (path_Join [base, dir]) = abs_elems base @ [dir]"
    using safe_abs_Join[of base dir] assms(2,3) by auto
  moreover have "path_Join [base, dir] \<noteq> []" using s(1) by (auto simp: safe_abs_def validPathChars_def)
  ultimately show ?thesis
    using SanitizePath_fixed[OF s(1), of cwd] True by (simp add: effective_path_def below_base_def)
next
  case False
  then obtain q where q: "SanitizePath cwd p = Inr q" using assms(2) by auto
  with False SanitizePath_safe_abs[OF q assms(1)] show ?thesis by (simp add: effective_path_def below_base_def)
qed

lemma rmap_all_ok:
  assumes "\<forall>x \<in> set xs. \<exists>y. f x = Inr y \<and> P x y"
  shows "\<exists>ys. rmap f xs = Inr ys \<and> list_all2 P xs ys"
  using assms by (induction xs) fastforce+

lemma rmap_map: "rmap f (map g xs) = rmap (\<lambda>x. f (g x)) xs"
  by (induction xs) auto

lemma sanitize_wrapped_Inr [simp]: "sanitize_wrapped cwd m p = Inr q \<longleftrightarrow> SanitizePath cwd p = Inr q"
  by (simp add: sanitize_wrapped_def)

lemma sanitize_wrapped_eq: "SanitizePath cwd p = Inr q \<Longrightarrow> sanitize_wrapped cwd m p = Inr q"
  by simp

lemma core_dir_names: "dir_name ''archive''" "dir_name ''live''" "dir_name ''logs''"
  by (simp_all add: dir_name_def is_alnum_def is_lower_def is_upper_def is_digit_def)

lemma ResolveStoragePaths_ok:
  assumes cwd: "cwd_ok cwd"
    and base: "bs_BasePath st \<noteq> [] \<Longrightarrow> SanitizePath cwd (bs_BasePath st) = Inr base"
    and core: "\<And>p. p \<in> {bs_ArchivePath st, bs_LivePath st, bs_LogPath st} \<Longrightarrow>
      if p = [] then bs_BasePath st \<noteq> [] else \<exists>q. SanitizePath cwd p = Inr q"
    and opts: "\<And>opt. opt \<in> set (GetApplicableOptionalStorages v) \<Longrightarrow>
      if os_GetPath opt st = [] then bs_BasePath st \<noteq> [] else \<exists>q. SanitizePath cwd (os_GetPath opt st) = Inr q"
  shows "\<exists>a l g os. ResolveStoragePaths cwd st v = Inr (a, l, g, os) \<and>
     below_base base (bs_ArchivePath st) ''archive'' a \<and> below_base base (bs_LivePath st) ''live'' l \<and>
     below_base base (bs_LogPath st) ''logs'' g \<and>
     list_all2 (\<lambda>opt q. below_base base (os_GetPath opt st) (os_DirName opt) q) (GetApplicableOptionalStorages v) os"
proof -
  let ?app = "GetApplicableOptionalStorages v"
  define bp where "bp = (if bs_BasePath st \<noteq> [] then base else [])"
  have safe: "safe_abs base" if "bs_BasePath st \<noteq> []" using SanitizePath_safe_abs[OF base cwd] that by blast
  then have bpne: "bp = [] \<longleftrightarrow> bs_BasePath st = []" by (auto simp: bp_def safe_abs_def filepath_IsAbs_def)
  have eff: "\<exists>q. SanitizePath cwd (effective_path bp p dir) = Inr q \<and> below_base base p dir q \<and> effective_path bp p dir \<noteq> []"
    if p: "if p = [] then bs_BasePath st \<noteq> [] else \<exists>q. SanitizePath cwd p = Inr q" and dir: "dir_name dir" for p dir
  proof -
    have "if p = [] then safe_abs bp else \<exists>q. SanitizePath cwd p = Inr q" using safe p by (simp add: bp_def split: if_splits)
    from effective_path_ok[OF cwd this dir] show ?thesis
      using p by (cases "p = []") (simp_all add: bp_def below_base_def)
  qed
  obtain a l g where alg:
    "SanitizePath cwd (effective_path bp (bs_ArchivePath st) ''archive'') = Inr a" "below_base base (bs_ArchivePath st) ''archive'' a"
    "SanitizePath cwd (effective_path bp (bs_LivePath st) ''live'') = Inr l" "below_base base (bs_LivePath st) ''live'' l"
    "SanitizePath cwd (effective_path bp (bs_LogPath st) ''logs'') = Inr g" "below_base base (bs_LogPath st) ''logs'' g"
    using eff[OF core core_dir_names(1), of "bs_ArchivePath st"] eff[OF core core_dir_names(2), of "bs_LivePath st"]
      eff[OF core core_dir_names(3), of "bs_LogPath st"] by auto
  let ?f = "\<lambda>(name, p). if p \<noteq> [] then sanitize_wrapped cwd (''invalid '' @ name @ '' path'') p else Inr p"
  let ?eff = "\<lambda>opt. (os_Name opt, effective_path bp (os_GetPath opt st) (os_DirName opt))"
  have "\<exists>y. ?f (?eff opt) = Inr y \<and> below_base base (os_GetPath opt st) (os_DirName opt) y" if "opt \<in> set ?app" for opt
    using eff[OF opts[OF that] registry_dir_names[OF subsetD[OF applicable_registry that]]] by auto
  then have "\<exists>ys. rmap (\<lambda>opt. ?f (?eff opt)) ?app = Inr ys \<and>
      list_all2 (\<lambda>opt q. below_base base (os_GetPath opt st) (os_DirName opt) q) ?app ys"
    by (intro rmap_all_ok ballI)
  then obtain os where os: "rmap ?f (map ?eff ?app) = Inr os"
    "list_all2 (\<lambda>opt q. below_base base (os_GetPath opt st) (os_DirName opt) q) ?app os"
    unfolding rmap_map by blast
  have miss: "\<not> (bp = [] \<and> ((bs_ArchivePath st = [] \<or> bs_LivePath st = [] \<or> bs_LogPath st = []) \<or> list_ex (\<lambda>opt. os_GetPath opt st = []) ?app))"
    using core[of "bs_ArchivePath st"] core[of "bs_LivePath st"] core[of "bs_LogPath st"] opts bpne
    by (auto simp: list_ex_iff split: if_splits)
  have bind: "(if bs_BasePath st \<noteq> [] then sanitize_wrapped cwd m (bs_BasePath st) else Inr []) = Inr bp" for m
    using base by (simp add: bp_def)
  have "ResolveStoragePaths cwd st v = Inr (a, l, g, os)"
    unfolding ResolveStoragePaths_def Let_def bind rbind_simps
    using miss alg(1,3,5) os(1) unfolding effective_path_def by (simp add: sanitize_wrapped_eq)
  with alg os show ?thesis by blast
qed

text \<open>
  C27: a storage configuration that passes validation and the completeness check for an installation whose plugins volume is
  managed resolves: every path that the chart version needs is an absolute, cleaned path without shell metacharacters, and a path
  that is not configured is the directory of that name directly below the base path. The hypothesis is that \<open>os.Getwd\<close> returns
  an absolute path. For a plugins-baked image the check is weaker, see \<open>baked_plugins_do_not_resolve\<close>.
\<close>
theorem validated_storage_resolves:
  assumes "Storage_Validate cwd st = Inr ()" "ValidateStorageCompleteness st v True = Inr ()" "cwd_ok cwd"
  shows "\<exists>base a l g os. ResolveStoragePaths cwd st v = Inr (a, l, g, os) \<and>
     (bs_BasePath st \<noteq> [] \<longrightarrow> SanitizePath cwd (bs_BasePath st) = Inr base) \<and>
     below_base base (bs_ArchivePath st) ''archive'' a \<and> below_base base (bs_LivePath st) ''live'' l \<and>
     below_base base (bs_LogPath st) ''logs'' g \<and>
     list_all2 (\<lambda>opt q. below_base base (os_GetPath opt st) (os_DirName opt) q) (GetApplicableOptionalStorages v) os"
proof -
  let ?app = "GetApplicableOptionalStorages v"
  note paths = Storage_Validate_paths[OF assms(1)]
  obtain base where base: "bs_BasePath st \<noteq> [] \<Longrightarrow> SanitizePath cwd (bs_BasePath st) = Inr base"
    using paths by auto
  have set: "bs_BasePath st \<noteq> []" if "p = []" "p \<in> {bs_ArchivePath st, bs_LivePath st, bs_LogPath st} \<union> (\<lambda>opt. os_GetPath opt st) ` set ?app" for p
    using assms(2) that by (auto simp: ValidateStorageCompleteness_def check_all_Inr split: if_splits)
  have core: "if p = [] then bs_BasePath st \<noteq> [] else \<exists>q. SanitizePath cwd p = Inr q"
    if "p \<in> {bs_ArchivePath st, bs_LivePath st, bs_LogPath st}" for p
    using that set[of p] paths by auto
  have opts: "if os_GetPath opt st = [] then bs_BasePath st \<noteq> [] else \<exists>q. SanitizePath cwd (os_GetPath opt st) = Inr q"
    if "opt \<in> set ?app" for opt
  proof (cases "os_GetPath opt st = []")
    case True
    with that set[of "[]"] show ?thesis by force
  next
    case False
    with that subsetD[OF applicable_registry that] paths show ?thesis by simp
  qed
  from ResolveStoragePaths_ok[OF assms(3) base core opts] base show ?thesis by blast
qed

definition example_storage :: bn_storage where
  "example_storage = \<lparr>bs_BasePath = ''/mnt/data/'', bs_ArchivePath = [], bs_LivePath = ''/fast/live'', bs_LogPath = [],
     bs_VerificationPath = [], bs_PluginsPath = [], bs_ApplicationStatePath = [], bs_LiveSize = ''10Gi'', bs_ArchiveSize = [],
     bs_LogSize = [], bs_VerificationSize = [], bs_PluginsSize = [], bs_ApplicationStateSize = []\<rparr>"

theorem validated_storage_resolves_witness:
  "(\<exists>base a l g os. ResolveStoragePaths None example_storage ''0.36.1'' = Inr (a, l, g, os) \<and>
     below_base base [] ''archive'' a) \<and>
   ResolveStoragePaths None example_storage ''0.36.1'' =
     Inr (''/mnt/data/archive'', ''/fast/live'', ''/mnt/data/logs'', [''/mnt/data/verification'', ''/mnt/data/plugins''])"
proof
  have v: "Storage_Validate None example_storage = Inr ()" by code_simp
  have c: "ValidateStorageCompleteness example_storage ''0.36.1'' True = Inr ()" by code_simp
  have "bs_ArchivePath example_storage = []" by (simp add: example_storage_def)
  with validated_storage_resolves[OF v c]
  show "\<exists>base a l g os. ResolveStoragePaths None example_storage ''0.36.1'' = Inr (a, l, g, os) \<and> below_base base [] ''archive'' a"
    by auto
  show "ResolveStoragePaths None example_storage ''0.36.1'' =
     Inr (''/mnt/data/archive'', ''/fast/live'', ''/mnt/data/logs'', [''/mnt/data/verification'', ''/mnt/data/plugins''])"
    by code_simp
qed

text \<open>
  For a plugins-baked image the completeness check does not ask for a plugins path, but the resolution does: a
  configuration with explicit paths passes the check and then fails to resolve.
\<close>

definition baked_storage :: bn_storage where
  "baked_storage = example_storage\<lparr>bs_BasePath := [], bs_ArchivePath := ''/d/archive'', bs_LogPath := ''/d/logs'',
     bs_ApplicationStatePath := ''/d/application-state''\<rparr>"

lemma baked_plugins_do_not_resolve:
  "Storage_Validate None baked_storage = Inr ()"
  "ValidateStorageCompleteness baked_storage ''0.37.0'' False = Inr ()"
  "ResolveStoragePaths None baked_storage ''0.37.0'' =
     Inl (Err IllegalArgument ''at least one storage path is not set and base path is empty'')"
  by code_simp+

section \<open>Storages by version\<close>

lemma NewSemver_boundaries:
  "NewSemver ''0.26.2'' = Inr \<lparr>sv_raw = ''0.26.2'', sv_versionStr = ''0.26.2'', sv_major = 0, sv_minor = 26, sv_patch = 2,
     sv_preRelease = [], sv_build = []\<rparr>"
  "NewSemver ''0.28.1'' = Inr \<lparr>sv_raw = ''0.28.1'', sv_versionStr = ''0.28.1'', sv_major = 0, sv_minor = 28, sv_patch = 1,
     sv_preRelease = [], sv_build = []\<rparr>"
  "NewSemver ''0.37.0-0'' = Inr \<lparr>sv_raw = ''0.37.0-0'', sv_versionStr = ''0.37.0-0'', sv_major = 0, sv_minor = 37, sv_patch = 0,
     sv_preRelease = ''0'', sv_build = []\<rparr>"
  by code_simp+

lemma RequiredByVersion_bounds:
  assumes "NewSemver v = Inr t" "NewSemver (os_MinVersion opt) = Inr lo"
  shows "os_MaxVersion opt = [] \<Longrightarrow> RequiredByVersion opt v \<longleftrightarrow> \<not> LessThan t lo"
    and "os_MaxVersion opt \<noteq> [] \<Longrightarrow> NewSemver (os_MaxVersion opt) = Inr hi \<Longrightarrow>
      RequiredByVersion opt v \<longleftrightarrow> \<not> LessThan t lo \<and> LessThan t hi"
  using assms by (simp_all add: RequiredByVersion_def)

lemmas registry_defs = optionalStorages_def verification_storage_def plugins_storage_def application_state_storage_def
  BlockNodeApplicationStateRequiredVersion_def BlockNodeVerificationRetirementVersion_def

text \<open>The versions at which the registry changes, as keys.\<close>

abbreviation "verification_from \<equiv> (0 :: int, 26 :: int, 2 :: int, True, [] :: string)"
abbreviation "plugins_from \<equiv> (0 :: int, 28 :: int, 1 :: int, True, [] :: string)"
abbreviation "application_state_from \<equiv> (0 :: int, 37 :: int, 0 :: int, False, ''0'')"

lemma boundaries_ascend: "verification_from < plugins_from" "plugins_from < application_state_from"
  by simp_all

lemma registry_required:
  assumes t: "NewSemver v = Inr t"
  shows "RequiredByVersion verification_storage v \<longleftrightarrow> verification_from \<le> sv_key t \<and> sv_key t < application_state_from"
    and "RequiredByVersion plugins_storage v \<longleftrightarrow> plugins_from \<le> sv_key t"
    and "RequiredByVersion application_state_storage v \<longleftrightarrow> application_state_from \<le> sv_key t"
proof -
  have b: "\<exists>lo. NewSemver ''0.26.2'' = Inr lo \<and> sv_key lo = verification_from"
    "\<exists>lo. NewSemver ''0.28.1'' = Inr lo \<and> sv_key lo = plugins_from"
    "\<exists>lo. NewSemver ''0.37.0-0'' = Inr lo \<and> sv_key lo = application_state_from"
    by (simp_all add: NewSemver_boundaries) (simp_all add: sv_key_def)
  then obtain x y z where k: "NewSemver ''0.26.2'' = Inr x" "sv_key x = verification_from" "NewSemver ''0.28.1'' = Inr y"
    "sv_key y = plugins_from" "NewSemver ''0.37.0-0'' = Inr z" "sv_key z = application_state_from" by blast
  have "RequiredByVersion verification_storage v \<longleftrightarrow> \<not> LessThan t x \<and> LessThan t z"
    "RequiredByVersion plugins_storage v \<longleftrightarrow> \<not> LessThan t y"
    "RequiredByVersion application_state_storage v \<longleftrightarrow> \<not> LessThan t z"
    by (simp_all add: RequiredByVersion_def t registry_defs k(1,3,5))
  then show "RequiredByVersion verification_storage v \<longleftrightarrow> verification_from \<le> sv_key t \<and> sv_key t < application_state_from"
    and "RequiredByVersion plugins_storage v \<longleftrightarrow> plugins_from \<le> sv_key t"
    and "RequiredByVersion application_state_storage v \<longleftrightarrow> application_state_from \<le> sv_key t"
    by (simp_all only: LessThan_key k(2,4,6) not_less)
qed

text \<open>
  The volumes that a chart version requires, for every version string. In particular the verification volume is
  required exactly below the version from which on the application-state volume is required, so that no version from 0.26.2
  on is without one of them and none has both; the pre-releases of 0.37.0 count as 0.37.0.
\<close>
lemma storages_by_version:
  "map os_Name (GetApplicableOptionalStorages v) =
     (case NewSemver v of
        Inl _ \<Rightarrow> []
      | Inr t \<Rightarrow>
          if sv_key t < (0, 26, 2, True, []) then []
          else if sv_key t < (0, 28, 1, True, []) then [''verification'']
          else if sv_key t < (0, 37, 0, False, ''0'') then [''verification'', ''plugins'']
          else [''plugins'', ''application-state''])"
proof (cases "NewSemver v")
  case (Inl e)
  then show ?thesis by (simp add: GetApplicableOptionalStorages_def RequiredByVersion_def)
next
  case (Inr t)
  define k A B C where "k = sv_key t" and "A = verification_from" and "B = plugins_from" and "C = application_state_from"
  note abs = k_def[symmetric] A_def[symmetric] B_def[symmetric] C_def[symmetric]
  have names: "os_Name verification_storage = ''verification''" "os_Name plugins_storage = ''plugins''"
    "os_Name application_state_storage = ''application-state''" by (simp_all add: registry_defs)
  have "A < B" "B < C" using boundaries_ascend unfolding abs by simp_all
  then consider "k < A" "k < B" "k < C" | "A \<le> k" "k < B" "k < C" | "A \<le> k" "B \<le> k" "k < C" | "A \<le> k" "B \<le> k" "C \<le> k"
    by fastforce
  then have "map os_Name (filter (\<lambda>opt. RequiredByVersion opt v) [verification_storage, plugins_storage, application_state_storage]) =
    (if k < A then [] else if k < B then [''verification''] else if k < C then [''verification'', ''plugins'']
     else [''plugins'', ''application-state''])"
    using registry_required[OF Inr, unfolded abs] by cases (simp_all add: names not_less[symmetric])
  then show ?thesis
    unfolding GetApplicableOptionalStorages_def optionalStorages_def abs by (simp add: Inr k_def)
qed

section \<open>Merging configurations\<close>

text \<open>
  A set field is never overwritten, a field is filled only from the other configuration, and a receiver that has a base
  path keeps its individual paths empty.
\<close>

lemma fill_cases: "\<not> blank x \<Longrightarrow> fill x y = x" "fill x y = x \<or> fill x y = y"
  by (simp_all add: fill_def)

lemma MergeFrom_priority:
  assumes "F \<in> {bs_BasePath, bs_ArchivePath, bs_LivePath, bs_LogPath, bs_VerificationPath, bs_PluginsPath, bs_ApplicationStatePath,
     bs_LiveSize, bs_ArchiveSize, bs_LogSize, bs_VerificationSize, bs_PluginsSize, bs_ApplicationStateSize}"
  shows "(\<not> blank (F b) \<longrightarrow> F (MergeFrom b c) = F b) \<and> (F (MergeFrom b c) = F b \<or> F (MergeFrom b c) = F c)"
  using assms by (elim insertE emptyE; simp add: MergeFrom_def fill_cases)

lemma MergeFrom_base_mode:
  assumes "\<not> blank (bs_BasePath b)" "F \<in> {bs_BasePath, bs_ArchivePath, bs_LivePath, bs_LogPath, bs_VerificationPath, bs_PluginsPath,
     bs_ApplicationStatePath}"
  shows "F (MergeFrom b c) = F b"
  using assms by (elim insertE emptyE; simp add: MergeFrom_def)

section \<open>Isolation of the deletion\<close>

lemma keeps_delete_new:
  assumes "\<And>n. n \<notin> X \<Longrightarrow> keeps f (del n)"
  shows "set names \<inter> X = {} \<Longrightarrow> keeps f (delete_new del names seen)"
proof (induction names arbitrary: seen)
  case (Cons n names)
  then have "keeps f (del n)" using assms[of n] by auto
  with Cons show ?case by (auto intro!: keeps_intros)
qed (simp add: keeps_intros)

lemma keeps_delete_selected:
  assumes del: "\<And>n. n \<notin> X \<Longrightarrow> keeps f (del n)" and lst: "\<And>sel. keeps f (lst sel)"
    and sel: "\<And>sel s names s'. lst sel s = (Inr names, s') \<Longrightarrow> set names \<inter> X = {}"
  shows "keeps f (delete_selected lst del sels seen)"
proof (induction sels arbitrary: seen)
  case (Cons a sels)
  show ?case
    unfolding keeps_def
  proof
    fix s
    obtain r s1 where l: "lst a s = (r, s1)" by fastforce
    have f1: "f s1 = f s" using lst[of a] l by (auto dest: keepsD)
    show "f (snd (delete_selected lst del (a # sels) seen s)) = f s"
    proof (cases r)
      case (Inr names)
      then have "keeps f (sbind (delete_new del names seen) (delete_selected lst del sels))"
        using keeps_delete_new[OF del sel] l Cons.IH by (auto intro!: keeps_intros)
      with Inr l f1 show ?thesis by (simp add: sbind_def keeps_def)
    qed (use l f1 in \<open>simp add: sbind_def\<close>)
  qed
qed (simp add: keeps_intros)

lemma keeps_delete_legacy:
  assumes "\<And>n. n \<notin> X \<Longrightarrow> keeps f (del n)" "set names \<inter> X = {}"
  shows "keeps f (seach (\<lambda>n. if n \<in> S then sret () else smap_err h (del n)) names)"
  using assms(2)
proof (induction names)
  case (Cons n names)
  then have "keeps f (del n)" using assms(1)[of n] by auto
  with Cons show ?case by (auto intro!: keeps_intros)
qed (simp add: keeps_intros)

text \<open>
  C34: deleting the volumes of a release leaves every other volume alone: a persistent volume that is not claimed from the
  namespace of the release and that has none of the fixed names of the fallback is never deleted. The hypotheses say that the
  client's calls on other objects do not touch this volume.
\<close>
theorem DeleteAll_isolated:
  assumes pvc: "\<And>n. keeps f (se_DeletePVC env ns n)" and lists: "\<And>sel. keeps f (se_ListPVCs env ns sel)" "\<And>sel. keeps f (se_ListPVs env sel)"
    and pv: "\<And>n. n \<noteq> x \<Longrightarrow> keeps f (se_DeletePV env n)"
    and claim: "\<And>sel s pvs s' c. se_ListPVs env sel s = (Inr pvs, s') \<Longrightarrow> (x, c) \<in> set pvs \<Longrightarrow> c \<noteq> Some ns"
    and legacy: "x \<notin> set legacy_pvs"
  shows "keeps f (DeleteAllPersistentVolumes env ns release)"
proof -
  have "keeps f (delete_selected (list_claimed_pvs env ns) (\<lambda>n. smap_err (wrap IllegalState ''failed to delete PV'') (se_DeletePV env n)) sels [])"
    for sels
  proof (rule keeps_delete_selected[where X = "{x}"])
    fix sel s names s'
    assume "list_claimed_pvs env ns sel s = (Inr names, s')"
    then obtain pvs where "se_ListPVs env sel s = (Inr pvs, s')" "names = map fst (filter (\<lambda>(_, c). c = Some ns) pvs)"
      by (auto simp: list_claimed_pvs_def result_defs split: prod.splits sum.splits)
    with claim show "set names \<inter> {x} = {}" by fastforce
  qed (use pv lists in \<open>auto simp: list_claimed_pvs_def intro!: keeps_intros\<close>)
  moreover have "keeps f (delete_selected (\<lambda>sel. smap_err h (se_ListPVCs env ns sel)) (\<lambda>n. smap_err g (se_DeletePVC env ns n)) sels [])"
    for sels h g
    by (rule keeps_delete_selected[where X = "{}"]) (auto intro!: keeps_intros lists pvc)
  ultimately show ?thesis
    unfolding DeleteAllPersistentVolumes_def Let_def
    by (intro keeps_intros keeps_delete_legacy[where X = "{x}"] pvc) (use pv legacy in auto)
qed

text \<open>A cluster that holds volumes by name; the namespace of their claim is fixed.\<close>

definition demo_env :: "(string \<Rightarrow> string) \<Rightarrow> string list storage_env" where
  "demo_env claim = \<lparr>se_PathExists = (\<lambda>_. sret True), se_CreateDirectory = (\<lambda>_. sret ()), se_WritePermissions = (\<lambda>_. sret ()),
     se_WriteOwner = (\<lambda>_. sret ()), se_RemoveContents = (\<lambda>_. sret ()), se_Render = (\<lambda>_. Inr []), se_WriteFile = (\<lambda>_ _. sret ()),
     se_ApplyManifest = (\<lambda>_. sret ()), se_WaitBound = (\<lambda>_ _. sret ()), se_ListPVCs = (\<lambda>_ _. sret []),
     se_ListPVs = (\<lambda>_ s. (Inr (map (\<lambda>n. (n, Some (claim n))) s), s)), se_DeletePVC = (\<lambda>_ _. sret ()),
     se_DeletePV = (\<lambda>n s. (Inr (), removeAll n s)), se_RenderOptional = (\<lambda>_. Inr [])\<rparr>"

theorem DeleteAll_isolated_witness:
  "''other-pv'' \<in> set (snd (DeleteAllPersistentVolumes (demo_env (\<lambda>n. if n = ''other-pv'' then ''b'' else ''a'')) ''a'' ''bn''
     [''own-pv'', ''other-pv'']))"
proof -
  let ?claim = "\<lambda>n. if n = ''other-pv'' then ''b'' else ''a''"
  let ?f = "\<lambda>s. ''other-pv'' \<in> set s"
  have "keeps ?f (DeleteAllPersistentVolumes (demo_env ?claim) ''a'' ''bn'')"
  proof (rule DeleteAll_isolated[where x = "''other-pv''"])
    show "''other-pv'' \<notin> set legacy_pvs"
      by (simp add: legacy_pvs_def registry_defs)
  qed (auto simp: demo_env_def keeps_def sret_def)
  then show ?thesis by (simp add: keeps_def)
qed

text \<open>
  The fallback by fixed names does not look at the claim: a volume of that name that is claimed from another namespace is
  deleted together with the release.
\<close>

lemma legacy_fallback_not_isolated:
  "snd (DeleteAllPersistentVolumes (demo_env (\<lambda>n. ''b'')) ''a'' ''bn'' [''live-storage-pv'', ''other-pv'']) = [''other-pv'']"
  by code_simp

end
