(* ===== verification/Values.thy ===== *)
theory Values
  imports Storage "HOL-Library.AList"
begin

text \<open>
  The Helm values of a block node (\<open>internal/blocknode/values.go\<close>): the embedded base document, the operator's document
  merged over it, and the settings that weaver forces into the result.

  A YAML document read into \<open>map[string]interface{}\<close> is an association list with one entry per key; \<open>None\<close> is Go's nil
  map, which is what an empty document decodes to. A write to a nil map is a run-time panic, the value \<open>None\<close> of
  \<open>'a outcome\<close>. The YAML library, the template renderer, Helm's table merge and the file system are parameters.
\<close>

datatype yv = YNull | YBool bool | YStr string | YScalar string | YList "yv list" | YMap "(string \<times> yv) list"

type_synonym ymap = "(string \<times> yv) list"

type_synonym 'a outcome = "'a result option"

text \<open>\<open>m, ok := vals[k].(map[string]interface{}); if !ok { m = make(...) }\<close>\<close>

definition child :: "string \<Rightarrow> ymap \<Rightarrow> ymap" where
  "child k m = (case map_of m k of Some (YMap c) \<Rightarrow> c | _ \<Rightarrow> [])"

record values_inputs =
  vi_ChartVersion :: string
  vi_PluginList :: string
  vi_ValuesFile :: string
  vi_HistoricRetention :: string
  vi_RecentRetention :: string
  vi_LoadBalancerEnabled :: bool

text \<open>\<open>'b\<close> is the type of file contents.\<close>

record 'b values_env =
  ve_cwd :: "string option"
  ve_Stat :: "string \<Rightarrow> stat_result"
  ve_ReadFile :: "string \<Rightarrow> 'b result"
  ve_Unmarshal :: "'b \<Rightarrow> ymap option result"
  ve_Marshal :: "ymap \<Rightarrow> 'b result"
  ve_Coalesce :: "ymap \<Rightarrow> ymap \<Rightarrow> ymap"
  ve_Render :: "string \<Rightarrow> bool \<times> bool \<times> bool \<times> string \<Rightarrow> 'b result"

section \<open>The plugins signal\<close>

definition pluginsNamesFromValuesFile :: "'b values_env \<Rightarrow> string \<Rightarrow> yv option" where
  "pluginsNamesFromValuesFile env valuesFile =
     (if valuesFile = [] then None
      else case ValidateInputFile (ve_cwd env) (ve_Stat env) valuesFile of
        Inl _ \<Rightarrow> None
      | Inr sanitizedPath \<Rightarrow>
          (case ve_ReadFile env sanitizedPath of
             Inl _ \<Rightarrow> None
           | Inr content \<Rightarrow>
               (case ve_Unmarshal env content of
                  Inl _ \<Rightarrow> None
                | Inr None \<Rightarrow> None
                | Inr (Some vals) \<Rightarrow>
                    (case map_of vals ''plugins'' of Some (YMap plugins) \<Rightarrow> map_of plugins ''names'' | _ \<Rightarrow> None))))"

definition ValuesFileDefinesPlugins :: "'b values_env \<Rightarrow> string \<Rightarrow> bool" where
  "ValuesFileDefinesPlugins env valuesFile \<longleftrightarrow> pluginsNamesFromValuesFile env valuesFile \<noteq> None"

definition pluginsNamesValueEmpty :: "yv \<Rightarrow> bool" where
  "pluginsNamesValueEmpty v = (case v of YNull \<Rightarrow> True | YStr t \<Rightarrow> blank t | YList t \<Rightarrow> t = [] | _ \<Rightarrow> False)"

definition EffectivePluginsNamesEmpty :: "'b values_env \<Rightarrow> string \<Rightarrow> string \<Rightarrow> bool" where
  "EffectivePluginsNamesEmpty env pluginList valuesFile =
     (if \<not> blank pluginList then False
      else case pluginsNamesFromValuesFile env valuesFile of Some names \<Rightarrow> pluginsNamesValueEmpty names | None \<Rightarrow> False)"

definition managesPluginsStorage :: "'b values_env \<Rightarrow> values_inputs \<Rightarrow> bool" where
  "managesPluginsStorage env inp \<longleftrightarrow> \<not> EffectivePluginsNamesEmpty env (vi_PluginList inp) (vi_ValuesFile inp)"

section \<open>The base document and the operator's document\<close>

definition DefaultBlockNodeHealthPort :: string where
  "DefaultBlockNodeHealthPort = ''40983''"

definition renderDefaultValues :: "'b values_env \<Rightarrow> values_inputs \<Rightarrow> string \<Rightarrow> 'b result" where
  "renderDefaultValues env inp profile =
     (let applicable = map os_Name (GetApplicableOptionalStorages (vi_ChartVersion inp));
          includeVerification = (''verification'' \<in> set applicable);
          includePlugins = (''plugins'' \<in> set applicable \<and> managesPluginsStorage env inp);
          includeApplicationState = (''application-state'' \<in> set applicable);
          valuesTemplatePath = (if profile = ''local'' then ''files/block-node/nano-values.yaml'' else ''files/block-node/full-values.yaml'')
      in map_err (wrap InternalError ''failed to render block node values template'')
        (ve_Render env valuesTemplatePath (includeVerification, includePlugins, includeApplicationState, DefaultBlockNodeHealthPort)))"

definition readCustomValues :: "'b values_env \<Rightarrow> string \<Rightarrow> 'b result" where
  "readCustomValues env valuesFile =
     rbind (ValidateInputFile (ve_cwd env) (ve_Stat env) valuesFile) (\<lambda>sanitizedPath.
     map_err (wrap InternalError ''failed to read provided values file'') (ve_ReadFile env sanitizedPath))"

text \<open>The target maps of \<open>mergeValues\<close> are made before the documents are read into them, so they are not nil.\<close>

definition mergeValues :: "'b values_env \<Rightarrow> 'b \<Rightarrow> 'b \<Rightarrow> 'b result" where
  "mergeValues env base operator =
     rbind (map_err (wrap InternalError ''failed to parse embedded base values YAML'') (ve_Unmarshal env base)) (\<lambda>baseMap.
     rbind (map_err (wrap IllegalFormat ''failed to parse custom values YAML'') (ve_Unmarshal env operator)) (\<lambda>operatorMap.
     map_err (wrap InternalError ''failed to marshal merged values YAML'')
       (ve_Marshal env (ve_Coalesce env (case operatorMap of None \<Rightarrow> [] | Some m \<Rightarrow> m) (case baseMap of None \<Rightarrow> [] | Some m \<Rightarrow> m)))))"

section \<open>Forced settings\<close>

text \<open>Reading the document, changing the map and writing it back; a nil map cannot be written to.\<close>

definition edit :: "'b values_env \<Rightarrow> string \<Rightarrow> string \<Rightarrow> (ymap \<Rightarrow> ymap) \<Rightarrow> 'b \<Rightarrow> 'b outcome" where
  "edit env parse_msg marshal_msg f content =
     (case ve_Unmarshal env content of
        Inl e \<Rightarrow> Some (Inl (wrap IllegalFormat parse_msg e))
      | Inr None \<Rightarrow> None
      | Inr (Some vals) \<Rightarrow> Some (map_err (wrap InternalError marshal_msg) (ve_Marshal env (f vals))))"

definition persistence_entries :: "bool \<Rightarrow> string \<Rightarrow> (string \<times> string) list" where
  "persistence_entries managePlugins chartVersion =
     [(''live'', ''live-storage-pvc''), (''archive'', ''archive-storage-pvc''), (''logging'', ''logging-storage-pvc'')] @
     map (\<lambda>opt. (if os_PersistenceKey opt = [] then os_Name opt else os_PersistenceKey opt, os_PVCName opt))
       (filter (\<lambda>opt. \<not> (os_Name opt = ''plugins'' \<and> \<not> managePlugins)) (GetApplicableOptionalStorages chartVersion))"

definition force_claim :: "string \<times> string \<Rightarrow> ymap \<Rightarrow> ymap" where
  "force_claim = (\<lambda>(name, claimName) persistence.
     let existing = AList.update ''existingClaim'' (YStr claimName) (AList.update ''create'' (YBool False) (child name persistence))
     in AList.update name (YMap (if map_of existing ''subPath'' = None then AList.update ''subPath'' (YStr []) existing else existing))
          persistence)"

definition set_persistence :: "(string \<times> string) list \<Rightarrow> ymap \<Rightarrow> ymap" where
  "set_persistence entries vals =
     (let blockNode = child ''blockNode'' vals;
          persistence = fold force_claim entries (child ''persistence'' blockNode)
      in AList.update ''blockNode'' (YMap (AList.update ''persistence'' (YMap persistence) blockNode)) vals)"

definition injectPersistenceOverrides :: "'b values_env \<Rightarrow> values_inputs \<Rightarrow> 'b \<Rightarrow> 'b outcome" where
  "injectPersistenceOverrides env inp =
     edit env ''failed to parse values YAML'' ''failed to marshal values YAML after persistence override''
       (set_persistence (persistence_entries (managesPluginsStorage env inp) (vi_ChartVersion inp)))"

definition set_retention :: "string \<Rightarrow> string \<Rightarrow> ymap \<Rightarrow> ymap" where
  "set_retention historic recent vals =
     (let blockNode = child ''blockNode'' vals;
          config0 = child ''config'' blockNode;
          config1 = (if historic \<noteq> [] then AList.update ''FILES_HISTORIC_BLOCK_RETENTION_THRESHOLD'' (YStr historic) config0 else config0);
          config2 = (if recent \<noteq> [] then AList.update ''FILES_RECENT_BLOCK_RETENTION_THRESHOLD'' (YStr recent) config1 else config1)
      in AList.update ''blockNode'' (YMap (AList.update ''config'' (YMap config2) blockNode)) vals)"

definition injectRetentionConfig :: "'b values_env \<Rightarrow> values_inputs \<Rightarrow> 'b \<Rightarrow> 'b outcome" where
  "injectRetentionConfig env inp content =
     (if vi_HistoricRetention inp = [] \<and> vi_RecentRetention inp = [] then Some (Inr content)
      else edit env ''failed to parse values YAML for retention config injection''
        ''failed to marshal values YAML after retention config injection''
        (set_retention (vi_HistoricRetention inp) (vi_RecentRetention inp)) content)"

definition set_plugins :: "string \<Rightarrow> ymap \<Rightarrow> ymap" where
  "set_plugins names vals = AList.update ''plugins'' (YMap (AList.update ''names'' (YStr names) (child ''plugins'' vals))) vals"

definition injectPluginsConfig :: "'b values_env \<Rightarrow> values_inputs \<Rightarrow> 'b \<Rightarrow> 'b outcome" where
  "injectPluginsConfig env inp content =
     (let bakedEmpty = (\<not> managesPluginsStorage env inp) in
      if vi_PluginList inp = [] \<and> \<not> bakedEmpty then Some (Inr content)
      else edit env ''failed to parse values YAML for plugins config injection''
        ''failed to marshal values YAML after plugins config injection''
        (set_plugins (if bakedEmpty then [] else vi_PluginList inp)) content)"

text \<open>\<open>strconv.ParseBool\<close>\<close>

definition strconv_ParseBool :: "string \<Rightarrow> bool option" where
  "strconv_ParseBool s =
     (if s \<in> {''1'', ''t'', ''T'', ''TRUE'', ''true'', ''True''} then Some True
      else if s \<in> {''0'', ''f'', ''F'', ''FALSE'', ''false'', ''False''} then Some False
      else None)"

definition chartOwnsLoadBalancer :: "ymap \<Rightarrow> bool" where
  "chartOwnsLoadBalancer vals =
     (case map_of vals ''loadBalancer'' of
        Some (YMap lb) \<Rightarrow>
          (case map_of lb ''enabled'' of
             Some (YBool b) \<Rightarrow> b
           | Some (YStr s) \<Rightarrow> strconv_ParseBool s = Some True
           | _ \<Rightarrow> False)
      | _ \<Rightarrow> False)"

text \<open>The service after the two decisions, and whether it was changed. A key that is present with no value reads as nil.\<close>

definition default_type :: "ymap \<Rightarrow> ymap \<times> bool" where
  "default_type service =
     (case map_of service ''type'' of
        None \<Rightarrow> (AList.update ''type'' (YStr ''LoadBalancer'') service, True)
      | Some YNull \<Rightarrow> (AList.update ''type'' (YStr ''LoadBalancer'') service, True)
      | Some _ \<Rightarrow> (service, False))"

definition tag_pool :: "bool \<Rightarrow> ymap \<Rightarrow> ymap \<times> bool" where
  "tag_pool lbEnabled service =
     (let annotations = child ''annotations'' service in
      if lbEnabled \<and> map_of annotations ''metallb.io/address-pool'' = None then
        (AList.update ''annotations'' (YMap (AList.update ''metallb.io/address-pool'' (YStr ''public-address-pool'') annotations)) service, True)
      else (service, False))"

definition set_service :: "bool \<Rightarrow> ymap \<Rightarrow> ymap \<times> bool" where
  "set_service lbEnabled vals =
     (let (service1, m1) = default_type (child ''service'' vals); (service2, m2) = tag_pool lbEnabled service1
      in (AList.update ''service'' (YMap service2) vals, m1 \<or> m2))"

definition injectServiceAnnotations :: "'b values_env \<Rightarrow> values_inputs \<Rightarrow> 'b \<Rightarrow> 'b outcome" where
  "injectServiceAnnotations env inp content =
     (case ve_Unmarshal env content of
        Inl e \<Rightarrow> Some (Inl (wrap IllegalFormat ''failed to parse values YAML for service annotation injection'' e))
      | Inr None \<Rightarrow> None
      | Inr (Some vals) \<Rightarrow>
          if chartOwnsLoadBalancer vals then Some (Inr content)
          else (case set_service (vi_LoadBalancerEnabled inp) vals of (vals', mutated) \<Rightarrow>
            if \<not> mutated then Some (Inr content)
            else Some (map_err (wrap InternalError ''failed to marshal values YAML after service annotation injection'')
              (ve_Marshal env vals'))))"

definition obind :: "'a outcome \<Rightarrow> ('a \<Rightarrow> 'b outcome) \<Rightarrow> 'b outcome" where
  "obind r f = (case r of None \<Rightarrow> None | Some (Inl e) \<Rightarrow> Some (Inl e) | Some (Inr x) \<Rightarrow> f x)"

definition owrap :: "string \<Rightarrow> 'a outcome \<Rightarrow> 'a outcome" where
  "owrap msg = map_option (map_err (wrap InternalError msg))"

text \<open>The contents that \<open>ComputeValuesFile\<close> writes to the values file.\<close>

definition ComputeValues :: "'b values_env \<Rightarrow> values_inputs \<Rightarrow> string \<Rightarrow> string \<Rightarrow> 'b outcome" where
  "ComputeValues env inp profile valuesFile =
     obind (Some (renderDefaultValues env inp profile)) (\<lambda>base.
     obind (if valuesFile \<noteq> [] then Some (rbind (readCustomValues env valuesFile) (mergeValues env base)) else Some (Inr base)) (\<lambda>c0.
     obind (owrap ''failed to inject persistence overrides into values file'' (injectPersistenceOverrides env inp c0)) (\<lambda>c1.
     obind (owrap ''failed to inject retention config into values file'' (injectRetentionConfig env inp c1)) (\<lambda>c2.
     obind (owrap ''failed to inject plugins config into values file'' (injectPluginsConfig env inp c2)) (\<lambda>c3.
     owrap ''failed to inject service annotations into values file'' (injectServiceAnnotations env inp c3))))))"

definition ComputeValuesFile ::
  "'b values_env \<Rightarrow> (string \<Rightarrow> 'b \<Rightarrow> ('c, unit) action) \<Rightarrow> string \<Rightarrow> values_inputs \<Rightarrow> string \<Rightarrow> string \<Rightarrow> 'c \<Rightarrow> string outcome \<times> 'c" where
  "ComputeValuesFile env writeFile tempDir inp profile valuesFile s =
     (case ComputeValues env inp profile valuesFile of
        None \<Rightarrow> (None, s)
      | Some (Inl e) \<Rightarrow> (Some (Inl e), s)
      | Some (Inr content) \<Rightarrow>
          (let valuesFilePath = path_Join [tempDir, ''block-node-values.yaml''] in
           case writeFile valuesFilePath content s of
             (Inl e, s') \<Rightarrow> (Some (Inl (wrap InternalError ''failed to write block node values file'' e)), s')
           | (Inr _, s') \<Rightarrow> (Some (Inr valuesFilePath), s')))"


section \<open>Paths in a document\<close>

lemma child_update [simp]:
  "child k (AList.update k (YMap c) m) = c"
  "k \<noteq> k' \<Longrightarrow> child k (AList.update k' v m) = child k m"
  by (simp_all add: child_def update_conv')

lemma map_of_update [simp]: "map_of (AList.update k v m) k' = (if k' = k then Some v else map_of m k')"
  by (simp add: update_conv')

text \<open>A persistence entry that points at a claim weaver owns.\<close>

definition claim_ok :: "ymap \<Rightarrow> string \<times> string \<Rightarrow> bool" where
  "claim_ok persistence = (\<lambda>(name, claimName).
     map_of (child name persistence) ''create'' = Some (YBool False) \<and>
     map_of (child name persistence) ''existingClaim'' = Some (YStr claimName) \<and>
     map_of (child name persistence) ''subPath'' \<noteq> None)"

lemma force_claim_ok: "claim_ok (force_claim e m) e"
  by (cases e) (simp add: claim_ok_def force_claim_def Let_def)

lemma force_claim_other: "fst e \<noteq> fst e' \<Longrightarrow> claim_ok m e \<Longrightarrow> claim_ok (force_claim e' m) e"
  by (cases e; cases e') (simp add: claim_ok_def force_claim_def Let_def)

lemma fold_force_claim:
  "distinct (map fst es) \<Longrightarrow> e \<in> set es \<Longrightarrow> claim_ok (fold force_claim es m) e"
proof (induction es rule: rev_induct)
  case (snoc e' es)
  show ?case
  proof (cases "e = e'")
    case True
    then show ?thesis by (simp add: force_claim_ok)
  next
    case False
    with snoc.prems have e: "e \<in> set es" by auto
    with snoc.prems have "fst e \<noteq> fst e'" by (auto simp: rev_image_eqI)
    with snoc.IH snoc.prems e show ?thesis by (simp add: force_claim_other)
  qed
qed simp

abbreviation persistence_of :: "ymap \<Rightarrow> ymap" where
  "persistence_of vals \<equiv> child ''persistence'' (child ''blockNode'' vals)"

lemma persistence_set:
  "distinct (map fst es) \<Longrightarrow> e \<in> set es \<Longrightarrow> claim_ok (persistence_of (set_persistence es vals)) e"
  by (simp add: set_persistence_def Let_def fold_force_claim)

lemma persistence_kept [simp]:
  "persistence_of (set_retention h r vals) = persistence_of vals"
  "persistence_of (set_plugins p vals) = persistence_of vals"
  "persistence_of (fst (set_service lb vals)) = persistence_of vals"
  by (simp_all add: set_retention_def set_plugins_def set_service_def Let_def split: prod.splits)

abbreviation retention_of :: "ymap \<Rightarrow> ymap" where
  "retention_of vals \<equiv> child ''config'' (child ''blockNode'' vals)"

lemma retention_set:
  "h \<noteq> [] \<Longrightarrow> map_of (retention_of (set_retention h r vals)) ''FILES_HISTORIC_BLOCK_RETENTION_THRESHOLD'' = Some (YStr h)"
  "r \<noteq> [] \<Longrightarrow> map_of (retention_of (set_retention h r vals)) ''FILES_RECENT_BLOCK_RETENTION_THRESHOLD'' = Some (YStr r)"
  by (simp_all add: set_retention_def Let_def)

lemma retention_kept [simp]:
  "retention_of (set_plugins p vals) = retention_of vals"
  "retention_of (fst (set_service lb vals)) = retention_of vals"
  by (simp_all add: set_plugins_def set_service_def Let_def split: prod.splits)

abbreviation plugins_of :: "ymap \<Rightarrow> yv option" where
  "plugins_of vals \<equiv> map_of (child ''plugins'' vals) ''names''"

lemma plugins_set: "plugins_of (set_plugins p vals) = Some (YStr p)"
  by (simp add: set_plugins_def)

lemma plugins_kept [simp]: "plugins_of (fst (set_service lb vals)) = plugins_of vals"
  by (simp add: set_service_def Let_def split: prod.splits)

lemma chartOwns_kept [simp]: "chartOwnsLoadBalancer (fst (set_service lb vals)) = chartOwnsLoadBalancer vals"
  by (simp add: chartOwnsLoadBalancer_def set_service_def Let_def split: prod.splits)

text \<open>
  How the exposed service follows from the merged one: the type is that of the merged values, and a load balancer when these have
  none; the address pool is the merged one, and the default pool when these have none and MetalLB is there.
\<close>

abbreviation pool_of :: "ymap \<Rightarrow> yv option" where
  "pool_of service \<equiv> map_of (child ''annotations'' service) ''metallb.io/address-pool''"

definition exposes :: "bool \<Rightarrow> ymap \<Rightarrow> ymap \<Rightarrow> bool" where
  "exposes lbEnabled merged service \<longleftrightarrow>
     map_of service ''type'' = (if map_of merged ''type'' \<in> {None, Some YNull} then Some (YStr ''LoadBalancer'') else map_of merged ''type'') \<and>
     pool_of service = (if lbEnabled \<and> pool_of merged = None then Some (YStr ''public-address-pool'') else pool_of merged)"

lemma default_type_ok:
  "default_type s = (s', m) \<Longrightarrow> (\<not> m \<longrightarrow> s' = s) \<and> child ''annotations'' s' = child ''annotations'' s \<and>
     map_of s' ''type'' = (if map_of s ''type'' \<in> {None, Some YNull} then Some (YStr ''LoadBalancer'') else map_of s ''type'')"
  by (auto simp: default_type_def split: option.splits yv.splits)

lemma tag_pool_ok:
  "tag_pool lb s = (s', m) \<Longrightarrow> pool_of s' = (if lb \<and> pool_of s = None then Some (YStr ''public-address-pool'') else pool_of s) \<and>
     map_of s' ''type'' = map_of s ''type'' \<and> (\<not> m \<longrightarrow> s' = s)"
  by (auto simp: tag_pool_def Let_def split: if_splits)

lemma set_service_ok:
  assumes "set_service lb vals = (vals', m)"
  shows "exposes lb (child ''service'' vals) (child ''service'' vals')" "\<not> m \<Longrightarrow> child ''service'' vals' = child ''service'' vals"
proof -
  obtain s1 m1 where 1: "default_type (child ''service'' vals) = (s1, m1)" by fastforce
  obtain s2 m2 where 2: "tag_pool lb s1 = (s2, m2)" by fastforce
  have v: "vals' = AList.update ''service'' (YMap s2) vals" "m = (m1 \<or> m2)"
    using assms by (simp_all add: set_service_def 1 2)
  show "exposes lb (child ''service'' vals) (child ''service'' vals')" "\<not> m \<Longrightarrow> child ''service'' vals' = child ''service'' vals"
    using default_type_ok[OF 1] tag_pool_ok[OF 2] by (auto simp: v exposes_def)
qed

text \<open>The other settings leave the service and the chart's load balancer alone.\<close>

lemma service_kept [simp]:
  "child ''service'' (set_persistence es vals) = child ''service'' vals"
  "child ''service'' (set_retention h r vals) = child ''service'' vals"
  "child ''service'' (set_plugins p vals) = child ''service'' vals"
  "chartOwnsLoadBalancer (set_persistence es vals) = chartOwnsLoadBalancer vals"
  "chartOwnsLoadBalancer (set_retention h r vals) = chartOwnsLoadBalancer vals"
  "chartOwnsLoadBalancer (set_plugins p vals) = chartOwnsLoadBalancer vals"
  by (simp_all add: set_persistence_def set_retention_def set_plugins_def chartOwnsLoadBalancer_def Let_def)

lemma plugins_kept2 [simp]:
  "plugins_of (set_persistence es vals) = plugins_of vals" "plugins_of (set_retention h r vals) = plugins_of vals"
  by (simp_all add: set_persistence_def set_retention_def Let_def)

section \<open>The claims and the volumes\<close>

lemma persistence_claims: "map snd (persistence_entries mp v) = waited_pvcs mp v"
  by (simp add: persistence_entries_def waited_pvcs_def managed_storages_def core_pvcs_def)

lemma managed_subset: "set (managed_storages mp v) \<subseteq> set optionalStorages"
  by (auto simp: managed_storages_def GetApplicableOptionalStorages_def)

lemma persistence_keys_distinct: "distinct (map fst (persistence_entries mp v))"
proof -
  let ?key = "\<lambda>opt. if os_PersistenceKey opt = [] then os_Name opt else os_PersistenceKey opt"
  have "distinct (map ?key optionalStorages)" "set (map ?key optionalStorages) \<inter> {''live'', ''archive'', ''logging''} = {}"
    by (simp_all add: registry_defs)
  then have "distinct (map ?key (managed_storages mp v)) \<and> set (map ?key (managed_storages mp v)) \<inter> {''live'', ''archive'', ''logging''} = {}"
    unfolding managed_storages_def GetApplicableOptionalStorages_def by (auto simp: distinct_map_filter)
  then show ?thesis
    by (auto simp: persistence_entries_def managed_storages_def comp_def)
qed

section \<open>What reaches the chart\<close>

lemma obind_Inr: "obind r f = Some (Inr y) \<longleftrightarrow> (\<exists>x. r = Some (Inr x) \<and> f x = Some (Inr y))"
  by (auto simp: obind_def split: option.splits sum.splits)

lemma owrap_Inr: "owrap m r = Some (Inr y) \<longleftrightarrow> r = Some (Inr y)"
  by (auto simp: owrap_def)

abbreviation yaml_roundtrip :: "'b values_env \<Rightarrow> bool" where
  "yaml_roundtrip env \<equiv> \<forall>v c. ve_Marshal env v = Inr c \<longrightarrow> ve_Unmarshal env c = Inr (Some v)"

lemma edit_Inr:
  assumes "edit env p m f c = Some (Inr c')" "yaml_roundtrip env"
  obtains vals where "ve_Unmarshal env c = Inr (Some vals)" "ve_Unmarshal env c' = Inr (Some (f vals))"
  using assms by (auto simp: edit_def split: sum.splits option.splits)

definition retention_ok :: "values_inputs \<Rightarrow> ymap \<Rightarrow> bool" where
  "retention_ok inp vals \<longleftrightarrow>
     (vi_HistoricRetention inp \<noteq> [] \<longrightarrow>
        map_of (retention_of vals) ''FILES_HISTORIC_BLOCK_RETENTION_THRESHOLD'' = Some (YStr (vi_HistoricRetention inp))) \<and>
     (vi_RecentRetention inp \<noteq> [] \<longrightarrow>
        map_of (retention_of vals) ''FILES_RECENT_BLOCK_RETENTION_THRESHOLD'' = Some (YStr (vi_RecentRetention inp)))"

text \<open>The plugin list of the inputs, or the one of the merged values when the inputs have none.\<close>

definition plugins_ok :: "bool \<Rightarrow> string \<Rightarrow> ymap \<Rightarrow> ymap \<Rightarrow> bool" where
  "plugins_ok managed pluginList merged vals \<longleftrightarrow>
     (\<not> blank pluginList \<longrightarrow> plugins_of vals = Some (YStr pluginList)) \<and>
     (pluginList = [] \<and> managed \<longrightarrow> plugins_of vals = plugins_of merged)"

lemma blank_empty: "blank []"
  by code_simp

lemma listed_managed: "\<not> blank (vi_PluginList inp) \<Longrightarrow> managesPluginsStorage env inp"
  by (simp add: managesPluginsStorage_def EffectivePluginsNamesEmpty_def)

lemma injectRetentionConfig_step:
  assumes "injectRetentionConfig env inp c = Some (Inr c')" "ve_Unmarshal env c = Inr (Some vals)" "yaml_roundtrip env"
  obtains vals' where "ve_Unmarshal env c' = Inr (Some vals')" "persistence_of vals' = persistence_of vals" "retention_ok inp vals'"
    "plugins_of vals' = plugins_of vals" "child ''service'' vals' = child ''service'' vals" "chartOwnsLoadBalancer vals' = chartOwnsLoadBalancer vals"
proof (cases "vi_HistoricRetention inp = [] \<and> vi_RecentRetention inp = []")
  case True
  with assms that[of vals] show ?thesis by (simp add: injectRetentionConfig_def retention_ok_def)
next
  case False
  with assms(1) obtain p m where "edit env p m (set_retention (vi_HistoricRetention inp) (vi_RecentRetention inp)) c = Some (Inr c')"
    by (auto simp: injectRetentionConfig_def)
  from edit_Inr[OF this assms(3)]
  have "ve_Unmarshal env c' = Inr (Some (set_retention (vi_HistoricRetention inp) (vi_RecentRetention inp) vals))"
    using assms(2) by force
  then show ?thesis by (rule that) (simp_all add: retention_ok_def retention_set)
qed

lemma injectPluginsConfig_step:
  assumes "injectPluginsConfig env inp c = Some (Inr c')" "ve_Unmarshal env c = Inr (Some vals)" "yaml_roundtrip env"
  obtains vals' where "ve_Unmarshal env c' = Inr (Some vals')" "persistence_of vals' = persistence_of vals"
    "retention_of vals' = retention_of vals" "plugins_ok (managesPluginsStorage env inp) (vi_PluginList inp) vals vals'"
    "child ''service'' vals' = child ''service'' vals" "chartOwnsLoadBalancer vals' = chartOwnsLoadBalancer vals"
proof (cases "vi_PluginList inp = [] \<and> managesPluginsStorage env inp")
  case True
  with assms that[of vals] show ?thesis by (simp add: injectPluginsConfig_def plugins_ok_def blank_empty)
next
  case False
  with assms(1) obtain p m where
    "edit env p m (set_plugins (if \<not> managesPluginsStorage env inp then [] else vi_PluginList inp)) c = Some (Inr c')"
    by (auto simp: injectPluginsConfig_def Let_def)
  from edit_Inr[OF this assms(3)]
  have "ve_Unmarshal env c' = Inr (Some (set_plugins (if \<not> managesPluginsStorage env inp then [] else vi_PluginList inp) vals))"
    using assms(2) by force
  then show ?thesis by (rule that) (use False listed_managed[of inp env] in \<open>auto simp: plugins_ok_def plugins_set\<close>)
qed

lemma injectServiceAnnotations_step:
  assumes "injectServiceAnnotations env inp c = Some (Inr c')" "ve_Unmarshal env c = Inr (Some vals)" "yaml_roundtrip env"
  obtains vals' where "ve_Unmarshal env c' = Inr (Some vals')" "persistence_of vals' = persistence_of vals"
    "retention_of vals' = retention_of vals" "plugins_of vals' = plugins_of vals"
    "if chartOwnsLoadBalancer vals then child ''service'' vals' = child ''service'' vals
     else exposes (vi_LoadBalancerEnabled inp) (child ''service'' vals) (child ''service'' vals')"
proof (cases "chartOwnsLoadBalancer vals")
  case True
  with assms that[of vals] show ?thesis by (simp add: injectServiceAnnotations_def)
next
  case False
  obtain vals' m where s: "set_service (vi_LoadBalancerEnabled inp) vals = (vals', m)" by fastforce
  then have v: "vals' = fst (set_service (vi_LoadBalancerEnabled inp) vals)" by simp
  show ?thesis
  proof (cases m)
    case True
    with False assms s have "ve_Unmarshal env c' = Inr (Some vals')" by (simp add: injectServiceAnnotations_def)
    with set_service_ok[OF s] False that[of vals'] show ?thesis by (simp add: v)
  next
    case no: False
    with False assms s have "c' = c" by (simp add: injectServiceAnnotations_def)
    with set_service_ok[OF s] no False assms(2) that[of vals] show ?thesis by simp
  qed
qed

text \<open>The document before the settings are forced: the rendered defaults, merged with the operator's values file.\<close>

definition merged_values :: "'b values_env \<Rightarrow> values_inputs \<Rightarrow> string \<Rightarrow> string \<Rightarrow> 'b result" where
  "merged_values env inp profile valuesFile =
     rbind (renderDefaultValues env inp profile) (\<lambda>base.
       if valuesFile \<noteq> [] then rbind (readCustomValues env valuesFile) (mergeValues env base) else Inr base)"

text \<open>
  C18: the document handed to the chart, compared with the defaults merged with the operator's values file. Under every persistence
  key that the chart version has it refers to the claim weaver provisioned, and these claims are exactly the ones
  \<open>CreatePersistentVolumes\<close> waits for; it carries the resolved retention thresholds; a plugin list of the inputs replaces the merged
  one, which is kept when the inputs have none and the plugins volume is managed. When the chart's own load balancer is enabled
  the service is left as it is; otherwise the type and the address pool of the merged values are kept, a missing type becomes
  a load balancer, and a missing pool the default one if MetalLB is enabled. The hypothesis is that reading a document the
  YAML library wrote gives back the map.
\<close>
theorem values_forced:
  assumes "yaml_roundtrip env" "ComputeValues env inp profile valuesFile = Some (Inr c)"
  shows "\<exists>c0 merged vals. merged_values env inp profile valuesFile = Inr c0 \<and> ve_Unmarshal env c0 = Inr (Some merged) \<and>
     ve_Unmarshal env c = Inr (Some vals) \<and>
     list_all (claim_ok (persistence_of vals)) (persistence_entries (managesPluginsStorage env inp) (vi_ChartVersion inp)) \<and>
     map snd (persistence_entries (managesPluginsStorage env inp) (vi_ChartVersion inp)) =
       waited_pvcs (managesPluginsStorage env inp) (vi_ChartVersion inp) \<and>
     retention_ok inp vals \<and> plugins_ok (managesPluginsStorage env inp) (vi_PluginList inp) merged vals \<and>
     (if chartOwnsLoadBalancer merged then child ''service'' vals = child ''service'' merged
      else exposes (vi_LoadBalancerEnabled inp) (child ''service'' merged) (child ''service'' vals))"
proof -
  let ?es = "persistence_entries (managesPluginsStorage env inp) (vi_ChartVersion inp)"
  from assms(2) obtain c0 c1 c2 c3 where c0: "merged_values env inp profile valuesFile = Inr c0"
    and c: "injectPersistenceOverrides env inp c0 = Some (Inr c1)"
    "injectRetentionConfig env inp c1 = Some (Inr c2)" "injectPluginsConfig env inp c2 = Some (Inr c3)"
    "injectServiceAnnotations env inp c3 = Some (Inr c)"
    unfolding ComputeValues_def obind_Inr owrap_Inr merged_values_def rbind_Inr_iff by (metis option.inject)
  obtain v0 where v0: "ve_Unmarshal env c0 = Inr (Some v0)" and v1: "ve_Unmarshal env c1 = Inr (Some (set_persistence ?es v0))"
    using edit_Inr[OF c(1)[unfolded injectPersistenceOverrides_def] assms(1)] .
  obtain v2 where v2: "ve_Unmarshal env c2 = Inr (Some v2)" "persistence_of v2 = persistence_of (set_persistence ?es v0)"
    "retention_ok inp v2" "plugins_of v2 = plugins_of v0" "child ''service'' v2 = child ''service'' v0"
    "chartOwnsLoadBalancer v2 = chartOwnsLoadBalancer v0"
    using injectRetentionConfig_step[OF c(2) v1 assms(1)] by (metis plugins_kept2(1) service_kept(1,4))
  obtain v3 where v3: "ve_Unmarshal env c3 = Inr (Some v3)" "persistence_of v3 = persistence_of v2" "retention_of v3 = retention_of v2"
    "plugins_ok (managesPluginsStorage env inp) (vi_PluginList inp) v2 v3" "child ''service'' v3 = child ''service'' v2"
    "chartOwnsLoadBalancer v3 = chartOwnsLoadBalancer v2" using injectPluginsConfig_step[OF c(3) v2(1) assms(1)] .
  obtain v4 where v4: "ve_Unmarshal env c = Inr (Some v4)" "persistence_of v4 = persistence_of v3" "retention_of v4 = retention_of v3"
    "plugins_of v4 = plugins_of v3"
    "if chartOwnsLoadBalancer v3 then child ''service'' v4 = child ''service'' v3
     else exposes (vi_LoadBalancerEnabled inp) (child ''service'' v3) (child ''service'' v4)"
    using injectServiceAnnotations_step[OF c(4) v3(1) assms(1)] .
  have "list_all (claim_ok (persistence_of v4)) ?es"
    using persistence_set[OF persistence_keys_distinct] by (simp add: list_all_iff v2 v3 v4)
  moreover have "retention_ok inp v4" using v2(3) by (simp add: retention_ok_def v3 v4)
  moreover have "plugins_ok (managesPluginsStorage env inp) (vi_PluginList inp) v0 v4" using v3(4) by (simp add: plugins_ok_def v2 v4)
  ultimately show ?thesis using v4 v3 v2 v0 c0 persistence_claims by auto
qed

text \<open>Contents that are the maps themselves; the operator asks the chart to create its own volume.\<close>

definition demo_values :: "ymap values_env" where
  "demo_values = \<lparr>ve_cwd = None, ve_Stat = (\<lambda>_. StatRegular),
     ve_ReadFile = (\<lambda>_. Inr [(''blockNode'', YMap [(''persistence'', YMap [(''live'', YMap [(''create'', YBool True)])])]),
       (''plugins'', YMap [(''names'', YNull)])]),
     ve_Unmarshal = (\<lambda>m. Inr (Some m)), ve_Marshal = Inr, ve_Coalesce = (\<lambda>op base. AList.merge base op),
     ve_Render = (\<lambda>_ _. Inr [(''service'', YMap [])])\<rparr>"

definition demo_inputs :: "string \<Rightarrow> values_inputs" where
  "demo_inputs list = \<lparr>vi_ChartVersion = ''0.37.0-rc1'', vi_PluginList = list, vi_ValuesFile = ''/etc/v.yaml'', vi_HistoricRetention = ''5'',
     vi_RecentRetention = [], vi_LoadBalancerEnabled = True\<rparr>"

theorem values_forced_witness:
  "\<exists>c. ComputeValues demo_values (demo_inputs ''p'') ''mainnet'' ''/etc/v.yaml'' = Some (Inr c) \<and>
     list_all (claim_ok (persistence_of c)) [(''live'', ''live-storage-pvc''), (''archive'', ''archive-storage-pvc''),
       (''logging'', ''logging-storage-pvc''), (''plugins'', ''plugins-storage-pvc''), (''applicationState'', ''application-state-storage-pvc'')] \<and>
     plugins_of c = Some (YStr ''p'') \<and> map_of (child ''service'' c) ''type'' = Some (YStr ''LoadBalancer'') \<and>
     pool_of (child ''service'' c) = Some (YStr ''public-address-pool'')"
proof -
  let ?in = "demo_inputs ''p''"
  have rt: "yaml_roundtrip demo_values" by (simp add: demo_values_def)
  have "case ComputeValues demo_values ?in ''mainnet'' ''/etc/v.yaml'' of Some (Inr c) \<Rightarrow> True | _ \<Rightarrow> False"
    by code_simp
  then obtain c where c: "ComputeValues demo_values ?in ''mainnet'' ''/etc/v.yaml'' = Some (Inr c)"
    by (auto split: option.splits sum.splits)
  have m: "managesPluginsStorage demo_values ?in" by code_simp
  have e: "persistence_entries True ''0.37.0-rc1'' = [(''live'', ''live-storage-pvc''), (''archive'', ''archive-storage-pvc''),
       (''logging'', ''logging-storage-pvc''), (''plugins'', ''plugins-storage-pvc''), (''applicationState'', ''application-state-storage-pvc'')]"
    by code_simp
  have f: "vi_ChartVersion ?in = ''0.37.0-rc1''" "vi_PluginList ?in = ''p''" "vi_LoadBalancerEnabled ?in = True"
    "ve_Unmarshal demo_values x = Inr (Some x)" for x by (simp_all add: demo_inputs_def demo_values_def)
  have nb: "\<not> blank ''p''" by code_simp
  have merged: "merged_values demo_values ?in ''mainnet'' ''/etc/v.yaml'' = Inr [(''service'', YMap []), (''plugins'', YMap [(''names'', YNull)]),
     (''blockNode'', YMap [(''persistence'', YMap [(''live'', YMap [(''create'', YBool True)])])])]"
    by code_simp
  from values_forced[OF rt c] c show ?thesis
    using m nb unfolding merged f by (auto simp: e plugins_ok_def exposes_def chartOwnsLoadBalancer_def child_def)
qed

text \<open>For a plugins-baked image, whose values file asks for no plugins, an explicit empty list is written.\<close>

lemma baked_plugins_explicit:
  "case ComputeValues demo_values (demo_inputs []) ''mainnet'' ''/etc/v.yaml'' of Some (Inr c) \<Rightarrow> plugins_of c = Some (YStr []) | _ \<Rightarrow> False"
  by code_simp

lemma edit_None: "edit env p m f c = None \<longleftrightarrow> ve_Unmarshal env c = Inr None"
  by (auto simp: edit_def split: sum.splits option.splits)

end
