(* ===== verification/Migration.thy ===== *)
theory Migration
  imports Values
begin

text \<open>
  The migration framework (\<open>internal/migration\<close>), the storage migrations of the block node
  (\<open>internal/blocknode/migration_storage.go\<close>) and the startup pass of the command line
  (\<open>cmd/cli/commands/common/run.go\<close>). \<open>automa\<close>, which runs a workflow, and its state bag are parameters. \<open>'s\<close> is the state
  of the host that migrations read and change.
\<close>

section \<open>Contexts and migrations\<close>

text \<open>What migrations read of \<open>automa.StateBag\<close>: \<open>Data.String(k)\<close>, and \<open>Data.Get(k)\<close> asserted to be a bool.\<close>

record bag =
  bg_String :: "string \<Rightarrow> string option"
  bg_Bool :: "string \<Rightarrow> bool option"

record mig_context =
  mc_Component :: string
  mc_Data :: "bag option"

record 's migration =
  mg_ID :: string
  mg_Description :: string
  mg_Applies :: "mig_context \<Rightarrow> 's \<Rightarrow> bool outcome"
  mg_Execute :: "mig_context \<Rightarrow> ('s, unit) action"
  mg_Rollback :: "mig_context \<Rightarrow> ('s, unit) action"

definition ScopeStartup :: string where "ScopeStartup = ''startup''"

definition ScopeBlockNode :: string where "ScopeBlockNode = ''block-node''"

type_synonym 's mig_registry = "string \<Rightarrow> 's migration list"

definition Register :: "string \<Rightarrow> 's migration \<Rightarrow> 's mig_registry \<Rightarrow> 's mig_registry" where
  "Register component m reg = reg(component := reg component @ [m])"

definition ClearRegistry :: "'s mig_registry" where
  "ClearRegistry = (\<lambda>_. [])"

fun applicable_loop :: "mig_context \<Rightarrow> 's \<Rightarrow> 's migration list \<Rightarrow> 's migration list outcome" where
  "applicable_loop mctx s [] = Some (Inr [])"
| "applicable_loop mctx s (m # ms) =
     obind (case mg_Applies m mctx s of
              Some (Inl e) \<Rightarrow> Some (Inl (wrap IllegalState ''failed to check if migration applies'' e))
            | r \<Rightarrow> r) (\<lambda>applies.
     obind (applicable_loop mctx s ms) (\<lambda>rest. Some (Inr (if applies then m # rest else rest))))"

definition GetApplicableMigrations :: "'s mig_registry \<Rightarrow> string \<Rightarrow> mig_context option \<Rightarrow> 's \<Rightarrow> 's migration list outcome" where
  "GetApplicableMigrations reg component mctx s =
     applicable_loop (case mctx of None \<Rightarrow> \<lparr>mc_Component = component, mc_Data = None\<rparr> | Some c \<Rightarrow> c) s (reg component)"

section \<open>Workflows\<close>

record 's wf_step =
  ws_Id :: string
  ws_Execute :: "('s, unit) action"
  ws_Rollback :: "('s, unit) action option"

record 's workflow =
  wf_Id :: string
  wf_RollbackOnError :: bool
  wf_Steps :: "'s wf_step list"

definition migration_step :: "mig_context \<Rightarrow> 's migration \<Rightarrow> 's wf_step" where
  "migration_step mctx m = \<lparr>ws_Id = ''migration-'' @ mg_ID m, ws_Execute = mg_Execute m mctx, ws_Rollback = Some (mg_Rollback m mctx)\<rparr>"

definition MigrationsToWorkflow :: "'s migration list \<Rightarrow> mig_context \<Rightarrow> 's workflow" where
  "MigrationsToWorkflow migrations mctx =
     (if migrations = [] then \<lparr>wf_Id = ''no-migrations'', wf_RollbackOnError = False, wf_Steps = []\<rparr>
      else \<lparr>wf_Id = mc_Component mctx @ ''-migrations'', wf_RollbackOnError = True,
            wf_Steps = \<lparr>ws_Id = ''migration-start'', ws_Execute = sret (), ws_Rollback = None\<rparr> # map (migration_step mctx) migrations\<rparr>)"

section \<open>Version boundaries\<close>

record version_migration =
  vm_id :: string
  vm_description :: string
  vm_minVersion :: string

definition CtxKeyInstalledVersion :: string where "CtxKeyInstalledVersion = ''installedVersion''"
definition CtxKeyTargetVersion :: string where "CtxKeyTargetVersion = ''targetVersion''"
definition CtxKeyInstalledCLIVersion :: string where "CtxKeyInstalledCLIVersion = ''installedCLIVersion''"
definition CtxKeyCurrentCLIVersion :: string where "CtxKeyCurrentCLIVersion = ''currentCLIVersion''"
definition BaselineCLIVersion :: string where "BaselineCLIVersion = ''0.0.0''"

definition ResolveInstalledCLIVersion :: "string \<Rightarrow> string" where
  "ResolveInstalledCLIVersion raw = (if raw = [] then BaselineCLIVersion else raw)"

definition NewVersionMigration :: "string \<Rightarrow> string \<Rightarrow> string \<Rightarrow> version_migration" where
  "NewVersionMigration i d m = \<lparr>vm_id = i, vm_description = d, vm_minVersion = m\<rparr>"

definition bag_text :: "bag \<Rightarrow> string \<Rightarrow> string" where
  "bag_text data k = (case bg_String data k of Some v \<Rightarrow> v | None \<Rightarrow> [])"

definition VersionMigration_Applies :: "version_migration \<Rightarrow> mig_context \<Rightarrow> bool outcome" where
  "VersionMigration_Applies v mctx =
     (case mc_Data mctx of
        None \<Rightarrow> None
      | Some data \<Rightarrow>
          (let installedVersion = bag_text data CtxKeyInstalledVersion; targetVersion = bag_text data CtxKeyTargetVersion in
           if installedVersion = [] then Some (Inr False)
           else if targetVersion = [] then Some (Inl (Err IllegalArgument ''target version not provided in context''))
           else Some (
             rbind (map_err (wrap IllegalState ''invalid installed version'') (NewSemver installedVersion)) (\<lambda>installed.
             rbind (map_err (wrap IllegalState ''invalid target version'') (NewSemver targetVersion)) (\<lambda>target.
             rbind (map_err (wrap IllegalState ''invalid min version'') (NewSemver (vm_minVersion v))) (\<lambda>minVer.
             Inr (LessThan installed minVer \<and> \<not> LessThan target minVer)))))))"

definition CLIVersionMigration_Applies :: "version_migration \<Rightarrow> mig_context \<Rightarrow> bool outcome" where
  "CLIVersionMigration_Applies v mctx =
     (case mc_Data mctx of
        None \<Rightarrow> None
      | Some data \<Rightarrow>
          (let installedVersion = bag_text data CtxKeyInstalledCLIVersion; currentVersion = bag_text data CtxKeyCurrentCLIVersion in
           if installedVersion = [] then Some (Inr False)
           else if currentVersion = [] then Some (Inl (Err IllegalArgument ''current CLI version not provided in context''))
           else Some (
             rbind (map_err (wrap IllegalState ''invalid installed CLI version'') (NewSemver installedVersion)) (\<lambda>installed.
             rbind (map_err (wrap IllegalState ''invalid current CLI version'') (NewSemver currentVersion)) (\<lambda>current.
             rbind (map_err (wrap IllegalState ''invalid min version'') (NewSemver (vm_minVersion v))) (\<lambda>minVer.
             Inr (LessThan installed minVer \<and> \<not> LessThan current minVer)))))))"

section \<open>Storage migrations\<close>

record storage_migration =
  sm_base :: version_migration
  sm_storage :: optional_storage

definition ctxKeyManagePlugins :: string where "ctxKeyManagePlugins = ''blocknode.managePlugins''"

definition NewStorageMigration :: "optional_storage \<Rightarrow> storage_migration" where
  "NewStorageMigration opt = \<lparr>sm_base = NewVersionMigration (os_Name opt @ ''-storage-v'' @ os_MinVersion opt)
       (''Add '' @ os_Name opt @ '' storage PV/PVC required by Block Node v'' @ os_MinVersion opt @ ''+'') (os_MinVersion opt),
     sm_storage = opt\<rparr>"

definition StorageMigration_Applies :: "storage_migration \<Rightarrow> mig_context \<Rightarrow> bool outcome" where
  "StorageMigration_Applies m mctx =
     obind (VersionMigration_Applies (sm_base m) mctx) (\<lambda>applies.
     if \<not> applies then Some (Inr applies)
     else (case mc_Data mctx of
        None \<Rightarrow> None
      | Some data \<Rightarrow>
          if \<not> RequiredByVersion (sm_storage m) (bag_text data CtxKeyTargetVersion) then Some (Inr False)
          else if os_Name (sm_storage m) = ''plugins'' \<and> bg_Bool data ctxKeyManagePlugins = Some False then Some (Inr False)
          else Some (Inr True)))"

text \<open>
  What a storage migration takes from the manager in its context: the namespace, the release and the storage of the block node.
  \<open>None\<close> is a context without a manager.
\<close>

type_synonym bn_manager = "string \<times> string \<times> bn_storage"

definition getManager :: "bn_manager option \<Rightarrow> bn_manager result" where
  "getManager v = (case v of None \<Rightarrow> Inl (Err IllegalState ''manager not found in migration context'') | Some m \<Rightarrow> Inr m)"

definition create_storage_dir :: "'c storage_env \<Rightarrow> string \<Rightarrow> string \<Rightarrow> ('c, unit) action" where
  "create_storage_dir env name storagePath =
     (if storagePath \<noteq> [] then
        sbind (smap_err (wrap IllegalState (''failed to create '' @ name @ '' storage directory'')) (se_CreateDirectory env storagePath)) (\<lambda>_.
        sbind (smap_err (wrap IllegalState (''failed to set permissions on '' @ name @ '' storage'')) (se_WritePermissions env storagePath)) (\<lambda>_.
        smap_err (wrap IllegalState (''failed to set ownership on '' @ name @ '' storage'')) (se_WriteOwner env storagePath)))
      else sret ())"

definition StorageMigration_Execute :: "'c storage_env \<Rightarrow> string option \<Rightarrow> string \<Rightarrow> storage_migration \<Rightarrow> bn_manager option \<Rightarrow> ('c, unit) action" where
  "StorageMigration_Execute env cwd tempDir m manager =
     sbind (slift (getManager manager)) (\<lambda>(ns, release, storage).
     let opt = sm_storage m in
     sbind (slift (map_err (wrap IllegalState (''failed to resolve '' @ os_Name opt @ '' storage path''))
       (resolveOptionalStoragePathAndSize cwd storage opt))) (\<lambda>(storagePath, _).
     sbind (create_storage_dir env (os_Name opt) storagePath) (\<lambda>_.
     smap_err (wrap IllegalState (''failed to create '' @ os_Name opt @ '' storage PV/PVC''))
       (CreateOptionalStorage env cwd ns release storage tempDir opt))))"

definition best_effort :: "('c, unit) action \<Rightarrow> ('c, unit) action" where
  "best_effort a s = (Inr (), snd (a s))"

definition StorageMigration_Rollback :: "'c storage_env \<Rightarrow> storage_migration \<Rightarrow> bn_manager option \<Rightarrow> ('c, unit) action" where
  "StorageMigration_Rollback env m manager =
     sbind (slift (getManager manager)) (\<lambda>(ns, _, _).
     sbind (best_effort (se_DeletePVC env ns (os_PVCName (sm_storage m)))) (\<lambda>_.
     best_effort (se_DeletePV env (os_PVName (sm_storage m)))))"

section \<open>The startup pass\<close>

datatype file_read = FileBytes string | FileMissing | FileFailed

text \<open>
  \<open>su_ReadFile\<close> reads the state file and \<open>su_ParseVersion\<close> decodes \<open>state.provisioner.version\<close> from its YAML;
  \<open>su_NewBag\<close> is a state bag after the given calls of \<open>Set\<close>; \<open>su_Build\<close> and \<open>su_Execute\<close> are \<open>automa\<close>'s.
\<close>

record 's startup_env =
  su_ReadFile :: "'s \<Rightarrow> file_read"
  su_ParseVersion :: "string \<Rightarrow> string result"
  su_NewBag :: "(string \<times> string) list \<Rightarrow> bag"
  su_Build :: "'s workflow \<Rightarrow> unit result"
  su_Execute :: "'s workflow \<Rightarrow> ('s, unit) action"
  su_KubernetesInstalled :: "'s \<Rightarrow> bool"
  su_Persist :: "('s, unit) action"
  su_Version :: string

definition readStateFileBytes :: "'s startup_env \<Rightarrow> 's \<Rightarrow> string option result" where
  "readStateFileBytes env s = (case su_ReadFile env s of
     FileBytes b \<Rightarrow> Inr (Some b) | FileMissing \<Rightarrow> Inr None | FileFailed \<Rightarrow> Inl (Err InternalError ''failed to read state file''))"

definition ReadProvisionerVersionFromDisk :: "'s startup_env \<Rightarrow> 's \<Rightarrow> string result" where
  "ReadProvisionerVersionFromDisk env s =
     rbind (readStateFileBytes env s) (\<lambda>data.
       case data of None \<Rightarrow> Inr [] | Some b \<Rightarrow> map_err (wrap InternalError ''failed to parse state file'') (su_ParseVersion env b))"

definition startup_context :: "'s startup_env \<Rightarrow> string \<Rightarrow> mig_context" where
  "startup_context env onDisk = \<lparr>mc_Component = ScopeStartup,
     mc_Data = Some (su_NewBag env [(CtxKeyInstalledCLIVersion, ResolveInstalledCLIVersion onDisk), (CtxKeyCurrentCLIVersion, su_Version env)])\<rparr>"

definition record_version :: "'s startup_env \<Rightarrow> string \<Rightarrow> 's \<Rightarrow> 's" where
  "record_version env onDisk s = (if onDisk \<noteq> su_Version env \<and> su_KubernetesInstalled env s then snd (su_Persist env s) else s)"

definition RunStartupMigrations :: "'s startup_env \<Rightarrow> 's mig_registry \<Rightarrow> 's \<Rightarrow> unit outcome \<times> 's" where
  "RunStartupMigrations env reg s =
     (case ReadProvisionerVersionFromDisk env s of
        Inl e \<Rightarrow> (Some (Inl e), s)
      | Inr onDisk \<Rightarrow>
          (let mctx = startup_context env onDisk in
           case GetApplicableMigrations reg ScopeStartup (Some mctx) s of
             None \<Rightarrow> (None, s)
           | Some (Inl e) \<Rightarrow> (Some (Inl e), s)
           | Some (Inr migrations) \<Rightarrow>
               if migrations \<noteq> [] then
                 (let wf = MigrationsToWorkflow migrations mctx in
                  case su_Build env wf of
                    Inl e \<Rightarrow> (Some (Inl e), s)
                  | Inr _ \<Rightarrow>
                      (case su_Execute env wf s of
                         (Inl e, s') \<Rightarrow> (Some (Inl e), s')
                       | (Inr _, s') \<Rightarrow> (Some (Inr ()), record_version env onDisk s')))
               else (Some (Inr ()), record_version env onDisk s)))"


section \<open>Executing a storage migration\<close>

text \<open>A storage migration succeeds only when its claim was seen to be bound, and its rollback succeeds whatever the cluster answers.\<close>

lemma smap_err_Inr: "smap_err f a s = (Inr x, s') \<longleftrightarrow> a s = (Inr x, s')"
  by (cases "a s") (simp add: smap_err_apply)

lemma storage_migration_bound:
  assumes "StorageMigration_Execute env cwd tempDir m (Some (ns, release, storage)) s = (Inr (), s')"
  shows "\<exists>s1. se_WaitBound env ns (os_PVCName (sm_storage m)) s1 = (Inr (), s')"
  using assms
  by (auto simp: StorageMigration_Execute_def CreateOptionalStorage_def getManager_def Let_def smap_err_Inr sbind_Inr_iff)

lemma storage_rollback_succeeds:
  "StorageMigration_Rollback env m (Some manager) s =
     (Inr (), snd (se_DeletePV env (os_PVName (sm_storage m)) (snd (se_DeletePVC env (fst manager) (os_PVCName (sm_storage m)) s))))"
  by (cases manager) (simp add: StorageMigration_Rollback_def getManager_def best_effort_def sbind_def)

section \<open>Crossing a version boundary\<close>

text \<open>A sorted walk crosses a boundary once or never.\<close>

lemma crossings:
  fixes m :: "'k :: linorder"
  assumes "sorted ks" "ks \<noteq> []"
  shows "length (filter (\<lambda>(a, b). a < m \<and> \<not> b < m) (zip ks (tl ks))) = (if hd ks < m \<and> \<not> last ks < m then 1 else 0)"
  using assms
proof (induction ks)
  case (Cons k ks)
  show ?case
  proof (cases ks)
    case (Cons k' ks')
    with Cons.prems have "k \<le> k'" "sorted ks" "k' \<le> last ks" by auto
    moreover have "zip (k # ks) (tl (k # ks)) = (k, k') # zip ks (tl ks)" "hd ks = k'" "last (k # ks) = last ks" using Cons by simp_all
    ultimately show ?thesis using Cons.IH Cons by (cases "k < m"; cases "k' < m"; cases "last ks < m") auto
  qed simp
qed simp

definition version_key :: "string \<Rightarrow> int \<times> int \<times> int \<times> bool \<times> string" where
  "version_key s = sv_key (projr (NewSemver s))"

definition version_ok :: "string \<Rightarrow> bool" where
  "version_ok s \<longleftrightarrow> s \<noteq> [] \<and> is_ok (NewSemver s)"

lemma version_okE:
  assumes "version_ok s"
  obtains v where "s \<noteq> []" "NewSemver s = Inr v" "version_key s = sv_key v"
  using assms by (cases "NewSemver s") (auto simp: version_ok_def version_key_def)

text \<open>A context that carries an installed and a target version.\<close>

definition ctx_versions :: "mig_context \<Rightarrow> string \<Rightarrow> string \<Rightarrow> bool" where
  "ctx_versions c a b \<longleftrightarrow> (\<exists>d. mc_Data c = Some d \<and> bg_String d CtxKeyInstalledVersion = Some a \<and> bg_String d CtxKeyTargetVersion = Some b)"

lemma VersionMigration_Applies_crosses:
  assumes "ctx_versions c a b" "version_ok a" "version_ok b" "is_ok (NewSemver (vm_minVersion vm))"
  shows "VersionMigration_Applies vm c = Some (Inr (version_key a < version_key (vm_minVersion vm) \<and> \<not> version_key b < version_key (vm_minVersion vm)))"
proof -
  obtain x y where "a \<noteq> []" "b \<noteq> []" "NewSemver a = Inr x" "NewSemver b = Inr y" "version_key a = sv_key x" "version_key b = sv_key y"
    using assms(2,3) by (auto elim!: version_okE)
  moreover obtain m where "NewSemver (vm_minVersion vm) = Inr m" using assms(4) by (cases "NewSemver (vm_minVersion vm)") auto
  ultimately show ?thesis
    using assms(1) by (auto simp: VersionMigration_Applies_def ctx_versions_def bag_text_def version_key_def LessThan_key)
qed

lemma VersionMigration_Applies_True:
  assumes "ctx_versions c a b" "version_ok a" "version_ok b" "is_ok (NewSemver (vm_minVersion vm))"
  shows "VersionMigration_Applies vm c = Some (Inr True) \<longleftrightarrow>
    version_key a < version_key (vm_minVersion vm) \<and> \<not> version_key b < version_key (vm_minVersion vm)"
  using VersionMigration_Applies_crosses[OF assms] by auto

text \<open>
  C31: along any sequence of upgrades through versions that never decrease, a version migration applies at exactly one upgrade
  if a direct upgrade from the first to the last version needs it, and at none otherwise. It does not matter how the way is
  split into upgrades.
\<close>
theorem version_migration_once:
  assumes ctx: "\<forall>a b. ctx_versions (ctx a b) a b" and vs: "vs \<noteq> []" "\<forall>s \<in> set vs. version_ok s" "sorted (map version_key vs)"
    and m: "is_ok (NewSemver (vm_minVersion vm))"
  shows "length (filter (\<lambda>(a, b). VersionMigration_Applies vm (ctx a b) = Some (Inr True)) (zip vs (tl vs))) =
     (if VersionMigration_Applies vm (ctx (hd vs) (last vs)) = Some (Inr True) then 1 else 0)"
proof -
  let ?k = version_key and ?m = "version_key (vm_minVersion vm)"
  let ?cross = "\<lambda>(a, b). a < ?m \<and> \<not> b < ?m"
  have iff: "VersionMigration_Applies vm (ctx a b) = Some (Inr True) \<longleftrightarrow> ?cross (?k a, ?k b)" if "a \<in> set vs" "b \<in> set vs" for a b
    using VersionMigration_Applies_True[OF spec[OF spec[OF ctx]] _ _ m] vs(2) that by simp
  have "filter (\<lambda>(a, b). VersionMigration_Applies vm (ctx a b) = Some (Inr True)) (zip vs (tl vs)) =
    filter (\<lambda>p. ?cross (map_prod ?k ?k p)) (zip vs (tl vs))"
  proof (intro filter_cong refl)
    fix p assume p: "p \<in> set (zip vs (tl vs))"
    obtain a b where ab: "p = (a, b)" by fastforce
    with p have "a \<in> set vs" "b \<in> set vs"
      by (auto dest: set_zip_leftD set_zip_rightD list.set_sel(2)[OF vs(1)])
    with iff ab show "(case p of (a, b) \<Rightarrow> VersionMigration_Applies vm (ctx a b) = Some (Inr True)) = ?cross (map_prod ?k ?k p)"
      by simp
  qed
  also have "length \<dots> = length (filter ?cross (zip (map ?k vs) (tl (map ?k vs))))"
    by (simp add: zip_map_map map_tl[symmetric] filter_map comp_def case_prod_beta map_prod_def)
  also have "\<dots> = (if hd (map ?k vs) < ?m \<and> \<not> last (map ?k vs) < ?m then 1 else 0)"
    using vs by (intro crossings) auto
  finally show ?thesis
    using vs(1) iff[of "hd vs" "last vs"] by (simp add: hd_map last_map)
qed

text \<open>A bag that holds the strings it was given.\<close>

definition plain_bag :: "(string \<times> string) list \<Rightarrow> bool option \<Rightarrow> bag" where
  "plain_bag kvs mp = \<lparr>bg_String = map_of (rev kvs), bg_Bool = (\<lambda>k. if k = ctxKeyManagePlugins then mp else None)\<rparr>"

definition upgrade_ctx :: "bool option \<Rightarrow> string \<Rightarrow> string \<Rightarrow> mig_context" where
  "upgrade_ctx mp a b = \<lparr>mc_Component = ScopeBlockNode,
     mc_Data = Some (plain_bag [(CtxKeyInstalledVersion, a), (CtxKeyTargetVersion, b)] mp)\<rparr>"

lemma upgrade_ctx_versions: "ctx_versions (upgrade_ctx mp a b) a b"
  by (simp add: ctx_versions_def upgrade_ctx_def plain_bag_def CtxKeyInstalledVersion_def CtxKeyTargetVersion_def)

theorem version_migration_once_witness:
  "length (filter (\<lambda>(a, b). VersionMigration_Applies (NewVersionMigration ''m'' ''d'' ''0.28.1'') (upgrade_ctx None a b) = Some (Inr True))
     [(''0.26.0'', ''0.27.5''), (''0.27.5'', ''v0.30''), (''v0.30'', ''0.37.0-rc1'')]) = 1"
proof -
  let ?vs = "[''0.26.0'', ''0.27.5'', ''v0.30'', ''0.37.0-rc1'']"
  have ok: "\<forall>s \<in> set ?vs. version_ok s" by code_simp
  have sorted: "sorted (map version_key ?vs)" by code_simp
  have m: "is_ok (NewSemver (vm_minVersion (NewVersionMigration ''m'' ''d'' ''0.28.1'')))" by code_simp
  have "VersionMigration_Applies (NewVersionMigration ''m'' ''d'' ''0.28.1'') (upgrade_ctx None ''0.26.0'' ''0.37.0-rc1'') = Some (Inr True)"
    by code_simp
  with version_migration_once[OF _ _ ok sorted m, of "upgrade_ctx None"] upgrade_ctx_versions show ?thesis by simp
qed

section \<open>Volumes across an upgrade\<close>

lemma waited_pvc_iff:
  assumes "opt \<in> set optionalStorages"
  shows "os_PVCName opt \<in> set (waited_pvcs mp v) \<longleftrightarrow> RequiredByVersion opt v \<and> \<not> (os_Name opt = ''plugins'' \<and> \<not> mp)"
proof -
  have core: "os_PVCName opt \<notin> set core_pvcs" using assms by (auto simp: registry_defs core_pvcs_def)
  have "inj_on os_PVCName (set optionalStorages)" by (simp add: registry_defs)
  then have "os_PVCName opt \<in> os_PVCName ` set (managed_storages mp v) \<longleftrightarrow> opt \<in> set (managed_storages mp v)"
    using assms managed_subset by (intro inj_on_image_mem_iff) auto
  with core assms show ?thesis
    by (auto simp: waited_pvcs_def managed_storages_def GetApplicableOptionalStorages_def)
qed

lemma registry_versions_ok:
  "opt \<in> set optionalStorages \<Longrightarrow> version_ok (os_MinVersion opt)"
  "opt \<in> set optionalStorages \<Longrightarrow> os_MaxVersion opt \<noteq> [] \<Longrightarrow> version_ok (os_MaxVersion opt)"
  by (auto simp: registry_defs version_ok_def NewSemver_boundaries)

lemma RequiredByVersion_keys:
  assumes "version_ok v" "version_ok (os_MinVersion opt)" "os_MaxVersion opt \<noteq> [] \<Longrightarrow> version_ok (os_MaxVersion opt)"
  shows "RequiredByVersion opt v \<longleftrightarrow> \<not> version_key v < version_key (os_MinVersion opt) \<and>
    (os_MaxVersion opt \<noteq> [] \<longrightarrow> version_key v < version_key (os_MaxVersion opt))"
proof -
  obtain t lo where "NewSemver v = Inr t" "NewSemver (os_MinVersion opt) = Inr lo" "version_key v = sv_key t"
    "version_key (os_MinVersion opt) = sv_key lo" using assms(1,2) by (auto elim!: version_okE)
  then show ?thesis
    using assms(3) by (cases "os_MaxVersion opt = []") (auto simp: RequiredByVersion_def LessThan_key elim!: version_okE)
qed

lemma StorageMigration_Applies_unfold:
  assumes "ctx_versions c a b" "version_ok a" "version_ok b" "opt \<in> set optionalStorages"
    "mc_Data c = Some d" "bg_Bool d ctxKeyManagePlugins = Some mp"
  shows "StorageMigration_Applies (NewStorageMigration opt) c = Some (Inr (
    version_key a < version_key (os_MinVersion opt) \<and> \<not> version_key b < version_key (os_MinVersion opt) \<and>
    RequiredByVersion opt b \<and> \<not> (os_Name opt = ''plugins'' \<and> \<not> mp)))"
proof -
  have m: "is_ok (NewSemver (vm_minVersion (sm_base (NewStorageMigration opt))))" "vm_minVersion (sm_base (NewStorageMigration opt)) = os_MinVersion opt"
    "sm_storage (NewStorageMigration opt) = opt"
    using registry_versions_ok(1)[OF assms(4)] by (simp_all add: NewStorageMigration_def NewVersionMigration_def version_ok_def)
  have "bag_text d CtxKeyTargetVersion = b" using assms(1,5) by (auto simp: ctx_versions_def bag_text_def)
  with assms(5,6) m(3) show ?thesis
    unfolding StorageMigration_Applies_def VersionMigration_Applies_crosses[OF assms(1-3) m(1)] m(2)
    by (auto simp: obind_def)
qed

text \<open>
  C20: in an upgrade to a version that is not older, the migration of an optional volume applies exactly when the volume is
  wanted at the target version and was not wanted at the installed one. So after the applicable migrations every claim that the
  new values refer to exists, and no volume is created that the target version does not use, also when the upgrade skips over
  the version that retired it. The signal that a plugins volume is managed is taken to be the same at install and upgrade.
\<close>
theorem storage_upgrade_exact:
  assumes "ctx_versions c a b" "version_ok a" "version_ok b" "\<not> version_key b < version_key a" "opt \<in> set optionalStorages"
    "mc_Data c = Some d" "bg_Bool d ctxKeyManagePlugins = Some mp"
  shows "StorageMigration_Applies (NewStorageMigration opt) c =
     Some (Inr (os_PVCName opt \<in> set (waited_pvcs mp b) \<and> os_PVCName opt \<notin> set (waited_pvcs mp a)))"
proof -
  note reg = registry_versions_ok[OF assms(5)]
  have "RequiredByVersion opt b \<and> \<not> RequiredByVersion opt a \<longleftrightarrow>
    version_key a < version_key (os_MinVersion opt) \<and> \<not> version_key b < version_key (os_MinVersion opt) \<and> RequiredByVersion opt b"
    using assms(4) by (auto simp: RequiredByVersion_keys[OF assms(2) reg] RequiredByVersion_keys[OF assms(3) reg])
  then show ?thesis
    unfolding StorageMigration_Applies_unfold[OF assms(1-3,5-7)] waited_pvc_iff[OF assms(5)] by auto
qed

theorem storage_upgrade_exact_witness:
  "StorageMigration_Applies (NewStorageMigration verification_storage) (upgrade_ctx (Some True) ''0.25.0'' ''0.37.0'') = Some (Inr False) \<and>
   StorageMigration_Applies (NewStorageMigration application_state_storage) (upgrade_ctx (Some True) ''0.25.0'' ''0.37.0'') = Some (Inr True)"
proof -
  let ?c = "upgrade_ctx (Some True) ''0.25.0'' ''0.37.0''"
  have ok: "version_ok ''0.25.0''" "version_ok ''0.37.0''" "\<not> version_key ''0.37.0'' < version_key ''0.25.0''" by code_simp+
  have d: "mc_Data ?c = Some (plain_bag [(CtxKeyInstalledVersion, ''0.25.0''), (CtxKeyTargetVersion, ''0.37.0'')] (Some True))"
    "bg_Bool (plain_bag [(CtxKeyInstalledVersion, ''0.25.0''), (CtxKeyTargetVersion, ''0.37.0'')] (Some True)) ctxKeyManagePlugins = Some True"
    by (simp_all add: upgrade_ctx_def plain_bag_def)
  have w: "''verification-storage-pvc'' \<notin> set (waited_pvcs True ''0.37.0'')" "''application-state-storage-pvc'' \<in> set (waited_pvcs True ''0.37.0'')"
    "''application-state-storage-pvc'' \<notin> set (waited_pvcs True ''0.25.0'')" by code_simp+
  have reg: "verification_storage \<in> set optionalStorages" "application_state_storage \<in> set optionalStorages"
    "os_PVCName verification_storage = ''verification-storage-pvc''" "os_PVCName application_state_storage = ''application-state-storage-pvc''"
    by (simp_all add: registry_defs)
  show ?thesis
    using storage_upgrade_exact[OF upgrade_ctx_versions ok(1,2,3) reg(1) d] storage_upgrade_exact[OF upgrade_ctx_versions ok(1,2,3) reg(2) d]
    by (simp add: reg w)
qed

text \<open>
  When the signal changes, a claim is missing: a node that was installed from a plugins-baked image has no plugins volume, and an
  upgrade with a plugin list refers to its claim but does not create it, because the installed version already required it.
\<close>

lemma plugins_claim_missing:
  "''plugins-storage-pvc'' \<notin> set (waited_pvcs False ''0.30.0'')"
  "''plugins-storage-pvc'' \<in> set (waited_pvcs True ''0.31.0'')"
  "StorageMigration_Applies (NewStorageMigration plugins_storage) (upgrade_ctx (Some True) ''0.30.0'' ''0.31.0'') = Some (Inr False)"
  by code_simp+

text \<open>Without a context, \<open>GetApplicableMigrations\<close> makes one that has no data, and a version migration then panics.\<close>

lemma nil_context_panics:
  assumes "reg component = [m]" "mg_Applies m = (\<lambda>c s. VersionMigration_Applies vm c)"
  shows "GetApplicableMigrations reg component None s = None"
  using assms by (simp add: GetApplicableMigrations_def VersionMigration_Applies_def obind_def)

section \<open>The startup pass runs a migration once\<close>

text \<open>The bag returns the string that was set last under a key.\<close>

abbreviation bag_law :: "((string \<times> string) list \<Rightarrow> bag) \<Rightarrow> bool" where
  "bag_law mk \<equiv> \<forall>kvs k. bg_String (mk kvs) k = map_of (rev kvs) k"

lemma CLI_not_applicable:
  assumes "bag_law (su_NewBag env)" "version_ok (su_Version env)" "is_ok (NewSemver (vm_minVersion vm))"
  shows "CLIVersionMigration_Applies vm (startup_context env (su_Version env)) = Some (Inr False)"
proof -
  obtain x where x: "su_Version env \<noteq> []" "NewSemver (su_Version env) = Inr x" using assms(2) by (rule version_okE)
  obtain m where m: "NewSemver (vm_minVersion vm) = Inr m" using assms(3) by (cases "NewSemver (vm_minVersion vm)") auto
  have t: "bag_text (su_NewBag env [(CtxKeyInstalledCLIVersion, su_Version env), (CtxKeyCurrentCLIVersion, su_Version env)]) k = su_Version env"
    if "k \<in> {CtxKeyInstalledCLIVersion, CtxKeyCurrentCLIVersion}" for k
    using assms(1) that by (auto simp: bag_text_def CtxKeyInstalledCLIVersion_def CtxKeyCurrentCLIVersion_def)
  show ?thesis
    using x by (simp add: CLIVersionMigration_Applies_def startup_context_def ResolveInstalledCLIVersion_def t m)
qed

lemma applicable_loop_none:
  "\<forall>m \<in> set ms. mg_Applies m c s = Some (Inr False) \<Longrightarrow> applicable_loop c s ms = Some (Inr [])"
  by (induction ms) (auto simp: obind_def)

lemma RunStartupMigrations_idle:
  assumes "ReadProvisionerVersionFromDisk env s = Inr (su_Version env)"
    "\<forall>m \<in> set (reg ScopeStartup). mg_Applies m (startup_context env (su_Version env)) s = Some (Inr False)"
  shows "RunStartupMigrations env reg s = (Some (Inr ()), s)"
  using assms(1) applicable_loop_none[OF assms(2)]
  by (simp add: RunStartupMigrations_def GetApplicableMigrations_def record_version_def Let_def)

lemma applicable_loop_mem:
  "applicable_loop c s ms = Some (Inr out) \<Longrightarrow> m \<in> set out \<Longrightarrow> m \<in> set ms \<and> mg_Applies m c s = Some (Inr True)"
  by (induction ms arbitrary: out) (auto simp: obind_def split: option.splits sum.splits if_splits)

text \<open>A startup migration that embeds \<open>CLIVersionMigration\<close> with a readable boundary.\<close>

abbreviation cli_gated :: "'s migration \<Rightarrow> bool" where
  "cli_gated m \<equiv> \<exists>vm. mg_Applies m = (\<lambda>c s. CLIVersionMigration_Applies vm c) \<and> is_ok (NewSemver (vm_minVersion vm))"

lemma gated_not_selected:
  assumes "bag_law (su_NewBag env)" "version_ok (su_Version env)" "cli_gated m"
    "GetApplicableMigrations reg ScopeStartup (Some (startup_context env (su_Version env))) s = Some (Inr ms)"
  shows "m \<notin> set ms"
proof
  assume "m \<in> set ms"
  moreover obtain vm where vm: "mg_Applies m = (\<lambda>c s. CLIVersionMigration_Applies vm c)" "is_ok (NewSemver (vm_minVersion vm))"
    using assms(3) by blast
  ultimately show False
    using applicable_loop_mem[of _ s "reg ScopeStartup" ms m] assms(4) CLI_not_applicable[OF assms(1,2) vm(2)]
    by (fastforce simp: GetApplicableMigrations_def vm(1))
qed

text \<open>The state in which a pass that does not fail records the version: what the workflow of the applicable migrations left.\<close>

definition after_migrations :: "'s startup_env \<Rightarrow> 's mig_registry \<Rightarrow> string \<Rightarrow> 's \<Rightarrow> 's" where
  "after_migrations env reg onDisk s =
     (case GetApplicableMigrations reg ScopeStartup (Some (startup_context env onDisk)) s of
        Some (Inr ms) \<Rightarrow> if ms = [] then s else snd (su_Execute env (MigrationsToWorkflow ms (startup_context env onDisk)) s)
      | _ \<Rightarrow> s)"

lemma RunStartupMigrations_Inr:
  assumes "RunStartupMigrations env reg s = (Some (Inr ()), s1)" "ReadProvisionerVersionFromDisk env s = Inr onDisk"
  shows "s1 = record_version env onDisk (after_migrations env reg onDisk s)"
  using assms by (auto simp: RunStartupMigrations_def after_migrations_def Let_def split: option.splits sum.splits if_splits prod.splits)

end
