(* ===== verification/StateSchema.thy ===== *)
theory StateSchema
  imports Migration
begin

text \<open>
  The migration of the state file from model version v1 to v2 (\<open>internal/state/yaml_helpers.go\<close>,
  \<open>internal/state/migration_helm_release_schema_v2.go\<close>). A \<open>yaml.Node\<close> of a mapping has its keys and values in one flat
  list; the helpers change nodes in place, here they return the changed node. Parsing and printing YAML are parameters.
\<close>

section \<open>YAML nodes\<close>

datatype ykind = DocumentNode | SequenceNode | MappingNode | ScalarNode | AliasNode

datatype ynode = Node (n_Kind: ykind) (n_Value: string) (n_Content: "ynode list")

definition rootMappingNode :: "ynode \<Rightarrow> ynode option" where
  "rootMappingNode doc =
     (if n_Kind doc \<noteq> DocumentNode \<or> n_Content doc = [] then None
      else if n_Kind (hd (n_Content doc)) \<noteq> MappingNode then None
      else Some (hd (n_Content doc)))"

fun find_pair :: "string \<Rightarrow> ynode list \<Rightarrow> ynode option" where
  "find_pair key (k # v # rest) = (if n_Value k = key then Some v else find_pair key rest)"
| "find_pair key _ = None"

definition mappingValue :: "ynode option \<Rightarrow> string \<Rightarrow> ynode option" where
  "mappingValue node key =
     (case node of None \<Rightarrow> None | Some n \<Rightarrow> if n_Kind n \<noteq> MappingNode then None else find_pair key (n_Content n))"

definition mappingScalar :: "ynode option \<Rightarrow> string \<Rightarrow> string" where
  "mappingScalar node key = (case mappingValue node key of None \<Rightarrow> [] | Some v \<Rightarrow> n_Value v)"

text \<open>Changing the value found under a key, in place.\<close>

fun at_pair :: "string \<Rightarrow> (ynode \<Rightarrow> ynode) \<Rightarrow> ynode list \<Rightarrow> ynode list" where
  "at_pair key f (k # v # rest) = (if n_Value k = key then k # f v # rest else k # v # at_pair key f rest)"
| "at_pair key f xs = xs"

definition at_key :: "string \<Rightarrow> (ynode \<Rightarrow> ynode) \<Rightarrow> ynode \<Rightarrow> ynode" where
  "at_key key f n = (if n_Kind n \<noteq> MappingNode then n else Node MappingNode (n_Value n) (at_pair key f (n_Content n)))"

definition set_value :: "string \<Rightarrow> ynode \<Rightarrow> ynode" where
  "set_value s n = Node (n_Kind n) s (n_Content n)"

definition setMappingScalar :: "string \<Rightarrow> string \<Rightarrow> ynode \<Rightarrow> ynode" where
  "setMappingScalar key s = at_key key (set_value s)"

fun rename_pair :: "string \<Rightarrow> string \<Rightarrow> ynode list \<Rightarrow> ynode list" where
  "rename_pair old new (k # v # rest) =
     (if n_Value k = old then set_value new k # v # rest else k # v # rename_pair old new rest)"
| "rename_pair old new xs = xs"

definition renameMappingKey :: "string \<Rightarrow> string \<Rightarrow> ynode \<Rightarrow> ynode" where
  "renameMappingKey old new n = (if n_Kind n \<noteq> MappingNode then n else Node MappingNode (n_Value n) (rename_pair old new (n_Content n)))"

section \<open>The migration\<close>

definition renameHelmReleaseFieldsV1ToV2 :: "ynode \<Rightarrow> ynode" where
  "renameHelmReleaseFieldsV1ToV2 n =
     (if n_Kind n \<noteq> MappingNode then n
      else renameMappingKey ''deleted'' ''deletedAt'' (renameMappingKey ''chartVersion'' ''version'' (renameMappingKey ''version'' ''appVersion'' n)))"

definition renameHelmReleaseFieldsV2ToV1 :: "ynode \<Rightarrow> ynode" where
  "renameHelmReleaseFieldsV2ToV1 n =
     (if n_Kind n \<noteq> MappingNode then n
      else renameMappingKey ''deletedAt'' ''deleted'' (renameMappingKey ''appVersion'' ''version'' (renameMappingKey ''version'' ''chartVersion'' n)))"

text \<open>The root mapping is the first child of the document.\<close>

definition at_root :: "(ynode \<Rightarrow> ynode) \<Rightarrow> ynode \<Rightarrow> ynode" where
  "at_root f doc = (if rootMappingNode doc = None then doc else Node DocumentNode (n_Value doc) (f (hd (n_Content doc)) # tl (n_Content doc)))"

definition migrate_doc :: "(ynode \<Rightarrow> ynode) \<Rightarrow> string \<Rightarrow> ynode \<Rightarrow> ynode" where
  "migrate_doc renameFields version =
     at_root (at_key ''state'' (\<lambda>state. setMappingScalar ''version'' version (at_key ''blockNodeState'' renameFields state)))"

definition migrateStateV1ToV2 :: "('b \<Rightarrow> ynode result) \<Rightarrow> (ynode \<Rightarrow> 'b result) \<Rightarrow> 'b \<Rightarrow> 'b result" where
  "migrateStateV1ToV2 unmarshal marshal b = rbind (unmarshal b) (\<lambda>doc. marshal (migrate_doc renameHelmReleaseFieldsV1ToV2 ''v2'' doc))"

definition migrateStateV2ToV1 :: "('b \<Rightarrow> ynode result) \<Rightarrow> (ynode \<Rightarrow> 'b result) \<Rightarrow> 'b \<Rightarrow> 'b result" where
  "migrateStateV2ToV1 unmarshal marshal b = rbind (unmarshal b) (\<lambda>doc. marshal (migrate_doc renameHelmReleaseFieldsV2ToV1 ''v1'' doc))"

definition is_v1_doc :: "ynode \<Rightarrow> bool" where
  "is_v1_doc doc = (case mappingValue (rootMappingNode doc) ''state'' of
     None \<Rightarrow> False | Some state \<Rightarrow> mappingScalar (Some state) ''version'' = ''v1'')"

definition isV1StateFile :: "('b \<Rightarrow> ynode result) \<Rightarrow> 'b \<Rightarrow> bool" where
  "isV1StateFile unmarshal b = (case unmarshal b of Inl _ \<Rightarrow> False | Inr doc \<Rightarrow> is_v1_doc doc)"

text \<open>The handlers: \<open>read\<close> and \<open>write\<close> are the file system's, \<open>write\<close> being the atomic one.\<close>

record ('s, 'b) schema_env =
  sc_read :: "'s \<Rightarrow> file_read"
  sc_decode :: "string \<Rightarrow> 'b"
  sc_unmarshal :: "'b \<Rightarrow> ynode result"
  sc_marshal :: "ynode \<Rightarrow> 'b result"
  sc_write :: "'b \<Rightarrow> ('s, unit) action"

definition SchemaV2_Applies :: "('s, 'b) schema_env \<Rightarrow> 's \<Rightarrow> bool result" where
  "SchemaV2_Applies env s = (case sc_read env s of
     FileMissing \<Rightarrow> Inr False
   | FileFailed \<Rightarrow> Inl (Err IllegalState ''failed to read state file to check migration applicability'')
   | FileBytes b \<Rightarrow> Inr (isV1StateFile (sc_unmarshal env) (sc_decode env b)))"

definition schema_rewrite :: "('s, 'b) schema_env \<Rightarrow> ('b \<Rightarrow> 'b result) \<Rightarrow> string \<Rightarrow> string \<Rightarrow> string \<Rightarrow> ('s, unit) action" where
  "schema_rewrite env f read_msg transform_msg write_msg s = (case sc_read env s of
     FileBytes b \<Rightarrow>
       sbind (slift (map_err (wrap IllegalState transform_msg) (f (sc_decode env b)))) (\<lambda>out.
       smap_err (wrap IllegalState write_msg) (sc_write env out)) s
   | _ \<Rightarrow> (Inl (Err IllegalState read_msg), s))"

definition SchemaV2_Execute :: "('s, 'b) schema_env \<Rightarrow> ('s, unit) action" where
  "SchemaV2_Execute env = schema_rewrite env (migrateStateV1ToV2 (sc_unmarshal env) (sc_marshal env))
     ''failed to read state file for v1 to v2 migration'' ''failed to transform state YAML from v1 to v2'' ''failed to write migrated state file''"

definition SchemaV2_Rollback :: "('s, 'b) schema_env \<Rightarrow> ('s, unit) action" where
  "SchemaV2_Rollback env = schema_rewrite env (migrateStateV2ToV1 (sc_unmarshal env) (sc_marshal env))
     ''failed to read state file for v2 to v1 rollback'' ''failed to transform state YAML from v2 to v1'' ''failed to write rolled-back state file''"

section \<open>Keys of a mapping\<close>

fun pair_keys :: "ynode list \<Rightarrow> string list" where
  "pair_keys (k # v # rest) = n_Value k # pair_keys rest"
| "pair_keys _ = []"

fun map_keys :: "(string \<Rightarrow> string) \<Rightarrow> ynode list \<Rightarrow> ynode list" where
  "map_keys f (k # v # rest) = set_value (f (n_Value k)) k # v # map_keys f rest"
| "map_keys f xs = xs"

lemma set_value_simps [simp]:
  "n_Value (set_value s n) = s" "n_Kind (set_value s n) = n_Kind n" "n_Content (set_value s n) = n_Content n"
  "set_value s (set_value s' n) = set_value s n" "set_value (n_Value n) n = n"
  by (simp_all add: set_value_def)

lemma pair_keys_map [simp]: "pair_keys (map_keys f xs) = map f (pair_keys xs)"
  by (induction f xs rule: map_keys.induct) auto

lemma map_keys_comp: "map_keys f (map_keys g xs) = map_keys (f \<circ> g) xs"
  by (induction g xs rule: map_keys.induct) auto

lemma map_keys_id: "\<forall>k \<in> set (pair_keys xs). f k = k \<Longrightarrow> map_keys f xs = xs"
  by (induction f xs rule: map_keys.induct) auto

lemma rename_pair_map:
  "distinct (pair_keys xs) \<Longrightarrow> rename_pair old new xs = map_keys (\<lambda>k. if k = old then new else k) xs"
proof (induction old new xs rule: rename_pair.induct)
  case (1 old new k v rest)
  show ?case
  proof (cases "n_Value k = old")
    case True
    with 1(2) have "map_keys (\<lambda>k. if k = old then new else k) rest = rest" by (intro map_keys_id) auto
    with True show ?thesis by simp
  qed (use 1 in auto)
qed auto

lemma rename_distinct:
  "distinct ks \<Longrightarrow> new \<notin> set ks \<Longrightarrow> distinct (map (\<lambda>k. if k = old then new else k) ks)"
  by (induction ks) auto

text \<open>A mapping in the layout of v1: no key twice and none of the keys that v2 introduced.\<close>

definition v1_layout :: "ynode \<Rightarrow> bool" where
  "v1_layout n \<longleftrightarrow> (n_Kind n = MappingNode \<longrightarrow>
     distinct (pair_keys (n_Content n)) \<and> ''appVersion'' \<notin> set (pair_keys (n_Content n)) \<and> ''deletedAt'' \<notin> set (pair_keys (n_Content n)))"

definition up_key :: "string \<Rightarrow> string" where
  "up_key k = (if k = ''version'' then ''appVersion'' else if k = ''chartVersion'' then ''version'' else if k = ''deleted'' then ''deletedAt'' else k)"

lemma rename_up:
  assumes "n_Kind n = MappingNode" "v1_layout n"
  shows "renameHelmReleaseFieldsV1ToV2 n = Node MappingNode (n_Value n) (map_keys up_key (n_Content n))"
    "distinct (map up_key (pair_keys (n_Content n)))"
proof -
  let ?xs = "n_Content n"
  let ?r = "\<lambda>old new k. if k = old then new else (k :: string)"
  have d: "distinct (pair_keys ?xs)" and a: "''appVersion'' \<notin> set (pair_keys ?xs)" "''deletedAt'' \<notin> set (pair_keys ?xs)"
    using assms by (auto simp: v1_layout_def)
  let ?k1 = "map (?r ''version'' ''appVersion'') (pair_keys ?xs)"
  have d1: "distinct ?k1" and a1: "''version'' \<notin> set ?k1" "''deletedAt'' \<notin> set ?k1"
    using rename_distinct[OF d a(1)] a(2) by auto
  let ?k2 = "map (?r ''chartVersion'' ''version'') ?k1"
  have d2: "distinct ?k2" and a2: "''deletedAt'' \<notin> set ?k2"
    using rename_distinct[OF d1 a1(1)] a1(2) by auto
  have comp: "?r ''deleted'' ''deletedAt'' \<circ> (?r ''chartVersion'' ''version'' \<circ> ?r ''version'' ''appVersion'') = up_key"
    by (auto simp: up_key_def)
  show "renameHelmReleaseFieldsV1ToV2 n = Node MappingNode (n_Value n) (map_keys up_key ?xs)"
    using assms(1) d d1 d2 by (simp add: renameHelmReleaseFieldsV1ToV2_def renameMappingKey_def rename_pair_map map_keys_comp comp)
  show "distinct (map up_key (pair_keys ?xs))"
    using rename_distinct[OF d2 a2] unfolding map_map comp[symmetric] by (simp add: comp_assoc)
qed

lemma rename_down_up:
  assumes "v1_layout n"
  shows "renameHelmReleaseFieldsV2ToV1 (renameHelmReleaseFieldsV1ToV2 n) = n"
proof (cases "n_Kind n = MappingNode")
  case True
  let ?xs = "n_Content n" and ?ks = "pair_keys (n_Content n)"
  let ?r = "\<lambda>old new k. if k = old then new else (k :: string)"
  note up = rename_up[OF True assms]
  have k: "''appVersion'' \<notin> set ?ks" "''deletedAt'' \<notin> set ?ks" using assms True by (auto simp: v1_layout_def)
  let ?k0 = "map up_key ?ks" and ?k1 = "map (?r ''version'' ''chartVersion'') (map up_key ?ks)"
  let ?k2 = "map (?r ''appVersion'' ''version'') ?k1"
  have a0: "''chartVersion'' \<notin> set ?k0" "''deleted'' \<notin> set ?k0" by (auto simp: up_key_def split: if_splits)
  have d1: "distinct ?k1" using rename_distinct[OF up(2) a0(1)] .
  have a1: "''version'' \<notin> set ?k1" "''deleted'' \<notin> set ?k1" using a0(2) by auto
  have d2: "distinct ?k2" using rename_distinct[OF d1 a1(1)] .
  have id: "(?r ''deletedAt'' ''deleted'' \<circ> (?r ''appVersion'' ''version'' \<circ> (?r ''version'' ''chartVersion'' \<circ> up_key))) x = x"
    if "x \<in> set ?ks" for x
    using that k by (auto simp: up_key_def)
  have "renameHelmReleaseFieldsV2ToV1 (renameHelmReleaseFieldsV1ToV2 n) = Node MappingNode (n_Value n)
    (map_keys (?r ''deletedAt'' ''deleted'' \<circ> (?r ''appVersion'' ''version'' \<circ> (?r ''version'' ''chartVersion'' \<circ> up_key))) ?xs)"
    using up(2) d1 d2 unfolding up(1)
    by (simp add: renameHelmReleaseFieldsV2ToV1_def renameMappingKey_def rename_pair_map map_keys_comp)
  also have "\<dots> = n" using True id by (subst map_keys_id) (auto simp del: o_apply, metis ynode.collapse)
  finally show ?thesis .
next
  case False
  then show ?thesis by (simp add: renameHelmReleaseFieldsV2ToV1_def renameHelmReleaseFieldsV1ToV2_def)
qed

lemma find_map_keys:
  "\<forall>x \<in> set (pair_keys xs). f x = f k \<longrightarrow> x = k \<Longrightarrow> find_pair (f k) (map_keys f xs) = find_pair k xs"
  by (induction f xs rule: map_keys.induct) auto

text \<open>Every v1 field is found under its v2 key.\<close>

lemma rename_up_fields:
  assumes "v1_layout n" "n_Kind n = MappingNode" "k \<notin> {''appVersion'', ''deletedAt''}"
  shows "mappingValue (Some (renameHelmReleaseFieldsV1ToV2 n)) (up_key k) = mappingValue (Some n) k"
proof -
  have "\<forall>x \<in> set (pair_keys (n_Content n)). up_key x = up_key k \<longrightarrow> x = k"
    using assms by (auto simp: v1_layout_def up_key_def split: if_splits)
  then show ?thesis using assms(2) by (simp add: rename_up(1)[OF assms(2,1)] mappingValue_def find_map_keys)
qed

section \<open>Changes along a path\<close>

lemma at_pair_comp: "at_pair k g (at_pair k f xs) = at_pair k (g \<circ> f) xs"
  by (induction k f xs rule: at_pair.induct) auto

lemma at_pair_commute: "k \<noteq> k' \<Longrightarrow> at_pair k f (at_pair k' g xs) = at_pair k' g (at_pair k f xs)"
  by (induction k f xs rule: at_pair.induct) auto

lemma at_pair_fixed: "(\<And>v. find_pair k xs = Some v \<Longrightarrow> f v = v) \<Longrightarrow> at_pair k f xs = xs"
  by (induction k f xs rule: at_pair.induct) auto

lemma find_at_pair: "find_pair k (at_pair k' f xs) = (if k = k' then map_option f (find_pair k xs) else find_pair k xs)"
  by (induction k' f xs rule: at_pair.induct) auto

lemma at_key_comp: "at_key k g (at_key k f n) = at_key k (g \<circ> f) n"
  by (simp add: at_key_def at_pair_comp)

lemma at_key_commute: "k \<noteq> k' \<Longrightarrow> at_key k f (at_key k' g n) = at_key k' g (at_key k f n)"
  by (simp add: at_key_def at_pair_commute)

lemma at_key_fixed: "(\<And>v. mappingValue (Some n) k = Some v \<Longrightarrow> f v = v) \<Longrightarrow> at_key k f n = n"
  by (cases n) (auto simp: at_key_def mappingValue_def intro: at_pair_fixed)

lemma mappingValue_at_key:
  "mappingValue (Some (at_key k' f n)) k = (if k = k' then map_option f (mappingValue (Some n) k) else mappingValue (Some n) k)"
  by (simp add: mappingValue_def at_key_def find_at_pair)

lemma n_Kind_at_key [simp]: "n_Kind (at_key k f n) = n_Kind n"
  by (simp add: at_key_def)

lemma at_root_comp: "(\<And>n. n_Kind (f n) = n_Kind n) \<Longrightarrow> at_root g (at_root f doc) = at_root (g \<circ> f) doc"
  by (cases doc) (auto simp: at_root_def rootMappingNode_def)

lemma at_root_fixed: "(\<And>n. rootMappingNode doc = Some n \<Longrightarrow> f n = n) \<Longrightarrow> at_root f doc = doc"
  by (cases doc) (auto simp: at_root_def rootMappingNode_def split: if_splits)

lemma root_at_root: "(\<And>n. n_Kind (f n) = n_Kind n) \<Longrightarrow> rootMappingNode (at_root f doc) = map_option f (rootMappingNode doc)"
  by (auto simp: at_root_def rootMappingNode_def)

section \<open>Round trip\<close>

definition state_node :: "ynode \<Rightarrow> ynode option" where
  "state_node doc = mappingValue (rootMappingNode doc) ''state''"

definition block_node :: "ynode \<Rightarrow> ynode option" where
  "block_node doc = mappingValue (state_node doc) ''blockNodeState''"

lemma state_node_migrate:
  "state_node (migrate_doc rn ver doc) =
     map_option (\<lambda>state. setMappingScalar ''version'' ver (at_key ''blockNodeState'' rn state)) (state_node doc)"
  by (cases "rootMappingNode doc") (simp_all add: state_node_def migrate_doc_def root_at_root mappingValue_at_key, simp add: mappingValue_def)

text \<open>
  C26: rolling the schema migration back restores the document it was applied to, and the migrated document is in the new
  layout: it is not recognised as v1 any more, and the application version, the chart version and the deletion time of the block
  node are found under \<open>appVersion\<close>, \<open>version\<close> and \<open>deletedAt\<close>, every other field under its old key. The hypotheses are that
  the document is one of v1 whose block-node section has no key twice and none of the two new keys.
\<close>
theorem schema_v2_roundtrip:
  assumes "is_v1_doc doc" "\<forall>n. block_node doc = Some n \<longrightarrow> v1_layout n"
  shows "migrate_doc renameHelmReleaseFieldsV2ToV1 ''v1'' (migrate_doc renameHelmReleaseFieldsV1ToV2 ''v2'' doc) = doc \<and>
     \<not> is_v1_doc (migrate_doc renameHelmReleaseFieldsV1ToV2 ''v2'' doc) \<and>
     (\<forall>n k. block_node doc = Some n \<and> n_Kind n = MappingNode \<and> k \<notin> {''appVersion'', ''deletedAt''} \<longrightarrow>
        mappingValue (block_node (migrate_doc renameHelmReleaseFieldsV1ToV2 ''v2'' doc)) (up_key k) = mappingValue (Some n) k)"
proof (intro conjI)
  let ?up = renameHelmReleaseFieldsV1ToV2 and ?down = renameHelmReleaseFieldsV2ToV1
  let ?step = "\<lambda>rn ver. \<lambda>state. setMappingScalar ''version'' ver (at_key ''blockNodeState'' rn state)"
  obtain st where st: "state_node doc = Some st" "mappingScalar (Some st) ''version'' = ''v1''"
    using assms(1) by (auto simp: is_v1_doc_def state_node_def split: option.splits)
  have ver: "setMappingScalar ''version'' ''v1'' (setMappingScalar ''version'' ''v2'' st) = st"
    using st(2) unfolding setMappingScalar_def at_key_comp
    by (intro at_key_fixed) (auto simp: mappingScalar_def set_value_def split: option.splits, metis ynode.collapse)
  have bn: "at_key ''blockNodeState'' (?down \<circ> ?up) st = st"
    using assms(2) st(1) by (intro at_key_fixed) (auto simp: block_node_def rename_down_up)
  have "?step ?down ''v1'' (?step ?up ''v2'' st) =
    setMappingScalar ''version'' ''v1'' (setMappingScalar ''version'' ''v2'' (at_key ''blockNodeState'' (?down \<circ> ?up) st))"
    by (simp add: setMappingScalar_def at_key_commute[of "''blockNodeState''"] at_key_comp)
  also have "\<dots> = st" by (simp add: bn ver)
  finally have step: "?step ?down ''v1'' (?step ?up ''v2'' st) = st" .
  show "migrate_doc ?down ''v1'' (migrate_doc ?up ''v2'' doc) = doc"
    unfolding migrate_doc_def
    using step st(1) by (subst at_root_comp, simp) (intro at_root_fixed, auto simp: at_key_comp state_node_def intro!: at_key_fixed)
  have v2: "mappingScalar (Some (?step ?up ''v2'' st)) ''version'' = ''v2''"
    using st(2) by (auto simp: mappingScalar_def setMappingScalar_def mappingValue_at_key split: option.splits)
  then show "\<not> is_v1_doc (migrate_doc ?up ''v2'' doc)"
    using state_node_migrate[of ?up "''v2''" doc] st(1) by (simp add: is_v1_doc_def state_node_def)
  show "\<forall>n k. block_node doc = Some n \<and> n_Kind n = MappingNode \<and> k \<notin> {''appVersion'', ''deletedAt''} \<longrightarrow>
        mappingValue (block_node (migrate_doc ?up ''v2'' doc)) (up_key k) = mappingValue (Some n) k"
  proof (intro allI impI, elim conjE)
    fix n k assume n: "block_node doc = Some n" "n_Kind n = MappingNode" "k \<notin> {''appVersion'', ''deletedAt''}"
    then have "block_node (migrate_doc ?up ''v2'' doc) = Some (?up n)"
      using st(1) by (simp add: block_node_def state_node_migrate setMappingScalar_def mappingValue_at_key)
    with n assms(2) show "mappingValue (block_node (migrate_doc ?up ''v2'' doc)) (up_key k) = mappingValue (Some n) k"
      by (simp add: rename_up_fields)
  qed
qed

definition scalar :: "string \<Rightarrow> ynode" where
  "scalar s = Node ScalarNode s []"

definition demo_state :: ynode where
  "demo_state = Node DocumentNode [] [Node MappingNode [] [scalar ''state'', Node MappingNode [] [scalar ''version'', scalar ''v1'',
     scalar ''blockNodeState'', Node MappingNode [] [scalar ''version'', scalar ''v0.28.1'', scalar ''chartVersion'', scalar ''0.28.1'']]]]"

theorem schema_v2_roundtrip_witness:
  "is_v1_doc demo_state \<and>
   migrate_doc renameHelmReleaseFieldsV2ToV1 ''v1'' (migrate_doc renameHelmReleaseFieldsV1ToV2 ''v2'' demo_state) = demo_state"
proof -
  have v1: "is_v1_doc demo_state" by code_simp
  have "\<forall>n. block_node demo_state = Some n \<longrightarrow> v1_layout n"
    by (simp add: demo_state_def scalar_def block_node_def state_node_def rootMappingNode_def mappingValue_def v1_layout_def)
  from schema_v2_roundtrip[OF v1 this] v1 show ?thesis by simp
qed

end
