(* ===== verification/CanonicalJson.thy ===== *)
theory CanonicalJson
  imports GoStd
begin

text \<open>
  The canonical JSON text that the state hash is computed from (\<open>internal/state/state_manager.go\<close>): a value is written with
  the keys of every object in ascending order. \<open>json_quote\<close> is \<open>encoding/json\<close> on a string: quotes, backslashes, control
  bytes and the three HTML bytes are escaped, as are the two line separators of Unicode, and a byte that is not part of a valid
  UTF-8 sequence becomes the replacement character.
\<close>

datatype json = JNull | JBool bool | JNum string | JStr string | JArr "json list" | JObj "(string \<times> json) list"

section \<open>Strings\<close>

definition cont_byte :: "char \<Rightarrow> bool" where
  "cont_byte c \<longleftrightarrow> 128 \<le> byte c \<and> byte c \<le> 191"

text \<open>The length of the UTF-8 sequence at the front, 0 if there is none.\<close>

definition utf8_len :: "string \<Rightarrow> nat" where
  "utf8_len s = (case s of
     [] \<Rightarrow> 0
   | c # r \<Rightarrow>
       (let b = byte c; second = (\<lambda>lo hi. r \<noteq> [] \<and> lo \<le> byte (hd r) \<and> byte (hd r) \<le> hi); n = length r in
        if b < 128 then 1
        else if 194 \<le> b \<and> b \<le> 223 \<and> second 128 191 then 2
        else if 224 \<le> b \<and> b \<le> 239 \<and> second (if b = 224 then 160 else 128) (if b = 237 then 159 else 191) \<and> 2 \<le> n \<and> cont_byte (r ! 1) then 3
        else if 240 \<le> b \<and> b \<le> 244 \<and> second (if b = 240 then 144 else 128) (if b = 244 then 143 else 191) \<and> 3 \<le> n \<and>
          cont_byte (r ! 1) \<and> cont_byte (r ! 2) then 4
        else 0))"

abbreviation backslash :: char where "backslash \<equiv> CHR 0x5C"

definition json_escape :: "char \<Rightarrow> string" where
  "json_escape c =
     (if c = CHR 0x22 \<or> c = backslash then [backslash, c]
      else if c = CHR 0x08 then [backslash, CHR ''b'']
      else if c = CHR 0x0C then [backslash, CHR ''f'']
      else if c = CHR 0x0A then [backslash, CHR ''n'']
      else if c = CHR 0x0D then [backslash, CHR ''r'']
      else if c = CHR 0x09 then [backslash, CHR ''t'']
      else if byte c < 32 \<or> c \<in> set ''<>&'' then backslash # ''u00'' @ (if byte c < 16 then ''0'' else []) @ hexs (byte c)
      else [c])"

function json_body :: "string \<Rightarrow> string" where
  "json_body s =
     (if s = [] then []
      else if utf8_len s = 0 then backslash # ''ufffd'' @ json_body (tl s)
      else if utf8_len s = 1 then json_escape (hd s) @ json_body (tl s)
      else if take 3 s = [CHR 0xE2, CHR 0x80, CHR 0xA8] then backslash # ''u2028'' @ json_body (drop 3 s)
      else if take 3 s = [CHR 0xE2, CHR 0x80, CHR 0xA9] then backslash # ''u2029'' @ json_body (drop 3 s)
      else take (utf8_len s) s @ json_body (drop (utf8_len s) s))"
  by pat_completeness auto
termination
  by (relation "measure length") (auto intro: diff_less)

declare json_body.simps [simp del]

definition json_quote :: "string \<Rightarrow> string" where
  "json_quote s = CHR 0x22 # json_body s @ [CHR 0x22]"

section \<open>Values\<close>

definition key_before :: "string \<times> string \<Rightarrow> string \<times> string \<Rightarrow> bool" where
  "key_before a b \<longleftrightarrow> fst a < fst b"

fun encodeCanonical :: "json \<Rightarrow> string" where
  "encodeCanonical JNull = ''null''"
| "encodeCanonical (JBool b) = (if b then ''true'' else ''false'')"
| "encodeCanonical (JNum n) = n"
| "encodeCanonical (JStr s) = json_quote s"
| "encodeCanonical (JArr xs) = ''['' @ strings_Join '','' (map encodeCanonical xs) @ '']''"
| "encodeCanonical (JObj kvs) = ''{'' @ strings_Join '',''
     (map (\<lambda>(k, e). json_quote k @ '':'' @ e) (sort_by key_before (map (\<lambda>(k, v). (k, encodeCanonical v)) kvs))) @ ''}''"

text \<open>The same value with the keys of objects in any order.\<close>

inductive json_perm :: "json \<Rightarrow> json \<Rightarrow> bool" where
  same: "json_perm j j"
| arr: "list_all2 json_perm xs ys \<Longrightarrow> json_perm (JArr xs) (JArr ys)"
| obj: "list_all2 (\<lambda>a b. fst a = fst b \<and> json_perm (snd a) (snd b)) kvs kvs1 \<Longrightarrow> mset kvs1 = mset kvs2 \<Longrightarrow> distinct (map fst kvs2) \<Longrightarrow>
    json_perm (JObj kvs) (JObj kvs2)"
monos list.rel_mono conj_mono

lemma sort_key_before_perm:
  assumes "mset xs = mset ys" "distinct (map fst ys)"
  shows "sort_by key_before xs = sort_by key_before ys"
proof -
  have "total_less (\<lambda>a b. fst a < fst b) (set ys)"
    using assms(2) by (intro total_less_key) (simp add: distinct_map)
  moreover have "set xs = set ys" using assms(1) by (metis set_mset_mset)
  ultimately show ?thesis
    unfolding key_before_def[abs_def] using assms(1) by (auto intro: total_less.sort_by_cong_mset)
qed

definition encode_pair :: "string \<times> json \<Rightarrow> string \<times> string" where
  "encode_pair = (\<lambda>(k, v). (k, encodeCanonical v))"

lemma encode_obj:
  "encodeCanonical (JObj kvs) = ''{'' @ strings_Join '','' (map (\<lambda>(k, e). json_quote k @ '':'' @ e) (sort_by key_before (map encode_pair kvs))) @ ''}''"
  by (simp add: encode_pair_def)

text \<open>
  The canonical text depends only on the value: permuting the keys of objects, at any depth, does not change it, so that the
  content hash of a state does not depend on the iteration order of Go's maps.
\<close>
lemma encodeCanonical_canonical:
  "json_perm j j' \<Longrightarrow> encodeCanonical j = encodeCanonical j'"
proof (induction rule: json_perm.induct)
  case (arr xs ys)
  then have "map encodeCanonical xs = map encodeCanonical ys" by (auto simp: list_all2_conv_all_nth intro: nth_equalityI)
  then show ?case by simp
next
  case (obj kvs kvs1 kvs2)
  have "map encode_pair kvs = map encode_pair kvs1"
    using obj.IH by (auto simp: list_all2_conv_all_nth encode_pair_def case_prod_beta intro: nth_equalityI)
  moreover have "mset (map encode_pair kvs1) = mset (map encode_pair kvs2)" using obj.hyps(1) by simp
  moreover have "map fst (map encode_pair kvs2) = map fst kvs2" by (simp add: encode_pair_def case_prod_beta comp_def)
  ultimately show ?case using obj.hyps(2) sort_key_before_perm unfolding encode_obj by metis
qed simp

lemma canonical_text:
  "encodeCanonical (JObj [(''b'', JArr [JNull, JBool True]), (''a'', JStr (''x<'' @ [CHR 0x22, CHR 0x0A]))]) =
   ''{'' @ [CHR 0x22] @ ''a'' @ [CHR 0x22, CHR '':'', CHR 0x22] @ ''x'' @ [backslash] @ ''u003c'' @ [backslash, CHR 0x22, backslash, CHR ''n'', CHR 0x22] @
     '','' @ [CHR 0x22] @ ''b'' @ [CHR 0x22] @ '':[null,true]}''"
  by code_simp

end
