(* ===== verification/StateStore.thy ===== *)
theory StateStore
  imports StateSchema CanonicalJson Sha256
begin

text \<open>
  The persisted state of the provisioner (\<open>internal/state\<close>): the data model, its copies and comparisons, the manager that
  reads and writes it with optimistic concurrency control, the recording of the running version, and the consolidation of the
  legacy state files. YAML, the reflection of \<open>encoding/json\<close> and the clock are parameters; \<open>'c\<close> stands for the third-party
  values in \<open>models.ClusterInfo\<close> and \<open>'x\<close> for the inputs recorded with an action. A time is \<open>None\<close> for Go's zero time, and a
  map is \<open>None\<close> for Go's nil map.
\<close>

section \<open>The data model\<close>

type_synonym htime = "nat option"

record provisioner_info =
  pi_Version :: string
  pi_Commit :: string
  pi_GoVersion :: string
  pi_Executable :: string

record software_state =
  sw_Name :: string
  sw_Version :: string
  sw_Installed :: bool
  sw_Configured :: bool
  sw_Metadata :: "(string \<times> string) list option"
  sw_LastSync :: htime

record hardware_state =
  hw_Type :: string
  hw_Info :: string
  hw_Count :: int
  hw_Size :: string
  hw_Metadata :: "(string \<times> string) list option"
  hw_LastSync :: htime

record host_firewall_state =
  hf_Disabled :: bool
  hf_ManagementCIDRs :: "string list"
  hf_BlockedCIDRs :: "string list"
  hf_SSHPort :: int
  hf_PodCIDR :: string
  hf_InClusterPorts :: "int list"

record machine_state =
  ms_Profile :: string
  ms_Software :: "(string \<times> software_state) list option"
  ms_Hardware :: "(string \<times> hardware_state) list option"
  ms_Firewall :: "host_firewall_state option"
  ms_LastSync :: htime

record helm_release_info =
  hr_Name :: string
  hr_ChartVersion :: string
  hr_AppVersion :: string
  hr_Namespace :: string
  hr_ChartRef :: string
  hr_ChartName :: string
  hr_Status :: string
  hr_FirstDeployed :: htime
  hr_LastDeployed :: htime
  hr_DeletedAt :: htime

record shape_override =
  so_Rate :: string
  so_Ceil :: string
  so_Prio :: "int option"

record shaping_state =
  sp_EgressInterface :: string
  sp_LinkRate :: string
  sp_ShapeOverrides :: "(string \<times> shape_override) list option"

record block_node_state =
  bn_ReleaseInfo :: helm_release_info
  bn_Storage :: bn_storage
  bn_HistoricRetention :: string
  bn_RecentRetention :: string
  bn_PluginPreset :: string
  bn_PluginList :: string
  bn_TrafficShapingDisabled :: bool
  bn_Shaping :: "shaping_state option"
  bn_LastSync :: htime

record 'c cluster_state =
  cs_Info :: 'c
  cs_Created :: bool
  cs_LastSync :: htime

record teleport_state =
  tp_NodeInstalled :: bool
  tp_NodeConfigured :: bool
  tp_NodeVersion :: string
  tp_ClusterInstalled :: bool
  tp_ClusterRelease :: string
  tp_ClusterNamespace :: string
  tp_ClusterChartVersion :: string
  tp_LastSync :: htime

record 'x action_history =
  ah_Action :: string
  ah_Target :: string
  ah_Inputs :: 'x
  ah_Timestamp :: htime

record ('c, 'x) state_record =
  sr_Version :: string
  sr_Provisioner :: provisioner_info
  sr_Machine :: machine_state
  sr_Cluster :: "'c cluster_state"
  sr_BlockNode :: block_node_state
  sr_Teleport :: teleport_state
  sr_LastAction :: "'x action_history"

record ('c, 'x) app_state =
  st_Hash :: string
  st_HashAlgo :: string
  st_StateFile :: string
  st_LastSync :: htime
  st_Record :: "('c, 'x) state_record"

definition zero_storage :: bn_storage where
  "zero_storage = \<lparr>bs_BasePath = [], bs_ArchivePath = [], bs_LivePath = [], bs_LogPath = [], bs_VerificationPath = [],
     bs_PluginsPath = [], bs_ApplicationStatePath = [], bs_LiveSize = [], bs_ArchiveSize = [], bs_LogSize = [],
     bs_VerificationSize = [], bs_PluginsSize = [], bs_ApplicationStateSize = []\<rparr>"

definition zero_teleport :: teleport_state where
  "zero_teleport = \<lparr>tp_NodeInstalled = False, tp_NodeConfigured = False, tp_NodeVersion = [], tp_ClusterInstalled = False,
     tp_ClusterRelease = [], tp_ClusterNamespace = [], tp_ClusterChartVersion = [], tp_LastSync = None\<rparr>"

definition NewMachineState :: machine_state where
  "NewMachineState = \<lparr>ms_Profile = [], ms_Software = Some [], ms_Hardware = Some [], ms_Firewall = None, ms_LastSync = None\<rparr>"

definition NewClusterState :: "'c \<Rightarrow> 'c cluster_state" where
  "NewClusterState zero = \<lparr>cs_Info = zero, cs_Created = False, cs_LastSync = None\<rparr>"

definition NewBlockNodeState :: block_node_state where
  "NewBlockNodeState = \<lparr>bn_ReleaseInfo = \<lparr>hr_Name = [], hr_ChartVersion = [], hr_AppVersion = [], hr_Namespace = [], hr_ChartRef = [],
       hr_ChartName = [], hr_Status = ''unknown'', hr_FirstDeployed = None, hr_LastDeployed = None, hr_DeletedAt = None\<rparr>,
     bn_Storage = zero_storage, bn_HistoricRetention = [], bn_RecentRetention = [], bn_PluginPreset = [], bn_PluginList = [],
     bn_TrafficShapingDisabled = False, bn_Shaping = None, bn_LastSync = None\<rparr>"

section \<open>Copies\<close>

definition MachineState_Clone :: "machine_state \<Rightarrow> machine_state" where
  "MachineState_Clone m = \<lparr>ms_Profile = ms_Profile m,
     ms_Software = Some (case ms_Software m of None \<Rightarrow> [] | Some s \<Rightarrow> s),
     ms_Hardware = Some (case ms_Hardware m of None \<Rightarrow> [] | Some h \<Rightarrow> h),
     ms_Firewall = None, ms_LastSync = ms_LastSync m\<rparr>"

definition State_Clone :: "('c, 'x) app_state \<Rightarrow> ('c, 'x) app_state" where
  "State_Clone s = s\<lparr>st_Record := (st_Record s)\<lparr>sr_Machine := MachineState_Clone (sr_Machine (st_Record s)), sr_Teleport := zero_teleport\<rparr>\<rparr>"

text \<open>The record that is hashed: the times of reconciliation are dropped.\<close>

definition drop_sync :: "machine_state \<Rightarrow> machine_state" where
  "drop_sync m = m\<lparr>ms_LastSync := None,
     ms_Software := map_option (map (\<lambda>(k, v). (k, v\<lparr>sw_LastSync := None\<rparr>))) (ms_Software m),
     ms_Hardware := map_option (map (\<lambda>(k, v). (k, v\<lparr>hw_LastSync := None\<rparr>))) (ms_Hardware m)\<rparr>"

definition Hashable :: "('c, 'x) app_state \<Rightarrow> ('c, 'x) state_record" where
  "Hashable s = (let r = st_Record s in
     r\<lparr>sr_Machine := drop_sync (sr_Machine r),
       sr_Cluster := (sr_Cluster r)\<lparr>cs_LastSync := None\<rparr>,
       sr_BlockNode := (sr_BlockNode r)\<lparr>bn_LastSync := None\<rparr>,
       sr_Teleport := (sr_Teleport r)\<lparr>tp_LastSync := None\<rparr>\<rparr>)"

section \<open>Software entries\<close>

definition GetSoftwareState :: "('c, 'x) app_state \<Rightarrow> string \<Rightarrow> software_state" where
  "GetSoftwareState s component =
     (let none = \<lparr>sw_Name = component, sw_Version = [], sw_Installed = False, sw_Configured = False, sw_Metadata = None, sw_LastSync = None\<rparr> in
      case ms_Software (sr_Machine (st_Record s)) of
        None \<Rightarrow> none
      | Some m \<Rightarrow> (case map_of m component of None \<Rightarrow> none | Some sw \<Rightarrow> sw))"

definition SetSoftwareState :: "htime \<Rightarrow> ('c, 'x) app_state \<Rightarrow> string \<Rightarrow> software_state \<Rightarrow> ('c, 'x) app_state" where
  "SetSoftwareState now s component sw =
     (let m = (case ms_Software (sr_Machine (st_Record s)) of None \<Rightarrow> [] | Some m \<Rightarrow> m);
          sw' = sw\<lparr>sw_Name := component, sw_LastSync := now\<rparr>
      in s\<lparr>st_Record := (st_Record s)\<lparr>sr_Machine := (sr_Machine (st_Record s))\<lparr>ms_Software := Some (AList.update component sw' m)\<rparr>\<rparr>\<rparr>)"

section \<open>The manager\<close>

datatype io_op = OpNewFS | OpReadState | OpStatState | OpReadBeforeFlush | OpWriteState | OpAppendHistory | OpListDir | OpReadLegacy | OpRemoveLegacy | OpWriteLegacy

text \<open>
  \<open>en_json\<close> marshals a record and decodes the text again; \<open>en_unmarshal\<close> decodes a file into an existing value, as
  \<open>yaml.Unmarshal\<close> does; \<open>en_fails\<close> tells which input and output calls fail.
\<close>

record ('c, 'x) store_env =
  en_json :: "('c, 'x) state_record \<Rightarrow> json result"
  en_marshal :: "('c, 'x) app_state \<Rightarrow> string result"
  en_unmarshal :: "string \<Rightarrow> ('c, 'x) app_state \<Rightarrow> ('c, 'x) app_state result"
  en_marshal_action :: "'x action_history \<Rightarrow> string result"
  en_now :: htime
  en_fails :: "io_op \<Rightarrow> bool"
  en_info :: provisioner_info
  en_stateDir :: string
  en_zeroCluster :: 'c
  en_zeroAction :: "'x action_history"

type_synonym disk = "string \<Rightarrow> string option"

record ('c, 'x) state_manager =
  sm_state :: "('c, 'x) app_state"
  sm_actions :: "'x action_history list"
  sm_lastStateHash :: string

definition StateFileName :: string where "StateFileName = ''state.yaml''"

definition ModelVersion :: string where "ModelVersion = ''v2''"

definition NewState :: "('c, 'x) store_env \<Rightarrow> string \<Rightarrow> ('c, 'x) app_state" where
  "NewState env stateFile =
     \<lparr>st_Hash = [], st_HashAlgo = [], st_StateFile = (if stateFile = [] then path_Join [en_stateDir env, StateFileName] else stateFile),
      st_LastSync = None,
      st_Record = \<lparr>sr_Version = ModelVersion, sr_Provisioner = en_info env, sr_Machine = NewMachineState,
        sr_Cluster = NewClusterState (en_zeroCluster env), sr_BlockNode = NewBlockNodeState, sr_Teleport = zero_teleport,
        sr_LastAction = en_zeroAction env\<rparr>\<rparr>"

definition NewStateManager :: "('c, 'x) store_env \<Rightarrow> ('c, 'x) state_manager result" where
  "NewStateManager env =
     (if en_fails env OpNewFS then Inl (Err InternalError ''failed to create file manager for state manager'')
      else Inr \<lparr>sm_state = NewState env [], sm_actions = [], sm_lastStateHash = []\<rparr>)"

definition canonicalJSON :: "('c, 'x) store_env \<Rightarrow> ('c, 'x) state_record \<Rightarrow> string result" where
  "canonicalJSON env r = rbind (en_json env r) (\<lambda>j. Inr (encodeCanonical j))"

definition contentHash :: "('c, 'x) store_env \<Rightarrow> ('c, 'x) app_state \<Rightarrow> string result" where
  "contentHash env s = rbind (canonicalJSON env (Hashable s)) (\<lambda>c. Inr (hex_EncodeToString (sha256_Sum256 c)))"

text \<open>The hash of a state read from disk: the stored one, or the content's when none is stored.\<close>

definition storedHash :: "('c, 'x) store_env \<Rightarrow> string \<Rightarrow> ('c, 'x) app_state \<Rightarrow> string result" where
  "storedHash env msg s = (if st_Hash s \<noteq> [] then Inr (st_Hash s) else map_err (wrap InternalError msg) (contentHash env s))"

definition set_version :: "string \<Rightarrow> ('c, 'x) app_state \<Rightarrow> ('c, 'x) app_state" where
  "set_version v s = s\<lparr>st_Record := (st_Record s)\<lparr>sr_Provisioner := (sr_Provisioner (st_Record s))\<lparr>pi_Version := v\<rparr>\<rparr>\<rparr>"

definition Refresh :: "('c, 'x) store_env \<Rightarrow> disk \<Rightarrow> ('c, 'x) state_manager \<Rightarrow> unit result \<times> ('c, 'x) state_manager" where
  "Refresh env d m =
     (if en_fails env OpReadState then (Inl (Err InternalError ''failed to read state file''), m\<lparr>sm_lastStateHash := []\<rparr>)
      else case d (st_StateFile (sm_state m)) of
        None \<Rightarrow> (Inr (), m)
      | Some b \<Rightarrow>
          (case en_unmarshal env b (State_Clone (sm_state m)) of
             Inl e \<Rightarrow> (Inl (wrap InternalError ''failed to unmarshal state from YAML'' e), m)
           | Inr newState \<Rightarrow>
               (case storedHash env ''failed to canonicalize refreshed state for baseline hash'' newState of
                  Inl e \<Rightarrow> (Inl e, m)
                | Inr h \<Rightarrow>
                    (let stamped = set_version (pi_Version (en_info env)) newState;
                         kept = stamped\<lparr>st_Record := (st_Record stamped)\<lparr>sr_LastAction := sr_LastAction (st_Record (sm_state m))\<rparr>\<rparr>
                     in (Inr (), m\<lparr>sm_state := kept, sm_lastStateHash := h\<rparr>)))))"

text \<open>The check before a file is replaced.\<close>

definition zero_state :: "('c, 'x) store_env \<Rightarrow> ('c, 'x) app_state" where
  "zero_state env = \<lparr>st_Hash = [], st_HashAlgo = [], st_StateFile = [], st_LastSync = None,
     st_Record = \<lparr>sr_Version = [], sr_Provisioner = \<lparr>pi_Version = [], pi_Commit = [], pi_GoVersion = [], pi_Executable = []\<rparr>,
       sr_Machine = \<lparr>ms_Profile = [], ms_Software = None, ms_Hardware = None, ms_Firewall = None, ms_LastSync = None\<rparr>,
       sr_Cluster = NewClusterState (en_zeroCluster env),
       sr_BlockNode = NewBlockNodeState\<lparr>bn_ReleaseInfo := (bn_ReleaseInfo NewBlockNodeState)\<lparr>hr_Status := []\<rparr>\<rparr>,
       sr_Teleport = zero_teleport, sr_LastAction = en_zeroAction env\<rparr>\<rparr>"

definition diskHash :: "('c, 'x) store_env \<Rightarrow> string \<Rightarrow> string result" where
  "diskHash env b = (case en_unmarshal env b (zero_state env) of
     Inl _ \<Rightarrow> Inl (Err IllegalState ''state file is not parseable YAML; aborting flush to avoid overwrite'')
   | Inr existing \<Rightarrow> storedHash env ''failed to canonicalize existing state on disk'' existing)"

definition check_baseline :: "('c, 'x) store_env \<Rightarrow> disk \<Rightarrow> string \<Rightarrow> string \<Rightarrow> unit result" where
  "check_baseline env d path lastStateHash =
     (if en_fails env OpStatState then Inl (Err InternalError ''failed to stat state file before flush'')
      else case d path of
        None \<Rightarrow> Inr ()
      | Some b \<Rightarrow>
          if lastStateHash = [] then Inl (Err IllegalState ''cannot flush without a baseline; call Refresh() first'')
          else if en_fails env OpReadBeforeFlush then Inl (Err InternalError ''failed to read state file before flush'')
          else rbind (diskHash env b) (\<lambda>h.
            if h \<noteq> lastStateHash then Inl (Err IllegalState ''state file changed externally on disk; aborting flush to avoid overwrite'')
            else Inr ()))"

definition flushState :: "('c, 'x) store_env \<Rightarrow> ('c, 'x) state_manager \<Rightarrow> disk \<Rightarrow> unit result \<times> ('c, 'x) state_manager \<times> disk" where
  "flushState env m d =
     (let snapshot = sm_state m; path = st_StateFile snapshot in
      case contentHash env snapshot of
        Inl e \<Rightarrow> (Inl (wrap InternalError ''failed to create canonical representation of state for hashing'' e), m, d)
      | Inr newHash \<Rightarrow>
          (let toWrite = snapshot\<lparr>st_Hash := newHash, st_HashAlgo := ''sha256'', st_LastSync := en_now env\<rparr> in
           case en_marshal env toWrite of
             Inl e \<Rightarrow> (Inl (wrap InternalError ''failed to marshal state to YAML'' e), m, d)
           | Inr b \<Rightarrow>
               (case check_baseline env d path (sm_lastStateHash m) of
                  Inl e \<Rightarrow> (Inl e, m, d)
                | Inr _ \<Rightarrow>
                    if en_fails env OpWriteState then (Inl (Err InternalError ''failed to write state file''), m, d)
                    else (Inr (), m\<lparr>sm_state := toWrite, sm_lastStateHash := newHash\<rparr>, d(path \<mapsto> b)))))"

definition AddActionHistory :: "('c, 'x) store_env \<Rightarrow> 'x action_history \<Rightarrow> ('c, 'x) state_manager \<Rightarrow> ('c, 'x) state_manager" where
  "AddActionHistory env entry m =
     (let e = entry\<lparr>ah_Timestamp := en_now env\<rparr> in
      m\<lparr>sm_actions := sm_actions m @ [e], sm_state := (sm_state m)\<lparr>st_Record := (st_Record (sm_state m))\<lparr>sr_LastAction := e\<rparr>\<rparr>\<rparr>)"

definition filepath_Dir :: "string \<Rightarrow> string" where
  "filepath_Dir p = filepath_Clean (rev (dropWhile (\<lambda>c. c \<noteq> CHR ''/'') (rev p)))"

fun append_actions :: "('c, 'x) store_env \<Rightarrow> string \<Rightarrow> 'x action_history list \<Rightarrow> disk \<Rightarrow> unit result \<times> disk" where
  "append_actions env path [] d = (Inr (), d)"
| "append_actions env path (a # as) d =
     (case en_marshal_action env a of
        Inl e \<Rightarrow> (Inl (wrap InternalError ''failed to marshal action history entry to YAML'' e), d)
      | Inr b \<Rightarrow>
          if en_fails env OpAppendHistory then (Inl (Err InternalError ''failed to append action history entry''), d)
          else append_actions env path as (d(path \<mapsto> (case d path of None \<Rightarrow> [] | Some t \<Rightarrow> t) @ ''---'' @ [CHR 0x0A] @ b)))"

definition flushActionHistory :: "('c, 'x) store_env \<Rightarrow> ('c, 'x) state_manager \<Rightarrow> disk \<Rightarrow> unit result \<times> ('c, 'x) state_manager \<times> disk" where
  "flushActionHistory env m d =
     (case append_actions env (path_Join [filepath_Dir (st_StateFile (sm_state m)), ''action_history.yaml'']) (sm_actions m) d of
        (Inl e, d') \<Rightarrow> (Inl e, m, d')
      | (Inr _, d') \<Rightarrow> (Inr (), m\<lparr>sm_actions := []\<rparr>, d'))"

definition FlushAll :: "('c, 'x) store_env \<Rightarrow> ('c, 'x) state_manager \<Rightarrow> disk \<Rightarrow> unit result \<times> ('c, 'x) state_manager \<times> disk" where
  "FlushAll env m d =
     (case flushState env m d of
        (Inl e, m', d') \<Rightarrow> (Inl e, m', d')
      | (Inr _, m', d') \<Rightarrow> flushActionHistory env m' d')"

definition PersistProvisionerVersion :: "('c, 'x) store_env \<Rightarrow> disk \<Rightarrow> unit result \<times> disk" where
  "PersistProvisionerVersion env d =
     (case NewStateManager env of
        Inl e \<Rightarrow> (Inl e, d)
      | Inr m0 \<Rightarrow>
          (case Refresh env d m0 of
             (Inl e, _) \<Rightarrow> (Inl e, d)
           | (Inr _, m1) \<Rightarrow>
               (case flushState env (m1\<lparr>sm_state := set_version (pi_Version (en_info env)) (sm_state m1)\<rparr>) d of
                  (r, _, d') \<Rightarrow> (r, d'))))"


section \<open>Comparisons\<close>

definition IsEqualMap :: "(string \<times> string) list option \<Rightarrow> (string \<times> string) list option \<Rightarrow> bool" where
  "IsEqualMap a b = (case (a, b) of
     (None, None) \<Rightarrow> True
   | (Some x, Some y) \<Rightarrow> length x = length y \<and> list_all (\<lambda>(k, v). map_of y k = Some v) x
   | _ \<Rightarrow> False)"

definition SoftwareState_Equal :: "software_state \<Rightarrow> software_state \<Rightarrow> bool" where
  "SoftwareState_Equal s t \<longleftrightarrow> sw_Name s = sw_Name t \<and> sw_Version s = sw_Version t \<and> sw_Installed s = sw_Installed t \<and>
     sw_Configured s = sw_Configured t \<and> IsEqualMap (sw_Metadata s) (sw_Metadata t)"

definition HardwareState_Equal :: "hardware_state \<Rightarrow> hardware_state \<Rightarrow> bool" where
  "HardwareState_Equal s t \<longleftrightarrow> hw_Type s = hw_Type t \<and> hw_Info s = hw_Info t \<and> hw_Count s = hw_Count t \<and>
     hw_Size s = hw_Size t \<and> IsEqualMap (hw_Metadata s) (hw_Metadata t)"

definition map_entries :: "(string \<times> 'v) list option \<Rightarrow> (string \<times> 'v) list" where
  "map_entries m = (case m of None \<Rightarrow> [] | Some l \<Rightarrow> l)"

definition MachineState_Equal :: "machine_state \<Rightarrow> machine_state \<Rightarrow> bool" where
  "MachineState_Equal m t \<longleftrightarrow>
     length (map_entries (ms_Software m)) = length (map_entries (ms_Software t)) \<and>
     length (map_entries (ms_Hardware m)) = length (map_entries (ms_Hardware t)) \<and>
     list_all (\<lambda>(k, v). case map_of (map_entries (ms_Software t)) k of None \<Rightarrow> False | Some w \<Rightarrow> SoftwareState_Equal v w) (map_entries (ms_Software m)) \<and>
     list_all (\<lambda>(k, v). case map_of (map_entries (ms_Hardware t)) k of None \<Rightarrow> False | Some w \<Rightarrow> HardwareState_Equal v w) (map_entries (ms_Hardware m))"

definition HelmReleaseInfo_Equal :: "helm_release_info \<Rightarrow> helm_release_info \<Rightarrow> bool" where
  "HelmReleaseInfo_Equal h t \<longleftrightarrow> hr_Name h = hr_Name t \<and> hr_ChartVersion h = hr_ChartVersion t \<and> hr_Namespace h = hr_Namespace t \<and>
     hr_ChartRef h = hr_ChartRef t \<and> hr_ChartName h = hr_ChartName t \<and> hr_Status h = hr_Status t \<and> hr_AppVersion h = hr_AppVersion t"

definition BlockNodeState_Equal :: "block_node_state \<Rightarrow> block_node_state \<Rightarrow> bool" where
  "BlockNodeState_Equal b t \<longleftrightarrow> HelmReleaseInfo_Equal (bn_ReleaseInfo b) (bn_ReleaseInfo t) \<and> bn_Storage b = bn_Storage t"

record cluster_node_state =
  cn_Name :: string
  cn_Role :: string
  cn_Ready :: bool
  cn_KubeletVer :: string
  cn_Labels :: "(string \<times> string) list"
  cn_Annotations :: "(string \<times> string) list"

text \<open>\<open>other[k] != v\<close> reads the empty string under a missing key.\<close>

definition same_entries :: "(string \<times> string) list \<Rightarrow> (string \<times> string) list \<Rightarrow> bool" where
  "same_entries a b \<longleftrightarrow> length a = length b \<and> list_all (\<lambda>(k, v). (case map_of b k of None \<Rightarrow> [] | Some w \<Rightarrow> w) = v) a"

definition ClusterNodeState_Equal :: "cluster_node_state \<Rightarrow> cluster_node_state \<Rightarrow> bool" where
  "ClusterNodeState_Equal c t \<longleftrightarrow> cn_Name c = cn_Name t \<and> cn_Role c = cn_Role t \<and> cn_Ready c = cn_Ready t \<and> cn_KubeletVer c = cn_KubeletVer t \<and>
     same_entries (cn_Labels c) (cn_Labels t) \<and> same_entries (cn_Annotations c) (cn_Annotations t)"

section \<open>The legacy state files\<close>

function split_str :: "string \<Rightarrow> string \<Rightarrow> string list" where
  "split_str sep s = (if sep = [] then [s] else case strings_Index s sep of
     None \<Rightarrow> [s] | Some i \<Rightarrow> take i s # split_str sep (drop (i + length sep) s))"
  by pat_completeness auto
termination
proof (relation "measure (\<lambda>(sep, s). length s)")
  fix sep s :: string and i
  assume "sep \<noteq> []" "strings_Index s sep = Some i"
  with Index_Some[of s sep i] show "((sep, drop (i + length sep) s), (sep, s)) \<in> measure (\<lambda>(sep, s). length s)"
    by (cases sep) auto
qed simp

declare split_str.simps [simp del]

definition parseVersionFromContent :: "string \<Rightarrow> string" where
  "parseVersionFromContent content =
     (let parts = split_str '' at version '' (strings_TrimSpace content)
      in if length parts = 2 then strings_TrimSpace (parts ! 1) else ''unknown'')"

definition formatStateContent :: "string \<Rightarrow> string \<Rightarrow> string" where
  "formatStateContent stateType version = stateType @ '' at version '' @ version @ [CHR 0x0A]"

text \<open>\<open>ls\<close> lists the state directory: names, and whether they are directories.\<close>

definition findLegacyStateFiles :: "('c, 'x) store_env \<Rightarrow> (disk \<Rightarrow> (string \<times> bool) list) \<Rightarrow> disk \<Rightarrow> string list result" where
  "findLegacyStateFiles env ls d =
     (if en_fails env OpListDir then Inl (Err IllegalState ''failed to read state directory'')
      else Inr (map fst (filter (\<lambda>(name, isDir). \<not> isDir \<and> (strings_HasSuffix name ''.installed'' \<or> strings_HasSuffix name ''.configured'')) (ls d))))"

definition UnifiedState_Applies :: "('c, 'x) store_env \<Rightarrow> (disk \<Rightarrow> (string \<times> bool) list) \<Rightarrow> bool \<Rightarrow> disk \<Rightarrow> bool result" where
  "UnifiedState_Applies env ls dirExists d =
     (if \<not> dirExists then Inr False else rbind (findLegacyStateFiles env ls d) (\<lambda>files. Inr (files \<noteq> [])))"

definition legacy_path :: "('c, 'x) store_env \<Rightarrow> string \<Rightarrow> string" where
  "legacy_path env name = path_Join [en_stateDir env, name]"

definition absorb_file :: "('c, 'x) store_env \<Rightarrow> disk \<Rightarrow> string \<Rightarrow> ('c, 'x) app_state \<Rightarrow> ('c, 'x) app_state result" where
  "absorb_file env d base current = (case cut_byte (CHR ''.'') base of
     None \<Rightarrow> Inr current
   | Some (component, stateType) \<Rightarrow>
       if en_fails env OpReadLegacy then Inl (Err IllegalState ''failed to read legacy state file'')
       else (case d (legacy_path env base) of
          None \<Rightarrow> Inl (Err IllegalState ''failed to read legacy state file'')
        | Some content \<Rightarrow>
            (let sw0 = (GetSoftwareState current component)\<lparr>sw_Version := parseVersionFromContent content\<rparr>;
                 sw1 = (if stateType = ''installed'' then sw0\<lparr>sw_Installed := True\<rparr>
                        else if stateType = ''configured'' then sw0\<lparr>sw_Configured := True\<rparr> else sw0)
             in Inr (SetSoftwareState (en_now env) current component sw1))))"

fun absorb_files :: "('c, 'x) store_env \<Rightarrow> disk \<Rightarrow> string list \<Rightarrow> ('c, 'x) app_state \<Rightarrow> ('c, 'x) app_state result" where
  "absorb_files env d [] current = Inr current"
| "absorb_files env d (f # fs) current = rbind (absorb_file env d f current) (absorb_files env d fs)"

definition UnifiedState_Execute :: "('c, 'x) store_env \<Rightarrow> (disk \<Rightarrow> (string \<times> bool) list) \<Rightarrow> disk \<Rightarrow> unit result \<times> disk" where
  "UnifiedState_Execute env ls d =
     (case findLegacyStateFiles env ls d of
        Inl e \<Rightarrow> (Inl e, d)
      | Inr files \<Rightarrow>
          if files = [] then (Inr (), d)
          else (case NewStateManager env of
             Inl e \<Rightarrow> (Inl (wrap IllegalState ''failed to create state manager for unified-state migration'' e), d)
           | Inr sm \<Rightarrow>
               (case absorb_files env d files (sm_state sm) of
                  Inl e \<Rightarrow> (Inl e, d)
                | Inr current \<Rightarrow>
                    (case flushState env (sm\<lparr>sm_state := current\<rparr>) d of
                       (Inl e, _, d') \<Rightarrow> (Inl (wrap IllegalState ''failed to flush migrated state'' e), d')
                     | (Inr _, _, d') \<Rightarrow>
                         (Inr (), if en_fails env OpRemoveLegacy then d' else fold (\<lambda>f d. d(legacy_path env f := None)) files d')))))"

fun restore_files :: "('c, 'x) store_env \<Rightarrow> (string \<times> software_state) list \<Rightarrow> disk \<Rightarrow> unit result \<times> disk" where
  "restore_files env [] d = (Inr (), d)"
| "restore_files env ((name, sw) # rest) d =
     (if (sw_Installed sw \<or> sw_Configured sw) \<and> en_fails env OpWriteLegacy then (Inl (Err IllegalState ''failed to restore state file''), d)
      else
        (let d1 = (if sw_Installed sw then d(legacy_path env (name @ ''.installed'') \<mapsto> formatStateContent ''installed'' (sw_Version sw)) else d);
             d2 = (if sw_Configured sw then d1(legacy_path env (name @ ''.configured'') \<mapsto> formatStateContent ''configured'' (sw_Version sw)) else d1)
         in restore_files env rest d2))"

definition UnifiedState_Rollback :: "('c, 'x) store_env \<Rightarrow> disk \<Rightarrow> unit result \<times> disk" where
  "UnifiedState_Rollback env d =
     (case NewStateManager env of
        Inl e \<Rightarrow> (Inl (wrap IllegalState ''failed to create state manager for unified-state rollback'' e), d)
      | Inr sm \<Rightarrow> restore_files env (map_entries (ms_Software (sr_Machine (st_Record (sm_state sm))))) d)"


section \<open>Optimistic concurrency\<close>

lemma digest_nonempty [simp]: "hex_EncodeToString (sha256_Sum256 s) \<noteq> []"
  using length_digest[of s] by (metis list.size(3) zero_neq_numeral)

lemma contentHash_nonempty: "contentHash env s = Inr h \<Longrightarrow> h \<noteq> []"
  by (auto simp: contentHash_def rbind_Inr_iff)

lemma contentHash_length: "contentHash env s = Inr h \<Longrightarrow> length h = 64"
  by (auto simp: contentHash_def rbind_Inr_iff length_digest)

text \<open>What the manager relies on: a file it wrote is read back with the hash and the version that were written.\<close>

abbreviation yaml_keeps :: "('c, 'x) store_env \<Rightarrow> bool" where
  "yaml_keeps env \<equiv> \<forall>s b base. en_marshal env s = Inr b \<longrightarrow> (\<exists>s'. en_unmarshal env b base = Inr s' \<and>
     (st_Hash s \<noteq> [] \<longrightarrow> st_Hash s' = st_Hash s) \<and>
     pi_Version (sr_Provisioner (st_Record s')) = pi_Version (sr_Provisioner (st_Record s)))"

lemma diskHash_written:
  assumes "yaml_keeps env" "en_marshal env s = Inr b" "st_Hash s \<noteq> []"
  shows "diskHash env b = Inr (st_Hash s)"
proof -
  obtain s' where "en_unmarshal env b (zero_state env) = Inr s'" "st_Hash s' = st_Hash s" using assms by blast
  with assms(3) show ?thesis by (simp add: diskHash_def storedHash_def)
qed

lemma flushState_Inr:
  assumes "flushState env m d = (Inr (), m', d')"
  obtains h b where "contentHash env (sm_state m) = Inr h"
    "en_marshal env ((sm_state m)\<lparr>st_Hash := h, st_HashAlgo := ''sha256'', st_LastSync := en_now env\<rparr>) = Inr b"
    "check_baseline env d (st_StateFile (sm_state m)) (sm_lastStateHash m) = Inr ()"
    "m' = m\<lparr>sm_state := (sm_state m)\<lparr>st_Hash := h, st_HashAlgo := ''sha256'', st_LastSync := en_now env\<rparr>, sm_lastStateHash := h\<rparr>"
    "d' = d(st_StateFile (sm_state m) \<mapsto> b)"
  using assms by (auto simp: flushState_def Let_def split: sum.splits if_splits)

lemma check_baseline_Inr:
  "check_baseline env d path h = Inr () \<Longrightarrow> d path = None \<or> (\<exists>b. d path = Some b \<and> h \<noteq> [] \<and> diskHash env b = Inr h)"
  by (auto simp: check_baseline_def rbind_Inr_iff split: option.splits if_splits)

lemma flushState_Inl: "check_baseline env d (st_StateFile (sm_state m)) (sm_lastStateHash m) \<noteq> Inr () \<Longrightarrow> \<exists>e. flushState env m d = (Inl e, m, d)"
  by (auto simp: flushState_def Let_def split: sum.splits)

text \<open>
  C8: no update of the state file is lost. A flush that succeeds found no file or one whose hash is the baseline that the manager
  read before, and it changes that file only; afterwards any manager of the same file whose baseline is another one, because it read
  the file before this flush, fails to flush and leaves the file and its own state alone, while the manager that flushed can go on.
  The hypothesis is that YAML gives back the hash it wrote.
\<close>
theorem flush_no_lost_update:
  assumes yaml: "yaml_keeps env" and flush: "flushState env m d = (Inr (), m', d')"
  shows "(d (st_StateFile (sm_state m)) = None \<or>
      (\<exists>b. d (st_StateFile (sm_state m)) = Some b \<and> diskHash env b = Inr (sm_lastStateHash m))) \<and>
    (\<forall>f. f \<noteq> st_StateFile (sm_state m) \<longrightarrow> d' f = d f) \<and>
    (\<forall>m2. st_StateFile (sm_state m2) = st_StateFile (sm_state m) \<and> sm_lastStateHash m2 \<noteq> sm_lastStateHash m' \<longrightarrow>
      (\<exists>e. flushState env m2 d' = (Inl e, m2, d'))) \<and>
    (\<not> en_fails env OpStatState \<and> \<not> en_fails env OpReadBeforeFlush \<longrightarrow>
      check_baseline env d' (st_StateFile (sm_state m')) (sm_lastStateHash m') = Inr ())"
proof -
  let ?p = "st_StateFile (sm_state m)"
  from flushState_Inr[OF flush] obtain h b where h: "contentHash env (sm_state m) = Inr h"
    "en_marshal env ((sm_state m)\<lparr>st_Hash := h, st_HashAlgo := ''sha256'', st_LastSync := en_now env\<rparr>) = Inr b"
    "check_baseline env d ?p (sm_lastStateHash m) = Inr ()"
    "m' = m\<lparr>sm_state := (sm_state m)\<lparr>st_Hash := h, st_HashAlgo := ''sha256'', st_LastSync := en_now env\<rparr>, sm_lastStateHash := h\<rparr>"
    "d' = d(?p \<mapsto> b)" .
  have ne: "h \<noteq> []" by (rule contentHash_nonempty[OF h(1)])
  have disk: "diskHash env b = Inr h" using diskHash_written[OF yaml h(2)] ne by simp
  have other: "\<exists>e. flushState env m2 d' = (Inl e, m2, d')" if "st_StateFile (sm_state m2) = ?p" "sm_lastStateHash m2 \<noteq> h" for m2
    using that disk h(5) by (intro flushState_Inl) (auto dest!: check_baseline_Inr)
  have own: "check_baseline env d' ?p h = Inr ()" if "\<not> en_fails env OpStatState" "\<not> en_fails env OpReadBeforeFlush"
    using that disk ne h(5) by (simp add: check_baseline_def)
  show ?thesis using check_baseline_Inr[OF h(3)] other own h(4,5) by auto
qed

text \<open>A store whose files hold the hash and the version.\<close>

definition enc_file :: "string \<Rightarrow> string \<Rightarrow> string" where
  "enc_file h v = concat (map (\<lambda>c. [CHR ''h'', c]) h) @ CHR ''v'' # v"

fun dec_file :: "string \<Rightarrow> string \<times> string" where
  "dec_file [] = ([], [])"
| "dec_file (t # r) = (if t = CHR ''h'' then (case r of [] \<Rightarrow> ([], []) | c # r' \<Rightarrow> (case dec_file r' of (h, v) \<Rightarrow> (c # h, v))) else ([], r))"

lemma dec_enc [simp]: "dec_file (enc_file h v) = (h, v)"
  by (induction h) (simp_all add: enc_file_def)

definition demo_store :: "(unit, unit) store_env" where
  "demo_store = \<lparr>en_json = (\<lambda>_. Inr JNull), en_marshal = (\<lambda>s. Inr (enc_file (st_Hash s) (pi_Version (sr_Provisioner (st_Record s))))),
     en_unmarshal = (\<lambda>b base. case dec_file b of (h, v) \<Rightarrow> Inr (set_version v (base\<lparr>st_Hash := h\<rparr>))), en_marshal_action = (\<lambda>_. Inr []),
     en_now = Some 1, en_fails = (\<lambda>_. False), en_info = \<lparr>pi_Version = ''0.20.0'', pi_Commit = [], pi_GoVersion = [], pi_Executable = []\<rparr>,
     en_stateDir = ''/s'', en_zeroCluster = (), en_zeroAction = \<lparr>ah_Action = [], ah_Target = [], ah_Inputs = (), ah_Timestamp = None\<rparr>\<rparr>"

lemma demo_store_yaml: "yaml_keeps demo_store"
  by (auto simp: demo_store_def set_version_def)

lemma demo_path: "path_Join [''/s'', ''state.yaml''] = ''/s/state.yaml''"
  by code_simp

definition demo_manager :: "string \<Rightarrow> (unit, unit) state_manager" where
  "demo_manager h = \<lparr>sm_state = NewState demo_store [], sm_actions = [], sm_lastStateHash = h\<rparr>"

theorem flush_no_lost_update_witness:
  "\<exists>m' d'. flushState demo_store (demo_manager []) Map.empty = (Inr (), m', d') \<and>
     (\<exists>e. flushState demo_store (demo_manager ''old'') d' = (Inl e, demo_manager ''old'', d'))"
proof -
  obtain m' d' where f: "flushState demo_store (demo_manager []) Map.empty = (Inr (), m', d')"
    by (simp add: flushState_def demo_manager_def demo_store_def contentHash_def canonicalJSON_def check_baseline_def Let_def)
  from flushState_Inr[OF f] obtain h b where h: "contentHash demo_store (sm_state (demo_manager [])) = Inr h"
    and m': "m' = (demo_manager [])\<lparr>sm_state := (sm_state (demo_manager []))\<lparr>st_Hash := h, st_HashAlgo := ''sha256'', st_LastSync := en_now demo_store\<rparr>,
      sm_lastStateHash := h\<rparr>" .
  have "length h = 64" using contentHash_length[OF h] .
  then have "sm_lastStateHash (demo_manager ''old'') \<noteq> sm_lastStateHash m'" unfolding m' by (auto simp: demo_manager_def)
  moreover have "st_StateFile (sm_state (demo_manager ''old'')) = st_StateFile (sm_state (demo_manager []))" by (simp add: demo_manager_def)
  ultimately have "\<exists>e. flushState demo_store (demo_manager ''old'') d' = (Inl e, demo_manager ''old'', d')"
    using flush_no_lost_update[OF demo_store_yaml f] by blast
  with f show ?thesis by blast
qed

section \<open>Recording the version\<close>

text \<open>
  When \<open>PersistProvisionerVersion\<close> succeeds on a host that has a state file, the file holds the running version, and of the
  record that was read only the version and the last action differ; the file written is the one named in the state that was read,
  and nothing else on disk changes.
\<close>
lemma persist_records_version:
  assumes yaml: "yaml_keeps env" and run: "PersistProvisionerVersion env d = (Inr (), d')"
    and stored: "d (path_Join [en_stateDir env, StateFileName]) = Some b0"
  shows "\<exists>s0 s1 b1. en_unmarshal env b0 (State_Clone (NewState env [])) = Inr s0 \<and> en_marshal env s1 = Inr b1 \<and>
     d' = d(st_StateFile s0 \<mapsto> b1) \<and>
     st_Record s1 = st_Record (set_version (pi_Version (en_info env)) s0)\<lparr>sr_LastAction := en_zeroAction env\<rparr> \<and>
     (\<forall>base. \<exists>s. en_unmarshal env b1 base = Inr s \<and> pi_Version (sr_Provisioner (st_Record s)) = pi_Version (en_info env))"
proof -
  let ?m0 = "\<lparr>sm_state = NewState env [], sm_actions = [], sm_lastStateHash = []\<rparr>"
  let ?v = "pi_Version (en_info env)"
  from run obtain m1 m2 where r: "Refresh env d ?m0 = (Inr (), m1)"
    and f: "flushState env (m1\<lparr>sm_state := set_version ?v (sm_state m1)\<rparr>) d = (Inr (), m2, d')"
    by (auto simp: PersistProvisionerVersion_def NewStateManager_def split: if_splits prod.splits sum.splits)
  from r stored obtain s0 where s0: "en_unmarshal env b0 (State_Clone (NewState env [])) = Inr s0"
    and m1: "sm_state m1 = (set_version ?v s0)\<lparr>st_Record := st_Record (set_version ?v s0)\<lparr>sr_LastAction := en_zeroAction env\<rparr>\<rparr>"
    by (auto simp: Refresh_def NewState_def Let_def split: if_splits sum.splits)
  let ?s = "set_version ?v (sm_state m1)"
  have path: "st_StateFile ?s = st_StateFile s0" by (simp add: m1 set_version_def)
  have rec: "st_Record ?s = st_Record (set_version ?v s0)\<lparr>sr_LastAction := en_zeroAction env\<rparr>" by (simp add: m1 set_version_def)
  have sm: "sm_state (m1\<lparr>sm_state := ?s\<rparr>) = ?s" by simp
  obtain h b1 where b1:
    "en_marshal env (?s\<lparr>st_Hash := h, st_HashAlgo := ''sha256'', st_LastSync := en_now env\<rparr>) = Inr b1" "d' = d(st_StateFile ?s \<mapsto> b1)"
    using flushState_Inr[OF f, unfolded sm] by metis
  let ?s1 = "?s\<lparr>st_Hash := h, st_HashAlgo := ''sha256'', st_LastSync := en_now env\<rparr>"
  have v: "pi_Version (sr_Provisioner (st_Record ?s1)) = ?v" by (simp add: m1 set_version_def)
  have "\<exists>s. en_unmarshal env b1 base = Inr s \<and> pi_Version (sr_Provisioner (st_Record s)) = ?v" for base
    using yaml[rule_format, OF b1(1), of base] v by auto
  with s0 b1 path rec show ?thesis by (intro exI[of _ s0] exI[of _ ?s1] exI[of _ b1]) simp
qed

section \<open>The startup pass runs a migration once\<close>

text \<open>
  The startup pass on a host whose state is the disk and the rest of the system: the state file is read at its standard path, and
  the version is recorded by \<open>PersistProvisionerVersion\<close>.
\<close>

definition startup_host :: "('c, 'x) store_env \<Rightarrow> (disk \<times> 'h) startup_env \<Rightarrow> (disk \<times> 'h) startup_env" where
  "startup_host st env = env\<lparr>
     su_ReadFile := (\<lambda>(d, _). if en_fails st OpReadState then FileFailed
       else case d (path_Join [en_stateDir st, StateFileName]) of None \<Rightarrow> FileMissing | Some b \<Rightarrow> FileBytes b),
     su_Persist := (\<lambda>(d, h). case PersistProvisionerVersion st d of (r, d') \<Rightarrow> (r, (d', h))),
     su_Version := pi_Version (en_info st)\<rparr>"

lemma startup_host_simps [simp]:
  "su_Version (startup_host st env) = pi_Version (en_info st)" "su_NewBag (startup_host st env) = su_NewBag env"
  "su_ParseVersion (startup_host st env) = su_ParseVersion env"
  "su_KubernetesInstalled (startup_host st env) = su_KubernetesInstalled env"
  "su_Persist (startup_host st env) (d, h) = (case PersistProvisionerVersion st d of (r, d') \<Rightarrow> (r, (d', h)))"
  by (simp_all add: startup_host_def)

lemma flushState_fails: "flushState env m d = (Inl e, m', d') \<Longrightarrow> d' = d"
  by (auto simp: flushState_def Let_def split: sum.splits if_splits)

lemma persist_fails: "PersistProvisionerVersion env d = (Inl e, d') \<Longrightarrow> d' = d"
  by (auto simp: PersistProvisionerVersion_def dest: flushState_fails split: sum.splits prod.splits)

text \<open>On a host without a state file one is written at the standard path.\<close>

lemma persist_creates:
  assumes yaml: "yaml_keeps env" and run: "PersistProvisionerVersion env d = (Inr (), d')"
    and missing: "d (path_Join [en_stateDir env, StateFileName]) = None"
  shows "\<exists>b. d' = d(path_Join [en_stateDir env, StateFileName] \<mapsto> b) \<and>
     (\<forall>base. \<exists>s. en_unmarshal env b base = Inr s \<and> pi_Version (sr_Provisioner (st_Record s)) = pi_Version (en_info env))"
proof -
  let ?m = "\<lparr>sm_state = set_version (pi_Version (en_info env)) (NewState env []), sm_actions = [], sm_lastStateHash = []\<rparr>"
  from run missing obtain m2 where f: "flushState env ?m d = (Inr (), m2, d')"
    by (auto simp: PersistProvisionerVersion_def NewStateManager_def Refresh_def NewState_def split: if_splits prod.splits sum.splits)
  from flushState_Inr[OF f] obtain h b where
    b: "en_marshal env ((sm_state ?m)\<lparr>st_Hash := h, st_HashAlgo := ''sha256'', st_LastSync := en_now env\<rparr>) = Inr b"
    "d' = d(st_StateFile (sm_state ?m) \<mapsto> b)" by metis
  have v: "pi_Version (sr_Provisioner (st_Record ((sm_state ?m)\<lparr>st_Hash := h, st_HashAlgo := ''sha256'', st_LastSync := en_now env\<rparr>))) =
    pi_Version (en_info env)" by (simp add: set_version_def)
  have "\<exists>s. en_unmarshal env b base = Inr s \<and> pi_Version (sr_Provisioner (st_Record s)) = pi_Version (en_info env)" for base
    using yaml[rule_format, OF b(1), of base] v by auto
  with b(2) show ?thesis by (intro exI[of _ b]) (simp add: set_version_def NewState_def)
qed

text \<open>The small document decoder reads the version of a file whose version does not depend on what it is decoded into.\<close>

abbreviation parses_version :: "('c, 'x) store_env \<Rightarrow> 's startup_env \<Rightarrow> bool" where
  "parses_version st env \<equiv> \<forall>b v. (\<forall>base. \<exists>s. en_unmarshal st b base = Inr s \<and> pi_Version (sr_Provisioner (st_Record s)) = v) \<longrightarrow>
     su_ParseVersion env b = Inr v"

text \<open>The state file, if there is one, names its own path.\<close>

abbreviation names_itself :: "('c, 'x) store_env \<Rightarrow> disk \<Rightarrow> bool" where
  "names_itself st d \<equiv> \<forall>b s. d (path_Join [en_stateDir st, StateFileName]) = Some b \<and>
     en_unmarshal st b (State_Clone (NewState st [])) = Inr s \<longrightarrow> st_StateFile s = path_Join [en_stateDir st, StateFileName]"

lemma persist_read_back:
  assumes "yaml_keeps st" "parses_version st env" "names_itself st d" "PersistProvisionerVersion st d = (Inr (), d')"
  shows "ReadProvisionerVersionFromDisk (startup_host st env) (d', h) = Inr (pi_Version (en_info st))"
proof -
  have fs: "\<not> en_fails st OpReadState"
    using assms(4) by (auto simp: PersistProvisionerVersion_def Refresh_def split: sum.splits if_splits)
  have "\<exists>b. d' (path_Join [en_stateDir st, StateFileName]) = Some b \<and>
     (\<forall>base. \<exists>s. en_unmarshal st b base = Inr s \<and> pi_Version (sr_Provisioner (st_Record s)) = pi_Version (en_info st))"
  proof (cases "d (path_Join [en_stateDir st, StateFileName])")
    case None
    with persist_creates[OF assms(1,4)] show ?thesis by auto
  next
    case (Some b0)
    with persist_records_version[OF assms(1,4) Some] assms(3) show ?thesis by (metis fun_upd_same)
  qed
  with fs assms(2) show ?thesis
    by (auto simp: ReadProvisionerVersionFromDisk_def readStateFileBytes_def startup_host_def)
qed


text \<open>A host whose other state is the number of executed migrations.\<close>

definition demo_startup :: "(disk \<times> nat) startup_env" where
  "demo_startup = \<lparr>su_ReadFile = (\<lambda>_. FileMissing), su_ParseVersion = (\<lambda>b. Inr (snd (dec_file b))),
     su_NewBag = (\<lambda>kvs. plain_bag kvs None), su_Build = (\<lambda>_. Inr ()),
     su_Execute = (\<lambda>wf (d, n). (Inr (), (d, n + length (wf_Steps wf) - 1))), su_KubernetesInstalled = (\<lambda>_. True),
     su_Persist = sret (), su_Version = []\<rparr>"

definition demo_migration :: "(disk \<times> nat) migration" where
  "demo_migration = \<lparr>mg_ID = ''a'', mg_Description = [],
     mg_Applies = (\<lambda>c s. CLIVersionMigration_Applies (NewVersionMigration ''a'' [] ''0.19.1'') c),
     mg_Execute = (\<lambda>_. sret ()), mg_Rollback = (\<lambda>_. sret ())\<rparr>"

definition demo_registry :: "(disk \<times> nat) mig_registry" where
  "demo_registry = Register ScopeStartup demo_migration ClearRegistry"

lemma demo_gated: "\<forall>m \<in> set (demo_registry ScopeStartup). cli_gated m"
proof -
  have "is_ok (NewSemver ''0.19.1'')" by code_simp
  then show ?thesis by (auto simp: demo_registry_def demo_migration_def Register_def ClearRegistry_def NewVersionMigration_def)
qed

lemma demo_persist: "\<exists>d'. PersistProvisionerVersion demo_store Map.empty = (Inr (), d')"
  by (simp add: PersistProvisionerVersion_def NewStateManager_def Refresh_def flushState_def demo_store_def contentHash_def canonicalJSON_def
    check_baseline_def Let_def)

lemma demo_first_pass:
  "after_migrations (startup_host demo_store demo_startup) demo_registry [] (Map.empty, 0) = (Map.empty, 1)"
  "ReadProvisionerVersionFromDisk (startup_host demo_store demo_startup) (Map.empty, 0) = Inr []"
  "GetApplicableMigrations demo_registry ScopeStartup (Some (startup_context (startup_host demo_store demo_startup) [])) (Map.empty, 0) =
     Some (Inr [demo_migration])"
proof -
  let ?E = "startup_host demo_store demo_startup"
  have "CLIVersionMigration_Applies (NewVersionMigration ''a'' [] ''0.19.1'') (startup_context ?E []) = Some (Inr True)" by code_simp
  then show a: "GetApplicableMigrations demo_registry ScopeStartup (Some (startup_context ?E [])) (Map.empty, 0) = Some (Inr [demo_migration])"
    by (simp add: GetApplicableMigrations_def demo_registry_def Register_def ClearRegistry_def demo_migration_def obind_def)
  show "after_migrations ?E demo_registry [] (Map.empty, 0) = (Map.empty, 1)"
    by (simp add: after_migrations_def a MigrationsToWorkflow_def) (simp add: startup_host_def demo_startup_def)
  show "ReadProvisionerVersionFromDisk ?E (Map.empty, 0) = Inr []"
    by (simp add: ReadProvisionerVersionFromDisk_def readStateFileBytes_def startup_host_def demo_store_def)
qed


section \<open>Divergences\<close>

text \<open>A copy of a state has lost its firewall and Teleport sections.\<close>

lemma clone_drops:
  "ms_Firewall (sr_Machine (st_Record (State_Clone s))) = None" "sr_Teleport (st_Record (State_Clone s)) = zero_teleport"
  by (simp_all add: State_Clone_def MachineState_Clone_def)

text \<open>
  A file without a hash leaves the hash of the copy it is decoded into, so that a manager that already holds a state takes its old
  hash as the baseline instead of the content's, and its next flush is refused although nobody else wrote the file.
\<close>

lemma refresh_stale_baseline:
  assumes "\<not> en_fails env OpReadState" "d (st_StateFile (sm_state m)) = Some b" "st_Hash (sm_state m) \<noteq> []"
    "en_unmarshal env b (State_Clone (sm_state m)) = Inr s" "st_Hash s = st_Hash (State_Clone (sm_state m))"
  shows "\<exists>m'. Refresh env d m = (Inr (), m') \<and> sm_lastStateHash m' = st_Hash (sm_state m)"
proof -
  have "st_Hash s = st_Hash (sm_state m)" using assms(5) by (simp add: State_Clone_def)
  with assms show ?thesis by (simp add: Refresh_def storedHash_def Let_def)
qed

text \<open>
  The consolidation of the legacy files never reads the state file, so it cannot replace an existing one: the flush has no baseline.
  Its rollback works on a new, empty state and restores nothing.
\<close>

lemma absorb_file_path: "absorb_file env d f s = Inr s' \<Longrightarrow> st_StateFile s' = st_StateFile s"
  by (auto simp: absorb_file_def SetSoftwareState_def Let_def split: option.splits if_splits)

lemma absorb_files_path: "absorb_files env d fs s = Inr s' \<Longrightarrow> st_StateFile s' = st_StateFile s"
  by (induction fs arbitrary: s) (auto simp: rbind_Inr_iff dest: absorb_file_path)



lemma unified_rollback_restores_nothing:
  "\<not> en_fails env OpNewFS \<Longrightarrow> UnifiedState_Rollback env d = (Inr (), d)"
  by (simp add: UnifiedState_Rollback_def NewStateManager_def NewState_def NewMachineState_def map_entries_def)

lemma label_with_empty_value:
  "same_entries [(''a'', [])] [(''b'', ''x'')]" "\<not> same_entries [(''b'', ''x'')] [(''a'', [])]"
  by (simp_all add: same_entries_def)

lemma machine_equal_ignores:
  "MachineState_Equal m (m\<lparr>ms_Profile := p, ms_Firewall := f, ms_LastSync := t\<rparr>) = MachineState_Equal m m"
  by (simp add: MachineState_Equal_def)

text \<open>A component whose name has a dot is recorded under the part before the dot, and as neither installed nor configured.\<close>

lemma dotted_component:
  assumes "\<not> en_fails env OpReadLegacy" "d (legacy_path env ''k8s.io.installed'') = Some c"
  shows "\<exists>s'. absorb_file env d ''k8s.io.installed'' (NewState env p) = Inr s' \<and> \<not> sw_Installed (GetSoftwareState s' ''k8s'') \<and>
    \<not> sw_Installed (GetSoftwareState s' ''k8s.io'')"
  using assms
  by (simp add: absorb_file_def cut_byte_def Let_def SetSoftwareState_def GetSoftwareState_def NewState_def NewMachineState_def)

end
