(* ===== verification/UpgradeMonitor.thy ===== *)
theory UpgradeMonitor
  imports GoStd
begin

text \<open>
  The upgrade monitor of the daemon (\<open>internal/daemon/consensus/upgrade_monitor.go\<close>) and the phases it shares with the reconciler
  (\<open>internal/consensus/phase.go\<close>). The monitor lists and watches custom resources and starts one goroutine per accepted operation.
  A critical section under \<open>mu\<close> is one atomic piece; the step relation at the end interleaves the pieces of the watch loop with the
  goroutines. The Kubernetes client is a parameter: a resource carries what the code reads of it, and \<open>handleExecute\<close>, a stub in
  the source, ends in any of its three ways.
\<close>

section \<open>Phases\<close>

definition PhasePending :: string where "PhasePending = ''Pending''"
definition PhaseReadyForProvisionerDaemon :: string where "PhaseReadyForProvisionerDaemon = ''ReadyForProvisionerDaemon''"
definition PhasePendingInfraUpgrade :: string where "PhasePendingInfraUpgrade = ''PendingInfraUpgrade''"
definition PhasePendingNodeUpgrade :: string where "PhasePendingNodeUpgrade = ''PendingNodeUpgrade''"
definition PhaseSucceeded :: string where "PhaseSucceeded = ''Succeeded''"
definition PhaseFailed :: string where "PhaseFailed = ''Failed''"

definition IsTerminal :: "string \<Rightarrow> bool" where
  "IsTerminal p \<longleftrightarrow> p = PhaseSucceeded \<or> p = PhaseFailed"

definition IsDaemonWritable :: "string \<Rightarrow> bool" where
  "IsDaemonWritable p \<longleftrightarrow> p = PhasePendingInfraUpgrade \<or> p = PhasePendingNodeUpgrade"

lemmas phase_defs = PhasePending_def PhaseReadyForProvisionerDaemon_def PhasePendingInfraUpgrade_def PhasePendingNodeUpgrade_def
  PhaseSucceeded_def PhaseFailed_def

text \<open>The daemon and the reconciler never write the same phase, and the phase that triggers an execution is none of theirs to end it.\<close>

lemma phase_owners:
  "\<not> (IsTerminal p \<and> IsDaemonWritable p)" "\<not> IsTerminal PhaseReadyForProvisionerDaemon" "\<not> IsDaemonWritable PhaseReadyForProvisionerDaemon"
  by (auto simp: IsTerminal_def IsDaemonWritable_def phase_defs)

section \<open>The monitor\<close>

record upgrade_cr =
  cr_phase :: string
  cr_operationId :: string
  cr_created :: nat

record upgrade_monitor =
  um_activeOpID :: string
  um_completedOpIDs :: "string list"

definition NewUpgradeMonitor :: upgrade_monitor where
  "NewUpgradeMonitor = \<lparr>um_activeOpID = [], um_completedOpIDs = []\<rparr>"

text \<open>The second component is the operation whose goroutine is started.\<close>

definition handleEvent :: "upgrade_cr \<Rightarrow> upgrade_monitor \<Rightarrow> upgrade_monitor \<times> string option" where
  "handleEvent cr um =
     (let operationID = cr_operationId cr in
      if cr_phase cr \<noteq> PhaseReadyForProvisionerDaemon then (um, None)
      else if operationID = [] then (um, None)
      else if operationID \<in> set (um_completedOpIDs um) then (um, None)
      else if um_activeOpID um \<noteq> [] then (um, None)
      else (um\<lparr>um_activeOpID := operationID\<rparr>, Some operationID))"

datatype exec_outcome = ExecOk | ExecErr | ExecPanic

text \<open>The deferred function of the goroutine. A panic of \<open>handleExecute\<close> leaves \<open>execErr\<close> nil.\<close>

definition finish_execute :: "string \<Rightarrow> exec_outcome \<Rightarrow> upgrade_monitor \<Rightarrow> upgrade_monitor" where
  "finish_execute operationID out um =
     (let um1 = (if um_activeOpID um = operationID then um\<lparr>um_activeOpID := []\<rparr> else um)
      in if out \<noteq> ExecErr then um1\<lparr>um_completedOpIDs := List.insert operationID (um_completedOpIDs um1)\<rparr> else um1)"

definition seed_completed :: "upgrade_cr list \<Rightarrow> upgrade_monitor \<Rightarrow> upgrade_monitor" where
  "seed_completed items um =
     um\<lparr>um_completedOpIDs := fold (\<lambda>cr done. if cr_operationId cr \<noteq> [] \<and> IsTerminal (cr_phase cr) then List.insert (cr_operationId cr) done else done)
       items (um_completedOpIDs um)\<rparr>"

definition pending_crs :: "upgrade_cr list \<Rightarrow> upgrade_cr list" where
  "pending_crs items = sort_by (\<lambda>a b. cr_created a < cr_created b) (filter (\<lambda>cr. cr_phase cr = PhaseReadyForProvisionerDaemon) items)"

fun handle_events :: "upgrade_cr list \<Rightarrow> upgrade_monitor \<Rightarrow> upgrade_monitor \<times> string list" where
  "handle_events [] um = (um, [])"
| "handle_events (cr # crs) um =
     (case handleEvent cr um of (um1, started) \<Rightarrow>
      case handle_events crs um1 of (um2, rest) \<Rightarrow> (um2, (case started of None \<Rightarrow> [] | Some op \<Rightarrow> [op]) @ rest))"

definition listAndSeed :: "upgrade_cr list result \<Rightarrow> upgrade_monitor \<Rightarrow> unit result \<times> upgrade_monitor \<times> string list" where
  "listAndSeed lst um = (case lst of
     Inl e \<Rightarrow> (Inl (wrap ExternalError ''list NetworkUpgradeExecute'' e), um, [])
   | Inr items \<Rightarrow> (Inr (), handle_events (pending_crs items) (seed_completed items um)))"

datatype watch_event = Added | Modified | Deleted | Bookmark | WatchError err

text \<open>
  One watch cycle over the events that arrive before the channel is closed; \<open>None\<close> stands for an object that is no custom resource.
\<close>

fun runWatch :: "(watch_event \<times> upgrade_cr option) list \<Rightarrow> upgrade_monitor \<Rightarrow> unit result \<times> upgrade_monitor \<times> string list" where
  "runWatch [] um = (Inr (), um, [])"
| "runWatch ((ev, obj) # evs) um =
     (case ev of
        WatchError e \<Rightarrow> (Inl (wrap ExternalError ''watch error event'' e), um, [])
      | _ \<Rightarrow>
          if ev \<noteq> Added \<and> ev \<noteq> Modified then runWatch evs um
          else (case obj of
             None \<Rightarrow> runWatch evs um
           | Some cr \<Rightarrow>
               (case handleEvent cr um of (um1, started) \<Rightarrow>
                case runWatch evs um1 of (r, um2, rest) \<Rightarrow> (r, um2, (case started of None \<Rightarrow> [] | Some op \<Rightarrow> [op]) @ rest))))"

section \<open>The retry loop\<close>

text \<open>Durations are nanoseconds. The doubling is exact in \<open>float64\<close> for every value that occurs.\<close>

definition backoffInitial :: nat where "backoffInitial = 2 * 10 ^ 9"
definition backoffMax :: nat where "backoffMax = 5 * 60 * 10 ^ 9"

definition minDuration :: "nat \<Rightarrow> nat \<Rightarrow> nat" where
  "minDuration a b = (if a < b then a else b)"

record conn_error =
  ce_Reason :: string
  ce_Since :: nat

definition setConnectivityError :: "nat \<Rightarrow> string \<Rightarrow> conn_error option \<Rightarrow> conn_error option" where
  "setConnectivityError now reason prev =
     Some \<lparr>ce_Reason = reason, ce_Since = (case prev of None \<Rightarrow> now | Some p \<Rightarrow> ce_Since p)\<rparr>"

record 'k run_loop =
  rl_backoff :: nat
  rl_conn :: "conn_error option"
  rl_client :: 'k

datatype cycle_end = ListFailed | WatchClosed | WatchAuthError | WatchFailed

text \<open>One iteration that is not cancelled: the new loop state and the time slept. \<open>rebuilt\<close> is the client built after an authentication error.\<close>

definition run_iteration :: "nat \<Rightarrow> 'k option \<Rightarrow> cycle_end \<Rightarrow> 'k run_loop \<Rightarrow> 'k run_loop \<times> nat" where
  "run_iteration now rebuilt r l =
     (let grown = minDuration (rl_backoff l * 2) backoffMax in
      case r of
        ListFailed \<Rightarrow> (l\<lparr>rl_conn := setConnectivityError now ''UpgradeMonitorListError'' (rl_conn l), rl_backoff := grown\<rparr>, rl_backoff l)
      | WatchClosed \<Rightarrow> (l\<lparr>rl_conn := None, rl_backoff := backoffInitial\<rparr>, backoffInitial)
      | WatchAuthError \<Rightarrow>
          (l\<lparr>rl_conn := setConnectivityError now ''UpgradeMonitorAuthError'' None,
             rl_client := (case rebuilt of None \<Rightarrow> rl_client l | Some k \<Rightarrow> k), rl_backoff := grown\<rparr>, rl_backoff l)
      | WatchFailed \<Rightarrow> (l\<lparr>rl_conn := setConnectivityError now ''UpgradeMonitorWatchError'' None, rl_backoff := grown\<rparr>, rl_backoff l))"

fun run_iterations :: "(nat \<times> 'k option \<times> cycle_end) list \<Rightarrow> 'k run_loop \<Rightarrow> 'k run_loop \<times> nat list" where
  "run_iterations [] l = (l, [])"
| "run_iterations ((now, k, r) # rs) l =
     (case run_iteration now k r l of (l1, d) \<Rightarrow> case run_iterations rs l1 of (l2, ds) \<Rightarrow> (l2, d # ds))"

section \<open>Lists\<close>

lemma seed_completed_set:
  "set (um_completedOpIDs (seed_completed items um)) =
     set (um_completedOpIDs um) \<union> {cr_operationId cr | cr. cr \<in> set items \<and> cr_operationId cr \<noteq> [] \<and> IsTerminal (cr_phase cr)}"
proof -
  have "set (fold (\<lambda>cr done. if cr_operationId cr \<noteq> [] \<and> IsTerminal (cr_phase cr) then List.insert (cr_operationId cr) done else done) items d) =
     set d \<union> {cr_operationId cr | cr. cr \<in> set items \<and> cr_operationId cr \<noteq> [] \<and> IsTerminal (cr_phase cr)}" for d
    by (induction items arbitrary: d) auto
  then show ?thesis by (simp add: seed_completed_def)
qed

lemma seed_completed_active [simp]: "um_activeOpID (seed_completed items um) = um_activeOpID um"
  by (simp add: seed_completed_def)

lemma handle_events_busy: "um_activeOpID um \<noteq> [] \<Longrightarrow> handle_events crs um = (um, [])"
  by (induction crs) (simp_all add: handleEvent_def Let_def)

definition startable :: "string list \<Rightarrow> upgrade_cr \<Rightarrow> bool" where
  "startable done cr \<longleftrightarrow> cr_phase cr = PhaseReadyForProvisionerDaemon \<and> cr_operationId cr \<noteq> [] \<and> cr_operationId cr \<notin> set done"

lemma handle_events_first:
  "um_activeOpID um = [] \<Longrightarrow> handle_events crs um = (case find (startable (um_completedOpIDs um)) crs of
     None \<Rightarrow> (um, []) | Some cr \<Rightarrow> (um\<lparr>um_activeOpID := cr_operationId cr\<rparr>, [cr_operationId cr]))"
  by (induction crs) (auto simp: handleEvent_def Let_def startable_def handle_events_busy)

interpretation created: weak_less "\<lambda>a b. cr_created a < cr_created b"
  by unfold_locales auto

text \<open>
  A list on an idle monitor starts the operation that has waited longest among those that can be started, and no other; it starts
  none only if there is none.
\<close>

lemma find_sorted_least:
  assumes "find P (sort_by (\<lambda>a b. cr_created a < cr_created b) xs) = Some x" "y \<in> set xs" "P y"
  shows "cr_created x \<le> cr_created y"
proof -
  let ?s = "sort_by (\<lambda>a b. cr_created a < cr_created b) xs"
  have sorted: "sorted_by (\<lambda>a b. cr_created a < cr_created b) ?s" by (rule created.sorted_sort_by)
  from assms(1) obtain i where i: "i < length ?s" "P (?s ! i)" "x = ?s ! i" "\<forall>j<i. \<not> P (?s ! j)"
    by (auto simp: find_Some_iff)
  from assms(2) obtain j where j: "j < length ?s" "?s ! j = y" by (metis in_set_conv_nth set_sort_by)
  with i assms(3) have "i \<le> j" by (metis not_less)
  then show ?thesis
    using sorted i j by (cases "i = j") (auto simp: sorted_by_def sorted_wrt_iff_nth_less not_less)
qed

lemma listAndSeed_oldest_first:
  assumes idle: "um_activeOpID um = []" and run: "listAndSeed (Inr items) um = (Inr (), um', started)"
  defines "eligible \<equiv> filter (startable (um_completedOpIDs (seed_completed items um))) items"
  shows "if eligible = [] then started = [] else
    \<exists>cr \<in> set eligible. started = [cr_operationId cr] \<and> um_activeOpID um' = cr_operationId cr \<and> (\<forall>c \<in> set eligible. cr_created cr \<le> cr_created c)"
proof -
  let ?P = "startable (um_completedOpIDs (seed_completed items um))"
  let ?f = "find ?P (pending_crs items)"
  have mem: "y \<in> set (pending_crs items) \<longleftrightarrow> y \<in> set items \<and> cr_phase y = PhaseReadyForProvisionerDaemon" for y
    by (auto simp: pending_crs_def)
  have run': "(um', started) = (case ?f of None \<Rightarrow> (seed_completed items um, []) | Some cr \<Rightarrow>
      ((seed_completed items um)\<lparr>um_activeOpID := cr_operationId cr\<rparr>, [cr_operationId cr]))"
    using run idle by (auto simp: listAndSeed_def handle_events_first)
  show ?thesis
  proof (cases ?f)
    case None
    then have "eligible = []" by (auto simp: eligible_def find_None_iff mem startable_def filter_empty_conv)
    with None run' show ?thesis by simp
  next
    case (Some cr)
    then have "cr \<in> set (pending_crs items)" "?P cr" by (auto simp: find_Some_iff)
    then have cr: "cr \<in> set eligible" by (simp add: mem eligible_def)
    have "cr_created cr \<le> cr_created c" if "c \<in> set eligible" for c
      using that find_sorted_least[OF Some[unfolded pending_crs_def], of c] by (auto simp: eligible_def startable_def)
    with cr Some run' show ?thesis by auto
  qed
qed

section \<open>Back-off\<close>

lemma run_iteration_bounds:
  assumes "backoffInitial \<le> rl_backoff l" "rl_backoff l \<le> backoffMax" "run_iteration now k r l = (l', d)"
  shows "backoffInitial \<le> d \<and> d \<le> backoffMax \<and> backoffInitial \<le> rl_backoff l' \<and> rl_backoff l' \<le> backoffMax"
  using assms by (cases r) (auto simp: run_iteration_def Let_def minDuration_def backoffInitial_def backoffMax_def split: if_splits)

text \<open>The monitor never spins and never waits longer than five minutes between two attempts.\<close>

lemma run_delays_bounded:
  assumes "backoffInitial \<le> rl_backoff l" "rl_backoff l \<le> backoffMax" "run_iterations rs l = (l', ds)"
  shows "\<forall>d \<in> set ds. backoffInitial \<le> d \<and> d \<le> backoffMax"
  using assms
proof (induction rs arbitrary: l ds)
  case (Cons x rs)
  obtain now k r where x: "x = (now, k, r)" by (cases x) auto
  obtain l1 d where i: "run_iteration now k r l = (l1, d)" by (cases "run_iteration now k r l")
  obtain l2 ds' where rest: "run_iterations rs l1 = (l2, ds')" by (cases "run_iterations rs l1")
  note b = run_iteration_bounds[OF Cons.prems(1,2) i]
  from Cons.IH[of l1 ds'] Cons.prems(3) b show ?case by (auto simp: x i rest)
qed simp

text \<open>Consecutive failures double the delay up to the maximum.\<close>

lemma failures_double:
  assumes "\<forall>x \<in> set rs. snd (snd x) \<noteq> WatchClosed" "run_iterations rs l = (l', ds)" "rl_backoff l = backoffInitial" "n < length ds"
  shows "ds ! n = min (backoffInitial * 2 ^ n) backoffMax"
proof -
  have gen: "ds ! n = min (b * 2 ^ n) backoffMax"
    if "\<forall>x \<in> set rs. snd (snd x) \<noteq> WatchClosed" "run_iterations rs l = (l', ds)" "rl_backoff l = min b backoffMax" "n < length ds"
    for b and l :: "'a run_loop" and ds n
    using that
  proof (induction rs arbitrary: l ds n b)
    case (Cons x rs)
    obtain now k r where x: "x = (now, k, r)" by (cases x) auto
    obtain l1 d where i: "run_iteration now k r l = (l1, d)" by (cases "run_iteration now k r l")
    obtain l2 ds' where rest: "run_iterations rs l1 = (l2, ds')" by (cases "run_iterations rs l1")
    have d: "d = min b backoffMax" and l1: "rl_backoff l1 = min (b * 2) backoffMax"
      using i Cons.prems(1,3) by (cases r; auto simp: x run_iteration_def Let_def minDuration_def)+
    have ds: "ds = d # ds'" "l2 = l'" using Cons.prems(2) by (simp_all add: x i rest)
    show ?case
    proof (cases n)
      case (Suc k)
      with Cons.IH[of l1 ds' "b * 2" k] Cons.prems(1,4) rest l1 ds show ?thesis by (simp add: mult.assoc)
    qed (simp add: ds d)
  qed simp
  show ?thesis by (rule gen) (use assms in \<open>auto simp: backoffInitial_def backoffMax_def\<close>)
qed

section \<open>Interleaving\<close>

datatype exec_event = Started string | Ended string exec_outcome

record um_state =
  us_mon :: upgrade_monitor
  us_running :: "string list"
  us_log :: "exec_event list"

definition um_init :: um_state where
  "um_init = \<lparr>us_mon = NewUpgradeMonitor, us_running = [], us_log = []\<rparr>"

inductive um_step :: "um_state \<Rightarrow> um_state \<Rightarrow> bool" where
  seeded: "um_step s (s\<lparr>us_mon := seed_completed items (us_mon s)\<rparr>)"
| skipped: "handleEvent cr (us_mon s) = (m, None) \<Longrightarrow> um_step s (s\<lparr>us_mon := m\<rparr>)"
| started: "handleEvent cr (us_mon s) = (m, Some op) \<Longrightarrow>
    um_step s (s\<lparr>us_mon := m, us_running := op # us_running s, us_log := us_log s @ [Started op]\<rparr>)"
| ended: "op \<in> set (us_running s) \<Longrightarrow>
    um_step s (s\<lparr>us_mon := finish_execute op out (us_mon s), us_running := remove1 op (us_running s), us_log := us_log s @ [Ended op out]\<rparr>)"

text \<open>The log of a process in which executions never overlap; the first argument is the operation in flight.\<close>

fun one_at_a_time :: "string option \<Rightarrow> exec_event list \<Rightarrow> bool" where
  "one_at_a_time cur [] \<longleftrightarrow> True"
| "one_at_a_time cur (Started op # es) \<longleftrightarrow> cur = None \<and> one_at_a_time (Some op) es"
| "one_at_a_time cur (Ended op out # es) \<longleftrightarrow> cur = Some op \<and> one_at_a_time None es"

fun in_flight :: "string option \<Rightarrow> exec_event list \<Rightarrow> string option" where
  "in_flight cur [] = cur"
| "in_flight cur (Started op # es) = in_flight (Some op) es"
| "in_flight cur (Ended op out # es) = in_flight None es"

lemma one_at_a_time_append: "one_at_a_time cur (xs @ ys) \<longleftrightarrow> one_at_a_time cur xs \<and> one_at_a_time (in_flight cur xs) ys"
  by (induction cur xs rule: one_at_a_time.induct) auto

lemma in_flight_append: "in_flight cur (xs @ ys) = in_flight (in_flight cur xs) ys"
  by (induction cur xs rule: in_flight.induct) auto

definition finished :: "exec_event list \<Rightarrow> string \<Rightarrow> bool" where
  "finished log op \<longleftrightarrow> (\<exists>out. out \<noteq> ExecErr \<and> Ended op out \<in> set log)"

definition um_inv :: "um_state \<Rightarrow> bool" where
  "um_inv s \<longleftrightarrow> us_running s = (if um_activeOpID (us_mon s) = [] then [] else [um_activeOpID (us_mon s)]) \<and>
     one_at_a_time None (us_log s) \<and>
     in_flight None (us_log s) = (if um_activeOpID (us_mon s) = [] then None else Some (um_activeOpID (us_mon s))) \<and>
     (\<forall>op. finished (us_log s) op \<longrightarrow> op \<in> set (um_completedOpIDs (us_mon s))) \<and>
     (\<forall>xs op ys. us_log s = xs @ Started op # ys \<longrightarrow> \<not> finished xs op)"

lemma handleEvent_Some:
  "handleEvent cr um = (m, Some op) \<longleftrightarrow> cr_phase cr = PhaseReadyForProvisionerDaemon \<and> cr_operationId cr = op \<and> op \<noteq> [] \<and>
     op \<notin> set (um_completedOpIDs um) \<and> um_activeOpID um = [] \<and> m = um\<lparr>um_activeOpID := op\<rparr>"
  by (auto simp: handleEvent_def Let_def)

lemma handleEvent_None: "handleEvent cr um = (m, None) \<Longrightarrow> m = um"
  by (auto simp: handleEvent_def Let_def split: if_splits)

lemma finished_append: "finished (log @ [e]) op \<longleftrightarrow> finished log op \<or> (\<exists>out. out \<noteq> ExecErr \<and> e = Ended op out)"
  by (auto simp: finished_def)

lemma prefix_started:
  assumes "\<forall>xs op ys. log = xs @ Started op # ys \<longrightarrow> \<not> finished xs op" "\<forall>op. e = Started op \<longrightarrow> \<not> finished log op"
  shows "\<forall>xs op ys. log @ [e] = xs @ Started op # ys \<longrightarrow> \<not> finished xs op"
proof (intro allI impI)
  fix xs op ys assume eq: "log @ [e] = xs @ Started op # ys"
  show "\<not> finished xs op"
  proof (cases ys rule: rev_cases)
    case Nil with eq assms(2) show ?thesis by auto
  next
    case (snoc zs z) with eq assms(1) show ?thesis by auto
  qed
qed

lemma um_inv_step: "um_inv s \<Longrightarrow> um_step s s' \<Longrightarrow> um_inv s'"
proof (erule um_step.cases, goal_cases)
  case (1 s0 items)
  then show ?case by (auto simp: um_inv_def seed_completed_set)
next
  case (2 cr s0 m)
  then show ?case using handleEvent_None by fastforce
next
  case (3 cr s0 m op)
  then have m: "op \<noteq> []" "op \<notin> set (um_completedOpIDs (us_mon s))" "um_activeOpID (us_mon s) = []" "m = (us_mon s)\<lparr>um_activeOpID := op\<rparr>"
    by (auto simp: handleEvent_Some)
  have "\<not> finished (us_log s) op" using 3(1) m(2) by (auto simp: um_inv_def)
  then have "\<forall>xs o' ys. us_log s @ [Started op] = xs @ Started o' # ys \<longrightarrow> \<not> finished xs o'"
    using 3(1) by (intro prefix_started) (auto simp: um_inv_def)
  with 3 m show ?case by (simp add: um_inv_def one_at_a_time_append in_flight_append finished_append)
next
  case (4 op s0 out)
  then have a: "um_activeOpID (us_mon s) = op" "op \<noteq> []" "us_running s = [op]" by (auto simp: um_inv_def split: if_splits)
  have "\<forall>xs o' ys. us_log s @ [Ended op out] = xs @ Started o' # ys \<longrightarrow> \<not> finished xs o'"
    using 4(1) by (intro prefix_started) (auto simp: um_inv_def)
  with 4 a show ?case
    by (auto simp: um_inv_def one_at_a_time_append in_flight_append finished_append finish_execute_def Let_def)
qed

lemma um_inv_reachable: "um_step\<^sup>*\<^sup>* um_init s \<Longrightarrow> um_inv s"
proof (induction rule: rtranclp_induct)
  case base
  show ?case by (simp add: um_inv_def um_init_def NewUpgradeMonitor_def finished_def)
qed (rule um_inv_step)

text \<open>
  C15: in every interleaving of the watch loop and the goroutines it starts, executions never overlap, the slot is taken exactly
  while a goroutine runs, and an operation is not started again in this process after an execution of it that succeeded, however
  often its resource is delivered or listed. An execution that failed may be started again; what happens after a panic is below.
\<close>
theorem upgrade_single_slot:
  assumes "um_step\<^sup>*\<^sup>* um_init s"
  shows "one_at_a_time None (us_log s) \<and> us_running s = (if um_activeOpID (us_mon s) = [] then [] else [um_activeOpID (us_mon s)]) \<and>
    (\<forall>xs op ys. us_log s = xs @ Started op # ys \<longrightarrow> Ended op ExecOk \<notin> set xs)"
proof -
  have inv: "um_inv s" using assms by (rule um_inv_reachable)
  have "Ended op ExecOk \<notin> set xs" if "us_log s = xs @ Started op # ys" for xs op ys
    using inv that unfolding um_inv_def finished_def by blast
  with inv show ?thesis by (simp add: um_inv_def)
qed

theorem upgrade_single_slot_witness:
  "\<exists>s. um_step\<^sup>*\<^sup>* um_init s \<and> us_log s = [Started ''a'', Ended ''a'' ExecErr, Started ''a''] \<and> us_running s = [''a'']"
proof -
  let ?cr = "\<lparr>cr_phase = PhaseReadyForProvisionerDaemon, cr_operationId = ''a'', cr_created = 0\<rparr>"
  let ?s1 = "\<lparr>us_mon = \<lparr>um_activeOpID = ''a'', um_completedOpIDs = []\<rparr>, us_running = [''a''], us_log = [Started ''a'']\<rparr>"
  let ?s2 = "\<lparr>us_mon = \<lparr>um_activeOpID = [], um_completedOpIDs = []\<rparr>, us_running = [], us_log = [Started ''a'', Ended ''a'' ExecErr]\<rparr>"
  let ?s3 = "\<lparr>us_mon = \<lparr>um_activeOpID = ''a'', um_completedOpIDs = []\<rparr>, us_running = [''a''], us_log = [Started ''a'', Ended ''a'' ExecErr, Started ''a'']\<rparr>"
  have 1: "um_step um_init ?s1"
    using um_step.started[of ?cr um_init "\<lparr>um_activeOpID = ''a'', um_completedOpIDs = []\<rparr>" "''a''"]
    by (simp add: handleEvent_Some um_init_def NewUpgradeMonitor_def)
  have 2: "um_step ?s1 ?s2" using um_step.ended[of "''a''" ?s1 ExecErr] by (simp add: finish_execute_def)
  have 3: "um_step ?s2 ?s3"
    using um_step.started[of ?cr ?s2 "\<lparr>um_activeOpID = ''a'', um_completedOpIDs = []\<rparr>" "''a''"] by (simp add: handleEvent_Some)
  have r: "um_step\<^sup>*\<^sup>* um_init ?s3" using 1 2 3 by (meson converse_rtranclp_into_rtranclp rtranclp.rtrancl_refl)
  with upgrade_single_slot[OF r] show ?thesis by (intro exI[of _ ?s3]) simp
qed

text \<open>
  An execution that failed may be started again; one that panicked is treated as a success: the operation counts as completed, its
  resource, which nobody patched, is ignored from then on.
\<close>

lemma failed_retried:
  assumes "cr_phase cr = PhaseReadyForProvisionerDaemon" "cr_operationId cr = op" "op \<noteq> []" "um_activeOpID um = op" "op \<notin> set (um_completedOpIDs um)"
  shows "snd (handleEvent cr (finish_execute op ExecErr um)) = Some op"
  using assms by (simp add: handleEvent_def finish_execute_def Let_def)

lemma panicked_not_retried:
  "cr_operationId cr = op \<Longrightarrow> handleEvent cr (finish_execute op ExecPanic um) = (finish_execute op ExecPanic um, None)"
  by (simp add: handleEvent_def finish_execute_def Let_def)

text \<open>The time of an outage is kept although the kind of the failure changes.\<close>

lemma since_of_other_failure:
  "\<exists>l. fst (run_iterations [(10, None, WatchFailed), (20, None, ListFailed)] \<lparr>rl_backoff = backoffInitial, rl_conn = None, rl_client = k\<rparr>) = l \<and>
     rl_conn l = Some \<lparr>ce_Reason = ''UpgradeMonitorListError'', ce_Since = 10\<rparr>"
  by (simp add: run_iteration_def setConnectivityError_def Let_def)

end
