(* ===== verification/SoakMonitor.thy ===== *)
theory SoakMonitor
  imports Sanity
begin

text \<open>
  The migration monitor of the daemon (\<open>internal/daemon/consensus\<close>: \<open>migration_monitor.go\<close>, \<open>criteria.go\<close>, \<open>types.go\<close> and the start
  and stop routes of \<open>handler.go\<close>). It accepts one soak at a time over HTTP, runs a watcher goroutine that evaluates the soak criteria
  at every tick, and decommissions the old node once all of them hold and the fleet threshold is reached; a soak survives a restart
  of the daemon in a state file. The goroutines are cut at their atomic points (an atomic load, store or swap, a channel operation, a
  file operation); \<open>soak_exec\<close> executes the piece that a label names. Times are nanoseconds; \<open>None\<close> is Go's zero time. Kubernetes, the
  decommissioner and JSON are parameters: a criterion of a third party and the decommissioning end in any way.
\<close>

section \<open>Requests and criteria\<close>

record soak_req =
  sq_NodeID :: string
  sq_CutoverTimestamp :: "int option"
  sq_MigrationPlanPath :: string

definition MigrationPlanBaseDir :: string where
  "MigrationPlanBaseDir = ''/opt/solo/weaver/migration/consensus''"

definition SoakStartRequest_Validate :: "string option \<Rightarrow> soak_req \<Rightarrow> unit result" where
  "SoakStartRequest_Validate cwd r =
     (if sq_NodeID r = [] then Inl (Err IllegalArgument ''node_id is required'')
      else if sq_MigrationPlanPath r = [] then Inl (Err IllegalArgument ''migration_plan_path is required'')
      else if sq_CutoverTimestamp r = None then Inl (Err IllegalArgument ''cutover_timestamp is required'')
      else rbind (map_err (wrap IllegalArgument ''migration_plan_path is invalid'')
        (ValidatePathWithinBase cwd MigrationPlanBaseDir (sq_MigrationPlanPath r))) (\<lambda>_. Inr ()))"

definition DefaultSoakPeriod :: int where
  "DefaultSoakPeriod = 48 * 3600 * 10 ^ 9"

text \<open>\<open>time.Since\<close> saturates, but not for the periods that occur; the zero time is far in the past.\<close>

definition since :: "int \<Rightarrow> int option \<Rightarrow> int option" where
  "since now t = map_option (\<lambda>c. now - c) t"

definition SoakDuration_Check :: "int \<Rightarrow> int \<Rightarrow> soak_req \<Rightarrow> bool result" where
  "SoakDuration_Check period now req =
     (let p = (if period \<le> 0 then DefaultSoakPeriod else period)
      in Inr (case since now (sq_CutoverTimestamp req) of None \<Rightarrow> True | Some d \<Rightarrow> d \<ge> p))"

definition UploaderBacklogCleared_Check :: "bool result" where
  "UploaderBacklogCleared_Check = Inr False"

definition ConsensusParticipationNominal_Check :: "bool result" where
  "ConsensusParticipationNominal_Check = Inr False"

text \<open>A pod: its creation time and the restart counts of its containers. The result has the new \<open>lastRestartCount\<close>.\<close>

definition NoPodRestarts_Check :: "(int \<times> int list) list result \<Rightarrow> soak_req \<Rightarrow> int \<Rightarrow> bool result \<times> int" where
  "NoPodRestarts_Check pods req lastCount = (case pods of
     Inl e \<Rightarrow> (Inl (wrap ExternalError ''NoPodRestarts: list pods'' e), lastCount)
   | Inr items \<Rightarrow>
       (let post = filter (\<lambda>(created, _). case sq_CutoverTimestamp req of None \<Rightarrow> True | Some c \<Rightarrow> created > c) items;
            total = sum_list (concat (map snd post))
        in if post = [] then (Inr False, 0) else (Inr (total = 0), total)))"

section \<open>A tick of the watcher\<close>

datatype soak_event = EvSoakStarted | EvSoakResumed | EvSoakCheck bool int bool | EvCriterionMet string | EvFleetThresholdReached
  | EvDecommissionTriggered | EvDecommissionCompleted | EvDecommissionFailed

text \<open>The outcome of a criterion in one tick: name, result of \<open>Check\<close>, and the restart count if it has one.\<close>

type_synonym crit_check = "string \<times> bool result \<times> int option"

record tick_sums =
  ts_uploaderCleared :: bool
  ts_podRestarts :: int
  ts_allGreen :: bool
  ts_green :: "string list"
  ts_events :: "soak_event list"

definition eval_criterion :: "crit_check \<Rightarrow> tick_sums \<Rightarrow> tick_sums" where
  "eval_criterion = (\<lambda>(name, check, restarts) t. case check of
     Inl _ \<Rightarrow> t\<lparr>ts_allGreen := False\<rparr>
   | Inr ok \<Rightarrow>
       (let met = ok \<and> name \<notin> set (ts_green t) in
        t\<lparr>ts_allGreen := ts_allGreen t \<and> ok,
          ts_uploaderCleared := (if name = ''UploaderBacklogCleared'' then ok else ts_uploaderCleared t),
          ts_podRestarts := ts_podRestarts t + (case restarts of None \<Rightarrow> 0 | Some n \<Rightarrow> n),
          ts_green := (if met then name # ts_green t else ts_green t),
          ts_events := ts_events t @ (if met then [EvCriterionMet name] else [])\<rparr>))"

datatype tick_end = TickContinue | TickFailed | TickDone

record tick_input =
  ti_checks :: "crit_check list"
  ti_flag :: bool
  ti_decommission :: "unit result"

text \<open>\<open>fleet\<close> and \<open>green\<close> are the variables \<open>fleetThresholdEmitted\<close> and \<open>greenCriteria\<close> of the watcher.\<close>

definition soak_tick :: "tick_input \<Rightarrow> bool \<Rightarrow> string list \<Rightarrow> soak_event list \<times> bool \<times> string list \<times> tick_end" where
  "soak_tick i fleet green =
     (let t = fold eval_criterion (ti_checks i)
            \<lparr>ts_uploaderCleared = False, ts_podRestarts = 0, ts_allGreen = True, ts_green = green, ts_events = []\<rparr>;
          fleet' = (fleet \<or> ti_flag i);
          evs = ts_events t @ (if ti_flag i \<and> \<not> fleet then [EvFleetThresholdReached] else []) @
                [EvSoakCheck (ts_uploaderCleared t) (ts_podRestarts t) (ti_flag i)]
      in if fleet' \<and> ts_allGreen t then
           (case ti_decommission i of
              Inl _ \<Rightarrow> (evs @ [EvDecommissionTriggered, EvDecommissionFailed], fleet', ts_green t, TickFailed)
            | Inr _ \<Rightarrow> (evs @ [EvDecommissionTriggered, EvDecommissionCompleted], fleet', ts_green t, TickDone))
         else (evs, fleet', ts_green t, TickContinue))"

fun soak_ticks :: "tick_input list \<Rightarrow> bool \<Rightarrow> string list \<Rightarrow> soak_event list list \<times> tick_end" where
  "soak_ticks [] fleet green = ([], TickContinue)"
| "soak_ticks (i # is) fleet green =
     (case soak_tick i fleet green of (evs, fleet', green', r) \<Rightarrow>
        if r = TickContinue then (case soak_ticks is fleet' green' of (rest, r') \<Rightarrow> (evs # rest, r'))
        else ([evs], r))"

section \<open>The monitor\<close>

datatype soak_file = NoFile | BadFile | GoodFile soak_req

datatype watcher_pc = WSpawned | WCancelStored | WStatusStored | WRunning | WLeaving | WCancelCleared | WStatusCleared | WReleased

record watcher =
  w_id :: nat
  w_req :: soak_req
  w_resumed :: bool
  w_pc :: watcher_pc
  w_cancelled :: bool

text \<open>The pieces of \<open>Run\<close> with \<open>resumeIfNeeded\<close>, of a call of \<open>TryEnqueue\<close> and of a call of \<open>TryStop\<close>.\<close>

datatype dispatch_pc = DInit | DResume soak_req | DResumeStatus soak_req | DResumeActive soak_req | DLoop | DReceived soak_req

datatype enqueue_pc = ESwapped soak_req | ESent soak_req

datatype stop_pc = SCancelled bool | SLocked bool | SWaited bool

record soak_state =
  mm_ch :: "soak_req option"
  mm_soakStatus :: "soak_req option"
  mm_soakActive :: bool
  mm_soakCancel :: "nat option"
  mm_lifecycleMu :: bool
  mm_file :: soak_file
  mm_dispatch :: dispatch_pc
  mm_watchers :: "watcher list"
  mm_enqueues :: "enqueue_pc list"
  mm_stops :: "stop_pc list"
  mm_next :: nat

definition soak_init :: "soak_file \<Rightarrow> soak_state" where
  "soak_init f = \<lparr>mm_ch = None, mm_soakStatus = None, mm_soakActive = False, mm_soakCancel = None, mm_lifecycleMu = False, mm_file = f,
     mm_dispatch = DInit, mm_watchers = [], mm_enqueues = [], mm_stops = [], mm_next = 0\<rparr>"

definition spawn_watcher :: "soak_req \<Rightarrow> bool \<Rightarrow> soak_state \<Rightarrow> soak_state" where
  "spawn_watcher req resumed s = s\<lparr>mm_dispatch := DLoop, mm_next := Suc (mm_next s),
     mm_watchers := mm_watchers s @ [\<lparr>w_id = mm_next s, w_req = req, w_resumed = resumed, w_pc = WSpawned, w_cancelled = False\<rparr>]\<rparr>"

definition drop_nth :: "nat \<Rightarrow> 'a list \<Rightarrow> 'a list" where
  "drop_nth k xs = take k xs @ drop (Suc k) xs"

section \<open>\<open>Run\<close> and \<open>resumeIfNeeded\<close>\<close>

text \<open>\<open>readOk\<close> says whether the state file can be read; when it cannot, the file is kept and no soak is resumed.\<close>

definition resume_step :: "bool \<Rightarrow> soak_state \<Rightarrow> soak_state option" where
  "resume_step readOk s = (case mm_dispatch s of
     DInit \<Rightarrow> if \<not> readOk then Some (s\<lparr>mm_dispatch := DLoop\<rparr>) else (case mm_file s of
         NoFile \<Rightarrow> Some (s\<lparr>mm_dispatch := DLoop\<rparr>)
       | BadFile \<Rightarrow> Some (s\<lparr>mm_file := NoFile, mm_dispatch := DLoop\<rparr>)
       | GoodFile req \<Rightarrow> Some (s\<lparr>mm_dispatch := DResume req\<rparr>))
   | DResume req \<Rightarrow> Some (s\<lparr>mm_soakStatus := Some req, mm_dispatch := DResumeStatus req\<rparr>)
   | DResumeStatus req \<Rightarrow> Some (s\<lparr>mm_soakActive := True, mm_dispatch := DResumeActive req\<rparr>)
   | DResumeActive req \<Rightarrow> if mm_lifecycleMu s then None else Some (spawn_watcher req True s)
   | _ \<Rightarrow> None)"

definition dispatch_step :: "soak_state \<Rightarrow> soak_state option" where
  "dispatch_step s = (case mm_dispatch s of
     DLoop \<Rightarrow> (case mm_ch s of None \<Rightarrow> None | Some req \<Rightarrow> Some (s\<lparr>mm_ch := None, mm_dispatch := DReceived req\<rparr>))
   | DReceived req \<Rightarrow> if mm_lifecycleMu s then None else Some (spawn_watcher req False s)
   | _ \<Rightarrow> None)"

section \<open>The watcher goroutine\<close>

text \<open>How the loop of a watcher ends: cancellation, a decommissioning that failed or succeeded, a panic of code it calls.\<close>

datatype watch_end = EndCancelled | EndFailed | EndDone | EndPanic

definition set_pc :: "nat \<Rightarrow> watcher_pc \<Rightarrow> soak_state \<Rightarrow> soak_state" where
  "set_pc k pc s = s\<lparr>mm_watchers := (mm_watchers s)[k := (mm_watchers s ! k)\<lparr>w_pc := pc\<rparr>]\<rparr>"

definition watcher_step :: "nat \<Rightarrow> watch_end \<Rightarrow> bool \<Rightarrow> soak_state \<Rightarrow> soak_state option" where
  "watcher_step k e writeOk s =
     (if k \<ge> length (mm_watchers s) then None
      else let w = mm_watchers s ! k in
        (case w_pc w of
           WSpawned \<Rightarrow> Some (set_pc k WCancelStored (s\<lparr>mm_soakCancel := Some (w_id w)\<rparr>))
         | WCancelStored \<Rightarrow> Some (set_pc k WStatusStored (s\<lparr>mm_soakStatus := Some (w_req w)\<rparr>))
         | WStatusStored \<Rightarrow> Some (set_pc k WRunning (if writeOk then s\<lparr>mm_file := GoodFile (w_req w)\<rparr> else s))
         | WRunning \<Rightarrow>
             (if e = EndCancelled \<and> \<not> w_cancelled w then None
              else Some (set_pc k WLeaving (if e = EndDone then s\<lparr>mm_file := NoFile\<rparr> else s)))
         | WLeaving \<Rightarrow> Some (set_pc k WCancelCleared (s\<lparr>mm_soakCancel := None\<rparr>))
         | WCancelCleared \<Rightarrow> Some (set_pc k WStatusCleared (s\<lparr>mm_soakStatus := None\<rparr>))
         | WStatusCleared \<Rightarrow> Some (set_pc k WReleased (s\<lparr>mm_soakActive := False\<rparr>))
         | WReleased \<Rightarrow> Some (s\<lparr>mm_watchers := drop_nth k (mm_watchers s)\<rparr>)))"

section \<open>\<open>TryEnqueue\<close> and \<open>TryStop\<close>\<close>

definition enqueue_swap :: "soak_req \<Rightarrow> soak_state \<Rightarrow> soak_state option" where
  "enqueue_swap req s = (if mm_soakActive s then None else Some (s\<lparr>mm_soakActive := True, mm_enqueues := mm_enqueues s @ [ESwapped req]\<rparr>))"

definition enqueue_step :: "nat \<Rightarrow> soak_state \<Rightarrow> soak_state option" where
  "enqueue_step k s =
     (if k \<ge> length (mm_enqueues s) then None
      else (case mm_enqueues s ! k of
         ESwapped req \<Rightarrow> (case mm_ch s of
             None \<Rightarrow> Some (s\<lparr>mm_ch := Some req, mm_enqueues := (mm_enqueues s)[k := ESent req]\<rparr>)
           | Some _ \<Rightarrow> Some (s\<lparr>mm_soakActive := False, mm_enqueues := drop_nth k (mm_enqueues s)\<rparr>))
       | ESent req \<Rightarrow> Some (s\<lparr>mm_soakStatus := Some req, mm_enqueues := drop_nth k (mm_enqueues s)\<rparr>)))"

definition cancel_watcher :: "nat \<Rightarrow> watcher \<Rightarrow> watcher" where
  "cancel_watcher i w = (if w_id w = i then w\<lparr>w_cancelled := True\<rparr> else w)"

definition stop_begin :: "bool \<Rightarrow> soak_state \<Rightarrow> soak_state option" where
  "stop_begin deleteState s = (case mm_soakCancel s of
     None \<Rightarrow> None
   | Some i \<Rightarrow> Some (s\<lparr>mm_watchers := map (cancel_watcher i) (mm_watchers s), mm_stops := mm_stops s @ [SCancelled deleteState]\<rparr>))"

definition stop_step :: "nat \<Rightarrow> soak_state \<Rightarrow> soak_state option" where
  "stop_step k s =
     (if k \<ge> length (mm_stops s) then None
      else (case mm_stops s ! k of
         SCancelled d \<Rightarrow> if mm_lifecycleMu s then None else Some (s\<lparr>mm_lifecycleMu := True, mm_stops := (mm_stops s)[k := SLocked d]\<rparr>)
       | SLocked d \<Rightarrow> if mm_watchers s \<noteq> [] then None else Some (s\<lparr>mm_lifecycleMu := False, mm_stops := (mm_stops s)[k := SWaited d]\<rparr>)
       | SWaited d \<Rightarrow> Some (s\<lparr>mm_file := (if d then NoFile else mm_file s), mm_stops := drop_nth k (mm_stops s)\<rparr>)))"

section \<open>Steps\<close>

datatype soak_label = LResume bool | LDispatch | LWatcher nat watch_end bool | LSwap soak_req | LEnqueue nat | LStop bool | LStopStep nat | LRestart

text \<open>
  \<open>late\<close> says that requests are accepted only after \<open>resumeIfNeeded\<close> has returned; the daemon starts its socket server and the
  monitor concurrently, so that in the code it is \<open>False\<close>. A restart of the daemon keeps the file only.
\<close>

definition resuming :: "dispatch_pc \<Rightarrow> bool" where
  "resuming d = (case d of DLoop \<Rightarrow> False | DReceived _ \<Rightarrow> False | _ \<Rightarrow> True)"

definition soak_exec :: "bool \<Rightarrow> soak_label \<Rightarrow> soak_state \<Rightarrow> soak_state option" where
  "soak_exec late l s = (case l of
     LResume ok \<Rightarrow> resume_step ok s
   | LDispatch \<Rightarrow> dispatch_step s
   | LWatcher k e ok \<Rightarrow> watcher_step k e ok s
   | LSwap req \<Rightarrow> if late \<and> resuming (mm_dispatch s) then None else enqueue_swap req s
   | LEnqueue k \<Rightarrow> enqueue_step k s
   | LStop d \<Rightarrow> stop_begin d s
   | LStopStep k \<Rightarrow> stop_step k s
   | LRestart \<Rightarrow> Some (soak_init (mm_file s)))"

inductive soak_reach :: "bool \<Rightarrow> soak_state \<Rightarrow> bool" for late where
  init: "soak_reach late (soak_init f)"
| step: "soak_reach late s \<Longrightarrow> soak_exec late l s = Some s' \<Longrightarrow> soak_reach late s'"

section \<open>The HTTP routes\<close>

text \<open>The status code of the answer. \<open>body\<close> is the decoded request, \<open>None\<close> when decoding fails.\<close>

definition handleConsensusSoakStart :: "string option \<Rightarrow> bool \<Rightarrow> soak_req option \<Rightarrow> (soak_req \<Rightarrow> bool) \<Rightarrow> nat" where
  "handleConsensusSoakStart cwd enabled body tryEnqueue =
     (if \<not> enabled then 503
      else case body of
        None \<Rightarrow> 400
      | Some req \<Rightarrow>
          if \<not> is_ok (SoakStartRequest_Validate cwd req) then 400
          else if \<not> tryEnqueue req then 409
          else 202)"

definition handleConsensusSoakStop :: "bool \<Rightarrow> string \<Rightarrow> (bool \<Rightarrow> bool) \<Rightarrow> nat" where
  "handleConsensusSoakStop enabled query tryStop =
     (if \<not> enabled then 503
      else if \<not> tryStop (query \<noteq> ''false'') then 409
      else 204)"

section \<open>At most one watcher\<close>

definition count_of :: "('a \<Rightarrow> bool) \<Rightarrow> 'a list \<Rightarrow> nat" where
  "count_of P xs = length (filter P xs)"

lemma count_of_simps [simp]:
  "count_of P [] = 0" "count_of P (x # xs) = (if P x then Suc (count_of P xs) else count_of P xs)" "count_of P (xs @ ys) = count_of P xs + count_of P ys"
  by (simp_all add: count_of_def)

lemma count_of_split: "k < length xs \<Longrightarrow> count_of P xs = count_of P (take k xs) + (if P (xs ! k) then 1 else 0) + count_of P (drop (Suc k) xs)"
  by (subst (1) id_take_nth_drop[of k xs]) simp_all

lemma count_update:
  "k < length xs \<Longrightarrow> count_of P (xs[k := y]) + (if P (xs ! k) then 1 else 0) = count_of P xs + (if P y then 1 else 0)"
  by (simp add: upd_conv_take_nth_drop count_of_split[of k xs])

lemma count_drop_nth:
  "k < length xs \<Longrightarrow> count_of P (drop_nth k xs) + (if P (xs ! k) then 1 else 0) = count_of P xs"
  by (simp add: drop_nth_def count_of_split[of k xs])

definition live :: "watcher \<Rightarrow> bool" where
  "live w \<longleftrightarrow> w_pc w \<noteq> WReleased"

definition swapped :: "enqueue_pc \<Rightarrow> bool" where
  "swapped e = (case e of ESwapped _ \<Rightarrow> True | ESent _ \<Rightarrow> False)"

definition held :: "dispatch_pc \<Rightarrow> nat" where
  "held d = (case d of DReceived _ \<Rightarrow> 1 | DResumeActive _ \<Rightarrow> 1 | _ \<Rightarrow> 0)"

text \<open>The activations in flight: won by a request, queued, held by the dispatcher, or running.\<close>

definition tokens :: "soak_state \<Rightarrow> nat" where
  "tokens s = count_of live (mm_watchers s) + (if mm_ch s = None then 0 else 1) + held (mm_dispatch s) + count_of swapped (mm_enqueues s)"

definition before_active :: "dispatch_pc \<Rightarrow> bool" where
  "before_active d = (case d of DInit \<Rightarrow> True | DResume _ \<Rightarrow> True | DResumeStatus _ \<Rightarrow> True | _ \<Rightarrow> False)"

definition soak_inv :: "soak_state \<Rightarrow> bool" where
  "soak_inv s \<longleftrightarrow> tokens s = (if mm_soakActive s then 1 else 0) \<and> (before_active (mm_dispatch s) \<longrightarrow> \<not> mm_soakActive s)"

lemmas token_defs = soak_inv_def tokens_def held_def before_active_def spawn_watcher_def

lemma soak_inv_init: "soak_inv (soak_init f)"
  by (simp add: token_defs soak_init_def)

lemma soak_inv_resume: "soak_inv s \<Longrightarrow> resume_step ok s = Some s' \<Longrightarrow> soak_inv s'"
  by (auto simp: resume_step_def token_defs live_def split: dispatch_pc.splits soak_file.splits if_splits)

lemma soak_inv_dispatch: "soak_inv s \<Longrightarrow> dispatch_step s = Some s' \<Longrightarrow> soak_inv s'"
  by (auto simp: dispatch_step_def token_defs live_def split: dispatch_pc.splits option.splits if_splits)

lemma soak_inv_swap:
  "soak_inv s \<Longrightarrow> \<not> resuming (mm_dispatch s) \<Longrightarrow> enqueue_swap req s = Some s' \<Longrightarrow> soak_inv s'"
  by (auto simp: enqueue_swap_def resuming_def token_defs swapped_def split: dispatch_pc.splits if_splits)

lemma swapped_simps [simp]: "swapped (ESwapped r)" "\<not> swapped (ESent r)"
  by (simp_all add: swapped_def)

lemma soak_inv_enqueue:
  assumes inv: "soak_inv s" and st: "enqueue_step k s = Some s'"
  shows "soak_inv s'"
proof -
  have k: "k < length (mm_enqueues s)" using st by (auto simp: enqueue_step_def split: if_splits)
  note drop = count_drop_nth[OF k, of swapped]
  show ?thesis
  proof (cases "mm_enqueues s ! k")
    case (ESwapped r)
    with inv drop have "mm_ch s = None" by (auto simp: soak_inv_def tokens_def split: if_splits)
    with st k ESwapped have "s' = s\<lparr>mm_ch := Some r, mm_enqueues := (mm_enqueues s)[k := ESent r]\<rparr>" by (simp add: enqueue_step_def)
    with inv \<open>mm_ch s = None\<close> count_update[OF k, of swapped "ESent r"] ESwapped show ?thesis by (simp add: soak_inv_def tokens_def)
  next
    case (ESent r)
    with st k have "s' = s\<lparr>mm_soakStatus := Some r, mm_enqueues := drop_nth k (mm_enqueues s)\<rparr>" by (simp add: enqueue_step_def)
    with inv drop ESent show ?thesis by (simp add: soak_inv_def tokens_def)
  qed
qed

lemma tokens_set_pc:
  assumes "k < length (mm_watchers s)" "live (mm_watchers s ! k) = (pc \<noteq> WReleased)"
  shows "tokens (set_pc k pc s) = tokens s"
  using count_update[OF assms(1), of live "(mm_watchers s ! k)\<lparr>w_pc := pc\<rparr>"] assms(2)
  by (auto simp: tokens_def set_pc_def live_def split: if_splits)

lemma tokens_release:
  assumes "k < length (mm_watchers s)" "live (mm_watchers s ! k)"
  shows "Suc (tokens (set_pc k WReleased s)) = tokens s"
  using count_update[OF assms(1), of live "(mm_watchers s ! k)\<lparr>w_pc := WReleased\<rparr>"] assms(2)
  by (auto simp: tokens_def set_pc_def live_def)

lemma set_pc_keeps [simp]:
  "mm_soakActive (set_pc k pc s) = mm_soakActive s" "mm_dispatch (set_pc k pc s) = mm_dispatch s"
  by (simp_all add: set_pc_def)

lemma tokens_updates [simp]:
  "tokens (s\<lparr>mm_soakCancel := a\<rparr>) = tokens s" "tokens (s\<lparr>mm_soakStatus := b\<rparr>) = tokens s" "tokens (s\<lparr>mm_file := c\<rparr>) = tokens s"
  "tokens (s\<lparr>mm_soakActive := d\<rparr>) = tokens s"
  by (simp_all add: tokens_def)

lemma soak_inv_watcher: "soak_inv s \<Longrightarrow> watcher_step k e ok s = Some s' \<Longrightarrow> soak_inv s'"
proof -
  assume inv: "soak_inv s" and st: "watcher_step k e ok s = Some s'"
  then have k: "k < length (mm_watchers s)" by (auto simp: watcher_step_def split: if_splits)
  show "soak_inv s'"
  proof (cases "w_pc (mm_watchers s ! k) \<in> {WStatusCleared, WReleased}")
    case False
    then have "live (mm_watchers s ! k)" by (auto simp: live_def)
    then have t: "tokens (set_pc k pc s1) = tokens s1" if "mm_watchers s1 = mm_watchers s" "pc \<noteq> WReleased" for pc s1
      using tokens_set_pc[of k s1 pc] k that by simp
    from st k False show ?thesis
      by (cases "w_pc (mm_watchers s ! k)") (use inv in \<open>auto simp: watcher_step_def soak_inv_def t Let_def split: if_splits\<close>)
  next
    case True
    then consider (clear) "w_pc (mm_watchers s ! k) = WStatusCleared" | (gone) "w_pc (mm_watchers s ! k) = WReleased" by blast
    then show ?thesis
    proof cases
      case clear
      have s': "s' = set_pc k WReleased (s\<lparr>mm_soakActive := False\<rparr>)" using st k clear by (simp add: watcher_step_def Let_def)
      have "Suc (tokens s') = tokens s" using tokens_release[of k "s\<lparr>mm_soakActive := False\<rparr>"] k clear by (simp add: s' live_def)
      with inv show ?thesis by (auto simp: soak_inv_def s' split: if_splits)
    next
      case gone
      have s': "s' = s\<lparr>mm_watchers := drop_nth k (mm_watchers s)\<rparr>" using st k gone by (simp add: watcher_step_def Let_def)
      have "tokens s' = tokens s" using count_drop_nth[OF k, of live] gone by (simp add: s' tokens_def live_def)
      with inv show ?thesis by (simp add: soak_inv_def s')
    qed
  qed
qed

lemma count_live_cancel [simp]: "count_of live (map (cancel_watcher i) ws) = count_of live ws"
  by (induction ws) (auto simp: cancel_watcher_def live_def)

lemma soak_inv_stop:
  "soak_inv s \<Longrightarrow> stop_begin d s = Some s' \<Longrightarrow> soak_inv s'" "soak_inv s \<Longrightarrow> stop_step k s = Some s' \<Longrightarrow> soak_inv s'"
  by (auto simp: stop_begin_def stop_step_def soak_inv_def tokens_def split: option.splits if_splits stop_pc.splits)

lemma soak_inv_reach: "soak_reach True s \<Longrightarrow> soak_inv s"
proof (induction rule: soak_reach.induct)
  case (step s l s')
  then show ?case
    by (cases l)
      (auto simp: soak_exec_def soak_inv_init intro: soak_inv_resume soak_inv_dispatch soak_inv_watcher soak_inv_swap soak_inv_enqueue
        soak_inv_stop split: if_splits)
qed (rule soak_inv_init)

text \<open>
  C16: if requests are accepted only after the resume of a persisted soak, then in every interleaving at most one soak is in flight:
  there is at most one watcher that has not released the monitor, none while a request is queued, the monitor is marked active as
  long as there is one of them, and a request that won the mark always finds the channel free.
\<close>
theorem soak_single_watcher:
  assumes "soak_reach True s"
  shows "length (filter live (mm_watchers s)) \<le> 1 \<and>
    (mm_ch s \<noteq> None \<or> filter live (mm_watchers s) \<noteq> [] \<longrightarrow> mm_soakActive s) \<and>
    (mm_ch s \<noteq> None \<longrightarrow> filter live (mm_watchers s) = []) \<and>
    (\<forall>r. ESwapped r \<in> set (mm_enqueues s) \<longrightarrow> mm_ch s = None \<and> filter live (mm_watchers s) = [])"
proof -
  have t: "tokens s \<le> 1" "tokens s \<noteq> 0 \<longrightarrow> mm_soakActive s" using soak_inv_reach[OF assms] by (auto simp: soak_inv_def)
  have sw: "count_of swapped (mm_enqueues s) \<noteq> 0" if "ESwapped r \<in> set (mm_enqueues s)" for r
    using that by (force simp: count_of_def filter_empty_conv)
  have lv: "filter live (mm_watchers s) = [] \<longleftrightarrow> count_of live (mm_watchers s) = 0" "length (filter live (mm_watchers s)) = count_of live (mm_watchers s)"
    by (simp_all add: count_of_def)
  show ?thesis
  proof (intro conjI allI impI)
    fix r assume "ESwapped r \<in> set (mm_enqueues s)"
    with sw t show "mm_ch s = None" "filter live (mm_watchers s) = []" by (fastforce simp: lv tokens_def split: if_splits)+
  qed (use t in \<open>auto simp: lv tokens_def split: if_splits\<close>)
qed

fun soak_run :: "bool \<Rightarrow> soak_label list \<Rightarrow> soak_state \<Rightarrow> soak_state option" where
  "soak_run late [] s = Some s"
| "soak_run late (l # ls) s = (case soak_exec late l s of None \<Rightarrow> None | Some s' \<Rightarrow> soak_run late ls s')"

lemma soak_run_reach: "soak_reach late s \<Longrightarrow> soak_run late ls s = Some s' \<Longrightarrow> soak_reach late s'"
  by (induction ls arbitrary: s) (auto intro: soak_reach.step split: option.splits)

definition demo_req :: "string \<Rightarrow> soak_req" where
  "demo_req n = \<lparr>sq_NodeID = n, sq_CutoverTimestamp = Some 0, sq_MigrationPlanPath = ''/opt/solo/weaver/migration/consensus/p''\<rparr>"

definition accept :: "string \<Rightarrow> soak_label list" where
  "accept n = [LSwap (demo_req n), LEnqueue 0, LEnqueue 0]"

definition run_up :: "nat \<Rightarrow> soak_label list" where
  "run_up k = replicate 3 (LWatcher k EndPanic True)"

theorem soak_single_watcher_witness:
  "\<exists>s. soak_run True ([LResume True] @ accept ''a'' @ [LDispatch, LDispatch] @ run_up 0) (soak_init NoFile) = Some s \<and>
     map w_pc (mm_watchers s) = [WRunning] \<and> mm_soakActive s \<and> mm_file s = GoodFile (demo_req ''a'')"
proof -
  let ?r = "soak_run True ([LResume True] @ accept ''a'' @ [LDispatch, LDispatch] @ run_up 0) (soak_init NoFile)"
  have v: "map_option (\<lambda>s. (map w_pc (mm_watchers s), mm_file s)) ?r = Some ([WRunning], GoodFile (demo_req ''a''))" by code_simp
  then obtain s where s: "?r = Some s" by auto
  have "soak_reach True s" by (rule soak_run_reach[OF soak_reach.init s])
  note inv = soak_single_watcher[OF this]
  obtain w where w: "mm_watchers s = [w]" "w_pc w = WRunning" using v s by (auto simp: map_eq_Cons_conv)
  then have "filter live (mm_watchers s) \<noteq> []" by (simp add: live_def)
  with inv v s show ?thesis by auto
qed

section \<open>Races\<close>

text \<open>
  The daemon serves its socket while the monitor starts: a request that is accepted before the state file was read runs beside the
  resumed soak, and the first of the two watchers to end marks the monitor as idle.
\<close>

lemma startup_race:
  "map_option (\<lambda>s. map w_pc (mm_watchers s))
     (soak_run False (accept ''a'' @ replicate 4 (LResume True) @ [LDispatch, LDispatch] @ run_up 0 @ run_up 1) (soak_init (GoodFile (demo_req ''b''))))
   = Some [WRunning, WRunning]"
  by code_simp

text \<open>
  \<open>TryEnqueue\<close> stores the status after it has sent the request: when the watcher ends before that, the status says active although
  nothing runs and nothing is queued.
\<close>

lemma stale_status:
  "map_option (\<lambda>s. (mm_soakStatus s, mm_soakActive s, mm_ch s, mm_watchers s, mm_enqueues s))
     (soak_run True ([LResume True, LSwap (demo_req ''a''), LEnqueue 0, LDispatch, LDispatch] @ run_up 0 @ replicate 5 (LWatcher 0 EndPanic True) @
        [LEnqueue 0]) (soak_init NoFile))
   = Some (Some (demo_req ''a''), False, None, [], [])"
  by code_simp

text \<open>
  \<open>TryStop\<close> removes the state file after it has waited: a soak that is accepted in between loses the file it has just written and
  does not survive a restart.
\<close>

lemma stop_removes_next_soak:
  "map_option (\<lambda>s. (map (\<lambda>w. (w_pc w, sq_NodeID (w_req w), w_cancelled w)) (mm_watchers s), mm_file s))
     (soak_run True ([LResume True] @ accept ''a'' @ [LDispatch, LDispatch] @ run_up 0 @ [LStop True] @ replicate 5 (LWatcher 0 EndCancelled True) @
        [LStopStep 0, LStopStep 0] @ accept ''b'' @ [LDispatch, LDispatch] @ run_up 0 @ [LStopStep 0]) (soak_init NoFile))
   = Some ([(WRunning, ''b'', False)], NoFile)"
  by code_simp

text \<open>A restart resumes the soak whose file was written, with the cutover time it had.\<close>

lemma restart_resumes:
  assumes "mm_file s = GoodFile req"
  shows "\<exists>s' w. soak_run late ([LRestart] @ replicate 4 (LResume True)) s = Some s' \<and> mm_watchers s' = [w] \<and> w_req w = req \<and> w_resumed w \<and>
    mm_soakActive s' \<and> mm_soakStatus s' = Some req"
  using assms by (simp add: soak_exec_def soak_init_def resume_step_def spawn_watcher_def eval_nat_numeral)

section \<open>The decommission gate\<close>

definition all_green :: "tick_input \<Rightarrow> bool" where
  "all_green i \<longleftrightarrow> list_all (\<lambda>(_, c, _). c = Inr True) (ti_checks i)"

lemma eval_all_green: "ts_allGreen (fold eval_criterion cs t) \<longleftrightarrow> ts_allGreen t \<and> list_all (\<lambda>(_, c, _). c = Inr True) cs"
proof (induction cs arbitrary: t)
  case (Cons c cs)
  then show ?case by (cases c) (auto simp: eval_criterion_def Let_def split: sum.splits)
qed simp

definition met :: "soak_event \<Rightarrow> bool" where
  "met e = (case e of EvCriterionMet _ \<Rightarrow> True | _ \<Rightarrow> False)"

definition check_ev :: "soak_event \<Rightarrow> bool" where
  "check_ev e = (case e of EvSoakCheck _ _ _ \<Rightarrow> True | _ \<Rightarrow> False)"

text \<open>What the evaluation of the criteria reports: every name that turned green, once.\<close>

lemma eval_events:
  assumes "distinct (ts_green t)"
  shows "\<exists>names. ts_events (fold eval_criterion cs t) = ts_events t @ map EvCriterionMet names \<and>
    ts_green (fold eval_criterion cs t) = rev names @ ts_green t \<and> distinct (rev names @ ts_green t)"
  using assms
proof (induction cs arbitrary: t)
  case (Cons c cs)
  have d: "distinct (ts_green (eval_criterion c t))"
    using Cons.prems by (cases c) (auto simp: eval_criterion_def Let_def split: sum.splits)
  obtain n0 where n0: "ts_events (eval_criterion c t) = ts_events t @ map EvCriterionMet n0" "ts_green (eval_criterion c t) = rev n0 @ ts_green t"
  proof (cases "\<exists>name r. c = (name, Inr True, r) \<and> name \<notin> set (ts_green t)")
    case True
    then obtain name r where "c = (name, Inr True, r)" "name \<notin> set (ts_green t)" by blast
    then show ?thesis by (intro that[of "[name]"]) (simp_all add: eval_criterion_def Let_def)
  next
    case False
    then show ?thesis by (intro that[of "[]"]) (cases c; auto simp: eval_criterion_def Let_def split: sum.splits)+
  qed
  obtain n1 where "ts_events (fold eval_criterion cs (eval_criterion c t)) = ts_events (eval_criterion c t) @ map EvCriterionMet n1"
    "ts_green (fold eval_criterion cs (eval_criterion c t)) = rev n1 @ ts_green (eval_criterion c t)" "distinct (rev n1 @ ts_green (eval_criterion c t))"
    using Cons.IH[OF d] by blast
  then show ?case by (intro exI[of _ "n0 @ n1"]) (simp add: n0)
qed (simp add: exI[of _ "[]"])

lemma soak_tick_spec:
  assumes "soak_tick i fleet green = (evs, fleet', green', r)" "distinct green"
  shows "fleet' = (fleet \<or> ti_flag i)" "r \<noteq> TickContinue \<longleftrightarrow> fleet' \<and> all_green i"
    "EvDecommissionTriggered \<in> set evs \<longleftrightarrow> fleet' \<and> all_green i" "length (filter check_ev evs) = 1"
    "\<exists>names. filter met evs = map EvCriterionMet names \<and> green' = rev names @ green \<and> distinct green'"
proof -
  define t where "t = fold eval_criterion (ti_checks i)
    \<lparr>ts_uploaderCleared = False, ts_podRestarts = 0, ts_allGreen = True, ts_green = green, ts_events = []\<rparr>"
  obtain names where n: "ts_events t = map EvCriterionMet names" "ts_green t = rev names @ green" "distinct (rev names @ green)"
    using eval_events[of "\<lparr>ts_uploaderCleared = False, ts_podRestarts = 0, ts_allGreen = True, ts_green = green, ts_events = []\<rparr>" "ti_checks i"] assms(2)
    by (auto simp: t_def)
  have g: "ts_allGreen t \<longleftrightarrow> all_green i" by (simp add: t_def eval_all_green all_green_def)
  have f: "filter met (map EvCriterionMet names) = map EvCriterionMet names" "filter check_ev (map EvCriterionMet names) = []"
    by (auto simp: met_def check_ev_def filter_empty_conv intro: filter_True)
  note tick = assms(1)[unfolded soak_tick_def t_def[symmetric] Let_def]
  show "fleet' = (fleet \<or> ti_flag i)" "r \<noteq> TickContinue \<longleftrightarrow> fleet' \<and> all_green i"
    "EvDecommissionTriggered \<in> set evs \<longleftrightarrow> fleet' \<and> all_green i" "length (filter check_ev evs) = 1"
    using tick n by (auto simp: g f check_ev_def split: if_splits sum.splits)
  show "\<exists>names. filter met evs = map EvCriterionMet names \<and> green' = rev names @ green \<and> distinct green'"
  proof (intro exI[of _ names] conjI)
    have "green' = ts_green t" using tick by (auto split: if_splits sum.splits)
    with n show "green' = rev names @ green" "distinct green'" by simp_all
    show "filter met evs = map EvCriterionMet names"
      using tick by (auto simp: n(1) f met_def split: if_splits sum.splits)
  qed
qed

text \<open>The gate at a tick: all criteria were green in it, and the flag was seen in it or before.\<close>

definition gate :: "bool \<Rightarrow> tick_input list \<Rightarrow> nat \<Rightarrow> bool" where
  "gate fleet is n \<longleftrightarrow> n < length is \<and> all_green (is ! n) \<and> (fleet \<or> (\<exists>m\<le>n. ti_flag (is ! m)))"

lemma gate_0: "gate fleet (i # is) 0 \<longleftrightarrow> all_green i \<and> (fleet \<or> ti_flag i)"
  by (auto simp: gate_def)

lemma gate_Suc: "gate fleet (i # is) (Suc n) \<longleftrightarrow> gate (fleet \<or> ti_flag i) is n"
proof -
  have "(\<exists>m\<le>Suc n. P m) \<longleftrightarrow> P 0 \<or> (\<exists>m\<le>n. P (Suc m))" for P
    by (metis Suc_le_mono le0 not0_implies_Suc)
  then show ?thesis by (auto simp: gate_def)
qed

lemma soak_ticks_gate:
  assumes "soak_ticks is fleet green = (evss, r)" "distinct green"
  shows "(\<forall>k<length evss. EvDecommissionTriggered \<in> set (evss ! k) \<longleftrightarrow> gate fleet is k) \<and> (r = TickContinue \<longleftrightarrow> (\<forall>n. \<not> gate fleet is n)) \<and>
    (\<forall>evs \<in> set evss. length (filter check_ev evs) = 1) \<and>
    (\<exists>names. filter met (concat evss) = map EvCriterionMet names \<and> distinct (rev names @ green))"
  using assms
proof (induction "is" arbitrary: fleet green evss)
  case Nil
  then show ?case by (auto simp: gate_def)
next
  case (Cons i "is")
  obtain evs fleet' green' r0 where t: "soak_tick i fleet green = (evs, fleet', green', r0)" by (metis prod_cases4)
  note spec = soak_tick_spec[OF t Cons.prems(2)]
  obtain names where n: "filter met evs = map EvCriterionMet names" "green' = rev names @ green" "distinct green'" using spec(5) by blast
  show ?case
  proof (cases "r0 = TickContinue")
    case False
    then have "evss = [evs]" "r = r0" using Cons.prems(1) by (simp_all add: t)
    moreover have "gate fleet (i # is) 0" using False spec(1,2) by (simp add: gate_0)
    moreover have "EvDecommissionTriggered \<in> set evs" using False spec(2,3) by simp
    ultimately show ?thesis using False spec(4) n by auto
  next
    case True
    obtain rest where rest: "soak_ticks is fleet' green' = (rest, r)" "evss = evs # rest"
      using Cons.prems(1) True by (cases "soak_ticks is fleet' green'") (simp add: t)
    have no: "\<not> gate fleet (i # is) 0" "EvDecommissionTriggered \<notin> set evs" using True spec(1-3) by (auto simp: gate_0)
    have f: "fleet' = (fleet \<or> ti_flag i)" by (rule spec(1))
    note IH = Cons.IH[OF rest(1) n(3)]
    then obtain m where m: "filter met (concat rest) = map EvCriterionMet m" "distinct (rev m @ green')" by blast
    have all: "(\<forall>n. \<not> gate fleet (i # is) n) \<longleftrightarrow> (\<forall>n. \<not> gate fleet' is n)"
      unfolding f gate_Suc[symmetric] using no(1) by (metis not0_implies_Suc)
    have "r = TickContinue \<longleftrightarrow> (\<forall>n. \<not> gate fleet (i # is) n)" unfolding all using IH by blast
    moreover have "EvDecommissionTriggered \<in> set (evss ! k) \<longleftrightarrow> gate fleet (i # is) k" if "k < length evss" for k
    proof (cases k)
      case 0 with no show ?thesis by (simp add: rest(2))
    next
      case (Suc j) with IH that show ?thesis by (simp add: rest(2) gate_Suc f)
    qed
    moreover have "\<exists>names. filter met (concat evss) = map EvCriterionMet names \<and> distinct (rev names @ green)"
      using m n by (intro exI[of _ "names @ m"]) (simp add: rest(2))
    ultimately show ?thesis using IH spec(4) by (simp add: rest(2))
  qed
qed

lemma soak_ticks_length: "soak_ticks is fleet green = (evss, r) \<Longrightarrow> length evss \<le> length is"
  by (induction "is" arbitrary: fleet green evss r) (auto split: prod.splits if_splits)

text \<open>
  C17: a watcher decommissions the node at the first tick at which every criterion was checked green and the fleet flag was seen in
  that tick or an earlier one, and never otherwise: a criterion that is red or cannot be checked holds it back. Every tick emits one
  heartbeat, and a criterion is reported as met once per watcher.
\<close>
theorem decommission_gate:
  assumes "soak_ticks is False [] = (evss, r)"
  shows "(\<forall>k<length evss. EvDecommissionTriggered \<in> set (evss ! k) \<longleftrightarrow>
      (\<forall>(name, c, n) \<in> set (ti_checks (is ! k)). c = Inr True) \<and> (\<exists>m\<le>k. ti_flag (is ! m))) \<and>
    (r = TickContinue \<longleftrightarrow> (\<forall>n<length is. \<not> ((\<forall>(name, c, n) \<in> set (ti_checks (is ! n)). c = Inr True) \<and> (\<exists>m\<le>n. ti_flag (is ! m))))) \<and>
    (\<forall>evs \<in> set evss. length (filter check_ev evs) = 1) \<and> distinct (filter met (concat evss))"
proof -
  have len: "length evss \<le> length is" using assms by (rule soak_ticks_length)
  have g: "gate False is n \<longleftrightarrow> n < length is \<and> (\<forall>(name, c, n) \<in> set (ti_checks (is ! n)). c = Inr True) \<and> (\<exists>m\<le>n. ti_flag (is ! m))" for n
    by (simp add: gate_def all_green_def list_all_iff case_prod_beta)
  note spec = soak_ticks_gate[OF assms distinct.simps(1)[THEN iffD2, OF TrueI]]
  then obtain names where "filter met (concat evss) = map EvCriterionMet names" "distinct names" by auto
  then have "distinct (filter met (concat evss))" by (simp add: distinct_map inj_on_def)
  with spec len show ?thesis by (auto simp: g)
qed

theorem decommission_gate_witness:
  "\<exists>evss. soak_ticks [\<lparr>ti_checks = [(''SoakDuration'', Inr True, None)], ti_flag = False, ti_decommission = Inr ()\<rparr>,
       \<lparr>ti_checks = [(''SoakDuration'', Inr True, None)], ti_flag = True, ti_decommission = Inr ()\<rparr>] False [] = (evss, TickDone) \<and>
     EvDecommissionTriggered \<notin> set (evss ! 0) \<and> EvDecommissionTriggered \<in> set (evss ! 1)"
proof -
  let ?is = "[\<lparr>ti_checks = [(''SoakDuration'', Inr True, None)], ti_flag = False, ti_decommission = Inr ()\<rparr>,
       \<lparr>ti_checks = [(''SoakDuration'', Inr True, None)], ti_flag = True, ti_decommission = Inr ()\<rparr>]"
  have r: "map_prod length id (soak_ticks ?is False []) = (2, TickDone)" by code_simp
  then obtain evss where e: "soak_ticks ?is False [] = (evss, TickDone)" "length evss = 2" by (cases "soak_ticks ?is False []") auto
  have "\<exists>m\<le>Suc 0. ti_flag (?is ! m)" by (rule exI[of _ "Suc 0"]) simp
  with decommission_gate[OF e(1)] e show ?thesis by (intro exI[of _ evss]) simp
qed

text \<open>With the criteria that the daemon wires, a decommissioning waits for the soak period; and as two of them are stubs, it never happens.\<close>

lemma decommission_after_soak:
  assumes "all_green i" "(''SoakDuration'', SoakDuration_Check 0 now req, None) \<in> set (ti_checks i)" "sq_CutoverTimestamp req = Some c"
  shows "now - c \<ge> DefaultSoakPeriod"
  using assms by (auto simp: all_green_def list_all_iff SoakDuration_Check_def since_def Let_def)

lemma stub_criterion_blocks:
  assumes "(''UploaderBacklogCleared'', UploaderBacklogCleared_Check, None) \<in> set (ti_checks i)"
  shows "\<not> all_green i"
  using assms by (force simp: all_green_def list_all_iff UploaderBacklogCleared_Check_def)

text \<open>A start request that is accepted names a plan in the staging directory.\<close>

lemma accepted_plan_path:
  assumes "handleConsensusSoakStart cwd enabled (Some req) tryEnqueue = 202" "\<forall>wd. cwd = Some wd \<longrightarrow> filepath_IsAbs wd"
  shows "\<exists>q. ValidatePathWithinBase cwd MigrationPlanBaseDir (sq_MigrationPlanPath req) = Inr q \<and>
    prefix (abs_elems MigrationPlanBaseDir) (abs_elems q) \<and> list_all plain_elem (abs_elems q)"
proof -
  have "is_ok (SoakStartRequest_Validate cwd req)" using assms(1) by (auto simp: handleConsensusSoakStart_def split: if_splits)
  then obtain q where "ValidatePathWithinBase cwd MigrationPlanBaseDir (sq_MigrationPlanPath req) = Inr q"
    by (auto simp: SoakStartRequest_Validate_def is_ok_unit rbind_Inr_iff split: if_splits)
  with ValidatePathWithinBase_contains[OF this assms(2)] show ?thesis by blast
qed

end
