(* ===== verification/Fstab.thy ===== *)
theory Fstab
  imports Sanity
begin

text \<open>
  The two components that edit \<open>/etc/fstab\<close>: swap (\<open>pkg/os/swap_unix.go\<close>) and bind mounts (\<open>internal/mount/mount_unix.go\<close>). System
  calls, systemd, symbolic links and the listings of \<open>/proc\<close> are parameters; \<open>'k\<close> is the state they act on. An error of the
  namespace \<open>os\<close> is an \<open>ExternalError\<close> with the name of its type.
\<close>

section \<open>Lines and fields\<close>

text \<open>\<open>strings.Fields\<close>: the maximal runs of bytes that are not white space; the first argument is the run read so far.\<close>

function fields_loop :: "string \<Rightarrow> string \<Rightarrow> string list" where
  "fields_loop cur s =
     (if s = [] then (if cur = [] then [] else [cur])
      else if space_len space_runes s > 0 then (if cur = [] then [] else [cur]) @ fields_loop [] (drop (space_len space_runes s) s)
      else fields_loop (cur @ [hd s]) (tl s))"
  by pat_completeness auto
termination
  by (relation "measure (\<lambda>(cur, s). length s)") auto

declare fields_loop.simps [simp del]

definition strings_Fields :: "string \<Rightarrow> string list" where
  "strings_Fields s = fields_loop [] s"

definition drop_cr :: "string \<Rightarrow> string" where
  "drop_cr l = (if l \<noteq> [] \<and> last l = CHR 0x0D then butlast l else l)"

text \<open>
  \<open>bufio.Scanner\<close> with \<open>ScanLines\<close>: the lines, and whether it stopped at a line that does not fit its buffer of 64 KiB.
\<close>

definition scan_lines :: "string \<Rightarrow> string list \<times> bool" where
  "scan_lines s =
     (let parts = strings_Split nl s;
          ls = (if last parts = [] then butlast parts else parts);
          ok = takeWhile (\<lambda>l. int (length l) < 65536) ls
      in (map drop_cr ok, length ok < length ls))"

definition os_error :: "string \<Rightarrow> err" where
  "os_error t = Err ExternalError t"

definition cut_comment :: "string \<Rightarrow> string" where
  "cut_comment l = takeWhile (\<lambda>c. c \<noteq> CHR ''#'') l"

section \<open>Swap entries\<close>

datatype errno = EPERM | ENOMEM | EINVAL | OtherErrno

record 'k swap_env =
  sx_EvalSymlinks :: "string \<Rightarrow> string option"
  sx_ProcSwaps :: "'k \<Rightarrow> string option"
  sx_SwapOff :: "string \<Rightarrow> 'k \<Rightarrow> errno option \<times> 'k"
  sx_SwapOn :: "string \<Rightarrow> 'k \<Rightarrow> errno option \<times> 'k"
  sx_ActiveUnits :: "'k \<Rightarrow> string list option"
  sx_AllUnits :: "'k \<Rightarrow> string list option"
  sx_MaskUnit :: "string \<Rightarrow> 'k \<Rightarrow> string option \<times> 'k"
  sx_UnmaskUnit :: "string \<Rightarrow> 'k \<Rightarrow> string option \<times> 'k"
  sx_DaemonReload :: "'k \<Rightarrow> bool \<times> 'k"
  sx_WriteFails :: bool

text \<open>The host: the contents of \<open>/etc/fstab\<close>, if it exists, and the rest.\<close>

record 'k swap_host =
  sh_fstab :: "string option"
  sh_kernel :: 'k

definition resolveSpec :: "(string \<Rightarrow> string option) \<Rightarrow> string \<Rightarrow> string result" where
  "resolveSpec links spec =
     (if spec = [] then Inl (Err IllegalArgument ''spec cannot be empty'')
      else
        (let path = (if strings_HasPrefix spec ''UUID='' then filepath_Clean (''/dev/disk/by-uuid/'' @ strings_TrimPrefix spec ''UUID='')
                     else if strings_HasPrefix spec ''LABEL='' then filepath_Clean (''/dev/disk/by-label/'' @ strings_TrimPrefix spec ''LABEL='')
                     else spec)
         in case links path of Some realPath \<Rightarrow> Inr realPath | None \<Rightarrow> Inl (os_error ''device_not_found'')))"

definition proc_swap :: "(string \<Rightarrow> string option) \<Rightarrow> string \<Rightarrow> string option" where
  "proc_swap links line = (case strings_Fields line of [] \<Rightarrow> None | dev # _ \<Rightarrow> Some (case links dev of Some r \<Rightarrow> r | None \<Rightarrow> dev))"

definition parseProcSwaps :: "(string \<Rightarrow> string option) \<Rightarrow> string option \<Rightarrow> string list result" where
  "parseProcSwaps links content = (case content of
     None \<Rightarrow> Inl (os_error ''file_inaccessible'')
   | Some c \<Rightarrow> (case scan_lines c of (ls, tooLong) \<Rightarrow>
       if ls = [] then Inr []
       else if tooLong then Inl (os_error ''file_read_error'')
       else Inr (List.map_filter (proc_swap links) (tl ls))))"

text \<open>The source of a line of \<open>/etc/fstab\<close> that has the type swap.\<close>

definition fstab_swap :: "string \<Rightarrow> string option" where
  "fstab_swap line =
     (let fields = strings_Fields (cut_comment line)
      in if length fields < 3 then None else if fields ! 2 = ''swap'' then Some (fields ! 0) else None)"

definition parseFstabSwaps :: "(string \<Rightarrow> string option) \<Rightarrow> string option \<Rightarrow> string list result" where
  "parseFstabSwaps links content = (case content of
     None \<Rightarrow> Inr []
   | Some c \<Rightarrow> (case scan_lines c of (ls, tooLong) \<Rightarrow>
       rbind (rmap (resolveSpec links) (List.map_filter fstab_swap ls)) (\<lambda>swaps.
         if tooLong then Inl (os_error ''file_read_error'') else Inr swaps)))"

definition isActiveSwap :: "string \<Rightarrow> string list \<Rightarrow> bool" where
  "isActiveSwap spec activeSwaps = list_ex (\<lambda>s. s = spec) activeSwaps"

definition isSwapEntry :: "string \<Rightarrow> bool" where
  "isSwapEntry line = (let fields = strings_Fields line in length fields \<ge> 4 \<and> fields ! 2 = ''swap'')"

definition commentOutSwapLine :: "string \<Rightarrow> string" where
  "commentOutSwapLine line = (if isSwapEntry line \<and> \<not> strings_HasPrefix line ''#'' then ''#'' @ line else line)"

definition uncommentSwapLine :: "string \<Rightarrow> string" where
  "uncommentSwapLine line =
     (if strings_HasPrefix line ''#'' then
        (let uncommented = strings_TrimSpace (dropWhile (\<lambda>c. c = CHR ''#'') line)
         in if isSwapEntry uncommented then uncommented else line)
      else line)"

text \<open>The new content, for a file that is scanned to its end.\<close>

definition rewrite_fstab :: "(string \<Rightarrow> string) \<Rightarrow> string list \<Rightarrow> string" where
  "rewrite_fstab modifier ls = strings_Join [nl] (map (\<lambda>line. if isSwapEntry line then modifier line else line) ls) @ [nl]"

definition updateFstabFile :: "'k swap_env \<Rightarrow> (string \<Rightarrow> string) \<Rightarrow> ('k swap_host, unit) action" where
  "updateFstabFile env modifier h = (case sh_fstab h of
     None \<Rightarrow> (Inl (os_error ''file_inaccessible''), h)
   | Some input \<Rightarrow> (case scan_lines input of (ls, tooLong) \<Rightarrow>
       if tooLong then (Inl (os_error ''file_read_error''), h)
       else if sx_WriteFails env then (Inl (os_error ''file_write_error''), h)
       else (Inr (), h\<lparr>sh_fstab := Some (rewrite_fstab modifier ls)\<rparr>)))"

section \<open>Turning swap off and on\<close>

definition handleSyscallErr :: "errno option \<Rightarrow> unit result" where
  "handleSyscallErr e = (case e of
     None \<Rightarrow> Inr ()
   | Some EPERM \<Rightarrow> Inl (os_error ''not_super_user'')
   | Some ENOMEM \<Rightarrow> Inl (os_error ''out_of_memory'')
   | Some EINVAL \<Rightarrow> Inl (os_error ''invalid_swap_file'')
   | Some OtherErrno \<Rightarrow> Inl (os_error ''unknown_syscall''))"

definition SwapOff :: "'k swap_env \<Rightarrow> string \<Rightarrow> ('k swap_host, unit) action" where
  "SwapOff env path h = (case sx_SwapOff env path (sh_kernel h) of (e, k) \<Rightarrow> (handleSyscallErr e, h\<lparr>sh_kernel := k\<rparr>))"

definition SwapOn :: "'k swap_env \<Rightarrow> string \<Rightarrow> ('k swap_host, unit) action" where
  "SwapOn env path h = (case sx_SwapOn env path (sh_kernel h) of (e, k) \<Rightarrow> (handleSyscallErr e, h\<lparr>sh_kernel := k\<rparr>))"

definition ignorable :: "err \<Rightarrow> bool" where
  "ignorable e \<longleftrightarrow> e = os_error ''device_not_found'' \<or> e = os_error ''invalid_swap_file''"

definition swapoff_inactive :: "'k swap_env \<Rightarrow> string list \<Rightarrow> string \<Rightarrow> ('k swap_host, unit) action" where
  "swapoff_inactive env activeSwaps spec h =
     (if isActiveSwap spec activeSwaps then (Inr (), h)
      else (case SwapOff env spec h of
         (Inl e, h') \<Rightarrow> if ignorable e then (Inr (), h') else (Inl e, h')
       | (Inr _, h') \<Rightarrow> (Inr (), h')))"

definition SwapOffAll :: "'k swap_env \<Rightarrow> ('k swap_host, unit) action" where
  "SwapOffAll env =
     sbind (sread (\<lambda>h. parseProcSwaps (sx_EvalSymlinks env) (sx_ProcSwaps env (sh_kernel h)))) (\<lambda>activeSwaps.
     sbind (seach (SwapOff env) activeSwaps) (\<lambda>_.
     sbind (sread (\<lambda>h. parseFstabSwaps (sx_EvalSymlinks env) (sh_fstab h))) (\<lambda>fstabSwaps.
     seach (swapoff_inactive env activeSwaps) fstabSwaps)))"

definition SwapOnAll :: "'k swap_env \<Rightarrow> ('k swap_host, unit) action" where
  "SwapOnAll env =
     sbind (sread (\<lambda>h. parseFstabSwaps (sx_EvalSymlinks env) (sh_fstab h))) (\<lambda>fstabSwaps. seach (SwapOn env) fstabSwaps)"

text \<open>The units are handled one after the other; the texts of the errors that count are collected.\<close>

fun on_units :: "(string \<Rightarrow> 'k \<Rightarrow> string option \<times> 'k) \<Rightarrow> (string \<Rightarrow> bool) \<Rightarrow> string list \<Rightarrow> 'k \<Rightarrow> string list \<times> 'k" where
  "on_units f benign [] k = ([], k)"
| "on_units f benign (u # us) k =
     (case f u k of (e, k1) \<Rightarrow> case on_units f benign us k1 of (errs, k2) \<Rightarrow>
        ((case e of None \<Rightarrow> [] | Some t \<Rightarrow> if benign t then [] else [u @ '': '' @ t]) @ errs, k2))"

definition units_step ::
  "('k \<Rightarrow> string list option) \<Rightarrow> (string \<Rightarrow> 'k \<Rightarrow> string option \<times> 'k) \<Rightarrow> (string \<Rightarrow> bool) \<Rightarrow> ('k swap_host, unit) action" where
  "units_step lst f benign h = (case lst (sh_kernel h) of
     None \<Rightarrow> (Inl (os_error ''systemd_operation_error''), h)
   | Some us \<Rightarrow> (case on_units f benign us (sh_kernel h) of (errs, k) \<Rightarrow>
       (if errs \<noteq> [] then Inl (os_error ''systemd_operation_error'') else Inr (), h\<lparr>sh_kernel := k\<rparr>)))"

definition maskSystemdSwapUnits :: "'k swap_env \<Rightarrow> ('k swap_host, unit) action" where
  "maskSystemdSwapUnits env = units_step (sx_ActiveUnits env) (sx_MaskUnit env)
     (\<lambda>t. strings_Contains t ''masked'' \<or> strings_Contains t ''File exists'')"

definition unmaskSystemdSwapUnits :: "'k swap_env \<Rightarrow> ('k swap_host, unit) action" where
  "unmaskSystemdSwapUnits env = units_step (sx_AllUnits env) (sx_UnmaskUnit env)
     (\<lambda>t. strings_Contains t ''not masked'' \<or> strings_Contains t ''No such file'')"

definition reload :: "'k swap_env \<Rightarrow> ('k swap_host, unit) action" where
  "reload env h = (case sx_DaemonReload env (sh_kernel h) of (ok, k) \<Rightarrow>
     (if ok then Inr () else Inl (os_error ''systemd_operation_error''), h\<lparr>sh_kernel := k\<rparr>))"

definition DisableSwap :: "'k swap_env \<Rightarrow> ('k swap_host, unit) action" where
  "DisableSwap env =
     sbind (maskSystemdSwapUnits env) (\<lambda>_. sbind (SwapOffAll env) (\<lambda>_.
     sbind (updateFstabFile env commentOutSwapLine) (\<lambda>_. reload env)))"

definition EnableSwap :: "'k swap_env \<Rightarrow> ('k swap_host, unit) action" where
  "EnableSwap env =
     sbind (updateFstabFile env uncommentSwapLine) (\<lambda>_. sbind (unmaskSystemdSwapUnits env) (\<lambda>_.
     sbind (reload env) (\<lambda>_. SwapOnAll env)))"

section \<open>Bind mounts\<close>

record bind_mount =
  bm_Source :: string
  bm_Target :: string

record fstab_entry =
  fe_source :: string
  fe_target :: string
  fe_fsType :: string
  fe_options :: string
  fe_dump :: string
  fe_pass :: string

definition fstabEntry_String :: "fstab_entry \<Rightarrow> string" where
  "fstabEntry_String e = strings_Join '' '' [fe_source e, fe_target e, fe_fsType e, fe_options e, fe_dump e, fe_pass e]"

definition parseFstabEntry :: "string \<Rightarrow> fstab_entry option" where
  "parseFstabEntry line =
     (let fields = strings_Fields (cut_comment line) in
      if length fields < 4 then None
      else Some \<lparr>fe_source = fields ! 0, fe_target = fields ! 1, fe_fsType = fields ! 2, fe_options = fields ! 3,
        fe_dump = (if length fields \<ge> 5 then fields ! 4 else ''0''), fe_pass = (if length fields \<ge> 6 then fields ! 5 else ''0'')\<rparr>)"

definition readFstab :: "string option \<Rightarrow> (fstab_entry list \<times> string list) result" where
  "readFstab content = (case content of
     None \<Rightarrow> Inr ([], [])
   | Some c \<Rightarrow> (case scan_lines c of (ls, tooLong) \<Rightarrow>
       if tooLong then Inl (os_error ''file_read_error'') else Inr (List.map_filter parseFstabEntry ls, ls)))"

definition fstab_content :: "string list \<Rightarrow> string" where
  "fstab_content ls = (let c = strings_Join [nl] ls in if strings_HasSuffix c [nl] then c else c @ [nl])"

record 'k mount_env =
  mx_WriteFails :: bool
  mx_SameInode :: "string \<Rightarrow> string \<Rightarrow> 'k \<Rightarrow> bool option"
  mx_MkdirAll :: "string \<Rightarrow> 'k \<Rightarrow> bool \<times> 'k"
  mx_Mount :: "string \<Rightarrow> string \<Rightarrow> 'k \<Rightarrow> bool \<times> 'k"
  mx_Unmount :: "string \<Rightarrow> 'k \<Rightarrow> bool \<times> 'k"

definition writeFstab :: "'k mount_env \<Rightarrow> string list \<Rightarrow> ('k swap_host, unit) action" where
  "writeFstab env ls h =
     (if mx_WriteFails env then (Inl (os_error ''file_write_error''), h) else (Inr (), h\<lparr>sh_fstab := Some (fstab_content ls)\<rparr>))"

definition addFstabEntry :: "'k mount_env \<Rightarrow> fstab_entry \<Rightarrow> ('k swap_host, unit) action" where
  "addFstabEntry env entry =
     sbind (sread (\<lambda>h. readFstab (sh_fstab h))) (\<lambda>(entries, ls).
     if list_ex (\<lambda>e. fe_target e = fe_target entry) entries then sret ()
     else writeFstab env (ls @ [fstabEntry_String entry]))"

definition other_target :: "string \<Rightarrow> string \<Rightarrow> bool" where
  "other_target target line = (case parseFstabEntry line of None \<Rightarrow> True | Some e \<Rightarrow> fe_target e \<noteq> target)"

definition removeFstabEntry :: "'k mount_env \<Rightarrow> string \<Rightarrow> ('k swap_host, unit) action" where
  "removeFstabEntry env target =
     sbind (sread (\<lambda>h. readFstab (sh_fstab h))) (\<lambda>(_, ls).
     if list_all (other_target target) ls then sret () else writeFstab env (filter (other_target target) ls))"

definition sanitizeBindMount :: "string option \<Rightarrow> bind_mount \<Rightarrow> bind_mount result" where
  "sanitizeBindMount cwd m =
     rbind (SanitizePath cwd (bm_Source m)) (\<lambda>cleanSource.
     rbind (SanitizePath cwd (bm_Target m)) (\<lambda>cleanTarget.
     if cleanSource = cleanTarget then Inl (Err IllegalArgument ''source and target paths cannot be the same'')
     else Inr \<lparr>bm_Source = cleanSource, bm_Target = cleanTarget\<rparr>))"

text \<open>\<open>mx_SameInode\<close> is \<open>Some False\<close> when one of the paths does not exist, and \<open>None\<close> when a \<open>stat\<close> fails.\<close>

definition isBindMounted :: "'k mount_env \<Rightarrow> bind_mount \<Rightarrow> 'k swap_host \<Rightarrow> bool result" where
  "isBindMounted env m h = (case mx_SameInode env (bm_Source m) (bm_Target m) (sh_kernel h) of
     None \<Rightarrow> Inl (Err ExternalError ''stat'') | Some b \<Rightarrow> Inr b)"

definition on_kernel :: "string \<Rightarrow> ('k \<Rightarrow> bool \<times> 'k) \<Rightarrow> ('k swap_host, unit) action" where
  "on_kernel msg f h = (case f (sh_kernel h) of (ok, k) \<Rightarrow> (if ok then Inr () else Inl (Err ExternalError msg), h\<lparr>sh_kernel := k\<rparr>))"

definition setupBindMount :: "'k mount_env \<Rightarrow> bind_mount \<Rightarrow> ('k swap_host, unit) action" where
  "setupBindMount env m =
     sbind (sread (\<lambda>h. map_err (wrap ExternalError ''failed to check if mounted'') (isBindMounted env m h))) (\<lambda>mounted.
     if mounted then sret ()
     else sbind (on_kernel ''failed to create directory'' (mx_MkdirAll env (bm_Target m))) (\<lambda>_.
       on_kernel ''failed to bind mount'' (mx_Mount env (bm_Source m) (bm_Target m))))"

definition unmountBindMount :: "'k mount_env \<Rightarrow> bind_mount \<Rightarrow> ('k swap_host, unit) action" where
  "unmountBindMount env m =
     sbind (sread (\<lambda>h. map_err (wrap ExternalError ''failed to check if mounted'') (isBindMounted env m h))) (\<lambda>mounted.
     if \<not> mounted then sret () else on_kernel ''failed to unmount'' (mx_Unmount env (bm_Target m)))"

definition bind_entry :: "bind_mount \<Rightarrow> fstab_entry" where
  "bind_entry m = \<lparr>fe_source = bm_Source m, fe_target = bm_Target m, fe_fsType = ''none'', fe_options = ''bind,nofail'', fe_dump = ''0'', fe_pass = ''0''\<rparr>"

definition SetupBindMountsWithFstab :: "'k mount_env \<Rightarrow> string option \<Rightarrow> bind_mount \<Rightarrow> ('k swap_host, unit) action" where
  "SetupBindMountsWithFstab env cwd m =
     sbind (slift (sanitizeBindMount cwd m)) (\<lambda>sanitized.
     sbind (addFstabEntry env (bind_entry sanitized)) (\<lambda>_. setupBindMount env sanitized))"

definition RemoveBindMountsWithFstab :: "'k mount_env \<Rightarrow> string option \<Rightarrow> bind_mount \<Rightarrow> ('k swap_host, unit) action" where
  "RemoveBindMountsWithFstab env cwd m =
     sbind (slift (sanitizeBindMount cwd m)) (\<lambda>sanitized.
     sbind (unmountBindMount env sanitized) (\<lambda>_. removeFstabEntry env (bm_Target sanitized)))"

definition IsBindMountedWithFstab :: "'k mount_env \<Rightarrow> string option \<Rightarrow> bind_mount \<Rightarrow> 'k swap_host \<Rightarrow> (bool \<times> bool) result" where
  "IsBindMountedWithFstab env cwd m h =
     rbind (sanitizeBindMount cwd m) (\<lambda>sanitized.
     rbind (map_err (wrap ExternalError ''failed to check if mounted'') (isBindMounted env sanitized h)) (\<lambda>mounted.
     rbind (readFstab (sh_fstab h)) (\<lambda>(entries, _).
     Inr (mounted, list_ex (\<lambda>e. fe_target e = bm_Target sanitized \<and> fe_source e = bm_Source sanitized) entries))))"

definition deeper :: "string \<Rightarrow> string \<Rightarrow> bool" where
  "deeper a b \<longleftrightarrow> (if length a \<noteq> length b then length a > length b else a > b)"

definition mount_point_under :: "string \<Rightarrow> string \<Rightarrow> string option" where
  "mount_point_under pathPrefix line = (case strings_Fields line of
     _ # mountPoint # _ \<Rightarrow> if strings_HasPrefix mountPoint (pathPrefix @ ''/'') \<or> mountPoint = pathPrefix then Some mountPoint else None
   | _ \<Rightarrow> None)"

definition GetMountsUnderPath :: "string option \<Rightarrow> string \<Rightarrow> string list result" where
  "GetMountsUnderPath procMounts pathPrefix = (case procMounts of
     None \<Rightarrow> Inl (Err ExternalError ''failed to open /proc/mounts'')
   | Some c \<Rightarrow> (case scan_lines c of (ls, tooLong) \<Rightarrow>
       if tooLong then Inl (Err ExternalError ''failed to read /proc/mounts'')
       else Inr (sort_by deeper (List.map_filter (mount_point_under pathPrefix) ls))))"

section \<open>Fields\<close>

lemma space_len_printable: "graphic c \<Longrightarrow> space_len space_runes (c # s) = 0"
proof -
  assume "graphic c"
  then have "\<not> prefix r (c # s)" if "r \<in> set space_runes" for r
    using space_runes_graphic(1) that by (cases r) auto
  then have "find (\<lambda>r. prefix r (c # s)) space_runes = None" by (simp add: find_None_iff)
  then show ?thesis by (simp add: space_len_def)
qed

lemma fields_loop_graphic: "graphic c \<Longrightarrow> fields_loop cur (c # s) = fields_loop (cur @ [c]) s"
  by (subst fields_loop.simps) (simp add: space_len_printable)

lemma fields_loop_word: "list_all graphic w \<Longrightarrow> fields_loop cur (w @ s) = fields_loop (cur @ w) s"
  by (induction w arbitrary: cur) (simp_all add: fields_loop_graphic)

lemma fields_loop_space: "cur \<noteq> [] \<Longrightarrow> fields_loop cur (CHR '' '' # s) = cur # fields_loop [] s"
proof -
  assume "cur \<noteq> []"
  moreover have "space_len space_runes (CHR '' '' # s) = 1" by (simp add: space_len_def space_runes_def)
  ultimately show ?thesis by (subst fields_loop.simps) simp
qed

lemma fields_loop_end: "cur \<noteq> [] \<Longrightarrow> fields_loop cur [] = [cur]"
  by (subst fields_loop.simps) simp

lemma Fields_Join:
  "\<forall>w \<in> set ws. w \<noteq> [] \<and> list_all graphic w \<Longrightarrow> strings_Fields (strings_Join '' '' ws) = ws"
proof (induction ws)
  case Nil
  then show ?case by (simp add: strings_Fields_def fields_loop.simps)
next
  case (Cons w ws)
  show ?case
  proof (cases ws)
    case Nil
    with Cons.prems fields_loop_word[of w "[]" "[]"] show ?thesis by (simp add: strings_Fields_def fields_loop_end)
  next
    case (Cons v vs)
    with Cons.prems Cons.IH fields_loop_word[of w "[]" "CHR '' '' # strings_Join '' '' ws"]
    show ?thesis by (simp add: strings_Fields_def fields_loop_space)
  qed
qed

lemma fields_loop_prefix:
  "cur \<noteq> [] \<Longrightarrow> fields_loop cur s \<noteq> [] \<and> fields_loop (p @ cur) s = (p @ hd (fields_loop cur s)) # tl (fields_loop cur s)"
proof (induction cur s rule: fields_loop.induct)
  case (1 cur s)
  consider "s = []" | "s \<noteq> []" "space_len space_runes s > 0" | "s \<noteq> []" "space_len space_runes s = 0" by auto
  then show ?case
  proof cases
    case 3
    then have "fields_loop c s = fields_loop (c @ [hd s]) (tl s)" for c by (subst fields_loop.simps) simp
    with 1(2)[OF 3(1)] 3 show ?thesis by simp
  qed (use "1.prems" in \<open>subst (1 2 3 4) fields_loop.simps, simp\<close>)+
qed

text \<open>The fields of a line with a hash in front.\<close>

lemma Fields_hash_tight:
  assumes "line \<noteq> []" "graphic (hd line)"
  shows "strings_Fields line \<noteq> [] \<and> strings_Fields (CHR ''#'' # line) = (CHR ''#'' # hd (strings_Fields line)) # tl (strings_Fields line)"
proof -
  obtain c s where l: "line = c # s" "graphic c" using assms by (cases line) auto
  have h: "graphic (CHR ''#'')" by (simp add: graphic_def)
  show ?thesis
    using fields_loop_prefix[of "[c]" s "''#''"] l(2) h by (simp add: strings_Fields_def l(1) fields_loop_graphic)
qed

lemma isSwapEntry_hash: "line \<noteq> [] \<Longrightarrow> graphic (hd line) \<Longrightarrow> isSwapEntry (CHR ''#'' # line) = isSwapEntry line"
  using Fields_hash_tight[of line] by (cases "strings_Fields line") (auto simp: isSwapEntry_def Let_def)

section \<open>Files of lines\<close>

text \<open>A line that survives being written and read: no line end, and room for one more byte.\<close>

definition clean_line :: "string \<Rightarrow> bool" where
  "clean_line l \<longleftrightarrow> nl \<notin> set l \<and> CHR 0x0D \<notin> set l \<and> int (length l) < 65535"

abbreviation file_of :: "string list \<Rightarrow> string" where
  "file_of ls \<equiv> strings_Join [nl] ls @ [nl]"

lemma Join_snoc: "ls \<noteq> [] \<Longrightarrow> strings_Join sep (ls @ [l]) = strings_Join sep ls @ sep @ l"
proof (induction ls)
  case (Cons a ls)
  then show ?case by (cases ls) auto
qed simp

lemma drop_cr_clean: "CHR 0x0D \<notin> set l \<Longrightarrow> drop_cr l = l"
  by (auto simp: drop_cr_def dest: last_in_set)

lemma scan_file:
  assumes "ls \<noteq> []" "\<forall>l \<in> set ls. nl \<notin> set l \<and> CHR 0x0D \<notin> set l \<and> length l < 65536"
  shows "scan_lines (file_of ls) = (ls, False)"
proof -
  have "strings_Split nl (strings_Join [nl] (ls @ [[]])) = ls @ [[]]" using assms by (intro Split_Join) auto
  then have s: "strings_Split nl (file_of ls) = ls @ [[]]" by (simp add: Join_snoc[OF assms(1)])
  have t: "takeWhile (\<lambda>l. length l < 65536) ls = ls" using assms(2) by (simp add: takeWhile_eq_all_conv)
  have m: "map drop_cr ls = ls" using assms(2) by (simp add: drop_cr_clean map_idI)
  show ?thesis by (simp add: scan_lines_def s t m Let_def)
qed

lemma scan_clean: "ls \<noteq> [] \<Longrightarrow> \<forall>l \<in> set ls. clean_line l \<Longrightarrow> scan_lines (file_of ls) = (ls, False)"
  by (rule scan_file) (auto simp: clean_line_def)

section \<open>Disabling swap\<close>

lemma commented_no_swap: "fstab_swap (CHR ''#'' # l) = None"
  by (simp add: fstab_swap_def cut_comment_def strings_Fields_def fields_loop.simps)

lemma commentOut_swap:
  "fstab_swap (commentOutSwapLine l) = (if isSwapEntry l then None else fstab_swap l)"
proof (cases "isSwapEntry l")
  case True
  then show ?thesis
  proof (cases "strings_HasPrefix l ''#''")
    case True
    then obtain r where "l = CHR ''#'' # r" by (auto simp: strings_HasPrefix_def prefix_def)
    with \<open>isSwapEntry l\<close> show ?thesis by (simp add: commentOutSwapLine_def strings_HasPrefix_def commented_no_swap)
  qed (simp add: commentOutSwapLine_def commented_no_swap)
qed (simp add: commentOutSwapLine_def)

lemma rewrite_comment: "rewrite_fstab commentOutSwapLine ls = file_of (map commentOutSwapLine ls)"
proof -
  have "(\<lambda>line. if isSwapEntry line then commentOutSwapLine line else line) = commentOutSwapLine"
    by (auto simp: commentOutSwapLine_def)
  then show ?thesis by (simp add: rewrite_fstab_def)
qed

lemma commentOut_clean:
  "clean_line l \<Longrightarrow> nl \<notin> set (commentOutSwapLine l) \<and> CHR 0x0D \<notin> set (commentOutSwapLine l) \<and> length (commentOutSwapLine l) < 65536"
  by (auto simp: clean_line_def commentOutSwapLine_def nl_def)

lemma map_filter_commentOut: "List.map_filter fstab_swap (map commentOutSwapLine ls) = List.map_filter fstab_swap (filter (\<lambda>l. \<not> isSwapEntry l) ls)"
  by (induction ls) (simp_all add: map_filter_simps commentOut_swap split: option.split)

lemma updateFstabFile_Inr:
  assumes "updateFstabFile env f h = (Inr (), h')" "sh_fstab h = Some c"
  obtains ls where "scan_lines c = (ls, False)" "h' = h\<lparr>sh_fstab := Some (rewrite_fstab f ls)\<rparr>"
  using assms by (auto simp: updateFstabFile_def split: prod.splits if_splits)

text \<open>A step that does not touch \<open>/etc/fstab\<close> and activates no swap.\<close>

definition calm :: "('k \<Rightarrow> string set) \<Rightarrow> ('k swap_host, 'a) action \<Rightarrow> bool" where
  "calm act m \<longleftrightarrow> (\<forall>h r h'. m h = (r, h') \<longrightarrow> sh_fstab h' = sh_fstab h \<and> act (sh_kernel h') \<subseteq> act (sh_kernel h))"

lemma calmD: "calm act m \<Longrightarrow> m h = (r, h') \<Longrightarrow> sh_fstab h' = sh_fstab h \<and> act (sh_kernel h') \<subseteq> act (sh_kernel h)"
  by (simp add: calm_def)

lemma calm_sbind:
  assumes m: "calm act m" and f: "\<And>x. calm act (f x)"
  shows "calm act (sbind m f)"
  unfolding calm_def
proof (intro allI impI)
  fix h r h' assume s: "sbind m f h = (r, h')"
  obtain r1 h1 where m1: "m h = (r1, h1)" by (cases "m h")
  note b1 = calmD[OF m m1]
  show "sh_fstab h' = sh_fstab h \<and> act (sh_kernel h') \<subseteq> act (sh_kernel h)"
  proof (cases r1)
    case (Inl e)
    with s m1 b1 show ?thesis by (simp add: sbind_def)
  next
    case (Inr x)
    then have "f x h1 = (r, h')" using s m1 by (simp add: sbind_def)
    from calmD[OF f this] b1 show ?thesis by auto
  qed
qed

lemma calm_sread: "calm act (sread g)"
  by (simp add: calm_def sread_def)

lemma calm_seach: "(\<And>x. calm act (f x)) \<Longrightarrow> calm act (seach f xs)"
  by (induction xs) (auto intro: calm_sbind simp: calm_def[of _ "sret ()"])

abbreviation swapoff_law :: "'k swap_env \<Rightarrow> ('k \<Rightarrow> string set) \<Rightarrow> bool" where
  "swapoff_law env act \<equiv> \<forall>p k e k'. sx_SwapOff env p k = (e, k') \<longrightarrow> act k' \<subseteq> act k \<and> (e = None \<longrightarrow> p \<notin> act k')"

lemma calm_SwapOff: "swapoff_law env act \<Longrightarrow> calm act (SwapOff env p)"
  by (auto simp: calm_def SwapOff_def split: prod.splits)

lemma SwapOff_gone:
  assumes "swapoff_law env act" "SwapOff env p h = (Inr (), h')"
  shows "p \<notin> act (sh_kernel h')"
  using assms by (auto simp: SwapOff_def handleSyscallErr_def split: prod.splits option.splits errno.splits)

lemma SwapOff_all_gone:
  assumes law: "swapoff_law env act" and run: "seach (SwapOff env) ps h = (Inr (), h')"
  shows "\<forall>p \<in> set ps. p \<notin> act (sh_kernel h')"
  using run
proof (induction ps arbitrary: h)
  case (Cons p ps)
  then obtain h1 where h1: "SwapOff env p h = (Inr (), h1)" "seach (SwapOff env) ps h1 = (Inr (), h')"
    by (auto simp: sbind_Inr_iff)
  have "act (sh_kernel h') \<subseteq> act (sh_kernel h1)" using calmD[OF calm_seach[OF calm_SwapOff[OF law]] h1(2)] by simp
  with SwapOff_gone[OF law h1(1)] Cons.IH[OF h1(2)] show ?case by auto
qed simp

lemma calm_inactive:
  assumes "swapoff_law env act"
  shows "calm act (swapoff_inactive env as p)"
  unfolding calm_def
proof (intro allI impI)
  fix h r h' assume s: "swapoff_inactive env as p h = (r, h')"
  obtain r1 h1 where o: "SwapOff env p h = (r1, h1)" by (cases "SwapOff env p h")
  have "h' = h \<or> h' = h1" using s by (auto simp: swapoff_inactive_def o split: if_splits sum.splits)
  with calmD[OF calm_SwapOff[OF assms] o] show "sh_fstab h' = sh_fstab h \<and> act (sh_kernel h') \<subseteq> act (sh_kernel h)" by auto
qed

lemma on_units_calm: "(\<And>u k. act (snd (f u k)) \<subseteq> act k) \<Longrightarrow> act (snd (on_units f b us k)) \<subseteq> act k"
proof (induction us arbitrary: k)
  case (Cons u us)
  from Cons.IH[OF Cons.prems, of "snd (f u k)"] Cons.prems[of u k] show ?case by (auto split: prod.splits)
qed simp

lemma calm_units: "(\<And>u k. act (snd (f u k)) \<subseteq> act k) \<Longrightarrow> calm act (units_step lst f b)"
  unfolding calm_def units_step_def
proof (intro allI impI)
  fix h r h'
  assume f: "\<And>u k. act (snd (f u k)) \<subseteq> act k"
    and s: "(case lst (sh_kernel h) of None \<Rightarrow> (Inl (os_error ''systemd_operation_error''), h)
      | Some us \<Rightarrow> (case on_units f b us (sh_kernel h) of (errs, k) \<Rightarrow>
          (if errs \<noteq> [] then Inl (os_error ''systemd_operation_error'') else Inr (), h\<lparr>sh_kernel := k\<rparr>))) = (r, h')"
  show "sh_fstab h' = sh_fstab h \<and> act (sh_kernel h') \<subseteq> act (sh_kernel h)"
  proof (cases "lst (sh_kernel h)")
    case (Some us)
    with s on_units_calm[of act f b us "sh_kernel h", OF f] show ?thesis by (auto split: prod.splits)
  qed (use s in simp)
qed

lemma calm_reload: "(\<And>k. act (snd (sx_DaemonReload env k)) \<subseteq> act k) \<Longrightarrow> calm act (reload env)"
  unfolding calm_def reload_def by (auto split: prod.splits) (metis snd_conv subsetD)

text \<open>
  C28: when \<open>DisableSwap\<close> succeeds, no swap is active any more, \<open>/etc/fstab\<close> differs only in that every line of at least four
  fields, the third of which is swap, is commented out, and the swap entries that reading it still finds are exactly the others that
  it found before, such as one of three fields: it is turned off but not commented out. The hypotheses: \<open>/proc/swaps\<close> lists the active swaps, a successful \<open>swapoff\<close> deactivates its
  argument, and neither it nor systemd's mask and reload activates any; the file is a non-empty text whose lines all end in
  a newline, have no carriage return and are shorter than a scanner's buffer.
\<close>
theorem swap_disabled:
  assumes run: "DisableSwap env h = (Inr (), h')" and fstab: "sh_fstab h = Some (file_of ls)" "ls \<noteq> []" "\<forall>l \<in> set ls. clean_line l"
    and proc: "\<forall>k. \<exists>l. parseProcSwaps (sx_EvalSymlinks env) (sx_ProcSwaps env k) = Inr l \<and> set l = act k" and off: "swapoff_law env act"
    and mask: "\<And>u k. act (snd (sx_MaskUnit env u k)) \<subseteq> act k" and rel: "\<And>k. act (snd (sx_DaemonReload env k)) \<subseteq> act k"
  shows "act (sh_kernel h') = {} \<and> sh_fstab h' = Some (file_of (map commentOutSwapLine ls)) \<and>
    parseFstabSwaps links (sh_fstab h') = rmap (resolveSpec links) (List.map_filter fstab_swap (filter (\<lambda>l. \<not> isSwapEntry l) ls))"
proof -
  from run obtain h1 h2 h3 where h: "maskSystemdSwapUnits env h = (Inr (), h1)" "SwapOffAll env h1 = (Inr (), h2)"
    "updateFstabFile env commentOutSwapLine h2 = (Inr (), h3)" "reload env h3 = (Inr (), h')"
    by (auto simp: DisableSwap_def sbind_Inr_iff)
  from h(2) obtain as h1' fs where s: "parseProcSwaps (sx_EvalSymlinks env) (sx_ProcSwaps env (sh_kernel h1)) = Inr as"
    "seach (SwapOff env) as h1 = (Inr (), h1')" "seach (swapoff_inactive env as) fs h1' = (Inr (), h2)"
    by (auto simp: SwapOffAll_def sbind_Inr_iff)
  have "calm act (maskSystemdSwapUnits env)" unfolding maskSystemdSwapUnits_def by (rule calm_units) (rule mask)
  note c1 = calmD[OF this h(1)]
  note c2 = calmD[OF calm_seach[OF calm_SwapOff[OF off]] s(2)]
  note c3 = calmD[OF calm_seach[OF calm_inactive[OF off]] s(3)]
  have "calm act (reload env)" by (rule calm_reload) (rule rel)
  note c4 = calmD[OF this h(4)]
  have f2: "sh_fstab h2 = Some (file_of ls)" using c1 c2 c3 fstab(1) by simp
  obtain ls' where u: "scan_lines (file_of ls) = (ls', False)" "h3 = h2\<lparr>sh_fstab := Some (rewrite_fstab commentOutSwapLine ls')\<rparr>"
    by (rule updateFstabFile_Inr[OF h(3) f2])
  have "ls' = ls" using u(1) scan_clean[OF fstab(2,3)] by simp
  then have f': "sh_fstab h' = Some (file_of (map commentOutSwapLine ls))" using c4 u(2) by (simp add: rewrite_comment)
  have scan: "scan_lines (file_of (map commentOutSwapLine ls)) = (map commentOutSwapLine ls, False)"
    using fstab(2,3) commentOut_clean by (intro scan_file) auto
  have "set as = act (sh_kernel h1)" using proc[rule_format, of "sh_kernel h1"] s(1) by auto
  then have "act (sh_kernel h1') = {}" using SwapOff_all_gone[OF off s(2)] c2 by auto
  then have "act (sh_kernel h') = {}" using c3 c4 u(2) by auto
  with f' scan show ?thesis
    by (cases "rmap (resolveSpec links) (List.map_filter fstab_swap (filter (\<lambda>l. \<not> isSwapEntry l) ls))")
      (simp_all add: parseFstabSwaps_def map_filter_commentOut)
qed

text \<open>A host with one swap device, whose state is whether it is active.\<close>

definition demo_swap :: "bool swap_env" where
  "demo_swap = \<lparr>sx_EvalSymlinks = Some, sx_ProcSwaps = (\<lambda>k. Some (if k then file_of [''Filename'', ''/dev/sda2 partition''] else file_of [''Filename''])),
     sx_SwapOff = (\<lambda>p k. (None, k \<and> p \<noteq> ''/dev/sda2'')), sx_SwapOn = (\<lambda>p k. (None, True)), sx_ActiveUnits = (\<lambda>_. Some []), sx_AllUnits = (\<lambda>_. Some []),
     sx_MaskUnit = (\<lambda>_ k. (None, k)), sx_UnmaskUnit = (\<lambda>_ k. (None, k)), sx_DaemonReload = (\<lambda>k. (True, k)), sx_WriteFails = False\<rparr>"

definition demo_fstab :: "string list" where
  "demo_fstab = [''UUID=1 / ext4 defaults 0 1'', ''/dev/sda2 none swap sw 0 0'']"

theorem swap_disabled_witness:
  "\<exists>h'. DisableSwap demo_swap \<lparr>sh_fstab = Some (file_of demo_fstab), sh_kernel = True\<rparr> = (Inr (), h') \<and> \<not> sh_kernel h' \<and>
     sh_fstab h' = Some (file_of [''UUID=1 / ext4 defaults 0 1'', ''#/dev/sda2 none swap sw 0 0''])"
proof -
  let ?h = "\<lparr>sh_fstab = Some (file_of demo_fstab), sh_kernel = True\<rparr>" and ?act = "\<lambda>k. if k then {''/dev/sda2''} else {}"
  have "fst (DisableSwap demo_swap ?h) = Inr ()" by code_simp
  then obtain h' where run: "DisableSwap demo_swap ?h = (Inr (), h')" by (cases "DisableSwap demo_swap ?h") auto
  have "?act (sh_kernel h') = {} \<and> sh_fstab h' = Some (file_of (map commentOutSwapLine demo_fstab)) \<and>
    parseFstabSwaps Some (sh_fstab h') = rmap (resolveSpec Some) (List.map_filter fstab_swap (filter (\<lambda>l. \<not> isSwapEntry l) demo_fstab))"
  proof (rule swap_disabled[OF run])
    show "\<forall>l \<in> set demo_fstab. clean_line l" "demo_fstab \<noteq> []" by code_simp+
    have "parseProcSwaps (sx_EvalSymlinks demo_swap) (sx_ProcSwaps demo_swap True) = Inr [''/dev/sda2'']"
      "parseProcSwaps (sx_EvalSymlinks demo_swap) (sx_ProcSwaps demo_swap False) = Inr []" by code_simp+
    then show "\<forall>k. \<exists>l. parseProcSwaps (sx_EvalSymlinks demo_swap) (sx_ProcSwaps demo_swap k) = Inr l \<and> set l = ?act k"
      by (metis (full_types) list.set(1) list.simps(15))
  qed (simp_all add: demo_swap_def)
  moreover have "map commentOutSwapLine demo_fstab = [''UUID=1 / ext4 defaults 0 1'', ''#/dev/sda2 none swap sw 0 0'']" by code_simp
  ultimately show ?thesis using run by (auto split: if_splits)
qed

section \<open>Enabling swap again\<close>

text \<open>An entry as tools write it: it starts with a printable character other than the hash, and no space follows it.\<close>

definition tight_entry :: "string \<Rightarrow> bool" where
  "tight_entry l \<longleftrightarrow> l \<noteq> [] \<and> graphic (hd l) \<and> hd l \<noteq> CHR ''#'' \<and> graphic (last l)"

lemma uncomment_comment:
  assumes "isSwapEntry l" "tight_entry l"
  shows "isSwapEntry (commentOutSwapLine l)" "uncommentSwapLine (commentOutSwapLine l) = l"
proof -
  have c: "commentOutSwapLine l = CHR ''#'' # l"
    using assms by (cases l) (auto simp: commentOutSwapLine_def strings_HasPrefix_def tight_entry_def)
  have d: "dropWhile (\<lambda>c. c = CHR ''#'') l = l" using assms(2) by (cases l) (auto simp: tight_entry_def)
  have s: "strings_TrimSpace l = l" using assms(2) by (intro TrimSpace_graphic) (simp add: tight_entry_def)
  show "isSwapEntry (commentOutSwapLine l)" using assms by (simp add: c isSwapEntry_hash tight_entry_def)
  show "uncommentSwapLine (commentOutSwapLine l) = l"
    using assms(1) d s by (simp add: c uncommentSwapLine_def strings_HasPrefix_def)
qed

text \<open>
  C29: uncommenting the swap entries, as \<open>EnableSwap\<close> does, restores the \<open>/etc/fstab\<close> in which \<open>DisableSwap\<close> commented them out, byte
  for byte, if the file is a non-empty text whose lines all end in a newline, have no carriage return and are shorter than
  a scanner's buffer, every swap entry starts and ends with a printable character, and none was commented out before.
\<close>
theorem swap_roundtrip:
  assumes "updateFstabFile env commentOutSwapLine h = (Inr (), h1)" "sh_fstab h = Some (file_of ls)" "ls \<noteq> []"
    "\<forall>l \<in> set ls. clean_line l \<and> (isSwapEntry l \<longrightarrow> tight_entry l)"
  shows "updateFstabFile env uncommentSwapLine h1 = (Inr (), h)"
proof -
  let ?c = "map commentOutSwapLine ls"
  have "scan_lines (file_of ls) = (ls, False)" using assms(3,4) by (intro scan_clean) auto
  then have h1: "h1 = h\<lparr>sh_fstab := Some (file_of ?c)\<rparr>" and ok: "\<not> sx_WriteFails env"
    using assms(1,2) by (auto simp: updateFstabFile_def rewrite_comment split: if_splits)
  have scan: "scan_lines (file_of ?c) = (?c, False)" using assms(3,4) commentOut_clean by (intro scan_file) auto
  have "(if isSwapEntry (commentOutSwapLine l) then uncommentSwapLine (commentOutSwapLine l) else commentOutSwapLine l) = l" if "l \<in> set ls" for l
  proof (cases "isSwapEntry l")
    case True
    with assms(4) that uncomment_comment show ?thesis by auto
  next
    case False
    then have "commentOutSwapLine l = l" by (simp add: commentOutSwapLine_def)
    with False show ?thesis by simp
  qed
  then have "map (\<lambda>l. if isSwapEntry l then uncommentSwapLine l else l) ?c = ls" by (simp add: map_idI)
  then have "rewrite_fstab uncommentSwapLine ?c = file_of ls" by (simp add: rewrite_fstab_def)
  with assms(2) scan ok show ?thesis by (simp add: h1 updateFstabFile_def)
qed

theorem swap_roundtrip_witness:
  "\<exists>h1. updateFstabFile demo_swap commentOutSwapLine \<lparr>sh_fstab = Some (file_of demo_fstab), sh_kernel = True\<rparr> = (Inr (), h1) \<and>
     updateFstabFile demo_swap uncommentSwapLine h1 = (Inr (), \<lparr>sh_fstab = Some (file_of demo_fstab), sh_kernel = True\<rparr>)"
proof -
  let ?h = "\<lparr>sh_fstab = Some (file_of demo_fstab), sh_kernel = True\<rparr>"
  have "fst (updateFstabFile demo_swap commentOutSwapLine ?h) = Inr ()" by code_simp
  then obtain h1 where run: "updateFstabFile demo_swap commentOutSwapLine ?h = (Inr (), h1)"
    by (cases "updateFstabFile demo_swap commentOutSwapLine ?h") auto
  have "\<forall>l \<in> set demo_fstab. clean_line l \<and> (isSwapEntry l \<longrightarrow> tight_entry l)" "demo_fstab \<noteq> []" by code_simp+
  with swap_roundtrip[OF run, of demo_fstab] run show ?thesis by auto
qed

text \<open>
  An entry that is indented is not found again: with the hash in front its type is no longer the third field. An entry of three
  fields is turned off but not commented out, so that the next boot activates it.
\<close>

lemma indented_entry_lost:
  "rewrite_fstab uncommentSwapLine (fst (scan_lines (rewrite_fstab commentOutSwapLine ['' /swap none swap sw 0 0''])))
   = file_of [''# /swap none swap sw 0 0'']"
  by code_simp

lemma three_fields_kept:
  "fstab_swap ''/swap none swap'' = Some ''/swap''" "rewrite_fstab commentOutSwapLine [''/swap none swap''] = file_of [''/swap none swap'']"
  by code_simp+

text \<open>
  A swap entry whose device does not exist makes \<open>DisableSwap\<close> fail before \<open>/etc/fstab\<close> is edited, because its source cannot be resolved;
  the case for it in \<open>SwapOffAll\<close> is never reached, as \<open>swapoff\<close> does not report this error.
\<close>

lemma stale_entry_blocks:
  assumes "\<And>p. links p = None" "fstab_swap l = Some spec" "scan_lines c = (l # ls, False)"
  shows "\<exists>e. parseFstabSwaps links (Some c) = Inl e"
  using assms by (simp add: parseFstabSwaps_def map_filter_simps resolveSpec_def Let_def)

lemma SwapOff_never_not_found: "fst (SwapOff env p h) \<noteq> Inl (os_error ''device_not_found'')"
  by (auto simp: SwapOff_def handleSyscallErr_def os_error_def split: prod.splits option.splits errno.splits)

section \<open>Bind mounts in fstab\<close>

lemma path_char_graphic: "is_alnum c \<or> c \<in> set ''/_.-'' \<Longrightarrow> graphic c \<and> c \<noteq> CHR ''#'' \<and> c \<noteq> nl \<and> c \<noteq> CHR 0x0D"
  by (auto simp: is_alnum_def is_digit_def is_lower_def is_upper_def graphic_def nl_def)

lemma path_graphic: "validPathChars p \<Longrightarrow> p \<noteq> [] \<and> list_all (\<lambda>c. graphic c \<and> c \<noteq> CHR ''#'' \<and> c \<noteq> nl \<and> c \<noteq> CHR 0x0D) p"
  unfolding validPathChars_def list_all_iff using path_char_graphic by blast

lemma sanitized_paths:
  assumes "sanitizeBindMount cwd m = Inr b" "\<forall>wd. cwd = Some wd \<longrightarrow> filepath_IsAbs wd"
  shows "validPathChars (bm_Source b)" "validPathChars (bm_Target b)"
  using assms SanitizePath_safe_aux by (auto simp: sanitizeBindMount_def rbind_Inr_iff split: if_splits)

definition entry_words :: "bind_mount \<Rightarrow> string list" where
  "entry_words b = [bm_Source b, bm_Target b, ''none'', ''bind,nofail'', ''0'', ''0'']"

lemma entry_String: "fstabEntry_String (bind_entry b) = strings_Join '' '' (entry_words b)"
  by (simp add: fstabEntry_String_def bind_entry_def entry_words_def)

lemma cut_comment_none: "CHR ''#'' \<notin> set l \<Longrightarrow> cut_comment l = l"
  by (auto simp: cut_comment_def takeWhile_eq_all_conv)

lemma entry_chars:
  assumes "validPathChars (bm_Source b)" "validPathChars (bm_Target b)" "c \<in> set (strings_Join '' '' (entry_words b))"
  shows "c \<noteq> CHR ''#'' \<and> c \<noteq> nl \<and> c \<noteq> CHR 0x0D"
  using assms path_graphic[of "bm_Source b"] path_graphic[of "bm_Target b"] by (auto simp: entry_words_def list_all_iff nl_def)

lemma parse_entry:
  assumes "validPathChars (bm_Source b)" "validPathChars (bm_Target b)"
  shows "parseFstabEntry (fstabEntry_String (bind_entry b)) = Some (bind_entry b)"
proof -
  have "CHR ''#'' \<notin> set (strings_Join '' '' (entry_words b))" using entry_chars[OF assms] by blast
  moreover have "\<forall>w \<in> set (entry_words b). w \<noteq> [] \<and> list_all graphic w"
    using assms[THEN path_graphic] by (simp add: entry_words_def graphic_def list_all_iff)
  ultimately have "strings_Fields (cut_comment (fstabEntry_String (bind_entry b))) = entry_words b"
    by (simp add: entry_String cut_comment_none Fields_Join)
  then show ?thesis by (simp add: parseFstabEntry_def entry_words_def bind_entry_def)
qed

lemma content_clean:
  assumes "ls \<noteq> []" "last ls \<noteq> []" "\<forall>l \<in> set ls. nl \<notin> set l"
  shows "fstab_content ls = file_of ls"
proof -
  have "last (strings_Join [nl] ls) = last (last ls) \<and> strings_Join [nl] ls \<noteq> []" using assms(1,2)
  proof (induction ls)
    case (Cons a ls)
    then show ?case by (cases ls) auto
  qed simp
  moreover have "last (last ls) \<noteq> nl" using assms by (metis last_in_set)
  ultimately show ?thesis by (auto simp: fstab_content_def strings_HasSuffix_def suffix_def Let_def)
qed

text \<open>
  C30: after a bind mount was entered into \<open>/etc/fstab\<close> the entry is found there with its source and target, entering it again changes
  nothing, and removing it restores the file byte for byte, if the file had no entry for the target, from whatever source. The other
  hypotheses: the file is a non-empty text whose lines all end in a newline, have no carriage return and are shorter than a scanner's
  buffer, its last line is not empty, and the two paths together are shorter than that buffer.
\<close>
theorem bind_entry_roundtrip:
  assumes b: "sanitizeBindMount cwd m = Inr b" "\<forall>wd. cwd = Some wd \<longrightarrow> filepath_IsAbs wd" "length (bm_Source b) + length (bm_Target b) < 65000"
    and f: "sh_fstab h = Some (file_of ls)" "ls \<noteq> []" "last ls \<noteq> []" "\<forall>l \<in> set ls. clean_line l \<and> other_target (bm_Target b) l"
    and add: "addFstabEntry env (bind_entry b) h = (Inr (), h1)"
  shows "(\<exists>es ks. readFstab (sh_fstab h1) = Inr (es, ks) \<and> bind_entry b \<in> set es) \<and>
    addFstabEntry env (bind_entry b) h1 = (Inr (), h1) \<and> removeFstabEntry env (bm_Target b) h1 = (Inr (), h)"
proof -
  let ?e = "fstabEntry_String (bind_entry b)"
  note v = sanitized_paths[OF b(1,2)]
  have pe: "parseFstabEntry ?e = Some (bind_entry b)" by (rule parse_entry[OF v])
  have ce: "nl \<notin> set ?e" "CHR 0x0D \<notin> set ?e" using entry_chars[OF v] by (auto simp: entry_String)
  have le: "length ?e < 65535" using b(3) by (simp add: entry_String entry_words_def)
  have ne: "?e \<noteq> []" using v(1) by (simp add: entry_String entry_words_def validPathChars_def)
  have scan: "scan_lines (file_of ls) = (ls, False)" using f by (intro scan_clean) auto
  have none: "\<not> list_ex (\<lambda>e. fe_target e = bm_Target b) (List.map_filter parseFstabEntry ls)"
    using f(4) by (auto simp: list_ex_iff map_filter_def other_target_def split: option.splits)
  have h1: "h1 = h\<lparr>sh_fstab := Some (file_of (ls @ [?e]))\<rparr>" and ok: "\<not> mx_WriteFails env"
  proof -
    have "fstab_content (ls @ [?e]) = file_of (ls @ [?e])" using f(4) ce ne by (intro content_clean) (auto simp: clean_line_def)
    then show "h1 = h\<lparr>sh_fstab := Some (file_of (ls @ [?e]))\<rparr>" "\<not> mx_WriteFails env"
      using add none f(1) scan by (auto simp: addFstabEntry_def sbind_def readFstab_def writeFstab_def bind_entry_def split: if_splits)
  qed
  have scan1: "scan_lines (file_of (ls @ [?e])) = (ls @ [?e], False)"
    using f(4) ce le by (intro scan_clean) (auto simp: clean_line_def)
  have mf: "List.map_filter parseFstabEntry (ls @ [?e]) = List.map_filter parseFstabEntry ls @ [bind_entry b]"
    by (simp add: map_filter_def pe)
  have read: "readFstab (sh_fstab h1) = Inr (List.map_filter parseFstabEntry ls @ [bind_entry b], ls @ [?e])"
    by (simp add: h1 readFstab_def scan1 mf)
  have keep: "filter (other_target (bm_Target b)) (ls @ [?e]) = ls" "\<not> list_all (other_target (bm_Target b)) (ls @ [?e])"
    using f(4) pe by (auto simp: other_target_def bind_entry_def intro: filter_True)
  have "fstab_content ls = file_of ls" using f by (intro content_clean) (auto simp: clean_line_def)
  then have "removeFstabEntry env (bm_Target b) h1 = (Inr (), h)"
    using keep ok f(1) unfolding removeFstabEntry_def by (simp add: sbind_def read writeFstab_def del: filter_append list_all_append) (simp add: h1)
  moreover have "addFstabEntry env (bind_entry b) h1 = (Inr (), h1)" by (simp add: addFstabEntry_def sbind_def read)
  ultimately show ?thesis using read by auto
qed

definition demo_mount :: "unit mount_env" where
  "demo_mount = \<lparr>mx_WriteFails = False, mx_SameInode = (\<lambda>_ _ _. Some False), mx_MkdirAll = (\<lambda>_ k. (True, k)), mx_Mount = (\<lambda>_ _ k. (True, k)),
     mx_Unmount = (\<lambda>_ k. (True, k))\<rparr>"

theorem bind_entry_roundtrip_witness:
  "\<exists>h1. addFstabEntry demo_mount (bind_entry \<lparr>bm_Source = ''/a'', bm_Target = ''/b''\<rparr>) \<lparr>sh_fstab = Some (file_of demo_fstab), sh_kernel = ()\<rparr> = (Inr (), h1) \<and>
     removeFstabEntry demo_mount ''/b'' h1 = (Inr (), \<lparr>sh_fstab = Some (file_of demo_fstab), sh_kernel = ()\<rparr>)"
proof -
  let ?b = "\<lparr>bm_Source = ''/a'', bm_Target = ''/b''\<rparr>" and ?h = "\<lparr>sh_fstab = Some (file_of demo_fstab), sh_kernel = ()\<rparr>"
  have "fst (addFstabEntry demo_mount (bind_entry ?b) ?h) = Inr ()" by code_simp
  then obtain h1 where run: "addFstabEntry demo_mount (bind_entry ?b) ?h = (Inr (), h1)"
    by (cases "addFstabEntry demo_mount (bind_entry ?b) ?h") auto
  have s: "sanitizeBindMount None \<lparr>bm_Source = ''/a'', bm_Target = ''/b/''\<rparr> = Inr ?b" by code_simp
  have "\<forall>l \<in> set demo_fstab. clean_line l \<and> other_target (bm_Target ?b) l" "demo_fstab \<noteq> []" "last demo_fstab \<noteq> []" by code_simp+
  with bind_entry_roundtrip[OF s _ _ _ _ _ _ run, of demo_fstab] run show ?thesis by auto
qed

text \<open>
  An entry is looked up by its target when it is added and removed but by source and target when it is checked: with an entry of another
  source for the target, adding leaves the file as it is, the check still reports the entry as missing, and removing deletes the other one.
\<close>

lemma other_source_entry:
  "(case addFstabEntry demo_mount (bind_entry \<lparr>bm_Source = ''/a'', bm_Target = ''/b''\<rparr>) \<lparr>sh_fstab = Some (file_of [''/x /b none bind 0 0'']), sh_kernel = ()\<rparr> of
      (r, h1) \<Rightarrow> (sh_fstab h1, IsBindMountedWithFstab demo_mount None \<lparr>bm_Source = ''/a'', bm_Target = ''/b''\<rparr> h1,
        sh_fstab (snd (removeFstabEntry demo_mount ''/b'' h1))))
   = (Some (file_of [''/x /b none bind 0 0'']), Inr (False, False), Some [nl])"
  by code_simp

text \<open>Mount points are listed so that none precedes one that is nested in it: unmounting in this order never leaves a busy parent.\<close>

interpretation mounts: weak_less deeper
  by unfold_locales (auto simp: deeper_def split: if_splits)

lemma mounts_deepest_first:
  assumes "GetMountsUnderPath c p = Inr ms" "i < j" "j < length ms"
  shows "length (ms ! j) \<le> length (ms ! i)"
proof -
  obtain ms0 where "ms = sort_by deeper ms0"
    using assms(1) by (auto simp: GetMountsUnderPath_def split: option.splits prod.splits if_splits)
  then have "sorted_by deeper ms" using mounts.sorted_sort_by by simp
  then have "\<not> deeper (ms ! j) (ms ! i)" using assms(2,3) by (simp add: sorted_by_def sorted_wrt_iff_nth_less)
  then show ?thesis by (auto simp: deeper_def split: if_splits)
qed

end
