(* ===== verification/EffectiveValue.thy ===== *)
theory EffectiveValue
  imports StateStore
begin

text \<open>
  The runtime state layer (\<open>internal/rsl\<close>): the effective value of a configurable field is chosen by a selector among
  the values that the live cluster, the persisted state, the operator, the environment, the configuration file and the built-in
  defaults supply, and is cached until a source changes. An \<open>automa.EffectiveValue\<close> is the pair of the value and its strategy;
  \<open>automa.NewValue\<close>, which may fail to encode a value, is the parameter \<open>automa_env\<close>.
\<close>

section \<open>Sources and selectors\<close>

datatype strategy =
    StrategyZero | StrategyDefault | StrategyEnv | StrategyConfig | StrategyState | StrategyReality | StrategyUserInput

type_synonym 'a sources = "strategy \<Rightarrow> 'a option"

record intent =
  in_Action :: string
  in_Target :: string

text \<open>A selector may look at the intent that its owner holds: it closes over the owner's field.\<close>

type_synonym 'a selector = "intent option \<Rightarrow> 'a sources \<Rightarrow> ('a \<times> strategy) result"

record automa_env =
  au_string :: "string \<Rightarrow> unit result"
  au_storage :: "bn_storage \<Rightarrow> unit result"

definition defaultOrderedStrategies :: "strategy list" where
  "defaultOrderedStrategies =
     [StrategyReality, StrategyState, StrategyUserInput, StrategyEnv, StrategyConfig, StrategyDefault, StrategyZero]"

text \<open>\<open>for _, st := range order { if v, ok := sources[st]; ok && p(v) { return v, st } }\<close>\<close>

fun first_source :: "('a \<Rightarrow> bool) \<Rightarrow> strategy list \<Rightarrow> 'a sources \<Rightarrow> ('a \<times> strategy) option" where
  "first_source p [] s = None"
| "first_source p (st # sts) s =
     (case s st of Some v \<Rightarrow> if p v then Some (v, st) else first_source p sts s | None \<Rightarrow> first_source p sts s)"

definition present :: "'a \<Rightarrow> bool" where
  "present v = True"

definition or_zero :: "'a \<Rightarrow> ('a \<times> strategy) option \<Rightarrow> ('a \<times> strategy) result" where
  "or_zero zero r = Inr (case r of Some p \<Rightarrow> p | None \<Rightarrow> (zero, StrategyZero))"

definition DefaultSelector_Resolve :: "'a \<Rightarrow> 'a selector" where
  "DefaultSelector_Resolve zero i s = or_zero zero (first_source present defaultOrderedStrategies s)"

definition StrategyName :: "strategy \<Rightarrow> string" where
  "StrategyName st = (case st of StrategyZero \<Rightarrow> ''zero'' | StrategyDefault \<Rightarrow> ''default'' | StrategyEnv \<Rightarrow> ''env''
     | StrategyConfig \<Rightarrow> ''config'' | StrategyState \<Rightarrow> ''state'' | StrategyReality \<Rightarrow> ''reality'' | StrategyUserInput \<Rightarrow> ''userInput'')"

section \<open>The effective value of a field\<close>

record 'a effective_value =
  ev_sources :: "'a sources"
  ev_selector :: "'a selector"
  ev_val :: "('a \<times> strategy) option"
  ev_resolveErr :: "err option"

definition NewEffectiveValue :: "'a \<Rightarrow> 'a selector option \<Rightarrow> 'a effective_value" where
  "NewEffectiveValue zero sel = \<lparr>ev_sources = (\<lambda>_. None),
     ev_selector = (case sel of None \<Rightarrow> DefaultSelector_Resolve zero | Some f \<Rightarrow> f), ev_val = None, ev_resolveErr = None\<rparr>"

definition Invalidate :: "'a effective_value \<Rightarrow> 'a effective_value" where
  "Invalidate e = e\<lparr>ev_val := None, ev_resolveErr := None\<rparr>"

definition EV_Resolve :: "intent option \<Rightarrow> 'a effective_value \<Rightarrow> 'a effective_value" where
  "EV_Resolve i e = (if ev_val e = None \<and> ev_resolveErr e = None then
       (case ev_selector e i (ev_sources e) of
          Inl er \<Rightarrow> e\<lparr>ev_val := None, ev_resolveErr := Some er\<rparr>
        | Inr v \<Rightarrow> e\<lparr>ev_val := Some v, ev_resolveErr := None\<rparr>)
     else e)"

text \<open>The value and the error are read from the fields that \<open>Resolve\<close> leaves.\<close>

definition EV_Get :: "'a \<Rightarrow> intent option \<Rightarrow> 'a effective_value \<Rightarrow> 'a \<times> 'a effective_value" where
  "EV_Get zero i e = (let e' = EV_Resolve i e in (case ev_val e' of None \<Rightarrow> zero | Some (v, _) \<Rightarrow> v, e'))"

definition EV_Strategy :: "intent option \<Rightarrow> 'a effective_value \<Rightarrow> strategy \<times> 'a effective_value" where
  "EV_Strategy i e = (let e' = EV_Resolve i e in (case ev_val e' of None \<Rightarrow> StrategyZero | Some (_, st) \<Rightarrow> st, e'))"

definition EV_Err :: "intent option \<Rightarrow> 'a effective_value \<Rightarrow> err option \<times> 'a effective_value" where
  "EV_Err i e = (let e' = EV_Resolve i e in (ev_resolveErr e', e'))"

definition ValOf :: "'a \<Rightarrow> 'a effective_value \<Rightarrow> strategy \<Rightarrow> 'a" where
  "ValOf zero e st = (case ev_sources e st of Some v \<Rightarrow> v | None \<Rightarrow> zero)"

definition SetSource :: "('a \<Rightarrow> unit result) \<Rightarrow> strategy \<Rightarrow> 'a \<Rightarrow> 'a effective_value \<Rightarrow> unit result \<times> 'a effective_value" where
  "SetSource newValue st v e =
     (case newValue v of Inl er \<Rightarrow> (Inl er, e)
      | Inr _ \<Rightarrow> (Inr (), Invalidate (e\<lparr>ev_sources := (ev_sources e)(st := Some v)\<rparr>)))"

definition ClearSource :: "strategy \<Rightarrow> 'a effective_value \<Rightarrow> 'a effective_value" where
  "ClearSource st e = Invalidate (e\<lparr>ev_sources := (ev_sources e)(st := None)\<rparr>)"

definition WithSelector :: "'a \<Rightarrow> 'a selector option \<Rightarrow> 'a effective_value \<Rightarrow> 'a effective_value" where
  "WithSelector zero sel e = Invalidate (e\<lparr>ev_selector := (case sel of None \<Rightarrow> DefaultSelector_Resolve zero | Some f \<Rightarrow> f)\<rparr>)"

definition setOrClearString :: "automa_env \<Rightarrow> strategy \<Rightarrow> string \<Rightarrow> string effective_value \<Rightarrow> string effective_value" where
  "setOrClearString au st v e = (if v \<noteq> [] then snd (SetSource (au_string au) st v e) else ClearSource st e)"

section \<open>The selectors of the block node\<close>

definition deployedTiers :: "strategy list" where
  "deployedTiers = [StrategyReality, StrategyState]"

definition desiredTiers :: "strategy list" where
  "desiredTiers = [StrategyUserInput, StrategyEnv, StrategyConfig, StrategyDefault]"

definition validatedStringResolver :: "string \<Rightarrow> string selector" where
  "validatedStringResolver fieldName i s =
     (case first_source present deployedTiers s of
        Some (v, st) \<Rightarrow> if v = [] then Inl (Err IllegalState (''deployed release cannot have empty '' @ fieldName)) else Inr (v, st)
      | None \<Rightarrow> or_zero [] (first_source present desiredTiers s))"

definition chartRefResolver :: "string selector" where
  "chartRefResolver i s =
     (case first_source (\<lambda>v. v \<noteq> []) deployedTiers s of
        Some p \<Rightarrow> Inr p
      | None \<Rightarrow> or_zero [] (first_source present desiredTiers s))"

definition ActionUpgrade :: string where
  "ActionUpgrade = ''upgrade''"

definition upgradeTiers :: "strategy list" where
  "upgradeTiers = [StrategyUserInput, StrategyConfig, StrategyReality, StrategyState, StrategyDefault]"

definition chartVersionResolver :: "string selector" where
  "chartVersionResolver i s =
     (case i of
        None \<Rightarrow> Inl (Err IllegalState ''intent is not set in block node runtime resolver'')
      | Some intent \<Rightarrow>
          if in_Action intent = ActionUpgrade then
            (if first_source present deployedTiers s = None then Inl (Err IllegalState ''block node is not deployed; cannot perform upgrade'')
             else case first_source present upgradeTiers s of
                    Some p \<Rightarrow> Inr p
                  | None \<Rightarrow> Inl (Err IllegalState ''no chart version available for upgrade''))
          else
            (case first_source present deployedTiers s of
               Some (v, st) \<Rightarrow> if v = [] then Inl (Err IllegalState ''deployed release cannot have empty chart version'') else Inr (v, st)
             | None \<Rightarrow> or_zero [] (first_source present desiredTiers s)))"

text \<open>Step 1 of the storage: the operator's fields; step 2: the deployed fields; step 3: the configured and built-in ones.\<close>

definition storage_user :: "bn_storage sources \<Rightarrow> bn_storage \<times> strategy" where
  "storage_user s = (case s StrategyUserInput of
       Some u \<Rightarrow> if \<not> Storage_IsEmpty u then (u, StrategyUserInput) else (zero_storage, StrategyZero)
     | None \<Rightarrow> (zero_storage, StrategyZero))"

definition merge_source :: "bn_storage sources \<Rightarrow> strategy \<Rightarrow> bn_storage \<Rightarrow> bn_storage" where
  "merge_source s st b = (case s st of Some v \<Rightarrow> MergeFrom b v | None \<Rightarrow> b)"

definition storageResolver :: "automa_env \<Rightarrow> string option \<Rightarrow> bn_storage selector" where
  "storageResolver au cwd i s =
     (let (storage, strat) = storage_user s;
          filled = (case first_source present deployedTiers s of
                      None \<Rightarrow> Inr (storage, strat)
                    | Some (d, st) \<Rightarrow>
                        (case Storage_Validate cwd d of
                           Inl e \<Rightarrow> Inl (wrap IllegalState ''block node runtime state is inconsistent'' e)
                         | Inr _ \<Rightarrow> Inr (MergeFrom storage d, if strat = StrategyZero then st else strat)))
      in rbind filled (\<lambda>(storage, strat).
           let storage = merge_source s StrategyDefault (merge_source s StrategyConfig storage);
               strat = (if strat = StrategyZero
                        then (case first_source (\<lambda>v. \<not> Storage_IsEmpty v) [StrategyConfig, StrategyDefault] s of
                                Some (_, st) \<Rightarrow> st | None \<Rightarrow> StrategyZero)
                        else strat)
           in case au_storage au storage of Inl e \<Rightarrow> Inl e | Inr _ \<Rightarrow> Inr (storage, strat)))"

definition retentionResolver :: "string selector" where
  "retentionResolver i s =
     or_zero [] (first_source (\<lambda>v. v \<noteq> [])
       [StrategyUserInput, StrategyEnv, StrategyConfig, StrategyReality, StrategyState, StrategyDefault] s)"

section \<open>The block node's resolver\<close>

record bn_config =
  bc_Namespace :: string
  bc_Release :: string
  bc_Chart :: string
  bc_ChartVersion :: string
  bc_ChartName :: string
  bc_Storage :: bn_storage
  bc_HistoricRetention :: string
  bc_RecentRetention :: string

record bn_inputs =
  bi_Profile :: string
  bi_Namespace :: string
  bi_Release :: string
  bi_Chart :: string
  bi_ChartName :: string
  bi_ChartVersion :: string
  bi_Storage :: bn_storage
  bi_ValuesFile :: string
  bi_ReuseValues :: bool
  bi_ResetStorage :: bool
  bi_PurgeStorage :: bool
  bi_NoRestart :: bool
  bi_SkipHardwareChecks :: bool
  bi_LoadBalancerEnabled :: bool
  bi_HistoricRetention :: string
  bi_RecentRetention :: string
  bi_PluginPreset :: string
  bi_PluginList :: string
  bi_TrafficShapingEnabled :: bool
  bi_EgressInterface :: string
  bi_LinkRate :: string
  bi_ShapeOverrides :: "(string \<times> shape_override) list"
  bi_Timeout :: int
  bi_StatuszBaseURL :: string
  bi_StatuszPollInterval :: string

record bn_resolver =
  br_state :: "block_node_state option"
  br_refreshInterval :: int
  br_intent :: "intent option"
  br_namespace :: "string effective_value"
  br_releaseName :: "string effective_value"
  br_chartName :: "string effective_value"
  br_chartRef :: "string effective_value"
  br_chartVersion :: "string effective_value"
  br_storage :: "bn_storage effective_value"
  br_historicRetention :: "string effective_value"
  br_recentRetention :: "string effective_value"

definition WithIntent :: "intent \<Rightarrow> bn_resolver \<Rightarrow> bn_resolver" where
  "WithIntent i b = b\<lparr>br_intent := Some i, br_chartVersion := Invalidate (br_chartVersion b)\<rparr>"

definition put_storage :: "automa_env \<Rightarrow> strategy \<Rightarrow> bool \<Rightarrow> bn_storage \<Rightarrow> bn_resolver \<Rightarrow> bn_resolver" where
  "put_storage au st ok v b =
     b\<lparr>br_storage := (if ok then snd (SetSource (au_storage au) st v (br_storage b)) else ClearSource st (br_storage b))\<rparr>"

definition WithUserInputs :: "automa_env \<Rightarrow> string option \<Rightarrow> bn_inputs \<Rightarrow> bn_resolver \<Rightarrow> bn_resolver" where
  "WithUserInputs au cwd inp b =
     (let put = setOrClearString au StrategyUserInput;
          b' = b\<lparr>br_namespace := put (bi_Namespace inp) (br_namespace b),
                 br_releaseName := put (bi_Release inp) (br_releaseName b),
                 br_chartName := put (bi_ChartName inp) (br_chartName b),
                 br_chartRef := put (bi_Chart inp) (br_chartRef b),
                 br_chartVersion := put (bi_ChartVersion inp) (br_chartVersion b),
                 br_historicRetention := put (bi_HistoricRetention inp) (br_historicRetention b),
                 br_recentRetention := put (bi_RecentRetention inp) (br_recentRetention b)\<rparr>
      in put_storage au StrategyUserInput (is_ok (Storage_Validate cwd (bi_Storage inp))) (bi_Storage inp) b')"

text \<open>\<open>WithConfig\<close>, \<open>WithDefaults\<close> and \<open>WithEnv\<close> have one body each, which differs in the strategy only.\<close>

definition put_config :: "automa_env \<Rightarrow> strategy \<Rightarrow> bn_config \<Rightarrow> bn_resolver \<Rightarrow> bn_resolver" where
  "put_config au st cfg b =
     (let put = setOrClearString au st;
          b' = b\<lparr>br_namespace := put (bc_Namespace cfg) (br_namespace b),
                 br_releaseName := put (bc_Release cfg) (br_releaseName b),
                 br_chartName := put (bc_ChartName cfg) (br_chartName b),
                 br_chartRef := put (bc_Chart cfg) (br_chartRef b),
                 br_chartVersion := put (bc_ChartVersion cfg) (br_chartVersion b),
                 br_historicRetention := put (bc_HistoricRetention cfg) (br_historicRetention b),
                 br_recentRetention := put (bc_RecentRetention cfg) (br_recentRetention b)\<rparr>
      in put_storage au st (\<not> Storage_IsEmpty (bc_Storage cfg)) (bc_Storage cfg) b')"

definition WithConfig :: "automa_env \<Rightarrow> bn_config \<Rightarrow> bn_resolver \<Rightarrow> bn_resolver" where
  "WithConfig au = put_config au StrategyConfig"

definition WithDefaults :: "automa_env \<Rightarrow> bn_config \<Rightarrow> bn_resolver \<Rightarrow> bn_resolver" where
  "WithDefaults au = put_config au StrategyDefault"

definition WithEnv :: "automa_env \<Rightarrow> bn_config \<Rightarrow> bn_resolver \<Rightarrow> bn_resolver" where
  "WithEnv au = put_config au StrategyEnv"

definition StatusDeployed :: string where
  "StatusDeployed = ''deployed''"

definition setStateSources :: "automa_env \<Rightarrow> block_node_state \<Rightarrow> strategy \<Rightarrow> bn_resolver \<Rightarrow> bn_resolver" where
  "setStateSources au st strat b =
     (let ri = bn_ReleaseInfo st; set = (\<lambda>v e. snd (SetSource (au_string au) strat v e)) in
      if hr_Status ri \<noteq> StatusDeployed
      then b\<lparr>br_namespace := ClearSource strat (br_namespace b),
             br_releaseName := ClearSource strat (br_releaseName b),
             br_chartName := ClearSource strat (br_chartName b),
             br_chartRef := ClearSource strat (br_chartRef b),
             br_chartVersion := ClearSource strat (br_chartVersion b),
             br_storage := ClearSource strat (br_storage b),
             br_historicRetention := ClearSource strat (br_historicRetention b),
             br_recentRetention := ClearSource strat (br_recentRetention b)\<rparr>
      else b\<lparr>br_namespace := set (hr_Namespace ri) (br_namespace b),
             br_releaseName := set (hr_Name ri) (br_releaseName b),
             br_chartName := set (hr_ChartName ri) (br_chartName b),
             br_chartRef := set (hr_ChartRef ri) (br_chartRef b),
             br_chartVersion := set (hr_ChartVersion ri) (br_chartVersion b),
             br_storage := snd (SetSource (au_storage au) strat (bn_Storage st) (br_storage b)),
             br_historicRetention := setOrClearString au strat (bn_HistoricRetention st) (br_historicRetention b),
             br_recentRetention := setOrClearString au strat (bn_RecentRetention st) (br_recentRetention b)\<rparr>)"

definition WithState :: "automa_env \<Rightarrow> block_node_state \<Rightarrow> bn_resolver \<Rightarrow> bn_resolver" where
  "WithState au st b = setStateSources au st StrategyState (b\<lparr>br_state := Some st\<rparr>)"

text \<open>\<open>now.Sub(LastSync) < refreshInterval\<close>: the distance to Go's zero time saturates and is never less.\<close>

definition is_fresh :: "nat \<Rightarrow> int \<Rightarrow> htime \<Rightarrow> bool" where
  "is_fresh now interval lastSync = (case lastSync of None \<Rightarrow> False | Some t \<Rightarrow> int now - int t < interval)"

definition BN_RefreshState :: "automa_env \<Rightarrow> nat \<Rightarrow> bool \<Rightarrow> block_node_state result \<Rightarrow> bn_resolver \<Rightarrow> unit result \<times> bn_resolver" where
  "BN_RefreshState au now force checked b =
     (if \<not> force \<and> (case br_state b of None \<Rightarrow> False | Some st \<Rightarrow> is_fresh now (br_refreshInterval b) (bn_LastSync st))
      then (Inr (), b)
      else case checked of
             Inl e \<Rightarrow> (Inl (wrap IllegalState ''failed to refresh block node state'' e), b)
           | Inr st \<Rightarrow> (let st' = st\<lparr>bn_LastSync := Some now\<rparr>
                        in (Inr (), setStateSources au st' StrategyReality (b\<lparr>br_state := Some st'\<rparr>))))"

definition BN_CurrentState :: "bn_resolver \<Rightarrow> block_node_state result" where
  "BN_CurrentState b = (case br_state b of None \<Rightarrow> Inl (Err IllegalState ''block node state is not initialized'') | Some st \<Rightarrow> Inr st)"

definition NewBlockNodeRuntimeResolver :: "automa_env \<Rightarrow> string option \<Rightarrow> bn_config \<Rightarrow> block_node_state \<Rightarrow> int \<Rightarrow> bn_resolver" where
  "NewBlockNodeRuntimeResolver au cwd cfg st interval =
     WithState au st (WithConfig au cfg
       \<lparr>br_state = Some st, br_refreshInterval = interval, br_intent = None,
        br_namespace = NewEffectiveValue [] (Some (validatedStringResolver ''namespace'')),
        br_releaseName = NewEffectiveValue [] (Some (validatedStringResolver ''release name'')),
        br_chartName = NewEffectiveValue [] (Some (validatedStringResolver ''chart name'')),
        br_chartRef = NewEffectiveValue [] (Some chartRefResolver),
        br_chartVersion = NewEffectiveValue [] (Some chartVersionResolver),
        br_storage = NewEffectiveValue zero_storage (Some (storageResolver au cwd)),
        br_historicRetention = NewEffectiveValue [] (Some retentionResolver),
        br_recentRetention = NewEffectiveValue [] (Some retentionResolver)\<rparr>)"

text \<open>The accessors resolve their field and hand it out, or return the error of the resolution.\<close>

definition accessed :: "intent option \<Rightarrow> 'a effective_value \<Rightarrow> 'a effective_value result" where
  "accessed i e = (let e' = EV_Resolve i e in case ev_resolveErr e' of Some er \<Rightarrow> Inl er | None \<Rightarrow> Inr e')"

definition Namespace :: "bn_resolver \<Rightarrow> string effective_value result \<times> bn_resolver" where
  "Namespace b = (accessed (br_intent b) (br_namespace b), b\<lparr>br_namespace := EV_Resolve (br_intent b) (br_namespace b)\<rparr>)"

definition ReleaseName :: "bn_resolver \<Rightarrow> string effective_value result \<times> bn_resolver" where
  "ReleaseName b = (accessed (br_intent b) (br_releaseName b), b\<lparr>br_releaseName := EV_Resolve (br_intent b) (br_releaseName b)\<rparr>)"

definition ChartName :: "bn_resolver \<Rightarrow> string effective_value result \<times> bn_resolver" where
  "ChartName b = (accessed (br_intent b) (br_chartName b), b\<lparr>br_chartName := EV_Resolve (br_intent b) (br_chartName b)\<rparr>)"

definition ChartRef :: "bn_resolver \<Rightarrow> string effective_value result \<times> bn_resolver" where
  "ChartRef b = (accessed (br_intent b) (br_chartRef b), b\<lparr>br_chartRef := EV_Resolve (br_intent b) (br_chartRef b)\<rparr>)"

definition ChartVersion :: "bn_resolver \<Rightarrow> string effective_value result \<times> bn_resolver" where
  "ChartVersion b = (accessed (br_intent b) (br_chartVersion b), b\<lparr>br_chartVersion := EV_Resolve (br_intent b) (br_chartVersion b)\<rparr>)"

definition BN_Storage :: "bn_resolver \<Rightarrow> bn_storage effective_value result \<times> bn_resolver" where
  "BN_Storage b = (accessed (br_intent b) (br_storage b), b\<lparr>br_storage := EV_Resolve (br_intent b) (br_storage b)\<rparr>)"

definition HistoricRetention :: "bn_resolver \<Rightarrow> string effective_value result \<times> bn_resolver" where
  "HistoricRetention b = (accessed (br_intent b) (br_historicRetention b),
     b\<lparr>br_historicRetention := EV_Resolve (br_intent b) (br_historicRetention b)\<rparr>)"

definition RecentRetention :: "bn_resolver \<Rightarrow> string effective_value result \<times> bn_resolver" where
  "RecentRetention b = (accessed (br_intent b) (br_recentRetention b),
     b\<lparr>br_recentRetention := EV_Resolve (br_intent b) (br_recentRetention b)\<rparr>)"

section \<open>The resolver of the Teleport agents\<close>

record teleport_config =
  tc_Version :: string
  tc_ValuesFile :: string
  tc_NodeAgentToken :: string
  tc_NodeAgentProxyAddr :: string

record tp_resolver =
  tr_state :: "teleport_state option"
  tr_refreshInterval :: int
  tr_intent :: "intent option"
  tr_token :: "string effective_value"
  tr_proxyAddr :: "string effective_value"
  tr_version :: "string effective_value"
  tr_valuesFile :: "string effective_value"
  tr_namespace :: "string effective_value"
  tr_releaseName :: "string effective_value"

definition TP_WithIntent :: "intent \<Rightarrow> tp_resolver \<Rightarrow> tp_resolver" where
  "TP_WithIntent i t = t\<lparr>tr_intent := Some i\<rparr>"

definition TP_WithUserInputs :: "automa_env \<Rightarrow> string \<Rightarrow> string \<Rightarrow> tp_resolver \<Rightarrow> tp_resolver" where
  "TP_WithUserInputs au token proxyAddr t =
     t\<lparr>tr_token := setOrClearString au StrategyUserInput token (tr_token t),
       tr_proxyAddr := setOrClearString au StrategyUserInput proxyAddr (tr_proxyAddr t)\<rparr>"

definition WithClusterInputs :: "automa_env \<Rightarrow> string \<Rightarrow> string \<Rightarrow> tp_resolver \<Rightarrow> tp_resolver" where
  "WithClusterInputs au ver valuesFile t =
     t\<lparr>tr_version := setOrClearString au StrategyUserInput ver (tr_version t),
       tr_valuesFile := setOrClearString au StrategyUserInput valuesFile (tr_valuesFile t)\<rparr>"

definition put_teleport :: "automa_env \<Rightarrow> strategy \<Rightarrow> teleport_config \<Rightarrow> tp_resolver \<Rightarrow> tp_resolver" where
  "put_teleport au st cfg t =
     t\<lparr>tr_token := setOrClearString au st (tc_NodeAgentToken cfg) (tr_token t),
       tr_proxyAddr := setOrClearString au st (tc_NodeAgentProxyAddr cfg) (tr_proxyAddr t),
       tr_version := setOrClearString au st (tc_Version cfg) (tr_version t),
       tr_valuesFile := setOrClearString au st (tc_ValuesFile cfg) (tr_valuesFile t)\<rparr>"

definition TP_WithConfig :: "automa_env \<Rightarrow> teleport_config \<Rightarrow> tp_resolver \<Rightarrow> tp_resolver" where
  "TP_WithConfig au = put_teleport au StrategyConfig"

definition TP_WithEnv :: "automa_env \<Rightarrow> teleport_config \<Rightarrow> tp_resolver \<Rightarrow> tp_resolver" where
  "TP_WithEnv au = put_teleport au StrategyEnv"

definition TP_WithDefaults :: "automa_env \<Rightarrow> teleport_config \<Rightarrow> tp_resolver \<Rightarrow> tp_resolver" where
  "TP_WithDefaults au cfg t = t\<lparr>tr_version := setOrClearString au StrategyDefault (tc_Version cfg) (tr_version t)\<rparr>"

definition TP_setStateSources :: "automa_env \<Rightarrow> teleport_state \<Rightarrow> strategy \<Rightarrow> tp_resolver \<Rightarrow> tp_resolver" where
  "TP_setStateSources au st strat t =
     (if \<not> tp_ClusterInstalled st
      then t\<lparr>tr_version := ClearSource strat (tr_version t), tr_namespace := ClearSource strat (tr_namespace t),
             tr_releaseName := ClearSource strat (tr_releaseName t)\<rparr>
      else t\<lparr>tr_version := setOrClearString au strat (tp_ClusterChartVersion st) (tr_version t),
             tr_namespace := setOrClearString au strat (tp_ClusterNamespace st) (tr_namespace t),
             tr_releaseName := setOrClearString au strat (tp_ClusterRelease st) (tr_releaseName t)\<rparr>)"

definition TP_WithState :: "automa_env \<Rightarrow> teleport_state \<Rightarrow> tp_resolver \<Rightarrow> tp_resolver" where
  "TP_WithState au st t = TP_setStateSources au st StrategyState (t\<lparr>tr_state := Some st\<rparr>)"

definition TP_RefreshState :: "automa_env \<Rightarrow> nat \<Rightarrow> bool \<Rightarrow> teleport_state result \<Rightarrow> tp_resolver \<Rightarrow> unit result \<times> tp_resolver" where
  "TP_RefreshState au now force checked t =
     (if \<not> force \<and> (case tr_state t of None \<Rightarrow> False | Some st \<Rightarrow> is_fresh now (tr_refreshInterval t) (tp_LastSync st))
      then (Inr (), t)
      else case checked of
             Inl e \<Rightarrow> (Inl (wrap IllegalState ''failed to refresh teleport state'' e), t)
           | Inr st \<Rightarrow> (let st' = st\<lparr>tp_LastSync := Some now\<rparr>
                        in (Inr (), TP_setStateSources au st' StrategyReality (t\<lparr>tr_state := Some st'\<rparr>))))"

text \<open>The namespace and the release of the chart come from the infrastructure catalog, the parameter \<open>chart\<close>.\<close>

definition NewTeleportRuntimeResolver :: "automa_env \<Rightarrow> string \<times> string \<Rightarrow> teleport_config \<Rightarrow> teleport_state \<Rightarrow> int \<Rightarrow> tp_resolver" where
  "NewTeleportRuntimeResolver au chart cfg st interval =
     (let new = NewEffectiveValue [] None in
      TP_WithState au st (TP_WithConfig au cfg
        \<lparr>tr_state = Some st, tr_refreshInterval = interval, tr_intent = None,
         tr_token = new, tr_proxyAddr = new, tr_version = new, tr_valuesFile = new,
         tr_namespace = setOrClearString au StrategyDefault (fst chart) new,
         tr_releaseName = setOrClearString au StrategyDefault (snd chart) new\<rparr>))"

section \<open>A cached value is the value of the present sources\<close>

definition coherent :: "'a selector \<Rightarrow> intent option \<Rightarrow> 'a effective_value \<Rightarrow> bool" where
  "coherent sel i e \<longleftrightarrow> ev_selector e = sel \<and>
     (case (ev_val e, ev_resolveErr e) of
        (None, None) \<Rightarrow> True
      | (Some v, None) \<Rightarrow> sel i (ev_sources e) = Inr v
      | (None, Some er) \<Rightarrow> sel i (ev_sources e) = Inl er
      | (Some _, Some _) \<Rightarrow> False)"

lemma coherent_new [simp]: "coherent sel i (NewEffectiveValue zero (Some sel))"
  by (simp add: coherent_def NewEffectiveValue_def)

lemma coherent_invalidate [intro]: "coherent sel j e \<Longrightarrow> coherent sel i (Invalidate e)"
  by (simp add: coherent_def Invalidate_def)

lemma coherent_set [intro]: "coherent sel i e \<Longrightarrow> coherent sel i (snd (SetSource nv st v e))"
  by (cases "nv v") (auto simp: coherent_def Invalidate_def SetSource_def split: option.splits)

lemma coherent_clear [intro]: "coherent sel i e \<Longrightarrow> coherent sel i (ClearSource st e)"
  by (simp add: coherent_def Invalidate_def ClearSource_def)

lemma coherent_setOrClear [intro]: "coherent sel i e \<Longrightarrow> coherent sel i (setOrClearString au st v e)"
  by (auto simp: setOrClearString_def)

lemma coherent_resolve [intro]: "coherent sel i e \<Longrightarrow> coherent sel i (EV_Resolve i e)"
  by (auto simp: coherent_def EV_Resolve_def split: sum.splits option.splits)

lemma coherent_any_intent: "coherent sel i e \<Longrightarrow> sel j = sel i \<Longrightarrow> coherent sel j e"
  by (auto simp: coherent_def split: option.splits)

text \<open>What a client reads from the field that an accessor hands out.\<close>

definition answer :: "'a \<Rightarrow> intent option \<Rightarrow> 'a effective_value result \<Rightarrow> ('a \<times> strategy) result" where
  "answer zero i r = rbind r (\<lambda>e. Inr (fst (EV_Get zero i e), fst (EV_Strategy i e)))"

lemma answer_accessed: "coherent sel i e \<Longrightarrow> answer zero i (accessed i e) = sel i (ev_sources e)"
  by (auto simp: coherent_def answer_def accessed_def EV_Resolve_def EV_Get_def EV_Strategy_def split: sum.splits option.splits)

lemma sources_resolve [simp]: "ev_sources (EV_Resolve i e) = ev_sources e"
  by (simp add: EV_Resolve_def split: sum.splits)

text \<open>Every state that a sequence of operations of the block node's resolver may reach.\<close>

inductive bn_reach :: "automa_env \<Rightarrow> string option \<Rightarrow> bn_resolver \<Rightarrow> bool" for au cwd where
  new: "bn_reach au cwd (NewBlockNodeRuntimeResolver au cwd cfg st interval)"
| intent: "bn_reach au cwd b \<Longrightarrow> bn_reach au cwd (WithIntent i b)"
| inputs: "bn_reach au cwd b \<Longrightarrow> bn_reach au cwd (WithUserInputs au cwd inp b)"
| config: "bn_reach au cwd b \<Longrightarrow> bn_reach au cwd (WithConfig au cfg b)"
| defaults: "bn_reach au cwd b \<Longrightarrow> bn_reach au cwd (WithDefaults au cfg b)"
| env: "bn_reach au cwd b \<Longrightarrow> bn_reach au cwd (WithEnv au cfg b)"
| state: "bn_reach au cwd b \<Longrightarrow> bn_reach au cwd (WithState au st b)"
| refresh: "bn_reach au cwd b \<Longrightarrow> bn_reach au cwd (snd (BN_RefreshState au now force checked b))"
| namespace: "bn_reach au cwd b \<Longrightarrow> bn_reach au cwd (snd (Namespace b))"
| release: "bn_reach au cwd b \<Longrightarrow> bn_reach au cwd (snd (ReleaseName b))"
| chart: "bn_reach au cwd b \<Longrightarrow> bn_reach au cwd (snd (ChartName b))"
| ref: "bn_reach au cwd b \<Longrightarrow> bn_reach au cwd (snd (ChartRef b))"
| version: "bn_reach au cwd b \<Longrightarrow> bn_reach au cwd (snd (ChartVersion b))"
| storage: "bn_reach au cwd b \<Longrightarrow> bn_reach au cwd (snd (BN_Storage b))"
| historic: "bn_reach au cwd b \<Longrightarrow> bn_reach au cwd (snd (HistoricRetention b))"
| recent: "bn_reach au cwd b \<Longrightarrow> bn_reach au cwd (snd (RecentRetention b))"

definition bn_coherent :: "automa_env \<Rightarrow> string option \<Rightarrow> bn_resolver \<Rightarrow> bool" where
  "bn_coherent au cwd b \<longleftrightarrow>
     coherent (validatedStringResolver ''namespace'') (br_intent b) (br_namespace b) \<and>
     coherent (validatedStringResolver ''release name'') (br_intent b) (br_releaseName b) \<and>
     coherent (validatedStringResolver ''chart name'') (br_intent b) (br_chartName b) \<and>
     coherent chartRefResolver (br_intent b) (br_chartRef b) \<and>
     coherent chartVersionResolver (br_intent b) (br_chartVersion b) \<and>
     coherent (storageResolver au cwd) (br_intent b) (br_storage b) \<and>
     coherent retentionResolver (br_intent b) (br_historicRetention b) \<and>
     coherent retentionResolver (br_intent b) (br_recentRetention b)"

lemma intent_irrelevant:
  "validatedStringResolver f j = validatedStringResolver f i" "chartRefResolver j = chartRefResolver i"
  "storageResolver au cwd j = storageResolver au cwd i" "retentionResolver j = retentionResolver i"
  by (simp_all add: fun_eq_iff validatedStringResolver_def chartRefResolver_def storageResolver_def retentionResolver_def)

lemma bn_coherent_intent: "bn_coherent au cwd b \<Longrightarrow> bn_coherent au cwd (WithIntent i b)"
  by (auto simp: bn_coherent_def WithIntent_def intro: coherent_any_intent intent_irrelevant)

lemma bn_coherent_put_config: "bn_coherent au cwd b \<Longrightarrow> bn_coherent au cwd (put_config au st cfg b)"
  by (auto simp: bn_coherent_def put_config_def put_storage_def Let_def)

lemma bn_coherent_inputs: "bn_coherent au cwd b \<Longrightarrow> bn_coherent au cwd (WithUserInputs au cwd inp b)"
  by (auto simp: bn_coherent_def WithUserInputs_def put_storage_def Let_def)

lemma bn_coherent_sources: "bn_coherent au cwd b \<Longrightarrow> bn_coherent au cwd (setStateSources au st strat (b\<lparr>br_state := x\<rparr>))"
  by (auto simp: bn_coherent_def setStateSources_def Let_def)

lemma bn_coherent_refresh: "bn_coherent au cwd b \<Longrightarrow> bn_coherent au cwd (snd (BN_RefreshState au now force checked b))"
  by (auto simp: BN_RefreshState_def bn_coherent_sources Let_def split: sum.splits)

lemma bn_coherent_new: "bn_coherent au cwd (NewBlockNodeRuntimeResolver au cwd cfg st interval)"
  unfolding NewBlockNodeRuntimeResolver_def WithState_def WithConfig_def
  by (intro bn_coherent_sources bn_coherent_put_config) (simp add: bn_coherent_def)

lemma bn_reach_coherent: "bn_reach au cwd b \<Longrightarrow> bn_coherent au cwd b"
proof (induction rule: bn_reach.induct)
  case new then show ?case by (rule bn_coherent_new)
next
  case intent then show ?case by (intro bn_coherent_intent)
next
  case inputs then show ?case by (intro bn_coherent_inputs)
next
  case refresh then show ?case by (intro bn_coherent_refresh)
next
  case state then show ?case by (auto simp: WithState_def intro: bn_coherent_sources)
next
  case config then show ?case by (simp add: WithConfig_def bn_coherent_put_config)
next
  case defaults then show ?case by (simp add: WithDefaults_def bn_coherent_put_config)
next
  case env then show ?case by (simp add: WithEnv_def bn_coherent_put_config)
qed (auto simp: Namespace_def ReleaseName_def ChartName_def ChartRef_def ChartVersion_def BN_Storage_def HistoricRetention_def
       RecentRetention_def bn_coherent_def)

text \<open>
  C10: However the resolver of the block node was used before (sources set, replaced and removed, the intent changed, the state
  refreshed, fields read), each accessor answers with the value, the strategy or the error that the field's selector gives for
  the sources and the intent of the moment: the cached result is never out of date.
\<close>
theorem resolution_current:
  assumes "bn_reach au cwd b"
  shows "let i = br_intent b in
     answer [] i (fst (Namespace b)) = validatedStringResolver ''namespace'' i (ev_sources (br_namespace b)) \<and>
     answer [] i (fst (ReleaseName b)) = validatedStringResolver ''release name'' i (ev_sources (br_releaseName b)) \<and>
     answer [] i (fst (ChartName b)) = validatedStringResolver ''chart name'' i (ev_sources (br_chartName b)) \<and>
     answer [] i (fst (ChartRef b)) = chartRefResolver i (ev_sources (br_chartRef b)) \<and>
     answer [] i (fst (ChartVersion b)) = chartVersionResolver i (ev_sources (br_chartVersion b)) \<and>
     answer zero_storage i (fst (BN_Storage b)) = storageResolver au cwd i (ev_sources (br_storage b)) \<and>
     answer [] i (fst (HistoricRetention b)) = retentionResolver i (ev_sources (br_historicRetention b)) \<and>
     answer [] i (fst (RecentRetention b)) = retentionResolver i (ev_sources (br_recentRetention b))"
  using bn_reach_coherent[OF assms]
  by (simp add: Let_def bn_coherent_def answer_accessed Namespace_def ReleaseName_def ChartName_def ChartRef_def ChartVersion_def
      BN_Storage_def HistoricRetention_def RecentRetention_def)

text \<open>A host whose state and reality are the release \<open>bn\<close> at version 0.30.0, and a configuration that names version 0.31.0.\<close>

definition demo_au :: automa_env where
  "demo_au = \<lparr>au_string = (\<lambda>_. Inr ()), au_storage = (\<lambda>_. Inr ())\<rparr>"

definition demo_cfg :: bn_config where
  "demo_cfg = \<lparr>bc_Namespace = ''cfg-ns'', bc_Release = ''cfg'', bc_Chart = ''oci://c'', bc_ChartVersion = ''0.31.0'',
     bc_ChartName = ''bn'', bc_Storage = zero_storage, bc_HistoricRetention = [], bc_RecentRetention = []\<rparr>"

definition demo_release :: "string \<Rightarrow> block_node_state" where
  "demo_release ver = NewBlockNodeState\<lparr>bn_ReleaseInfo := \<lparr>hr_Name = ''bn'', hr_ChartVersion = ver, hr_AppVersion = [],
     hr_Namespace = ''ns'', hr_ChartRef = [], hr_ChartName = ''block-node'', hr_Status = StatusDeployed,
     hr_FirstDeployed = None, hr_LastDeployed = None, hr_DeletedAt = None\<rparr>\<rparr>"

definition demo_resolver :: bn_resolver where
  "demo_resolver = snd (BN_RefreshState demo_au 7 True (Inr (demo_release ''0.30.0''))
     (NewBlockNodeRuntimeResolver demo_au None demo_cfg NewBlockNodeState 600))"

lemma demo_resolver_reach: "bn_reach demo_au None demo_resolver"
  unfolding demo_resolver_def by (intro bn_reach.refresh bn_reach.new)

lemmas demo_source_defs = demo_resolver_def demo_release_def demo_cfg_def demo_au_def NewBlockNodeState_def BN_RefreshState_def
  NewBlockNodeRuntimeResolver_def WithState_def WithConfig_def put_config_def put_storage_def setStateSources_def
  setOrClearString_def SetSource_def ClearSource_def Invalidate_def NewEffectiveValue_def StatusDeployed_def Let_def

lemma demo_version_sources:
  "ev_sources (br_chartVersion demo_resolver) = (\<lambda>_. None)(StrategyConfig := Some ''0.31.0'', StrategyReality := Some ''0.30.0'')"
  by (simp add: demo_source_defs fun_eq_iff)

text \<open>The version is read for a reset, and then for an upgrade: the second answer is not the cached one.\<close>

theorem resolution_current_witness:
  "(let b = snd (ChartVersion (WithIntent \<lparr>in_Action = ''reset'', in_Target = ''blocknode''\<rparr> demo_resolver));
        b' = WithIntent \<lparr>in_Action = ''upgrade'', in_Target = ''blocknode''\<rparr> b
    in ev_val (br_chartVersion b) = Some (''0.30.0'', StrategyReality) \<and>
       answer [] (br_intent b') (fst (ChartVersion b')) = Inr (''0.31.0'', StrategyConfig))"
proof -
  define b where "b = snd (ChartVersion (WithIntent \<lparr>in_Action = ''reset'', in_Target = ''blocknode''\<rparr> demo_resolver))"
  define b' where "b' = WithIntent \<lparr>in_Action = ''upgrade'', in_Target = ''blocknode''\<rparr> b"
  have "bn_reach demo_au None b'"
    unfolding b'_def b_def by (intro bn_reach.intent bn_reach.version demo_resolver_reach)
  from resolution_current[OF this] have answer: "answer [] (br_intent b') (fst (ChartVersion b')) =
      chartVersionResolver (br_intent b') (ev_sources (br_chartVersion b'))" by (simp add: Let_def)
  have sources: "ev_sources (br_chartVersion b') = ev_sources (br_chartVersion demo_resolver)"
    by (simp add: b'_def b_def WithIntent_def ChartVersion_def Invalidate_def)
  have "ev_val (br_chartVersion b) = Some (''0.30.0'', StrategyReality)"
    by (simp add: b_def WithIntent_def ChartVersion_def Invalidate_def EV_Resolve_def demo_version_sources chartVersionResolver_def
        ActionUpgrade_def deployedTiers_def present_def) (simp add: demo_source_defs chartVersionResolver_def ActionUpgrade_def deployedTiers_def present_def)
  moreover have "answer [] (br_intent b') (fst (ChartVersion b')) = Inr (''0.31.0'', StrategyConfig)"
    unfolding answer sources demo_version_sources
    by (simp add: b'_def WithIntent_def chartVersionResolver_def ActionUpgrade_def deployedTiers_def upgradeTiers_def present_def)
  ultimately show ?thesis by (simp add: Let_def b_def b'_def)
qed

section \<open>Which source wins\<close>

lemma first_source_blind: "st \<notin> set sts \<Longrightarrow> first_source p sts (s(st := x)) = first_source p sts s"
  by (induction sts) (auto split: option.splits)

lemma first_source_winner:
  "s st = Some v \<Longrightarrow> p v \<Longrightarrow> \<forall>st' \<in> set pre. \<forall>w. s st' = Some w \<longrightarrow> \<not> p w \<Longrightarrow> first_source p (pre @ st # post) s = Some (v, st)"
  by (induction pre) (auto split: option.splits)

lemma first_source_member: "first_source p sts s = Some (v, st) \<Longrightarrow> st \<in> set sts \<and> s st = Some v \<and> p v"
  by (induction sts) (auto split: option.splits if_splits)

text \<open>A selector that walks a list of tiers, takes the first admissible source and never fails.\<close>

locale priority_walk =
  fixes sel :: "'a selector" and admissible :: "'a \<Rightarrow> bool" and tiers :: "strategy list" and zero :: 'a
  assumes walk: "sel i s = or_zero zero (first_source admissible tiers s)"
begin

lemma never_fails: "\<exists>v st. sel i s = Inr (v, st)"
  by (auto simp: walk or_zero_def split: option.splits)

lemma blind: "st \<notin> set tiers \<Longrightarrow> sel i (s(st := x)) = sel i s"
  by (simp add: walk first_source_blind)

lemma winner:
  assumes "tiers = pre @ st # post" "s st = Some v" "admissible v" "\<forall>st' \<in> set pre. \<forall>w. s st' = Some w \<longrightarrow> \<not> admissible w"
  shows "sel i s = Inr (v, st)"
  using assms by (simp add: walk or_zero_def first_source_winner)

lemma from_source:
  assumes "sel i s = Inr (v, st)" "st \<noteq> StrategyZero"
  shows "st \<in> set tiers \<and> s st = Some v \<and> admissible v"
  using assms by (auto simp: walk or_zero_def split: option.splits dest: first_source_member)

end

interpretation standard: priority_walk "DefaultSelector_Resolve zero" present defaultOrderedStrategies zero for zero
  by unfold_locales (simp add: DefaultSelector_Resolve_def)

interpretation retention: priority_walk retentionResolver "\<lambda>v. v \<noteq> []"
    "[StrategyUserInput, StrategyEnv, StrategyConfig, StrategyReality, StrategyState, StrategyDefault]" "[]"
  by unfold_locales (simp add: retentionResolver_def)

text \<open>A retention threshold that the operator sets wins over the deployed one; elsewhere the deployed value wins.\<close>

lemma retention_operator_wins: "s StrategyUserInput = Some v \<Longrightarrow> v \<noteq> [] \<Longrightarrow> retentionResolver i s = Inr (v, StrategyUserInput)"
  by (rule retention.winner[where pre = "[]"]) auto

lemma deployed_wins:
  assumes "s StrategyReality = Some v" "v \<noteq> []"
  shows "validatedStringResolver f i s = Inr (v, StrategyReality)" "chartRefResolver i s = Inr (v, StrategyReality)"
    "i = Some a \<Longrightarrow> in_Action a \<noteq> ActionUpgrade \<Longrightarrow> chartVersionResolver i s = Inr (v, StrategyReality)"
  using assms by (simp_all add: validatedStringResolver_def chartRefResolver_def chartVersionResolver_def deployedTiers_def present_def)

text \<open>The environment is not among the tiers of the storage, nor of the version of an upgrade.\<close>

lemma env_blind:
  "first_source p deployedTiers (s(StrategyEnv := x)) = first_source p deployedTiers s"
  "first_source p upgradeTiers (s(StrategyEnv := x)) = first_source p upgradeTiers s"
  "first_source p [StrategyConfig, StrategyDefault] (s(StrategyEnv := x)) = first_source p [StrategyConfig, StrategyDefault] s"
  by (rule first_source_blind; simp add: deployedTiers_def upgradeTiers_def)+

lemma storage_ignores_env: "storageResolver au cwd i (s(StrategyEnv := x)) = storageResolver au cwd i s"
proof -
  have "storage_user (s(StrategyEnv := x)) = storage_user s"
    and "merge_source (s(StrategyEnv := x)) StrategyConfig = merge_source s StrategyConfig"
    and "merge_source (s(StrategyEnv := x)) StrategyDefault = merge_source s StrategyDefault"
    by (simp_all add: storage_user_def merge_source_def fun_eq_iff)
  then show ?thesis unfolding storageResolver_def env_blind by (simp only:)
qed

lemma upgrade_ignores_env:
  "in_Action a = ActionUpgrade \<Longrightarrow> chartVersionResolver (Some a) (s(StrategyEnv := x)) = chartVersionResolver (Some a) s"
  by (simp add: chartVersionResolver_def env_blind)

text \<open>
  A release that the live cluster no longer has is still the deployed one for the selectors when the persisted state names it:
  the refresh removes the sources of the reality and leaves those of the state.
\<close>

lemma stale_state_wins:
  assumes "\<And>v. au_string au v = Inr ()" "hr_Status (bn_ReleaseInfo st) \<noteq> StatusDeployed"
    and "ev_sources (br_chartVersion b) StrategyState = Some ver" "ver \<noteq> []" "in_Action a \<noteq> ActionUpgrade"
    and refreshed: "BN_RefreshState au now True (Inr st) b = (r, b')"
  shows "chartVersionResolver (Some a) (ev_sources (br_chartVersion (WithUserInputs au cwd inp b'))) = Inr (ver, StrategyState)"
  using assms by (auto simp: BN_RefreshState_def setStateSources_def WithUserInputs_def put_storage_def setOrClearString_def
      SetSource_def ClearSource_def Invalidate_def chartVersionResolver_def deployedTiers_def present_def Let_def)

text \<open>The token and the address of the Teleport node agent never come from the persisted state or the live cluster.\<close>

inductive tp_reach :: "automa_env \<Rightarrow> tp_resolver \<Rightarrow> bool" for au where
  tp_new: "tp_reach au (NewTeleportRuntimeResolver au chart cfg st interval)"
| tp_intent: "tp_reach au t \<Longrightarrow> tp_reach au (TP_WithIntent i t)"
| tp_inputs: "tp_reach au t \<Longrightarrow> tp_reach au (TP_WithUserInputs au token proxyAddr t)"
| tp_cluster: "tp_reach au t \<Longrightarrow> tp_reach au (WithClusterInputs au ver valuesFile t)"
| tp_config: "tp_reach au t \<Longrightarrow> tp_reach au (TP_WithConfig au cfg t)"
| tp_env: "tp_reach au t \<Longrightarrow> tp_reach au (TP_WithEnv au cfg t)"
| tp_defaults: "tp_reach au t \<Longrightarrow> tp_reach au (TP_WithDefaults au cfg t)"
| tp_state: "tp_reach au t \<Longrightarrow> tp_reach au (TP_WithState au st t)"
| tp_refresh: "tp_reach au t \<Longrightarrow> tp_reach au (snd (TP_RefreshState au now force checked t))"

definition undeployed :: "'a effective_value \<Rightarrow> bool" where
  "undeployed e \<longleftrightarrow> ev_sources e StrategyState = None \<and> ev_sources e StrategyReality = None"

lemma undeployed_setOrClear: "undeployed e \<Longrightarrow> st \<notin> set deployedTiers \<Longrightarrow> undeployed (setOrClearString au st v e)"
  by (auto simp: undeployed_def deployedTiers_def setOrClearString_def SetSource_def ClearSource_def Invalidate_def split: sum.splits)

lemma undeployed_sources [simp]:
  "tr_token (TP_setStateSources au st strat t) = tr_token t" "tr_proxyAddr (TP_setStateSources au st strat t) = tr_proxyAddr t"
  by (simp_all add: TP_setStateSources_def)

lemma token_not_from_state: "tp_reach au t \<Longrightarrow> undeployed (tr_token t) \<and> undeployed (tr_proxyAddr t)"
proof (induction rule: tp_reach.induct)
  case tp_refresh
  then show ?case by (auto simp: TP_RefreshState_def Let_def split: sum.splits)
next
  case (tp_new chart cfg st interval)
  have "undeployed (NewEffectiveValue ([] :: string) None)" by (simp add: undeployed_def NewEffectiveValue_def)
  then show ?case
    by (simp add: NewTeleportRuntimeResolver_def TP_WithState_def TP_WithConfig_def put_teleport_def undeployed_setOrClear
        deployedTiers_def Let_def)
qed (simp_all add: undeployed_setOrClear deployedTiers_def TP_WithIntent_def TP_WithUserInputs_def WithClusterInputs_def
       TP_WithConfig_def TP_WithEnv_def TP_WithDefaults_def TP_WithState_def put_teleport_def)

end
