(* ===== verification/BlockNodeIntents.thy ===== *)
theory BlockNodeIntents
  imports EffectiveValue Values ShapeModel
begin

text \<open>
  The business logic of the block node commands (\<open>internal/bll/blocknode\<close>, \<open>pkg/models/intent.go\<close>,
  \<open>internal/workflows/network_setup.go\<close>): which actions are allowed on which targets, the effective inputs of a command, the
  preconditions of each action and the workflow it builds, and what is written into the state after the run. A workflow is
  the list of its steps; what a step does is not part of this theory. The version library, the YAML library and the files
  that are read are parameters.
\<close>

section \<open>Intents\<close>

definition allowedOperations :: "(string \<times> string list) list" where
  "allowedOperations =
     [(''setup'', [''machine'', ''system'', ''cluster'']),
      (''reset'', [''blocknode'', ''machine'', ''system'', ''cluster'', ''application'']),
      (''install'', [''application'', ''blocknode'', ''consensus'', ''mirrornode'', ''relaynode'', ''operator'', ''teleport-node'', ''teleport-cluster'']),
      (''uninstall'', [''application'', ''blocknode'', ''consensus'', ''mirrornode'', ''relaynode'', ''operator'', ''teleport-node'', ''teleport-cluster'']),
      (''upgrade'', [''blocknode'', ''consensus'', ''mirrornode'', ''relaynode'', ''operator'']),
      (''migrate'', [''system'', ''cluster'', ''blocknode'', ''consensus'', ''mirrornode'', ''relaynode'', ''operator'']),
      (''reconfigure'', [''blocknode''])]"

definition Intent_IsValid :: "intent \<Rightarrow> bool" where
  "Intent_IsValid i \<longleftrightarrow> \<not> (in_Action i = [] \<or> in_Target i = []) \<and>
     (case map_of allowedOperations (in_Action i) of None \<Rightarrow> False | Some targets \<Rightarrow> in_Target i \<in> set targets)"

text \<open>\<open>Clone\<close> is documented as a deep copy; it copies the action only.\<close>

definition Intent_Clone :: "intent \<Rightarrow> intent" where
  "Intent_Clone i = \<lparr>in_Action = in_Action i, in_Target = []\<rparr>"

lemma clone_is_invalid: "\<not> Intent_IsValid (Intent_Clone i)"
  by (simp add: Intent_Clone_def Intent_IsValid_def)

datatype handler = InstallHandler | UpgradeHandler | ReconfigureHandler | ResetHandler | UninstallHandler

definition ForAction :: "string \<Rightarrow> handler result" where
  "ForAction action =
     (if action = ''install'' then Inr InstallHandler
      else if action = ActionUpgrade then Inr UpgradeHandler
      else if action = ''reconfigure'' then Inr ReconfigureHandler
      else if action = ''reset'' then Inr ResetHandler
      else if action = ''uninstall'' then Inr UninstallHandler
      else Inl (Err IllegalArgument ''unsupported action for block node''))"

section \<open>Effective inputs\<close>

definition pick :: "'a \<Rightarrow> intent option \<Rightarrow> 'a effective_value \<Rightarrow> 'a" where
  "pick zero i e = fst (EV_Get zero i e)"

text \<open>The egress device and the link rate fall back to the persisted ones.\<close>

definition shaping_fallback :: "bn_resolver \<Rightarrow> bn_inputs \<Rightarrow> string \<times> string" where
  "shaping_fallback b inp =
     (let given = (bi_EgressInterface inp, bi_LinkRate inp) in
      case BN_CurrentState b of
        Inl _ \<Rightarrow> given
      | Inr current \<Rightarrow> (case bn_Shaping current of
            None \<Rightarrow> given
          | Some sp \<Rightarrow> (if fst given = [] then sp_EgressInterface sp else fst given,
                        if snd given = [] then sp_LinkRate sp else snd given)))"

definition resolve_failed :: "string \<Rightarrow> 'a result \<times> bn_resolver \<Rightarrow> 'a result \<times> bn_resolver" where
  "resolve_failed what r = (map_err (\<lambda>_. Err IllegalState (''failed to resolve block node '' @ what)) (fst r), snd r)"

definition resolveBlocknodeEffectiveInputs ::
    "automa_env \<Rightarrow> string option \<Rightarrow> intent \<Rightarrow> bn_inputs \<Rightarrow> (bn_inputs \<Rightarrow> unit result) option \<Rightarrow> (bn_resolver, bn_inputs) action" where
  "resolveBlocknodeEffectiveInputs au cwd intent inp validator b0 =
     (let start = WithUserInputs au cwd inp (WithIntent intent b0); i = Some intent in
      sbind (\<lambda>b. resolve_failed ''release name'' (ReleaseName b)) (\<lambda>rel.
      sbind (\<lambda>b. resolve_failed ''namespace'' (Namespace b)) (\<lambda>ns.
      sbind (\<lambda>b. resolve_failed ''chart name'' (ChartName b)) (\<lambda>chartName.
      sbind (\<lambda>b. resolve_failed ''chart repo'' (ChartRef b)) (\<lambda>chartRef.
      sbind (\<lambda>b. resolve_failed ''chart version'' (ChartVersion b)) (\<lambda>ver.
      sbind (\<lambda>b. resolve_failed ''storage'' (BN_Storage b)) (\<lambda>storage.
      sbind (\<lambda>b. resolve_failed ''historic retention'' (HistoricRetention b)) (\<lambda>historic.
      sbind (\<lambda>b. resolve_failed ''recent retention'' (RecentRetention b)) (\<lambda>recent b.
        let (egress, rate) = shaping_fallback b inp;
            eff = inp\<lparr>bi_Release := pick [] i rel, bi_Namespace := pick [] i ns, bi_ChartName := pick [] i chartName,
                      bi_Chart := pick [] i chartRef, bi_ChartVersion := pick [] i ver, bi_Storage := pick zero_storage i storage,
                      bi_HistoricRetention := pick [] i historic, bi_RecentRetention := pick [] i recent,
                      bi_EgressInterface := egress, bi_LinkRate := rate\<rparr>
        in case validator of
             None \<Rightarrow> (Inr eff, b)
           | Some f \<Rightarrow> (case f eff of Inl e \<Rightarrow> (Inl e, b) | Inr _ \<Rightarrow> (Inr eff, b)))))))))) start)"

text \<open>No handler passes a validator.\<close>

definition PrepareEffectiveInputs :: "automa_env \<Rightarrow> string option \<Rightarrow> intent \<Rightarrow> bn_inputs \<Rightarrow> (bn_resolver, bn_inputs) action" where
  "PrepareEffectiveInputs au cwd intent inp = resolveBlocknodeEffectiveInputs au cwd intent inp None"

section \<open>Steps and workflows\<close>

record statusz_config =
  sz_BaseURL :: string
  sz_PollInterval :: string

datatype step =
    EnsureWeaverOwnerStep
  | NetworkFirewallCreate bool
  | NetworkFirewallDelete
  | NetworkPolicyCreate bool string
  | NetworkPolicyDeleteAll
  | NftWeaverPersist
  | NftServiceTeardown
  | TcEgressPersist string string "(string \<times> ClassOverride) list"
  | TcIngressRecord string string "(string \<times> ClassOverride) list"
  | TcEgressTeardown
  | TcEgressServiceTeardown
  | TcIngressTeardown
  | WriteBlockNodeDaemonConfigStep string statusz_config bool
  | RestartDaemonServiceStep
  | CheckDaemonComponentPrerequisitesStep
  | NodeSetupWorkflow string string bool
  | KubernetesSetupWorkflow
  | SetupBlockNode bn_inputs
  | UpgradeBlockNode bn_inputs
  | ResetBlockNode bn_inputs
  | UninstallBlockNode bn_inputs
  | PurgeBlockNodeStorage bn_inputs
  | RecreateBlockNodeStorage bn_inputs
  | DeleteBlockNodePersistentVolumes bn_inputs
  | RolloutRestartBlockNode bn_inputs
  | Phase string "step list"

type_synonym workflow_plan = "string \<times> step list"

record plane_options =
  po_Force :: bool
  po_TrafficShapingEnabled :: bool
  po_HealthPort :: string
  po_Namespace :: string
  po_Statusz :: statusz_config
  po_EgressInterface :: string
  po_LinkRate :: string
  po_ShapeOverrides :: "(string \<times> ClassOverride) list"
  po_AllowTeardown :: bool
  po_WithDaemonReload :: bool

definition no_statusz :: statusz_config where
  "no_statusz = \<lparr>sz_BaseURL = [], sz_PollInterval = []\<rparr>"

definition NetworkPlaneSteps :: "bool \<Rightarrow> plane_options \<Rightarrow> step list" where
  "NetworkPlaneSteps hostDisabled opts =
     (if po_AllowTeardown opts \<and> hostDisabled then [NetworkFirewallDelete] else [NetworkFirewallCreate (po_AllowTeardown opts)]) @
     (if po_TrafficShapingEnabled opts then
        [NetworkPolicyCreate (po_Force opts) (po_HealthPort opts), NftWeaverPersist,
         TcEgressPersist (po_EgressInterface opts) (po_LinkRate opts) (po_ShapeOverrides opts),
         TcIngressRecord (po_EgressInterface opts) (po_LinkRate opts) (po_ShapeOverrides opts)] @
        (if po_WithDaemonReload opts
         then [WriteBlockNodeDaemonConfigStep (po_Namespace opts) (po_Statusz opts) True, RestartDaemonServiceStep] else [])
      else if po_AllowTeardown opts then
        [NetworkPolicyDeleteAll, TcEgressTeardown] @
        (if po_WithDaemonReload opts
         then [WriteBlockNodeDaemonConfigStep (po_Namespace opts) no_statusz False, RestartDaemonServiceStep] else [])
      else [])"

definition NetworkSetupWorkflow ::
    "bool \<Rightarrow> string \<Rightarrow> string \<Rightarrow> (string \<times> ClassOverride) list \<Rightarrow> bool \<Rightarrow> bool \<Rightarrow> string \<Rightarrow> step" where
  "NetworkSetupWorkflow hostDisabled egressInterface linkRate overrides force enabled healthPort =
     Phase ''block-node-network-setup'' (NetworkPlaneSteps hostDisabled
       \<lparr>po_Force = force, po_TrafficShapingEnabled = enabled, po_HealthPort = healthPort, po_Namespace = [],
        po_Statusz = no_statusz, po_EgressInterface = egressInterface, po_LinkRate = linkRate, po_ShapeOverrides = overrides,
        po_AllowTeardown = False, po_WithDaemonReload = False\<rparr>)"

definition BlockNodeDaemonConfigWorkflow :: "string \<Rightarrow> statusz_config \<Rightarrow> step" where
  "BlockNodeDaemonConfigWorkflow ns statusz = Phase ''block-node-daemon-config''
     [WriteBlockNodeDaemonConfigStep ns statusz True, RestartDaemonServiceStep, CheckDaemonComponentPrerequisitesStep]"

definition toClassOverrides :: "(string \<times> shape_override) list \<Rightarrow> (string \<times> ClassOverride) list" where
  "toClassOverrides inp = map (\<lambda>(name, o'). (name, \<lparr>co_Rate = so_Rate o', co_Ceil = so_Ceil o', co_Prio = so_Prio o'\<rparr>)) inp"

definition statusz_of :: "bn_inputs \<Rightarrow> statusz_config" where
  "statusz_of ins = \<lparr>sz_BaseURL = bi_StatuszBaseURL ins, sz_PollInterval = bi_StatuszPollInterval ins\<rparr>"

definition networkPlaneSteps :: "bool \<Rightarrow> bn_inputs \<Rightarrow> bool \<Rightarrow> bool \<Rightarrow> bool \<Rightarrow> string \<Rightarrow> step list" where
  "networkPlaneSteps hostDisabled ins force enabled allowTeardown healthPort = NetworkPlaneSteps hostDisabled
     \<lparr>po_Force = force, po_TrafficShapingEnabled = enabled, po_HealthPort = healthPort, po_Namespace = bi_Namespace ins,
      po_Statusz = statusz_of ins, po_EgressInterface = bi_EgressInterface ins, po_LinkRate = bi_LinkRate ins,
      po_ShapeOverrides = toClassOverrides (bi_ShapeOverrides ins), po_AllowTeardown = allowTeardown, po_WithDaemonReload = True\<rparr>"

section \<open>The health port\<close>

text \<open>A scalar of a YAML document; a float comes with its value truncated to an integer, anything else with its rendering.\<close>

datatype port_scalar = PNil | PStr string | PInt int | PFloat int | POther string

definition scalarPort :: "port_scalar \<Rightarrow> string" where
  "scalarPort v = (case v of PNil \<Rightarrow> [] | PStr t \<Rightarrow> t | PInt n \<Rightarrow> itoa_int n | PFloat n \<Rightarrow> itoa_int n | POther t \<Rightarrow> t)"

record ('b, 'v) bll_env =
  be_values :: "'b values_env"
  be_health :: "'b \<Rightarrow> port_scalar result"
  be_parse :: "string \<Rightarrow> 'v result"
  be_less :: "'v \<Rightarrow> 'v \<Rightarrow> bool"
  be_equal :: "'v \<Rightarrow> 'v \<Rightarrow> bool"
  be_Host :: host_firewall_state

definition ResolveHealthPort :: "('b, 'v) bll_env \<Rightarrow> string \<Rightarrow> string result" where
  "ResolveHealthPort env valuesFile =
     (if valuesFile = [] then Inr DefaultBlockNodeHealthPort
      else case ve_ReadFile (be_values env) valuesFile of
             Inl e \<Rightarrow> Inl (wrap ExternalError ''read block node values file'' e)
           | Inr data \<Rightarrow> (case be_health env data of
                 Inl e \<Rightarrow> Inl (wrap IllegalFormat ''parse block node values file'' e)
               | Inr v \<Rightarrow> Inr (if scalarPort v \<noteq> [] then scalarPort v else DefaultBlockNodeHealthPort)))"

section \<open>The workflow of each action\<close>

definition is_deployed :: "block_node_state \<Rightarrow> bool" where
  "is_deployed st \<longleftrightarrow> hr_Status (bn_ReleaseInfo st) = StatusDeployed"

definition complete_storage :: "('b, 'v) bll_env \<Rightarrow> bn_inputs \<Rightarrow> unit result" where
  "complete_storage env ins = ValidateStorageCompleteness (bi_Storage ins) (bi_ChartVersion ins)
     (\<not> EffectivePluginsNamesEmpty (be_values env) (bi_PluginList ins) (bi_ValuesFile ins))"

definition setup_steps :: "('b, 'v) bll_env \<Rightarrow> bool \<Rightarrow> bn_inputs \<Rightarrow> string \<Rightarrow> step list" where
  "setup_steps env force ins healthPort =
     [NetworkSetupWorkflow (hf_Disabled (be_Host env)) (bi_EgressInterface ins) (bi_LinkRate ins)
        (toClassOverrides (bi_ShapeOverrides ins)) force (bi_TrafficShapingEnabled ins) healthPort,
      SetupBlockNode ins] @
     (if bi_TrafficShapingEnabled ins then [BlockNodeDaemonConfigWorkflow (bi_Namespace ins) (statusz_of ins)] else [])"

definition Install_BuildWorkflow :: "('b, 'v) bll_env \<Rightarrow> bool \<Rightarrow> block_node_state \<Rightarrow> bool \<Rightarrow> bn_inputs \<Rightarrow> workflow_plan result" where
  "Install_BuildWorkflow env clusterCreated st force ins =
     (if is_deployed st \<and> \<not> force then Inl (Err IllegalState ''block node is already installed; cannot install again'')
      else rbind (complete_storage env ins) (\<lambda>_.
           rbind (ResolveHealthPort env (bi_ValuesFile ins)) (\<lambda>healthPort.
             Inr (''block-node-install'',
               if clusterCreated then EnsureWeaverOwnerStep # setup_steps env force ins healthPort
               else [EnsureWeaverOwnerStep, NodeSetupWorkflow (bi_Profile ins) (bi_PluginPreset ins) (bi_SkipHardwareChecks ins),
                     KubernetesSetupWorkflow] @ setup_steps env force ins healthPort))))"

definition Upgrade_BuildWorkflow :: "('b, 'v) bll_env \<Rightarrow> block_node_state \<Rightarrow> bool \<Rightarrow> bn_inputs \<Rightarrow> workflow_plan result" where
  "Upgrade_BuildWorkflow env st force ins =
     (if \<not> is_deployed st \<and> \<not> force then Inl (Err IllegalState ''block node is not installed; cannot upgrade'')
      else case be_parse env (hr_ChartVersion (bn_ReleaseInfo st)) of
        Inl _ \<Rightarrow> Inl (Err IllegalState ''failed to parse current chart version'')
      | Inr currentVer \<Rightarrow> (case be_parse env (bi_ChartVersion ins) of
        Inl _ \<Rightarrow> Inl (Err IllegalState ''failed to parse desired chart version'')
      | Inr desiredVer \<Rightarrow>
          if be_less env desiredVer currentVer then Inl (Err IllegalArgument ''block node chart version cannot be downgraded'')
          else if be_equal env desiredVer currentVer \<and> \<not> force then Inl (Err IllegalArgument ''block node is already at chart version'')
          else rbind (complete_storage env ins) (\<lambda>_.
               rbind (ResolveHealthPort env (bi_ValuesFile ins)) (\<lambda>healthPort.
               let networkSteps = networkPlaneSteps (hf_Disabled (be_Host env)) ins force (\<not> bn_TrafficShapingDisabled st) False healthPort in
               Inr (if bi_ResetStorage ins
                    then (''block-node-upgrade-with-reset'', networkSteps @ [PurgeBlockNodeStorage ins, UpgradeBlockNode ins])
                    else (''block-node-upgrade'', networkSteps @ [UpgradeBlockNode ins]))))))"

fun opts_changed :: "string list \<Rightarrow> string list \<Rightarrow> bool" where
  "opts_changed d [] = False"
| "opts_changed [] (r # rs) = True"
| "opts_changed (d # ds) (r # rs) = (d \<noteq> r \<or> opts_changed ds rs)"

definition storagePathsChanged :: "string option \<Rightarrow> bn_storage \<Rightarrow> bn_inputs \<Rightarrow> bool result" where
  "storagePathsChanged cwd deployed requested =
     rbind (ResolveStoragePaths cwd deployed (bi_ChartVersion requested)) (\<lambda>(dArchive, dLive, dLog, dOpt).
     rbind (ResolveStoragePaths cwd (bi_Storage requested) (bi_ChartVersion requested)) (\<lambda>(rArchive, rLive, rLog, rOpt).
       Inr (if dArchive \<noteq> rArchive \<or> dLive \<noteq> rLive \<or> dLog \<noteq> rLog then True else opts_changed dOpt rOpt)))"

definition same_paths :: "('b, 'v) bll_env \<Rightarrow> block_node_state \<Rightarrow> bn_inputs \<Rightarrow> unit result" where
  "same_paths env st ins =
     (case storagePathsChanged (ve_cwd (be_values env)) (bn_Storage st) ins of
        Inl e \<Rightarrow> Inl (wrap IllegalState ''failed to compare storage paths'' e)
      | Inr changed \<Rightarrow> if changed then Inl (Err IllegalArgument ''storage paths have changed'') else Inr ())"

definition Reconfigure_BuildWorkflow :: "('b, 'v) bll_env \<Rightarrow> block_node_state \<Rightarrow> bool \<Rightarrow> bn_inputs \<Rightarrow> workflow_plan result" where
  "Reconfigure_BuildWorkflow env st force ins =
     (if \<not> is_deployed st \<and> \<not> force then Inl (Err IllegalState ''block node is not installed; cannot reconfigure'')
      else rbind (complete_storage env ins) (\<lambda>_.
           rbind (ResolveHealthPort env (bi_ValuesFile ins)) (\<lambda>healthPort.
           let networkSteps = networkPlaneSteps (hf_Disabled (be_Host env)) ins force (bi_TrafficShapingEnabled ins) True healthPort;
               oldIns = ins\<lparr>bi_Storage := bn_Storage st\<rparr> in
           if bi_PurgeStorage ins then
             Inr (''block-node-reconfigure-purge-storage'',
               networkSteps @ [PurgeBlockNodeStorage oldIns, RecreateBlockNodeStorage ins, UpgradeBlockNode ins])
           else if bi_ResetStorage ins then
             rbind (same_paths env st ins) (\<lambda>_.
               Inr (''block-node-reconfigure-with-reset'', networkSteps @ [PurgeBlockNodeStorage oldIns, UpgradeBlockNode ins]))
           else
             rbind (same_paths env st ins) (\<lambda>_.
               Inr (if bi_NoRestart ins then (''block-node-reconfigure-no-restart'', networkSteps @ [UpgradeBlockNode ins])
                    else (''block-node-reconfigure'', networkSteps @ [UpgradeBlockNode ins, RolloutRestartBlockNode ins]))))))"

definition Reset_BuildWorkflow :: "block_node_state \<Rightarrow> bool \<Rightarrow> bn_inputs \<Rightarrow> workflow_plan result" where
  "Reset_BuildWorkflow st force ins =
     (if \<not> is_deployed st \<and> \<not> force then Inl (Err IllegalState ''block node is not installed; cannot reset'')
      else Inr (''block-node-reset'', [ResetBlockNode ins]))"

definition withPlaneTeardown :: "bn_inputs \<Rightarrow> step list \<Rightarrow> step list" where
  "withPlaneTeardown ins chartSteps =
     [WriteBlockNodeDaemonConfigStep (bi_Namespace ins) no_statusz False, RestartDaemonServiceStep] @ chartSteps @
     [NetworkPolicyDeleteAll, NftServiceTeardown, TcEgressTeardown, TcEgressServiceTeardown, TcIngressTeardown]"

definition Uninstall_BuildWorkflow :: "block_node_state \<Rightarrow> bool \<Rightarrow> bn_inputs \<Rightarrow> workflow_plan result" where
  "Uninstall_BuildWorkflow st force ins =
     (if \<not> is_deployed st \<and> \<not> force then Inl (Err IllegalState ''block node is not installed; cannot uninstall'')
      else Inr (if bi_PurgeStorage ins then (''block-node-uninstall-purge-storage'',
                  withPlaneTeardown ins [PurgeBlockNodeStorage ins, DeleteBlockNodePersistentVolumes ins, UninstallBlockNode ins])
                else if bi_ResetStorage ins then (''block-node-uninstall-with-reset'',
                  withPlaneTeardown ins [PurgeBlockNodeStorage ins, UninstallBlockNode ins])
                else (''block-node-uninstall'', withPlaneTeardown ins [UninstallBlockNode ins])))"

section \<open>What is written into the state after the run\<close>

definition keep_set :: "string \<Rightarrow> string \<Rightarrow> string" where
  "keep_set v old = (if v \<noteq> [] then v else old)"

definition patchBlockNodeState :: "bn_inputs \<Rightarrow> ('c, 'x) state_record \<Rightarrow> ('c, 'x) state_record" where
  "patchBlockNodeState eff s =
     (let bn = sr_BlockNode s in
      if \<not> is_deployed bn then s
      else s\<lparr>sr_BlockNode := bn\<lparr>
        bn_ReleaseInfo := (bn_ReleaseInfo bn)\<lparr>hr_ChartRef := keep_set (bi_Chart eff) (hr_ChartRef (bn_ReleaseInfo bn))\<rparr>,
        bn_Storage := (bn_Storage bn)\<lparr>bs_BasePath := keep_set (bs_BasePath (bi_Storage eff)) (bs_BasePath (bn_Storage bn))\<rparr>,
        bn_PluginPreset := keep_set (bi_PluginPreset eff) (bn_PluginPreset bn),
        bn_PluginList := keep_set (bi_PluginList eff) (bn_PluginList bn)\<rparr>\<rparr>)"

definition no_firewall :: host_firewall_state where
  "no_firewall = \<lparr>hf_Disabled = False, hf_ManagementCIDRs = [], hf_BlockedCIDRs = [], hf_SSHPort = 0, hf_PodCIDR = [], hf_InClusterPorts = []\<rparr>"

definition patchMachineFirewallFromConfig :: "host_firewall_state \<Rightarrow> ('c, 'x) state_record \<Rightarrow> ('c, 'x) state_record" where
  "patchMachineFirewallFromConfig host s =
     (let fw = (case ms_Firewall (sr_Machine s) of None \<Rightarrow> no_firewall | Some f \<Rightarrow> f);
          fw' = (if \<not> hf_Disabled host \<and> length (hf_ManagementCIDRs host) > 0 then host
                 else fw\<lparr>hf_Disabled := hf_Disabled host\<rparr>)
      in s\<lparr>sr_Machine := (sr_Machine s)\<lparr>ms_Firewall := Some fw'\<rparr>\<rparr>)"

definition patchBlockNodeShaping :: "bn_inputs \<Rightarrow> ('c, 'x) state_record \<Rightarrow> ('c, 'x) state_record" where
  "patchBlockNodeShaping ins s =
     (let bn = sr_BlockNode s;
          overrides = (case bn_Shaping bn of
                         Some sp \<Rightarrow> if bi_ShapeOverrides ins = [] then sp_ShapeOverrides sp else Some (bi_ShapeOverrides ins)
                       | None \<Rightarrow> Some (bi_ShapeOverrides ins))
      in s\<lparr>sr_BlockNode := bn\<lparr>bn_Shaping := Some \<lparr>sp_EgressInterface = bi_EgressInterface ins, sp_LinkRate = bi_LinkRate ins,
           sp_ShapeOverrides = overrides\<rparr>\<rparr>\<rparr>)"

definition patchBlockNodeStateWithTrafficShaping :: "host_firewall_state \<Rightarrow> bn_inputs \<Rightarrow> ('c, 'x) state_record \<Rightarrow> ('c, 'x) state_record" where
  "patchBlockNodeStateWithTrafficShaping host eff s =
     (let s = s\<lparr>sr_BlockNode := (sr_BlockNode s)\<lparr>bn_TrafficShapingDisabled := \<not> bi_TrafficShapingEnabled eff\<rparr>\<rparr>;
          s = patchMachineFirewallFromConfig host s;
          s = (if bi_TrafficShapingEnabled eff then patchBlockNodeShaping eff s else s)
      in patchBlockNodeState eff s)"

text \<open>The patch that each handler hands to the base handler.\<close>

definition patch_of :: "host_firewall_state \<Rightarrow> handler \<Rightarrow> bn_inputs \<Rightarrow> ('c, 'x) state_record \<Rightarrow> ('c, 'x) state_record" where
  "patch_of host h = (case h of
       InstallHandler \<Rightarrow> patchBlockNodeStateWithTrafficShaping host
     | ReconfigureHandler \<Rightarrow> patchBlockNodeStateWithTrafficShaping host
     | _ \<Rightarrow> patchBlockNodeState)"

definition BuildWorkflow :: "('b, 'v) bll_env \<Rightarrow> handler \<Rightarrow> ('c, 'x) state_record \<Rightarrow> bool \<Rightarrow> bn_inputs \<Rightarrow> workflow_plan result" where
  "BuildWorkflow env h s force ins = (case h of
       InstallHandler \<Rightarrow> Install_BuildWorkflow env (cs_Created (sr_Cluster s)) (sr_BlockNode s) force ins
     | UpgradeHandler \<Rightarrow> Upgrade_BuildWorkflow env (sr_BlockNode s) force ins
     | ReconfigureHandler \<Rightarrow> Reconfigure_BuildWorkflow env (sr_BlockNode s) force ins
     | ResetHandler \<Rightarrow> Reset_BuildWorkflow (sr_BlockNode s) force ins
     | UninstallHandler \<Rightarrow> Uninstall_BuildWorkflow (sr_BlockNode s) force ins)"

section \<open>A deployed release keeps its identity\<close>

lemma accessed_ok:
  assumes "coherent sel i e" "sel i (ev_sources e) = Inr (v, st)"
  shows "accessed i e = Inr (EV_Resolve i e)" "pick zero i (EV_Resolve i e) = v"
  using assms by (auto simp: coherent_def accessed_def pick_def EV_Get_def EV_Resolve_def split: option.splits)

lemma prepare_ok:
  assumes start_def: "start = WithUserInputs au cwd inp (WithIntent intent b0)"
    and ok: "bn_coherent au cwd start" and i: "br_intent start = i"
    and sel: "validatedStringResolver ''release name'' i (ev_sources (br_releaseName start)) = Inr (rel, s1)"
      "validatedStringResolver ''namespace'' i (ev_sources (br_namespace start)) = Inr (ns, s2)"
      "validatedStringResolver ''chart name'' i (ev_sources (br_chartName start)) = Inr (cn, s3)"
      "chartRefResolver i (ev_sources (br_chartRef start)) = Inr (cr, s4)"
      "chartVersionResolver i (ev_sources (br_chartVersion start)) = Inr (cv, s5)"
      "storageResolver au cwd i (ev_sources (br_storage start)) = Inr (sto, s6)"
      "retentionResolver i (ev_sources (br_historicRetention start)) = Inr (hist, s7)"
      "retentionResolver i (ev_sources (br_recentRetention start)) = Inr (rec, s8)"
  shows "\<exists>eff b'. PrepareEffectiveInputs au cwd intent inp b0 = (Inr eff, b') \<and> bi_Release eff = rel \<and> bi_Namespace eff = ns \<and>
     bi_ChartName eff = cn \<and> bi_Chart eff = cr \<and> bi_ChartVersion eff = cv \<and> bi_Storage eff = sto \<and>
     bi_HistoricRetention eff = hist \<and> bi_RecentRetention eff = rec"
proof -
  have co: "coherent (validatedStringResolver ''release name'') i (br_releaseName start)"
    "coherent (validatedStringResolver ''namespace'') i (br_namespace start)"
    "coherent (validatedStringResolver ''chart name'') i (br_chartName start)"
    "coherent chartRefResolver i (br_chartRef start)" "coherent chartVersionResolver i (br_chartVersion start)"
    "coherent (storageResolver au cwd) i (br_storage start)"
    "coherent retentionResolver i (br_historicRetention start)" "coherent retentionResolver i (br_recentRetention start)"
    using ok i by (simp_all add: bn_coherent_def)
  have "Some intent = i" using i by (simp add: start_def WithUserInputs_def put_storage_def WithIntent_def Let_def)
  then show ?thesis
    unfolding PrepareEffectiveInputs_def resolveBlocknodeEffectiveInputs_def Let_def start_def[symmetric]
    by (simp add: sbind_def resolve_failed_def ReleaseName_def Namespace_def ChartName_def ChartRef_def ChartVersion_def
        BN_Storage_def HistoricRetention_def RecentRetention_def i accessed_ok[OF co(1) sel(1)] accessed_ok[OF co(2) sel(2)]
        accessed_ok[OF co(3) sel(3)] accessed_ok[OF co(4) sel(4)] accessed_ok[OF co(5) sel(5)] accessed_ok[OF co(6) sel(6)]
        accessed_ok[OF co(7) sel(7)] accessed_ok[OF co(8) sel(8)] split: prod.splits)
qed

lemma SetSource_ok: "nv v = Inr () \<Longrightarrow> ev_sources (snd (SetSource nv st v e)) = (ev_sources e)(st := Some v)"
  by (simp add: SetSource_def Invalidate_def)

lemma sources_setOrClear: "st' \<noteq> st \<Longrightarrow> ev_sources (setOrClearString au st v e) st' = ev_sources e st'"
  by (auto simp: setOrClearString_def SetSource_def ClearSource_def Invalidate_def split: sum.splits)

text \<open>The operator's inputs and the intent leave the sources of the live cluster as they are.\<close>

lemma prepare_keeps_reality:
  assumes go_def: "b' = WithUserInputs au cwd inp (WithIntent intent b)"
  shows "ev_sources (br_namespace b') StrategyReality = ev_sources (br_namespace b) StrategyReality"
    "ev_sources (br_releaseName b') StrategyReality = ev_sources (br_releaseName b) StrategyReality"
    "ev_sources (br_chartName b') StrategyReality = ev_sources (br_chartName b) StrategyReality"
    "ev_sources (br_chartVersion b') StrategyReality = ev_sources (br_chartVersion b) StrategyReality"
    "ev_sources (br_chartRef b') StrategyReality = ev_sources (br_chartRef b) StrategyReality"
    "ev_sources (br_storage b') StrategyReality = ev_sources (br_storage b) StrategyReality"
    "br_intent b' = Some intent"
  unfolding go_def WithUserInputs_def WithIntent_def put_storage_def Let_def
  by (auto simp: sources_setOrClear Invalidate_def SetSource_def ClearSource_def split: sum.splits)

lemma chartRef_total: "\<exists>v st. chartRefResolver i s = Inr (v, st)"
  by (simp add: chartRefResolver_def or_zero_def split: option.splits)

lemma storageResolver_ok:
  assumes "\<And>v. au_storage au v = Inr ()" "s StrategyReality = Some d" "Storage_Validate cwd d = Inr ()"
  shows "\<exists>sto st. storageResolver au cwd i s = Inr (sto, st)"
  using assms by (simp add: storageResolver_def deployedTiers_def present_def Let_def split: prod.splits)

lemma refresh_sets_reality:
  assumes enc: "\<And>v. au_string au v = Inr ()" "\<And>v. au_storage au v = Inr ()"
    and refreshed: "BN_RefreshState au now True (Inr st) b = (r, b1)" and dep: "is_deployed st"
  shows "ev_sources (br_namespace b1) StrategyReality = Some (hr_Namespace (bn_ReleaseInfo st))"
    "ev_sources (br_releaseName b1) StrategyReality = Some (hr_Name (bn_ReleaseInfo st))"
    "ev_sources (br_chartName b1) StrategyReality = Some (hr_ChartName (bn_ReleaseInfo st))"
    "ev_sources (br_chartVersion b1) StrategyReality = Some (hr_ChartVersion (bn_ReleaseInfo st))"
    "ev_sources (br_chartRef b1) StrategyReality = Some (hr_ChartRef (bn_ReleaseInfo st))"
    "ev_sources (br_storage b1) StrategyReality = Some (bn_Storage st)"
  using assms by (auto simp: BN_RefreshState_def setStateSources_def is_deployed_def SetSource_ok Let_def)

text \<open>
  C11: A reconfiguration works on the deployed release. When the live cluster has a complete release and the storage it reports is
  valid, the preparation succeeds, and the release name, the namespace, the chart and its version of the effective inputs are the
  deployed ones, whatever the operator, the environment and the configuration say; so is the chart reference, unless the deployed
  one is empty.
\<close>
theorem deployed_release_locked:
  assumes enc: "\<And>v. au_string au v = Inr ()" "\<And>v. au_storage au v = Inr ()"
    and reach: "bn_reach au cwd b" and refreshed: "BN_RefreshState au now True (Inr st) b = (r, b1)"
    and dep: "is_deployed st" and ri: "ri = bn_ReleaseInfo st"
    and complete: "hr_Name ri \<noteq> []" "hr_Namespace ri \<noteq> []" "hr_ChartName ri \<noteq> []" "hr_ChartVersion ri \<noteq> []"
    and valid: "Storage_Validate cwd (bn_Storage st) = Inr ()" and action: "in_Action intent = ''reconfigure''"
  shows "\<exists>eff b2. PrepareEffectiveInputs au cwd intent inp b1 = (Inr eff, b2) \<and> bi_Release eff = hr_Name ri \<and>
    bi_Namespace eff = hr_Namespace ri \<and> bi_ChartName eff = hr_ChartName ri \<and> bi_ChartVersion eff = hr_ChartVersion ri \<and>
    (hr_ChartRef ri \<noteq> [] \<longrightarrow> bi_Chart eff = hr_ChartRef ri)"
proof -
  have other: "in_Action intent \<noteq> ActionUpgrade" using action by (simp add: ActionUpgrade_def)
  define start where "start = WithUserInputs au cwd inp (WithIntent intent b1)"
  note real = refresh_sets_reality[OF enc refreshed dep, folded ri]
  note keep = prepare_keeps_reality[OF start_def, unfolded real]
  have "bn_reach au cwd start" unfolding start_def
    using bn_reach.refresh[OF reach, of now True "Inr st"] refreshed by (auto intro: bn_reach.inputs bn_reach.intent)
  then have ok: "bn_coherent au cwd start" by (rule bn_reach_coherent)
  obtain cr s4 where cr: "chartRefResolver (Some intent) (ev_sources (br_chartRef start)) = Inr (cr, s4)"
    using chartRef_total by blast
  have cr_locked: "hr_ChartRef ri \<noteq> [] \<longrightarrow> cr = hr_ChartRef ri"
    using cr deployed_wins(2)[where s = "ev_sources (br_chartRef start)", OF keep(5)] by auto
  obtain sto s6 where sto: "storageResolver au cwd (Some intent) (ev_sources (br_storage start)) = Inr (sto, s6)"
    using storageResolver_ok[where s = "ev_sources (br_storage start)", OF enc(2) keep(6) valid] by blast
  obtain hist s7 where hist: "retentionResolver (Some intent) (ev_sources (br_historicRetention start)) = Inr (hist, s7)"
    using retention.never_fails by blast
  obtain rec s8 where rec: "retentionResolver (Some intent) (ev_sources (br_recentRetention start)) = Inr (rec, s8)"
    using retention.never_fails by blast
  from prepare_ok[OF start_def ok keep(7) deployed_wins(1)[where s = "ev_sources (br_releaseName start)", OF keep(2) complete(1)] deployed_wins(1)[where s = "ev_sources (br_namespace start)", OF keep(1) complete(2)]
      deployed_wins(1)[where s = "ev_sources (br_chartName start)", OF keep(3) complete(3)] cr deployed_wins(3)[where s = "ev_sources (br_chartVersion start)", OF keep(4) complete(4) refl other] sto hist rec]
  show ?thesis using cr_locked by blast
qed

definition demo_bn_inputs :: "string \<Rightarrow> string \<Rightarrow> bn_inputs" where
  "demo_bn_inputs ns ver = \<lparr>bi_Profile = ''local'', bi_Namespace = ns, bi_Release = [], bi_Chart = [], bi_ChartName = [],
     bi_ChartVersion = ver, bi_Storage = zero_storage, bi_ValuesFile = [], bi_ReuseValues = False, bi_ResetStorage = False,
     bi_PurgeStorage = False, bi_NoRestart = False, bi_SkipHardwareChecks = False, bi_LoadBalancerEnabled = False,
     bi_HistoricRetention = [], bi_RecentRetention = [], bi_PluginPreset = [], bi_PluginList = [],
     bi_TrafficShapingEnabled = True, bi_EgressInterface = ''eth0'', bi_LinkRate = [], bi_ShapeOverrides = [], bi_Timeout = 0,
     bi_StatuszBaseURL = [], bi_StatuszPollInterval = []\<rparr>"

theorem deployed_release_locked_witness:
  "\<exists>eff b. PrepareEffectiveInputs demo_au None \<lparr>in_Action = ''reconfigure'', in_Target = ''blocknode''\<rparr>
       (demo_bn_inputs ''other'' ''0.99.0'') demo_resolver = (Inr eff, b) \<and> bi_Namespace eff = ''ns'' \<and> bi_ChartVersion eff = ''0.30.0''"
proof -
  define b0 where "b0 = NewBlockNodeRuntimeResolver demo_au None demo_cfg NewBlockNodeState 600"
  have enc: "au_string demo_au v = Inr ()" "au_storage demo_au w = Inr ()" for v w by (simp_all add: demo_au_def)
  have refreshed: "BN_RefreshState demo_au 7 True (Inr (demo_release ''0.30.0'')) b0 = (Inr (), demo_resolver)"
    unfolding demo_resolver_def b0_def[symmetric] by (simp add: BN_RefreshState_def Let_def)
  have valid: "Storage_Validate None (bn_Storage (demo_release ''0.30.0'')) = Inr ()"
    by (simp add: demo_release_def NewBlockNodeState_def zero_storage_def Storage_Validate_def check_path_def check_size_def)
  have "bn_reach demo_au None b0" unfolding b0_def by (rule bn_reach.new)
  from deployed_release_locked[OF enc this refreshed _ refl _ _ _ _ valid,
      where intent = "\<lparr>in_Action = ''reconfigure'', in_Target = ''blocknode''\<rparr>" and inp = "demo_bn_inputs ''other'' ''0.99.0''"]
  show ?thesis by (auto simp: demo_release_def is_deployed_def)
qed

section \<open>What a workflow may do\<close>

fun flat :: "step \<Rightarrow> step list" where
  "flat (Phase _ ss) = concat (map flat ss)"
| "flat s = [s]"

fun is_teardown :: "step \<Rightarrow> bool" where
  "is_teardown NetworkFirewallDelete = True"
| "is_teardown NetworkPolicyDeleteAll = True"
| "is_teardown NftServiceTeardown = True"
| "is_teardown TcEgressTeardown = True"
| "is_teardown TcEgressServiceTeardown = True"
| "is_teardown TcIngressTeardown = True"
| "is_teardown (WriteBlockNodeDaemonConfigStep _ _ enabled) = (\<not> enabled)"
| "is_teardown _ = False"

lemmas plane_defs = networkPlaneSteps_def NetworkPlaneSteps_def NetworkSetupWorkflow_def BlockNodeDaemonConfigWorkflow_def setup_steps_def

lemma opts_changed_eq: "length d = length r \<Longrightarrow> opts_changed d r \<longleftrightarrow> d \<noteq> r"
  by (induction d r rule: opts_changed.induct) auto

lemma resolved_opts_length:
  "ResolveStoragePaths cwd sto v = Inr (a, l, g, os) \<Longrightarrow> length os = length (GetApplicableOptionalStorages v)"
  by (auto simp: ResolveStoragePaths_def rbind_Inr_iff rmap_Inr Let_def split: if_splits dest: list_all2_lengthD)

lemma storagePathsChanged_iff:
  "storagePathsChanged cwd d ins = Inr False \<longleftrightarrow>
     (\<exists>p. ResolveStoragePaths cwd d (bi_ChartVersion ins) = Inr p \<and> ResolveStoragePaths cwd (bi_Storage ins) (bi_ChartVersion ins) = Inr p)"
    (is "?l \<longleftrightarrow> ?r")
proof
  assume ?l
  then obtain a l g os os' where r: "ResolveStoragePaths cwd d (bi_ChartVersion ins) = Inr (a, l, g, os)"
      "ResolveStoragePaths cwd (bi_Storage ins) (bi_ChartVersion ins) = Inr (a, l, g, os')" and "\<not> opts_changed os os'"
    by (auto simp: storagePathsChanged_def rbind_Inr_iff split: if_splits)
  then have "os = os'" using opts_changed_eq resolved_opts_length by metis
  with r show ?r by blast
next
  assume ?r
  then show ?l by (auto simp: storagePathsChanged_def opts_changed_eq)
qed

lemma same_paths_ok: "same_paths env st ins = Inr () \<longleftrightarrow> storagePathsChanged (ve_cwd (be_values env)) (bn_Storage st) ins = Inr False"
  by (auto simp: same_paths_def split: sum.splits if_splits)

text \<open>
  C12: A workflow for a reconfiguration purges data only when the operator asks for it, and then at the deployed paths; it
  recreates the volumes only for \<open>--purge-storage\<close>; and without \<open>--purge-storage\<close> it is built only when the deployed and the
  requested storage resolve to the same paths, because the path of a local volume cannot be changed.
\<close>
theorem reconfigure_storage_safe:
  assumes built: "Reconfigure_BuildWorkflow env st force ins = Inr (name, steps)"
  shows "(\<forall>i. PurgeBlockNodeStorage i \<in> set steps \<longrightarrow> bi_Storage i = bn_Storage st \<and> (bi_PurgeStorage ins \<or> bi_ResetStorage ins)) \<and>
    (\<forall>i. RecreateBlockNodeStorage i \<in> set steps \<longrightarrow> bi_PurgeStorage ins \<and> i = ins) \<and>
    (\<not> bi_PurgeStorage ins \<longrightarrow> (\<exists>p. ResolveStoragePaths (ve_cwd (be_values env)) (bn_Storage st) (bi_ChartVersion ins) = Inr p \<and>
       ResolveStoragePaths (ve_cwd (be_values env)) (bi_Storage ins) (bi_ChartVersion ins) = Inr p))"
proof -
  have plane: "PurgeBlockNodeStorage i \<notin> set (networkPlaneSteps h j f e t p)" "RecreateBlockNodeStorage i \<notin> set (networkPlaneSteps h j f e t p)"
    for i h j f e t p by (auto simp: plane_defs)
  from built show ?thesis
    by (auto simp: Reconfigure_BuildWorkflow_def rbind_Inr_iff plane same_paths_ok storagePathsChanged_iff Let_def split: if_splits)
qed

text \<open>A release at version 0.36.1 with a base path, and an environment without a values file that compares versions as strings.\<close>

definition demo_bll :: "(ymap, string) bll_env" where
  "demo_bll = \<lparr>be_values = demo_values, be_health = (\<lambda>_. Inr PNil), be_parse = Inr, be_less = (<), be_equal = (=),
     be_Host = no_firewall\<rparr>"

definition demo_node :: block_node_state where
  "demo_node = (demo_release ''0.36.1'')\<lparr>bn_Storage := example_storage\<rparr>"

theorem reconfigure_storage_safe_witness:
  "\<exists>steps. Reconfigure_BuildWorkflow demo_bll demo_node False ((demo_bn_inputs ''ns'' ''0.36.1'')\<lparr>bi_Storage := example_storage, bi_ResetStorage := True\<rparr>) =
       Inr (''block-node-reconfigure-with-reset'', steps) \<and> list_ex (\<lambda>x. case x of PurgeBlockNodeStorage _ \<Rightarrow> True | _ \<Rightarrow> False) steps \<and>
     (\<forall>i. PurgeBlockNodeStorage i \<in> set steps \<longrightarrow> bi_Storage i = example_storage)"
proof -
  let ?ins = "(demo_bn_inputs ''ns'' ''0.36.1'')\<lparr>bi_Storage := example_storage, bi_ResetStorage := True\<rparr>"
  have "case Reconfigure_BuildWorkflow demo_bll demo_node False ?ins of
      Inr (n, steps) \<Rightarrow> n = ''block-node-reconfigure-with-reset'' \<and> list_ex (\<lambda>x. case x of PurgeBlockNodeStorage _ \<Rightarrow> True | _ \<Rightarrow> False) steps
    | Inl _ \<Rightarrow> False" by code_simp
  then obtain steps where steps: "Reconfigure_BuildWorkflow demo_bll demo_node False ?ins = Inr (''block-node-reconfigure-with-reset'', steps)"
      "list_ex (\<lambda>x. case x of PurgeBlockNodeStorage _ \<Rightarrow> True | _ \<Rightarrow> False) steps"
    by (auto split: sum.splits)
  have "bn_Storage demo_node = example_storage" by (simp add: demo_node_def)
  with steps reconfigure_storage_safe[OF steps(1)] show ?thesis by auto
qed

text \<open>
  C19: A workflow for an upgrade is built only for a deployed release or with \<open>--force\<close>, never for an older version, and for the
  same version only with \<open>--force\<close>. It takes no part of the network plane down, ends with the upgrade of the chart, and purges
  the storage exactly when a reset was asked for. A workflow for an installation takes no part of the network plane down either.
\<close>
theorem upgrade_safe:
  assumes built: "BuildWorkflow env h s force ins = Inr (name, steps)" and h: "h \<in> {InstallHandler, UpgradeHandler}"
  shows "(\<forall>x \<in> set (concat (map flat steps)). \<not> is_teardown x) \<and>
    (h = UpgradeHandler \<longrightarrow> (is_deployed (sr_BlockNode s) \<or> force) \<and> last steps = UpgradeBlockNode ins \<and>
       ((\<exists>i. PurgeBlockNodeStorage i \<in> set steps) \<longleftrightarrow> bi_ResetStorage ins) \<and>
       (\<exists>cur new. be_parse env (hr_ChartVersion (bn_ReleaseInfo (sr_BlockNode s))) = Inr cur \<and>
          be_parse env (bi_ChartVersion ins) = Inr new \<and> \<not> be_less env new cur \<and> (be_equal env new cur \<longrightarrow> force)))"
proof (cases "h = InstallHandler")
  case True
  with built show ?thesis
    by (auto simp: BuildWorkflow_def Install_BuildWorkflow_def plane_defs rbind_Inr_iff split: if_splits)
next
  case False
  with h built have up: "h = UpgradeHandler" "Upgrade_BuildWorkflow env (sr_BlockNode s) force ins = Inr (name, steps)"
    by (auto simp: BuildWorkflow_def)
  obtain cur new where ver: "be_parse env (hr_ChartVersion (bn_ReleaseInfo (sr_BlockNode s))) = Inr cur"
      "be_parse env (bi_ChartVersion ins) = Inr new" using up(2) by (auto simp: Upgrade_BuildWorkflow_def split: sum.splits if_splits)
  with up(2) obtain port where guards: "is_deployed (sr_BlockNode s) \<or> force" "\<not> be_less env new cur" "be_equal env new cur \<longrightarrow> force"
    and steps: "steps = networkPlaneSteps (hf_Disabled (be_Host env)) ins force (\<not> bn_TrafficShapingDisabled (sr_BlockNode s)) False port @
       (if bi_ResetStorage ins then [PurgeBlockNodeStorage ins, UpgradeBlockNode ins] else [UpgradeBlockNode ins])"
    by (auto simp: Upgrade_BuildWorkflow_def rbind_Inr_iff Let_def split: if_splits)
  show ?thesis unfolding steps using up(1) guards ver by (auto simp: plane_defs)
qed

definition demo_state :: "(unit, unit) state_record" where
  "demo_state = \<lparr>sr_Version = [], sr_Provisioner = \<lparr>pi_Version = [], pi_Commit = [], pi_GoVersion = [], pi_Executable = []\<rparr>,
     sr_Machine = NewMachineState, sr_Cluster = NewClusterState (), sr_BlockNode = demo_node, sr_Teleport = zero_teleport,
     sr_LastAction = \<lparr>ah_Action = [], ah_Target = [], ah_Inputs = (), ah_Timestamp = None\<rparr>\<rparr>"

theorem upgrade_safe_witness:
  "\<exists>steps. BuildWorkflow demo_bll UpgradeHandler demo_state False ((demo_bn_inputs ''ns'' ''0.37.0'')\<lparr>bi_Storage := example_storage\<rparr>) =
       Inr (''block-node-upgrade'', steps) \<and> length steps = 8 \<and> (\<forall>x \<in> set (concat (map flat steps)). \<not> is_teardown x)"
proof -
  let ?ins = "(demo_bn_inputs ''ns'' ''0.37.0'')\<lparr>bi_Storage := example_storage\<rparr>"
  have "case BuildWorkflow demo_bll UpgradeHandler demo_state False ?ins of
      Inr (n, steps) \<Rightarrow> n = ''block-node-upgrade'' \<and> length steps = 8 | Inl _ \<Rightarrow> False" by code_simp
  then obtain steps where steps: "BuildWorkflow demo_bll UpgradeHandler demo_state False ?ins = Inr (''block-node-upgrade'', steps)" "length steps = 8"
    by (auto split: sum.splits)
  from upgrade_safe[OF steps(1)] steps show ?thesis by auto
qed

text \<open>
  An uninstallation turns the monitor of the daemon off before the workload comes down and removes the network plane after it,
  and wipes the data before the volumes disappear.
\<close>

lemma uninstall_order:
  assumes "Uninstall_BuildWorkflow st force ins = Inr (name, steps)"
  shows "\<exists>chart. steps = [WriteBlockNodeDaemonConfigStep (bi_Namespace ins) no_statusz False, RestartDaemonServiceStep] @ chart @
      [NetworkPolicyDeleteAll, NftServiceTeardown, TcEgressTeardown, TcEgressServiceTeardown, TcIngressTeardown] \<and>
    last chart = UninstallBlockNode ins \<and> (\<forall>x \<in> set chart. \<not> is_teardown x) \<and>
    (DeleteBlockNodePersistentVolumes ins \<in> set chart \<longrightarrow>
       chart = [PurgeBlockNodeStorage ins, DeleteBlockNodePersistentVolumes ins, UninstallBlockNode ins])"
  using assms by (auto simp: Uninstall_BuildWorkflow_def withPlaneTeardown_def split: if_splits)

text \<open>
  An upgrade does not compare the storage paths, and purges the requested ones: with new paths the data at the deployed paths
  is kept and the directories at the new paths are wiped.
\<close>

lemma upgrade_purges_requested_paths:
  assumes "Upgrade_BuildWorkflow env st force ins = Inr (name, steps)" "PurgeBlockNodeStorage i \<in> set steps"
  shows "bi_Storage i = bi_Storage ins"
  using assms by (auto simp: Upgrade_BuildWorkflow_def rbind_Inr_iff plane_defs Let_def split: sum.splits if_splits)

section \<open>The state after the run\<close>

lemma patch_projections [simp]:
  "bn_TrafficShapingDisabled (sr_BlockNode (patchBlockNodeState eff s)) = bn_TrafficShapingDisabled (sr_BlockNode s)"
  "bn_Shaping (sr_BlockNode (patchBlockNodeState eff s)) = bn_Shaping (sr_BlockNode s)"
  "sr_Machine (patchBlockNodeState eff s) = sr_Machine s"
  "sr_BlockNode (patchMachineFirewallFromConfig host s) = sr_BlockNode s"
  "sr_Machine (patchBlockNodeShaping eff s) = sr_Machine s"
  "bn_TrafficShapingDisabled (sr_BlockNode (patchBlockNodeShaping eff s)) = bn_TrafficShapingDisabled (sr_BlockNode s)"
  by (simp_all add: patchBlockNodeState_def patchMachineFirewallFromConfig_def patchBlockNodeShaping_def Let_def)

text \<open>An upgrade, a reset and an uninstallation leave the decisions on the network plane as they are.\<close>

lemma patch_keeps_decision:
  assumes "h \<notin> {InstallHandler, ReconfigureHandler}"
  shows "bn_TrafficShapingDisabled (sr_BlockNode (patch_of host h eff s)) = bn_TrafficShapingDisabled (sr_BlockNode s)"
    "bn_Shaping (sr_BlockNode (patch_of host h eff s)) = bn_Shaping (sr_BlockNode s)"
    "sr_Machine (patch_of host h eff s) = sr_Machine s"
  using assms by (cases h; simp add: patch_of_def)+

text \<open>
  An installation or a reconfiguration records the decision on traffic shaping; a request for class overrides that was
  recorded before stays when none is given, and so does the last allowlist of the host firewall when the firewall is
  disabled or its allowlist is empty.
\<close>

lemma patch_records_decision:
  assumes "h \<in> {InstallHandler, ReconfigureHandler}"
  shows "bn_TrafficShapingDisabled (sr_BlockNode (patch_of host h eff s)) = (\<not> bi_TrafficShapingEnabled eff)"
    "bn_Shaping (sr_BlockNode s) = Some sp \<Longrightarrow> bi_ShapeOverrides eff = [] \<Longrightarrow>
       map_option sp_ShapeOverrides (bn_Shaping (sr_BlockNode (patch_of host h eff s))) = Some (sp_ShapeOverrides sp)"
    "ms_Firewall (sr_Machine s) = Some fw \<Longrightarrow> hf_Disabled host \<or> hf_ManagementCIDRs host = [] \<Longrightarrow>
       ms_Firewall (sr_Machine (patch_of host h eff s)) = Some (fw\<lparr>hf_Disabled := hf_Disabled host\<rparr>)"
proof -
  have h: "patch_of host h = patchBlockNodeStateWithTrafficShaping host" using assms by (auto simp: patch_of_def)
  show "bn_TrafficShapingDisabled (sr_BlockNode (patch_of host h eff s)) = (\<not> bi_TrafficShapingEnabled eff)"
    by (simp add: h patchBlockNodeStateWithTrafficShaping_def Let_def)
  show "map_option sp_ShapeOverrides (bn_Shaping (sr_BlockNode (patch_of host h eff s))) = Some (sp_ShapeOverrides sp)"
    if "bn_Shaping (sr_BlockNode s) = Some sp" "bi_ShapeOverrides eff = []"
    using that by (simp add: h patchBlockNodeStateWithTrafficShaping_def Let_def)
      (simp add: patchBlockNodeShaping_def Let_def)
  show "ms_Firewall (sr_Machine (patch_of host h eff s)) = Some (fw\<lparr>hf_Disabled := hf_Disabled host\<rparr>)"
    if "ms_Firewall (sr_Machine s) = Some fw" "hf_Disabled host \<or> hf_ManagementCIDRs host = []"
    using that by (auto simp: h patchBlockNodeStateWithTrafficShaping_def Let_def)
      (auto simp: patchMachineFirewallFromConfig_def Let_def)
qed

lemma routed_actions_valid: "ForAction a = Inr h \<Longrightarrow> Intent_IsValid \<lparr>in_Action = a, in_Target = ''blocknode''\<rparr>"
  by (auto simp: ForAction_def ActionUpgrade_def Intent_IsValid_def allowedOperations_def split: if_splits)

end
