(* ===== verification/Spec2Isabelle.thy ===== *)
theory Spec2Isabelle
  imports PolicyOps ShapeOps FirewallOps DaemonOps StateStore UpgradeMonitor SoakMonitor Fstab BlockNodeIntents
begin

text \<open>
  A verification development for solo-weaver (\<open>solo-provisioner\<close>), a Go program that provisions the hosts of Hedera network
  components. The command line of a host (\<open>cmd/cli\<close>) turns an intent into a workflow that sets up the host, a Kubernetes
  cluster and a block node, and records the outcome in a state file; a daemon (\<open>internal/daemon\<close>) keeps the traffic shaping of
  the block node in step with its peers and oversees upgrades and migrations of a consensus node. Paths below are relative to \<open>src/\<close>.

  \<^bold>\<open>Foundations.\<close> \<open>Prelude\<close> has errors as values, state-passing actions, and the locales \<open>weak_less\<close> and \<open>total_less\<close> that state
  the contract of a comparison handed to \<open>sort.Slice\<close>; every comparison of the program interprets one of them.
  \<open>GoStd\<close>, \<open>Netip\<close>, \<open>NetipText\<close> and \<open>Sha256\<close> model what the code uses of Go's \<open>strings\<close>, \<open>strconv\<close>, \<open>net/netip\<close> and \<open>crypto/sha256\<close> on
  byte strings and words; \<open>Sanity\<close> is \<open>pkg/sanity\<close>, the validators of operator input; \<open>Semver\<close> is \<open>pkg/semver\<close>.

  \<^bold>\<open>Network policy\<close> (\<open>internal/network/policy\<close>). \<open>CidrSet\<close>: set elements, their canonical form, differences, and the single pass that
  prunes contained prefixes, equal to its quadratic definition through the locale \<open>containment\<close>. \<open>PolicyModel\<close>: classes, policies, validation and
  overlap. \<open>PolicyRender\<close>: the nft document byte for byte, the order of its tiers, and exactly when rendering fails. \<open>PolicyManager\<close>: the verbs over a
  registry, a document on disk and a kernel reached through \<open>Runner\<close>. \<open>PolicyOps\<close>: the registry invariant in every
  reachable state under any failures, and what a successful verb leaves behind.

  \<^bold>\<open>Host firewall\<close> (\<open>internal/network/firewall\<close>). \<open>FirewallModel\<close>, \<open>FirewallRender\<close>, \<open>FirewallParse\<close>, \<open>FirewallManager\<close> and \<open>FirewallOps\<close>: rules and the table,
  the declarative file, the rendered document and its recovery by parsing, the verbs, their invariant, the order of dry run and
  writes, and a refinement of a map from names to rules (locale \<open>named_rules\<close>).

  \<^bold>\<open>Traffic shaping\<close> (\<open>internal/network/shape\<close>). \<open>ShapeModel\<close>, \<open>ShapeRender\<close>, \<open>ShapeManager\<close> and \<open>ShapeOps\<close>: classes and devices, bandwidth arithmetic in 64 bits, the
  boot script and the arguments of \<open>tc\<close>, the verbs over the two directories (locale \<open>keyed_files\<close>), and that a stored value cannot become a command.

  \<^bold>\<open>Reconciliation.\<close> \<open>ReconcileModel\<close> and \<open>ReconcileOps\<close> (\<open>internal/blocknode/shaper\<close>): from the statusz answer to the sets of the policy plane, and that a tick
  converges. \<open>DaemonModel\<close> and \<open>DaemonOps\<close> (\<open>internal/daemon/blocknode\<close>, \<open>internal/daemon/privexec\<close>): the pod watcher, the attach goroutines and the
  poll loop interleaved at their atomic points, down to the kernel sets.

  \<^bold>\<open>Consensus node monitors\<close> (\<open>internal/daemon/consensus\<close>). \<open>UpgradeMonitor\<close>: one execution at a time, its retries and the back-off.
  \<open>SoakMonitor\<close>: one soak at a time, the gate of the decommissioning, and the races that the code leaves open.

  \<^bold>\<open>Block node.\<close> \<open>Storage\<close> and \<open>Values\<close> (\<open>internal/blocknode\<close>, \<open>pkg/models/config.go\<close>): paths and volumes by chart version, and the Helm values that are
  forced on the values file of the operator, beside those that are kept. \<open>Migration\<close> (\<open>internal/migration\<close>): which migrations run at startup and at an upgrade.
  \<open>EffectiveValue\<close> (\<open>internal/rsl\<close>): the choice of a value among its sources and the cache in front of it (locale \<open>priority_walk\<close>).
  \<open>BlockNodeIntents\<close> (\<open>internal/bll/blocknode\<close>, \<open>internal/workflows/network_setup.go\<close>): effective inputs, the
  preconditions and the steps of each action, and what is recorded afterwards.

  \<^bold>\<open>State file\<close> (\<open>internal/state\<close>). \<open>CanonicalJson\<close>, \<open>StateSchema\<close> and \<open>StateStore\<close>: the canonical encoding that is hashed, the migration of the schema,
  the manager whose flush never overwrites what another process wrote, and the startup pass on top of it, which repeats a migration
  only if the version could not be recorded.

  \<^bold>\<open>Host files.\<close> \<open>Fstab\<close> (\<open>pkg/os/swap_unix.go\<close>, \<open>internal/mount/mount_unix.go\<close>): turning swap off and on, bind mounts, and the round trips on \<open>/etc/fstab\<close>.

  \<^bold>\<open>Parameters.\<close> The programs \<open>nft\<close> and \<open>tc\<close>, systemd and system calls, the file system beyond the files named in the state, YAML and the reflection of
  \<open>encoding/json\<close>, HTTP, Kubernetes, Helm, the \<open>automa\<close> engine and \<open>Masterminds/semver\<close> are arguments of the definitions; what is relied on is a named
  hypothesis. Messages of errors are abbreviated to their fixed part. Logging and time-outs of contexts are left out.

  \<^bold>\<open>Termination.\<close> Every function is total and no fuel is used. Loops over input are structural or have a measure; the endless loops of
  the daemon are step relations, or recursions over the list of events that they receive.

  \<^bold>\<open>Not modelled.\<close> The flags, prompts and output of the command line, what a workflow step does beyond the component it calls, the wrappers of Kubernetes and
  Helm, the installers of software, the checkers that query the live host, the wiring of the daemon, and rendered templates other than the ones above: these are
  input and output, glue over libraries, or data. \<open>ValidateURL\<close> and \<open>ValidateChartReference\<close> rest on \<open>net/url\<close>.
\<close>

end
